(* ===== verification/Prelude.thy ===== *)
theory Prelude
  imports Main Complex_Main "HOL-Library.Char_ord" "HOL-Library.List_Lexorder"
    "HOL-Library.Product_Lexorder"
begin

text \<open>
  What every component of the model shares: the types of text, identifiers, bytes and clock
  readings, the decimal rendering of Python's f-strings, SQL-like tables kept as lists of rows,
  and the generic facts on lists, options and sums that carry the component proofs.

  A Python \<open>str\<close> that holds prose is a list of code points (\<open>utext\<close>, so that \<open>length\<close> counts
  what \<open>len\<close> counts); an identifier, a key or a literal code of the program is a \<open>string\<close>.
  \<open>time.time()\<close> is a clock: a method gets the sequence of readings it takes, and its \<open>i\<close>-th call
  of \<open>time.time()\<close> reads \<open>clk i\<close>. Floats are exact reals.
\<close>

named_theorems table_simps \<open>lookups after table operations\<close>
named_theorems frame_simps \<open>parts of a state an operation leaves alone\<close>
named_theorems inv_intros \<open>preservation of component invariants\<close>

type_synonym codepoint = nat
type_synonym utext = "codepoint list"
type_synonym byte_string = "nat list"
type_synonym clock = "nat \<Rightarrow> real"

section \<open>Characters and decimal numerals\<close>

text \<open>\<open>str.isspace\<close> of one code point, as \<open>str.split()\<close> and \<open>str.strip()\<close> use it.\<close>

definition py_space :: "codepoint \<Rightarrow> bool" where
  "py_space c \<longleftrightarrow> (9 \<le> c \<and> c \<le> 13) \<or> (28 \<le> c \<and> c \<le> 32) \<or> c = 133 \<or> c = 160 \<or> c = 5760
     \<or> (8192 \<le> c \<and> c \<le> 8202) \<or> c = 8232 \<or> c = 8233 \<or> c = 8239 \<or> c = 8287 \<or> c = 12288"

definition ascii :: "string \<Rightarrow> utext" where
  "ascii s = map of_char s"

definition blank :: "utext \<Rightarrow> bool" where
  "blank t \<longleftrightarrow> list_all py_space t"

fun dec_digits :: "nat \<Rightarrow> nat list" where
  "dec_digits n = (if n < 10 then [n] else dec_digits (n div 10) @ [n mod 10])"

declare dec_digits.simps [simp del]

definition dec :: "nat \<Rightarrow> string" where
  "dec n = map (\<lambda>d. char_of (48 + d)) (dec_digits n)"

lemma dec_digits_bound: "d \<in> set (dec_digits n) \<Longrightarrow> d < 10"
proof (induction n rule: dec_digits.induct)
  case (1 n)
  then show ?case by (subst (asm) (2) dec_digits.simps) (auto split: if_splits)
qed

fun undigits :: "nat list \<Rightarrow> nat" where
  "undigits ds = foldl (\<lambda>a d. 10 * a + d) 0 ds"

lemma undigits_dec_digits: "undigits (dec_digits n) = n"
proof (induction n rule: dec_digits.induct)
  case (1 n)
  then show ?case by (subst dec_digits.simps) auto
qed

definition digit_of :: "nat \<Rightarrow> char" where
  "digit_of d = char_of (48 + d)"

lemma digit_of_inj: "inj_on digit_of {..<10}"
proof (rule inj_onI)
  fix x y :: nat
  assume "x \<in> {..<10}" "y \<in> {..<10}" and eq: "digit_of x = digit_of y"
  then have "(48 + x) mod 256 = (48 + y) mod 256"
    unfolding digit_of_def by (metis of_char_of)
  with \<open>x \<in> {..<10}\<close> \<open>y \<in> {..<10}\<close> show "x = y" by simp
qed

lemma map_digit_of_inj:
  assumes "map digit_of xs = map digit_of ys" "\<forall>d \<in> set xs \<union> set ys. d < 10"
  shows "xs = ys"
  by (rule map_inj_on [OF assms(1)]) (rule inj_on_subset [OF digit_of_inj], use assms(2) in auto)

lemma dec_digit_of: "dec n = map digit_of (dec_digits n)"
  by (simp add: dec_def digit_of_def [abs_def])

lemma dec_inj [simp]: "dec m = dec n \<longleftrightarrow> m = n"
proof
  assume "dec m = dec n"
  then have "dec_digits m = dec_digits n"
    unfolding dec_digit_of by (rule map_digit_of_inj) (auto dest: dec_digits_bound)
  then show "m = n" using undigits_dec_digits by metis
qed simp

text \<open>Numerals padded with zeros, as \<open>f"{n:03d}"\<close> writes them.\<close>

definition pad_left :: "nat \<Rightarrow> string \<Rightarrow> string" where
  "pad_left n s = replicate (n - length s) CHR ''0'' @ s"

lemma foldl_zeros: "foldl (\<lambda>a d. 10 * a + d) (0 :: nat) (replicate n 0 @ ds) = foldl (\<lambda>a d. 10 * a + d) 0 ds"
  by (induction n) simp_all

lemma pad_left_inj [simp]: "pad_left k (dec m) = pad_left k (dec n) \<longleftrightarrow> m = n"
proof
  assume eq: "pad_left k (dec m) = pad_left k (dec n)"
  have zero: "digit_of 0 = CHR ''0''" by code_simp
  have pad: "pad_left k (dec i) = map digit_of (replicate (k - length (dec i)) 0 @ dec_digits i)" for i
    by (simp add: pad_left_def dec_digit_of zero)
  have "replicate (k - length (dec m)) 0 @ dec_digits m = replicate (k - length (dec n)) 0 @ dec_digits n"
    using eq unfolding pad by (rule map_digit_of_inj) (auto dest: dec_digits_bound)
  from arg_cong [OF this, of "foldl (\<lambda>a d. 10 * a + d) 0"] have "undigits (dec_digits m) = undigits (dec_digits n)"
    by (simp only: foldl_zeros undigits.simps)
  then show "m = n" by (simp only: undigits_dec_digits)
qed simp

section \<open>Tables\<close>

text \<open>
  A SQL table is the list of its rows in insertion order. \<open>SELECT ... WHERE key = ?\<close> with
  \<open>fetchone\<close> is \<open>find_row\<close>, \<open>UPDATE ... WHERE\<close> is \<open>update_rows\<close>, \<open>DELETE ... WHERE\<close> is
  \<open>delete_rows\<close>, \<open>INSERT\<close> appends.
\<close>

definition find_row :: "('r \<Rightarrow> 'k) \<Rightarrow> 'k \<Rightarrow> 'r list \<Rightarrow> 'r option" where
  "find_row key k t = find (\<lambda>r. key r = k) t"

definition update_rows :: "('r \<Rightarrow> bool) \<Rightarrow> ('r \<Rightarrow> 'r) \<Rightarrow> 'r list \<Rightarrow> 'r list" where
  "update_rows p f t = map (\<lambda>r. if p r then f r else r) t"

definition delete_rows :: "('r \<Rightarrow> bool) \<Rightarrow> 'r list \<Rightarrow> 'r list" where
  "delete_rows p t = filter (\<lambda>r. \<not> p r) t"

definition count_rows :: "('r \<Rightarrow> bool) \<Rightarrow> 'r list \<Rightarrow> nat" where
  "count_rows p t = length (filter p t)"

definition row_exists :: "('r \<Rightarrow> bool) \<Rightarrow> 'r list \<Rightarrow> bool" where
  "row_exists p t = list_ex p t"

lemma find_row_SomeD: "find_row key k t = Some r \<Longrightarrow> r \<in> set t \<and> key r = k"
  by (auto simp: find_row_def find_Some_iff in_set_conv_nth)

lemma find_row_None: "find_row key k t = None \<longleftrightarrow> k \<notin> key ` set t"
  by (auto simp: find_row_def find_None_iff)

lemma find_row_notin: "k \<notin> key ` set t \<Longrightarrow> find_row key k t = None"
  by (simp add: find_row_None)

lemma find_row_append:
  "find_row key k (t @ u) = (case find_row key k t of Some r \<Rightarrow> Some r | None \<Rightarrow> find_row key k u)"
  by (induction t) (auto simp: find_row_def)

lemma find_row_Cons [simp]:
  "find_row key k (r # t) = (if key r = k then Some r else find_row key k t)"
  by (simp add: find_row_def)

lemma find_row_Nil [simp]: "find_row key k [] = None"
  by (simp add: find_row_def)

lemma find_row_eq_Some:
  "distinct (map key t) \<Longrightarrow> find_row key k t = Some r \<longleftrightarrow> r \<in> set t \<and> key r = k"
  by (induction t) (auto simp: image_iff)

lemma find_row_in: "distinct (map key t) \<Longrightarrow> r \<in> set t \<Longrightarrow> find_row key (key r) t = Some r"
  by (simp add: find_row_eq_Some)

lemma map_key_update_rows: "(\<And>r. p r \<Longrightarrow> key (f r) = key r) \<Longrightarrow> map key (update_rows p f t) = map key t"
  by (auto simp: update_rows_def)

lemma find_row_update_rows:
  "(\<And>r. key (f r) = key r) \<Longrightarrow>
   find_row key k (update_rows p f t) =
     map_option (\<lambda>r. if p r then f r else r) (find_row key k t)"
  by (induction t) (auto simp: update_rows_def)

lemma set_update_rows: "set (update_rows p f t) = (\<lambda>r. if p r then f r else r) ` set t"
  by (simp add: update_rows_def)

lemma set_delete_rows: "set (delete_rows p t) = {r \<in> set t. \<not> p r}"
  by (simp add: delete_rows_def)

lemma find_row_delete_rows:
  "(\<And>r. key r = k \<Longrightarrow> r \<in> set t \<Longrightarrow> \<not> p r) \<Longrightarrow> find_row key k (delete_rows p t) = find_row key k t"
  by (induction t) (auto simp: delete_rows_def)

lemma find_row_delete_key [simp]:
  "find_row key k (delete_rows (\<lambda>r. key r = k') t) = (if k = k' then None else find_row key k t)"
  by (induction t) (auto simp: delete_rows_def)

lemma distinct_delete_rows: "distinct (map key t) \<Longrightarrow> distinct (map key (delete_rows p t))"
  by (induction t) (auto simp: delete_rows_def)

lemma count_rows_Nil [simp]: "count_rows p [] = 0"
  by (simp add: count_rows_def)

lemma count_rows_Cons [simp]: "count_rows p (r # t) = (if p r then 1 else 0) + count_rows p t"
  by (simp add: count_rows_def)

lemma count_rows_append [simp]: "count_rows p (t @ u) = count_rows p t + count_rows p u"
  by (simp add: count_rows_def)

lemma count_rows_delete_le: "count_rows p (delete_rows q t) \<le> count_rows p t"
  by (induction t) (auto simp: delete_rows_def)

lemma count_rows_mono: "(\<And>r. r \<in> set t \<Longrightarrow> p r \<Longrightarrow> q r) \<Longrightarrow> count_rows p t \<le> count_rows q t"
  by (induction t) auto

lemma count_rows_update_le:
  "(\<And>r. r \<in> set t \<Longrightarrow> q r \<Longrightarrow> p (f r) \<Longrightarrow> p r) \<Longrightarrow>
   count_rows p (update_rows q f t) \<le> count_rows p t"
  by (induction t) (auto simp: update_rows_def)

lemma count_rows_unique:
  "distinct (map key t) \<Longrightarrow> count_rows (\<lambda>r. key r = k) t = (if k \<in> key ` set t then 1 else 0)"
  by (induction t) auto

lemma update_rows_Nil [simp]: "update_rows p f [] = []"
  by (simp add: update_rows_def)

lemma update_rows_Cons [simp]: "update_rows p f (r # t) = (if p r then f r else r) # update_rows p f t"
  by (simp add: update_rows_def)

lemma delete_rows_Nil [simp]: "delete_rows p [] = []"
  by (simp add: delete_rows_def)

lemma delete_rows_Cons [simp]: "delete_rows p (r # t) = (if p r then delete_rows p t else r # delete_rows p t)"
  by (simp add: delete_rows_def)

lemma length_update_rows [simp]: "length (update_rows p f t) = length t"
  by (simp add: update_rows_def)

lemma row_exists_iff [simp]: "row_exists p t \<longleftrightarrow> (\<exists>r \<in> set t. p r)"
  by (simp add: row_exists_def list_ex_iff)

section \<open>The contract of a keyed table\<close>

text \<open>
  What the components rely on when they store rows under a primary key: a lookup sees the last
  write of its own key and no other, and every operation keeps the keys unique.
\<close>

locale keyed_table =
  fixes key :: "'r \<Rightarrow> 'k"
    and lookup :: "'t \<Rightarrow> 'k \<Rightarrow> 'r option"
    and add :: "'t \<Rightarrow> 'r \<Rightarrow> 't"
    and modify :: "'k \<Rightarrow> ('r \<Rightarrow> 'r) \<Rightarrow> 't \<Rightarrow> 't"
    and remove :: "'k \<Rightarrow> 't \<Rightarrow> 't"
    and ok :: "'t \<Rightarrow> bool"
  assumes lookup_add: "lookup t (key r) = None \<Longrightarrow>
      lookup (add t r) k = (if k = key r then Some r else lookup t k)"
    and lookup_modify: "(\<And>r. key (f r) = key r) \<Longrightarrow>
      lookup (modify k' f t) k = (if k = k' then map_option f (lookup t k) else lookup t k)"
    and lookup_remove: "lookup (remove k' t) k = (if k = k' then None else lookup t k)"
    and ok_add: "ok t \<Longrightarrow> lookup t (key r) = None \<Longrightarrow> ok (add t r)"
    and ok_modify: "ok t \<Longrightarrow> (\<And>r. key (f r) = key r) \<Longrightarrow> ok (modify k f t)"
    and ok_remove: "ok t \<Longrightarrow> ok (remove k t)"
begin

lemma lookup_add_same: "lookup t (key r) = None \<Longrightarrow> lookup (add t r) (key r) = Some r"
  by (simp add: lookup_add)

lemma lookup_add_other: "lookup t (key r) = None \<Longrightarrow> k \<noteq> key r \<Longrightarrow> lookup (add t r) k = lookup t k"
  by (simp add: lookup_add)

lemma add_remove: "lookup t (key r) = None \<Longrightarrow> lookup (remove (key r) (add t r)) k = lookup t k"
  by (simp add: lookup_add lookup_remove)

lemma modify_keeps_presence: "(\<And>r. key (f r) = key r) \<Longrightarrow>
    lookup (modify k' f t) k = None \<longleftrightarrow> lookup t k = None"
  by (simp add: lookup_modify)

end

lemma list_table: "keyed_table key (\<lambda>t k. find_row key k t) (\<lambda>t r. t @ [r])
    (\<lambda>k f. update_rows (\<lambda>r. key r = k) f) (\<lambda>k. delete_rows (\<lambda>r. key r = k)) (\<lambda>t. distinct (map key t))"
proof
  fix t :: "'a list" and r :: 'a and k :: 'b
  assume "find_row key (key r) t = None"
  then show "find_row key k (t @ [r]) = (if k = key r then Some r else find_row key k t)"
    by (auto simp: find_row_append split: option.splits)
next
  fix f :: "'a \<Rightarrow> 'a" and t :: "'a list" and k k' :: 'b
  assume "\<And>r. key (f r) = key r"
  then show "find_row key k (update_rows (\<lambda>r. key r = k') f t) =
      (if k = k' then map_option f (find_row key k t) else find_row key k t)"
    by (cases "find_row key k t") (auto simp: find_row_update_rows dest: find_row_SomeD)
next
  fix t :: "'a list" and k k' :: 'b
  show "find_row key k (delete_rows (\<lambda>r. key r = k') t) = (if k = k' then None else find_row key k t)"
    by simp
next
  fix t :: "'a list" and r :: 'a
  assume "distinct (map key t)" and "find_row key (key r) t = None"
  then show "distinct (map key (t @ [r]))" by (simp add: find_row_None)
next
  fix t :: "'a list" and f :: "'a \<Rightarrow> 'a" and k :: 'b
  assume "distinct (map key t)" and "\<And>r. key (f r) = key r"
  then show "distinct (map key (update_rows (\<lambda>r. key r = k) f t))"
    by (simp add: map_key_update_rows)
next
  fix t :: "'a list" and k :: 'b
  assume "distinct (map key t)"
  then show "distinct (map key (delete_rows (\<lambda>r. key r = k) t))" by (rule distinct_delete_rows)
qed

section \<open>Reachable states\<close>

inductive reachable :: "('s \<Rightarrow> bool) \<Rightarrow> ('s \<Rightarrow> 'e \<Rightarrow> 's \<Rightarrow> bool) \<Rightarrow> 's \<Rightarrow> bool"
  for init :: "'s \<Rightarrow> bool" and step :: "'s \<Rightarrow> 'e \<Rightarrow> 's \<Rightarrow> bool" where
  reachable_init: "init s \<Longrightarrow> reachable init step s"
| reachable_step: "reachable init step s \<Longrightarrow> step s e t \<Longrightarrow> reachable init step t"

text \<open>A component whose every step keeps an invariant that holds at the start.\<close>

locale invariant_system =
  fixes init :: "'s \<Rightarrow> bool" and step :: "'s \<Rightarrow> 'e \<Rightarrow> 's \<Rightarrow> bool" and inv :: "'s \<Rightarrow> bool"
  assumes init_inv: "init s \<Longrightarrow> inv s"
    and step_inv: "step s e t \<Longrightarrow> inv s \<Longrightarrow> inv t"
begin

lemma reach_inv: "reachable init step s \<Longrightarrow> inv s"
  by (induction rule: reachable.induct) (auto intro: init_inv step_inv)

end

section \<open>Generic facts\<close>

lemma length_filter_le_Suc: "length (filter p xs) \<le> length xs"
  by simp

lemma sum_list_le_filter:
  "(\<And>x. x \<in> set xs \<Longrightarrow> (0::int) \<le> f x) \<Longrightarrow> sum_list (map f (filter p xs)) \<le> sum_list (map f xs)"
  by (induction xs) (auto simp: add_increasing)

lemma sum_list_nonneg_int: "(\<And>x. x \<in> set xs \<Longrightarrow> (0::int) \<le> f x) \<Longrightarrow> 0 \<le> sum_list (map f xs)"
  by (induction xs) auto

lemma distinct_map_filterI: "distinct (map f xs) \<Longrightarrow> distinct (map f (filter p xs))"
  by (induction xs) auto

end
