(* ===== verification/Schema.thy ===== *)
theory Schema
  imports Prelude
begin

text \<open>
  The provenance types of \<open>src/src/ephy_worker/schema.py\<close>. A pydantic class is a record (or a
  datatype for a \<open>Literal\<close>); the \<open>Field\<close> bounds that pydantic enforces when an instance is built are
  a \<open>valid_...\<close> predicate, and the building of an instance from raw values, punctuation rewriting
  included, is a \<open>new_...\<close> function with \<open>None\<close> for a \<open>ValidationError\<close>.
\<close>

section \<open>Limits\<close>

record limits =
  max_queries :: int
  search_requests :: int
  max_sources :: int
  fetch_requests :: int
  model_requests :: int
  job_seconds :: real
  request_seconds :: real
  parser_seconds :: real
  parser_memory_mb :: int
  html_bytes :: int
  pdf_bytes :: int
  text_chars :: int
  pdf_pages :: int
  cache_bytes :: int
  initial_sources :: int
  passage_chars :: int
  selected_passages :: int
  max_redirects :: int

definition default_limits :: limits where
  "default_limits = \<lparr> max_queries = 10, search_requests = 20, max_sources = 12, fetch_requests = 36,
     model_requests = 40, job_seconds = 900, request_seconds = 120, parser_seconds = 20,
     parser_memory_mb = 512, html_bytes = 5 * 1024 ^ 2, pdf_bytes = 20 * 1024 ^ 2,
     text_chars = 200000, pdf_pages = 100, cache_bytes = 128 * 1024 ^ 2, initial_sources = 5,
     passage_chars = 1600, selected_passages = 24, max_redirects = 5 \<rparr>"

definition valid_limits :: "limits \<Rightarrow> bool" where
  "valid_limits l \<longleftrightarrow>
     1 \<le> max_queries l \<and> max_queries l \<le> 30 \<and>
     1 \<le> search_requests l \<and> search_requests l \<le> 100 \<and>
     1 \<le> max_sources l \<and> max_sources l \<le> 30 \<and>
     1 \<le> fetch_requests l \<and> fetch_requests l \<le> 100 \<and>
     1 \<le> model_requests l \<and> model_requests l \<le> 100 \<and>
     0 < job_seconds l \<and> job_seconds l \<le> 7200 \<and>
     0 < request_seconds l \<and> request_seconds l \<le> 600 \<and>
     0 < parser_seconds l \<and> parser_seconds l \<le> 120 \<and>
     128 \<le> parser_memory_mb l \<and> parser_memory_mb l \<le> 2048 \<and>
     1024 \<le> html_bytes l \<and> html_bytes l \<le> 20 * 1024 ^ 2 \<and>
     1024 \<le> pdf_bytes l \<and> pdf_bytes l \<le> 50 * 1024 ^ 2 \<and>
     1000 \<le> text_chars l \<and> text_chars l \<le> 1000000 \<and>
     1 \<le> pdf_pages l \<and> pdf_pages l \<le> 500 \<and>
     1024 \<le> cache_bytes l \<and> cache_bytes l \<le> 512 * 1024 ^ 2 \<and>
     4 \<le> initial_sources l \<and> initial_sources l \<le> 6 \<and>
     200 \<le> passage_chars l \<and> passage_chars l \<le> 4000 \<and>
     4 \<le> selected_passages l \<and> selected_passages l \<le> 80 \<and>
     0 \<le> max_redirects l \<and> max_redirects l \<le> 10"

lemma valid_default_limits [simp]: "valid_limits default_limits"
  by (simp add: valid_limits_def default_limits_def)

section \<open>Punctuation of prose fields\<close>

text \<open>\<open>ProseModel.japanese_punctuation\<close>: U+3001 and U+3002 become U+FF0C and U+FF0E.\<close>

definition normalize_char :: "codepoint \<Rightarrow> codepoint" where
  "normalize_char c = (if c = 12289 then 65292 else if c = 12290 then 65294 else c)"

definition japanese_punctuation :: "utext \<Rightarrow> utext" where
  "japanese_punctuation t = map normalize_char t"

lemma length_japanese_punctuation [simp]: "length (japanese_punctuation t) = length t"
  by (simp add: japanese_punctuation_def)

lemma japanese_punctuation_idem [simp]:
  "japanese_punctuation (japanese_punctuation t) = japanese_punctuation t"
  by (induction t) (auto simp: japanese_punctuation_def normalize_char_def)

section \<open>Plans and queries\<close>

datatype query_role = Overview | PrimaryRole | Limitations | Gap

record query =
  q_text :: utext
  q_role :: query_role
  q_reason :: utext

definition new_query :: "utext \<Rightarrow> query_role \<Rightarrow> utext \<Rightarrow> query option" where
  "new_query t r w =
     (if 1 \<le> length t \<and> length t \<le> 240 \<and> 1 \<le> length w \<and> length w \<le> 1000
      then Some \<lparr> q_text = japanese_punctuation t, q_role = r, q_reason = japanese_punctuation w \<rparr>
      else None)"

record plan =
  p_subquestions :: "utext list"
  p_queries :: "query list"

definition new_plan :: "utext list \<Rightarrow> query list \<Rightarrow> plan option" where
  "new_plan subs qs =
     (if 1 \<le> length subs \<and> length subs \<le> 8 \<and> 3 \<le> length qs \<and> length qs \<le> 5
      then Some \<lparr> p_subquestions = map japanese_punctuation subs, p_queries = qs \<rparr>
      else None)"

section \<open>Candidates, passages and sources\<close>

record candidate =
  c_url :: string
  c_title :: utext
  c_snippet :: utext
  c_query_id :: string
  c_engine :: string
  c_rank :: int
  c_discovered_at :: string
  c_supplied :: bool

record passage =
  pa_passage_id :: string
  pa_source_id :: string
  pa_text :: utext
  pa_page :: "nat option"
  pa_start :: int
  pa_end :: int

datatype source_kind = KHtml | KPdf | KUnknown

datatype source_status =
    SOk | SPartial | SBlocked | SHttpError | SNetworkError | SUnsupported | SExtractionFailed
  | SImageOnly | SEncrypted | SInvalid | STimeout | SLimit

record source =
  so_source_id :: string
  so_requested_url :: string
  so_final_url :: "string option"
  so_title :: utext
  so_query_ids :: "string list"
  so_engines :: "string list"
  so_supplied :: bool
  so_fetched_at :: string
  so_http_status :: "nat option"
  so_media_type :: "string option"
  so_kind :: source_kind
  so_status :: source_status
  so_error :: "string option"
  so_body_hash :: "string option"
  so_extractor :: "string option"
  so_bytes_received :: int
  so_publisher :: "utext option"
  so_author :: "utext option"
  so_published_at :: "string option"
  so_metadata_evidence :: "(string \<times> utext) list"
  so_origin_urls :: "string list"
  so_passages :: "passage list"
  so_page_count :: "nat option"
  so_page_statuses :: "(string \<times> string) list"
  so_read_passage_ids :: "string list"
  so_limitations :: "utext list"

text \<open>\<open>Source(source_id=..., requested_url=..., fetched_at=now)\<close> with the declared defaults.\<close>

definition new_source :: "string \<Rightarrow> string \<Rightarrow> string \<Rightarrow> source" where
  "new_source sid url now =
     \<lparr> so_source_id = sid, so_requested_url = url, so_final_url = None, so_title = [],
       so_query_ids = [], so_engines = [], so_supplied = False, so_fetched_at = now,
       so_http_status = None, so_media_type = None, so_kind = KUnknown,
       so_status = SExtractionFailed, so_error = None, so_body_hash = None, so_extractor = None,
       so_bytes_received = 0, so_publisher = None, so_author = None, so_published_at = None,
       so_metadata_evidence = [], so_origin_urls = [], so_passages = [], so_page_count = None,
       so_page_statuses = [], so_read_passage_ids = [], so_limitations = [] \<rparr>"

definition usable_source :: "source \<Rightarrow> bool" where
  "usable_source s \<longleftrightarrow> so_status s = SOk \<or> so_status s = SPartial"

end
