(* ===== verification/Contracts.thy ===== *)
theory Contracts
  imports Schema
begin

text \<open>
  The manager/worker contract 0.4 of \<open>src/src/ephy_worker/contracts.py\<close>: job kinds, modes and
  states, the capabilities a job needs, the typed inputs, results and artifact references, and
  the conditions under which pydantic accepts them. NFKC normalisation of \<open>unicodedata\<close> and the
  size of a payload's canonical JSON are parameters. An aware datetime is its POSIX instant;
  \<open>oi_utc_offset\<close> keeps the offset the one validator that looks at it needs.
\<close>

section \<open>Constants and capabilities\<close>

definition CONTRACT_VERSION :: string where "CONTRACT_VERSION = ''0.4''"
definition COLLECT_CAPABILITY :: string where "COLLECT_CAPABILITY = ''web.collect''"
definition OBSERVE_CAPABILITY :: string where "OBSERVE_CAPABILITY = ''discord.observe''"
definition MAX_OBSERVE_BYTES :: nat where "MAX_OBSERVE_BYTES = 8 * 1024 ^ 2"

datatype job_kind = WebCollect | DiscordObserve
datatype job_mode = SearchMode | ExtractMode | ObserveMode
datatype job_state =
  Queued | Running | CancelRequested | Completed | Partial | Failed | Cancelled | Lost

definition TERMINAL_STATES :: "job_state list" where
  "TERMINAL_STATES = [Completed, Partial, Failed, Cancelled, Lost]"

abbreviation terminal :: "job_state \<Rightarrow> bool" where
  "terminal st \<equiv> st \<in> set TERMINAL_STATES"

definition JOB_STATES :: "job_state list" where
  "JOB_STATES = [Queued, Running, CancelRequested] @ TERMINAL_STATES"

datatype wait_reason =
    NoEligibleWorker | TargetWorkerUnregistered | TargetWorkerOffline
  | TargetWorkerCapabilityMismatch | TargetWorkerContractMismatch

lemma terminal_simps [simp]:
  "terminal Completed" "terminal Partial" "terminal Failed" "terminal Cancelled" "terminal Lost"
  "\<not> terminal Queued" "\<not> terminal Running" "\<not> terminal CancelRequested"
  by (simp_all add: TERMINAL_STATES_def)

lemma not_terminal_iff: "\<not> terminal st \<longleftrightarrow> st = Queued \<or> st = Running \<or> st = CancelRequested"
  by (cases st) simp_all

definition observation_capability :: "string \<Rightarrow> string \<Rightarrow> string" where
  "observation_capability guild channel = ''discord.observe.channel.'' @ guild @ ''.'' @ channel"

section \<open>Patterns\<close>

definition digit_char :: "char \<Rightarrow> bool" where
  "digit_char c \<longleftrightarrow> 48 \<le> (of_char c :: nat) \<and> (of_char c :: nat) \<le> 57"

definition alnum_char :: "char \<Rightarrow> bool" where
  "alnum_char c \<longleftrightarrow> digit_char c
     \<or> (65 \<le> (of_char c :: nat) \<and> (of_char c :: nat) \<le> 90)
     \<or> (97 \<le> (of_char c :: nat) \<and> (of_char c :: nat) \<le> 122)"

definition id_char :: "char \<Rightarrow> bool" where
  "id_char c \<longleftrightarrow> alnum_char c \<or> c = CHR ''.'' \<or> c = CHR ''_'' \<or> c = CHR ''-''"

text \<open>\<open>^[A-Za-z0-9._-]+$\<close> with a length bound.\<close>

definition id_string :: "nat \<Rightarrow> nat \<Rightarrow> string \<Rightarrow> bool" where
  "id_string lo hi s \<longleftrightarrow> 1 \<le> length s \<and> lo \<le> length s \<and> length s \<le> hi \<and> list_all id_char s"

text \<open>\<open>SnowflakeString\<close>: \<open>^[1-9][0-9]{0,19}$\<close>.\<close>

definition snowflake :: "string \<Rightarrow> bool" where
  "snowflake s \<longleftrightarrow> 1 \<le> length s \<and> length s \<le> 20 \<and> list_all digit_char s \<and> hd s \<noteq> CHR ''0''"

definition hex_char :: "char \<Rightarrow> bool" where
  "hex_char c \<longleftrightarrow> digit_char c \<or> (97 \<le> (of_char c :: nat) \<and> (of_char c :: nat) \<le> 102)"

definition sha256_string :: "string \<Rightarrow> bool" where
  "sha256_string s \<longleftrightarrow> length s = 64 \<and> list_all hex_char s"

section \<open>Job inputs\<close>

record job_query =
  jq_query_id :: string
  jq_text :: utext
  jq_role :: query_role
  jq_reason :: utext

text \<open>\<open>JobQuery.readable\<close>; \<open>nfkc\<close> is \<open>unicodedata.normalize("NFKC", _)\<close>.\<close>

definition readable :: "(utext \<Rightarrow> utext) \<Rightarrow> utext \<Rightarrow> bool" where
  "readable nfkc v \<longleftrightarrow> \<not> blank (nfkc v) \<and> length (nfkc v) = length v"

definition valid_job_query :: "(utext \<Rightarrow> utext) \<Rightarrow> job_query \<Rightarrow> bool" where
  "valid_job_query nfkc q \<longleftrightarrow> id_string 1 64 (jq_query_id q)
     \<and> 1 \<le> length (jq_text q) \<and> length (jq_text q) \<le> 500
     \<and> 1 \<le> length (jq_reason q) \<and> length (jq_reason q) \<le> 500
     \<and> readable nfkc (jq_text q) \<and> readable nfkc (jq_reason q)"

definition job_query_from_query :: "(utext \<Rightarrow> utext) \<Rightarrow> query \<Rightarrow> string \<Rightarrow> job_query option" where
  "job_query_from_query nfkc q i =
     (let r = \<lparr> jq_query_id = i, jq_text = q_text q, jq_role = q_role q, jq_reason = q_reason q \<rparr>
      in if valid_job_query nfkc r then Some r else None)"

record search_input =
  si_topic :: utext
  si_round_index :: int
  si_queries :: "job_query list"

record extract_input =
  ei_topic :: utext
  ei_round_index :: int
  ei_candidates :: "candidate list"

record observe_input =
  oi_guild_id :: string
  oi_channel_ids :: "string list"
  oi_observed_before :: real
  oi_utc_offset :: real
  oi_lookback_days :: int
  oi_max_messages_per_channel :: int

definition valid_search_input :: "(utext \<Rightarrow> utext) \<Rightarrow> search_input \<Rightarrow> bool" where
  "valid_search_input nfkc i \<longleftrightarrow> 1 \<le> length (si_topic i) \<and> length (si_topic i) \<le> 500
     \<and> 0 \<le> si_round_index i \<and> si_round_index i \<le> 8
     \<and> 1 \<le> length (si_queries i) \<and> length (si_queries i) \<le> 10
     \<and> list_all (valid_job_query nfkc) (si_queries i)"

definition valid_extract_input :: "extract_input \<Rightarrow> bool" where
  "valid_extract_input i \<longleftrightarrow> 1 \<le> length (ei_topic i) \<and> length (ei_topic i) \<le> 500
     \<and> 0 \<le> ei_round_index i \<and> ei_round_index i \<le> 8
     \<and> 1 \<le> length (ei_candidates i) \<and> length (ei_candidates i) \<le> 30
     \<and> distinct (map c_url (ei_candidates i))"

definition valid_observe_input :: "observe_input \<Rightarrow> bool" where
  "valid_observe_input i \<longleftrightarrow> snowflake (oi_guild_id i)
     \<and> 1 \<le> length (oi_channel_ids i) \<and> length (oi_channel_ids i) \<le> 30
     \<and> list_all snowflake (oi_channel_ids i) \<and> distinct (oi_channel_ids i)
     \<and> oi_utc_offset i = 0 \<and> oi_lookback_days i = 30
     \<and> 1 \<le> oi_max_messages_per_channel i \<and> oi_max_messages_per_channel i \<le> 2000"

datatype job_input = SearchIn search_input | ExtractIn extract_input | ObserveIn observe_input

fun input_mode :: "job_input \<Rightarrow> job_mode" where
  "input_mode (SearchIn _) = SearchMode"
| "input_mode (ExtractIn _) = ExtractMode"
| "input_mode (ObserveIn _) = ObserveMode"

fun valid_input :: "(utext \<Rightarrow> utext) \<Rightarrow> job_input \<Rightarrow> bool" where
  "valid_input nfkc (SearchIn i) = valid_search_input nfkc i"
| "valid_input nfkc (ExtractIn i) = valid_extract_input i"
| "valid_input nfkc (ObserveIn i) = valid_observe_input i"

text \<open>\<open>required_job_capabilities\<close>; \<open>None\<close> is its \<open>ValueError\<close>.\<close>

fun required_job_capabilities :: "job_kind \<Rightarrow> job_mode \<Rightarrow> job_input \<Rightarrow> string list option" where
  "required_job_capabilities DiscordObserve ObserveMode (ObserveIn i) =
     Some (OBSERVE_CAPABILITY # map (observation_capability (oi_guild_id i)) (oi_channel_ids i))"
| "required_job_capabilities WebCollect SearchMode _ = Some [COLLECT_CAPABILITY]"
| "required_job_capabilities WebCollect ExtractMode _ = Some [COLLECT_CAPABILITY]"
| "required_job_capabilities _ _ _ = None"

section \<open>Submission and registration\<close>

record submit_job =
  s_contract :: string
  s_submit_key :: string
  s_parent_job_id :: "string option"
  s_kind :: job_kind
  s_input :: job_input
  s_target_worker_id :: string
  s_budget :: limits
  s_deadline_seconds :: real

definition valid_submit :: "(utext \<Rightarrow> utext) \<Rightarrow> submit_job \<Rightarrow> bool" where
  "valid_submit nfkc s \<longleftrightarrow> s_contract s = CONTRACT_VERSION
     \<and> 1 \<le> length (s_submit_key s) \<and> length (s_submit_key s) \<le> 200
     \<and> (case s_parent_job_id s of None \<Rightarrow> True | Some p \<Rightarrow> 8 \<le> length p \<and> length p \<le> 128)
     \<and> valid_input nfkc (s_input s)
     \<and> id_string 1 128 (s_target_worker_id s)
     \<and> valid_limits (s_budget s)
     \<and> 0 < s_deadline_seconds s \<and> s_deadline_seconds s \<le> 3600
     \<and> ((s_kind s = DiscordObserve) = (input_mode (s_input s) = ObserveMode))"

record registration =
  r_contract :: string
  r_worker_id :: string
  r_capabilities :: "string list"
  r_implementation_version :: string
  r_os :: string
  r_architecture :: string
  r_concurrency :: nat

definition valid_registration :: "registration \<Rightarrow> bool" where
  "valid_registration r \<longleftrightarrow> r_contract r = CONTRACT_VERSION
     \<and> id_string 1 128 (r_worker_id r) \<and> r_worker_id r \<noteq> ''auto''
     \<and> 1 \<le> length (r_capabilities r) \<and> length (r_capabilities r) \<le> 32
     \<and> COLLECT_CAPABILITY \<in> set (r_capabilities r)
     \<and> 1 \<le> length (r_implementation_version r) \<and> length (r_implementation_version r) \<le> 128
     \<and> 1 \<le> length (r_os r) \<and> length (r_os r) \<le> 64
     \<and> 1 \<le> length (r_architecture r) \<and> length (r_architecture r) \<le> 64
     \<and> 1 \<le> r_concurrency r \<and> r_concurrency r \<le> 16"

text \<open>A valid submission asks for capabilities the contract knows.\<close>

lemma valid_submit_capabilities:
  assumes "valid_submit nfkc s"
  obtains caps where "required_job_capabilities (s_kind s) (input_mode (s_input s)) (s_input s) = Some caps"
  using assms by (cases "s_input s"; cases "s_kind s") (auto simp: valid_submit_def)

end
