(* ===== verification/Results.thy ===== *)
theory Results
  imports Contracts
begin

text \<open>
  The result side of the contract (\<open>contracts.py\<close>, from \<open>JobUsage\<close> on), and the activity summary
  of \<open>discord_observer.py\<close> that the manager recomputes before it accepts an observation.
\<close>

section \<open>Usage, diagnostics and failures\<close>

record usage =
  u_search_requests :: int
  u_search_credits :: int
  u_fetch_requests :: int
  u_document_bytes :: int
  u_model_requests :: int

definition no_usage :: usage where
  "no_usage = \<lparr> u_search_requests = 0, u_search_credits = 0, u_fetch_requests = 0,
     u_document_bytes = 0, u_model_requests = 0 \<rparr>"

definition valid_usage :: "usage \<Rightarrow> bool" where
  "valid_usage u \<longleftrightarrow> 0 \<le> u_search_requests u \<and> 0 \<le> u_search_credits u \<and> 0 \<le> u_fetch_requests u
     \<and> 0 \<le> u_document_bytes u \<and> 0 \<le> u_model_requests u"

record diagnostic =
  di_engine :: string
  di_unresponsive :: bool
  di_reasons :: "string list"
  di_result_count :: int
  di_code :: "string option"

definition valid_diagnostic :: "diagnostic \<Rightarrow> bool" where
  "valid_diagnostic d \<longleftrightarrow> 1 \<le> length (di_engine d) \<and> length (di_engine d) \<le> 64
     \<and> length (di_reasons d) \<le> 8 \<and> 0 \<le> di_result_count d
     \<and> (case di_code d of None \<Rightarrow> True | Some c \<Rightarrow> 1 \<le> length c \<and> length c \<le> 128)"

datatype query_status = QOk | QFailed | QLimit

record query_result =
  qr_query_id :: string
  qr_text :: utext
  qr_role :: query_role
  qr_reason :: utext
  qr_status :: query_status
  qr_result_count :: int
  qr_diagnostic :: diagnostic

definition valid_query_result :: "query_result \<Rightarrow> bool" where
  "valid_query_result q \<longleftrightarrow> 1 \<le> length (qr_query_id q) \<and> length (qr_query_id q) \<le> 64
     \<and> 1 \<le> length (qr_text q) \<and> length (qr_text q) \<le> 500
     \<and> 1 \<le> length (qr_reason q) \<and> length (qr_reason q) \<le> 500
     \<and> 0 \<le> qr_result_count q \<and> valid_diagnostic (qr_diagnostic q)"

datatype failure_stage = FSearch | FFetch | FWorker | FArtifact

record failure =
  fl_stage :: failure_stage
  fl_query_id :: "string option"
  fl_source_id :: "string option"
  fl_code :: string
  fl_detail :: "utext option"

definition opt_len :: "nat \<Rightarrow> nat \<Rightarrow> 'a list option \<Rightarrow> bool" where
  "opt_len lo hi x \<longleftrightarrow> (case x of None \<Rightarrow> True | Some s \<Rightarrow> lo \<le> length s \<and> length s \<le> hi)"

definition valid_failure :: "failure \<Rightarrow> bool" where
  "valid_failure f \<longleftrightarrow> opt_len 1 64 (fl_query_id f) \<and> opt_len 1 64 (fl_source_id f)
     \<and> 1 \<le> length (fl_code f) \<and> length (fl_code f) \<le> 128 \<and> opt_len 1 1000 (fl_detail f)"

record artifact_ref =
  ar_artifact_id :: string
  ar_name :: string
  ar_media_type :: string
  ar_bytes :: int
  ar_sha256 :: string
  ar_schema_version :: int

definition valid_artifact_ref :: "artifact_ref \<Rightarrow> bool" where
  "valid_artifact_ref r \<longleftrightarrow> id_string 8 128 (ar_artifact_id r)
     \<and> 1 \<le> length (ar_name r) \<and> length (ar_name r) \<le> 200
     \<and> 3 \<le> length (ar_media_type r) \<and> length (ar_media_type r) \<le> 128
     \<and> 1 \<le> ar_bytes r \<and> sha256_string (ar_sha256 r)
     \<and> 1 \<le> ar_schema_version r \<and> ar_schema_version r \<le> 16"

record search_payload =
  sp_queries :: "query_result list"
  sp_candidates :: "candidate list"
  sp_failures :: "failure list"

record extract_payload =
  ep_sources :: "source list"
  ep_failures :: "failure list"

section \<open>Observations\<close>

record observed_guild =
  og_id :: string
  og_name :: utext
  og_description :: "utext option"
  og_approximate_member_count :: "int option"

record observed_channel =
  oc_id :: string
  oc_guild_id :: string
  oc_name :: utext
  oc_type :: int
  oc_parent_id :: "string option"

record observed_role =
  or_id :: string
  or_name :: utext
  or_permissions :: string

record observe_snapshot =
  os_guild :: "observed_guild option"
  os_channels :: "observed_channel list"
  os_roles :: "observed_role list"

datatype content_status = Available | EmptyOrUnavailable | NotRequested

record observed_message =
  m_guild_id :: string
  m_channel_id :: string
  m_message_id :: string
  m_author_id :: string
  m_author_bot :: bool
  m_operator :: bool
  m_created_at :: real
  m_edited_at :: "real option"
  m_reply_to_message_id :: "string option"
  m_permalink :: string
  m_content :: "utext option"
  m_content_status :: content_status
  m_content_truncated :: bool

definition permalink :: "string \<Rightarrow> string \<Rightarrow> string \<Rightarrow> string" where
  "permalink g c m = ''https://discord.com/channels/'' @ g @ ''/'' @ c @ ''/'' @ m"

text \<open>\<open>ObservedMessage.grounded_content\<close>: the link names the message, and content is there exactly
  when its status says so (\<open>bool(None)\<close> and \<open>bool("")\<close> are false).\<close>

definition valid_message :: "observed_message \<Rightarrow> bool" where
  "valid_message m \<longleftrightarrow> snowflake (m_guild_id m) \<and> snowflake (m_channel_id m)
     \<and> snowflake (m_message_id m) \<and> snowflake (m_author_id m)
     \<and> (case m_reply_to_message_id m of None \<Rightarrow> True | Some r \<Rightarrow> snowflake r)
     \<and> length (m_permalink m) \<le> 200 \<and> opt_len 0 4000 (m_content m)
     \<and> m_permalink m = permalink (m_guild_id m) (m_channel_id m) (m_message_id m)
     \<and> (m_content_status m = Available) = (case m_content m of None \<Rightarrow> False | Some t \<Rightarrow> t \<noteq> [])"

record channel_activity =
  ca_channel_id :: string
  ca_message_count :: int
  ca_unique_authors :: int

record daily_activity =
  da_date :: string
  da_message_count :: int

record activity =
  ac_period_days :: int
  ac_message_count :: int
  ac_unique_authors :: int
  ac_human_messages :: int
  ac_bot_messages :: int
  ac_operator_messages :: int
  ac_nonoperator_messages :: int
  ac_reply_messages :: int
  ac_operator_reply_messages :: int
  ac_nonoperator_reply_messages :: int
  ac_operator_conversation_starts :: int
  ac_nonoperator_conversation_starts :: int
  ac_channels :: "channel_activity list"
  ac_daily :: "daily_activity list"

datatype coverage_status = CComplete | CPartial | CUnavailable
datatype history_permission = Granted | Denied | UnknownPermission

record channel_coverage =
  cc_channel_id :: string
  cc_status :: coverage_status
  cc_reason :: "string option"
  cc_message_count :: int
  cc_oldest_observed_at :: "real option"
  cc_history_permission :: history_permission

record coverage =
  co_guild_id :: string
  co_channel_ids :: "string list"
  co_window_start :: real
  co_window_end :: real
  co_observed_at :: real
  co_content_requested :: bool
  co_status :: coverage_status
  co_channels :: "channel_coverage list"
  co_limitations :: "utext list"

datatype observation_stage = OSnapshot | OHistory | OWorker

record observation_failure =
  of_stage :: observation_stage
  of_code :: string
  of_channel_id :: "string option"

record observe_payload =
  op_snapshot :: observe_snapshot
  op_activity :: "activity list"
  op_messages :: "observed_message list"
  op_coverage :: coverage
  op_failures :: "observation_failure list"

text \<open>\<open>ObservePayload.bounded_evidence\<close>; \<open>json_size\<close> is the length in bytes of the payload's
  canonical JSON.\<close>

definition bounded_evidence :: "(observe_payload \<Rightarrow> nat) \<Rightarrow> observe_payload \<Rightarrow> bool" where
  "bounded_evidence json_size p \<longleftrightarrow> json_size p \<le> MAX_OBSERVE_BYTES
     \<and> set (map ac_period_days (op_activity p)) = {7, 30}
     \<and> distinct (map (\<lambda>m. (m_channel_id m, m_message_id m)) (op_messages p))
     \<and> list_all (\<lambda>m. m_guild_id m = co_guild_id (op_coverage p)
          \<and> m_channel_id m \<in> set (co_channel_ids (op_coverage p))
          \<and> co_window_start (op_coverage p) \<le> m_created_at m
          \<and> m_created_at m < co_window_end (op_coverage p)) (op_messages p)"

text \<open>The field bounds of the observation models, from \<open>ObservedGuild\<close> to \<open>ObservationFailure\<close>.\<close>

definition opt_snowflake :: "string option \<Rightarrow> bool" where
  "opt_snowflake x \<longleftrightarrow> (case x of None \<Rightarrow> True | Some s \<Rightarrow> snowflake s)"

definition valid_guild :: "observed_guild \<Rightarrow> bool" where
  "valid_guild g \<longleftrightarrow> snowflake (og_id g) \<and> length (og_name g) \<le> 200 \<and> opt_len 0 4000 (og_description g)
     \<and> (case og_approximate_member_count g of None \<Rightarrow> True | Some n \<Rightarrow> 0 \<le> n)"

definition valid_channel :: "observed_channel \<Rightarrow> bool" where
  "valid_channel c \<longleftrightarrow> snowflake (oc_id c) \<and> snowflake (oc_guild_id c) \<and> length (oc_name c) \<le> 200
     \<and> 0 \<le> oc_type c \<and> opt_snowflake (oc_parent_id c)"

definition valid_role :: "observed_role \<Rightarrow> bool" where
  "valid_role r \<longleftrightarrow> snowflake (or_id r) \<and> length (or_name r) \<le> 200
     \<and> 1 \<le> length (or_permissions r) \<and> length (or_permissions r) \<le> 32 \<and> list_all digit_char (or_permissions r)"

definition valid_snapshot :: "observe_snapshot \<Rightarrow> bool" where
  "valid_snapshot p \<longleftrightarrow> (case os_guild p of None \<Rightarrow> True | Some g \<Rightarrow> valid_guild g)
     \<and> length (os_channels p) \<le> 500 \<and> list_all valid_channel (os_channels p)
     \<and> length (os_roles p) \<le> 500 \<and> list_all valid_role (os_roles p)"

definition valid_channel_activity :: "channel_activity \<Rightarrow> bool" where
  "valid_channel_activity c \<longleftrightarrow> snowflake (ca_channel_id c) \<and> 0 \<le> ca_message_count c \<and> 0 \<le> ca_unique_authors c"

text \<open>\<open>^\d{4}-\d{2}-\d{2}$\<close>, on characters of one byte.\<close>

definition date_string :: "string \<Rightarrow> bool" where
  "date_string s \<longleftrightarrow> length s = 10 \<and> list_all (\<lambda>i. digit_char (s ! i)) [0, 1, 2, 3, 5, 6, 8, 9]
     \<and> s ! 4 = CHR ''-'' \<and> s ! 7 = CHR ''-''"

definition valid_daily_activity :: "daily_activity \<Rightarrow> bool" where
  "valid_daily_activity d \<longleftrightarrow> date_string (da_date d) \<and> 0 \<le> da_message_count d"

definition activity_counts :: "activity \<Rightarrow> int list" where
  "activity_counts a = [ac_message_count a, ac_unique_authors a, ac_human_messages a, ac_bot_messages a,
     ac_operator_messages a, ac_nonoperator_messages a, ac_reply_messages a, ac_operator_reply_messages a,
     ac_nonoperator_reply_messages a, ac_operator_conversation_starts a, ac_nonoperator_conversation_starts a]"

definition valid_activity :: "activity \<Rightarrow> bool" where
  "valid_activity a \<longleftrightarrow> (ac_period_days a = 7 \<or> ac_period_days a = 30) \<and> list_all (\<lambda>n. 0 \<le> n) (activity_counts a)
     \<and> length (ac_channels a) \<le> 30 \<and> list_all valid_channel_activity (ac_channels a)
     \<and> length (ac_daily a) \<le> 31 \<and> list_all valid_daily_activity (ac_daily a)"

definition valid_channel_coverage :: "channel_coverage \<Rightarrow> bool" where
  "valid_channel_coverage c \<longleftrightarrow> snowflake (cc_channel_id c) \<and> opt_len 0 128 (cc_reason c) \<and> 0 \<le> cc_message_count c"

definition valid_coverage :: "coverage \<Rightarrow> bool" where
  "valid_coverage c \<longleftrightarrow> snowflake (co_guild_id c)
     \<and> 1 \<le> length (co_channel_ids c) \<and> length (co_channel_ids c) \<le> 30 \<and> list_all snowflake (co_channel_ids c)
     \<and> length (co_channels c) \<le> 30 \<and> list_all valid_channel_coverage (co_channels c)
     \<and> length (co_limitations c) \<le> 32"

definition valid_observation_failure :: "observation_failure \<Rightarrow> bool" where
  "valid_observation_failure f \<longleftrightarrow> 1 \<le> length (of_code f) \<and> length (of_code f) \<le> 128 \<and> opt_snowflake (of_channel_id f)"

definition valid_observe_payload :: "(observe_payload \<Rightarrow> nat) \<Rightarrow> observe_payload \<Rightarrow> bool" where
  "valid_observe_payload json_size p \<longleftrightarrow> valid_snapshot (op_snapshot p)
     \<and> length (op_activity p) = 2 \<and> list_all valid_activity (op_activity p)
     \<and> length (op_messages p) \<le> 2000 \<and> list_all valid_message (op_messages p)
     \<and> valid_coverage (op_coverage p)
     \<and> length (op_failures p) \<le> 100 \<and> list_all valid_observation_failure (op_failures p)
     \<and> bounded_evidence json_size p"

section \<open>Result envelopes\<close>

datatype payload = SearchPay search_payload | ExtractPay extract_payload | ObservePay observe_payload

fun payload_mode :: "payload \<Rightarrow> job_mode" where
  "payload_mode (SearchPay _) = SearchMode"
| "payload_mode (ExtractPay _) = ExtractMode"
| "payload_mode (ObservePay _) = ObserveMode"

datatype result_status = RSucceeded | RPartial | RFailed | RCancelled

record envelope =
  e_contract :: string
  e_job_id :: string
  e_attempt_id :: string
  e_status :: result_status
  e_stop_reason :: "string option"
  e_usage :: usage
  e_elapsed_seconds :: real
  e_payload :: payload
  e_manifest :: "artifact_ref list"

fun valid_payload :: "(observe_payload \<Rightarrow> nat) \<Rightarrow> payload \<Rightarrow> bool" where
  "valid_payload json_size (SearchPay p) =
     (1 \<le> length (sp_queries p) \<and> list_all valid_query_result (sp_queries p)
      \<and> list_all valid_failure (sp_failures p))"
| "valid_payload json_size (ExtractPay p) = list_all valid_failure (ep_failures p)"
| "valid_payload json_size (ObservePay p) = valid_observe_payload json_size p"

definition valid_envelope :: "(observe_payload \<Rightarrow> nat) \<Rightarrow> envelope \<Rightarrow> bool" where
  "valid_envelope json_size e \<longleftrightarrow> e_contract e = CONTRACT_VERSION
     \<and> 8 \<le> length (e_job_id e) \<and> length (e_job_id e) \<le> 128
     \<and> 8 \<le> length (e_attempt_id e) \<and> length (e_attempt_id e) \<le> 128
     \<and> opt_len 1 128 (e_stop_reason e) \<and> valid_usage (e_usage e)
     \<and> 0 \<le> e_elapsed_seconds e \<and> e_elapsed_seconds e \<le> 86400
     \<and> valid_payload json_size (e_payload e) \<and> list_all valid_artifact_ref (e_manifest e)"

end
