(* ===== verification/Activity.thy ===== *)
theory Activity
  imports Results
begin

text \<open>
  \<open>activity\<close> of \<open>src/src/ephy_worker/discord_observer.py\<close>: the two activity windows of an
  observation, recomputed from its messages. \<open>datetime.date().isoformat()\<close> of a UTC instant is
  written out as the proleptic Gregorian calendar computes it.
\<close>

section \<open>Dates\<close>

definition civil_from_days :: "int \<Rightarrow> int \<times> int \<times> int" where
  "civil_from_days days =
     (let z = days + 719468; era = z div 146097; doe = z mod 146097;
          yoe = (doe - doe div 1460 + doe div 36524 - doe div 146096) div 365;
          doy = doe - (365 * yoe + yoe div 4 - yoe div 100);
          mp = (5 * doy + 2) div 153;
          d = doy - (153 * mp + 2) div 5 + 1;
          m = (if mp < 10 then mp + 3 else mp - 9);
          y = yoe + era * 400 + (if m \<le> 2 then 1 else 0)
      in (y, m, d))"

definition iso_date :: "real \<Rightarrow> string" where
  "iso_date t = (case civil_from_days (\<lfloor>t / 86400\<rfloor>) of (y, m, d) \<Rightarrow>
     pad_left 4 (dec (nat y)) @ ''-'' @ pad_left 2 (dec (nat m)) @ ''-'' @ pad_left 2 (dec (nat d)))"

lemma iso_date_epoch: "civil_from_days 0 = (1970, 1, 1)"
  by code_simp

lemma iso_date_leap: "civil_from_days 19782 = (2024, 2, 29)"
  by code_simp

section \<open>The summary\<close>

definition count_int :: "('a \<Rightarrow> bool) \<Rightarrow> 'a list \<Rightarrow> int" where
  "count_int p xs = int (length (filter p xs))"

definition unique_count :: "'a list \<Rightarrow> int" where
  "unique_count xs = int (length (remdups xs))"

definition is_reply :: "observed_message \<Rightarrow> bool" where
  "is_reply m \<longleftrightarrow> m_reply_to_message_id m \<noteq> None"

text \<open>\<open>sorted(Counter(dates).items())\<close>: keys are unique, so the order is the keys' order.\<close>

definition daily_counts :: "observed_message list \<Rightarrow> daily_activity list" where
  "daily_counts sel =
     (let dates = map (\<lambda>m. iso_date (m_created_at m)) sel
      in map (\<lambda>d. \<lparr> da_date = d, da_message_count = count_int (\<lambda>x. x = d) dates \<rparr>)
           (sort (remdups dates)))"

definition channel_counts :: "observed_message list \<Rightarrow> string list \<Rightarrow> channel_activity list" where
  "channel_counts sel channels =
     map (\<lambda>c. \<lparr> ca_channel_id = c,
                ca_message_count = count_int (\<lambda>m. m_channel_id m = c) sel,
                ca_unique_authors = unique_count (map m_author_id (filter (\<lambda>m. m_channel_id m = c) sel)) \<rparr>)
       channels"

definition activity_window :: "observed_message list \<Rightarrow> observe_input \<Rightarrow> int \<Rightarrow> activity" where
  "activity_window messages inp days =
     (let selected = filter (\<lambda>m. oi_observed_before inp - of_int days * 86400 \<le> m_created_at m) messages;
          human = filter (\<lambda>m. \<not> m_author_bot m) selected;
          operator = filter m_operator human;
          other = filter (\<lambda>m. \<not> m_operator m) human
      in \<lparr> ac_period_days = days,
           ac_message_count = int (length selected),
           ac_unique_authors = unique_count (map m_author_id selected),
           ac_human_messages = int (length human),
           ac_bot_messages = int (length selected) - int (length human),
           ac_operator_messages = int (length operator),
           ac_nonoperator_messages = int (length other),
           ac_reply_messages = count_int is_reply selected,
           ac_operator_reply_messages = count_int is_reply operator,
           ac_nonoperator_reply_messages = count_int is_reply other,
           ac_operator_conversation_starts = count_int (\<lambda>m. \<not> is_reply m) operator,
           ac_nonoperator_conversation_starts = count_int (\<lambda>m. \<not> is_reply m) other,
           ac_channels = channel_counts selected (oi_channel_ids inp),
           ac_daily = daily_counts selected \<rparr>)"

definition activities :: "observed_message list \<Rightarrow> observe_input \<Rightarrow> activity list" where
  "activities messages inp = map (activity_window messages inp) [7, 30]"

text \<open>\<open>empty_payload\<close>: what the worker reports before it has collected anything.\<close>

definition empty_payload :: "observe_input \<Rightarrow> bool \<Rightarrow> utext list \<Rightarrow> real \<Rightarrow> observe_payload" where
  "empty_payload inp content_requested limitations now =
     \<lparr> op_snapshot = \<lparr> os_guild = None, os_channels = [], os_roles = [] \<rparr>,
       op_activity = activities [] inp,
       op_messages = [],
       op_coverage = \<lparr> co_guild_id = oi_guild_id inp, co_channel_ids = oi_channel_ids inp,
         co_window_start = oi_observed_before inp - 30 * 86400,
         co_window_end = oi_observed_before inp,
         co_observed_at = now, co_content_requested = content_requested,
         co_status = CUnavailable,
         co_channels = map (\<lambda>c. \<lparr> cc_channel_id = c, cc_status = CUnavailable,
             cc_reason = Some ''not_collected'', cc_message_count = 0,
             cc_oldest_observed_at = None, cc_history_permission = UnknownPermission \<rparr>)
           (oi_channel_ids inp),
         co_limitations = limitations \<rparr>,
       op_failures = [] \<rparr>"

section \<open>Consistency of the summary\<close>

lemma count_int_split: "count_int p xs + count_int (\<lambda>x. \<not> p x) xs = int (length xs)"
  by (simp add: count_int_def sum_length_filter_compl flip: of_nat_add)

lemma length_filter_split:
  "length (filter p xs) + length (filter (\<lambda>x. \<not> p x) xs) = length xs"
  by (rule sum_length_filter_compl)

lemma count_int_le: "count_int p xs \<le> int (length xs)"
  by (simp add: count_int_def)

lemma sum_count_int:
  "distinct ds \<Longrightarrow> set xs \<subseteq> set ds \<Longrightarrow> (\<Sum>d \<leftarrow> ds. count_int (\<lambda>x. x = d) xs) = int (length xs)"
proof (induction xs)
  case Nil
  then show ?case by (simp add: count_int_def)
next
  case (Cons y xs)
  have "(\<Sum>d \<leftarrow> ds. count_int (\<lambda>x. x = d) (y # xs)) =
        (\<Sum>d \<leftarrow> ds. (if d = y then 1 else 0) + count_int (\<lambda>x. x = d) xs)"
    by (rule arg_cong [where f = sum_list]) (auto simp: count_int_def)
  also have "\<dots> = (\<Sum>d \<leftarrow> ds. (if d = y then 1 else 0)) + int (length xs)"
    using Cons by (simp add: sum_list_addf)
  also have "(\<Sum>d \<leftarrow> ds. (if d = y then (1::int) else 0)) = 1"
    using Cons.prems by (subst sum_list_distinct_conv_sum_set) (auto simp: sum.delta)
  finally show ?case by simp
qed

lemma count_int_map: "count_int p (map f xs) = count_int (\<lambda>x. p (f x)) xs"
  by (simp add: count_int_def filter_map o_def)

lemma sum_channel_counts:
  "distinct cs \<Longrightarrow> (\<And>m. m \<in> set sel \<Longrightarrow> m_channel_id m \<in> set cs) \<Longrightarrow>
   (\<Sum>c \<leftarrow> cs. count_int (\<lambda>m. m_channel_id m = c) sel) = int (length sel)"
  using sum_count_int [of cs "map m_channel_id sel"] by (auto simp: count_int_map)

end
