(* ===== verification/Manager_Store.thy ===== *)
theory Manager_Store
  imports Activity
begin

text \<open>
  The state of \<open>Manager\<close> (\<open>src/src/ephy_worker/manager.py\<close>): its SQLite tables and artifact files,
  its settings and errors, and the queries the operations share. Every method of the class runs
  under one lock, so an operation is one function of the state. A method that raises returns
  \<open>Inl\<close> the error; \<open>Diverges\<close> stands for a walk that does not come back.
\<close>

section \<open>Rows and state\<close>

record job_row =
  j_job_id :: string
  j_submit_key :: string
  j_parent_job_id :: "string option"
  j_kind :: job_kind
  j_mode :: job_mode
  j_input :: job_input
  j_target_worker_id :: string
  j_budget :: limits
  j_deadline_seconds :: real
  j_input_hash :: string
  j_created_at :: real
  j_deadline_at :: real
  j_state :: job_state
  j_worker_id :: "string option"
  j_attempt_id :: "string option"
  j_attempt_number :: nat
  j_stop_reason :: "string option"
  j_result :: "envelope option"

record attempt_row =
  a_attempt_id :: string
  a_job_id :: string
  a_worker_id :: string
  a_lease_token :: string
  a_lease_expires_at :: real
  a_attempt_number :: nat
  a_created_at :: real
  a_finalized_at :: "real option"

datatype worker_state = Online | Offline

record worker_row =
  w_worker_id :: string
  w_capabilities :: "string list"
  w_implementation_version :: string
  w_contract_version :: string
  w_os :: string
  w_architecture :: string
  w_concurrency :: nat
  w_state :: worker_state
  w_last_heartbeat_at :: real

record artifact_row =
  f_artifact_id :: string
  f_job_id :: string
  f_attempt_id :: string
  f_name :: string
  f_media_type :: string
  f_bytes :: int
  f_sha256 :: string
  f_schema_version :: int
  f_stored_path :: "string list"

record observation_row =
  o_job_id :: string
  o_attempt_id :: string
  o_collected_at :: real
  o_expires_at :: real
  o_payload :: observe_payload
  o_activity :: "activity list"

record manager =
  jobs :: "job_row list"
  attempts :: "attempt_row list"
  workers :: "worker_row list"
  artifacts :: "artifact_row list"
  observations :: "observation_row list"
  files :: "string list \<Rightarrow> byte_string option"

definition empty_manager :: manager where
  "empty_manager = \<lparr> jobs = [], attempts = [], workers = [], artifacts = [], observations = [],
     files = (\<lambda>_. None) \<rparr>"

record settings =
  worker_credentials_env :: "string \<rightharpoonup> string"
  requester_credential_env :: string
  environ :: "string \<rightharpoonup> string"
  lease_seconds :: real
  offline_after_seconds :: real
  max_artifacts_per_job :: nat
  max_artifact_bytes :: int

definition valid_settings :: "settings \<Rightarrow> bool" where
  "valid_settings cfg \<longleftrightarrow> worker_credentials_env cfg ''auto'' = None
     \<and> 0 < lease_seconds cfg \<and> lease_seconds cfg \<le> 600
     \<and> 0 < offline_after_seconds cfg \<and> offline_after_seconds cfg \<le> 3600
     \<and> 1 \<le> max_artifacts_per_job cfg \<and> max_artifacts_per_job cfg \<le> 128
     \<and> 4096 \<le> max_artifact_bytes cfg \<and> max_artifact_bytes cfg \<le> 64 * 1024 ^ 2"

datatype manager_error =
    ManagerError string nat
  | IntegrityError
  | ValidationError
  | ValueError
  | TypeError
  | Diverges

type_synonym 'a outcome = "(manager_error + 'a) \<times> manager"

text \<open>The tables under their primary keys satisfy the contract of a keyed table.\<close>

interpretation job_table: keyed_table j_job_id "\<lambda>t k. find_row j_job_id k t" "\<lambda>t r. t @ [r]"
    "\<lambda>k f. update_rows (\<lambda>r. j_job_id r = k) f" "\<lambda>k. delete_rows (\<lambda>r. j_job_id r = k)"
    "\<lambda>t. distinct (map j_job_id t)"
  by (rule list_table)

interpretation attempt_table: keyed_table a_attempt_id "\<lambda>t k. find_row a_attempt_id k t" "\<lambda>t r. t @ [r]"
    "\<lambda>k f. update_rows (\<lambda>r. a_attempt_id r = k) f" "\<lambda>k. delete_rows (\<lambda>r. a_attempt_id r = k)"
    "\<lambda>t. distinct (map a_attempt_id t)"
  by (rule list_table)

interpretation worker_table: keyed_table w_worker_id "\<lambda>t k. find_row w_worker_id k t" "\<lambda>t r. t @ [r]"
    "\<lambda>k f. update_rows (\<lambda>r. w_worker_id r = k) f" "\<lambda>k. delete_rows (\<lambda>r. w_worker_id r = k)"
    "\<lambda>t. distinct (map w_worker_id t)"
  by (rule list_table)

section \<open>Row lookups\<close>

definition job_row_of :: "manager \<Rightarrow> string \<Rightarrow> job_row option" where
  "job_row_of m k = find_row j_job_id k (jobs m)"

definition worker_row_of :: "manager \<Rightarrow> string \<Rightarrow> worker_row option" where
  "worker_row_of m k = find_row w_worker_id k (workers m)"

definition attempt_row_of :: "manager \<Rightarrow> string \<Rightarrow> string option \<Rightarrow> attempt_row option" where
  "attempt_row_of m job att = (case att of None \<Rightarrow> None
     | Some a \<Rightarrow> find (\<lambda>r. a_job_id r = job \<and> a_attempt_id r = a) (attempts m))"

definition active_state :: "job_state \<Rightarrow> bool" where
  "active_state st \<longleftrightarrow> st = Running \<or> st = CancelRequested"

definition active_count :: "manager \<Rightarrow> string \<Rightarrow> nat" where
  "active_count m w = count_rows (\<lambda>j. j_worker_id j = Some w \<and> active_state (j_state j)) (jobs m)"

section \<open>Credentials\<close>

definition ascii_only :: "string \<Rightarrow> bool" where
  "ascii_only s \<longleftrightarrow> list_all (\<lambda>c. (of_char c :: nat) < 128) s"

text \<open>\<open>hmac.compare_digest\<close> on two \<open>str\<close> raises \<open>TypeError\<close> unless both are ASCII.\<close>

definition compare_credential :: "string \<Rightarrow> string \<Rightarrow> manager_error option" where
  "compare_credential provided expected =
     (if expected = [] then Some (ManagerError ''unauthorized'' 401)
      else if \<not> ascii_only provided \<or> \<not> ascii_only expected then Some TypeError
      else if provided \<noteq> expected then Some (ManagerError ''unauthorized'' 401)
      else None)"

definition check_worker_credential :: "settings \<Rightarrow> string \<Rightarrow> string \<Rightarrow> manager_error option" where
  "check_worker_credential cfg worker_id credential =
     (case worker_credentials_env cfg worker_id of
        None \<Rightarrow> Some (ManagerError ''unknown_worker'' 401)
      | Some env \<Rightarrow> compare_credential credential
          (case environ cfg env of None \<Rightarrow> [] | Some v \<Rightarrow> v))"

definition authenticate_requester :: "settings \<Rightarrow> string \<Rightarrow> manager_error option" where
  "authenticate_requester cfg provided =
     compare_credential provided
       (case environ cfg (requester_credential_env cfg) of None \<Rightarrow> [] | Some v \<Rightarrow> v)"

lemma check_worker_credential_None:
  "check_worker_credential cfg w c = None \<Longrightarrow>
   \<exists>env. worker_credentials_env cfg w = Some env \<and> environ cfg env = Some c \<and> c \<noteq> []"
  by (auto simp: check_worker_credential_def compare_credential_def split: option.splits if_splits)

section \<open>Scheduling queries\<close>

definition required_capabilities :: "job_row \<Rightarrow> string list option" where
  "required_capabilities r = required_job_capabilities (j_kind r) (j_mode r) (j_input r)"

text \<open>\<open>COALESCE(MAX(a.created_at), 0)\<close> over a worker's attempts.\<close>

definition last_assigned :: "manager \<Rightarrow> string \<Rightarrow> real" where
  "last_assigned m w =
     (case map a_created_at (filter (\<lambda>a. a_worker_id a = w) (attempts m)) of
        [] \<Rightarrow> 0 | t # ts \<Rightarrow> fold max ts t)"

definition worker_load :: "manager \<Rightarrow> worker_row \<Rightarrow> real \<times> real \<times> string" where
  "worker_load m w = (real (active_count m (w_worker_id w)) / real (w_concurrency w),
     last_assigned m (w_worker_id w), w_worker_id w)"

definition fresh_worker :: "settings \<Rightarrow> real \<Rightarrow> worker_row \<Rightarrow> bool" where
  "fresh_worker cfg now w \<longleftrightarrow>
     w_state w = Online \<and> now - offline_after_seconds cfg \<le> w_last_heartbeat_at w"

definition eligible_workers ::
  "settings \<Rightarrow> manager \<Rightarrow> job_row \<Rightarrow> real \<Rightarrow> manager_error + worker_row list" where
  "eligible_workers cfg m job now =
     (let rows = filter (\<lambda>w. fresh_worker cfg now w \<and> w_contract_version w = CONTRACT_VERSION) (workers m)
      in case required_capabilities job of
           None \<Rightarrow> Inl ValueError
         | Some req \<Rightarrow> Inr (sort_key (worker_load m)
             (filter (\<lambda>w. w_worker_id w \<noteq> ''auto''
                \<and> active_count m (w_worker_id w) < w_concurrency w
                \<and> set req \<subseteq> set (w_capabilities w)) rows)))"

definition wait_reason ::
  "settings \<Rightarrow> manager \<Rightarrow> job_row \<Rightarrow> real \<Rightarrow> manager_error + wait_reason option" where
  "wait_reason cfg m row now =
     (if j_target_worker_id row = ''auto'' then
        (case eligible_workers cfg m row now of
           Inl e \<Rightarrow> Inl e
         | Inr ws \<Rightarrow> Inr (if ws = [] then Some NoEligibleWorker else None))
      else case worker_row_of m (j_target_worker_id row) of
        None \<Rightarrow> Inr (Some TargetWorkerUnregistered)
      | Some w \<Rightarrow>
          if w_state w \<noteq> Online \<or> w_last_heartbeat_at w < now - offline_after_seconds cfg
          then Inr (Some TargetWorkerOffline)
          else if w_contract_version w \<noteq> CONTRACT_VERSION
          then Inr (Some TargetWorkerContractMismatch)
          else case required_capabilities row of
                 None \<Rightarrow> Inl ValueError
               | Some req \<Rightarrow>
                   Inr (if set req \<subseteq> set (w_capabilities w) then None
                        else Some TargetWorkerCapabilityMismatch))"

text \<open>\<open>_job_view\<close>: the row's columns, the usage of its stored result, and for a queued job why it
  waits.\<close>

record job_view =
  v_row :: job_row
  v_wait_reason :: "wait_reason option"
  v_usage :: usage

definition row_usage :: "job_row \<Rightarrow> usage" where
  "row_usage row = (case j_result row of None \<Rightarrow> no_usage | Some r \<Rightarrow> e_usage r)"

definition view_of :: "settings \<Rightarrow> manager \<Rightarrow> real \<Rightarrow> job_row \<Rightarrow> manager_error + job_view" where
  "view_of cfg m now row =
     (if j_state row = Queued then
        (case wait_reason cfg m row now of
           Inl e \<Rightarrow> Inl e
         | Inr w \<Rightarrow> Inr \<lparr> v_row = row, v_wait_reason = w, v_usage = row_usage row \<rparr>)
      else Inr \<lparr> v_row = row, v_wait_reason = None, v_usage = row_usage row \<rparr>)"

definition view_by_id :: "settings \<Rightarrow> manager \<Rightarrow> real \<Rightarrow> string \<Rightarrow> manager_error + job_view" where
  "view_by_id cfg m now k =
     (case job_row_of m k of None \<Rightarrow> Inl TypeError | Some row \<Rightarrow> view_of cfg m now row)"

section \<open>Lineage\<close>

text \<open>
  \<open>_root_job\<close> walks the parent links; \<open>fuel\<close> bounds the walk and \<open>Diverges\<close> says it ran out.
  The recursive query of \<open>_validate_child_allocation\<close> lists the descendants level by level.
\<close>

fun root_job :: "job_row list \<Rightarrow> nat \<Rightarrow> job_row \<Rightarrow> manager_error + job_row" where
  "root_job js 0 row = Inl Diverges"
| "root_job js (Suc fuel) row =
     (case j_parent_job_id row of
        None \<Rightarrow> Inr row
      | Some p \<Rightarrow> (case find_row j_job_id p js of
          None \<Rightarrow> Inl (ManagerError ''unknown_parent_job'' 404)
        | Some parent \<Rightarrow> root_job js fuel parent))"

definition children_of :: "job_row list \<Rightarrow> string list \<Rightarrow> job_row list" where
  "children_of js ids =
     concat (map (\<lambda>i. filter (\<lambda>j. j_parent_job_id j = Some i) js) ids)"

fun lineage :: "job_row list \<Rightarrow> nat \<Rightarrow> job_row list \<Rightarrow> job_row list" where
  "lineage js 0 level = []"
| "lineage js (Suc n) level =
     (if level = [] then [] else level @ lineage js n (children_of js (map j_job_id level)))"

record used_requests =
  us_search :: int
  us_fetch :: int
  us_model :: int

text \<open>What one row of the lineage counts for: its reported usage, or the whole allowance of a child
  that has reported nothing and was not cancelled.\<close>

definition row_charge :: "string \<Rightarrow> job_row \<Rightarrow> used_requests" where
  "row_charge rt row =
     (case j_result row of
        Some r \<Rightarrow> \<lparr> us_search = u_search_requests (e_usage r), us_fetch = u_fetch_requests (e_usage r),
                    us_model = u_model_requests (e_usage r) \<rparr>
      | None \<Rightarrow>
          if j_job_id row \<noteq> rt \<and> j_state row \<noteq> Cancelled
          then \<lparr> us_search = search_requests (j_budget row), us_fetch = fetch_requests (j_budget row),
                 us_model = model_requests (j_budget row) \<rparr>
          else \<lparr> us_search = 0, us_fetch = 0, us_model = 0 \<rparr>)"

definition lineage_used :: "string \<Rightarrow> job_row list \<Rightarrow> used_requests" where
  "lineage_used rt rows =
     \<lparr> us_search = sum_list (map (\<lambda>r. us_search (row_charge rt r)) rows),
       us_fetch = sum_list (map (\<lambda>r. us_fetch (row_charge rt r)) rows),
       us_model = sum_list (map (\<lambda>r. us_model (row_charge rt r)) rows) \<rparr>"

definition validate_child_allocation ::
  "manager \<Rightarrow> job_row \<Rightarrow> submit_job \<Rightarrow> real \<Rightarrow> manager_error option" where
  "validate_child_allocation m parent s now =
     (if \<not> terminal (j_state parent) then Some (ManagerError ''parent_not_terminal'' 409)
      else case root_job (jobs m) (Suc (length (jobs m))) parent of
        Inl e \<Rightarrow> Some e
      | Inr rt \<Rightarrow>
          if j_deadline_at rt < now + s_deadline_seconds s
          then Some (ManagerError ''child_deadline_exceeds_parent'' 409)
          else
            let used = lineage_used (j_job_id rt) (lineage (jobs m) (Suc (length (jobs m))) [rt]);
                l = j_budget rt;
                sources = (if j_kind parent = DiscordObserve then max_sources l
                           else max_sources l - us_fetch used);
                b = s_budget s
            in if max_queries l - us_search used < max_queries b
                 \<or> search_requests l - us_search used < search_requests b
                 \<or> sources < max_sources b
                 \<or> fetch_requests l - us_fetch used < fetch_requests b
                 \<or> model_requests l - us_model used < model_requests b
               then Some (ManagerError ''child_budget_exceeds_parent'' 409)
               else None)"

end
