(* ===== verification/Manager_Ops.thy ===== *)
theory Manager_Ops
  imports Manager_Store
begin

text \<open>
  The operations of \<open>Manager\<close>, one definition per method of \<open>src/src/ephy_worker/manager.py\<close>, in
  the order of its checks. The identifiers that \<open>uuid.uuid4\<close> draws are arguments; \<open>clk i\<close> is what
  the \<open>i\<close>-th call site of \<open>time.time()\<close> in the method reads. \<open>library\<close> holds the parameters:
  NFKC, the hash of an input's canonical JSON, and SHA-256.
\<close>

record library =
  nfkc :: "utext \<Rightarrow> utext"
  job_input_hash :: "job_input \<Rightarrow> string"
  sha256 :: "byte_string \<Rightarrow> string"

section \<open>Workers\<close>

definition upsert_worker ::
  "settings \<Rightarrow> clock \<Rightarrow> string \<Rightarrow> string \<Rightarrow> registration \<Rightarrow> manager \<Rightarrow> worker_row outcome" where
  "upsert_worker cfg clk worker_id credential r m =
     (case check_worker_credential cfg worker_id credential of
        Some e \<Rightarrow> (Inl e, m)
      | None \<Rightarrow>
          if r_worker_id r \<noteq> worker_id then (Inl (ManagerError ''worker_id_mismatch'' 400), m)
          else
            let row = \<lparr> w_worker_id = worker_id, w_capabilities = r_capabilities r,
                  w_implementation_version = r_implementation_version r,
                  w_contract_version = r_contract r, w_os = r_os r,
                  w_architecture = r_architecture r, w_concurrency = r_concurrency r,
                  w_state = Online, w_last_heartbeat_at = clk 0 \<rparr>;
                ws = (case worker_row_of m worker_id of
                    None \<Rightarrow> workers m @ [row]
                  | Some _ \<Rightarrow> update_rows (\<lambda>w. w_worker_id w = worker_id) (\<lambda>_. row) (workers m))
            in (Inr row, m\<lparr> workers := ws \<rparr>))"

definition worker_view :: "string \<Rightarrow> manager \<Rightarrow> worker_row outcome" where
  "worker_view worker_id m =
     (case worker_row_of m worker_id of
        None \<Rightarrow> (Inl (ManagerError ''unknown_worker'' 404), m)
      | Some w \<Rightarrow> (Inr w, m))"

definition list_workers :: "manager \<Rightarrow> worker_row list" where
  "list_workers m = sort_key w_worker_id (workers m)"

section \<open>Retention of observations\<close>

definition retention_expired :: "real \<Rightarrow> manager \<Rightarrow> job_row \<Rightarrow> bool" where
  "retention_expired now m j \<longleftrightarrow> j_kind j = DiscordObserve \<and>
     (case find_row o_job_id (j_job_id j) (observations m) of
        Some o' \<Rightarrow> o_expires_at o' \<le> now
      | None \<Rightarrow> j_created_at j \<le> now - 30 * 86400
          \<and> j_stop_reason j \<noteq> Some ''observation_retention_expired'')"

definition expire_job :: "string \<Rightarrow> manager \<Rightarrow> manager" where
  "expire_job k m = m\<lparr>
     files := (\<lambda>p. if p \<in> f_stored_path ` set (filter (\<lambda>f. f_job_id f = k) (artifacts m))
                   then None else files m p),
     artifacts := delete_rows (\<lambda>f. f_job_id f = k) (artifacts m),
     observations := delete_rows (\<lambda>o'. o_job_id o' = k) (observations m),
     jobs := update_rows (\<lambda>j. j_job_id j = k)
       (\<lambda>j. j\<lparr> j_result := None, j_stop_reason := Some ''observation_retention_expired'' \<rparr>) (jobs m) \<rparr>"

definition expire_observations :: "real \<Rightarrow> manager \<Rightarrow> nat \<times> manager" where
  "expire_observations now m =
     (let ks = map j_job_id (filter (retention_expired now m) (jobs m))
      in (length ks, fold expire_job ks m))"

section \<open>Job views\<close>

definition job_view :: "settings \<Rightarrow> clock \<Rightarrow> string \<Rightarrow> manager \<Rightarrow> job_view outcome" where
  "job_view cfg clk job_id m =
     (let m' = snd (expire_observations (clk 0) m)
      in case job_row_of m' job_id of
           None \<Rightarrow> (Inl (ManagerError ''unknown_job'' 404), m')
         | Some row \<Rightarrow> (view_of cfg m' (clk 1) row, m'))"

definition job_result :: "settings \<Rightarrow> clock \<Rightarrow> string \<Rightarrow> manager \<Rightarrow> envelope outcome" where
  "job_result cfg clk job_id m =
     (case job_view cfg (\<lambda>i. clk (Suc i)) job_id (snd (expire_observations (clk 0) m)) of
        (Inl e, m') \<Rightarrow> (Inl e, m')
      | (Inr v, m') \<Rightarrow>
          (if j_stop_reason (v_row v) = Some ''observation_retention_expired''
           then (Inl (ManagerError ''observation_retention_expired'' 410), m')
           else if \<not> terminal (j_state (v_row v)) then (Inl (ManagerError ''not_terminal'' 409), m')
           else case j_result (v_row v) of
                  None \<Rightarrow> (Inl (ManagerError ''result_unavailable'' 404), m')
                | Some r \<Rightarrow> (Inr r, m')))"

section \<open>Submission\<close>

definition new_job_row :: "library \<Rightarrow> real \<Rightarrow> string \<Rightarrow> submit_job \<Rightarrow> job_row" where
  "new_job_row lib now job_id s =
     \<lparr> j_job_id = job_id, j_submit_key = s_submit_key s, j_parent_job_id = s_parent_job_id s,
       j_kind = s_kind s, j_mode = input_mode (s_input s), j_input = s_input s,
       j_target_worker_id = s_target_worker_id s, j_budget = s_budget s,
       j_deadline_seconds = s_deadline_seconds s, j_input_hash = job_input_hash lib (s_input s),
       j_created_at = now, j_deadline_at = now + s_deadline_seconds s, j_state = Queued,
       j_worker_id = None, j_attempt_id = None, j_attempt_number = 0, j_stop_reason = None,
       j_result = None \<rparr>"

text \<open>The part of \<open>submit\<close> between the lookup of the submit key and the \<open>INSERT\<close>.\<close>

definition admit_child :: "manager \<Rightarrow> submit_job \<Rightarrow> real \<Rightarrow> manager_error option" where
  "admit_child m s now =
     (case s_parent_job_id s of
        None \<Rightarrow> None
      | Some p \<Rightarrow> (case job_row_of m p of
          None \<Rightarrow> Some (ManagerError ''unknown_parent_job'' 404)
        | Some parent \<Rightarrow> (case validate_child_allocation m parent s now of
            Some e \<Rightarrow> Some e
          | None \<Rightarrow> if j_kind parent \<noteq> s_kind s
                    then Some (ManagerError ''parent_kind_mismatch'' 409) else None)))"

definition submit ::
  "settings \<Rightarrow> library \<Rightarrow> clock \<Rightarrow> string \<Rightarrow> submit_job \<Rightarrow> manager \<Rightarrow> (job_view \<times> bool) outcome" where
  "submit cfg lib clk job_id s m =
     (if s_contract s \<noteq> CONTRACT_VERSION then (Inl (ManagerError ''unsupported_contract'' 409), m)
      else case find_row j_submit_key (s_submit_key s) (jobs m) of
        Some existing \<Rightarrow>
          if j_input_hash existing \<noteq> job_input_hash lib (s_input s)
          then (Inl (ManagerError ''submit_key_conflict'' 409), m)
          else (map_sum id (\<lambda>v. (v, False)) (view_of cfg m (clk 2) existing), m)
      | None \<Rightarrow>
          case admit_child m s (clk 0) of
            Some e \<Rightarrow> (Inl e, m)
          | None \<Rightarrow>
              if job_id \<in> j_job_id ` set (jobs m) then (Inl IntegrityError, m)
              else
                let m' = m\<lparr> jobs := jobs m @ [new_job_row lib (clk 1) job_id s] \<rparr>
                in (map_sum id (\<lambda>v. (v, True)) (view_by_id cfg m' (clk 2) job_id), m'))"

section \<open>Claims\<close>

text \<open>The loop of \<open>claim\<close> over the queued candidates.\<close>

fun first_claimable ::
  "settings \<Rightarrow> manager \<Rightarrow> string \<Rightarrow> string list \<Rightarrow> real \<Rightarrow> job_row list \<Rightarrow> manager_error + job_row option" where
  "first_claimable cfg m w caps now [] = Inr None"
| "first_claimable cfg m w caps now (c # cs) =
     (case required_capabilities c of
        None \<Rightarrow> Inl ValueError
      | Some req \<Rightarrow>
          if \<not> set req \<subseteq> set caps then first_claimable cfg m w caps now cs
          else if j_target_worker_id c = ''auto'' then
            (case eligible_workers cfg m c now of
               Inl e \<Rightarrow> Inl e
             | Inr [] \<Rightarrow> first_claimable cfg m w caps now cs
             | Inr (x # _) \<Rightarrow> if w_worker_id x \<noteq> w then first_claimable cfg m w caps now cs
                             else Inr (Some c))
          else Inr (Some c))"

definition claim_candidates :: "manager \<Rightarrow> string \<Rightarrow> real \<Rightarrow> job_row list" where
  "claim_candidates m w now =
     sort_key (\<lambda>j. (j_created_at j, j_job_id j))
       (filter (\<lambda>j. j_state j = Queued \<and> (j_target_worker_id j = w \<or> j_target_worker_id j = ''auto'')
                    \<and> now < j_deadline_at j) (jobs m))"

definition start_attempt ::
  "settings \<Rightarrow> real \<Rightarrow> string \<Rightarrow> string \<Rightarrow> string \<Rightarrow> job_row \<Rightarrow> manager \<Rightarrow> manager" where
  "start_attempt cfg now w att token row m = m\<lparr>
     attempts := attempts m @
       [\<lparr> a_attempt_id = att, a_job_id = j_job_id row, a_worker_id = w, a_lease_token = token,
          a_lease_expires_at = now + lease_seconds cfg, a_attempt_number = Suc (j_attempt_number row),
          a_created_at = now, a_finalized_at = None \<rparr>],
     jobs := update_rows (\<lambda>j. j_job_id j = j_job_id row \<and> j_state j = Queued)
       (\<lambda>j. j\<lparr> j_state := Running, j_worker_id := Some w, j_attempt_id := Some att,
               j_attempt_number := Suc (j_attempt_number row) \<rparr>) (jobs m) \<rparr>"

text \<open>The job \<open>claim\<close> settles on, before it writes anything.\<close>

definition claim_target ::
  "settings \<Rightarrow> clock \<Rightarrow> string \<Rightarrow> string \<Rightarrow> manager \<Rightarrow> manager_error + job_row option" where
  "claim_target cfg clk w credential m =
     (case check_worker_credential cfg w credential of
        Some e \<Rightarrow> Inl e
      | None \<Rightarrow>
        (case worker_row_of m w of
           None \<Rightarrow> Inr None
         | Some wr \<Rightarrow>
           if w_state wr \<noteq> Online \<or> w_last_heartbeat_at wr < clk 0 - offline_after_seconds cfg
           then Inr None
           else if w_contract_version wr \<noteq> CONTRACT_VERSION then Inr None
           else if w_concurrency wr \<le> active_count m w then Inr None
           else first_claimable cfg m w (w_capabilities wr) (clk 1) (claim_candidates m w (clk 1))))"

definition claim ::
  "settings \<Rightarrow> clock \<Rightarrow> string \<Rightarrow> string \<Rightarrow> string \<Rightarrow> string \<Rightarrow> manager
   \<Rightarrow> (job_view \<times> attempt_row) option outcome" where
  "claim cfg clk att token w credential m =
     (case claim_target cfg clk w credential m of
        Inl e \<Rightarrow> (Inl e, m)
      | Inr None \<Rightarrow> (Inr None, m)
      | Inr (Some row) \<Rightarrow>
          if att \<in> a_attempt_id ` set (attempts m) then (Inl IntegrityError, m)
          else if count_rows (\<lambda>j. j_job_id j = j_job_id row \<and> j_state j = Queued) (jobs m) \<noteq> 1
          then (Inl (ManagerError ''claim_conflict'' 409), m)
          else
            let m' = start_attempt cfg (clk 1) w att token row m
            in (case view_by_id cfg m' (clk 2) (j_job_id row) of
                  Inl e \<Rightarrow> (Inl e, m')
                | Inr v \<Rightarrow> (Inr (Some (v, last (attempts m'))), m')))"

section \<open>Leases and cancellation\<close>

datatype lease_state = JobState job_state | DeadlinePassed

record lease_info =
  li_job_id :: string
  li_attempt_id :: string
  li_job_state :: lease_state
  li_lease_expires_at :: "real option"

definition renew_lease ::
  "settings \<Rightarrow> clock \<Rightarrow> string \<Rightarrow> string \<Rightarrow> string \<Rightarrow> string \<Rightarrow> string \<Rightarrow> manager \<Rightarrow> lease_info outcome" where
  "renew_lease cfg clk job_id w credential att token m =
     (case check_worker_credential cfg w credential of
        Some e \<Rightarrow> (Inl e, m)
      | None \<Rightarrow>
        (case job_row_of m job_id of
           None \<Rightarrow> (Inl (ManagerError ''unknown_job'' 404), m)
         | Some row \<Rightarrow>
           (case attempt_row_of m job_id (Some att) of
              None \<Rightarrow> (Inl (ManagerError ''lease_conflict'' 409), m)
            | Some a \<Rightarrow>
              if a_worker_id a \<noteq> w \<or> a_lease_token a \<noteq> token
              then (Inl (ManagerError ''lease_conflict'' 409), m)
              else if a_finalized_at a \<noteq> None \<or> j_attempt_id row \<noteq> Some att
              then (Inl (ManagerError ''attempt_not_active'' 409), m)
              else if terminal (j_state row)
              then (Inr \<lparr> li_job_id = job_id, li_attempt_id = att,
                          li_job_state = JobState (j_state row), li_lease_expires_at = None \<rparr>, m)
              else if a_lease_expires_at a < clk 0 then (Inl (ManagerError ''lease_expired'' 410), m)
              else if j_deadline_at row < clk 0
              then (Inr \<lparr> li_job_id = job_id, li_attempt_id = att,
                          li_job_state = DeadlinePassed, li_lease_expires_at = None \<rparr>, m)
              else
                let t = min (clk 0 + lease_seconds cfg) (j_deadline_at row)
                in (Inr \<lparr> li_job_id = job_id, li_attempt_id = att,
                          li_job_state = JobState (j_state row), li_lease_expires_at = Some t \<rparr>,
                    m\<lparr> attempts := update_rows (\<lambda>r. a_attempt_id r = att)
                          (\<lambda>r. r\<lparr> a_lease_expires_at := t \<rparr>) (attempts m) \<rparr>))))"

definition set_job :: "string \<Rightarrow> (job_row \<Rightarrow> job_row) \<Rightarrow> manager \<Rightarrow> manager" where
  "set_job k f m = m\<lparr> jobs := update_rows (\<lambda>j. j_job_id j = k) f (jobs m) \<rparr>"

definition cancel :: "settings \<Rightarrow> clock \<Rightarrow> string \<Rightarrow> manager \<Rightarrow> job_view outcome" where
  "cancel cfg clk job_id m =
     (case job_row_of m job_id of
        None \<Rightarrow> (Inl (ManagerError ''unknown_job'' 404), m)
      | Some row \<Rightarrow>
          if terminal (j_state row) then (view_of cfg m (clk 0) row, m)
          else
            let m' = (if j_state row = Queued then
                        set_job job_id (\<lambda>j. j\<lparr> j_state := Cancelled,
                          j_stop_reason := Some ''cancelled_by_requester'' \<rparr>) m
                      else if j_state row = Running then
                        set_job job_id (\<lambda>j. j\<lparr> j_state := CancelRequested \<rparr>) m
                      else m)
            in (view_by_id cfg m' (clk 0) job_id, m'))"

end
