(* ===== verification/Manager_Results.thy ===== *)
theory Manager_Results
  imports Manager_Ops
begin

text \<open>
  The rest of \<open>Manager\<close>: finalization with the checks of an observation and of the artifact
  manifest, retries, deletion, artifact storage and the sweeper.
\<close>

section \<open>Checks of an observation\<close>

definition channel_messages :: "observe_payload \<Rightarrow> string \<Rightarrow> int" where
  "channel_messages p c = count_int (\<lambda>m. m_channel_id m = c) (op_messages p)"

text \<open>\<open>summary\<close>: an activity with its two tables in canonical order.\<close>

definition summary :: "activity \<Rightarrow> activity" where
  "summary a = a\<lparr> ac_channels := sort_key ca_channel_id (ac_channels a),
                  ac_daily := sort_key da_date (ac_daily a) \<rparr>"

definition validate_observation_result ::
  "job_row \<Rightarrow> envelope \<Rightarrow> real \<Rightarrow> manager_error option" where
  "validate_observation_result row r now =
     (case e_payload r of
        ObservePay p \<Rightarrow> (case j_input row of
          ObserveIn inp \<Rightarrow>
            let c = op_coverage p; limit = oi_max_messages_per_channel inp in
            if co_guild_id c \<noteq> oi_guild_id inp \<or> co_channel_ids c \<noteq> oi_channel_ids inp
               \<or> co_window_end c \<noteq> oi_observed_before inp
               \<or> co_window_end c - co_window_start c \<noteq> 30 * 86400
               \<or> set (map cc_channel_id (co_channels c)) \<noteq> set (oi_channel_ids inp)
               \<or> length (co_channels c) \<noteq> length (oi_channel_ids inp)
            then Some (ManagerError ''observation_scope_mismatch'' 409)
            else if \<not> (j_created_at row - 1 \<le> co_observed_at c \<and> co_observed_at c \<le> now + 60)
            then Some (ManagerError ''observation_collection_time_invalid'' 409)
            else if (e_status r = RSucceeded \<and> (co_status c \<noteq> CComplete \<or> op_failures p \<noteq> []))
               \<or> u_search_requests (e_usage r) \<noteq> 0 \<or> u_model_requests (e_usage r) \<noteq> 0
            then Some (ManagerError ''observation_status_or_usage_mismatch'' 409)
            else if (case os_guild (op_snapshot p) of None \<Rightarrow> False | Some g \<Rightarrow> og_id g \<noteq> oi_guild_id inp)
            then Some (ManagerError ''observation_scope_mismatch'' 409)
            else if list_ex (\<lambda>ch. oc_guild_id ch \<noteq> oi_guild_id inp) (os_channels (op_snapshot p))
            then Some (ManagerError ''observation_scope_mismatch'' 409)
            else if list_ex (\<lambda>m. limit < channel_messages p (m_channel_id m)) (op_messages p)
               \<or> list_ex (\<lambda>ch. limit < cc_message_count ch) (co_channels c)
            then Some (ManagerError ''observation_budget_exceeded'' 409)
            else if list_ex (\<lambda>ch. cc_message_count ch \<noteq> channel_messages p (cc_channel_id ch)) (co_channels c)
            then Some (ManagerError ''observation_coverage_mismatch'' 409)
            else if sort_key ac_period_days (map summary (op_activity p))
                      \<noteq> map summary (activities (op_messages p) inp)
            then Some (ManagerError ''observation_activity_mismatch'' 409)
            else if fetch_requests (j_budget row) < u_fetch_requests (e_usage r)
               \<or> 8 * 1024 ^ 2 < u_document_bytes (e_usage r)
            then Some (ManagerError ''observation_budget_exceeded'' 409)
            else None
        | _ \<Rightarrow> Some ValidationError)
      | _ \<Rightarrow> Some (ManagerError ''observation_payload_mismatch'' 409))"

section \<open>Finalization\<close>

definition ref_matches :: "artifact_row \<Rightarrow> artifact_ref \<Rightarrow> bool" where
  "ref_matches f r \<longleftrightarrow> f_name f = ar_name r \<and> f_media_type f = ar_media_type r
     \<and> f_bytes f = ar_bytes r \<and> f_sha256 f = ar_sha256 r \<and> f_schema_version f = ar_schema_version r"

fun check_manifest :: "manager \<Rightarrow> string \<Rightarrow> string \<Rightarrow> artifact_ref list \<Rightarrow> manager_error option" where
  "check_manifest m job att [] = None"
| "check_manifest m job att (r # rs) =
     (case find (\<lambda>f. f_artifact_id f = ar_artifact_id r \<and> f_job_id f = job \<and> f_attempt_id f = att)
             (artifacts m) of
        None \<Rightarrow> Some (ManagerError ''artifact_missing'' 409)
      | Some f \<Rightarrow> if ref_matches f r then check_manifest m job att rs
                  else Some (ManagerError ''artifact_mismatch'' 409))"

text \<open>The state a result leads to, by the job's state and the reported status.\<close>

definition final_state :: "job_state \<Rightarrow> result_status \<Rightarrow> manager_error + job_state" where
  "final_state st status =
     (if st = Running \<and> status \<noteq> RCancelled then
        Inr (case status of RSucceeded \<Rightarrow> Completed | RPartial \<Rightarrow> Partial | _ \<Rightarrow> Failed)
      else if st = CancelRequested \<and> status = RCancelled then Inr Cancelled
      else if (st = Running \<and> status = RCancelled) \<or> st = CancelRequested
      then Inl (ManagerError ''result_conflicts_with_cancel'' 409)
      else Inl (ManagerError ''not_runnable'' 409))"

definition observation_of :: "string \<Rightarrow> string \<Rightarrow> observe_payload \<Rightarrow> observation_row" where
  "observation_of job att p =
     \<lparr> o_job_id = job, o_attempt_id = att, o_collected_at = co_observed_at (op_coverage p),
       o_expires_at = co_observed_at (op_coverage p) + 30 * 86400,
       o_payload = p, o_activity = op_activity p \<rparr>"

definition store_result :: "string \<Rightarrow> string \<Rightarrow> job_state \<Rightarrow> envelope \<Rightarrow> real \<Rightarrow> manager \<Rightarrow> manager" where
  "store_result job att st r now m =
     (let reason = (if st = Cancelled \<and> e_stop_reason r = None
                    then Some ''cancelled_by_requester'' else e_stop_reason r)
      in m\<lparr> jobs := update_rows (\<lambda>j. j_job_id j = job)
              (\<lambda>j. j\<lparr> j_state := st, j_stop_reason := reason, j_result := Some r \<rparr>) (jobs m),
            attempts := update_rows (\<lambda>a. a_attempt_id a = att)
              (\<lambda>a. a\<lparr> a_finalized_at := Some now \<rparr>) (attempts m) \<rparr>)"

text \<open>The checks of \<open>finalize\<close>: the job, its attempt and the state the result leads to, or no state
  when the same result was stored before.\<close>

definition finalize_check ::
  "settings \<Rightarrow> clock \<Rightarrow> string \<Rightarrow> string \<Rightarrow> string \<Rightarrow> string \<Rightarrow> envelope \<Rightarrow> manager
   \<Rightarrow> manager_error + (job_row \<times> attempt_row \<times> job_state option)" where
  "finalize_check cfg clk job_id w credential token r m =
     (case check_worker_credential cfg w credential of
        Some e \<Rightarrow> Inl e
      | None \<Rightarrow>
        (case job_row_of m job_id of
           None \<Rightarrow> Inl (ManagerError ''unknown_job'' 404)
         | Some row \<Rightarrow>
           (case attempt_row_of m job_id (j_attempt_id row) of
              None \<Rightarrow> Inl (ManagerError ''lease_conflict'' 409)
            | Some a \<Rightarrow>
              if a_worker_id a \<noteq> w \<or> a_lease_token a \<noteq> token
              then Inl (ManagerError ''lease_conflict'' 409)
              else if a_finalized_at a \<noteq> None then
                (if j_result row = Some r then Inr (row, a, None)
                 else Inl (ManagerError ''result_conflict'' 409))
              else if a_lease_expires_at a < clk 0 then Inl (ManagerError ''lease_expired'' 409)
              else if e_job_id r \<noteq> job_id \<or> e_attempt_id r \<noteq> a_attempt_id a
              then Inl (ManagerError ''attempt_mismatch'' 409)
              else if payload_mode (e_payload r) \<noteq> j_mode row
              then Inl (ManagerError ''mode_mismatch'' 409)
              else
                (case (if j_kind row = DiscordObserve then validate_observation_result row r (clk 1)
                       else None) of
                   Some e \<Rightarrow> Inl e
                 | None \<Rightarrow>
                   (case final_state (j_state row) (e_status r) of
                      Inl e \<Rightarrow> Inl e
                    | Inr st \<Rightarrow>
                      (case check_manifest m job_id (a_attempt_id a) (e_manifest r) of
                         Some e \<Rightarrow> Inl e
                       | None \<Rightarrow> Inr (row, a, Some st)))))))"

definition finalize ::
  "settings \<Rightarrow> clock \<Rightarrow> string \<Rightarrow> string \<Rightarrow> string \<Rightarrow> string \<Rightarrow> envelope \<Rightarrow> manager \<Rightarrow> job_view outcome" where
  "finalize cfg clk job_id w credential token r m =
     (case finalize_check cfg clk job_id w credential token r m of
        Inl e \<Rightarrow> (Inl e, m)
      | Inr (row, a, None) \<Rightarrow> (view_of cfg m (clk 3) row, m)
      | Inr (row, a, Some st) \<Rightarrow>
          let m' = store_result job_id (a_attempt_id a) st r (clk 2) m
          in case e_payload r of
               ObservePay p \<Rightarrow>
                 if job_id \<in> o_job_id ` set (observations m') then (Inl IntegrityError, m')
                 else
                   let m'' = m'\<lparr> observations := observations m'
                         @ [observation_of job_id (a_attempt_id a) p] \<rparr>
                   in (view_by_id cfg m'' (clk 3) job_id, m'')
             | _ \<Rightarrow> (view_by_id cfg m' (clk 3) job_id, m'))"

section \<open>Retries\<close>

definition retry_budget :: "job_row \<Rightarrow> usage \<Rightarrow> real \<Rightarrow> manager_error + limits" where
  "retry_budget row u remaining =
     (let p = j_budget row; observe = (j_kind row = DiscordObserve);
          queries = (if observe then max_queries p else max_queries p - u_search_requests u - 1);
          srch = (if observe then search_requests p else search_requests p - u_search_requests u - 1);
          srcs = (if observe then max_sources p else max_sources p - u_fetch_requests u - 1);
          fetch = fetch_requests p - u_fetch_requests u - 1
      in if queries < 1 \<or> srch < 1 \<or> srcs < 1 \<or> fetch < 1
         then Inl (ManagerError ''no_remaining_budget'' 409)
         else
           let child = p\<lparr> max_queries := queries, search_requests := srch, max_sources := srcs,
                 fetch_requests := fetch,
                 model_requests := max 0 (model_requests p - u_model_requests u),
                 job_seconds := max 15 (min (job_seconds p) (remaining - 10)) \<rparr>
           in if valid_limits child then Inr child else Inl ValidationError)"

text \<open>The child submission \<open>retry\<close> builds.\<close>

definition retry_request ::
  "library \<Rightarrow> real \<Rightarrow> string \<Rightarrow> string option \<Rightarrow> manager \<Rightarrow> manager_error + submit_job" where
  "retry_request lib now job_id submit_key m =
     (case job_row_of m job_id of
        None \<Rightarrow> Inl (ManagerError ''unknown_job'' 404)
      | Some row \<Rightarrow>
          if j_state row \<noteq> Failed \<and> j_state row \<noteq> Partial \<and> j_state row \<noteq> Lost
          then Inl (ManagerError ''not_retryable'' 409)
          else
            let remaining = max 0 (j_deadline_at row - now)
            in if remaining < 30 then Inl (ManagerError ''no_remaining_time'' 409)
               else if j_state row = Lost \<and> j_result row = None
               then Inl (ManagerError ''no_remaining_budget'' 409)
               else if \<not> valid_usage (row_usage row) then Inl ValidationError
               else
                 (case retry_budget row (row_usage row) remaining of
                    Inl e \<Rightarrow> Inl e
                  | Inr child \<Rightarrow>
                      let children = count_rows (\<lambda>j. j_parent_job_id j = Some job_id) (jobs m);
                          key = (case submit_key of
                              Some (c # cs) \<Rightarrow> c # cs
                            | _ \<Rightarrow> j_submit_key row @ '':retry:'' @ dec (children + 1));
                          s = \<lparr> s_contract = CONTRACT_VERSION, s_submit_key = key,
                                s_parent_job_id = Some job_id, s_kind = j_kind row,
                                s_input = j_input row, s_target_worker_id = j_target_worker_id row,
                                s_budget = child,
                                s_deadline_seconds = max 15 (min (remaining - 10) 3600) \<rparr>
                      in if valid_submit (nfkc lib) s then Inr s else Inl ValidationError))"

definition retry ::
  "settings \<Rightarrow> library \<Rightarrow> clock \<Rightarrow> string \<Rightarrow> string \<Rightarrow> string option \<Rightarrow> manager \<Rightarrow> (job_view \<times> bool) outcome" where
  "retry cfg lib clk new_id job_id submit_key m =
     (case retry_request lib (clk 0) job_id submit_key m of
        Inl e \<Rightarrow> (Inl e, m)
      | Inr s \<Rightarrow> submit cfg lib (\<lambda>i. clk (Suc i)) new_id s m)"

section \<open>Deletion\<close>

definition delete_job :: "string \<Rightarrow> manager \<Rightarrow> nat outcome" where
  "delete_job job_id m =
     (case job_row_of m job_id of
        None \<Rightarrow> (Inl (ManagerError ''unknown_job'' 404), m)
      | Some row \<Rightarrow>
          if \<not> terminal (j_state row) then (Inl (ManagerError ''not_terminal'' 409), m)
          else
            let fs = filter (\<lambda>f. f_job_id f = job_id) (artifacts m)
            in (Inr (length fs),
                m\<lparr> files := (\<lambda>p. if p \<in> f_stored_path ` set fs \<or> (p \<noteq> [] \<and> hd p = job_id)
                                  then None else files m p),
                   artifacts := delete_rows (\<lambda>f. f_job_id f = job_id) (artifacts m),
                   observations := delete_rows (\<lambda>o'. o_job_id o' = job_id) (observations m),
                   attempts := delete_rows (\<lambda>a. a_job_id a = job_id) (attempts m),
                   jobs := delete_rows (\<lambda>j. j_job_id j = job_id) (jobs m) \<rparr>))"

section \<open>Artifacts\<close>

text \<open>\<open>ARTIFACT_NAME_PATTERN\<close> and \<open>str.split(".")\<close>.\<close>

definition artifact_name_ok :: "string \<Rightarrow> bool" where
  "artifact_name_ok s \<longleftrightarrow> 1 \<le> length s \<and> length s \<le> 200 \<and> alnum_char (hd s) \<and> list_all id_char (tl s)"

fun split_on :: "char \<Rightarrow> string \<Rightarrow> string list" where
  "split_on c [] = [[]]"
| "split_on c (x # xs) =
     (if x = c then [] # split_on c xs
      else case split_on c xs of [] \<Rightarrow> [[x]] | p # ps \<Rightarrow> (x # p) # ps)"

definition ARTIFACT_MEDIA_TYPES :: "string list" where
  "ARTIFACT_MEDIA_TYPES = [''application/json'', ''text/html'', ''application/pdf'', ''text/plain'']"

definition artifact_row_for :: "string \<Rightarrow> string \<Rightarrow> artifact_ref \<Rightarrow> artifact_row" where
  "artifact_row_for job att r =
     \<lparr> f_artifact_id = ar_artifact_id r, f_job_id = job, f_attempt_id = att, f_name = ar_name r,
       f_media_type = ar_media_type r, f_bytes = ar_bytes r, f_sha256 = ar_sha256 r,
       f_schema_version = ar_schema_version r, f_stored_path = [job, att, ar_name r] \<rparr>"

definition stored_bytes :: "manager \<Rightarrow> string \<Rightarrow> int" where
  "stored_bytes m job = sum_list (map f_bytes (filter (\<lambda>f. f_job_id f = job) (artifacts m)))"

text \<open>The checks of \<open>add_artifact\<close>: whether the file is to be stored, or was stored before.\<close>

definition artifact_check ::
  "settings \<Rightarrow> library \<Rightarrow> real \<Rightarrow> string \<Rightarrow> string \<Rightarrow> string \<Rightarrow> string \<Rightarrow> string \<Rightarrow> artifact_ref
   \<Rightarrow> byte_string \<Rightarrow> manager \<Rightarrow> manager_error + bool" where
  "artifact_check cfg lib now job_id w credential att token r data m =
     (case check_worker_credential cfg w credential of
        Some e \<Rightarrow> Inl e
      | None \<Rightarrow>
        if int (length data) \<noteq> ar_bytes r then Inl (ManagerError ''artifact_size_mismatch'' 409)
        else if sha256 lib data \<noteq> ar_sha256 r then Inl (ManagerError ''artifact_sha_mismatch'' 409)
        else if \<not> artifact_name_ok (ar_name r) then Inl (ManagerError ''invalid_artifact_name'' 400)
        else if ''..'' \<in> set (split_on CHR ''.'' (ar_name r))
        then Inl (ManagerError ''invalid_artifact_name'' 400)
        else if ar_media_type r \<notin> set ARTIFACT_MEDIA_TYPES
        then Inl (ManagerError ''invalid_artifact_media_type'' 400)
        else
        (case job_row_of m job_id of
           None \<Rightarrow> Inl (ManagerError ''unknown_job'' 404)
         | Some job \<Rightarrow>
           (case attempt_row_of m job_id (Some att) of
              None \<Rightarrow> Inl (ManagerError ''unknown_attempt'' 404)
            | Some a \<Rightarrow>
              if a_worker_id a \<noteq> w \<or> a_lease_token a \<noteq> token \<or> j_attempt_id job \<noteq> Some att
              then Inl (ManagerError ''lease_conflict'' 409)
              else if a_finalized_at a \<noteq> None \<or> \<not> active_state (j_state job)
              then Inl (ManagerError ''attempt_not_active'' 409)
              else if a_lease_expires_at a < now then Inl (ManagerError ''lease_expired'' 410)
              else
              (case find_row f_artifact_id (ar_artifact_id r) (artifacts m) of
                 Some f \<Rightarrow>
                   if f_job_id f = job_id \<and> f_attempt_id f = att \<and> ref_matches f r
                   then Inr False else Inl (ManagerError ''artifact_id_conflict'' 409)
               | None \<Rightarrow>
                   if cache_bytes (j_budget job) < stored_bytes m job_id + ar_bytes r
                   then Inl (ManagerError ''artifact_bytes_limit'' 409)
                   else if max_artifacts_per_job cfg \<le> count_rows (\<lambda>f. f_job_id f = job_id) (artifacts m)
                   then Inl (ManagerError ''artifact_limit'' 409)
                   else if (case find (\<lambda>f. f_job_id f = job_id \<and> f_name f = ar_name r) (artifacts m) of
                              None \<Rightarrow> False | Some f \<Rightarrow> f_artifact_id f \<noteq> ar_artifact_id r)
                   then Inl (ManagerError ''artifact_name_conflict'' 409)
                   else Inr True))))"

definition add_artifact ::
  "settings \<Rightarrow> library \<Rightarrow> clock \<Rightarrow> string \<Rightarrow> string \<Rightarrow> string \<Rightarrow> string \<Rightarrow> string \<Rightarrow> artifact_ref
   \<Rightarrow> byte_string \<Rightarrow> manager \<Rightarrow> artifact_ref outcome" where
  "add_artifact cfg lib clk job_id w credential att token r data m =
     (case artifact_check cfg lib (clk 0) job_id w credential att token r data m of
        Inl e \<Rightarrow> (Inl e, m)
      | Inr False \<Rightarrow> (Inr r, m)
      | Inr True \<Rightarrow>
          (Inr r, m\<lparr> files := (files m)([job_id, att, ar_name r] \<mapsto> data),
                     artifacts := artifacts m @ [artifact_row_for job_id att r] \<rparr>))"

definition get_artifact ::
  "clock \<Rightarrow> string \<Rightarrow> string \<Rightarrow> manager \<Rightarrow> (artifact_ref \<times> string list) outcome" where
  "get_artifact clk job_id artifact_id m =
     (let m' = snd (expire_observations (clk 0) m)
      in case job_row_of m' job_id of
           None \<Rightarrow> (Inl (ManagerError ''unknown_job'' 404), m')
         | Some _ \<Rightarrow>
           (case find (\<lambda>f. f_artifact_id f = artifact_id \<and> f_job_id f = job_id) (artifacts m') of
              None \<Rightarrow> (Inl (ManagerError ''unknown_artifact'' 404), m')
            | Some f \<Rightarrow>
                if files m' (f_stored_path f) = None
                then (Inl (ManagerError ''artifact_missing_on_disk'' 500), m')
                else (Inr (\<lparr> ar_artifact_id = f_artifact_id f, ar_name = f_name f,
                        ar_media_type = f_media_type f, ar_bytes = f_bytes f,
                        ar_sha256 = f_sha256 f, ar_schema_version = f_schema_version f \<rparr>,
                      f_stored_path f), m')))"

section \<open>The sweeper\<close>

definition lease_lapsed :: "real \<Rightarrow> manager \<Rightarrow> job_row \<Rightarrow> bool" where
  "lease_lapsed now m j \<longleftrightarrow> list_ex (\<lambda>a. a_job_id a = j_job_id j \<and> Some (a_attempt_id a) = j_attempt_id j
     \<and> a_lease_expires_at a < now) (attempts m)"

record sweep_report =
  sw_lost :: nat
  sw_cancel_unconfirmed :: nat
  sw_expired_queued :: nat
  sw_offline_workers :: nat

definition sweep_jobs :: "real \<Rightarrow> manager \<Rightarrow> job_row list" where
  "sweep_jobs now m =
     update_rows (\<lambda>j. j_state j = Queued \<and> j_deadline_at j < now)
       (\<lambda>j. j\<lparr> j_state := Lost, j_stop_reason := Some ''deadline_expired'' \<rparr>)
     (update_rows (\<lambda>j. j_state j = Running \<and> lease_lapsed now m j)
       (\<lambda>j. j\<lparr> j_state := Lost, j_stop_reason := Some ''lease_expired'' \<rparr>) (jobs m))"

definition sweep_once :: "settings \<Rightarrow> clock \<Rightarrow> manager \<Rightarrow> sweep_report \<times> manager" where
  "sweep_once cfg clk m0 =
     (let m = snd (expire_observations (clk 0) m0); now = clk 1;
          stale = (\<lambda>w. w_state w = Online \<and> w_last_heartbeat_at w < now - offline_after_seconds cfg)
      in (\<lparr> sw_lost = count_rows (\<lambda>j. j_state j = Running \<and> lease_lapsed now m j) (jobs m),
            sw_cancel_unconfirmed =
              count_rows (\<lambda>j. j_state j = CancelRequested \<and> lease_lapsed now m j) (jobs m),
            sw_expired_queued = count_rows (\<lambda>j. j_state j = Queued \<and> j_deadline_at j < now) (jobs m),
            sw_offline_workers = count_rows stale (workers m) \<rparr>,
          m\<lparr> jobs := sweep_jobs now m,
             workers := update_rows stale (\<lambda>w. w\<lparr> w_state := Offline \<rparr>) (workers m) \<rparr>))"

end
