(* ===== verification/Manager_Inv.thy ===== *)
theory Manager_Inv
  imports Manager_Results
begin

text \<open>
  The well-formedness of the manager's state and its preservation by the state changes the
  operations are made of. \<open>Manager_Machine\<close> lifts it to every operation and every reachable state.
\<close>

section \<open>The invariant\<close>

definition keys_ok :: "manager \<Rightarrow> bool" where
  "keys_ok m \<longleftrightarrow> distinct (map j_job_id (jobs m)) \<and> distinct (map j_submit_key (jobs m))
     \<and> distinct (map a_attempt_id (attempts m)) \<and> distinct (map w_worker_id (workers m))
     \<and> distinct (map f_artifact_id (artifacts m)) \<and> distinct (map o_job_id (observations m))"

text \<open>The attempt that carries a job out, and the states in which its result is settled.\<close>

definition carries :: "attempt_row \<Rightarrow> job_row \<Rightarrow> bool" where
  "carries a j \<longleftrightarrow> a_job_id a = j_job_id j \<and> j_attempt_id j = Some (a_attempt_id a)
     \<and> j_worker_id j = Some (a_worker_id a)"

definition settled :: "job_state \<Rightarrow> bool" where
  "settled st \<longleftrightarrow> st = Completed \<or> st = Partial \<or> st = Failed \<or> st = Cancelled"

definition job_ok :: "job_row \<Rightarrow> bool" where
  "job_ok j \<longleftrightarrow>
     (j_state j = Queued \<longrightarrow> j_attempt_id j = None)
     \<and> (active_state (j_state j) \<longrightarrow> j_attempt_id j \<noteq> None)
     \<and> (j_attempt_id j = None \<longrightarrow> j_worker_id j = None \<and> j_result j = None
          \<and> (j_state j = Queued \<or> j_state j = Cancelled \<or> j_state j = Lost))
     \<and> (j_result j \<noteq> None \<longrightarrow> settled (j_state j))
     \<and> valid_limits (j_budget j) \<and> 0 < j_deadline_seconds j \<and> j_deadline_seconds j \<le> 3600
     \<and> j_deadline_at j = j_created_at j + j_deadline_seconds j
     \<and> j_mode j = input_mode (j_input j) \<and> required_capabilities j \<noteq> None"

definition jobs_ok :: "manager \<Rightarrow> bool" where
  "jobs_ok m \<longleftrightarrow> (\<forall>j \<in> set (jobs m). job_ok j
     \<and> (j_attempt_id j \<noteq> None \<longrightarrow> (\<exists>a \<in> set (attempts m). carries a j)))"

definition attempts_ok :: "manager \<Rightarrow> bool" where
  "attempts_ok m \<longleftrightarrow> (\<forall>a \<in> set (attempts m). \<exists>j \<in> set (jobs m). carries a j
     \<and> (a_finalized_at a \<noteq> None \<longleftrightarrow> settled (j_state j)))"

definition lineage_ok :: "manager \<Rightarrow> bool" where
  "lineage_ok m \<longleftrightarrow> sorted_wrt (\<lambda>j k. j_parent_job_id j \<noteq> Some (j_job_id k)) (jobs m)
     \<and> (\<forall>j \<in> set (jobs m). j_parent_job_id j \<noteq> Some (j_job_id j))"

definition observations_ok :: "manager \<Rightarrow> bool" where
  "observations_ok m \<longleftrightarrow> (\<forall>ob \<in> set (observations m). \<exists>j \<in> set (jobs m).
     j_job_id j = o_job_id ob \<and> j_kind j = DiscordObserve \<and> settled (j_state j))"

definition manager_inv :: "manager \<Rightarrow> bool" where
  "manager_inv m \<longleftrightarrow> keys_ok m \<and> jobs_ok m \<and> attempts_ok m \<and> lineage_ok m \<and> observations_ok m"

lemmas inv_defs = manager_inv_def keys_ok_def jobs_ok_def attempts_ok_def lineage_ok_def observations_ok_def

lemma active_not_settled [simp]:
  "active_state st \<Longrightarrow> \<not> settled st" "settled st \<Longrightarrow> \<not> active_state st"
  "settled st \<Longrightarrow> terminal st"
  by (auto simp: active_state_def settled_def)

lemma active_state_simps [simp]:
  "active_state Running" "active_state CancelRequested" "\<not> active_state Queued" "\<not> active_state Lost"
  by (simp_all add: active_state_def)

lemma settled_simps [simp]:
  "settled Completed" "settled Partial" "settled Failed" "settled Cancelled"
  "\<not> settled Queued" "\<not> settled Running" "\<not> settled CancelRequested" "\<not> settled Lost"
  by (simp_all add: settled_def)

lemma manager_inv_empty: "manager_inv empty_manager"
  by (simp add: inv_defs empty_manager_def)

section \<open>Consequences\<close>

lemma inv_keys:
  assumes "manager_inv m"
  shows "distinct (map j_job_id (jobs m))" "distinct (map j_submit_key (jobs m))"
    "distinct (map a_attempt_id (attempts m))" "distinct (map w_worker_id (workers m))"
    "distinct (map f_artifact_id (artifacts m))" "distinct (map o_job_id (observations m))"
  using assms by (auto simp: manager_inv_def keys_ok_def)

lemma job_row_in: "manager_inv m \<Longrightarrow> job_row_of m k = Some j \<longleftrightarrow> j \<in> set (jobs m) \<and> j_job_id j = k"
  by (simp add: job_row_of_def find_row_eq_Some inv_keys)

lemma job_unique:
  "manager_inv m \<Longrightarrow> j \<in> set (jobs m) \<Longrightarrow> j' \<in> set (jobs m) \<Longrightarrow> j_job_id j = j_job_id j' \<Longrightarrow> j = j'"
  by (metis job_row_in option.inject)

lemma attempt_unique:
  "manager_inv m \<Longrightarrow> a \<in> set (attempts m) \<Longrightarrow> a' \<in> set (attempts m) \<Longrightarrow>
   a_attempt_id a = a_attempt_id a' \<Longrightarrow> a = a'"
  by (metis find_row_in inv_keys(3) option.inject)

lemma attempt_row_in:
  assumes "attempt_row_of m job att = Some a"
  shows "a \<in> set (attempts m)" "a_job_id a = job" "att = Some (a_attempt_id a)"
  using assms by (auto simp: attempt_row_of_def find_Some_iff in_set_conv_nth split: option.splits)

lemma attempt_carries:
  assumes "manager_inv m" "j \<in> set (jobs m)" "attempt_row_of m (j_job_id j) att = Some a"
  shows "carries a j" "a_finalized_at a \<noteq> None \<longleftrightarrow> settled (j_state j)"
proof -
  note a = attempt_row_in [OF assms(3)]
  obtain j' where j': "j' \<in> set (jobs m)" "carries a j'"
      "a_finalized_at a \<noteq> None \<longleftrightarrow> settled (j_state j')"
    using assms(1) a(1) by (auto simp: manager_inv_def attempts_ok_def)
  then have "j' = j" using a(2) assms(1,2) by (auto simp: carries_def intro: job_unique)
  with j' show "carries a j" "a_finalized_at a \<noteq> None \<longleftrightarrow> settled (j_state j)" by auto
qed

lemma one_attempt_per_job:
  assumes "manager_inv m" "a \<in> set (attempts m)" "a' \<in> set (attempts m)" "a_job_id a = a_job_id a'"
  shows "a = a'"
proof -
  obtain j where j: "j \<in> set (jobs m)" "carries a j"
    using assms(1,2) by (auto simp: manager_inv_def attempts_ok_def)
  obtain j' where j': "j' \<in> set (jobs m)" "carries a' j'"
    using assms(1,3) by (auto simp: manager_inv_def attempts_ok_def)
  have "j = j'" using j j' assms(4) by (auto simp: carries_def intro: job_unique [OF assms(1)])
  with j j' have "a_attempt_id a = a_attempt_id a'" by (auto simp: carries_def)
  then show ?thesis using assms attempt_unique by blast
qed

section \<open>Preservation by the elementary changes\<close>

text \<open>Only workers, artifacts or files change.\<close>

lemma inv_other_tables [inv_intros]:
  assumes "manager_inv m" "jobs m' = jobs m" "attempts m' = attempts m"
    "observations m' = observations m"
    "distinct (map w_worker_id (workers m'))" "distinct (map f_artifact_id (artifacts m'))"
  shows "manager_inv m'"
  using assms by (simp add: inv_defs)

text \<open>A rewriting of job rows that keeps what identifies them and where they stand.\<close>

definition row_frame :: "(job_row \<Rightarrow> job_row) \<Rightarrow> job_row \<Rightarrow> bool" where
  "row_frame f j \<longleftrightarrow> j_job_id (f j) = j_job_id j \<and> j_submit_key (f j) = j_submit_key j
     \<and> j_parent_job_id (f j) = j_parent_job_id j \<and> j_kind (f j) = j_kind j
     \<and> j_attempt_id (f j) = j_attempt_id j \<and> j_worker_id (f j) = j_worker_id j"

lemma sorted_wrt_map_frame:
  "(\<And>j. j \<in> set js \<Longrightarrow> row_frame f j) \<Longrightarrow>
   sorted_wrt (\<lambda>j k. j_parent_job_id j \<noteq> Some (j_job_id k)) (map f js)
     = sorted_wrt (\<lambda>j k. j_parent_job_id j \<noteq> Some (j_job_id k)) js"
  by (induction js) (auto simp: row_frame_def)

lemma map_frame:
  "(\<And>j. j \<in> set js \<Longrightarrow> row_frame f j) \<Longrightarrow> map j_job_id (map f js) = map j_job_id js"
  "(\<And>j. j \<in> set js \<Longrightarrow> row_frame f j) \<Longrightarrow> map j_submit_key (map f js) = map j_submit_key js"
  by (auto simp: row_frame_def)

lemma inv_map_jobs [inv_intros]:
  assumes inv: "manager_inv m"
    and frame: "\<And>j. j \<in> set (jobs m) \<Longrightarrow> row_frame f j"
    and ok: "\<And>j. j \<in> set (jobs m) \<Longrightarrow> job_ok (f j)"
    and settled: "\<And>j. j \<in> set (jobs m) \<Longrightarrow> j_attempt_id j \<noteq> None \<Longrightarrow>
      settled (j_state (f j)) = settled (j_state j)"
    and obs: "\<And>j. j \<in> set (jobs m) \<Longrightarrow> settled (j_state j) \<Longrightarrow> settled (j_state (f j))"
  shows "manager_inv (m\<lparr> jobs := map f (jobs m) \<rparr>)"
proof -
  have "keys_ok (m\<lparr> jobs := map f (jobs m) \<rparr>)"
    using inv frame by (simp add: manager_inv_def keys_ok_def map_frame del: map_map)
  moreover have "jobs_ok (m\<lparr> jobs := map f (jobs m) \<rparr>)"
    using inv frame ok by (auto simp: manager_inv_def jobs_ok_def carries_def row_frame_def)
  moreover have "attempts_ok (m\<lparr> jobs := map f (jobs m) \<rparr>)"
    using inv frame settled by (fastforce simp: manager_inv_def attempts_ok_def carries_def row_frame_def)
  moreover have "lineage_ok (m\<lparr> jobs := map f (jobs m) \<rparr>)"
    using inv frame by (auto simp: manager_inv_def lineage_ok_def sorted_wrt_map_frame)
      (auto simp: row_frame_def)
  moreover have "observations_ok (m\<lparr> jobs := map f (jobs m) \<rparr>)"
    using inv frame obs by (fastforce simp: manager_inv_def observations_ok_def row_frame_def)
  ultimately show ?thesis by (simp add: manager_inv_def)
qed

lemma inv_update_jobs [inv_intros]:
  assumes "manager_inv m"
    and "\<And>j. j \<in> set (jobs m) \<Longrightarrow> p j \<Longrightarrow> row_frame f j \<and> job_ok (f j)
      \<and> (settled (j_state (f j)) \<longleftrightarrow> settled (j_state j) \<or> j_attempt_id j = None \<and> settled (j_state (f j)))"
  shows "manager_inv (m\<lparr> jobs := update_rows p f (jobs m) \<rparr>)"
  unfolding update_rows_def
proof (rule inv_map_jobs [OF assms(1)])
  fix j assume j: "j \<in> set (jobs m)"
  have "job_ok j" using assms(1) j by (simp add: manager_inv_def jobs_ok_def)
  with assms(2) [OF j] show "row_frame (\<lambda>r. if p r then f r else r) j"
    "job_ok (if p j then f j else j)"
    by (auto simp: row_frame_def)
  show "settled (j_state (if p j then f j else j)) = settled (j_state j)" if "j_attempt_id j \<noteq> None"
    using assms(2) [OF j] that by auto
  show "settled (j_state (if p j then f j else j))" if "settled (j_state j)"
    using assms(2) [OF j] that by auto
qed

lemma inv_add_job [inv_intros]:
  assumes inv: "manager_inv m" and ok: "job_ok j" and att: "j_attempt_id j = None"
    and fresh: "j_job_id j \<notin> j_job_id ` set (jobs m)" "j_submit_key j \<notin> j_submit_key ` set (jobs m)"
    and parents: "Some (j_job_id j) \<notin> j_parent_job_id ` set (jobs m)"
    and self: "j_parent_job_id j \<noteq> Some (j_job_id j)"
  shows "manager_inv (m\<lparr> jobs := jobs m @ [j] \<rparr>)"
  using assms by (auto simp: inv_defs sorted_wrt_append carries_def image_iff) (metis+)?

lemma inv_delete_job [inv_intros]:
  assumes inv: "manager_inv m"
  shows "manager_inv (m\<lparr> files := fs, artifacts := delete_rows (\<lambda>f. f_job_id f = k) (artifacts m),
      observations := delete_rows (\<lambda>ob. o_job_id ob = k) (observations m),
      attempts := delete_rows (\<lambda>a. a_job_id a = k) (attempts m),
      jobs := delete_rows (\<lambda>j. j_job_id j = k) (jobs m) \<rparr>)" (is "manager_inv ?m")
proof -
  have "keys_ok ?m"
    using inv by (auto simp: manager_inv_def keys_ok_def intro: distinct_delete_rows)
  moreover have "jobs_ok ?m"
    using inv by (fastforce simp: manager_inv_def jobs_ok_def set_delete_rows carries_def)
  moreover have "attempts_ok ?m"
    using inv by (fastforce simp: manager_inv_def attempts_ok_def set_delete_rows carries_def)
  moreover have "lineage_ok ?m"
    using inv by (auto simp: manager_inv_def lineage_ok_def delete_rows_def sorted_wrt_filter)
  moreover have "observations_ok ?m"
    using inv by (fastforce simp: manager_inv_def observations_ok_def set_delete_rows)
  ultimately show ?thesis by (simp add: manager_inv_def)
qed

text \<open>Attempt rows rewritten without touching what ties them to their job.\<close>

lemma inv_map_attempts [inv_intros]:
  assumes "manager_inv m"
    and "\<And>a. a_attempt_id (g a) = a_attempt_id a \<and> a_job_id (g a) = a_job_id a
          \<and> a_worker_id (g a) = a_worker_id a \<and> a_finalized_at (g a) = a_finalized_at a"
  shows "manager_inv (m\<lparr> attempts := update_rows p g (attempts m) \<rparr>)"
proof -
  have key: "map a_attempt_id (update_rows p g (attempts m)) = map a_attempt_id (attempts m)"
    using assms(2) by (simp add: map_key_update_rows)
  have car: "carries (if p a then g a else a) j = carries a j" for a j
    using assms(2) by (simp add: carries_def)
  have fin: "a_finalized_at (if p a then g a else a) = a_finalized_at a" for a
    using assms(2) by simp
  have rows: "set (update_rows p g (attempts m)) = (\<lambda>a. if p a then g a else a) ` set (attempts m)"
    by (rule set_update_rows)
  have "jobs_ok (m\<lparr> attempts := update_rows p g (attempts m) \<rparr>)"
    using assms(1) by (simp add: manager_inv_def jobs_ok_def rows car del: if_image_distrib)
  moreover have "attempts_ok (m\<lparr> attempts := update_rows p g (attempts m) \<rparr>)"
    using assms(1) by (simp add: manager_inv_def attempts_ok_def rows car fin del: if_image_distrib)
  ultimately show ?thesis
    using assms(1) by (simp add: manager_inv_def keys_ok_def lineage_ok_def observations_ok_def key)
qed

end
