(* ===== verification/Manager_Machine.thy ===== *)
theory Manager_Machine
  imports Manager_Inv
begin

text \<open>
  The manager as a state machine: one rule per operation, the invariant in every reachable state,
  and the legal life of a job.
\<close>

section \<open>Every operation keeps the invariant\<close>

lemma inv_upsert_worker [inv_intros]:
  "manager_inv m \<Longrightarrow> manager_inv (snd (upsert_worker cfg clk w c r m))"
  by (auto simp: upsert_worker_def Let_def map_key_update_rows worker_row_of_def find_row_None inv_keys
      intro!: inv_other_tables [of m] split: option.splits)

lemma inv_expire_job [inv_intros]:
  assumes "manager_inv m"
  shows "manager_inv (expire_job k m)"
proof -
  let ?f = "\<lambda>j. j\<lparr> j_result := None, j_stop_reason := Some ''observation_retention_expired'' \<rparr>"
  have "manager_inv (m\<lparr> jobs := update_rows (\<lambda>j. j_job_id j = k) ?f (jobs m) \<rparr>)"
    using assms
    by (intro inv_update_jobs) (auto simp: row_frame_def job_ok_def manager_inv_def jobs_ok_def
        required_capabilities_def)
  then show ?thesis
    by (auto simp: expire_job_def inv_defs set_delete_rows intro: distinct_delete_rows)
qed

lemma inv_expire_observations [inv_intros]:
  assumes "manager_inv m"
  shows "manager_inv (snd (expire_observations now m))"
proof -
  have "manager_inv (fold expire_job ks m)" for ks
    using assms by (induction ks arbitrary: m) (auto intro: inv_expire_job)
  then show ?thesis by (simp add: expire_observations_def Let_def)
qed

lemma inv_job_view [inv_intros]: "manager_inv m \<Longrightarrow> manager_inv (snd (job_view cfg clk k m))"
  by (auto simp: job_view_def Let_def intro: inv_expire_observations split: option.splits)

lemma inv_job_result [inv_intros]: "manager_inv m \<Longrightarrow> manager_inv (snd (job_result cfg clk k m))"
  using inv_job_view [of "snd (expire_observations (clk 0) m)" cfg "\<lambda>i. clk (Suc i)" k]
  by (auto simp: job_result_def inv_expire_observations split: prod.splits sum.splits option.splits)

lemma inv_get_artifact [inv_intros]: "manager_inv m \<Longrightarrow> manager_inv (snd (get_artifact clk k i m))"
  by (auto simp: get_artifact_def Let_def intro: inv_expire_observations split: option.splits)

lemma job_ok_new:
  assumes "valid_submit (nfkc lib) s"
  shows "job_ok (new_job_row lib now k s)"
proof -
  from assms obtain caps where
    "required_job_capabilities (s_kind s) (input_mode (s_input s)) (s_input s) = Some caps"
    by (rule valid_submit_capabilities)
  with assms show ?thesis
    by (simp add: job_ok_def new_job_row_def required_capabilities_def) (simp add: valid_submit_def)
qed

lemma admit_child_parent:
  "admit_child m s now = None \<Longrightarrow> s_parent_job_id s = Some p \<Longrightarrow> p \<in> j_job_id ` set (jobs m)"
  by (auto simp: admit_child_def job_row_of_def find_row_None split: option.splits dest!: find_row_SomeD)

lemma inv_submit [inv_intros]:
  assumes "manager_inv m" "valid_submit (nfkc lib) s" "Some k \<notin> j_parent_job_id ` set (jobs m)"
  shows "manager_inv (snd (submit cfg lib clk k s m))"
proof -
  have "manager_inv (m\<lparr> jobs := jobs m @ [new_job_row lib (clk 1) k s] \<rparr>)"
    if "k \<notin> j_job_id ` set (jobs m)" "s_submit_key s \<notin> j_submit_key ` set (jobs m)"
      "admit_child m s (clk 0) = None"
    using assms that job_ok_new [OF assms(2)] admit_child_parent [OF that(3)]
    by (intro inv_add_job) (auto simp: new_job_row_def)
  then show ?thesis
    using assms(1) by (auto simp: submit_def Let_def find_row_None split: option.splits sum.splits)
qed

lemma inv_start_attempt [inv_intros]:
  assumes inv: "manager_inv m" and row: "row \<in> set (jobs m)" "j_state row = Queued"
    and fresh: "att \<notin> a_attempt_id ` set (attempts m)"
  shows "manager_inv (start_attempt cfg now w att token row m)"
proof -
  let ?m = "start_attempt cfg now w att token row m"
  let ?new = "last (attempts ?m)"
  let ?f = "\<lambda>j :: job_row. j\<lparr> j_state := Running, j_worker_id := Some w, j_attempt_id := Some att,
               j_attempt_number := Suc (j_attempt_number row) \<rparr>"
  define g :: "job_row \<Rightarrow> job_row" where "g j = (if j_job_id j = j_job_id row \<and> j_state j = Queued then ?f j else j)" for j
  have jobs: "jobs ?m = map g (jobs m)" by (simp add: start_attempt_def update_rows_def g_def)
  have gp: "\<And>j. j_parent_job_id (g j) = j_parent_job_id j" "\<And>j. j_job_id (g j) = j_job_id j"
    by (simp_all add: g_def)
  have rowg: "g row = ?f row" using row by (simp add: g_def)
  have other: "g j = j" if "j \<in> set (jobs m)" "j \<noteq> row" for j
    using that row job_unique [OF inv] by (auto simp: g_def)
  have ok: "job_ok row" using inv row by (simp add: manager_inv_def jobs_ok_def)
  have no_att: "j_attempt_id row = None" using ok row by (simp add: job_ok_def)
  have okg: "job_ok (g row)"
    using ok row by (auto simp: rowg job_ok_def no_att required_capabilities_def)
  have ids: "map j_job_id (map g (jobs m)) = map j_job_id (jobs m)"
    "map j_submit_key (map g (jobs m)) = map j_submit_key (jobs m)"
    by (auto simp: g_def)
  have car: "carries ?new (g row)" by (simp add: start_attempt_def carries_def rowg)
  have k1: "keys_ok ?m"
    using inv fresh ids by (simp add: manager_inv_def keys_ok_def jobs del: map_map)
      (simp add: start_attempt_def)
  have mem: "set (attempts ?m) = insert ?new (set (attempts m))" by (simp add: start_attempt_def)
  have k2: "jobs_ok ?m"
    unfolding jobs_ok_def jobs
  proof (intro ballI)
    fix j' assume "j' \<in> set (map g (jobs m))"
    then obtain j where j: "j \<in> set (jobs m)" "j' = g j" by auto
    show "job_ok j' \<and> (j_attempt_id j' \<noteq> None \<longrightarrow> (\<exists>a \<in> set (attempts ?m). carries a j'))"
    proof (cases "j = row")
      case True
      with okg car show ?thesis by (auto simp: j mem)
    next
      case False
      with j other have "j' = j" by simp
      with inv j show ?thesis by (auto simp: mem manager_inv_def jobs_ok_def)
    qed
  qed
  have k3: "attempts_ok ?m"
    unfolding attempts_ok_def jobs
  proof (intro ballI)
    fix a assume "a \<in> set (attempts ?m)"
    then consider "a = ?new" | "a \<in> set (attempts m)" by (auto simp: mem)
    then show "\<exists>j \<in> set (map g (jobs m)). carries a j \<and> (a_finalized_at a \<noteq> None) = settled (j_state j)"
    proof cases
      case 1
      have "g row \<in> set (map g (jobs m))" using row by simp
      moreover have "a_finalized_at ?new = None" by (simp add: start_attempt_def)
      moreover have "\<not> settled (j_state (g row))" by (simp add: rowg)
      ultimately show ?thesis using car 1 by (intro bexI [of _ "g row"]) auto
    next
      case 2
      then obtain j where j: "j \<in> set (jobs m)" "carries a j" "(a_finalized_at a \<noteq> None) = settled (j_state j)"
        using inv by (auto simp: manager_inv_def attempts_ok_def)
      with no_att have "j \<noteq> row" by (auto simp: carries_def)
      with j other show ?thesis by (intro bexI [of _ j]) (auto simp: image_iff intro!: bexI [of _ j])
    qed
  qed
  have k4: "lineage_ok ?m"
    using inv gp by (simp add: manager_inv_def lineage_ok_def jobs sorted_wrt_map)
  have k5: "observations_ok ?m"
    unfolding observations_ok_def
  proof (intro ballI)
    fix ob assume "ob \<in> set (observations ?m)"
    then obtain j where j: "j \<in> set (jobs m)" "j_job_id j = o_job_id ob" "j_kind j = DiscordObserve" "settled (j_state j)"
      using inv by (auto simp: manager_inv_def observations_ok_def start_attempt_def)
    with row other have "g j = j" by (cases "j = row") auto
    with j show "\<exists>j \<in> set (jobs ?m). j_job_id j = o_job_id ob \<and> j_kind j = DiscordObserve \<and> settled (j_state j)"
      unfolding jobs by (intro bexI [of _ j]) (auto simp: image_iff intro!: bexI [of _ j])
  qed
  show ?thesis using k1 k2 k3 k4 k5 by (simp add: manager_inv_def)
qed


lemma first_claimable_in:
  "first_claimable cfg m w caps now cs = Inr (Some row) \<Longrightarrow> row \<in> set cs"
  by (induction cfg m w caps now cs rule: first_claimable.induct)
    (auto split: option.splits if_splits sum.splits list.splits)

lemma claim_candidates_in:
  "row \<in> set (claim_candidates m w now) \<longleftrightarrow> row \<in> set (jobs m) \<and> j_state row = Queued
     \<and> (j_target_worker_id row = w \<or> j_target_worker_id row = ''auto'') \<and> now < j_deadline_at row"
  by (auto simp: claim_candidates_def)

lemma claim_target_SomeD:
  assumes "claim_target cfg clk w cred m = Inr (Some row)"
  obtains wr where "check_worker_credential cfg w cred = None" "worker_row_of m w = Some wr"
    "fresh_worker cfg (clk 0) wr" "w_contract_version wr = CONTRACT_VERSION"
    "active_count m w < w_concurrency wr"
    "first_claimable cfg m w (w_capabilities wr) (clk 1) (claim_candidates m w (clk 1)) = Inr (Some row)"
  using assms
  by (auto simp: claim_target_def fresh_worker_def split: option.splits if_splits)

lemma claim_target_row:
  assumes "claim_target cfg clk w cred m = Inr (Some row)"
  shows "row \<in> set (jobs m)" "j_state row = Queued" "clk 1 < j_deadline_at row"
    "j_target_worker_id row = w \<or> j_target_worker_id row = ''auto''"
  using assms by (auto elim!: claim_target_SomeD dest!: first_claimable_in simp: claim_candidates_in)

text \<open>A claim either leaves the state alone or starts an attempt on the row it settled on.\<close>

lemma claim_cases:
  obtains (refused) "snd (claim cfg clk att token w cred m) = m"
      "\<And>x. fst (claim cfg clk att token w cred m) \<noteq> Inr (Some x)"
  | (started) row where
      "claim_target cfg clk w cred m = Inr (Some row)"
      "snd (claim cfg clk att token w cred m) = start_attempt cfg (clk 1) w att token row m"
      "att \<notin> a_attempt_id ` set (attempts m)"
proof (cases "claim_target cfg clk w cred m")
  case (Inl e)
  then show ?thesis by (intro refused) (simp_all add: claim_def)
next
  case (Inr t)
  show ?thesis
  proof (cases t)
    case None
    with Inr show ?thesis by (intro refused) (simp_all add: claim_def)
  next
    case (Some row)
    show ?thesis
    proof (cases "att \<in> a_attempt_id ` set (attempts m)
        \<or> count_rows (\<lambda>j. j_job_id j = j_job_id row \<and> j_state j = Queued) (jobs m) \<noteq> 1")
      case True
      with Inr Some show ?thesis by (intro refused) (auto simp: claim_def)
    next
      case False
      with Inr Some show ?thesis
        by (intro started [of row]) (auto simp: claim_def Let_def split: sum.splits)
    qed
  qed
qed

lemma inv_claim [inv_intros]:
  assumes "manager_inv m"
  shows "manager_inv (snd (claim cfg clk att token w cred m))"
  by (cases rule: claim_cases [of cfg clk att token w cred m])
    (use assms in \<open>auto intro: inv_start_attempt dest: claim_target_row\<close>)

lemma inv_renew_lease [inv_intros]:
  "manager_inv m \<Longrightarrow> manager_inv (snd (renew_lease cfg clk k w cred att token m))"
  by (auto simp: renew_lease_def Let_def intro!: inv_map_attempts split: option.splits)

lemma inv_cancel [inv_intros]:
  assumes "manager_inv m"
  shows "manager_inv (snd (cancel cfg clk k m))"
proof -
  have ok: "job_ok j" if "j \<in> set (jobs m)" for j
    using assms that by (simp add: manager_inv_def jobs_ok_def)
  have "manager_inv (set_job k (\<lambda>j. j\<lparr> j_state := Cancelled, j_stop_reason := r \<rparr>) m)"
    if "job_row_of m k = Some row" "j_state row = Queued" for row r
    unfolding set_job_def
  proof (rule inv_update_jobs [OF assms])
    fix j assume j: "j \<in> set (jobs m)" "j_job_id j = k"
    then have "j = row" using that(1) assms by (auto simp: job_row_in intro: job_unique)
    with ok [OF j(1)] that(2) show "row_frame (\<lambda>j. j\<lparr> j_state := Cancelled, j_stop_reason := r \<rparr>) j \<and>
        job_ok (j\<lparr> j_state := Cancelled, j_stop_reason := r \<rparr>) \<and>
        (settled (j_state (j\<lparr> j_state := Cancelled, j_stop_reason := r \<rparr>)) \<longleftrightarrow> settled (j_state j)
          \<or> j_attempt_id j = None \<and> settled (j_state (j\<lparr> j_state := Cancelled, j_stop_reason := r \<rparr>)))"
      by (auto simp: row_frame_def job_ok_def required_capabilities_def)
  qed
  moreover have "manager_inv (set_job k (\<lambda>j. j\<lparr> j_state := CancelRequested \<rparr>) m)"
    if "job_row_of m k = Some row" "j_state row = Running" for row
    unfolding set_job_def
  proof (rule inv_update_jobs [OF assms])
    fix j assume j: "j \<in> set (jobs m)" "j_job_id j = k"
    then have "j = row" using that(1) assms by (auto simp: job_row_in intro: job_unique)
    with ok [OF j(1)] that(2) show "row_frame (\<lambda>j. j\<lparr> j_state := CancelRequested \<rparr>) j \<and>
        job_ok (j\<lparr> j_state := CancelRequested \<rparr>) \<and>
        (settled (j_state (j\<lparr> j_state := CancelRequested \<rparr>)) \<longleftrightarrow> settled (j_state j)
          \<or> j_attempt_id j = None \<and> settled (j_state (j\<lparr> j_state := CancelRequested \<rparr>)))"
      by (auto simp: row_frame_def job_ok_def required_capabilities_def)
  qed
  ultimately show ?thesis
    using assms by (auto simp: cancel_def Let_def split: option.splits)
qed


text \<open>What the checks of \<open>finalize\<close> establish when they let a result be stored.\<close>

lemma finalize_check_storeD:
  assumes "finalize_check cfg clk k w cred token r m = Inr (row, a, Some st)"
  shows "check_worker_credential cfg w cred = None" "job_row_of m k = Some row"
    "attempt_row_of m k (j_attempt_id row) = Some a" "a_worker_id a = w" "a_lease_token a = token"
    "a_finalized_at a = None" "clk 0 \<le> a_lease_expires_at a" "e_job_id r = k"
    "e_attempt_id r = a_attempt_id a" "payload_mode (e_payload r) = j_mode row"
    "j_kind row = DiscordObserve \<Longrightarrow> validate_observation_result row r (clk 1) = None"
    "final_state (j_state row) (e_status r) = Inr st"
    "check_manifest m k (a_attempt_id a) (e_manifest r) = None"
  using assms by (auto simp: finalize_check_def split: option.splits if_splits sum.splits)

lemma finalize_check_replayD:
  assumes "finalize_check cfg clk k w cred token r m = Inr (row, a, None)"
  shows "check_worker_credential cfg w cred = None" "job_row_of m k = Some row"
    "attempt_row_of m k (j_attempt_id row) = Some a" "a_worker_id a = w" "a_lease_token a = token"
    "a_finalized_at a \<noteq> None" "j_result row = Some r"
  using assms by (auto simp: finalize_check_def split: option.splits if_splits sum.splits)

lemma final_state_cases:
  assumes "final_state st status = Inr st'"
  obtains "st = Running" "status = RSucceeded" "st' = Completed"
  | "st = Running" "status = RPartial" "st' = Partial"
  | "st = Running" "status = RFailed" "st' = Failed"
  | "st = CancelRequested" "status = RCancelled" "st' = Cancelled"
  using assms by (cases status) (auto simp: final_state_def split: if_splits)

lemma final_state_settled: "final_state st status = Inr st' \<Longrightarrow> settled st' \<and> active_state st"
  by (auto elim: final_state_cases)

lemma inv_store_result [inv_intros]:
  assumes inv: "manager_inv m" and row: "job_row_of m k = Some row" "active_state (j_state row)"
    and a: "attempt_row_of m k (j_attempt_id row) = Some a" and st: "settled st"
  shows "manager_inv (store_result k (a_attempt_id a) st r now m)" (is "manager_inv ?m")
proof -
  define reason where "reason = (if st = Cancelled \<and> e_stop_reason r = None
                    then Some ''cancelled_by_requester'' else e_stop_reason r)"
  define g :: "job_row \<Rightarrow> job_row" where "g j = (if j_job_id j = k then
      j\<lparr> j_state := st, j_stop_reason := reason, j_result := Some r \<rparr> else j)" for j
  define h :: "attempt_row \<Rightarrow> attempt_row" where "h b = (if a_attempt_id b = a_attempt_id a
      then b\<lparr> a_finalized_at := Some now \<rparr> else b)" for b
  have m: "?m = m\<lparr> jobs := map g (jobs m), attempts := map h (attempts m) \<rparr>"
    by (simp add: store_result_def Let_def update_rows_def reason_def g_def h_def)
  have rowk: "row \<in> set (jobs m)" "j_job_id row = k"
    using row(1) inv by (auto simp: job_row_in)
  have car: "carries a row" using attempt_carries [OF inv rowk(1)] a rowk(2) by simp
  have gp: "\<And>j. j_parent_job_id (g j) = j_parent_job_id j" "\<And>j. j_job_id (g j) = j_job_id j"
      "\<And>j. j_submit_key (g j) = j_submit_key j" "\<And>j. j_kind (g j) = j_kind j"
      "\<And>j b. carries b (g j) = carries b j" "\<And>b j. carries (h b) j = carries b j"
      "\<And>b. a_attempt_id (h b) = a_attempt_id b" "\<And>j. j_attempt_id (g j) = j_attempt_id j"
    by (simp_all add: g_def h_def carries_def)
  have ok: "\<And>j. j \<in> set (jobs m) \<Longrightarrow> job_ok j" using inv by (simp add: manager_inv_def jobs_ok_def)
  have okg: "job_ok (g j)" if "j \<in> set (jobs m)" for j
    using ok [OF that] st row(2) job_unique [OF inv that rowk(1)] rowk(2) car
    by (auto simp: g_def job_ok_def required_capabilities_def carries_def)
  have "keys_ok ?m"
    using inv by (simp add: m manager_inv_def keys_ok_def o_def gp)
  moreover have "jobs_ok ?m"
    using inv okg by (simp add: m manager_inv_def jobs_ok_def gp)
  moreover have "attempts_ok ?m"
    unfolding attempts_ok_def
  proof (intro ballI)
    fix b' assume "b' \<in> set (attempts ?m)"
    then obtain b where b: "b \<in> set (attempts m)" "b' = h b" by (auto simp: m)
    obtain j where j: "j \<in> set (jobs m)" "carries b j" "(a_finalized_at b \<noteq> None) = settled (j_state j)"
      using inv b(1) by (auto simp: manager_inv_def attempts_ok_def)
    have "(a_attempt_id b = a_attempt_id a) = (j_job_id j = k)"
    proof
      assume "a_attempt_id b = a_attempt_id a"
      then have "b = a" using attempt_unique [OF inv b(1)] attempt_row_in [OF a] by blast
      with j(2) car rowk show "j_job_id j = k" by (simp add: carries_def)
    next
      assume "j_job_id j = k"
      with job_unique [OF inv j(1) rowk(1)] rowk j(2) car
      show "a_attempt_id b = a_attempt_id a" by (simp add: carries_def)
    qed
    with j st have "carries b' (g j) \<and> (a_finalized_at b' \<noteq> None) = settled (j_state (g j))"
      by (simp add: b(2) gp) (simp add: g_def h_def)
    with j(1) show "\<exists>j \<in> set (jobs ?m). carries b' j \<and> (a_finalized_at b' \<noteq> None) = settled (j_state j)"
      by (auto simp: m)
  qed
  moreover have "lineage_ok ?m"
    using inv by (simp add: m manager_inv_def lineage_ok_def sorted_wrt_map gp)
  moreover have "observations_ok ?m"
  proof -
    have "settled (j_state (g j))" if "settled (j_state j)" for j
      using that st by (simp add: g_def)
    with inv show ?thesis by (fastforce simp: m manager_inv_def observations_ok_def gp)
  qed
  ultimately show ?thesis by (simp add: manager_inv_def)
qed

lemma validate_observation_kind:
  "j_kind row = DiscordObserve \<or> j_mode row \<noteq> ObserveMode \<Longrightarrow> payload_mode p = j_mode row \<Longrightarrow>
   p = ObservePay q \<Longrightarrow> j_kind row = DiscordObserve"
  by auto

lemma job_ok_observe: "job_ok j \<Longrightarrow> j_mode j = ObserveMode \<Longrightarrow> j_kind j = DiscordObserve"
  by (cases "j_input j"; cases "j_kind j") (auto simp: job_ok_def required_capabilities_def)

lemma inv_finalize [inv_intros]:
  assumes inv: "manager_inv m"
  shows "manager_inv (snd (finalize cfg clk k w cred token r m))"
proof (cases "finalize_check cfg clk k w cred token r m")
  case (Inl e)
  with inv show ?thesis by (simp add: finalize_def)
next
  case (Inr x)
  obtain row a o_st where x: "x = (row, a, o_st)" by (cases x)
  show ?thesis
  proof (cases o_st)
    case None
    with Inr x inv show ?thesis by (simp add: finalize_def)
  next
    case (Some st)
    note c = finalize_check_storeD [OF Inr [unfolded x Some]]
    let ?m = "store_result k (a_attempt_id a) st r (clk 2) m"
    have s: "manager_inv ?m"
      using final_state_settled [OF c(12)] by (intro inv_store_result [OF inv c(2) _ c(3)]) auto
    have row: "row \<in> set (jobs m)" "j_job_id row = k" using c(2) inv by (auto simp: job_row_in)
    have "manager_inv (?m\<lparr> observations := observations ?m @ [observation_of k (a_attempt_id a) p] \<rparr>)"
      if "e_payload r = ObservePay p" "k \<notin> o_job_id ` set (observations ?m)" for p
    proof -
      have "j_mode row = ObserveMode" using c(10) that(1) by simp
      with inv row have kind: "j_kind row = DiscordObserve"
        by (intro job_ok_observe) (auto simp: manager_inv_def jobs_ok_def)
      define row' where "row' = row\<lparr> j_state := st, j_stop_reason :=
          (if st = Cancelled \<and> e_stop_reason r = None then Some ''cancelled_by_requester'' else e_stop_reason r),
          j_result := Some r \<rparr>"
      have "row' \<in> set (jobs ?m)"
        using row by (auto simp: store_result_def Let_def set_update_rows row'_def image_iff intro!: bexI [of _ row])
      moreover have "j_job_id row' = k" "j_kind row' = DiscordObserve" "settled (j_state row')"
        using row kind final_state_settled [OF c(12)] by (simp_all add: row'_def)
      ultimately show ?thesis
        using s that(2) by (auto simp: inv_defs observation_of_def)
    qed
    with Inr x Some s show ?thesis by (simp add: finalize_def Let_def split: payload.splits)
  qed
qed


lemma retry_requestD:
  assumes "retry_request lib now k key m = Inr s"
  obtains row child where "job_row_of m k = Some row" "valid_submit (nfkc lib) s"
    "j_state row = Failed \<or> j_state row = Partial \<or> j_state row = Lost"
    "30 \<le> j_deadline_at row - now" "j_state row = Lost \<Longrightarrow> j_result row \<noteq> None"
    "valid_usage (row_usage row)"
    "retry_budget row (row_usage row) (j_deadline_at row - now) = Inr child"
    "s_parent_job_id s = Some k" "s_kind s = j_kind row" "s_input s = j_input row"
    "s_target_worker_id s = j_target_worker_id row" "s_budget s = child"
    "s_deadline_seconds s = max 15 (min (j_deadline_at row - now - 10) 3600)"
proof -
  obtain row where row: "job_row_of m k = Some row"
    using assms by (auto simp: retry_request_def split: option.splits)
  have r: "max 0 (j_deadline_at row - now) = j_deadline_at row - now \<and> 30 \<le> j_deadline_at row - now"
    using assms row by (auto simp: retry_request_def Let_def split: if_splits)
  obtain child where child: "retry_budget row (row_usage row) (j_deadline_at row - now) = Inr child"
    using assms row r by (auto simp: retry_request_def Let_def split: if_splits sum.splits)
  show ?thesis
    using assms row r child
    by (intro that [of row child]) (auto simp: retry_request_def Let_def split: if_splits)
qed

lemma inv_retry [inv_intros]:
  assumes "manager_inv m" "Some new_id \<notin> j_parent_job_id ` set (jobs m)"
  shows "manager_inv (snd (retry cfg lib clk new_id k key m))"
  using assms by (auto simp: retry_def intro: inv_submit elim!: retry_requestD split: sum.splits)

lemma inv_delete [inv_intros]: "manager_inv m \<Longrightarrow> manager_inv (snd (delete_job k m))"
  by (auto simp: delete_job_def Let_def intro!: inv_delete_job split: option.splits)

lemma artifact_check_storeD:
  assumes "artifact_check cfg lib now k w cred att token r data m = Inr True"
  obtains job a where "check_worker_credential cfg w cred = None" "job_row_of m k = Some job"
    "attempt_row_of m k (Some att) = Some a" "a_worker_id a = w" "a_lease_token a = token"
    "j_attempt_id job = Some att" "a_finalized_at a = None" "active_state (j_state job)"
    "now \<le> a_lease_expires_at a" "int (length data) = ar_bytes r" "sha256 lib data = ar_sha256 r"
    "artifact_name_ok (ar_name r)" "ar_media_type r \<in> set ARTIFACT_MEDIA_TYPES"
    "ar_artifact_id r \<notin> f_artifact_id ` set (artifacts m)"
    "stored_bytes m k + ar_bytes r \<le> cache_bytes (j_budget job)"
    "count_rows (\<lambda>f. f_job_id f = k) (artifacts m) < max_artifacts_per_job cfg"
    "\<not> (\<exists>f \<in> set (artifacts m). f_job_id f = k \<and> f_name f = ar_name r)"
proof -
  obtain job a where ja: "job_row_of m k = Some job" "attempt_row_of m k (Some att) = Some a"
    using assms by (auto simp: artifact_check_def split: option.splits if_splits)
  have fresh: "ar_artifact_id r \<notin> f_artifact_id ` set (artifacts m)"
    using assms ja
    by (cases "find_row f_artifact_id (ar_artifact_id r) (artifacts m)")
      (auto simp: artifact_check_def find_row_None split: option.splits if_splits)
  then have none: "find_row f_artifact_id (ar_artifact_id r) (artifacts m) = None"
    by (simp add: find_row_None)
  have name: "\<not> (\<exists>f \<in> set (artifacts m). f_job_id f = k \<and> f_name f = ar_name r)"
  proof
    assume ex: "\<exists>f \<in> set (artifacts m). f_job_id f = k \<and> f_name f = ar_name r"
    then obtain g where g: "find (\<lambda>f. f_job_id f = k \<and> f_name f = ar_name r) (artifacts m) = Some g"
      by (cases "find (\<lambda>f. f_job_id f = k \<and> f_name f = ar_name r) (artifacts m)")
        (auto simp: find_None_iff)
    then have "g \<in> set (artifacts m)" by (auto simp: find_Some_iff)
    with fresh have "f_artifact_id g \<noteq> ar_artifact_id r" by (metis imageI)
    with assms ja none g show False
      by (auto simp: artifact_check_def split: option.splits if_splits)
  qed
  show ?thesis
    using assms ja none fresh name
    by (intro that [of job a]) (auto simp: artifact_check_def split: option.splits if_splits)
qed

lemma add_artifact_cases:
  obtains (kept) "snd (add_artifact cfg lib clk k w cred att token r data m) = m"
  | (stored) "artifact_check cfg lib (clk 0) k w cred att token r data m = Inr True"
      "snd (add_artifact cfg lib clk k w cred att token r data m)
        = m\<lparr> files := (files m)([k, att, ar_name r] \<mapsto> data),
             artifacts := artifacts m @ [artifact_row_for k att r] \<rparr>"
proof (cases "artifact_check cfg lib (clk 0) k w cred att token r data m")
  case (Inl e)
  then show ?thesis by (intro kept) (simp add: add_artifact_def)
next
  case (Inr b)
  then show ?thesis
    by (cases b) (auto simp: add_artifact_def intro: that)
qed

lemma inv_add_artifact [inv_intros]:
  assumes "manager_inv m"
  shows "manager_inv (snd (add_artifact cfg lib clk k w cred att token r data m))"
proof (cases rule: add_artifact_cases [of cfg lib clk k w cred att token r data m])
  case kept
  with assms show ?thesis by simp
next
  case stored
  have "ar_artifact_id r \<notin> f_artifact_id ` set (artifacts m)"
    using stored(1) by (rule artifact_check_storeD)
  then show ?thesis
    unfolding stored(2)
    by (intro inv_other_tables [OF assms]) (simp_all add: inv_keys [OF assms] artifact_row_for_def)
qed

lemma inv_lose:
  assumes inv: "manager_inv m" and open_only: "\<And>j. p j \<Longrightarrow> j_state j = Queued \<or> j_state j = Running"
  shows "manager_inv (m\<lparr> jobs := update_rows p (\<lambda>j. j\<lparr> j_state := Lost, j_stop_reason := why \<rparr>) (jobs m) \<rparr>)"
proof (rule inv_update_jobs [OF inv])
  fix j assume j: "j \<in> set (jobs m)" "p j"
  have ok: "job_ok j" using inv j(1) by (simp add: manager_inv_def jobs_ok_def)
  have st: "j_state j = Queued \<or> j_state j = Running" by (rule open_only [OF j(2)])
  let ?j = "j\<lparr> j_state := Lost, j_stop_reason := why \<rparr>"
  have "row_frame (\<lambda>j. j\<lparr> j_state := Lost, j_stop_reason := why \<rparr>) j" by (simp add: row_frame_def)
  moreover have "job_ok ?j"
    using ok st by (auto simp: job_ok_def required_capabilities_def)
  ultimately show "row_frame (\<lambda>j. j\<lparr> j_state := Lost, j_stop_reason := why \<rparr>) j \<and> job_ok ?j
      \<and> (settled (j_state ?j) \<longleftrightarrow> settled (j_state j) \<or> j_attempt_id j = None \<and> settled (j_state ?j))"
    using st by auto
qed

lemma inv_sweep_jobs:
  assumes "manager_inv m"
  shows "manager_inv (m\<lparr> jobs := sweep_jobs now m \<rparr>)"
proof -
  let ?js = "update_rows (\<lambda>j. j_state j = Running \<and> lease_lapsed now m j)
       (\<lambda>j. j\<lparr> j_state := Lost, j_stop_reason := Some ''lease_expired'' \<rparr>) (jobs m)"
  have "manager_inv (m\<lparr> jobs := ?js \<rparr>)" by (rule inv_lose [OF assms]) simp
  from inv_lose [OF this, of "\<lambda>j. j_state j = Queued \<and> j_deadline_at j < now"]
  show ?thesis by (simp add: sweep_jobs_def)
qed

lemma inv_sweep_once [inv_intros]:
  assumes "manager_inv m"
  shows "manager_inv (snd (sweep_once cfg clk m))"
proof -
  let ?m = "snd (expire_observations (clk 0) m)"
  have inv: "manager_inv ?m" by (rule inv_expire_observations [OF assms])
  have "distinct (map w_worker_id (update_rows p (\<lambda>w. w\<lparr> w_state := Offline \<rparr>) (workers ?m)))" for p
    using inv by (simp add: map_key_update_rows inv_keys)
  then show ?thesis
    unfolding sweep_once_def Let_def snd_conv
    by (intro inv_other_tables [OF inv_sweep_jobs [OF inv, of "clk 1"]]) (simp_all add: inv_keys [OF inv])
qed

section \<open>The machine\<close>

text \<open>
  One rule per operation. The label is the clock the operation reads. A submission is one that
  pydantic has accepted, and a fresh job identifier is not the parent of an older row, as
  \<open>uuid4\<close> never draws an identifier twice.
\<close>

inductive manager_step :: "settings \<Rightarrow> library \<Rightarrow> manager \<Rightarrow> clock \<Rightarrow> manager \<Rightarrow> bool"
  for cfg :: settings and lib :: library where
  step_register: "valid_registration r \<Longrightarrow> manager_step cfg lib m clk (snd (upsert_worker cfg clk w c r m))"
| step_submit: "valid_submit (nfkc lib) s \<Longrightarrow> Some k \<notin> j_parent_job_id ` set (jobs m) \<Longrightarrow>
    manager_step cfg lib m clk (snd (submit cfg lib clk k s m))"
| step_claim: "manager_step cfg lib m clk (snd (claim cfg clk att token w c m))"
| step_renew: "manager_step cfg lib m clk (snd (renew_lease cfg clk k w c att token m))"
| step_cancel: "manager_step cfg lib m clk (snd (cancel cfg clk k m))"
| step_finalize: "manager_step cfg lib m clk (snd (finalize cfg clk k w c token r m))"
| step_retry: "Some n \<notin> j_parent_job_id ` set (jobs m) \<Longrightarrow>
    manager_step cfg lib m clk (snd (retry cfg lib clk n k key m))"
| step_delete: "manager_step cfg lib m clk (snd (delete_job k m))"
| step_artifact: "manager_step cfg lib m clk (snd (add_artifact cfg lib clk k w c att token ref data m))"
| step_view: "manager_step cfg lib m clk (snd (job_view cfg clk k m))"
| step_result: "manager_step cfg lib m clk (snd (job_result cfg clk k m))"
| step_download: "manager_step cfg lib m clk (snd (get_artifact clk k i m))"
| step_sweep: "manager_step cfg lib m clk (snd (sweep_once cfg clk m))"

definition manager_reachable :: "settings \<Rightarrow> library \<Rightarrow> manager \<Rightarrow> bool" where
  "manager_reachable cfg lib = reachable (\<lambda>m. m = empty_manager) (manager_step cfg lib)"

interpretation manager_system: invariant_system "\<lambda>m. m = empty_manager" "manager_step cfg lib" manager_inv
  for cfg lib
proof
  show "manager_inv m" if "m = empty_manager" for m using that by (simp add: manager_inv_empty)
  show "manager_inv m'" if "manager_step cfg lib m clk m'" "manager_inv m" for m clk m'
    using that by (cases rule: manager_step.cases) (auto intro: inv_intros)
qed

lemma reachable_inv: "manager_reachable cfg lib m \<Longrightarrow> manager_inv m"
  unfolding manager_reachable_def by (rule manager_system.reach_inv)

end
