(* ===== verification/Manager_Example.thy ===== *)
theory Manager_Example
  imports Manager_Machine
begin

text \<open>
  One concrete run of the manager, used to show that the hypotheses of the properties can hold: two
  workers, a search job that is submitted, claimed and finalized, and a job that failed.
\<close>

definition ex_cfg :: settings where
  "ex_cfg = \<lparr> worker_credentials_env = [''w1'' \<mapsto> ''W1'', ''w2'' \<mapsto> ''W2''],
     requester_credential_env = ''REQ'',
     environ = [''W1'' \<mapsto> ''secret1'', ''W2'' \<mapsto> ''secret2'', ''REQ'' \<mapsto> ''client''],
     lease_seconds = 60, offline_after_seconds = 90, max_artifacts_per_job = 8,
     max_artifact_bytes = 65536 \<rparr>"

definition ex_lib :: library where
  "ex_lib = \<lparr> nfkc = (\<lambda>t. t),
     job_input_hash = (\<lambda>i. case i of SearchIn s \<Rightarrow> map char_of (si_topic s) | _ \<Rightarrow> ''other''),
     sha256 = (\<lambda>d. replicate 64 (char_of (48 + sum_list d mod 10))) \<rparr>"

definition ex_registration :: "string \<Rightarrow> nat \<Rightarrow> registration" where
  "ex_registration w n = \<lparr> r_contract = CONTRACT_VERSION, r_worker_id = w,
     r_capabilities = [COLLECT_CAPABILITY], r_implementation_version = ''1'', r_os = ''linux'',
     r_architecture = ''x86_64'', r_concurrency = n \<rparr>"

definition ex_worker :: "string \<Rightarrow> nat \<Rightarrow> real \<Rightarrow> worker_row" where
  "ex_worker w n t = \<lparr> w_worker_id = w, w_capabilities = [COLLECT_CAPABILITY],
     w_implementation_version = ''1'', w_contract_version = CONTRACT_VERSION, w_os = ''linux'',
     w_architecture = ''x86_64'', w_concurrency = n, w_state = Online, w_last_heartbeat_at = t \<rparr>"

definition ex_input :: "string \<Rightarrow> job_input" where
  "ex_input topic = SearchIn \<lparr> si_topic = ascii topic, si_round_index = 0,
     si_queries = [\<lparr> jq_query_id = ''q01'', jq_text = ascii ''rust'', jq_role = Overview,
       jq_reason = ascii ''why'' \<rparr>] \<rparr>"

definition ex_submit :: "string \<Rightarrow> string \<Rightarrow> submit_job" where
  "ex_submit key topic = \<lparr> s_contract = CONTRACT_VERSION, s_submit_key = key, s_parent_job_id = None,
     s_kind = WebCollect, s_input = ex_input topic, s_target_worker_id = ''auto'',
     s_budget = default_limits, s_deadline_seconds = 900 \<rparr>"

definition ex_job :: job_row where
  "ex_job = new_job_row ex_lib 101 ''job-0001'' (ex_submit ''key-1'' ''t'')"

definition ex_attempt :: attempt_row where
  "ex_attempt = \<lparr> a_attempt_id = ''att-0001'', a_job_id = ''job-0001'', a_worker_id = ''w1'',
     a_lease_token = ''tok'', a_lease_expires_at = 162, a_attempt_number = 1, a_created_at = 102,
     a_finalized_at = None \<rparr>"

definition ex_result :: "result_status \<Rightarrow> envelope" where
  "ex_result st = \<lparr> e_contract = CONTRACT_VERSION, e_job_id = ''job-0001'',
     e_attempt_id = ''att-0001'', e_status = st, e_stop_reason = None,
     e_usage = \<lparr> u_search_requests = 1, u_search_credits = 1, u_fetch_requests = 2,
       u_document_bytes = 3, u_model_requests = 0 \<rparr>,
     e_elapsed_seconds = 5, e_payload = SearchPay \<lparr> sp_queries = [], sp_candidates = [], sp_failures = [] \<rparr>,
     e_manifest = [] \<rparr>"

definition ex_idle :: manager where
  "ex_idle = empty_manager\<lparr> workers := [ex_worker ''w1'' 1 100, ex_worker ''w2'' 1 100] \<rparr>"

definition ex_queued :: manager where
  "ex_queued = ex_idle\<lparr> jobs := [ex_job] \<rparr>"

definition ex_running :: manager where
  "ex_running = ex_queued\<lparr> attempts := [ex_attempt],
     jobs := [ex_job\<lparr> j_state := Running, j_worker_id := Some ''w1'', j_attempt_id := Some ''att-0001'',
       j_attempt_number := 1 \<rparr>] \<rparr>"

definition ex_stopping :: manager where
  "ex_stopping = snd (cancel ex_cfg (\<lambda>_. 105) ''job-0001'' ex_running)"

definition ex_failed :: manager where
  "ex_failed = snd (finalize ex_cfg (\<lambda>_. 110) ''job-0001'' ''w1'' ''secret1'' ''tok'' (ex_result RFailed) ex_running)"

lemmas ex_state_defs = ex_idle_def ex_queued_def ex_running_def empty_manager_def ex_job_def
  ex_attempt_def new_job_row_def ex_submit_def ex_input_def ex_worker_def
lemmas ex_lookup_defs = job_row_of_def worker_row_of_def attempt_row_of_def check_worker_credential_def
  compare_credential_def ascii_only_def ex_cfg_def

lemma ex_credential [simp]:
  "check_worker_credential ex_cfg ''w1'' ''secret1'' = None"
  "check_worker_credential ex_cfg ''w2'' ''secret2'' = None"
  by (simp_all add: ex_lookup_defs)

lemma ex_step_register:
  "snd (upsert_worker ex_cfg (\<lambda>_. 100) ''w2'' ''secret2'' (ex_registration ''w2'' 1)
     (snd (upsert_worker ex_cfg (\<lambda>_. 100) ''w1'' ''secret1'' (ex_registration ''w1'' 1) empty_manager))) = ex_idle"
  by (simp add: upsert_worker_def ex_registration_def ex_idle_def worker_row_of_def empty_manager_def
      ex_worker_def Let_def)

lemma ex_valid_submit: "valid_submit (nfkc ex_lib) (ex_submit ''key-1'' ''t'')"
  by (simp add: valid_submit_def ex_submit_def ex_input_def ex_lib_def valid_search_input_def
      valid_job_query_def readable_def blank_def ascii_def py_space_def id_string_def id_char_def
      alnum_char_def digit_char_def)

lemma ex_step_submit: "snd (submit ex_cfg ex_lib (\<lambda>_. 101) ''job-0001'' (ex_submit ''key-1'' ''t'') ex_idle) = ex_queued"
  by (simp add: submit_def ex_idle_def ex_queued_def ex_job_def empty_manager_def admit_child_def
      ex_submit_def Let_def)

lemma ex_target:
  "claim_target ex_cfg (\<lambda>_. 102) ''w1'' ''secret1'' ex_queued = Inr (Some ex_job)"
  by (simp add: claim_target_def worker_row_of_def ex_state_defs active_count_def claim_candidates_def
      required_capabilities_def eligible_workers_def worker_load_def last_assigned_def fresh_worker_def)
    (simp add: ex_cfg_def)

lemma ex_step_claim:
  "claim ex_cfg (\<lambda>_. 102) ''att-0001'' ''tok'' ''w1'' ''secret1'' ex_queued
     = (Inr (Some (\<lparr> v_row = hd (jobs ex_running), v_wait_reason = None, v_usage = no_usage \<rparr>, ex_attempt)), ex_running)"
  by (simp add: claim_def ex_target)
    (simp add: start_attempt_def ex_state_defs view_by_id_def view_of_def job_row_of_def row_usage_def ex_cfg_def)

lemma ex_extend: "manager_reachable cfg lib m \<Longrightarrow> manager_step cfg lib m clk m' \<Longrightarrow> manager_reachable cfg lib m'"
  unfolding manager_reachable_def by (rule reachable_step)

lemma ex_reachable_empty: "manager_reachable cfg lib empty_manager"
  unfolding manager_reachable_def by (rule reachable_init) (rule refl)

lemma ex_register_step:
  assumes "manager_reachable ex_cfg lib m" "id_string 1 128 w" "w \<noteq> ''auto''" "1 \<le> n" "n \<le> 16"
  shows "manager_reachable ex_cfg lib (snd (upsert_worker ex_cfg clk w c (ex_registration w n) m))"
proof -
  have "valid_registration (ex_registration w n)"
    using assms(2-) by (simp add: valid_registration_def ex_registration_def)
  then show ?thesis by (rule ex_extend [OF assms(1) step_register])
qed

lemma ex_reachable_idle: "manager_reachable ex_cfg lib ex_idle"
  unfolding ex_step_register [symmetric]
  by (intro ex_register_step ex_reachable_empty)
    (simp_all add: id_string_def id_char_def alnum_char_def digit_char_def)

lemma ex_submit_step: "manager_step ex_cfg ex_lib ex_idle (\<lambda>_. 101) ex_queued"
  unfolding ex_step_submit [symmetric]
  by (rule step_submit [OF ex_valid_submit]) (simp add: ex_idle_def empty_manager_def)

lemma ex_reachable_queued: "manager_reachable ex_cfg ex_lib ex_queued"
  by (rule ex_extend [OF ex_reachable_idle ex_submit_step])

lemma ex_claim_step: "manager_step ex_cfg ex_lib ex_queued (\<lambda>_. 102) ex_running"
  using step_claim [of ex_cfg ex_lib ex_queued "\<lambda>_. 102" "''att-0001''" "''tok''" "''w1''" "''secret1''"]
  unfolding ex_step_claim snd_conv .

lemma ex_reachable_running: "manager_reachable ex_cfg ex_lib ex_running"
  by (rule ex_extend [OF ex_reachable_queued ex_claim_step])

lemma ex_reachable_stopping: "manager_reachable ex_cfg ex_lib ex_stopping"
  unfolding ex_stopping_def by (rule ex_extend [OF ex_reachable_running step_cancel])

lemma ex_reachable_failed: "manager_reachable ex_cfg ex_lib ex_failed"
  unfolding ex_failed_def by (rule ex_extend [OF ex_reachable_running step_finalize])

lemma ex_stopping_eq:
  "ex_stopping = ex_running\<lparr> jobs := [(hd (jobs ex_running))\<lparr> j_state := CancelRequested \<rparr>] \<rparr>"
  by (simp add: ex_stopping_def cancel_def job_row_of_def ex_state_defs set_job_def Let_def)

lemma ex_finalize:
  "finalize ex_cfg (\<lambda>_. 110) ''job-0001'' ''w1'' ''secret1'' ''tok'' (ex_result RFailed) ex_running
    = (Inr \<lparr> v_row = (hd (jobs ex_running))\<lparr> j_state := Failed, j_result := Some (ex_result RFailed) \<rparr>,
             v_wait_reason = None, v_usage = e_usage (ex_result RFailed) \<rparr>,
       ex_running\<lparr> jobs := [(hd (jobs ex_running))\<lparr> j_state := Failed, j_result := Some (ex_result RFailed) \<rparr>],
         attempts := [ex_attempt\<lparr> a_finalized_at := Some 110 \<rparr>] \<rparr>)"
  by (simp add: finalize_def finalize_check_def ex_state_defs job_row_of_def attempt_row_of_def
      ex_result_def final_state_def store_result_def view_by_id_def view_of_def row_usage_def)

lemma ex_failed_eq:
  "ex_failed = ex_running\<lparr> jobs := [(hd (jobs ex_running))\<lparr> j_state := Failed, j_result := Some (ex_result RFailed) \<rparr>],
         attempts := [ex_attempt\<lparr> a_finalized_at := Some 110 \<rparr>] \<rparr>"
  by (simp add: ex_failed_def ex_finalize)

text \<open>A retry of the failed job.\<close>

definition ex_child :: submit_job where
  "ex_child = (ex_submit ''key-2'' ''t'')\<lparr> s_parent_job_id := Some ''job-0001'',
     s_budget := default_limits\<lparr> max_queries := 8, search_requests := 18, max_sources := 9,
       fetch_requests := 33 \<rparr>, s_deadline_seconds := 100 \<rparr>"

lemma ex_valid_child: "valid_submit (nfkc ex_lib) ex_child"
  using ex_valid_submit by (simp add: ex_child_def valid_submit_def ex_submit_def ex_input_def)
    (simp add: valid_limits_def default_limits_def)

text \<open>What the manager answers to a child of the failed job at time 120.\<close>

definition ex_view :: "string \<Rightarrow> submit_job \<Rightarrow> job_view" where
  "ex_view k s = \<lparr> v_row = new_job_row ex_lib 120 k s, v_wait_reason = None, v_usage = no_usage \<rparr>"

lemma ex_create_child:
  assumes "s_contract s = CONTRACT_VERSION" "s_submit_key s \<noteq> ''key-1''" "k \<noteq> ''job-0001''"
    "s_parent_job_id s = Some ''job-0001''" "s_kind s = WebCollect" "s_input s = ex_input ''t''"
    "s_target_worker_id s = ''auto''" "s_deadline_seconds s \<le> 881"
    "max_queries (s_budget s) \<le> 9" "search_requests (s_budget s) \<le> 19"
    "max_sources (s_budget s) \<le> 10" "fetch_requests (s_budget s) \<le> 34" "model_requests (s_budget s) \<le> 40"
  shows "submit ex_cfg ex_lib (\<lambda>_. 120) k s ex_failed
    = (Inr (ex_view k s, True), ex_failed\<lparr> jobs := jobs ex_failed @ [new_job_row ex_lib 120 k s] \<rparr>)"
proof -
  have admit: "admit_child ex_failed s 120 = None"
    using assms by (simp add: admit_child_def ex_failed_eq ex_state_defs job_row_of_def
        validate_child_allocation_def children_of_def lineage_used_def row_charge_def ex_result_def
        default_limits_def)
  have wait: "wait_reason ex_cfg m (new_job_row ex_lib 120 k s) 120 = Inr None"
    if "workers m = workers ex_idle" "active_count m ''w1'' = 0" for m
    using that assms by (simp add: wait_reason_def new_job_row_def ex_input_def
        eligible_workers_def required_capabilities_def ex_idle_def fresh_worker_def ex_worker_def)
      (simp add: ex_cfg_def insort_key_left_comm)
  define m' where "m' = ex_failed\<lparr> jobs := jobs ex_failed @ [new_job_row ex_lib 120 k s] \<rparr>"
  have m': "workers m' = workers ex_idle" "active_count m' ''w1'' = 0"
    "job_row_of m' k = Some (new_job_row ex_lib 120 k s)"
    using assms(3) by (simp_all add: m'_def ex_failed_eq ex_state_defs active_count_def job_row_of_def)
  have "view_by_id ex_cfg m' 120 k = Inr (ex_view k s)"
    using wait [OF m'(1,2)]
    by (simp add: view_by_id_def m'(3) ex_view_def view_of_def)
      (simp add: new_job_row_def row_usage_def)
  then have view: "view_by_id ex_cfg (ex_failed\<lparr> jobs := jobs ex_failed
      @ [new_job_row ex_lib 120 k s] \<rparr>) 120 k = Inr (ex_view k s)"
    by (simp add: m'_def)
  have key: "find_row j_submit_key (s_submit_key s) (jobs ex_failed) = None"
    "k \<notin> j_job_id ` set (jobs ex_failed)"
    using assms(2,3) by (simp_all add: ex_failed_eq ex_state_defs)
  with admit view show ?thesis
    by (simp add: submit_def Let_def assms(1))
qed

lemma ex_child_created:
  "submit ex_cfg ex_lib (\<lambda>_. 120) ''job-0002'' ex_child ex_failed = (Inr (ex_view ''job-0002'' ex_child, True),
     ex_failed\<lparr> jobs := jobs ex_failed @ [new_job_row ex_lib 120 ''job-0002'' ex_child] \<rparr>)"
  by (rule ex_create_child) (simp_all add: ex_child_def ex_submit_def default_limits_def)

end
