(* ===== verification/Lifecycle.thy ===== *)
theory Lifecycle
  imports Manager_Example
begin

text \<open>
  The life of a job, as an abstract machine over job states, and the proof that the manager
  implements it: whatever is called in whatever order, a job only moves along \<open>job_edge\<close>, what was
  submitted never changes, and a stored result stays until it is erased.
\<close>

section \<open>The abstract machine\<close>

fun job_edge :: "job_state \<Rightarrow> job_state \<Rightarrow> bool" where
  "job_edge Queued st = (st = Running \<or> st = Cancelled \<or> st = Lost)"
| "job_edge Running st = (st = CancelRequested \<or> st = Completed \<or> st = Partial \<or> st = Failed \<or> st = Lost)"
| "job_edge CancelRequested st = (st = Cancelled)"
| "job_edge _ st = False"

type_synonym lives = "string \<Rightarrow> job_state option"

definition life_step :: "lives \<Rightarrow> clock \<Rightarrow> lives \<Rightarrow> bool" where
  "life_step l clk l' \<longleftrightarrow> (\<forall>k. case (l k, l' k) of
      (None, None) \<Rightarrow> True
    | (None, Some st) \<Rightarrow> st = Queued
    | (Some st, None) \<Rightarrow> terminal st
    | (Some st, Some st') \<Rightarrow> st' = st \<or> job_edge st st')"

definition lives_of :: "manager \<Rightarrow> lives" where
  "lives_of m k = map_option j_state (job_row_of m k)"

lemma job_edge_terminal: "terminal st \<Longrightarrow> \<not> job_edge st st'"
  by (cases st) auto

text \<open>A refinement of one machine by another, through a function of the state.\<close>

locale refinement = invariant_system init step inv
  for init :: "'s \<Rightarrow> bool" and step :: "'s \<Rightarrow> 'e \<Rightarrow> 's \<Rightarrow> bool" and inv +
  fixes abs_init :: "'a \<Rightarrow> bool" and abs_step :: "'a \<Rightarrow> 'e \<Rightarrow> 'a \<Rightarrow> bool" and abs :: "'s \<Rightarrow> 'a"
  assumes abs_init: "init s \<Longrightarrow> abs_init (abs s)"
    and abs_step: "step s e t \<Longrightarrow> inv s \<Longrightarrow> abs_step (abs s) e (abs t)"
begin

lemma reach_abs: "reachable init step s \<Longrightarrow> reachable abs_init abs_step (abs s)"
proof (induction rule: reachable.induct)
  case (reachable_step s e t)
  then show ?case by (blast intro: reachable.reachable_step abs_step reach_inv)
qed (auto intro: reachable.reachable_init abs_init)

lemma reach_step: "reachable init step s \<Longrightarrow> step s e t \<Longrightarrow> abs_step (abs s) e (abs t)"
  by (blast intro: abs_step reach_inv)

end

section \<open>How one row may change\<close>

definition same_order :: "job_row \<Rightarrow> job_row \<Rightarrow> bool" where
  "same_order j j' \<longleftrightarrow> j_job_id j' = j_job_id j \<and> j_submit_key j' = j_submit_key j
     \<and> j_parent_job_id j' = j_parent_job_id j \<and> j_kind j' = j_kind j \<and> j_mode j' = j_mode j
     \<and> j_input j' = j_input j \<and> j_target_worker_id j' = j_target_worker_id j
     \<and> j_budget j' = j_budget j \<and> j_deadline_seconds j' = j_deadline_seconds j
     \<and> j_input_hash j' = j_input_hash j \<and> j_created_at j' = j_created_at j
     \<and> j_deadline_at j' = j_deadline_at j"

definition job_follows :: "job_row \<Rightarrow> job_row \<Rightarrow> bool" where
  "job_follows j j' \<longleftrightarrow> same_order j j'
     \<and> (j_state j' = j_state j \<or> job_edge (j_state j) (j_state j'))
     \<and> (j_attempt_id j' = j_attempt_id j \<and> j_worker_id j' = j_worker_id j
          \<or> j_state j = Queued \<and> j_state j' = Running)
     \<and> (j_result j' = j_result j \<or> j_result j = None \<and> active_state (j_state j) \<and> settled (j_state j')
          \<or> j_kind j = DiscordObserve \<and> j_result j' = None)"

definition jobs_follow :: "manager \<Rightarrow> manager \<Rightarrow> bool" where
  "jobs_follow m m' \<longleftrightarrow> (\<forall>k j. job_row_of m k = Some j \<longrightarrow>
     (case job_row_of m' k of None \<Rightarrow> terminal (j_state j) | Some j' \<Rightarrow> job_follows j j'))"

named_theorems follows

lemma job_follows_refl [simp]: "job_follows j j"
  by (simp add: job_follows_def same_order_def)

lemma jobs_follow_refl [follows, simp]: "jobs_follow m m"
  by (auto simp: jobs_follow_def)

lemma jobs_follow_same: "jobs m' = jobs m \<Longrightarrow> jobs_follow m m'"
  by (auto simp: jobs_follow_def job_row_of_def)

lemma job_row_update:
  assumes "jobs m' = update_rows p f (jobs m)" "\<And>j. j_job_id (f j) = j_job_id j"
  shows "job_row_of m' k = map_option (\<lambda>j. if p j then f j else j) (job_row_of m k)"
  using assms by (simp add: job_row_of_def find_row_update_rows)

lemma jobs_follow_update:
  assumes "jobs m' = update_rows p f (jobs m)" "\<And>j. j_job_id (f j) = j_job_id j"
    and "\<And>j. j \<in> set (jobs m) \<Longrightarrow> p j \<Longrightarrow> job_follows j (f j)"
  shows "jobs_follow m m'"
  unfolding jobs_follow_def job_row_update [OF assms(1,2)]
  using assms(3) by (auto simp: job_row_of_def dest!: find_row_SomeD)

lemma jobs_follow_set:
  assumes "\<And>j. j_job_id (f j) = j_job_id j"
    and "\<And>j. j \<in> set (jobs m) \<Longrightarrow> p j \<Longrightarrow> job_follows j (f j)"
  shows "jobs_follow m (m\<lparr> jobs := update_rows p f (jobs m) \<rparr>)"
    "jobs_follow m (m\<lparr> jobs := update_rows p f (jobs m), attempts := as \<rparr>)"
  using jobs_follow_update [OF _ assms] by simp_all

lemma jobs_follow_add: "jobs m' = jobs m @ [j] \<Longrightarrow> jobs_follow m m'"
  by (auto simp: jobs_follow_def job_row_of_def find_row_append)

section \<open>Every operation follows\<close>

definition erased :: "job_row \<Rightarrow> job_row" where
  "erased j = j\<lparr> j_result := None, j_stop_reason := Some ''observation_retention_expired'' \<rparr>"

lemma erased_fields [simp]:
  "j_job_id (erased j) = j_job_id j" "j_state (erased j) = j_state j" "j_result (erased j) = None"
  by (simp_all add: erased_def)

lemma job_row_expire:
  "job_row_of (fold expire_job ks m) k = map_option (\<lambda>j. if k \<in> set ks then erased j else j) (job_row_of m k)"
proof (induction ks arbitrary: m)
  case Nil
  then show ?case by (simp add: option.map_ident)
next
  case (Cons i ks)
  have "job_row_of (expire_job i m) k = map_option (\<lambda>j. if j_job_id j = i then erased j else j) (job_row_of m k)"
    by (rule job_row_update) (simp_all add: expire_job_def erased_def)
  moreover have "j_job_id j = k" if "job_row_of m k = Some j" for j
    using that by (auto simp: job_row_of_def dest: find_row_SomeD)
  ultimately show ?case
    using Cons by (cases "job_row_of m k") (auto simp: erased_def)
qed

lemma expire_row:
  assumes "manager_inv m" "job_row_of m k = Some j"
  shows "job_row_of (snd (expire_observations now m)) k
    = Some (if retention_expired now m j then erased j else j)"
proof -
  have "k \<in> set (map j_job_id (filter (retention_expired now m) (jobs m))) \<longleftrightarrow> retention_expired now m j"
    using assms job_unique [OF assms(1)] by (auto simp: job_row_in)
  with assms(2) show ?thesis
    by (simp add: expire_observations_def Let_def job_row_expire del: set_map set_filter)
qed

lemma expire_row_None:
  "job_row_of m k = None \<Longrightarrow> job_row_of (snd (expire_observations now m)) k = None"
  by (simp add: expire_observations_def Let_def job_row_expire)

lemma follows_erased: "j_kind j = DiscordObserve \<Longrightarrow> job_follows j (erased j)"
  by (simp add: job_follows_def same_order_def erased_def)

lemma retention_kind: "retention_expired now m j \<Longrightarrow> j_kind j = DiscordObserve"
  by (simp add: retention_expired_def)

lemma expire_follow [follows]: "manager_inv m \<Longrightarrow> jobs_follow m (snd (expire_observations now m))"
  by (auto simp: jobs_follow_def expire_row intro: follows_erased retention_kind)

lemma upsert_follow [follows]: "jobs_follow m (snd (upsert_worker cfg clk w c r m))"
  by (auto simp: upsert_worker_def Let_def intro: jobs_follow_same split: option.splits)

lemma submit_follow [follows]: "jobs_follow m (snd (submit cfg lib clk k s m))"
  by (auto simp: submit_def Let_def intro: jobs_follow_add split: option.splits)

lemma retry_follow [follows]: "jobs_follow m (snd (retry cfg lib clk n k key m))"
  by (auto simp: retry_def intro: submit_follow split: sum.splits)

lemma claim_target_queued:
  "claim_target cfg clk w c m = Inr (Some row) \<Longrightarrow> row \<in> set (jobs m) \<and> j_state row = Queued"
  using claim_target_row by blast

lemma claim_follow [follows]:
  assumes "manager_inv m"
  shows "jobs_follow m (snd (claim cfg clk att token w c m))"
proof (cases "claim_target cfg clk w c m")
  case (Inr x)
  have "jobs_follow m (start_attempt cfg (clk 1) w att token row m)" for row
    by (rule jobs_follow_update [where p = "\<lambda>j. j_job_id j = j_job_id row \<and> j_state j = Queued" and
        f = "\<lambda>j. j\<lparr> j_state := Running, j_worker_id := Some w, j_attempt_id := Some att,
               j_attempt_number := Suc (j_attempt_number row) \<rparr>"])
      (auto simp: start_attempt_def job_follows_def same_order_def)
  with Inr show ?thesis
    by (auto simp: claim_def Let_def split: option.splits sum.splits)
qed (simp add: claim_def)

lemma renew_follow [follows]: "jobs_follow m (snd (renew_lease cfg clk k w c att token m))"
  by (auto simp: renew_lease_def Let_def intro: jobs_follow_same split: option.splits)

lemma cancel_follow [follows]:
  assumes "manager_inv m"
  shows "jobs_follow m (snd (cancel cfg clk k m))"
proof (cases "job_row_of m k")
  case (Some row)
  have row: "row \<in> set (jobs m)" "j_job_id row = k" using assms Some by (auto simp: job_row_in)
  have only: "j = row" if "j \<in> set (jobs m)" "j_job_id j = k" for j
    using job_unique [OF assms that(1) row(1)] that(2) row(2) by simp
  have "jobs_follow m (set_job k (\<lambda>j. j\<lparr> j_state := Cancelled, j_stop_reason := Some ''cancelled_by_requester'' \<rparr>) m)"
    if "j_state row = Queued"
    unfolding set_job_def
    by (rule jobs_follow_set) (auto dest: only simp: that job_follows_def same_order_def)
  moreover have "jobs_follow m (set_job k (\<lambda>j. j\<lparr> j_state := CancelRequested \<rparr>) m)"
    if "j_state row = Running"
    unfolding set_job_def
    by (rule jobs_follow_set) (auto dest: only simp: that job_follows_def same_order_def)
  ultimately show ?thesis using Some by (simp add: cancel_def Let_def)
qed (simp add: cancel_def)

lemma store_result_follow:
  assumes "manager_inv m" "job_row_of m k = Some row" "final_state (j_state row) status = Inr st"
    "j_result row = None"
  shows "jobs_follow m (store_result k att st r now m)"
proof -
  have only: "j = row" if "j \<in> set (jobs m)" "j_job_id j = k" for j
    using assms that by (metis job_row_in job_unique)
  have "job_edge (j_state row) st \<and> active_state (j_state row) \<and> settled st"
    using assms(3) by (auto simp: final_state_def split: if_splits result_status.splits)
  then show ?thesis
    unfolding store_result_def Let_def
    by (intro jobs_follow_set) (auto dest!: only simp: job_follows_def same_order_def assms(4))
qed

lemma active_no_result: "manager_inv m \<Longrightarrow> job_row_of m k = Some j \<Longrightarrow> active_state (j_state j) \<Longrightarrow> j_result j = None"
  by (auto simp: job_row_in manager_inv_def jobs_ok_def job_ok_def)

lemma delete_follow [follows]: "jobs_follow m (snd (delete_job k m))"
proof (cases "job_row_of m k")
  case (Some row)
  show ?thesis
  proof (cases "terminal (j_state row)")
    case True
    have "job_row_of (snd (delete_job k m)) i = (if i = k then None else job_row_of m i)" for i
      using Some True by (simp add: delete_job_def Let_def) (simp add: job_row_of_def)
    with Some True show ?thesis by (auto simp: jobs_follow_def)
  qed (use Some in \<open>simp add: delete_job_def\<close>)
qed (simp add: delete_job_def)

lemma add_artifact_follow [follows]: "jobs_follow m (snd (add_artifact cfg lib clk k w c att token r data m))"
  by (cases rule: add_artifact_cases [of cfg lib clk k w c att token r data m])
    (auto intro: jobs_follow_same)

lemma finalize_cases:
  obtains (kept) "snd (finalize cfg clk k w c token r m) = m"
  | (stored) row a st where "finalize_check cfg clk k w c token r m = Inr (row, a, Some st)"
      "jobs (snd (finalize cfg clk k w c token r m)) = jobs (store_result k (a_attempt_id a) st r (clk 2) m)"
      "attempts (snd (finalize cfg clk k w c token r m)) = attempts (store_result k (a_attempt_id a) st r (clk 2) m)"
proof (cases "finalize_check cfg clk k w c token r m")
  case (Inl e)
  then show ?thesis by (intro kept) (simp add: finalize_def)
next
  case (Inr x)
  obtain row a st where x: "x = (row, a, st)" by (cases x)
  show ?thesis
  proof (cases st)
    case None
    with Inr x show ?thesis by (intro kept) (simp add: finalize_def)
  next
    case (Some st')
    show ?thesis
      by (rule stored [of row a st']) (use Inr x Some in \<open>simp_all add: finalize_def Let_def split: payload.splits\<close>)
  qed
qed

lemma finalize_follow [follows]:
  assumes "manager_inv m"
  shows "jobs_follow m (snd (finalize cfg clk k w c token r m))"
proof (cases rule: finalize_cases [of cfg clk k w c token r m])
  case (stored row a st)
  note d = finalize_check_storeD [OF stored(1)]
  have "j_result row = None"
    using final_state_settled [OF d(12)] by (intro active_no_result [OF assms d(2)]) simp
  from store_result_follow [OF assms d(2) d(12) this, of "a_attempt_id a" r "clk 2"] stored(2)
  show ?thesis by (simp add: jobs_follow_def job_row_of_def)
qed simp

lemma job_view_follow [follows]: "manager_inv m \<Longrightarrow> jobs_follow m (snd (job_view cfg clk k m))"
  by (auto simp: job_view_def Let_def intro: expire_follow split: option.splits)

lemma get_artifact_follow [follows]: "manager_inv m \<Longrightarrow> jobs_follow m (snd (get_artifact clk k i m))"
  by (auto simp: get_artifact_def Let_def intro: expire_follow split: option.splits)

text \<open>An erasure followed by another change of the same row.\<close>

lemma follows_after_erasure:
  assumes "job_ok j" "j_kind j = DiscordObserve" "job_follows (erased j) j'"
  shows "job_follows j j'"
proof -
  have "active_state (j_state j) \<Longrightarrow> j_result j = None"
    using assms(1) by (cases "j_result j") (auto simp: job_ok_def)
  moreover have "same_order j j'"
    using assms(3) by (simp add: job_follows_def same_order_def erased_def)
  ultimately show ?thesis
    using assms(2,3) unfolding job_follows_def by (simp add: erased_def) metis
qed

lemma follow_after_expire:
  assumes "manager_inv m" "jobs_follow (snd (expire_observations now m)) m'"
  shows "jobs_follow m m'"
  unfolding jobs_follow_def
proof (intro allI impI)
  fix k j assume j: "job_row_of m k = Some j"
  have ok: "job_ok j" using assms(1) j by (auto simp: job_row_in manager_inv_def jobs_ok_def)
  define j1 where "j1 = (if retention_expired now m j then erased j else j)"
  have "case job_row_of m' k of None \<Rightarrow> terminal (j_state j1) | Some j' \<Rightarrow> job_follows j1 j'"
    using assms(2) expire_row [OF assms(1) j, of now] by (simp add: jobs_follow_def j1_def)
  then show "case job_row_of m' k of None \<Rightarrow> terminal (j_state j) | Some j' \<Rightarrow> job_follows j j'"
    using ok by (auto simp: j1_def intro: follows_after_erasure retention_kind split: option.splits if_splits)
qed

lemma lost_follow: "j_state j = Queued \<or> j_state j = Running \<Longrightarrow>
    job_follows j (j\<lparr> j_state := Lost, j_stop_reason := why \<rparr>)"
  by (auto simp: job_follows_def same_order_def)

lemma sweep_jobs_row:
  "job_row_of (m\<lparr> jobs := sweep_jobs now m \<rparr>) k = map_option (\<lambda>j.
     if j_state j = Running \<and> lease_lapsed now m j then j\<lparr> j_state := Lost, j_stop_reason := Some ''lease_expired'' \<rparr>
     else if j_state j = Queued \<and> j_deadline_at j < now
     then j\<lparr> j_state := Lost, j_stop_reason := Some ''deadline_expired'' \<rparr> else j) (job_row_of m k)"
  unfolding job_row_of_def sweep_jobs_def
  by (simp add: find_row_update_rows option.map_comp comp_def) (auto intro!: option.map_cong)

lemma sweep_row:
  "job_row_of (snd (sweep_once cfg clk m)) k
   = job_row_of (let m' = snd (expire_observations (clk 0) m) in m'\<lparr> jobs := sweep_jobs (clk 1) m' \<rparr>) k"
  by (simp add: sweep_once_def Let_def job_row_of_def)

lemma sweep_follow [follows]:
  assumes "manager_inv m"
  shows "jobs_follow m (snd (sweep_once cfg clk m))"
proof -
  have "jobs_follow m' (m'\<lparr> jobs := sweep_jobs now m' \<rparr>)" for m' now
    unfolding jobs_follow_def by (auto simp: sweep_jobs_row lost_follow)
  then have "jobs_follow (snd (expire_observations (clk 0) m)) (snd (sweep_once cfg clk m))"
    by (simp add: jobs_follow_def sweep_row Let_def)
  then show ?thesis by (rule follow_after_expire [OF assms])
qed

lemma job_result_follow [follows]:
  assumes "manager_inv m"
  shows "jobs_follow m (snd (job_result cfg clk k m))"
proof -
  have "snd (job_result cfg clk k m)
      = snd (job_view cfg (\<lambda>i. clk (Suc i)) k (snd (expire_observations (clk 0) m)))"
    by (auto simp: job_result_def split: prod.splits sum.splits option.splits)
  then show ?thesis
    by (auto intro: follow_after_expire [OF assms] job_view_follow inv_expire_observations assms)
qed

lemma step_follow: "manager_inv m \<Longrightarrow> manager_step cfg lib m clk m' \<Longrightarrow> jobs_follow m m'"
  by (erule manager_step.cases) (simp_all only: follows)

section \<open>New rows\<close>

text \<open>A row appears only as a submission stores it, queued.\<close>

definition fresh_rows :: "library \<Rightarrow> manager \<Rightarrow> manager \<Rightarrow> bool" where
  "fresh_rows lib m m' \<longleftrightarrow> (\<forall>k j. job_row_of m k = None \<longrightarrow> job_row_of m' k = Some j \<longrightarrow>
     (\<exists>now s. j = new_job_row lib now k s))"

named_theorems fresh

lemma fresh_rows_dom: "(\<And>k. job_row_of m k = None \<Longrightarrow> job_row_of m' k = None) \<Longrightarrow> fresh_rows lib m m'"
  by (simp add: fresh_rows_def)

lemma fresh_rows_same: "jobs m' = jobs m \<Longrightarrow> fresh_rows lib m m'"
  by (rule fresh_rows_dom) (simp add: job_row_of_def)

lemma fresh_rows_ids: "j_job_id ` set (jobs m') \<subseteq> j_job_id ` set (jobs m) \<Longrightarrow> fresh_rows lib m m'"
  by (rule fresh_rows_dom) (auto simp: job_row_of_def find_row_None)

lemma ids_update_rows: "(\<And>j. j_job_id (f j) = j_job_id j) \<Longrightarrow>
    j_job_id ` set (update_rows p f js) = j_job_id ` set js"
  using map_key_update_rows [of p j_job_id f js] by (metis set_map)

lemma new_job_row_simps [simp]:
  "j_job_id (new_job_row lib now k s) = k" "j_state (new_job_row lib now k s) = Queued"
  "j_submit_key (new_job_row lib now k s) = s_submit_key s" "j_input (new_job_row lib now k s) = s_input s"
  "j_input_hash (new_job_row lib now k s) = job_input_hash lib (s_input s)"
  by (simp_all add: new_job_row_def)

lemma fresh_rowsD: "fresh_rows lib m m' \<Longrightarrow> job_row_of m k = None \<Longrightarrow> job_row_of m' k = Some j \<Longrightarrow>
    j_state j = Queued"
  unfolding fresh_rows_def using new_job_row_simps(2) by metis

lemma expire_fresh [fresh]: "fresh_rows lib m (snd (expire_observations now m))"
  by (rule fresh_rows_dom) (rule expire_row_None)

lemma submit_fresh [fresh]: "fresh_rows lib m (snd (submit cfg lib clk k s m))"
  by (auto simp: submit_def Let_def fresh_rows_def job_row_of_def find_row_append
      split: option.splits if_splits)

lemma upsert_fresh [fresh]: "fresh_rows lib m (snd (upsert_worker cfg clk w c r m))"
  by (auto simp: upsert_worker_def Let_def intro: fresh_rows_same split: option.splits)

lemma retry_fresh [fresh]: "fresh_rows lib m (snd (retry cfg lib clk n k key m))"
  by (auto simp: retry_def intro: submit_fresh fresh_rows_same split: sum.splits)

lemma claim_fresh [fresh]: "fresh_rows lib m (snd (claim cfg clk att token w c m))"
  by (cases rule: claim_cases [of cfg clk att token w c m])
    (simp_all add: fresh_rows_ids start_attempt_def ids_update_rows)

lemma renew_fresh [fresh]: "fresh_rows lib m (snd (renew_lease cfg clk k w c att token m))"
  by (auto simp: renew_lease_def Let_def intro: fresh_rows_same split: option.splits)

lemma cancel_fresh [fresh]: "fresh_rows lib m (snd (cancel cfg clk k m))"
  by (cases "job_row_of m k")
    (simp_all add: cancel_def Let_def set_job_def ids_update_rows fresh_rows_ids fresh_rows_same)

lemma finalize_fresh [fresh]: "fresh_rows lib m (snd (finalize cfg clk k w c token r m))"
  by (cases rule: finalize_cases [of cfg clk k w c token r m])
    (simp_all add: fresh_rows_ids store_result_def Let_def ids_update_rows)

lemma delete_fresh [fresh]: "fresh_rows lib m (snd (delete_job k m))"
  by (auto simp: delete_job_def Let_def set_delete_rows intro!: fresh_rows_ids split: option.splits)

lemma add_artifact_fresh [fresh]: "fresh_rows lib m (snd (add_artifact cfg lib clk k w c att token r data m))"
  by (cases rule: add_artifact_cases [of cfg lib clk k w c att token r data m])
    (auto intro: fresh_rows_same)

lemma job_view_fresh [fresh]: "fresh_rows lib m (snd (job_view cfg clk k m))"
  by (auto simp: job_view_def Let_def intro: expire_fresh split: option.splits)

lemma get_artifact_fresh [fresh]: "fresh_rows lib m (snd (get_artifact clk k i m))"
  by (auto simp: get_artifact_def Let_def intro: expire_fresh split: option.splits)

lemma job_result_fresh [fresh]: "fresh_rows lib m (snd (job_result cfg clk k m))"
  by (rule fresh_rows_dom)
    (auto simp: job_result_def job_view_def Let_def expire_row_None split: prod.splits sum.splits option.splits)

lemma sweep_fresh [fresh]: "fresh_rows lib m (snd (sweep_once cfg clk m))"
  by (rule fresh_rows_dom) (simp add: sweep_row Let_def sweep_jobs_row expire_row_None)

lemma step_fresh: "manager_step cfg lib m clk m' \<Longrightarrow> fresh_rows lib m m'"
  by (erule manager_step.cases) (simp_all only: fresh)

section \<open>The manager refines the life of a job\<close>

lemma life_stepI: "jobs_follow m m' \<Longrightarrow> fresh_rows lib m m' \<Longrightarrow> life_step (lives_of m) clk (lives_of m')"
  unfolding life_step_def
proof (rule allI)
  fix k
  assume f: "jobs_follow m m'" and n: "fresh_rows lib m m'"
  show "case (lives_of m k, lives_of m' k) of (None, None) \<Rightarrow> True | (None, Some st) \<Rightarrow> st = Queued
      | (Some st, None) \<Rightarrow> terminal st | (Some st, Some st') \<Rightarrow> st' = st \<or> job_edge st st'"
  proof (cases "job_row_of m k")
    case None
    with n show ?thesis by (cases "job_row_of m' k") (auto simp: lives_of_def dest: fresh_rowsD)
  next
    case (Some j)
    then have "case job_row_of m' k of None \<Rightarrow> terminal (j_state j) | Some j' \<Rightarrow> job_follows j j'"
      using f by (simp add: jobs_follow_def)
    with Some show ?thesis
      by (cases "job_row_of m' k") (auto simp: lives_of_def job_follows_def)
  qed
qed

interpretation life: refinement "\<lambda>m. m = empty_manager" "manager_step cfg lib" manager_inv
    "\<lambda>l. l = Map.empty" life_step lives_of
  for cfg lib
proof
  show "lives_of m = Map.empty" if "m = empty_manager" for m
    using that by (auto simp: lives_of_def job_row_of_def empty_manager_def)
  show "life_step (lives_of m) clk (lives_of m')" if "manager_step cfg lib m clk m'" "manager_inv m" for m clk m'
    using that by (intro life_stepI step_follow step_fresh)
qed

section \<open>Properties\<close>

text \<open>C2. Whatever operation runs next, every job either keeps its state or moves along one edge of
  the life cycle (queued to running, cancelled or lost; running to cancel_requested, completed,
  partial, failed or lost; cancel_requested to cancelled only); a new row is queued, and a row only
  disappears when its state is terminal.\<close>

theorem manager_refines_life_cycle:
  assumes "manager_reachable cfg lib m" "manager_step cfg lib m clk m'"
  shows "life_step (lives_of m) clk (lives_of m')"
  using assms unfolding manager_reachable_def by (rule life.reach_step)

theorem manager_refines_life_cycle_witness:
  "life_step (lives_of ex_queued) (\<lambda>_. 102) (lives_of ex_running) \<and> lives_of ex_running ''job-0001'' = Some Running"
  using manager_refines_life_cycle [OF ex_reachable_queued ex_claim_step]
  by (simp add: lives_of_def job_row_of_def ex_running_def ex_job_def new_job_row_def)

text \<open>C3. No operation rewrites what was submitted (input, kind, budget, deadlines, keys, parent and
  target); the worker and attempt of a job change only at the claim; a job that has ended keeps its
  state for good, and its result too unless retention erases the result of an observation; and no
  result, once stored, is ever replaced by another.\<close>

theorem stored_jobs_are_stable:
  assumes "manager_reachable cfg lib m" "manager_step cfg lib m clk m'"
    and "job_row_of m k = Some j" "job_row_of m' k = Some j'"
  shows "same_order j j'
    \<and> (j_state j \<noteq> Queued \<longrightarrow> j_attempt_id j' = j_attempt_id j \<and> j_worker_id j' = j_worker_id j)
    \<and> (terminal (j_state j) \<longrightarrow> j_state j' = j_state j
        \<and> (j_result j' = j_result j \<or> j_kind j = DiscordObserve \<and> j_result j' = None))
    \<and> (j_result j \<noteq> None \<longrightarrow> j_result j' = j_result j \<or> j_kind j = DiscordObserve \<and> j_result j' = None)"
proof -
  have "jobs_follow m m'" by (rule step_follow [OF reachable_inv [OF assms(1)] assms(2)])
  then have "job_follows j j'" using assms(3,4) unfolding jobs_follow_def
    by (metis option.simps(5))
  moreover have "\<not> active_state (j_state j)" if "terminal (j_state j)"
    using that by (auto simp: active_state_def)
  ultimately show ?thesis unfolding job_follows_def using job_edge_terminal by metis
qed

theorem stored_jobs_are_stable_witness:
  "same_order (hd (jobs ex_queued)) (hd (jobs ex_running))"
proof -
  have q: "job_row_of ex_queued ''job-0001'' = Some (hd (jobs ex_queued))"
    "job_row_of ex_running ''job-0001'' = Some (hd (jobs ex_running))"
    by (simp_all add: job_row_of_def ex_queued_def ex_running_def ex_job_def new_job_row_def)
  show ?thesis
    using stored_jobs_are_stable [OF ex_reachable_queued ex_claim_step q] by blast
qed

text \<open>C4. A job runs at most once: over its whole life one attempt, of one worker, is ever made for
  it, and while the job is running or asked to stop that attempt exists and is not finalized.\<close>

theorem one_attempt_ever:
  assumes "manager_reachable cfg lib m"
  shows "(\<forall>a \<in> set (attempts m). \<forall>a' \<in> set (attempts m). a_job_id a = a_job_id a' \<longrightarrow> a = a')
    \<and> (\<forall>j \<in> set (jobs m). active_state (j_state j) \<longrightarrow>
          (\<exists>a \<in> set (attempts m). carries a j \<and> a_finalized_at a = None))"
proof (intro conjI ballI impI)
  note inv = reachable_inv [OF assms]
  show "a = a'" if "a \<in> set (attempts m)" "a' \<in> set (attempts m)" "a_job_id a = a_job_id a'" for a a'
    using that by (rule one_attempt_per_job [OF inv])
  fix j assume j: "j \<in> set (jobs m)" "active_state (j_state j)"
  with inv obtain a where a: "a \<in> set (attempts m)" "carries a j"
    by (auto simp: manager_inv_def jobs_ok_def job_ok_def)
  obtain j' where j': "j' \<in> set (jobs m)" "carries a j'" "a_finalized_at a \<noteq> None \<longleftrightarrow> settled (j_state j')"
    using inv a(1) by (auto simp: manager_inv_def attempts_ok_def)
  then have "j' = j" using a j by (auto simp: carries_def intro: job_unique [OF inv])
  with a j j' show "\<exists>a \<in> set (attempts m). carries a j \<and> a_finalized_at a = None" by auto
qed

theorem one_attempt_ever_witness:
  "\<exists>a \<in> set (attempts ex_running). carries a (hd (jobs ex_running)) \<and> a_finalized_at a = None"
  using one_attempt_ever [OF ex_reachable_running] by (auto simp: ex_running_def)

end
