(* ===== verification/Scheduling.thy ===== *)
theory Scheduling
  imports Lifecycle
begin

text \<open>
  What \<open>Manager.claim\<close> promises: who gets which job, in which order, with which lease, and that no
  operation pushes a worker over the concurrency it registered.
\<close>

section \<open>The choice of a job\<close>

text \<open>What the loop of \<open>claim\<close> asks of one candidate.\<close>

definition claimable :: "settings \<Rightarrow> manager \<Rightarrow> string \<Rightarrow> string list \<Rightarrow> real \<Rightarrow> job_row \<Rightarrow> bool" where
  "claimable cfg m w caps now c \<longleftrightarrow>
     (\<exists>req. required_capabilities c = Some req \<and> set req \<subseteq> set caps)
     \<and> (j_target_worker_id c = ''auto'' \<longrightarrow>
          (\<exists>x xs. eligible_workers cfg m c now = Inr (x # xs) \<and> w_worker_id x = w))"

lemma eligible_sorted: "eligible_workers cfg m job now = Inr ws \<Longrightarrow> sorted (map (worker_load m) ws)"
  by (auto simp: eligible_workers_def Let_def simp del: filter_sort split: option.splits intro: sorted_sort_key)

lemma first_claimable_split:
  "first_claimable cfg m w caps now cs = Inr (Some row) \<Longrightarrow>
   \<exists>pre post. cs = pre @ row # post \<and> claimable cfg m w caps now row
     \<and> (\<forall>c \<in> set pre. \<not> claimable cfg m w caps now c)"
proof (induction cs)
  case (Cons c cs)
  show ?case
  proof (cases "claimable cfg m w caps now c")
    case True
    with Cons.prems have "c = row"
      by (auto simp: claimable_def split: if_splits)
    with True show ?thesis by (intro exI [of _ "[]"] exI [of _ cs]) auto
  next
    case False
    then have "first_claimable cfg m w caps now cs = Inr (Some row)"
      using Cons.prems
      by (auto simp: claimable_def split: option.splits if_splits sum.splits list.splits)
    with Cons.IH obtain pre post where "cs = pre @ row # post" "claimable cfg m w caps now row"
      "\<forall>c \<in> set pre. \<not> claimable cfg m w caps now c" by blast
    with False show ?thesis by (intro exI [of _ "c # pre"] exI [of _ post]) auto
  qed
qed simp

lemma sorted_key_before:
  "sorted (map f (pre @ x # post)) \<Longrightarrow> y \<in> set (pre @ x # post) \<Longrightarrow> y \<notin> set pre \<Longrightarrow> f x \<le> f y"
  by (auto simp: sorted_append)

definition claim_key :: "job_row \<Rightarrow> real \<times> string" where
  "claim_key j = (j_created_at j, j_job_id j)"

lemma claim_candidates_sorted: "sorted (map claim_key (claim_candidates m w now))"
  unfolding claim_candidates_def claim_key_def [abs_def] by (rule sorted_sort_key)

lemma claim_target_choice:
  assumes "claim_target cfg clk w c m = Inr (Some row)"
  obtains wr where "worker_row_of m w = Some wr" "fresh_worker cfg (clk 0) wr"
    "w_contract_version wr = CONTRACT_VERSION" "active_count m w < w_concurrency wr"
    "check_worker_credential cfg w c = None"
    "claimable cfg m w (w_capabilities wr) (clk 1) row" "row \<in> set (claim_candidates m w (clk 1))"
    "\<forall>j \<in> set (claim_candidates m w (clk 1)). claimable cfg m w (w_capabilities wr) (clk 1) j
       \<longrightarrow> claim_key row \<le> claim_key j"
proof -
  obtain wr where wr: "worker_row_of m w = Some wr" "fresh_worker cfg (clk 0) wr"
    "w_contract_version wr = CONTRACT_VERSION" "active_count m w < w_concurrency wr"
    "check_worker_credential cfg w c = None"
    "first_claimable cfg m w (w_capabilities wr) (clk 1) (claim_candidates m w (clk 1)) = Inr (Some row)"
    using assms by (rule claim_target_SomeD)
  obtain pre post where split: "claim_candidates m w (clk 1) = pre @ row # post"
    "claimable cfg m w (w_capabilities wr) (clk 1) row"
    "\<forall>c \<in> set pre. \<not> claimable cfg m w (w_capabilities wr) (clk 1) c"
    using first_claimable_split [OF wr(6)] by blast
  have "claim_key row \<le> claim_key j" if "j \<in> set (claim_candidates m w (clk 1))"
    "claimable cfg m w (w_capabilities wr) (clk 1) j" for j
    using sorted_key_before [of claim_key pre row post j] claim_candidates_sorted [of m w "clk 1"] that split
    by auto
  with wr split show ?thesis by (intro that [of wr]) auto
qed

lemma claim_started:
  assumes "claim cfg clk att token w c m = (Inr (Some (v, a)), m')"
  obtains row where "claim_target cfg clk w c m = Inr (Some row)" "att \<notin> a_attempt_id ` set (attempts m)"
    "m' = start_attempt cfg (clk 1) w att token row m" "a = last (attempts m')"
    "view_by_id cfg m' (clk 2) (j_job_id row) = Inr v"
  using assms
  by (auto simp: claim_def Let_def split: sum.splits option.splits if_splits)

lemma start_attempt_row:
  assumes "manager_inv m" "row \<in> set (jobs m)" "j_state row = Queued"
  shows "job_row_of (start_attempt cfg now w att token row m) k
    = (if k = j_job_id row then Some (row\<lparr> j_state := Running, j_worker_id := Some w,
         j_attempt_id := Some att, j_attempt_number := Suc (j_attempt_number row) \<rparr>) else job_row_of m k)"
proof -
  have upd: "job_row_of (start_attempt cfg now w att token row m) k
    = map_option (\<lambda>j. if j_job_id j = j_job_id row \<and> j_state j = Queued
        then j\<lparr> j_state := Running, j_worker_id := Some w, j_attempt_id := Some att,
               j_attempt_number := Suc (j_attempt_number row) \<rparr> else j) (job_row_of m k)"
    by (rule job_row_update) (simp_all add: start_attempt_def)
  have row: "job_row_of m (j_job_id row) = Some row" using assms by (simp add: job_row_in)
  show ?thesis
  proof (cases "k = j_job_id row")
    case True
    with upd row assms(3) show ?thesis by simp
  next
    case False
    then have "j_job_id j \<noteq> j_job_id row" if "job_row_of m k = Some j" for j
      using that assms(1) by (simp add: job_row_in)
    then show ?thesis unfolding upd using False by (cases "job_row_of m k") simp_all
  qed
qed

section \<open>Concurrency\<close>

definition attempt_jobs :: "manager \<Rightarrow> string set" where
  "attempt_jobs m = a_job_id ` set (attempts m)"

definition active_ids :: "manager \<Rightarrow> string \<Rightarrow> string set" where
  "active_ids m w = {k. \<exists>j. job_row_of m k = Some j \<and> j_worker_id j = Some w \<and> active_state (j_state j)}"

lemma active_count_ids:
  assumes "manager_inv m"
  shows "active_count m w = card (active_ids m w)" and "finite (active_ids m w)"
proof -
  let ?p = "\<lambda>j. j_worker_id j = Some w \<and> active_state (j_state j)"
  have ids: "active_ids m w = j_job_id ` set (filter ?p (jobs m))"
    using assms by (auto simp: active_ids_def job_row_in)
  have "distinct (map j_job_id (filter ?p (jobs m)))"
    using assms by (intro distinct_map_filterI) (simp add: inv_keys)
  from distinct_card [OF this] show "active_count m w = card (active_ids m w)"
    by (simp add: active_count_def count_rows_def ids)
  show "finite (active_ids m w)" by (simp add: ids)
qed

text \<open>A job that is active now was active before, or an attempt has been made for it since.\<close>

lemma active_ids_step:
  assumes "manager_inv m" "manager_inv m'" "jobs_follow m m'" "fresh_rows lib m m'"
  shows "active_ids m' w - active_ids m w \<subseteq> attempt_jobs m' - attempt_jobs m"
proof
  fix k assume "k \<in> active_ids m' w - active_ids m w"
  then obtain j' where j': "job_row_of m' k = Some j'" "j_worker_id j' = Some w" "active_state (j_state j')"
    and new: "k \<notin> active_ids m w" by (auto simp: active_ids_def)
  obtain a where a: "a \<in> set (attempts m')" "a_job_id a = k"
    using assms(2) j' by (auto simp: job_row_in manager_inv_def jobs_ok_def job_ok_def carries_def)
  obtain j where j: "job_row_of m k = Some j"
    using fresh_rowsD [OF assms(4) _ j'(1)] j'(3) by (cases "job_row_of m k") auto
  with assms(3) j' have f: "job_follows j j'" unfolding jobs_follow_def by (metis option.simps(5))
  have q: "j_state j = Queued"
  proof (rule ccontr)
    assume "j_state j \<noteq> Queued"
    with f j' have "j_worker_id j = Some w" "active_state (j_state j)"
      by (cases "j_state j"; auto simp: job_follows_def active_state_def)+
    with j new show False by (auto simp: active_ids_def)
  qed
  have "k \<notin> attempt_jobs m"
  proof
    assume "k \<in> attempt_jobs m"
    then obtain b where b: "b \<in> set (attempts m)" "a_job_id b = k" by (auto simp: attempt_jobs_def)
    then obtain j2 where "j2 \<in> set (jobs m)" "carries b j2"
      using assms(1) by (auto simp: manager_inv_def attempts_ok_def)
    with b j assms(1) have "carries b j" by (auto simp: carries_def job_row_in dest: job_unique)
    moreover have "job_ok j" using assms(1) j by (auto simp: job_row_in manager_inv_def jobs_ok_def)
    ultimately show False using q by (auto simp: job_ok_def carries_def)
  qed
  with a show "k \<in> attempt_jobs m' - attempt_jobs m" by (auto simp: attempt_jobs_def)
qed

text \<open>Only a claim makes an attempt.\<close>

named_theorems no_attempt

lemma attempts_sub: "set (attempts m') \<subseteq> set (attempts m) \<Longrightarrow> attempt_jobs m' \<subseteq> attempt_jobs m"
  by (auto simp: attempt_jobs_def)

lemma expire_attempts [simp]: "attempts (snd (expire_observations now m)) = attempts m"
proof -
  have "attempts (fold expire_job ks m) = attempts m" for ks
    by (induction ks arbitrary: m) (simp_all add: expire_job_def)
  then show ?thesis by (simp add: expire_observations_def Let_def)
qed

lemma attempt_jobs_map: "(\<And>a. a_job_id (g a) = a_job_id a) \<Longrightarrow>
    a_job_id ` set (update_rows p g as) \<subseteq> a_job_id ` set as"
  by (auto simp: set_update_rows)

lemma no_attempt_upsert [no_attempt]: "attempt_jobs (snd (upsert_worker cfg clk w c r m)) \<subseteq> attempt_jobs m"
  by (auto simp: upsert_worker_def Let_def attempt_jobs_def split: option.splits)

lemma no_attempt_submit [no_attempt]: "attempt_jobs (snd (submit cfg lib clk k s m)) \<subseteq> attempt_jobs m"
  by (auto simp: submit_def Let_def attempt_jobs_def split: option.splits)

lemma no_attempt_retry [no_attempt]: "attempt_jobs (snd (retry cfg lib clk n k key m)) \<subseteq> attempt_jobs m"
  using no_attempt_submit by (auto simp: retry_def split: sum.splits)

lemma no_attempt_renew [no_attempt]: "attempt_jobs (snd (renew_lease cfg clk k w c att token m)) \<subseteq> attempt_jobs m"
proof -
  have "snd (renew_lease cfg clk k w c att token m) = m \<or> (\<exists>t. snd (renew_lease cfg clk k w c att token m)
      = m\<lparr> attempts := update_rows (\<lambda>r. a_attempt_id r = att) (\<lambda>r. r\<lparr> a_lease_expires_at := t \<rparr>) (attempts m) \<rparr>)"
    by (auto simp: renew_lease_def Let_def split: option.splits)
  then show ?thesis unfolding attempt_jobs_def by (elim disjE exE) (simp_all add: attempt_jobs_map)
qed

lemma no_attempt_cancel [no_attempt]: "attempt_jobs (snd (cancel cfg clk k m)) \<subseteq> attempt_jobs m"
  by (cases "job_row_of m k") (simp_all add: cancel_def Let_def set_job_def attempt_jobs_def)

lemma no_attempt_finalize [no_attempt]: "attempt_jobs (snd (finalize cfg clk k w c token r m)) \<subseteq> attempt_jobs m"
  by (cases rule: finalize_cases [of cfg clk k w c token r m])
    (simp_all add: attempt_jobs_def store_result_def Let_def attempt_jobs_map)

lemma no_attempt_delete [no_attempt]: "attempt_jobs (snd (delete_job k m)) \<subseteq> attempt_jobs m"
  by (auto simp: delete_job_def Let_def attempt_jobs_def set_delete_rows split: option.splits)

lemma no_attempt_artifact [no_attempt]: "attempt_jobs (snd (add_artifact cfg lib clk k w c att token r data m)) \<subseteq> attempt_jobs m"
  by (cases rule: add_artifact_cases [of cfg lib clk k w c att token r data m])
    (auto simp: attempt_jobs_def)

lemma no_attempt_job_view [no_attempt]: "attempt_jobs (snd (job_view cfg clk k m)) \<subseteq> attempt_jobs m"
  by (auto simp: job_view_def Let_def attempt_jobs_def split: option.splits)

lemma no_attempt_get_artifact [no_attempt]: "attempt_jobs (snd (get_artifact clk k i m)) \<subseteq> attempt_jobs m"
  by (auto simp: get_artifact_def Let_def attempt_jobs_def split: option.splits)

lemma no_attempt_job_result [no_attempt]: "attempt_jobs (snd (job_result cfg clk k m)) \<subseteq> attempt_jobs m"
  by (auto simp: job_result_def job_view_def Let_def attempt_jobs_def split: prod.splits sum.splits option.splits)

lemma no_attempt_sweep [no_attempt]: "attempt_jobs (snd (sweep_once cfg clk m)) \<subseteq> attempt_jobs m"
  by (simp add: sweep_once_def Let_def attempt_jobs_def)

lemma attempt_jobs_step:
  "manager_step cfg lib m clk m' \<Longrightarrow> attempt_jobs m' \<subseteq> attempt_jobs m
    \<or> (\<exists>att token w c. m' = snd (claim cfg clk att token w c m))"
proof (erule manager_step.cases, goal_cases)
  case (3 m clk att token w c)
  then show ?case by blast
qed (simp_all only: no_attempt simp_thms)

section \<open>The effect of a claim\<close>

lemma claim_effect:
  assumes "manager_reachable cfg lib m"
    and "claim cfg clk att token w c m = (Inr (Some (v, a)), m')"
  obtains row wr where "claim_target cfg clk w c m = Inr (Some row)"
    "job_row_of m (j_job_id row) = Some row" "j_state row = Queued" "clk 1 < j_deadline_at row"
    "j_target_worker_id row = w \<or> j_target_worker_id row = ''auto''"
    "check_worker_credential cfg w c = None" "worker_row_of m w = Some wr"
    "fresh_worker cfg (clk 0) wr" "w_contract_version wr = CONTRACT_VERSION"
    "claimable cfg m w (w_capabilities wr) (clk 1) row" "active_count m w < w_concurrency wr"
    "\<forall>j \<in> set (claim_candidates m w (clk 1)). claimable cfg m w (w_capabilities wr) (clk 1) j
       \<longrightarrow> claim_key row \<le> claim_key j"
    "v_row v = row\<lparr> j_state := Running, j_worker_id := Some w, j_attempt_id := Some att,
       j_attempt_number := Suc (j_attempt_number row) \<rparr>"
    "a = \<lparr> a_attempt_id = att, a_job_id = j_job_id row, a_worker_id = w, a_lease_token = token,
       a_lease_expires_at = clk 1 + lease_seconds cfg, a_attempt_number = Suc (j_attempt_number row),
       a_created_at = clk 1, a_finalized_at = None \<rparr>"
    "attempts m' = attempts m @ [a]"
    "\<And>k. job_row_of m' k = (if k = j_job_id row then Some (v_row v) else job_row_of m k)"
    "m' = m\<lparr> jobs := jobs m', attempts := attempts m' \<rparr>"
proof -
  note inv = reachable_inv [OF assms(1)]
  obtain row where row: "claim_target cfg clk w c m = Inr (Some row)"
    "m' = start_attempt cfg (clk 1) w att token row m" "a = last (attempts m')"
    "view_by_id cfg m' (clk 2) (j_job_id row) = Inr v"
    using assms(2) by (rule claim_started)
  note t = claim_target_row [OF row(1)]
  obtain wr where wr: "worker_row_of m w = Some wr" "fresh_worker cfg (clk 0) wr"
    "w_contract_version wr = CONTRACT_VERSION" "active_count m w < w_concurrency wr"
    "check_worker_credential cfg w c = None"
    "claimable cfg m w (w_capabilities wr) (clk 1) row" "row \<in> set (claim_candidates m w (clk 1))"
    "\<forall>j \<in> set (claim_candidates m w (clk 1)). claimable cfg m w (w_capabilities wr) (clk 1) j
       \<longrightarrow> claim_key row \<le> claim_key j"
    using row(1) by (rule claim_target_choice)
  note new = start_attempt_row [OF inv t(1,2), of cfg "clk 1" w att token, folded row(2)]
  have v: "v_row v = row\<lparr> j_state := Running, j_worker_id := Some w, j_attempt_id := Some att,
      j_attempt_number := Suc (j_attempt_number row) \<rparr>"
    using row(4) by (auto simp: view_by_id_def new view_of_def)
  have at: "attempts m' = attempts m @ [a]" "a = \<lparr> a_attempt_id = att, a_job_id = j_job_id row,
      a_worker_id = w, a_lease_token = token, a_lease_expires_at = clk 1 + lease_seconds cfg,
      a_attempt_number = Suc (j_attempt_number row), a_created_at = clk 1, a_finalized_at = None \<rparr>"
    unfolding row(3) row(2) by (simp_all add: start_attempt_def)
  have frame: "m' = m\<lparr> jobs := jobs m', attempts := attempts m' \<rparr>"
    unfolding row(2) by (simp add: start_attempt_def)
  have row_in: "job_row_of m (j_job_id row) = Some row" using inv t(1) by (simp add: job_row_in)
  show ?thesis
    by (rule that [OF row(1) row_in t(2-4) wr(5,1-3,6,4,8) v at(2,1) _ frame]) (simp add: new v)
qed

section \<open>Properties\<close>

text \<open>C5. A successful claim takes a job that was queued and before its deadline, for a worker that
  presented its credential, is online with a fresh heartbeat and the right contract, has every
  capability the job needs and a free slot. The job becomes running with the new attempt, the
  lease runs for \<open>lease_seconds\<close> from the claim, no other job changes, and nothing but jobs and
  attempts is written.\<close>

theorem claim_correct:
  assumes "manager_reachable cfg lib m"
    and "claim cfg clk att token w c m = (Inr (Some (v, a)), m')"
  shows "\<exists>row wr. job_row_of m (j_job_id row) = Some row \<and> j_state row = Queued \<and> clk 1 < j_deadline_at row
      \<and> (j_target_worker_id row = w \<or> j_target_worker_id row = ''auto'')
      \<and> check_worker_credential cfg w c = None \<and> worker_row_of m w = Some wr
      \<and> fresh_worker cfg (clk 0) wr \<and> w_contract_version wr = CONTRACT_VERSION
      \<and> claimable cfg m w (w_capabilities wr) (clk 1) row \<and> active_count m w < w_concurrency wr
      \<and> v_row v = row\<lparr> j_state := Running, j_worker_id := Some w, j_attempt_id := Some att,
           j_attempt_number := Suc (j_attempt_number row) \<rparr>
      \<and> a_job_id a = j_job_id row \<and> a_worker_id a = w \<and> a_lease_token a = token
      \<and> a_lease_expires_at a = clk 1 + lease_seconds cfg \<and> a_finalized_at a = None
      \<and> attempts m' = attempts m @ [a]
      \<and> (\<forall>k. job_row_of m' k = (if k = j_job_id row then Some (v_row v) else job_row_of m k))
      \<and> m' = m\<lparr> jobs := jobs m', attempts := attempts m' \<rparr>"
  using assms
proof (rule claim_effect)
  fix row wr
  assume "job_row_of m (j_job_id row) = Some row" "j_state row = Queued" "clk 1 < j_deadline_at row"
    "j_target_worker_id row = w \<or> j_target_worker_id row = ''auto''"
    "check_worker_credential cfg w c = None" "worker_row_of m w = Some wr"
    "fresh_worker cfg (clk 0) wr" "w_contract_version wr = CONTRACT_VERSION"
    "claimable cfg m w (w_capabilities wr) (clk 1) row" "active_count m w < w_concurrency wr"
    "v_row v = row\<lparr> j_state := Running, j_worker_id := Some w, j_attempt_id := Some att,
       j_attempt_number := Suc (j_attempt_number row) \<rparr>"
    "a = \<lparr> a_attempt_id = att, a_job_id = j_job_id row, a_worker_id = w, a_lease_token = token,
       a_lease_expires_at = clk 1 + lease_seconds cfg, a_attempt_number = Suc (j_attempt_number row),
       a_created_at = clk 1, a_finalized_at = None \<rparr>"
    "attempts m' = attempts m @ [a]"
    "\<And>k. job_row_of m' k = (if k = j_job_id row then Some (v_row v) else job_row_of m k)"
    "m' = m\<lparr> jobs := jobs m', attempts := attempts m' \<rparr>"
  then show ?thesis by (intro exI [of _ row] exI [of _ wr] conjI) simp_all
qed

theorem claim_correct_witness:
  "\<exists>row. job_row_of ex_queued (j_job_id row) = Some row \<and> j_state row = Queued
     \<and> attempts ex_running = attempts ex_queued @ [ex_attempt]"
  using claim_correct [OF ex_reachable_queued ex_step_claim] by blast

text \<open>Claims are first come, first served: of all queued jobs the worker could take at that
  moment (targeted at it or at \<open>auto\<close>, not past the deadline, capabilities satisfied, and for \<open>auto\<close>
  jobs with this worker first in line), the one with the least creation time, then job id, is taken.\<close>

theorem claim_takes_the_oldest:
  assumes "manager_reachable cfg lib m"
    and "claim cfg clk att token w c m = (Inr (Some (v, a)), m')"
  shows "\<exists>wr. worker_row_of m w = Some wr \<and> (\<forall>j \<in> set (claim_candidates m w (clk 1)).
      claimable cfg m w (w_capabilities wr) (clk 1) j
        \<longrightarrow> (j_created_at (v_row v), j_job_id (v_row v)) \<le> (j_created_at j, j_job_id j))"
  using assms by (rule claim_effect) (auto simp: claim_key_def)

theorem claim_takes_the_oldest_witness:
  "\<exists>wr. worker_row_of ex_queued ''w1'' = Some wr \<and> (\<forall>j \<in> set (claim_candidates ex_queued ''w1'' 102).
      claimable ex_cfg ex_queued ''w1'' (w_capabilities wr) 102 j
        \<longrightarrow> (101, ''job-0001'') \<le> (j_created_at j, j_job_id j))"
  using claim_takes_the_oldest [OF ex_reachable_queued ex_step_claim]
  by (simp add: ex_running_def ex_job_def new_job_row_def)

text \<open>A job addressed to \<open>auto\<close> is given to the least loaded eligible worker and to no other: the
  claiming worker is one of the eligible workers and its load (active jobs over concurrency, then
  time of its last assignment, then id) is at most that of every eligible worker.\<close>

theorem auto_job_goes_to_the_least_loaded:
  assumes "manager_reachable cfg lib m"
    and "claim cfg clk att token w c m = (Inr (Some (v, a)), m')"
    and "j_target_worker_id (v_row v) = ''auto''"
  shows "\<exists>ws wr. eligible_workers cfg m (v_row v) (clk 1) = Inr ws \<and> wr \<in> set ws \<and> w_worker_id wr = w
      \<and> (\<forall>x \<in> set ws. worker_load m wr \<le> worker_load m x)"
  using assms(1,2)
proof (rule claim_effect)
  fix row wr
  assume v: "v_row v = row\<lparr> j_state := Running, j_worker_id := Some w, j_attempt_id := Some att,
       j_attempt_number := Suc (j_attempt_number row) \<rparr>"
    and c: "claimable cfg m w (w_capabilities wr) (clk 1) row"
  obtain x xs where x: "eligible_workers cfg m row (clk 1) = Inr (x # xs)" "w_worker_id x = w"
    using c assms(3) v by (auto simp: claimable_def)
  have "eligible_workers cfg m (v_row v) (clk 1) = eligible_workers cfg m row (clk 1)"
    unfolding v by (simp add: eligible_workers_def required_capabilities_def)
  moreover have "sorted (map (worker_load m) (x # xs))" by (rule eligible_sorted [OF x(1)])
  ultimately show ?thesis using x by (intro exI [of _ "x # xs"] exI [of _ x]) auto
qed

theorem auto_job_goes_to_the_least_loaded_witness:
  "\<exists>ws wr. eligible_workers ex_cfg ex_queued (hd (jobs ex_running)) 102 = Inr ws \<and> wr \<in> set ws
      \<and> w_worker_id wr = ''w1'' \<and> (\<forall>x \<in> set ws. worker_load ex_queued wr \<le> worker_load ex_queued x)"
  using auto_job_goes_to_the_least_loaded [OF ex_reachable_queued ex_step_claim]
  by (simp add: ex_running_def ex_job_def new_job_row_def ex_submit_def)

text \<open>C6. No operation overloads a worker: if after a step a worker has more active jobs (running or
  asked to stop) than before, then the step was a claim made by this very worker, with its
  credential and a fresh heartbeat, it raised the number by one, and the number is within the
  concurrency the worker registered.\<close>

theorem concurrency_respected:
  assumes "manager_reachable cfg lib m" "manager_step cfg lib m clk m'"
  shows "active_count m' w \<le> active_count m w
    \<or> (\<exists>att token c wr. m' = snd (claim cfg clk att token w c m)
        \<and> worker_row_of m w = Some wr \<and> check_worker_credential cfg w c = None \<and> fresh_worker cfg (clk 0) wr
        \<and> active_count m' w = Suc (active_count m w) \<and> active_count m' w \<le> w_concurrency wr)"
proof -
  note inv = reachable_inv [OF assms(1)]
  note inv' = reachable_inv [OF ex_extend [OF assms]]
  have sub: "active_ids m' w - active_ids m w \<subseteq> attempt_jobs m' - attempt_jobs m"
    by (rule active_ids_step [OF inv inv' step_follow [OF inv assms(2)] step_fresh [OF assms(2)]])
  note count = active_count_ids [OF inv, of w] active_count_ids [OF inv', of w]
  from attempt_jobs_step [OF assms(2)] show ?thesis
  proof (elim disjE exE)
    assume "attempt_jobs m' \<subseteq> attempt_jobs m"
    with sub have "active_ids m' w \<subseteq> active_ids m w" by auto
    then show ?thesis using count by (simp add: card_mono)
  next
    fix att token u c assume m': "m' = snd (claim cfg clk att token u c m)"
    show ?thesis
    proof (cases rule: claim_cases [of cfg clk att token u c m])
      case refused
      with m' show ?thesis by simp
    next
      case (started row)
      then have start: "m' = start_attempt cfg (clk 1) u att token row m" using m' by simp
      note t = claim_target_row [OF started(1)]
      note new = start_attempt_row [OF inv t(1,2), of cfg "clk 1" u att token, folded start]
      have ids: "active_ids m' w \<subseteq> (if w = u then insert (j_job_id row) (active_ids m w) else active_ids m w)"
        by (auto simp: active_ids_def new split: if_splits)
      show ?thesis
      proof (cases "w = u")
        case True
        obtain wr where wr: "worker_row_of m u = Some wr" "fresh_worker cfg (clk 0) wr"
          "active_count m u < w_concurrency wr" "check_worker_credential cfg u c = None"
          using started(1) by (rule claim_target_SomeD)
        have "card (active_ids m' w) \<le> Suc (card (active_ids m w))"
          using card_mono [of "insert (j_job_id row) (active_ids m w)" "active_ids m' w"] ids True count(2)
          by (simp add: card_insert_if split: if_splits)
        then have "active_count m' w \<le> active_count m w \<or> active_count m' w = Suc (active_count m w)"
          using count by auto
        with wr m' True show ?thesis by (metis Suc_leI)
      next
        case False
        with ids have "active_ids m' w \<subseteq> active_ids m w" by simp
        then show ?thesis using count by (simp add: card_mono)
      qed
    qed
  qed
qed

theorem concurrency_respected_witness:
  "active_count ex_running ''w1'' = 1 \<and> active_count ex_queued ''w1'' = 0
   \<and> (\<exists>wr. worker_row_of ex_queued ''w1'' = Some wr \<and> active_count ex_running ''w1'' \<le> w_concurrency wr)"
proof -
  have n: "active_count ex_running ''w1'' = 1" "active_count ex_queued ''w1'' = 0"
    by (simp_all add: active_count_def ex_running_def ex_queued_def ex_job_def new_job_row_def)
  with concurrency_respected [OF ex_reachable_queued ex_claim_step, of "''w1''"]
  show ?thesis by auto
qed

end
