(* ===== verification/Lineage.thy ===== *)
theory Lineage
  imports Scheduling "HOL-Library.Multiset"
begin

text \<open>
  The forest of retries: the walk to the root comes back, the recursive query lists every
  descendant of a root exactly once, and a child that is admitted fits in what the lineage has left.
\<close>

section \<open>Chains of parents\<close>

text \<open>The ancestor \<open>n\<close> parent links above a row.\<close>

fun up :: "job_row list \<Rightarrow> nat \<Rightarrow> job_row \<Rightarrow> job_row option" where
  "up js 0 j = Some j"
| "up js (Suc n) j = (case j_parent_job_id j of None \<Rightarrow> None
     | Some p \<Rightarrow> (case find_row j_job_id p js of None \<Rightarrow> None | Some q \<Rightarrow> up js n q))"

definition forest :: "job_row list \<Rightarrow> bool" where
  "forest js \<longleftrightarrow> distinct (map j_job_id js)
     \<and> sorted_wrt (\<lambda>j k. j_parent_job_id j \<noteq> Some (j_job_id k)) js
     \<and> (\<forall>j \<in> set js. j_parent_job_id j \<noteq> Some (j_job_id j))"

lemma inv_forest: "manager_inv m \<Longrightarrow> forest (jobs m)"
  by (simp add: forest_def manager_inv_def keys_ok_def lineage_ok_def)

lemma forest_parent_before:
  assumes "forest js" "js = pre @ j # post" "j_parent_job_id j = Some p" "find_row j_job_id p js = Some q"
  shows "q \<in> set pre"
  using assms by (auto simp: forest_def sorted_wrt_append dest!: find_row_SomeD)

text \<open>A chain is no longer than the rows before its start.\<close>

lemma up_bound:
  "forest js \<Longrightarrow> js = pre @ j # post \<Longrightarrow> up js n j = Some x \<Longrightarrow> n \<le> length pre"
proof (induction n arbitrary: pre j post)
  case (Suc n)
  then obtain p q where q: "j_parent_job_id j = Some p" "find_row j_job_id p js = Some q" "up js n q = Some x"
    by (auto split: option.splits)
  have "q \<in> set pre" by (rule forest_parent_before [OF Suc.prems(1,2) q(1,2)])
  then obtain pre' post' where pre: "pre = pre' @ q # post'" by (auto simp: in_set_conv_decomp)
  have "n \<le> length pre'"
    by (rule Suc.IH [OF Suc.prems(1) _ q(3), of pre' "post' @ j # post"]) (simp add: Suc.prems(2) pre)
  with pre show ?case by simp
qed simp

lemma up_short:
  assumes "forest js" "j \<in> set js" "up js n j = Some x"
  shows "n < length js"
proof -
  from assms(2) obtain pre post where js: "js = pre @ j # post" by (auto simp: in_set_conv_decomp)
  have "n \<le> length pre" by (rule up_bound [OF assms(1) js assms(3)])
  with js show ?thesis by simp
qed

lemma up_in: "j \<in> set js \<Longrightarrow> up js n j = Some x \<Longrightarrow> x \<in> set js"
  by (induction n arbitrary: j) (auto split: option.splits dest: find_row_SomeD)

text \<open>A root is reached after one number of steps only.\<close>

lemma up_root_unique:
  "up js n j = Some r \<Longrightarrow> up js n' j = Some r' \<Longrightarrow> j_parent_job_id r = None \<Longrightarrow> j_parent_job_id r' = None
    \<Longrightarrow> n = n' \<and> r = r'"
proof (induction n arbitrary: j n')
  case 0
  then show ?case by (cases n') auto
next
  case (Suc n)
  then show ?case by (cases n') (auto split: option.splits)
qed

lemma root_job_up: "root_job js n j = Inr r \<longleftrightarrow> (\<exists>k < n. up js k j = Some r \<and> j_parent_job_id r = None)"
proof (induction n arbitrary: j)
  case (Suc n)
  show ?case
  proof
    assume r: "root_job js (Suc n) j = Inr r"
    show "\<exists>k < Suc n. up js k j = Some r \<and> j_parent_job_id r = None"
    proof (cases "j_parent_job_id j")
      case None
      with r show ?thesis by (intro exI [of _ 0]) auto
    next
      case (Some p)
      with r obtain q where q: "find_row j_job_id p js = Some q" "root_job js n q = Inr r"
        by (auto split: option.splits)
      with Suc.IH obtain k where "k < n" "up js k q = Some r" "j_parent_job_id r = None" by blast
      with q Some show ?thesis by (intro exI [of _ "Suc k"]) auto
    qed
  next
    assume "\<exists>k < Suc n. up js k j = Some r \<and> j_parent_job_id r = None"
    then obtain k where k: "k < Suc n" "up js k j = Some r" "j_parent_job_id r = None" by blast
    show "root_job js (Suc n) j = Inr r"
      using k Suc.IH by (cases k) (auto split: option.splits)
  qed
qed simp

lemma root_job_no_diverge:
  "forest js \<Longrightarrow> js = pre @ j # post \<Longrightarrow> length pre < n \<Longrightarrow> root_job js n j \<noteq> Inl Diverges"
proof (induction n arbitrary: pre j post)
  case (Suc n)
  show ?case
  proof (cases "j_parent_job_id j")
    case (Some p)
    show ?thesis
    proof (cases "find_row j_job_id p js")
      case (Some q)
      have "q \<in> set pre" by (rule forest_parent_before [OF Suc.prems(1,2) \<open>j_parent_job_id j = Some p\<close> Some])
      then obtain pre' post' where pre: "pre = pre' @ q # post'" by (auto simp: in_set_conv_decomp)
      have "root_job js n q \<noteq> Inl Diverges"
        by (rule Suc.IH [OF Suc.prems(1), of pre' q "post' @ j # post"])
          (use Suc.prems pre in auto)
      with Some \<open>j_parent_job_id j = Some p\<close> show ?thesis by simp
    qed (use \<open>j_parent_job_id j = Some p\<close> in simp)
  qed simp
qed simp

section \<open>The recursive query\<close>

fun level_of :: "job_row list \<Rightarrow> nat \<Rightarrow> job_row list \<Rightarrow> job_row list" where
  "level_of js 0 l = l"
| "level_of js (Suc n) l = children_of js (map j_job_id (level_of js n l))"

lemma level_of_shift: "level_of js n (children_of js (map j_job_id l)) = level_of js (Suc n) l"
  by (induction n) auto

lemma level_of_Nil [simp]: "level_of js n [] = []"
  by (induction n) (simp_all add: children_of_def)

lemma lineage_levels: "lineage js n l = concat (map (\<lambda>k. level_of js k l) [0..<n])"
proof (induction n arbitrary: l)
  case (Suc n)
  have "[0..<Suc n] = 0 # map Suc [0..<n]" by (metis map_Suc_upt upt_conv_Cons zero_less_Suc)
  then have split: "concat (map (\<lambda>k. level_of js k l) [0..<Suc n])
      = l @ concat (map (\<lambda>k. level_of js (Suc k) l) [0..<n])"
    by (simp only: list.map concat.simps level_of.simps(1) map_map comp_def)
  show ?case
  proof (cases "l = []")
    case True
    have "concat (map (\<lambda>k. []) xs) = []" for xs :: "nat list" by (induction xs) auto
    with True show ?thesis by simp
  next
    case False
    then have "lineage js (Suc n) l = l @ lineage js n (children_of js (map j_job_id l))" by simp
    also have "\<dots> = l @ concat (map (\<lambda>k. level_of js (Suc k) l) [0..<n])"
      by (simp only: Suc.IH level_of_shift)
    finally show ?thesis by (simp only: split)
  qed
qed simp

lemma mset_filter_disjoint:
  "(\<And>x. \<not> (P x \<and> Q x)) \<Longrightarrow> mset (filter P xs) + mset (filter Q xs) = mset (filter (\<lambda>x. P x \<or> Q x) xs)"
  by (induction xs) auto

lemma filter_only: "distinct xs \<Longrightarrow> r \<in> set xs \<Longrightarrow> filter (\<lambda>j. j = r) xs = [r]"
  by (induction xs) (auto intro: filter_False)

lemma mset_children:
  "distinct ids \<Longrightarrow> mset (children_of js ids) = mset (filter (\<lambda>j. j_parent_job_id j \<in> Some ` set ids) js)"
proof (induction ids)
  case (Cons i ids)
  have "mset (filter (\<lambda>j. j_parent_job_id j = Some i) js) + mset (filter (\<lambda>j. j_parent_job_id j \<in> Some ` set ids) js)
      = mset (filter (\<lambda>j. j_parent_job_id j = Some i \<or> j_parent_job_id j \<in> Some ` set ids) js)"
    using Cons.prems by (intro mset_filter_disjoint) auto
  then show ?case using Cons by (simp add: children_of_def)
qed (simp add: children_of_def)

lemma mset_level:
  assumes "forest js" "r \<in> set js"
  shows "mset (level_of js n [r]) = mset (filter (\<lambda>j. up js n j = Some r) js)"
proof (induction n)
  case 0
  have "distinct js" using assms(1) by (simp add: forest_def distinct_map)
  with assms(2) have "filter (\<lambda>j. j = r) js = [r]" by (intro filter_only)
  then have "mset (filter (\<lambda>j. j = r) js) = mset [r]" by (rule arg_cong)
  then show ?case by simp
next
  case (Suc n)
  let ?ids = "map j_job_id (level_of js n [r])"
  have set: "set (level_of js n [r]) = {j \<in> set js. up js n j = Some r}"
    using arg_cong [OF Suc, of set_mset] by simp
  have "mset ?ids = mset (map j_job_id (filter (\<lambda>j. up js n j = Some r) js))"
    using Suc by (simp only: mset_map)
  moreover have "distinct (map j_job_id (filter (\<lambda>j. up js n j = Some r) js))"
    using assms(1) by (intro distinct_map_filterI) (simp add: forest_def)
  ultimately have "distinct ?ids" by (metis mset_eq_imp_distinct_iff)
  from mset_children [OF this, of js]
  have "mset (level_of js (Suc n) [r]) = mset (filter (\<lambda>j. j_parent_job_id j \<in> Some ` set ?ids) js)" by simp
  also have "filter (\<lambda>j. j_parent_job_id j \<in> Some ` set ?ids) js = filter (\<lambda>j. up js (Suc n) j = Some r) js"
  proof (rule filter_cong [OF refl])
    fix j assume "j \<in> set js"
    have f: "find_row j_job_id (j_job_id q) js = Some q" if "q \<in> set js" for q
      using assms(1) that by (simp add: find_row_in forest_def)
    show "(j_parent_job_id j \<in> Some ` set ?ids) = (up js (Suc n) j = Some r)"
      by (auto simp: set image_iff f split: option.splits dest: find_row_SomeD)
  qed
  finally show ?case .
qed

text \<open>The query lists the rows whose root is \<open>r\<close>, each once.\<close>

definition lineage_rows :: "job_row list \<Rightarrow> job_row \<Rightarrow> job_row list" where
  "lineage_rows js r = filter (\<lambda>j. root_job js (Suc (length js)) j = Inr r) js"

lemma mset_lineage:
  assumes "forest js" "r \<in> set js" "j_parent_job_id r = None"
  shows "mset (lineage js n [r]) = mset (filter (\<lambda>j. root_job js n j = Inr r) js)"
proof (induction n)
  case (Suc n)
  have "mset (lineage js (Suc n) [r]) = mset (lineage js n [r]) + mset (level_of js n [r])"
    by (simp only: lineage_levels upt_Suc_append zero_le map_append concat_append mset_append) simp
  also have "\<dots> = mset (filter (\<lambda>j. root_job js n j = Inr r) js) + mset (filter (\<lambda>j. up js n j = Some r) js)"
    by (simp only: Suc mset_level [OF assms(1,2)])
  also have "\<dots> = mset (filter (\<lambda>j. root_job js n j = Inr r \<or> up js n j = Some r) js)"
  proof -
    have "\<not> (root_job js n j = Inr r \<and> up js n j = Some r)" for j
      using up_root_unique [of js _ j r n r] by (auto simp: root_job_up)
    then show ?thesis by (rule mset_filter_disjoint)
  qed
  also have "(\<lambda>j. root_job js n j = Inr r \<or> up js n j = Some r) = (\<lambda>j. root_job js (Suc n) j = Inr r)"
    unfolding root_job_up fun_eq_iff less_Suc_eq using assms(3) by blast
  finally show ?case .
qed simp

lemma lineage_used_perm:
  assumes "mset rows = mset rows'"
  shows "lineage_used i rows = lineage_used i rows'"
proof -
  have "sum_list (map f rows) = sum_list (map f rows')" for f :: "job_row \<Rightarrow> int"
    using arg_cong [OF assms, of "\<lambda>M. sum_mset (image_mset f M)"]
    by (simp flip: sum_mset_sum_list add: sum_mset_sum_list mset_map)
  then show ?thesis by (simp add: lineage_used_def)
qed

section \<open>A new child\<close>

lemma find_row_extend:
  "find_row key k js = Some q \<Longrightarrow> find_row key k (js @ [c]) = Some q"
  by (simp add: find_row_append)

lemma up_extend:
  assumes "\<And>j. j \<in> set js \<Longrightarrow> j_parent_job_id j \<noteq> Some (j_job_id c)" "j \<in> set js"
  shows "up (js @ [c]) n j = up js n j"
  using assms(2)
proof (induction n arbitrary: j)
  case (Suc n)
  show ?case
  proof (cases "j_parent_job_id j")
    case (Some p)
    then have "p \<noteq> j_job_id c" using assms(1) Suc.prems by blast
    then have "find_row j_job_id p (js @ [c]) = find_row j_job_id p js"
      by (simp add: find_row_append split: option.splits)
    then show ?thesis using Some Suc.IH by (auto split: option.splits dest: find_row_SomeD)
  qed simp
qed simp

lemma root_job_long:
  assumes "forest js" "j \<in> set js" "length js \<le> n"
  shows "root_job js n j = Inr r \<longleftrightarrow> (\<exists>k. up js k j = Some r \<and> j_parent_job_id r = None)"
  using up_short [OF assms(1,2)] assms(3) unfolding root_job_up by (meson order_less_le_trans)

lemma lineage_rows_add_child:
  assumes forest: "forest (js @ [c])" and parent: "p \<in> set js" "j_parent_job_id c = Some (j_job_id p)"
    and rt: "root_job js (Suc (length js)) p = Inr r"
  shows "lineage_rows (js @ [c]) r = lineage_rows js r @ [c]"
    and "root_job (js @ [c]) (Suc (length (js @ [c]))) c = Inr r"
proof -
  have f: "forest js" and up: "\<And>j n. j \<in> set js \<Longrightarrow> up (js @ [c]) n j = up js n j"
    using forest by (auto simp: forest_def sorted_wrt_append intro!: up_extend)
  have old: "root_job (js @ [c]) (Suc (length (js @ [c]))) j = Inr r
      \<longleftrightarrow> root_job js (Suc (length js)) j = Inr r" if "j \<in> set js" for j
    using root_job_long [OF forest, of j] root_job_long [OF f that] that up
    by (simp del: root_job.simps)
  have find: "find_row j_job_id (j_job_id p) (js @ [c]) = Some p"
    using f parent(1) by (intro find_row_extend) (simp add: find_row_in forest_def)
  obtain k where k: "k < Suc (length js)" "up js k p = Some r" "j_parent_job_id r = None"
    using rt unfolding root_job_up by blast
  then have "up (js @ [c]) (Suc k) c = Some r" using parent find up by simp
  with k show child: "root_job (js @ [c]) (Suc (length (js @ [c]))) c = Inr r"
    unfolding root_job_up by (intro exI [of _ "Suc k"]) simp
  show "lineage_rows (js @ [c]) r = lineage_rows js r @ [c]"
    unfolding lineage_rows_def using old child by (simp cong: filter_cong del: root_job.simps)
qed

lemma submit_created:
  assumes "submit cfg lib clk k s m = (Inr (v, True), m')"
  shows "admit_child m s (clk 0) = None" "k \<notin> j_job_id ` set (jobs m)"
    "s_submit_key s \<notin> j_submit_key ` set (jobs m)"
    "m' = m\<lparr> jobs := jobs m @ [new_job_row lib (clk 1) k s] \<rparr>"
    "view_by_id cfg m' (clk 2) k = Inr v"
  using assms
  by (auto simp: submit_def Let_def find_row_None map_sum_def split: if_splits option.splits sum.splits)

lemma view_row:
  "view_by_id cfg m now k = Inr v \<Longrightarrow> job_row_of m k = Some (v_row v)"
  by (auto simp: view_by_id_def view_of_def split: option.splits if_splits sum.splits)

lemma created_row:
  assumes "submit cfg lib clk k s m = (Inr (v, True), m')"
  shows "v_row v = new_job_row lib (clk 1) k s"
  using view_row [OF submit_created(5) [OF assms]] submit_created(2,4) [OF assms]
  by (auto simp: job_row_of_def find_row_append find_row_notin)

lemma admit_childD:
  assumes "admit_child m s now = None" "s_parent_job_id s = Some p"
  obtains parent r where "job_row_of m p = Some parent" "terminal (j_state parent)" "j_kind parent = s_kind s"
    "root_job (jobs m) (Suc (length (jobs m))) parent = Inr r" "now + s_deadline_seconds s \<le> j_deadline_at r"
    "let used = lineage_used (j_job_id r) (lineage (jobs m) (Suc (length (jobs m))) [r])
     in max_queries (s_budget s) \<le> max_queries (j_budget r) - us_search used
       \<and> search_requests (s_budget s) \<le> search_requests (j_budget r) - us_search used
       \<and> max_sources (s_budget s) \<le> (if j_kind parent = DiscordObserve then max_sources (j_budget r)
            else max_sources (j_budget r) - us_fetch used)
       \<and> fetch_requests (s_budget s) \<le> fetch_requests (j_budget r) - us_fetch used
       \<and> model_requests (s_budget s) \<le> model_requests (j_budget r) - us_model used"
proof -
  obtain parent where parent: "job_row_of m p = Some parent"
    using assms by (auto simp: admit_child_def split: option.splits)
  with assms have v: "validate_child_allocation m parent s now = None" "j_kind parent = s_kind s"
    by (auto simp: admit_child_def split: option.splits if_splits)
  then have ended: "terminal (j_state parent)"
    by (auto simp: validate_child_allocation_def split: if_splits)
  with v obtain r where r: "root_job (jobs m) (Suc (length (jobs m))) parent = Inr r"
    by (auto simp: validate_child_allocation_def simp del: root_job.simps split: sum.splits)
  show ?thesis
    by (rule that [OF parent ended v(2) r])
      (use v(1) ended r in \<open>auto simp: validate_child_allocation_def Let_def simp del: root_job.simps
         lineage.simps split: if_splits\<close>)
qed

lemma root_job_root: "root_job js n j = Inr r \<Longrightarrow> j_parent_job_id r = None"
  by (auto simp: root_job_up)

lemma root_job_in: "j \<in> set js \<Longrightarrow> root_job js n j = Inr r \<Longrightarrow> r \<in> set js"
  by (auto simp: root_job_up intro: up_in)

lemma lineage_used_rows:
  assumes "forest js" "r \<in> set js" "j_parent_job_id r = None"
  shows "lineage_used i (lineage js (Suc (length js)) [r]) = lineage_used i (lineage_rows js r)"
  unfolding lineage_rows_def by (rule lineage_used_perm [OF mset_lineage [OF assms]])

lemma lineage_used_append:
  "us_search (lineage_used i (xs @ [c])) = us_search (lineage_used i xs) + us_search (row_charge i c)"
  "us_fetch (lineage_used i (xs @ [c])) = us_fetch (lineage_used i xs) + us_fetch (row_charge i c)"
  "us_model (lineage_used i (xs @ [c])) = us_model (lineage_used i xs) + us_model (row_charge i c)"
  by (simp_all add: lineage_used_def)

section \<open>Properties\<close>

text \<open>C17. The walk from a job to the root of its retries always comes back: in every reachable
  state, for every job, it ends in the root or in the answer that an ancestor has been deleted.\<close>

theorem root_walk_returns:
  assumes "manager_reachable cfg lib m" "j \<in> set (jobs m)"
  shows "(\<exists>r \<in> set (jobs m). j_parent_job_id r = None \<and> root_job (jobs m) (Suc (length (jobs m))) j = Inr r)
    \<or> root_job (jobs m) (Suc (length (jobs m))) j = Inl (ManagerError ''unknown_parent_job'' 404)"
proof -
  have forest: "forest (jobs m)" by (rule inv_forest [OF reachable_inv [OF assms(1)]])
  obtain pre post where js: "jobs m = pre @ j # post" using assms(2) by (auto simp: in_set_conv_decomp)
  have "root_job (jobs m) (Suc (length (jobs m))) j \<noteq> Inl Diverges"
    by (rule root_job_no_diverge [OF forest js]) (simp add: js)
  moreover have "root_job js n j = Inl e \<Longrightarrow> e = Diverges \<or> e = ManagerError ''unknown_parent_job'' 404" for js n j e
    by (induction n arbitrary: j) (auto split: option.splits)
  ultimately show ?thesis
    using root_job_in [OF assms(2)] root_job_root
    by (cases "root_job (jobs m) (Suc (length (jobs m))) j") (simp_all del: root_job.simps, blast+)
qed

theorem root_walk_returns_witness:
  "\<exists>r \<in> set (jobs ex_queued). root_job (jobs ex_queued) 2 ex_job = Inr r"
  using root_walk_returns [OF ex_reachable_queued, of ex_job]
  by (simp add: ex_queued_def) (auto simp: ex_job_def new_job_row_def ex_submit_def eval_nat_numeral)

text \<open>The recursive query of the budget check lists exactly the jobs whose walk ends in the
  root, each once, whatever the shape of the forest.\<close>

theorem lineage_query_complete:
  assumes "manager_reachable cfg lib m" "r \<in> set (jobs m)" "j_parent_job_id r = None"
  shows "mset (lineage (jobs m) (Suc (length (jobs m))) [r])
    = mset (filter (\<lambda>j. root_job (jobs m) (Suc (length (jobs m))) j = Inr r) (jobs m))"
  by (rule mset_lineage [OF inv_forest [OF reachable_inv [OF assms(1)]] assms(2,3)])

theorem lineage_query_complete_witness:
  "mset (lineage (jobs ex_queued) (Suc (length (jobs ex_queued))) [ex_job])
    = mset (filter (\<lambda>j. root_job (jobs ex_queued) (Suc (length (jobs ex_queued))) j = Inr ex_job) (jobs ex_queued))"
  by (rule lineage_query_complete [OF ex_reachable_queued])
    (simp_all add: ex_queued_def ex_job_def new_job_row_def ex_submit_def)

text \<open>A child is admitted only inside what its root has left: after a child is created, the
  requests charged to the whole lineage, the child's allowance included, are within the root's
  budget for searches, fetches and model calls, and the child's deadline is within the root's.\<close>

theorem admitted_child_fits:
  assumes "manager_reachable cfg lib m" "valid_submit (nfkc lib) s"
    and "Some k \<notin> j_parent_job_id ` set (jobs m)" "s_parent_job_id s = Some p"
    and "submit cfg lib clk k s m = (Inr (v, True), m')"
  shows "\<exists>parent r. job_row_of m p = Some parent \<and> terminal (j_state parent) \<and> j_kind parent = s_kind s
      \<and> root_job (jobs m) (Suc (length (jobs m))) parent = Inr r
      \<and> root_job (jobs m') (Suc (length (jobs m'))) (v_row v) = Inr r
      \<and> clk 0 + s_deadline_seconds s \<le> j_deadline_at r
      \<and> (let used = lineage_used (j_job_id r) (lineage (jobs m') (Suc (length (jobs m'))) [r])
         in us_search used \<le> search_requests (j_budget r) \<and> us_fetch used \<le> fetch_requests (j_budget r)
            \<and> us_model used \<le> model_requests (j_budget r))"
proof -
  note inv = reachable_inv [OF assms(1)]
  note new = submit_created [OF assms(5)]
  note row = created_row [OF assms(5)]
  have inv': "manager_inv m'" using inv_submit [OF inv assms(2,3), of cfg clk] assms(5) by simp
  obtain parent r where p: "job_row_of m p = Some parent" "terminal (j_state parent)" "j_kind parent = s_kind s"
    "root_job (jobs m) (Suc (length (jobs m))) parent = Inr r" "clk 0 + s_deadline_seconds s \<le> j_deadline_at r"
    and b: "let used = lineage_used (j_job_id r) (lineage (jobs m) (Suc (length (jobs m))) [r])
     in max_queries (s_budget s) \<le> max_queries (j_budget r) - us_search used
       \<and> search_requests (s_budget s) \<le> search_requests (j_budget r) - us_search used
       \<and> max_sources (s_budget s) \<le> (if j_kind parent = DiscordObserve then max_sources (j_budget r)
            else max_sources (j_budget r) - us_fetch used)
       \<and> fetch_requests (s_budget s) \<le> fetch_requests (j_budget r) - us_fetch used
       \<and> model_requests (s_budget s) \<le> model_requests (j_budget r) - us_model used"
    using new(1) assms(4) by (rule admit_childD)
  let ?c = "new_job_row lib (clk 1) k s"
  have parent: "parent \<in> set (jobs m)" "j_job_id parent = p" using p(1) inv by (simp_all add: job_row_in)
  have jobs: "jobs m' = jobs m @ [?c]" by (simp add: new(4))
  have r: "r \<in> set (jobs m)" "j_parent_job_id r = None"
    using root_job_in [OF parent(1) p(4)] root_job_root [OF p(4)] by simp_all
  have link: "j_parent_job_id ?c = Some (j_job_id parent)" using assms(4) parent(2) by (simp add: new_job_row_def)
  note add = lineage_rows_add_child [OF inv_forest [OF inv', unfolded jobs] parent(1) link p(4)]
  have "j_job_id ?c \<noteq> j_job_id r" using new(2) r(1) by auto
  then have charge: "row_charge (j_job_id r) ?c = \<lparr> us_search = search_requests (s_budget s),
      us_fetch = fetch_requests (s_budget s), us_model = model_requests (s_budget s) \<rparr>"
    by (simp add: row_charge_def new_job_row_def)
  have used: "lineage_used (j_job_id r) (lineage (jobs m') (Suc (length (jobs m'))) [r])
      = lineage_used (j_job_id r) (lineage_rows (jobs m) r @ [?c])"
    unfolding add(1) [symmetric] jobs [symmetric]
    by (rule lineage_used_rows [OF inv_forest [OF inv']]) (use r jobs in auto)
  have old: "lineage_used (j_job_id r) (lineage (jobs m) (Suc (length (jobs m))) [r])
      = lineage_used (j_job_id r) (lineage_rows (jobs m) r)"
    by (rule lineage_used_rows [OF inv_forest [OF inv] r])
  have "root_job (jobs m') (Suc (length (jobs m'))) (v_row v) = Inr r" using add(2) row jobs by simp
  moreover have "let used = lineage_used (j_job_id r) (lineage (jobs m') (Suc (length (jobs m'))) [r])
         in us_search used \<le> search_requests (j_budget r) \<and> us_fetch used \<le> fetch_requests (j_budget r)
            \<and> us_model used \<le> model_requests (j_budget r)"
    using b unfolding used old Let_def lineage_used_append charge by simp
  ultimately show ?thesis using p by blast
qed

theorem admitted_child_fits_witness:
  "us_search (lineage_used ''job-0001'' (lineage (jobs ex_failed @ [new_job_row ex_lib 120 ''job-0002'' ex_child]) 3 [hd (jobs ex_failed)])) = 19
   \<and> 19 \<le> search_requests (j_budget (hd (jobs ex_failed)))"
proof -
  have key: "Some ''job-0002'' \<notin> j_parent_job_id ` set (jobs ex_failed)" "s_parent_job_id ex_child = Some ''job-0001''"
    by (simp_all add: ex_failed_eq ex_state_defs ex_child_def)
  note fits = admitted_child_fits [OF ex_reachable_failed ex_valid_child key ex_child_created]
  have root: "root_job (jobs ex_failed) (Suc (length (jobs ex_failed))) (hd (jobs ex_failed)) = Inr (hd (jobs ex_failed))"
    "job_row_of ex_failed ''job-0001'' = Some (hd (jobs ex_failed))"
    "j_job_id (hd (jobs ex_failed)) = ''job-0001''" "length (jobs ex_failed) = 1"
    by (simp_all add: ex_failed_eq ex_state_defs job_row_of_def)
  from fits root have "us_search (lineage_used ''job-0001'' (lineage (jobs ex_failed @ [new_job_row ex_lib 120 ''job-0002'' ex_child]) 3 [hd (jobs ex_failed)]))
      \<le> search_requests (j_budget (hd (jobs ex_failed)))"
    by (auto simp: Let_def numeral_3_eq_3 simp del: root_job.simps lineage.simps)
  moreover have "us_search (lineage_used ''job-0001'' (lineage (jobs ex_failed @ [new_job_row ex_lib 120 ''job-0002'' ex_child]) 3 [hd (jobs ex_failed)])) = 19"
    by (simp add: numeral_3_eq_3 ex_failed_eq ex_state_defs ex_child_def children_of_def
        lineage_used_def row_charge_def ex_result_def)
  ultimately show ?thesis by simp
qed

end
