(* ===== verification/Submission.thy ===== *)
theory Submission
  imports Lineage
begin

text \<open>
  Submit keys and retries: a key names one input for good, a repeated submission changes nothing,
  and a retry asks for strictly less than the job it repeats.
\<close>

section \<open>Views never fail\<close>

lemma eligible_workers_total: "required_capabilities row \<noteq> None \<Longrightarrow> \<exists>ws. eligible_workers cfg m row now = Inr ws"
  by (auto simp: eligible_workers_def Let_def)

lemma wait_reason_total: "required_capabilities row \<noteq> None \<Longrightarrow> \<exists>w. wait_reason cfg m row now = Inr w"
  using eligible_workers_total [of row cfg m now]
  by (auto simp: wait_reason_def split: option.splits)

lemma view_of_total:
  assumes "required_capabilities row \<noteq> None"
  obtains v where "view_of cfg m now row = Inr v" "v_row v = row"
proof -
  obtain w where "wait_reason cfg m row now = Inr w"
    using wait_reason_total [OF assms] by blast
  then show ?thesis by (cases "j_state row = Queued") (auto simp: view_of_def intro: that)
qed

lemma inv_capabilities: "manager_inv m \<Longrightarrow> j \<in> set (jobs m) \<Longrightarrow> required_capabilities j \<noteq> None"
  by (simp add: manager_inv_def jobs_ok_def job_ok_def)

lemma view_by_id_total:
  assumes "manager_inv m" "job_row_of m k = Some j"
  obtains v where "view_by_id cfg m now k = Inr v" "v_row v = j"
proof -
  have "required_capabilities j \<noteq> None" using assms by (intro inv_capabilities) (auto simp: job_row_in)
  then obtain v where "view_of cfg m now j = Inr v" "v_row v = j" by (rule view_of_total)
  with assms show ?thesis by (intro that [of v]) (simp_all add: view_by_id_def)
qed

section \<open>Hashes of stored inputs\<close>

definition hashes_ok :: "library \<Rightarrow> manager \<Rightarrow> bool" where
  "hashes_ok lib m \<longleftrightarrow> (\<forall>k j. job_row_of m k = Some j \<longrightarrow> j_input_hash j = job_input_hash lib (j_input j))"

lemma hashes_step:
  assumes "manager_inv m" "hashes_ok lib m" "manager_step cfg lib m clk m'"
  shows "hashes_ok lib m'"
  unfolding hashes_ok_def
proof (intro allI impI)
  fix k j' assume j': "job_row_of m' k = Some j'"
  show "j_input_hash j' = job_input_hash lib (j_input j')"
  proof (cases "job_row_of m k")
    case None
    with step_fresh [OF assms(3)] j' obtain now s where "j' = new_job_row lib now k s"
      unfolding fresh_rows_def by blast
    then show ?thesis by simp
  next
    case (Some j)
    with step_follow [OF assms(1,3)] j' have "job_follows j j'"
      unfolding jobs_follow_def by (metis option.simps(5))
    with assms(2) Some show ?thesis by (simp add: hashes_ok_def job_follows_def same_order_def)
  qed
qed

interpretation hashes: invariant_system "\<lambda>m. m = empty_manager" "manager_step cfg lib"
    "\<lambda>m. manager_inv m \<and> hashes_ok lib m" for cfg lib
proof
  show "manager_inv m \<and> hashes_ok lib m" if "m = empty_manager" for m
    using that manager_inv_empty by (auto simp: hashes_ok_def job_row_of_def empty_manager_def)
  show "manager_inv m' \<and> hashes_ok lib m'"
    if "manager_step cfg lib m clk m'" "manager_inv m \<and> hashes_ok lib m" for m clk m'
    using that manager_system.step_inv hashes_step by blast
qed

lemma reachable_hash:
  assumes "manager_reachable cfg lib m" "j \<in> set (jobs m)"
  shows "j_input_hash j = job_input_hash lib (j_input j)"
  using hashes.reach_inv [OF assms(1) [unfolded manager_reachable_def]] assms(2)
  by (auto simp: hashes_ok_def job_row_in)

lemma find_submit_key:
  "manager_inv m \<Longrightarrow> j \<in> set (jobs m) \<Longrightarrow> find_row j_submit_key (j_submit_key j) (jobs m) = Some j"
  by (simp add: find_row_in inv_keys)

section \<open>Properties\<close>

text \<open>A submit key is idempotent. Once a job is stored under a key, submitting under that key
  never changes the state: with the same input the stored job is returned as not created, and with
  another input the answer is \<open>submit_key_conflict\<close>. The one assumption on the hash is that it does
  not collide on the two inputs compared.\<close>

theorem submit_key_idempotent:
  assumes "manager_reachable cfg lib m" "valid_submit (nfkc lib) s"
    and "j \<in> set (jobs m)" "j_submit_key j = s_submit_key s"
    and "job_input_hash lib (s_input s) = job_input_hash lib (j_input j) \<Longrightarrow> s_input s = j_input j"
  shows "snd (submit cfg lib clk k s m) = m
    \<and> (if s_input s = j_input j then \<exists>v. fst (submit cfg lib clk k s m) = Inr (v, False) \<and> v_row v = j
       else fst (submit cfg lib clk k s m) = Inl (ManagerError ''submit_key_conflict'' 409))"
proof -
  note inv = reachable_inv [OF assms(1)]
  obtain v where v: "view_of cfg m (clk 2) j = Inr v" "v_row v = j"
    using inv_capabilities [OF inv assms(3)] by (rule view_of_total)
  have "find_row j_submit_key (s_submit_key s) (jobs m) = Some j"
    using find_submit_key [OF inv assms(3)] assms(4) by simp
  moreover have "s_contract s = CONTRACT_VERSION" using assms(2) by (simp add: valid_submit_def)
  ultimately show ?thesis
    using v assms(5) reachable_hash [OF assms(1,3)] by (auto simp: submit_def)
qed

theorem submit_key_idempotent_witness:
  "fst (submit ex_cfg ex_lib (\<lambda>_. 300) ''job-0009'' (ex_submit ''key-1'' ''t'') ex_failed)
     \<noteq> Inl (ManagerError ''submit_key_conflict'' 409)
   \<and> snd (submit ex_cfg ex_lib (\<lambda>_. 300) ''job-0009'' (ex_submit ''key-1'' ''t'') ex_failed) = ex_failed"
proof -
  have j: "hd (jobs ex_failed) \<in> set (jobs ex_failed)"
    "j_submit_key (hd (jobs ex_failed)) = s_submit_key (ex_submit ''key-1'' ''t'')"
    "s_input (ex_submit ''key-1'' ''t'') = j_input (hd (jobs ex_failed))"
    by (simp_all add: ex_failed_eq ex_state_defs)
  show ?thesis
    using submit_key_idempotent [OF ex_reachable_failed ex_valid_submit j(1,2) j(3), of "\<lambda>_. 300" "''job-0009''"] j(3)
    by auto
qed

text \<open>An accepted submission under a new key adds exactly one row, queued, that carries the
  submission unchanged, with a deadline of its allowance after its creation; nothing else changes.\<close>

theorem submit_adds_one_job:
  assumes "submit cfg lib clk k s m = (Inr (v, True), m')"
  shows "jobs m' = jobs m @ [v_row v] \<and> m' = m\<lparr> jobs := jobs m' \<rparr>
    \<and> j_job_id (v_row v) = k \<and> j_state (v_row v) = Queued \<and> j_submit_key (v_row v) = s_submit_key s
    \<and> j_input (v_row v) = s_input s \<and> j_budget (v_row v) = s_budget s
    \<and> j_parent_job_id (v_row v) = s_parent_job_id s \<and> j_kind (v_row v) = s_kind s
    \<and> j_target_worker_id (v_row v) = s_target_worker_id s \<and> j_result (v_row v) = None
    \<and> j_deadline_at (v_row v) = j_created_at (v_row v) + s_deadline_seconds s
    \<and> k \<notin> j_job_id ` set (jobs m) \<and> s_submit_key s \<notin> j_submit_key ` set (jobs m)"
  using submit_created [OF assms] created_row [OF assms]
  by (simp add: new_job_row_def)

theorem submit_adds_one_job_witness:
  "j_state (v_row (ex_view ''job-0002'' ex_child)) = Queued \<and> ''job-0002'' \<notin> j_job_id ` set (jobs ex_failed)"
  using submit_adds_one_job [OF ex_child_created] by blast

text \<open>C16. A retry repeats a failed, partial or lost job with less. The new job is its child with the
  same kind, input and target. It is allowed strictly fewer fetches: one less than the parent has
  not used. Unless it is an observation, whose query allowances are copied, it is also allowed
  strictly fewer searches, queries and sources, again one less than the parent has not used. It may
  make as many model calls as the parent has left, so no more than the parent. The usage subtracted
  has been checked not to be negative. Its stored deadline is ten seconds before the parent's,
  moved by no more than the time that passes between the two readings of the clock in the call.\<close>

theorem retry_asks_for_less:
  assumes "retry cfg lib clk n k key m = (Inr (v, True), m')"
  shows "\<exists>row. job_row_of m k = Some row \<and> j_state row \<in> {Failed, Partial, Lost}
    \<and> j_parent_job_id (v_row v) = Some k \<and> j_kind (v_row v) = j_kind row
    \<and> j_input (v_row v) = j_input row \<and> j_target_worker_id (v_row v) = j_target_worker_id row
    \<and> fetch_requests (j_budget (v_row v)) = fetch_requests (j_budget row) - u_fetch_requests (row_usage row) - 1
    \<and> fetch_requests (j_budget (v_row v)) < fetch_requests (j_budget row)
    \<and> (j_kind row \<noteq> DiscordObserve \<longrightarrow>
         search_requests (j_budget (v_row v)) = search_requests (j_budget row) - u_search_requests (row_usage row) - 1
         \<and> max_queries (j_budget (v_row v)) = max_queries (j_budget row) - u_search_requests (row_usage row) - 1
         \<and> max_sources (j_budget (v_row v)) = max_sources (j_budget row) - u_fetch_requests (row_usage row) - 1
         \<and> search_requests (j_budget (v_row v)) < search_requests (j_budget row)
         \<and> max_queries (j_budget (v_row v)) < max_queries (j_budget row)
         \<and> max_sources (j_budget (v_row v)) < max_sources (j_budget row))
    \<and> model_requests (j_budget (v_row v)) = model_requests (j_budget row) - u_model_requests (row_usage row)
    \<and> model_requests (j_budget (v_row v)) \<le> model_requests (j_budget row)
    \<and> j_deadline_at (v_row v) \<le> j_deadline_at row - 10 + (clk 2 - clk 0)
    \<and> job_seconds (j_budget (v_row v)) \<le> j_deadline_at row - clk 0 - 10"
proof -
  obtain s where req: "retry_request lib (clk 0) k key m = Inr s"
    and sub: "submit cfg lib (\<lambda>i. clk (Suc i)) n s m = (Inr (v, True), m')"
    using assms by (auto simp: retry_def split: sum.splits)
  have v: "v_row v = new_job_row lib (clk 2) n s" using created_row [OF sub] by (simp add: numeral_2_eq_2)
  from req show ?thesis
  proof (rule retry_requestD)
    fix row child
    assume row: "job_row_of m k = Some row" "j_state row = Failed \<or> j_state row = Partial \<or> j_state row = Lost"
      "30 \<le> j_deadline_at row - clk 0" "valid_usage (row_usage row)"
      and b: "retry_budget row (row_usage row) (j_deadline_at row - clk 0) = Inr child"
      and s: "s_parent_job_id s = Some k" "s_kind s = j_kind row" "s_input s = j_input row"
      "s_target_worker_id s = j_target_worker_id row" "s_budget s = child"
      "s_deadline_seconds s = max 15 (min (j_deadline_at row - clk 0 - 10) 3600)"
    have used: "0 \<le> u_search_requests (row_usage row)" "0 \<le> u_fetch_requests (row_usage row)"
      "0 \<le> u_model_requests (row_usage row)"
      using row(4) by (simp_all add: valid_usage_def)
    have child: "valid_limits child"
      "fetch_requests child = fetch_requests (j_budget row) - u_fetch_requests (row_usage row) - 1"
      "j_kind row \<noteq> DiscordObserve \<Longrightarrow>
         search_requests child = search_requests (j_budget row) - u_search_requests (row_usage row) - 1
         \<and> max_queries child = max_queries (j_budget row) - u_search_requests (row_usage row) - 1
         \<and> max_sources child = max_sources (j_budget row) - u_fetch_requests (row_usage row) - 1"
      "model_requests child = max 0 (model_requests (j_budget row) - u_model_requests (row_usage row))"
      "job_seconds child = max 15 (min (job_seconds (j_budget row)) (j_deadline_at row - clk 0 - 10))"
      using b by (auto simp: retry_budget_def Let_def split: if_splits)
    have "1 \<le> model_requests child" using child(1) by (simp add: valid_limits_def)
    then have "model_requests child = model_requests (j_budget row) - u_model_requests (row_usage row)"
      using child(4) by simp
    then show ?thesis using row s child used by (intro exI [of _ row]) (auto simp: v new_job_row_def)
  qed
qed

text \<open>A retry of the failed example job at time 120.\<close>

definition ex_retry :: submit_job where
  "ex_retry = (ex_submit ''key-1:retry:1'' ''t'')\<lparr> s_parent_job_id := Some ''job-0001'',
     s_budget := default_limits\<lparr> max_queries := 8, search_requests := 18, max_sources := 9,
       fetch_requests := 33, job_seconds := 871 \<rparr>, s_deadline_seconds := 871 \<rparr>"

lemma ex_valid_retry: "valid_submit (nfkc ex_lib) ex_retry"
  using ex_valid_submit by (simp add: ex_retry_def valid_submit_def ex_submit_def ex_input_def)
    (simp add: valid_limits_def default_limits_def)

lemma ex_retry_request: "retry_request ex_lib 120 ''job-0001'' None ex_failed = Inr ex_retry"
proof -
  have row: "job_row_of ex_failed ''job-0001'' = Some (hd (jobs ex_failed))"
    by (simp add: ex_failed_eq ex_state_defs job_row_of_def)
  have budget: "retry_budget (hd (jobs ex_failed)) (row_usage (hd (jobs ex_failed))) 881 = Inr (s_budget ex_retry)"
    by (simp add: ex_failed_eq ex_state_defs retry_budget_def row_usage_def ex_result_def ex_retry_def
        default_limits_def valid_limits_def)
  have used: "valid_usage (row_usage (hd (jobs ex_failed)))"
    by (simp add: ex_failed_eq row_usage_def ex_result_def valid_usage_def)
  have "dec (1 :: nat) = ''1''"
    by code_simp
  then show ?thesis
    using ex_valid_retry budget
    by (simp add: retry_request_def row used Let_def)
      (simp add: ex_failed_eq ex_state_defs ex_retry_def)
qed

lemma ex_retried:
  "retry ex_cfg ex_lib (\<lambda>_. 120) ''job-0003'' ''job-0001'' None ex_failed = (Inr (ex_view ''job-0003'' ex_retry, True),
     ex_failed\<lparr> jobs := jobs ex_failed @ [new_job_row ex_lib 120 ''job-0003'' ex_retry] \<rparr>)"
  unfolding retry_def ex_retry_request sum.case
  by (rule ex_create_child) (simp_all add: ex_retry_def ex_submit_def default_limits_def)

theorem retry_asks_for_less_witness:
  "\<exists>row. job_row_of ex_failed ''job-0001'' = Some row
     \<and> fetch_requests (s_budget ex_retry) = fetch_requests (j_budget row) - u_fetch_requests (row_usage row) - 1
     \<and> search_requests (s_budget ex_retry) < search_requests (j_budget row)
     \<and> j_deadline_at (v_row (ex_view ''job-0003'' ex_retry)) \<le> j_deadline_at row - 10"
  using retry_asks_for_less [OF ex_retried]
  by (auto simp: ex_view_def new_job_row_def ex_retry_def ex_submit_def)

end
