(* ===== verification/Finalization.thy ===== *)
theory Finalization
  imports Submission
begin

text \<open>
  Results: only the holder of a live lease stores one, once; a repeated delivery is harmless; late
  results are refused. And the one state no call leads out of: a job asked to stop whose lease ran out.
\<close>

section \<open>What finalize stores\<close>

lemma store_result_row:
  assumes "manager_inv m" "job_row_of m k = Some row"
  shows "job_row_of (store_result k att st r now m) i =
    (if i = k then Some (row\<lparr> j_state := st, j_stop_reason := (if st = Cancelled \<and> e_stop_reason r = None
        then Some ''cancelled_by_requester'' else e_stop_reason r), j_result := Some r \<rparr>) else job_row_of m i)"
proof -
  have upd: "job_row_of (store_result k att st r now m) i = map_option (\<lambda>j. if j_job_id j = k
      then j\<lparr> j_state := st, j_stop_reason := (if st = Cancelled \<and> e_stop_reason r = None
        then Some ''cancelled_by_requester'' else e_stop_reason r), j_result := Some r \<rparr> else j) (job_row_of m i)"
    by (rule job_row_update) (simp_all add: store_result_def Let_def)
  have id: "j_job_id j = i" if "job_row_of m i = Some j" for j using that assms(1) by (simp add: job_row_in)
  show ?thesis
  proof (cases "i = k")
    case True
    then show ?thesis using assms(2) id unfolding upd by simp
  next
    case False
    then show ?thesis using id unfolding upd by (cases "job_row_of m i") simp_all
  qed
qed

lemma finalize_stored:
  assumes "finalize_check cfg clk k w c token r m = Inr (row, a, Some st)"
    and "finalize cfg clk k w c token r m = (Inr v, m')"
  shows "jobs m' = jobs (store_result k (a_attempt_id a) st r (clk 2) m)"
    "attempts m' = attempts (store_result k (a_attempt_id a) st r (clk 2) m)"
    "view_by_id cfg m' (clk 3) k = Inr v"
  using assms by (auto simp: finalize_def Let_def split: payload.splits if_splits)

lemma attempt_of_row:
  assumes "manager_inv m" "job_row_of m k = Some row" "attempt_row_of m k (j_attempt_id row) = Some a"
  shows "a \<in> set (attempts m)" "carries a row" "a_finalized_at a \<noteq> None \<longleftrightarrow> settled (j_state row)"
proof -
  have row: "row \<in> set (jobs m)" "j_job_id row = k" using assms(1,2) by (simp_all add: job_row_in)
  show "a \<in> set (attempts m)" by (rule attempt_row_in [OF assms(3)])
  show "carries a row" "a_finalized_at a \<noteq> None \<longleftrightarrow> settled (j_state row)"
    using attempt_carries [OF assms(1) row(1), of "j_attempt_id row" a] assms(3) row(2) by simp_all
qed

lemma manifest_present:
  "check_manifest m k att rs = None \<Longrightarrow> ref \<in> set rs \<Longrightarrow>
   \<exists>f \<in> set (artifacts m). f_artifact_id f = ar_artifact_id ref \<and> f_job_id f = k \<and> f_attempt_id f = att \<and> ref_matches f ref"
proof (induction rs)
  case (Cons x rs)
  then obtain f where f: "find (\<lambda>f. f_artifact_id f = ar_artifact_id x \<and> f_job_id f = k \<and> f_attempt_id f = att) (artifacts m) = Some f"
    "ref_matches f x" "check_manifest m k att rs = None"
    by (auto split: option.splits if_splits)
  then have "f \<in> set (artifacts m)" "f_artifact_id f = ar_artifact_id x \<and> f_job_id f = k \<and> f_attempt_id f = att"
    by (auto simp: find_Some_iff)
  with Cons f show ?case by auto
qed simp

lemma store_result_attempt:
  assumes "manager_inv m" "a \<in> set (attempts m)"
  shows "a\<lparr> a_finalized_at := Some now \<rparr> \<in> set (attempts (store_result k (a_attempt_id a) st r now m))"
  using assms by (auto simp: store_result_def Let_def set_update_rows image_iff intro!: bexI [of _ a])

section \<open>Lapsed leases\<close>

text \<open>An open attempt whose lease has lapsed is not touched any more.\<close>

definition untouched :: "clock \<Rightarrow> manager \<Rightarrow> manager \<Rightarrow> bool" where
  "untouched clk m m' \<longleftrightarrow> (\<forall>a \<in> set (attempts m). \<forall>j \<in> set (jobs m).
     carries a j \<longrightarrow> active_state (j_state j) \<longrightarrow> (\<forall>i. a_lease_expires_at a < clk i) \<longrightarrow> a \<in> set (attempts m'))"

named_theorems lapsed

lemma untouched_sub: "set (attempts m) \<subseteq> set (attempts m') \<Longrightarrow> untouched clk m m'"
  by (auto simp: untouched_def)

lemma untouched_same: "attempts m' = attempts m \<Longrightarrow> untouched clk m m'"
  by (simp add: untouched_sub)

lemma untouched_update:
  assumes "manager_inv m" "b \<in> set (attempts m)" "clk i \<le> a_lease_expires_at b"
    and "attempts m' = update_rows (\<lambda>r. a_attempt_id r = a_attempt_id b) g (attempts m)"
  shows "untouched clk m m'"
  unfolding untouched_def
proof (intro ballI impI)
  fix a j assume a: "a \<in> set (attempts m)" and late: "\<forall>i. a_lease_expires_at a < clk i"
  have "a_attempt_id a \<noteq> a_attempt_id b"
    using attempt_unique [OF assms(1) a assms(2)] assms(3) late by (auto dest: spec [of _ i])
  with a show "a \<in> set (attempts m')" by (auto simp: assms(4) set_update_rows image_iff)
qed

lemma upsert_lapsed [lapsed]: "untouched clk m (snd (upsert_worker cfg clk w c r m))"
  by (rule untouched_same) (simp add: upsert_worker_def Let_def split: option.splits)

lemma submit_lapsed [lapsed]: "untouched clk m (snd (submit cfg lib clk' k s m))"
  by (rule untouched_same) (simp add: submit_def Let_def split: option.splits)

lemma retry_lapsed [lapsed]: "untouched clk m (snd (retry cfg lib clk n k key m))"
  using submit_lapsed by (auto simp: retry_def untouched_same split: sum.splits)

lemma claim_lapsed [lapsed]: "untouched clk m (snd (claim cfg clk att token w c m))"
  by (cases rule: claim_cases [of cfg clk att token w c m])
    (auto simp: start_attempt_def intro: untouched_sub)

lemma renew_cases:
  obtains (same) "snd (renew_lease cfg clk k w c att token m) = m"
  | (renewed) b t where "attempt_row_of m k (Some att) = Some b" "clk 0 \<le> a_lease_expires_at b"
      "snd (renew_lease cfg clk k w c att token m)
        = m\<lparr> attempts := update_rows (\<lambda>r. a_attempt_id r = att) (\<lambda>r. r\<lparr> a_lease_expires_at := t \<rparr>) (attempts m) \<rparr>"
proof (cases "snd (renew_lease cfg clk k w c att token m) = m")
  case False
  have "\<exists>b t. attempt_row_of m k (Some att) = Some b \<and> clk 0 \<le> a_lease_expires_at b
      \<and> snd (renew_lease cfg clk k w c att token m)
        = m\<lparr> attempts := update_rows (\<lambda>r. a_attempt_id r = att) (\<lambda>r. r\<lparr> a_lease_expires_at := t \<rparr>) (attempts m) \<rparr>"
    using False by (auto simp: renew_lease_def Let_def split: option.splits if_splits)
  then show ?thesis by (elim exE conjE) (rule renewed)
qed (rule same)

lemma renew_lapsed [lapsed]:
  assumes "manager_inv m"
  shows "untouched clk m (snd (renew_lease cfg clk k w c att token m))"
proof (cases rule: renew_cases [of cfg clk k w c att token m])
  case same
  then show ?thesis by (intro untouched_same) simp
next
  case (renewed b t)
  note b = attempt_row_in [OF renewed(1)]
  show ?thesis
    by (rule untouched_update [where clk = clk and i = 0 and g = "\<lambda>r. r\<lparr> a_lease_expires_at := t \<rparr>",
          OF assms b(1) renewed(2)]) (use renewed(3) b(3) in simp)
qed

lemma cancel_lapsed [lapsed]: "untouched clk m (snd (cancel cfg clk k m))"
  by (rule untouched_same) (cases "job_row_of m k"; simp add: cancel_def Let_def set_job_def)

lemma finalize_lapsed [lapsed]:
  assumes "manager_inv m"
  shows "untouched clk m (snd (finalize cfg clk k w c token r m))"
proof (cases rule: finalize_cases [of cfg clk k w c token r m])
  case kept
  then show ?thesis by (intro untouched_same) simp
next
  case (stored row a st)
  note d = finalize_check_storeD [OF stored(1)]
  show ?thesis
    by (rule untouched_update [where clk = clk and i = 0 and g = "\<lambda>a. a\<lparr> a_finalized_at := Some (clk 2) \<rparr>",
          OF assms attempt_row_in(1) [OF d(3)] d(7)])
      (simp add: stored(3) store_result_def Let_def)
qed

lemma delete_lapsed [lapsed]:
  assumes "manager_inv m"
  shows "untouched clk m (snd (delete_job k m))"
proof (cases "job_row_of m k")
  case None
  then show ?thesis by (intro untouched_same) (simp add: delete_job_def)
next
  case (Some row)
  show ?thesis
  proof (cases "terminal (j_state row)")
    case True
    have "j = row" if "j \<in> set (jobs m)" "j_job_id j = k" for j
      using that Some assms by (metis job_row_in job_unique)
    then show ?thesis
      using Some True unfolding untouched_def
      by (auto simp: delete_job_def Let_def set_delete_rows carries_def active_state_def)
  next
    case False
    with Some show ?thesis by (intro untouched_same) (simp add: delete_job_def)
  qed
qed

lemma artifact_lapsed [lapsed]: "untouched clk m (snd (add_artifact cfg lib clk k w c att token r data m))"
  by (rule untouched_same, cases rule: add_artifact_cases [of cfg lib clk k w c att token r data m]) auto

lemma view_lapsed [lapsed]: "untouched clk m (snd (job_view cfg clk k m))"
  by (rule untouched_same) (simp add: job_view_def Let_def split: option.splits)

lemma result_lapsed [lapsed]: "untouched clk m (snd (job_result cfg clk k m))"
  by (rule untouched_same)
    (auto simp: job_result_def job_view_def Let_def split: prod.splits sum.splits option.splits)

lemma download_lapsed [lapsed]: "untouched clk m (snd (get_artifact clk k i m))"
  by (rule untouched_same) (simp add: get_artifact_def Let_def split: option.splits)

lemma sweep_lapsed [lapsed]: "untouched clk m (snd (sweep_once cfg clk m))"
  by (rule untouched_same) (simp add: sweep_once_def Let_def)

lemma step_lapsed: "manager_inv m \<Longrightarrow> manager_step cfg lib m clk m' \<Longrightarrow> untouched clk m m'"
  by (erule manager_step.cases) (simp_all only: lapsed)

section \<open>A cancellation that can no longer be confirmed\<close>

text \<open>Job \<open>k\<close> is asked to stop and the lease of its attempt ends before \<open>t\<close>.\<close>

definition unconfirmed :: "real \<Rightarrow> string \<Rightarrow> string \<Rightarrow> manager \<Rightarrow> bool" where
  "unconfirmed t k w m \<longleftrightarrow> (\<exists>j a. job_row_of m k = Some j \<and> j_state j = CancelRequested
     \<and> a \<in> set (attempts m) \<and> carries a j \<and> a_worker_id a = w
     \<and> a_lease_expires_at a < t \<and> a_finalized_at a = None)"

lemma unconfirmed_step:
  assumes inv: "manager_inv m" and step: "manager_step cfg lib m clk m'"
    and late: "\<forall>i. t \<le> clk i" and un: "unconfirmed t k w m"
  shows "unconfirmed t k w m'"
proof -
  obtain j a where j: "job_row_of m k = Some j" "j_state j = CancelRequested"
    and a: "a \<in> set (attempts m)" "carries a j" "a_worker_id a = w" "a_lease_expires_at a < t" "a_finalized_at a = None"
    using un by (auto simp: unconfirmed_def)
  have jin: "j \<in> set (jobs m)" using j(1) inv by (simp add: job_row_in)
  have inv': "manager_inv m'" using manager_system.step_inv [OF step inv] .
  have "\<forall>i. a_lease_expires_at a < clk i" using a(4) late by (auto intro: order_less_le_trans)
  then have a': "a \<in> set (attempts m')"
    using step_lapsed [OF inv step] a(1,2) jin j(2) unfolding untouched_def by simp
  have "case job_row_of m' k of None \<Rightarrow> terminal (j_state j) | Some j' \<Rightarrow> job_follows j j'"
    using step_follow [OF inv step] j(1) unfolding jobs_follow_def by blast
  with j(2) obtain j' where j': "job_row_of m' k = Some j'" "job_follows j j'"
    by (cases "job_row_of m' k") auto
  have car: "carries a j'" using j'(2) j(2) a(2) by (auto simp: job_follows_def same_order_def carries_def)
  have j'in: "j' \<in> set (jobs m')" using j'(1) inv' by (simp add: job_row_in)
  have "\<not> settled (j_state j')"
  proof
    assume "settled (j_state j')"
    obtain j2 where j2: "j2 \<in> set (jobs m')" "carries a j2" "a_finalized_at a \<noteq> None \<longleftrightarrow> settled (j_state j2)"
      using inv' a' by (auto simp: manager_inv_def attempts_ok_def)
    then have "j2 = j'" using car j'in by (auto simp: carries_def intro: job_unique [OF inv'])
    with j2 a(5) \<open>settled (j_state j')\<close> show False by simp
  qed
  then have "j_state j' = CancelRequested"
    using j'(2) j(2) by (auto simp: job_follows_def)
  with j'(1) a' car a show ?thesis by (auto simp: unconfirmed_def)
qed

text \<open>The runs that start from a reachable state and stay after a given time.\<close>

definition runs_after :: "settings \<Rightarrow> library \<Rightarrow> real \<Rightarrow> manager \<Rightarrow> manager \<Rightarrow> bool" where
  "runs_after cfg lib t m = reachable (\<lambda>s. s = m) (\<lambda>s clk s'. manager_step cfg lib s clk s' \<and> (\<forall>i. t \<le> clk i))"

interpretation stuck: invariant_system "\<lambda>s. manager_inv s \<and> unconfirmed t k w s"
    "\<lambda>s clk s'. manager_step cfg lib s clk s' \<and> (\<forall>i. t \<le> clk i)"
    "\<lambda>s. manager_inv s \<and> unconfirmed t k w s" for cfg lib t k w
proof
  show "manager_inv s' \<and> unconfirmed t k w s'"
    if "manager_step cfg lib s clk s' \<and> (\<forall>i. t \<le> clk i)" "manager_inv s \<and> unconfirmed t k w s" for s clk s'
    using that manager_system.step_inv unconfirmed_step by blast
qed simp

lemma reachable_weaken: "reachable P st s \<Longrightarrow> (\<And>x. P x \<Longrightarrow> Q x) \<Longrightarrow> reachable Q st s"
  by (induction rule: reachable.induct) (auto intro: reachable.intros)

lemma unconfirmed_active: "manager_inv m \<Longrightarrow> unconfirmed t k w m \<Longrightarrow> 1 \<le> active_count m w"
proof -
  assume inv: "manager_inv m" and un: "unconfirmed t k w m"
  then have "k \<in> active_ids m w" by (auto simp: unconfirmed_def active_ids_def carries_def)
  then show ?thesis using active_count_ids [OF inv, of w] by (auto simp: Suc_le_eq card_gt_0_iff)
qed

section \<open>Properties\<close>

lemma finalize_accepted:
  assumes "manager_reachable cfg lib m" "finalize cfg clk k w c token r m = (Inr v, m')"
  shows "\<exists>row a. job_row_of m k = Some row \<and> a \<in> set (attempts m) \<and> carries a row
    \<and> check_worker_credential cfg w c = None \<and> a_worker_id a = w \<and> a_lease_token a = token
    \<and> (if a_finalized_at a \<noteq> None then m' = m \<and> j_result row = Some r
       else clk 0 \<le> a_lease_expires_at a \<and> e_job_id r = k \<and> e_attempt_id r = a_attempt_id a
         \<and> payload_mode (e_payload r) = j_mode row
         \<and> final_state (j_state row) (e_status r) = Inr (j_state (v_row v))
         \<and> j_result (v_row v) = Some r \<and> same_order row (v_row v)
         \<and> (\<forall>ref \<in> set (e_manifest r). \<exists>f \<in> set (artifacts m). f_artifact_id f = ar_artifact_id ref
              \<and> f_job_id f = k \<and> f_attempt_id f = a_attempt_id a \<and> ref_matches f ref)
         \<and> (\<forall>i. job_row_of m' i = (if i = k then Some (v_row v) else job_row_of m i)))"
proof -
  note inv = reachable_inv [OF assms(1)]
  obtain x where x: "finalize_check cfg clk k w c token r m = Inr x"
    using assms(2) by (cases "finalize_check cfg clk k w c token r m") (auto simp: finalize_def)
  obtain row a st where xs: "x = (row, a, st)" by (cases x)
  show ?thesis
  proof (cases st)
    case None
    note d = finalize_check_replayD [OF x [unfolded xs None]]
    note a = attempt_of_row [OF inv d(2,3)]
    have "m' = m" using assms(2) x xs None by (simp add: finalize_def)
    with d a show ?thesis by (intro exI [of _ row] exI [of _ a]) simp
  next
    case (Some st')
    note d = finalize_check_storeD [OF x [unfolded xs Some]]
    note a = attempt_of_row [OF inv d(2,3)]
    note f = finalize_stored [OF x [unfolded xs Some] assms(2)]
    have rows: "job_row_of m' i = (if i = k then Some (row\<lparr> j_state := st', j_stop_reason :=
        (if st' = Cancelled \<and> e_stop_reason r = None then Some ''cancelled_by_requester''
         else e_stop_reason r), j_result := Some r \<rparr>) else job_row_of m i)" for i
      using store_result_row [OF inv d(2), of "a_attempt_id a" st' r "clk 2" i] f(1) unfolding job_row_of_def by simp
    have v: "v_row v = row\<lparr> j_state := st', j_stop_reason :=
        (if st' = Cancelled \<and> e_stop_reason r = None then Some ''cancelled_by_requester''
         else e_stop_reason r), j_result := Some r \<rparr>"
      using view_row [OF f(3)] unfolding rows by simp
    have "same_order row (v_row v)" unfolding v by (simp add: same_order_def)
    moreover have "\<forall>i. job_row_of m' i = (if i = k then Some (v_row v) else job_row_of m i)"
      unfolding rows v by simp
    moreover have "\<forall>ref \<in> set (e_manifest r). \<exists>f \<in> set (artifacts m). f_artifact_id f = ar_artifact_id ref
              \<and> f_job_id f = k \<and> f_attempt_id f = a_attempt_id a \<and> ref_matches f ref"
      using manifest_present [OF d(13)] by blast
    moreover have "j_state (v_row v) = st'" "j_result (v_row v) = Some r" unfolding v by simp_all
    ultimately show ?thesis
      using d(1,2,4-10,12) a by (intro exI [of _ row] exI [of _ a]) simp
  qed
qed

text \<open>C7. When finalize accepts, the caller presented the credential, the attempt and the token of
  the worker that carries the job. A first result also came before the lease ended, names this job
  and attempt and the job's mode, and leads from the job's state to the one its status names; the
  job then holds exactly that result, every artifact the manifest lists is stored for this attempt
  under the described name, type, size and hash, and no other job changes.\<close>

theorem finalize_needs_a_live_lease:
  assumes "manager_reachable cfg lib m" "finalize cfg clk k w c token r m = (Inr v, m')"
  shows "\<exists>row a. job_row_of m k = Some row \<and> a \<in> set (attempts m) \<and> carries a row
    \<and> check_worker_credential cfg w c = None \<and> a_worker_id a = w \<and> a_lease_token a = token
    \<and> (if a_finalized_at a \<noteq> None then m' = m \<and> j_result row = Some r
       else clk 0 \<le> a_lease_expires_at a \<and> e_job_id r = k \<and> e_attempt_id r = a_attempt_id a
         \<and> payload_mode (e_payload r) = j_mode row
         \<and> final_state (j_state row) (e_status r) = Inr (j_state (v_row v))
         \<and> j_result (v_row v) = Some r \<and> same_order row (v_row v)
         \<and> (\<forall>ref \<in> set (e_manifest r). \<exists>f \<in> set (artifacts m). f_artifact_id f = ar_artifact_id ref
              \<and> f_job_id f = k \<and> f_attempt_id f = a_attempt_id a \<and> ref_matches f ref)
         \<and> (\<forall>i. job_row_of m' i = (if i = k then Some (v_row v) else job_row_of m i)))"
  by (rule finalize_accepted [OF assms])

theorem finalize_needs_a_live_lease_witness:
  "\<exists>row a. job_row_of ex_running ''job-0001'' = Some row \<and> a \<in> set (attempts ex_running) \<and> carries a row
    \<and> a_worker_id a = ''w1''"
  using finalize_needs_a_live_lease [OF ex_reachable_running ex_finalize] by blast

text \<open>Delivering a result twice is harmless: after finalize accepted a result, the same call
  with the same result changes nothing and answers with the same job at any later time, and with a
  different result it changes nothing and answers \<open>result_conflict\<close>.\<close>

theorem finalize_is_idempotent:
  assumes "manager_reachable cfg lib m" "finalize cfg clk k w c token r m = (Inr v, m')"
  shows "snd (finalize cfg clk' k w c token r' m') = m'
    \<and> (if r' = r then \<exists>v'. fst (finalize cfg clk' k w c token r' m') = Inr v' \<and> v_row v' = v_row v
       else fst (finalize cfg clk' k w c token r' m') = Inl (ManagerError ''result_conflict'' 409))"
proof -
  note inv = reachable_inv [OF assms(1)]
  have inv': "manager_inv m'" using inv_finalize [OF inv, of cfg clk k w c token r] assms(2) by simp
  obtain x where x: "finalize_check cfg clk k w c token r m = Inr x"
    using assms(2) by (cases "finalize_check cfg clk k w c token r m") (auto simp: finalize_def)
  obtain row a st where xs: "x = (row, a, st)" by (cases x)
  have "\<exists>a'. check_worker_credential cfg w c = None \<and> job_row_of m' k = Some (v_row v)
      \<and> attempt_row_of m' k (j_attempt_id (v_row v)) = Some a' \<and> a_worker_id a' = w \<and> a_lease_token a' = token
      \<and> a_finalized_at a' \<noteq> None \<and> j_result (v_row v) = Some r"
  proof (cases st)
    case None
    note d = finalize_check_replayD [OF x [unfolded xs None]]
    have "m' = m" "v_row v = row"
      using assms(2) x xs None by (auto simp: finalize_def view_of_def split: if_splits sum.splits)
    with d show ?thesis by blast
  next
    case (Some st')
    note d = finalize_check_storeD [OF x [unfolded xs Some]]
    note a = attempt_of_row [OF inv d(2,3)]
    note f = finalize_stored [OF x [unfolded xs Some] assms(2)]
    have row: "job_row_of m' k = Some (v_row v)" by (rule view_row [OF f(3)])
    have "v_row v = row\<lparr> j_state := st', j_stop_reason :=
        (if st' = Cancelled \<and> e_stop_reason r = None then Some ''cancelled_by_requester''
         else e_stop_reason r), j_result := Some r \<rparr>"
      using row store_result_row [OF inv d(2), of "a_attempt_id a" st' r "clk 2" k] f(1)
      unfolding job_row_of_def by simp
    then have vs: "j_result (v_row v) = Some r" "j_attempt_id (v_row v) = j_attempt_id row"
      by (simp_all only:) simp_all
    define a' where "a' = a\<lparr> a_finalized_at := Some (clk 2) \<rparr>"
    have a': "a' \<in> set (attempts m')" "a_job_id a' = k" "j_attempt_id row = Some (a_attempt_id a')"
      using store_result_attempt [OF inv a(1), of "clk 2" k st' r] f(2) attempt_row_in [OF d(3)]
      by (simp_all add: a'_def)
    obtain b where b: "attempt_row_of m' k (j_attempt_id row) = Some b"
      using a' by (cases "attempt_row_of m' k (j_attempt_id row)")
        (auto simp: attempt_row_of_def find_None_iff)
    have "b = a'"
      using attempt_row_in [OF b] a' by (intro attempt_unique [OF inv']) auto
    with b row vs d show ?thesis by (simp add: a'_def)
  qed
  then obtain a' where a': "check_worker_credential cfg w c = None" "job_row_of m' k = Some (v_row v)"
    "attempt_row_of m' k (j_attempt_id (v_row v)) = Some a'" "a_worker_id a' = w" "a_lease_token a' = token"
    "a_finalized_at a' \<noteq> None" "j_result (v_row v) = Some r" by blast
  have "required_capabilities (v_row v) \<noteq> None"
    using inv' a'(2) by (intro inv_capabilities) (auto simp: job_row_in)
  then obtain v' where "view_of cfg m' (clk' 3) (v_row v) = Inr v'" "v_row v' = v_row v" by (rule view_of_total)
  with a' show ?thesis by (auto simp: finalize_def finalize_check_def)
qed

theorem finalize_is_idempotent_witness:
  "snd (finalize ex_cfg (\<lambda>_. 900) ''job-0001'' ''w1'' ''secret1'' ''tok'' (ex_result RFailed) ex_failed) = ex_failed
   \<and> fst (finalize ex_cfg (\<lambda>_. 900) ''job-0001'' ''w1'' ''secret1'' ''tok'' (ex_result RSucceeded) ex_failed)
     = Inl (ManagerError ''result_conflict'' 409)"
proof -
  note same = finalize_is_idempotent [OF ex_reachable_running ex_finalize, of "\<lambda>_. 900" "ex_result RFailed"]
  note other = finalize_is_idempotent [OF ex_reachable_running ex_finalize, of "\<lambda>_. 900" "ex_result RSucceeded"]
  have "ex_result RSucceeded \<noteq> ex_result RFailed" by (simp add: ex_result_def)
  with same other show ?thesis unfolding ex_failed_eq by simp
qed

text \<open>Late results change nothing: once a job is lost, or the lease of its open attempt has
  ended, finalize answers with an error and leaves the state as it was.\<close>

theorem late_results_are_refused:
  assumes "manager_reachable cfg lib m" "job_row_of m k = Some row"
    and "j_state row = Lost \<or> (\<exists>a. attempt_row_of m k (j_attempt_id row) = Some a
           \<and> a_lease_expires_at a < clk 0 \<and> a_finalized_at a = None)"
  shows "(\<exists>e. fst (finalize cfg clk k w c token r m) = Inl e) \<and> snd (finalize cfg clk k w c token r m) = m"
proof -
  note inv = reachable_inv [OF assms(1)]
  have "\<exists>e. finalize_check cfg clk k w c token r m = Inl e"
  proof (cases "finalize_check cfg clk k w c token r m")
    case (Inr x)
    obtain row' a st where xs: "x = (row', a, st)" by (cases x)
    show ?thesis
    proof (cases st)
      case None
      note d = finalize_check_replayD [OF Inr [unfolded xs None]]
      have "settled (j_state row)" "a_finalized_at a \<noteq> None"
        using attempt_of_row(3) [OF inv d(2,3)] d(2,6) assms(2) by auto
      with assms(3) d(2,3) assms(2) show ?thesis by auto
    next
      case (Some st')
      note d = finalize_check_storeD [OF Inr [unfolded xs Some]]
      have "active_state (j_state row)" using final_state_settled [OF d(12)] d(2) assms(2) by simp
      with assms(3) d(2,3,7) assms(2) show ?thesis by auto
    qed
  qed blast
  then show ?thesis by (auto simp: finalize_def)
qed

theorem late_results_are_refused_witness:
  "(\<exists>e. fst (finalize ex_cfg (\<lambda>_. 163) ''job-0001'' ''w1'' ''secret1'' ''tok'' (ex_result RSucceeded) ex_running) = Inl e)
   \<and> snd (finalize ex_cfg (\<lambda>_. 163) ''job-0001'' ''w1'' ''secret1'' ''tok'' (ex_result RSucceeded) ex_running) = ex_running"
  by (rule late_results_are_refused [OF ex_reachable_running, of _ "hd (jobs ex_running)"])
    (simp_all add: ex_state_defs job_row_of_def attempt_row_of_def)

text \<open>C8. A job that was asked to stop and whose lease has ended stays there for good: no sequence
  of operations at later times, of any kind and order, ever ends it, and it keeps occupying a slot of
  its worker.\<close>

theorem unconfirmed_cancellation_is_stuck:
  assumes "manager_reachable cfg lib m" "unconfirmed t k w m" "runs_after cfg lib t m m'"
  shows "unconfirmed t k w m' \<and> map_option j_state (job_row_of m' k) = Some CancelRequested
    \<and> 1 \<le> active_count m' w"
proof -
  have "reachable (\<lambda>s. manager_inv s \<and> unconfirmed t k w s)
      (\<lambda>s clk s'. manager_step cfg lib s clk s' \<and> (\<forall>i. t \<le> clk i)) m'"
    by (rule reachable_weaken [OF assms(3) [unfolded runs_after_def]])
      (use reachable_inv [OF assms(1)] assms(2) in simp)
  from stuck.reach_inv [OF this] have "manager_inv m'" "unconfirmed t k w m'" by blast+
  then show ?thesis using unconfirmed_active by (auto simp: unconfirmed_def)
qed

theorem unconfirmed_cancellation_is_stuck_witness:
  "map_option j_state (job_row_of (snd (sweep_once ex_cfg (\<lambda>_. 1000) ex_stopping)) ''job-0001'') = Some CancelRequested"
proof -
  have "unconfirmed 200 ''job-0001'' ''w1'' ex_stopping"
    by (simp add: unconfirmed_def ex_stopping_eq ex_state_defs job_row_of_def carries_def)
  moreover have "runs_after ex_cfg ex_lib 200 ex_stopping (snd (sweep_once ex_cfg (\<lambda>_. 1000) ex_stopping))"
    unfolding runs_after_def
    by (rule reachable_step [OF reachable_init, where e = "\<lambda>_. 1000"])
      (rule refl, rule conjI, rule step_sweep, simp)
  ultimately show ?thesis
    using unconfirmed_cancellation_is_stuck [OF ex_reachable_stopping] by blast
qed

end
