(* ===== verification/Storage.thy ===== *)
theory Storage
  imports Finalization
begin

text \<open>
  Artifacts, deletion, retention and the sweeper: every stored artifact has its file with the
  recorded size and hash, a job's artifacts stay within its budget, and what is deleted or expired
  leaves no trace.
\<close>

section \<open>The invariant of the artifact store\<close>

definition artifact_stored :: "library \<Rightarrow> manager \<Rightarrow> artifact_row \<Rightarrow> bool" where
  "artifact_stored lib m f \<longleftrightarrow>
     (\<exists>data. files m (f_stored_path f) = Some data \<and> int (length data) = f_bytes f \<and> sha256 lib data = f_sha256 f)
     \<and> f_stored_path f = [f_job_id f, f_attempt_id f, f_name f]
     \<and> artifact_name_ok (f_name f) \<and> f_media_type f \<in> set ARTIFACT_MEDIA_TYPES
     \<and> (\<exists>j. job_row_of m (f_job_id f) = Some j \<and> j_attempt_id j = Some (f_attempt_id f))"

definition within_limits :: "settings \<Rightarrow> manager \<Rightarrow> bool" where
  "within_limits cfg m \<longleftrightarrow> (\<forall>k j. job_row_of m k = Some j \<longrightarrow>
     stored_bytes m k \<le> cache_bytes (j_budget j)
     \<and> count_rows (\<lambda>f. f_job_id f = k) (artifacts m) \<le> max_artifacts_per_job cfg)"

definition store_ok :: "settings \<Rightarrow> library \<Rightarrow> manager \<Rightarrow> bool" where
  "store_ok cfg lib m \<longleftrightarrow> (\<forall>f \<in> set (artifacts m). artifact_stored lib m f)
     \<and> distinct (map (\<lambda>f. (f_job_id f, f_name f)) (artifacts m)) \<and> within_limits cfg m"

section \<open>Operations that add no artifact\<close>

text \<open>Every other operation keeps some of the rows, their files and their jobs.\<close>

definition keeps_store :: "settings \<Rightarrow> library \<Rightarrow> manager \<Rightarrow> manager \<Rightarrow> bool" where
  "keeps_store cfg lib m m' \<longleftrightarrow> (store_ok cfg lib m \<longrightarrow>
     (\<exists>P. artifacts m' = filter P (artifacts m)) \<and>
     (\<forall>f \<in> set (artifacts m'). files m' (f_stored_path f) = files m (f_stored_path f)
        \<and> job_row_of m' (f_job_id f) \<noteq> None))"

lemma stored_bytes_filter:
  assumes "artifacts m' = filter P (artifacts m)" "\<forall>f \<in> set (artifacts m). 0 \<le> f_bytes f"
  shows "stored_bytes m' k \<le> stored_bytes m k"
proof -
  have "sum_list (map f_bytes (filter Q (filter P fs))) \<le> sum_list (map f_bytes (filter Q fs))"
    if "\<forall>f \<in> set fs. 0 \<le> f_bytes f" for fs :: "artifact_row list" and Q
    using that by (induction fs) auto
  with assms show ?thesis by (simp add: stored_bytes_def)
qed

lemma count_rows_filter_le: "count_rows Q (filter P fs) \<le> count_rows Q fs"
  by (induction fs) auto

lemma artifact_bytes_nonneg: "artifact_stored lib m f \<Longrightarrow> 0 \<le> f_bytes f"
  by (auto simp: artifact_stored_def)

lemma store_ok_keep:
  assumes ok: "store_ok cfg lib m" and inv: "manager_inv m" and inv': "manager_inv m'" and follow: "jobs_follow m m'"
    and fresh: "fresh_rows lib m m'" and keep: "keeps_store cfg lib m m'"
  shows "store_ok cfg lib m'"
proof -
  obtain P where P: "artifacts m' = filter P (artifacts m)" using ok keep by (auto simp: keeps_store_def)
  have row: "artifact_stored lib m' f" if f: "f \<in> set (artifacts m')" for f
  proof -
    have st: "artifact_stored lib m f" using ok f P by (simp add: store_ok_def)
    then obtain j where j: "job_row_of m (f_job_id f) = Some j" "j_attempt_id j = Some (f_attempt_id f)"
      by (auto simp: artifact_stored_def)
    have same: "files m' (f_stored_path f) = files m (f_stored_path f)" "job_row_of m' (f_job_id f) \<noteq> None"
      using keep ok f by (simp_all add: keeps_store_def)
    then obtain j' where j': "job_row_of m' (f_job_id f) = Some j'" by blast
    have fol: "job_follows j j'" using follow j(1) j' unfolding jobs_follow_def by (metis option.simps(5))
    have "j_state j \<noteq> Queued" using inv j by (auto simp: job_row_in manager_inv_def jobs_ok_def job_ok_def)
    with fol j(2) have "j_attempt_id j' = Some (f_attempt_id f)" by (auto simp: job_follows_def)
    with st same(1) j' show ?thesis by (auto simp: artifact_stored_def)
  qed
  have bytes: "\<forall>f \<in> set (artifacts m). 0 \<le> f_bytes f"
    using ok by (auto simp: store_ok_def intro: artifact_bytes_nonneg)
  have "within_limits cfg m'"
    unfolding within_limits_def
  proof (intro allI impI)
    fix k j' assume j': "job_row_of m' k = Some j'"
    show "stored_bytes m' k \<le> cache_bytes (j_budget j')
        \<and> count_rows (\<lambda>f. f_job_id f = k) (artifacts m') \<le> max_artifacts_per_job cfg"
    proof (cases "job_row_of m k")
      case None
      have none: "f_job_id f \<noteq> k" if "f \<in> set (artifacts m)" for f
        using ok that None by (auto simp: store_ok_def artifact_stored_def)
      then have empty: "filter (\<lambda>f. f_job_id f = k) (artifacts m') = []" using P by (auto simp: filter_empty_conv)
      have "valid_limits (j_budget j')"
        using inv' j' by (auto simp: job_row_in manager_inv_def jobs_ok_def job_ok_def)
      then show ?thesis using empty by (simp add: stored_bytes_def count_rows_def valid_limits_def)
    next
      case (Some j)
      have "job_follows j j'" using follow Some j' unfolding jobs_follow_def by (metis option.simps(5))
      then have "j_budget j' = j_budget j" by (simp add: job_follows_def same_order_def)
      moreover have "stored_bytes m k \<le> cache_bytes (j_budget j)"
        "count_rows (\<lambda>f. f_job_id f = k) (artifacts m) \<le> max_artifacts_per_job cfg"
        using ok Some by (auto simp: store_ok_def within_limits_def)
      ultimately show ?thesis
        using stored_bytes_filter [OF P bytes, of k] count_rows_filter_le [of "\<lambda>f. f_job_id f = k" P "artifacts m"] P
        by simp
    qed
  qed
  with row P ok show ?thesis
    by (simp add: store_ok_def distinct_map_filterI)
qed

named_theorems keeping

lemma keeps_ids:
  assumes "artifacts m' = artifacts m" "files m' = files m" "j_job_id ` set (jobs m) \<subseteq> j_job_id ` set (jobs m')"
  shows "keeps_store cfg lib m m'"
  unfolding keeps_store_def
proof (intro impI conjI ballI)
  assume ok: "store_ok cfg lib m"
  show "\<exists>P. artifacts m' = filter P (artifacts m)" by (rule exI [of _ "\<lambda>_. True"]) (simp add: assms(1))
  fix f assume "f \<in> set (artifacts m')"
  then have "job_row_of m (f_job_id f) \<noteq> None" using ok assms(1) by (auto simp: store_ok_def artifact_stored_def)
  then show "job_row_of m' (f_job_id f) \<noteq> None"
    using assms(3) by (simp add: job_row_of_def find_row_None subset_iff)
qed (simp add: assms(2))

lemma keeps_same: "artifacts m' = artifacts m \<Longrightarrow> files m' = files m \<Longrightarrow> jobs m' = jobs m \<Longrightarrow> keeps_store cfg lib m m'"
  by (rule keeps_ids) simp_all

lemma upsert_keeping [keeping]: "keeps_store cfg lib m (snd (upsert_worker cfg clk w c r m))"
  by (rule keeps_same) (simp_all add: upsert_worker_def Let_def split: option.splits)

lemma submit_keeping [keeping]: "keeps_store cfg lib m (snd (submit cfg lib clk k s m))"
  by (rule keeps_ids) (auto simp: submit_def Let_def split: option.splits)

lemma retry_keeping [keeping]: "keeps_store cfg lib m (snd (retry cfg lib clk n k key m))"
  using submit_keeping by (auto simp: retry_def keeps_same split: sum.splits)

lemma claim_keeping [keeping]: "keeps_store cfg lib m (snd (claim cfg clk att token w c m))"
  by (cases rule: claim_cases [of cfg clk att token w c m])
    (simp_all add: keeps_ids start_attempt_def ids_update_rows)

lemma renew_keeping [keeping]: "keeps_store cfg lib m (snd (renew_lease cfg clk k w c att token m))"
  by (cases rule: renew_cases [of cfg clk k w c att token m]) (simp_all add: keeps_same)

lemma cancel_keeping [keeping]: "keeps_store cfg lib m (snd (cancel cfg clk k m))"
  by (cases "job_row_of m k")
    (simp_all add: cancel_def Let_def set_job_def keeps_ids ids_update_rows)

lemma finalize_keeping [keeping]: "keeps_store cfg lib m (snd (finalize cfg clk k w c token r m))"
proof (rule keeps_ids)
  show "j_job_id ` set (jobs m) \<subseteq> j_job_id ` set (jobs (snd (finalize cfg clk k w c token r m)))"
    by (cases rule: finalize_cases [of cfg clk k w c token r m])
      (simp_all add: store_result_def Let_def ids_update_rows)
qed (simp_all add: finalize_def store_result_def Let_def split: sum.splits option.splits payload.splits prod.splits)

text \<open>Expiry and deletion drop the rows and the files of whole jobs.\<close>

lemma fold_expire_store:
  "artifacts (fold expire_job ks m) = filter (\<lambda>f. f_job_id f \<notin> set ks) (artifacts m)
   \<and> (\<forall>p. (\<forall>f \<in> set (artifacts m). f_job_id f \<in> set ks \<longrightarrow> f_stored_path f \<noteq> p) \<longrightarrow>
        files (fold expire_job ks m) p = files m p)"
proof (induction ks arbitrary: m)
  case (Cons k ks)
  have one: "artifacts (expire_job k m) = filter (\<lambda>f. f_job_id f \<noteq> k) (artifacts m)"
    by (simp add: expire_job_def delete_rows_def)
  have same: "files (expire_job k m) p = files m p" if "\<forall>f \<in> set (artifacts m). f_job_id f = k \<longrightarrow> f_stored_path f \<noteq> p" for p
    using that by (auto simp: expire_job_def)
  show ?case
    using Cons [of "expire_job k m"] by (auto simp: one same conj_commute intro: filter_cong)
qed simp

lemma keeps_expire:
  assumes "manager_inv m"
  shows "keeps_store cfg lib m (snd (expire_observations now m))"
  unfolding keeps_store_def
proof (intro impI conjI ballI)
  let ?ks = "map j_job_id (filter (retention_expired now m) (jobs m))"
  have m': "snd (expire_observations now m) = fold expire_job ?ks m" by (simp add: expire_observations_def Let_def)
  note fold = fold_expire_store [of ?ks m]
  show "\<exists>P. artifacts (snd (expire_observations now m)) = filter P (artifacts m)"
    unfolding m' using fold by blast
  assume ok: "store_ok cfg lib m"
  fix f assume "f \<in> set (artifacts (snd (expire_observations now m)))"
  then have f: "f \<in> set (artifacts m)" "f_job_id f \<notin> set ?ks" unfolding m' using fold by simp_all
  have path: "f_stored_path g = [f_job_id g, f_attempt_id g, f_name g]" if "g \<in> set (artifacts m)" for g
    using ok that by (simp add: store_ok_def artifact_stored_def)
  show "files (snd (expire_observations now m)) (f_stored_path f) = files m (f_stored_path f)"
    unfolding m' using fold path f by (metis list.inject)
  obtain j where "job_row_of m (f_job_id f) = Some j" using ok f(1) by (auto simp: store_ok_def artifact_stored_def)
  from expire_row [OF assms this]
  show "job_row_of (snd (expire_observations now m)) (f_job_id f) \<noteq> None" by simp
qed

lemma keeps_trans_same:
  assumes "keeps_store cfg lib m m1" "artifacts m' = artifacts m1" "files m' = files m1"
    "j_job_id ` set (jobs m1) \<subseteq> j_job_id ` set (jobs m')"
  shows "keeps_store cfg lib m m'"
  using assms unfolding keeps_store_def job_row_of_def find_row_None by auto

lemma sweep_keeping [keeping]: "manager_inv m \<Longrightarrow> keeps_store cfg lib m (snd (sweep_once cfg clk m))"
  by (rule keeps_trans_same [OF keeps_expire])
    (auto simp: sweep_once_def Let_def sweep_jobs_def ids_update_rows)

lemma view_keeping [keeping]: "manager_inv m \<Longrightarrow> keeps_store cfg lib m (snd (job_view cfg clk k m))"
  using keeps_expire by (auto simp: job_view_def Let_def split: option.splits)

lemma download_keeping [keeping]: "manager_inv m \<Longrightarrow> keeps_store cfg lib m (snd (get_artifact clk k i m))"
  using keeps_expire by (auto simp: get_artifact_def Let_def split: option.splits)

lemma delete_keeping [keeping]:
  assumes "manager_inv m"
  shows "keeps_store cfg lib m (snd (delete_job k m))"
proof (cases "\<exists>row. job_row_of m k = Some row \<and> terminal (j_state row)")
  case False
  then have "snd (delete_job k m) = m" by (auto simp: delete_job_def split: option.splits)
  then show ?thesis by (simp add: keeps_same)
next
  case True
  then obtain row where row: "job_row_of m k = Some row" "terminal (j_state row)" by blast
  let ?m = "snd (delete_job k m)"
  have art: "artifacts ?m = filter (\<lambda>f. f_job_id f \<noteq> k) (artifacts m)"
    using row by (simp add: delete_job_def Let_def delete_rows_def)
  have kept: "files ?m p = files m p" if "p \<noteq> []" "hd p \<noteq> k" "\<forall>f \<in> set (artifacts m). f_job_id f = k \<longrightarrow> f_stored_path f \<noteq> p" for p
    using row that by (auto simp: delete_job_def Let_def)
  have jobs: "job_row_of ?m i = job_row_of m i" if "i \<noteq> k" for i
    using row that by (simp add: delete_job_def Let_def) (simp add: job_row_of_def)
  show ?thesis
    unfolding keeps_store_def
  proof (intro impI conjI ballI)
    show "\<exists>P. artifacts ?m = filter P (artifacts m)" using art by blast
    assume ok: "store_ok cfg lib m"
    fix f assume "f \<in> set (artifacts ?m)"
    then have f: "f \<in> set (artifacts m)" "f_job_id f \<noteq> k" unfolding art by simp_all
    have path: "f_stored_path g = [f_job_id g, f_attempt_id g, f_name g]" if "g \<in> set (artifacts m)" for g
      using ok that by (simp add: store_ok_def artifact_stored_def)
    show "files ?m (f_stored_path f) = files m (f_stored_path f)"
      using path f by (intro kept) auto
    have "job_row_of m (f_job_id f) \<noteq> None" using ok f(1) by (auto simp: store_ok_def artifact_stored_def)
    then show "job_row_of ?m (f_job_id f) \<noteq> None" using jobs f(2) by simp
  qed
qed

lemma result_keeping [keeping]:
  assumes "manager_inv m"
  shows "keeps_store cfg lib m (snd (job_result cfg clk k m))"
proof -
  let ?m1 = "snd (expire_observations (clk 0) m)"
  have eq: "snd (job_result cfg clk k m) = snd (job_view cfg (\<lambda>i. clk (Suc i)) k ?m1)"
    by (auto simp: job_result_def split: prod.splits sum.splits option.splits)
  have m2: "snd (job_view cfg (\<lambda>i. clk (Suc i)) k ?m1) = snd (expire_observations (clk (Suc 0)) ?m1)"
    by (simp add: job_view_def Let_def split: option.splits)
  have inv1: "manager_inv ?m1" by (rule inv_expire_observations [OF assms])
  have k1: "keeps_store cfg lib m ?m1" by (rule keeps_expire [OF assms])
  have k2: "keeps_store cfg lib ?m1 (snd (expire_observations (clk (Suc 0)) ?m1))" by (rule keeps_expire [OF inv1])
  show ?thesis
    unfolding eq m2 keeps_store_def
  proof (intro impI)
    assume ok: "store_ok cfg lib m"
    have ok1: "store_ok cfg lib ?m1"
      by (rule store_ok_keep [OF ok assms inv1 expire_follow [OF assms] expire_fresh k1])
    show "(\<exists>P. artifacts (snd (expire_observations (clk (Suc 0)) ?m1)) = filter P (artifacts m)) \<and>
      (\<forall>f \<in> set (artifacts (snd (expire_observations (clk (Suc 0)) ?m1))).
         files (snd (expire_observations (clk (Suc 0)) ?m1)) (f_stored_path f) = files m (f_stored_path f)
         \<and> job_row_of (snd (expire_observations (clk (Suc 0)) ?m1)) (f_job_id f) \<noteq> None)"
      using k1 k2 ok ok1 unfolding keeps_store_def by (auto simp: filter_filter)
  qed
qed

section \<open>Storing an artifact\<close>

lemma store_ok_add:
  assumes ok: "store_ok cfg lib m" and inv: "manager_inv m"
  shows "store_ok cfg lib (snd (add_artifact cfg lib clk k w c att token r data m))"
proof (cases rule: add_artifact_cases [of cfg lib clk k w c att token r data m])
  case kept
  then show ?thesis using ok by simp
next
  case stored
  let ?m = "snd (add_artifact cfg lib clk k w c att token r data m)"
  obtain job a where chk: "job_row_of m k = Some job" "j_attempt_id job = Some att"
    "int (length data) = ar_bytes r" "sha256 lib data = ar_sha256 r" "artifact_name_ok (ar_name r)"
    "ar_media_type r \<in> set ARTIFACT_MEDIA_TYPES"
    "stored_bytes m k + ar_bytes r \<le> cache_bytes (j_budget job)"
    "count_rows (\<lambda>f. f_job_id f = k) (artifacts m) < max_artifacts_per_job cfg"
    "\<not> (\<exists>f \<in> set (artifacts m). f_job_id f = k \<and> f_name f = ar_name r)"
    using stored(1) by (rule artifact_check_storeD)
  have rows: "job_row_of ?m i = job_row_of m i" for i unfolding stored(2) by (simp add: job_row_of_def)
  have new: "artifact_stored lib ?m (artifact_row_for k att r)"
    unfolding artifact_stored_def rows using chk by (simp add: artifact_row_for_def stored(2))
  have old: "artifact_stored lib ?m f" if f: "f \<in> set (artifacts m)" for f
  proof -
    have st: "artifact_stored lib m f" using ok f by (simp add: store_ok_def)
    then have "f_stored_path f = [f_job_id f, f_attempt_id f, f_name f]" by (simp add: artifact_stored_def)
    moreover have "f_job_id f \<noteq> k \<or> f_name f \<noteq> ar_name r" using chk(9) f by blast
    ultimately have "files ?m (f_stored_path f) = files m (f_stored_path f)" by (auto simp: stored(2))
    with st show ?thesis unfolding artifact_stored_def rows by auto
  qed
  have "distinct (map (\<lambda>f. (f_job_id f, f_name f)) (artifacts ?m))"
    using ok chk(9) by (auto simp: store_ok_def stored(2) artifact_row_for_def)
  moreover have "within_limits cfg ?m"
    unfolding within_limits_def rows
  proof (intro allI impI)
    fix i j assume j: "job_row_of m i = Some j"
    have lim: "stored_bytes m i \<le> cache_bytes (j_budget j)"
      "count_rows (\<lambda>f. f_job_id f = i) (artifacts m) \<le> max_artifacts_per_job cfg"
      using ok j by (auto simp: store_ok_def within_limits_def)
    show "stored_bytes ?m i \<le> cache_bytes (j_budget j)
        \<and> count_rows (\<lambda>f. f_job_id f = i) (artifacts ?m) \<le> max_artifacts_per_job cfg"
      using lim chk(1,7,8) j by (auto simp: stored(2) stored_bytes_def artifact_row_for_def)
  qed
  ultimately show ?thesis using old new by (auto simp: store_ok_def stored(2))
qed

lemma store_ok_step:
  assumes "store_ok cfg lib m" "manager_inv m" "manager_step cfg lib m clk m'"
  shows "store_ok cfg lib m'"
proof -
  have "keeps_store cfg lib m m' \<or> (\<exists>k w c att token ref data. m' = snd (add_artifact cfg lib clk k w c att token ref data m))"
    using assms(3)
  proof (cases rule: manager_step.cases)
    case (step_artifact k w c att token ref data)
    then show ?thesis by blast
  qed (simp_all only: keeping assms(2) simp_thms)
  then show ?thesis
    using store_ok_add [OF assms(1,2)]
      store_ok_keep [OF assms(1,2) manager_system.step_inv [OF assms(3,2)] step_follow [OF assms(2,3)]
        step_fresh [OF assms(3)]]
    by blast
qed

interpretation artifact_store: invariant_system "\<lambda>m. m = empty_manager" "manager_step cfg lib"
    "\<lambda>m. manager_inv m \<and> store_ok cfg lib m" for cfg lib
proof
  show "manager_inv m \<and> store_ok cfg lib m" if "m = empty_manager" for m
    using that manager_inv_empty by (auto simp: store_ok_def within_limits_def job_row_of_def empty_manager_def)
  show "manager_inv m' \<and> store_ok cfg lib m'"
    if "manager_step cfg lib m clk m'" "manager_inv m \<and> store_ok cfg lib m" for m clk m'
    using that manager_system.step_inv store_ok_step by blast
qed

lemma reachable_store: "manager_reachable cfg lib m \<Longrightarrow> store_ok cfg lib m"
  using artifact_store.reach_inv unfolding manager_reachable_def by blast

section \<open>Example\<close>

definition ex_ref :: artifact_ref where
  "ex_ref = \<lparr> ar_artifact_id = ''artifact-1'', ar_name = ''report.json'', ar_media_type = ''application/json'',
     ar_bytes = 3, ar_sha256 = replicate 64 (char_of (54 :: nat)), ar_schema_version = 1 \<rparr>"

definition ex_stored :: manager where
  "ex_stored = ex_running\<lparr> files := [[''job-0001'', ''att-0001'', ''report.json''] \<mapsto> [1, 2, 3]],
     artifacts := [artifact_row_for ''job-0001'' ''att-0001'' ex_ref] \<rparr>"

lemma ex_upload:
  "add_artifact ex_cfg ex_lib (\<lambda>_. 110) ''job-0001'' ''w1'' ''secret1'' ''att-0001'' ''tok'' ex_ref [1, 2, 3] ex_running
    = (Inr ex_ref, ex_stored)"
proof -
  have "artifact_check ex_cfg ex_lib 110 ''job-0001'' ''w1'' ''secret1'' ''att-0001'' ''tok'' ex_ref [1, 2, 3] ex_running
      = Inr True"
    by (simp add: artifact_check_def ex_state_defs job_row_of_def attempt_row_of_def ex_ref_def ex_lib_def
        artifact_name_ok_def id_char_def alnum_char_def digit_char_def ARTIFACT_MEDIA_TYPES_def
        stored_bytes_def default_limits_def)
      (simp add: ex_cfg_def)
  then show ?thesis
    by (simp add: add_artifact_def ex_stored_def ex_ref_def) (simp add: ex_state_defs)
qed

lemma ex_reachable_stored: "manager_reachable ex_cfg ex_lib ex_stored"
proof -
  have "manager_step ex_cfg ex_lib ex_running (\<lambda>_. 110)
      (snd (add_artifact ex_cfg ex_lib (\<lambda>_. 110) ''job-0001'' ''w1'' ''secret1'' ''att-0001'' ''tok'' ex_ref [1, 2, 3] ex_running))"
    by (rule step_artifact)
  then show ?thesis unfolding ex_upload snd_conv by (rule ex_extend [OF ex_reachable_running])
qed

lemma ex_stored_fields [simp]:
  "artifacts ex_stored = [artifact_row_for ''job-0001'' ''att-0001'' ex_ref]"
  "jobs ex_stored = jobs ex_running" "observations ex_stored = []"
  by (simp_all add: ex_stored_def ex_state_defs)

section \<open>Properties\<close>

lemma artifact_name_safe:
  "artifact_name_ok s \<Longrightarrow> s \<noteq> [] \<and> CHR ''/'' \<notin> set s \<and> s \<noteq> ''.'' \<and> s \<noteq> ''..''"
  by (cases s) (auto simp: artifact_name_ok_def id_char_def alnum_char_def digit_char_def list_all_iff)

text \<open>C1. In every state the manager can reach, the tables agree with each other. The keys of all five
  tables are unique. A job that is running or asked to stop is carried by an attempt of its worker,
  a queued job has none, and only a job in a settled state (completed, partial, failed or cancelled)
  holds a result. Every attempt is carried by an existing job and is finalized exactly when the
  state of that job is settled (so the attempt of a job that runs or was lost stays open). Every
  deadline is the creation time plus the allowance, parents come before their children, every
  observation belongs to a settled observe job, and every artifact to an existing job and to the
  attempt that carries it.\<close>

theorem manager_state_consistent:
  assumes "manager_reachable cfg lib m"
  shows "manager_inv m
    \<and> (\<forall>f \<in> set (artifacts m). \<exists>j. job_row_of m (f_job_id f) = Some j \<and> j_attempt_id j = Some (f_attempt_id f))"
  using reachable_inv [OF assms] reachable_store [OF assms] by (simp add: store_ok_def artifact_stored_def)

theorem manager_state_consistent_witness:
  "manager_inv ex_stored \<and> length (artifacts ex_stored) = 1
   \<and> (\<exists>j. job_row_of ex_stored ''job-0001'' = Some j \<and> j_attempt_id j = Some ''att-0001'')"
  using manager_state_consistent [OF ex_reachable_stored] by (auto simp: artifact_row_for_def)

text \<open>C18. Every recorded artifact is on disk, and it is the file that was described: in every
  reachable state its path is job / attempt / name with a name that holds no separator and is not a
  dot name, the file there has the recorded size and SHA-256, its media type is an allowed one, and
  it belongs to the attempt that carries its job.\<close>

theorem artifacts_are_on_disk:
  assumes "manager_reachable cfg lib m" "f \<in> set (artifacts m)"
  shows "f_stored_path f = [f_job_id f, f_attempt_id f, f_name f]
    \<and> CHR ''/'' \<notin> set (f_name f) \<and> f_name f \<notin> {[], ''.'', ''..''} \<and> f_media_type f \<in> set ARTIFACT_MEDIA_TYPES
    \<and> (\<exists>data. files m (f_stored_path f) = Some data \<and> int (length data) = f_bytes f \<and> sha256 lib data = f_sha256 f)
    \<and> (\<exists>j. job_row_of m (f_job_id f) = Some j \<and> j_attempt_id j = Some (f_attempt_id f))"
proof -
  have "artifact_stored lib m f" using reachable_store [OF assms(1)] assms(2) by (simp add: store_ok_def)
  then show ?thesis using artifact_name_safe [of "f_name f"] unfolding artifact_stored_def by auto
qed

theorem artifacts_are_on_disk_witness:
  "\<exists>data. files ex_stored [''job-0001'', ''att-0001'', ''report.json''] = Some data \<and> length data = 3"
  using artifacts_are_on_disk [OF ex_reachable_stored, of "artifact_row_for ''job-0001'' ''att-0001'' ex_ref"]
  by (auto simp: artifact_row_for_def ex_ref_def)

text \<open>A job's artifacts are bounded whatever the worker uploads: together they are at most the
  \<open>cache_bytes\<close> of its budget, at most \<open>max_artifacts_per_job\<close> in number, and no two artifacts of a
  job have the same name.\<close>

theorem artifacts_are_bounded:
  assumes "manager_reachable cfg lib m" "job_row_of m k = Some j"
  shows "stored_bytes m k \<le> cache_bytes (j_budget j)
    \<and> count_rows (\<lambda>f. f_job_id f = k) (artifacts m) \<le> max_artifacts_per_job cfg
    \<and> distinct (map f_name (filter (\<lambda>f. f_job_id f = k) (artifacts m)))"
proof -
  have ok: "store_ok cfg lib m" by (rule reachable_store [OF assms(1)])
  have "distinct (map f_name (filter (\<lambda>f. f_job_id f = k) fs))"
    if "distinct (map (\<lambda>f. (f_job_id f, f_name f)) fs)" for fs
    using distinct_map_filterI [OF that, of "\<lambda>f. f_job_id f = k"] by (auto simp: distinct_map inj_on_def)
  with ok assms(2) show ?thesis by (auto simp: store_ok_def within_limits_def)
qed

theorem artifacts_are_bounded_witness:
  "stored_bytes ex_stored ''job-0001'' = 3 \<and> stored_bytes ex_stored ''job-0001'' \<le> cache_bytes default_limits"
proof -
  have "job_row_of ex_stored ''job-0001'' = Some (hd (jobs ex_running))"
    by (simp add: job_row_of_def) (simp add: ex_state_defs)
  from artifacts_are_bounded [OF ex_reachable_stored this] show ?thesis
    by (simp add: stored_bytes_def artifact_row_for_def ex_ref_def) (simp add: ex_state_defs)
qed

end
