(* ===== verification/Housekeeping.thy ===== *)
theory Housekeeping
  imports Storage
begin

text \<open>
  Reading artifacts back, deleting jobs, the retention of observations and the sweeper.
\<close>

section \<open>Reading back\<close>

lemma added_row:
  assumes "add_artifact cfg lib clk k w c att token r data m = (Inr r', m')"
  shows "r' = r" "\<exists>f \<in> set (artifacts m'). f_artifact_id f = ar_artifact_id r \<and> f_job_id f = k \<and> ref_matches f r"
proof -
  obtain b where b: "artifact_check cfg lib (clk 0) k w c att token r data m = Inr b"
    using assms by (cases "artifact_check cfg lib (clk 0) k w c att token r data m") (auto simp: add_artifact_def)
  show "r' = r" using assms b by (cases b) (auto simp: add_artifact_def)
  show "\<exists>f \<in> set (artifacts m'). f_artifact_id f = ar_artifact_id r \<and> f_job_id f = k \<and> ref_matches f r"
  proof (cases b)
    case True
    then have "m' = m\<lparr> files := (files m)([k, att, ar_name r] \<mapsto> data),
        artifacts := artifacts m @ [artifact_row_for k att r] \<rparr>"
      using assms b by (auto simp: add_artifact_def)
    then show ?thesis by (auto simp: artifact_row_for_def ref_matches_def)
  next
    case False
    have "\<exists>f. find_row f_artifact_id (ar_artifact_id r) (artifacts m) = Some f \<and> f_job_id f = k \<and> ref_matches f r"
      using b False by (auto simp: artifact_check_def split: option.splits if_splits)
    moreover have "m' = m" using assms b False by (auto simp: add_artifact_def)
    ultimately show ?thesis by (auto dest!: find_row_SomeD)
  qed
qed

lemma expire_artifacts:
  "artifacts (snd (expire_observations now m))
    = filter (\<lambda>f. f_job_id f \<notin> set (map j_job_id (filter (retention_expired now m) (jobs m)))) (artifacts m)"
  unfolding expire_observations_def Let_def snd_conv using fold_expire_store by blast

lemma expired_ids:
  assumes "manager_inv m" "job_row_of m k = Some j"
  shows "k \<in> set (map j_job_id (filter (retention_expired now m) (jobs m))) \<longleftrightarrow> retention_expired now m j"
proof -
  have j: "j \<in> set (jobs m)" "j_job_id j = k" using assms by (simp_all add: job_row_in)
  have same: "j' = j" if "j' \<in> set (jobs m)" "j_job_id j' = k" for j'
    using job_unique [OF assms(1) that(1) j(1)] that(2) j(2) by simp
  show ?thesis
  proof
    assume "k \<in> set (map j_job_id (filter (retention_expired now m) (jobs m)))"
    then obtain j' where "j' \<in> set (jobs m)" "j_job_id j' = k" "retention_expired now m j'" by auto
    with same show "retention_expired now m j" by blast
  next
    assume "retention_expired now m j"
    with j show "k \<in> set (map j_job_id (filter (retention_expired now m) (jobs m)))" by force
  qed
qed

lemma expire_store_ok:
  "store_ok cfg lib m \<Longrightarrow> manager_inv m \<Longrightarrow> store_ok cfg lib (snd (expire_observations now m))"
  by (rule store_ok_keep [OF _ _ inv_expire_observations expire_follow expire_fresh keeps_expire])

section \<open>Observations\<close>

lemma fold_expire_observations:
  "observations (fold expire_job ks m) = filter (\<lambda>ob. o_job_id ob \<notin> set ks) (observations m)"
  by (induction ks arbitrary: m) (auto simp: expire_job_def delete_rows_def intro: filter_cong)

lemma expire_observation_rows:
  "observations (snd (expire_observations now m))
    = filter (\<lambda>ob. o_job_id ob \<notin> set (map j_job_id (filter (retention_expired now m) (jobs m)))) (observations m)"
  unfolding expire_observations_def Let_def snd_conv by (rule fold_expire_observations)

lemma fold_expire_files:
  "f \<in> set (artifacts m) \<Longrightarrow> f_job_id f \<in> set ks \<Longrightarrow> files (fold expire_job ks m) (f_stored_path f) = None"
proof (induction ks arbitrary: m)
  case (Cons k ks)
  have gone: "files m p = None \<Longrightarrow> files (fold expire_job ks m) p = None" for m p and ks
    by (induction ks arbitrary: m) (auto simp: expire_job_def)
  show ?case
  proof (cases "f_job_id f = k")
    case True
    then have "files (expire_job k m) (f_stored_path f) = None" using Cons.prems by (auto simp: expire_job_def)
    then show ?thesis by (simp add: gone)
  next
    case False
    then have "f \<in> set (artifacts (expire_job k m))" using Cons.prems by (simp add: expire_job_def set_delete_rows)
    then show ?thesis using Cons False by simp
  qed
qed simp

lemma retention_after:
  assumes "manager_inv m" "job_row_of (snd (expire_observations now m)) k = Some j'"
  shows "\<not> retention_expired now (snd (expire_observations now m)) j'"
proof -
  let ?m = "snd (expire_observations now m)"
  obtain j where j: "job_row_of m k = Some j"
    using expire_row_None [of m k now] assms(2) by (cases "job_row_of m k") auto
  have id: "j_job_id j = k" using j assms(1) by (simp add: job_row_in)
  have j': "j' = (if retention_expired now m j then erased j else j)"
    using expire_row [OF assms(1) j, of now] assms(2) by simp
  note ids = expired_ids [OF assms(1) j, of now]
  show ?thesis
  proof (cases "retention_expired now m j")
    case True
    then have "k \<notin> o_job_id ` set (observations ?m)"
      using ids unfolding expire_observation_rows set_filter by blast
    then have "find_row o_job_id k (observations ?m) = None" by (simp add: find_row_None)
    with True id show ?thesis by (simp add: j' retention_expired_def erased_def)
  next
    case False
    have "find_row o_job_id k (filter (\<lambda>ob. o_job_id ob \<notin> S) t) = find_row o_job_id k t" if "k \<notin> S"
      for S and t :: "observation_row list" using that by (induction t) auto
    then have "find_row o_job_id k (observations ?m) = find_row o_job_id k (observations m)"
      using ids False unfolding expire_observation_rows by blast
    moreover have "j' = j" using j' False by simp
    ultimately show ?thesis using False id by (simp add: retention_expired_def)
  qed
qed

section \<open>Properties\<close>

text \<open>C19. What a worker uploaded can be read back: as long as the job has not been erased by
  retention, downloading an accepted artifact, also one accepted as a repetition, returns the same
  description and a file of the described size and SHA-256.\<close>

theorem uploaded_artifact_is_downloadable:
  assumes "manager_reachable cfg lib m"
    and "add_artifact cfg lib clk k w c att token r data m = (Inr r', m')"
    and "job_row_of m' k = Some j" "\<not> retention_expired (clk' 0) m' j"
  shows "r' = r \<and> (\<exists>path d m''. get_artifact clk' k (ar_artifact_id r) m' = (Inr (r, path), m'')
    \<and> files m'' path = Some d \<and> int (length d) = ar_bytes r \<and> sha256 lib d = ar_sha256 r)"
proof -
  note inv = reachable_inv [OF assms(1)]
  have m': "m' = snd (add_artifact cfg lib clk k w c att token r data m)" using assms(2) by simp
  have inv': "manager_inv m'" unfolding m' by (rule inv_add_artifact [OF inv])
  have ok': "store_ok cfg lib m'" unfolding m' by (rule store_ok_add [OF reachable_store [OF assms(1)] inv])
  let ?m = "snd (expire_observations (clk' 0) m')"
  obtain f where f: "f \<in> set (artifacts m')" "f_artifact_id f = ar_artifact_id r" "f_job_id f = k" "ref_matches f r"
    using added_row(2) [OF assms(2)] by blast
  have fm: "f \<in> set (artifacts ?m)"
    using f expired_ids [OF inv' assms(3), of "clk' 0"] assms(4) by (simp add: expire_artifacts)
  have "artifact_stored lib ?m f" using expire_store_ok [OF ok' inv'] fm by (simp add: store_ok_def)
  then obtain d where d: "files ?m (f_stored_path f) = Some d" "int (length d) = f_bytes f" "sha256 lib d = f_sha256 f"
    by (auto simp: artifact_stored_def)
  have find: "find (\<lambda>f. f_artifact_id f = ar_artifact_id r \<and> f_job_id f = k) (artifacts ?m) = Some f"
  proof (cases "find (\<lambda>f. f_artifact_id f = ar_artifact_id r \<and> f_job_id f = k) (artifacts ?m)")
    case None
    then show ?thesis using fm f by (auto simp: find_None_iff)
  next
    case (Some g)
    then have g: "g \<in> set (artifacts ?m)" "f_artifact_id g = ar_artifact_id r" by (auto simp: find_Some_iff)
    have "distinct (map f_artifact_id (artifacts ?m))"
      using inv_expire_observations [OF inv'] by (rule inv_keys)
    then have "g = f" using g fm f(2) by (simp add: distinct_map inj_on_def)
    with Some show ?thesis by simp
  qed
  have "job_row_of ?m k = Some j" using expire_row [OF inv' assms(3), of "clk' 0"] assms(4) by simp
  then have "get_artifact clk' k (ar_artifact_id r) m' = (Inr (r, f_stored_path f), ?m)"
    using find d f by (simp add: get_artifact_def Let_def ref_matches_def)
  then show ?thesis using d f(4) added_row(1) [OF assms(2)] by (auto simp: ref_matches_def)
qed

theorem uploaded_artifact_is_downloadable_witness:
  "\<exists>path d m''. get_artifact (\<lambda>_. 111) ''job-0001'' ''artifact-1'' ex_stored = (Inr (ex_ref, path), m'')
    \<and> files m'' path = Some d \<and> int (length d) = 3"
proof -
  have row: "job_row_of ex_stored ''job-0001'' = Some (hd (jobs ex_running))"
    by (simp add: job_row_of_def) (simp add: ex_state_defs)
  have "\<not> retention_expired ((\<lambda>_. 111) 0) ex_stored (hd (jobs ex_running))"
    by (simp add: retention_expired_def ex_state_defs)
  from uploaded_artifact_is_downloadable [OF ex_reachable_running ex_upload row this]
  show ?thesis by (auto simp: ex_ref_def)
qed

text \<open>Deleting a job leaves nothing of it: a deletion that succeeds was of a terminal job, and
  afterwards there is no row of the job, of its attempts, artifacts or observation and no file under
  its directory, while the rows of every other job and its files are what they were.\<close>

theorem deletion_leaves_no_trace:
  assumes "manager_reachable cfg lib m" "delete_job k m = (Inr n, m')"
  shows "(\<exists>row. job_row_of m k = Some row \<and> terminal (j_state row))
    \<and> n = count_rows (\<lambda>f. f_job_id f = k) (artifacts m)
    \<and> (\<forall>i. job_row_of m' i = (if i = k then None else job_row_of m i))
    \<and> (\<forall>a. a \<in> set (attempts m') \<longleftrightarrow> a \<in> set (attempts m) \<and> a_job_id a \<noteq> k)
    \<and> (\<forall>f. f \<in> set (artifacts m') \<longleftrightarrow> f \<in> set (artifacts m) \<and> f_job_id f \<noteq> k)
    \<and> (\<forall>ob. ob \<in> set (observations m') \<longleftrightarrow> ob \<in> set (observations m) \<and> o_job_id ob \<noteq> k)
    \<and> (\<forall>p. p \<noteq> [] \<longrightarrow> files m' p = (if hd p = k then None else files m p))"
proof -
  obtain row where row: "job_row_of m k = Some row" "terminal (j_state row)"
    using assms(2) by (auto simp: delete_job_def split: option.splits if_splits)
  have m': "m' = snd (delete_job k m)" using assms(2) by simp
  have n: "n = count_rows (\<lambda>f. f_job_id f = k) (artifacts m)"
    using assms(2) row by (simp add: delete_job_def Let_def count_rows_def)
  have paths: "f_stored_path f \<noteq> [] \<and> hd (f_stored_path f) = k" if "f \<in> set (artifacts m)" "f_job_id f = k" for f
    using reachable_store [OF assms(1)] that by (auto simp: store_ok_def artifact_stored_def)
  have files: "files m' p = (if hd p = k then None else files m p)" if "p \<noteq> []" for p
    using row that paths by (auto simp: m' delete_job_def Let_def)
  have jobs: "job_row_of m' i = (if i = k then None else job_row_of m i)" for i
    using row by (simp add: m' delete_job_def Let_def) (simp add: job_row_of_def)
  show ?thesis
    using row n files jobs
    by (simp add: m') (simp add: delete_job_def Let_def set_delete_rows)
qed

theorem deletion_leaves_no_trace_witness:
  "job_row_of (snd (delete_job ''job-0001'' ex_failed)) ''job-0001'' = None"
proof -
  have "delete_job ''job-0001'' ex_failed = (Inr 0, snd (delete_job ''job-0001'' ex_failed))"
    by (simp add: delete_job_def ex_failed_eq ex_state_defs job_row_of_def Let_def)
  from deletion_leaves_no_trace [OF ex_reachable_failed this] show ?thesis by simp
qed

text \<open>Retention erases what it must and nothing else: after a pass no stored observation is past
  its expiry, the expired jobs have no result, no artifact rows and no artifact files, every other
  job row is unchanged, and a second pass at the same time finds nothing to do.\<close>

theorem retention_is_complete:
  assumes "manager_reachable cfg lib m" "expire_observations now m = (n, m')"
  shows "(\<forall>ob \<in> set (observations m'). now < o_expires_at ob)
    \<and> (\<forall>k j. job_row_of m k = Some j \<longrightarrow>
         (if retention_expired now m j
          then (\<exists>j'. job_row_of m' k = Some j' \<and> j_result j' = None \<and> j_state j' = j_state j)
            \<and> (\<forall>f \<in> set (artifacts m). f_job_id f = k \<longrightarrow> f \<notin> set (artifacts m') \<and> files m' (f_stored_path f) = None)
          else job_row_of m' k = Some j))
    \<and> expire_observations now m' = (0, m')"
proof -
  note inv = reachable_inv [OF assms(1)]
  have m': "m' = snd (expire_observations now m)" using assms(2) by simp
  have inv': "manager_inv m'" unfolding m' by (rule inv_expire_observations [OF inv])
  have live: "now < o_expires_at ob" if ob: "ob \<in> set (observations m')" for ob
  proof -
    have om: "ob \<in> set (observations m)" using ob by (simp add: m' expire_observation_rows)
    then obtain j where j: "j \<in> set (jobs m)" "j_job_id j = o_job_id ob" "j_kind j = DiscordObserve"
      using inv by (auto simp: manager_inv_def observations_ok_def)
    have "o_job_id ob \<notin> set (map j_job_id (filter (retention_expired now m) (jobs m)))"
      using ob by (simp add: m' expire_observation_rows)
    then have "\<not> retention_expired now m j" using j by force
    moreover have "find_row o_job_id (j_job_id j) (observations m) = Some ob"
      using om j(2) by (simp add: find_row_eq_Some inv_keys(6) [OF inv])
    ultimately show ?thesis using j(3) by (simp add: retention_expired_def)
  qed
  have none: "filter (retention_expired now m') (jobs m') = []"
    using retention_after [OF inv] inv' by (auto simp: filter_empty_conv m' job_row_in [OF inv', unfolded m'])
  have again: "expire_observations now m' = (0, m')"
    by (simp add: expire_observations_def none)
  have gone: "f \<notin> set (artifacts m') \<and> files m' (f_stored_path f) = None"
    if "job_row_of m k = Some j" "retention_expired now m j" "f \<in> set (artifacts m)" "f_job_id f = k" for k j f
  proof
    have k: "f_job_id f \<in> set (map j_job_id (filter (retention_expired now m) (jobs m)))"
      using expired_ids [OF inv that(1), of now] that by simp
    then show "f \<notin> set (artifacts m')" unfolding m' expire_artifacts by simp
    show "files m' (f_stored_path f) = None"
      unfolding m' expire_observations_def Let_def snd_conv by (rule fold_expire_files [OF that(3) k])
  qed
  have rows: "job_row_of m' k = Some (if retention_expired now m j then erased j else j)"
    if "job_row_of m k = Some j" for k j
    unfolding m' by (rule expire_row [OF inv that])
  show ?thesis
    by (intro conjI ballI allI impI live again) (auto simp: rows gone)
qed

theorem retention_is_complete_witness:
  "expire_observations 200 (snd (expire_observations 200 ex_failed)) = (0, snd (expire_observations 200 ex_failed))"
  by (rule retention_is_complete [OF ex_reachable_failed prod.collapse [symmetric], THEN conjunct2, THEN conjunct2])

text \<open>The sweeper leaves nothing overdue: after it ran, no running job has a lease that had
  ended by then, no queued job is past its deadline and no online worker has a stale heartbeat; the
  two counts it reports are the jobs it lost.\<close>

theorem sweep_is_complete:
  assumes "manager_reachable cfg lib m" "sweep_once cfg clk m = (report, m')"
  shows "(\<forall>j \<in> set (jobs m'). (j_state j = Running \<longrightarrow> \<not> lease_lapsed (clk 1) m' j)
        \<and> (j_state j = Queued \<longrightarrow> clk 1 \<le> j_deadline_at j))
    \<and> (\<forall>w \<in> set (workers m'). w_state w = Online \<longrightarrow> clk 1 - offline_after_seconds cfg \<le> w_last_heartbeat_at w)
    \<and> count_rows (\<lambda>j. j_state j = Lost) (jobs m')
        = count_rows (\<lambda>j. j_state j = Lost) (jobs m) + sw_lost report + sw_expired_queued report"
proof -
  let ?m = "snd (expire_observations (clk 0) m)"
  have m': "m' = snd (sweep_once cfg clk m)" and report: "report = fst (sweep_once cfg clk m)"
    using assms(2) by simp_all
  have jobs: "jobs m' = sweep_jobs (clk 1) ?m" "attempts m' = attempts m"
    by (simp_all add: m' sweep_once_def Let_def)
  have lapse: "lease_lapsed (clk 1) m' j = lease_lapsed (clk 1) ?m j0"
    if "j_job_id j = j_job_id j0" "j_attempt_id j = j_attempt_id j0" for j j0
    using that jobs(2) by (simp add: lease_lapsed_def)
  have lapse': "lease_lapsed (clk (Suc 0)) m' = lease_lapsed (clk (Suc 0)) ?m"
    using lapse [OF refl refl] by (simp add: fun_eq_iff)
  have overdue: "(j_state j = Running \<longrightarrow> \<not> lease_lapsed (clk 1) m' j) \<and> (j_state j = Queued \<longrightarrow> clk 1 \<le> j_deadline_at j)"
    if "j \<in> set (jobs m')" for j
    using that unfolding jobs sweep_jobs_def set_update_rows
    by (auto simp: lapse' split: if_splits)
  have lost_eq: "count_rows (\<lambda>j. j_state j = Lost) (jobs ?m) = count_rows (\<lambda>j. j_state j = Lost) (jobs m)"
  proof -
    have "map j_state (jobs (fold expire_job ks m)) = map j_state (jobs m)" for ks
      by (induction ks arbitrary: m) (simp_all add: expire_job_def update_rows_def comp_def if_distrib cong: if_cong)
    then have "map j_state (jobs ?m) = map j_state (jobs m)" by (simp add: expire_observations_def Let_def)
    then have "length (filter (\<lambda>s. s = Lost) (map j_state (jobs ?m))) = length (filter (\<lambda>s. s = Lost) (map j_state (jobs m)))"
      by simp
    then show ?thesis by (simp add: count_rows_def filter_map comp_def)
  qed
  have count: "count_rows (\<lambda>j. j_state j = Lost)
       (update_rows (\<lambda>j. j_state j = Queued \<and> j_deadline_at j < now)
         (\<lambda>j. j\<lparr> j_state := Lost, j_stop_reason := Some ''deadline_expired'' \<rparr>)
       (update_rows (\<lambda>j. j_state j = Running \<and> L j)
         (\<lambda>j. j\<lparr> j_state := Lost, j_stop_reason := Some ''lease_expired'' \<rparr>) js))
     = count_rows (\<lambda>j. j_state j = Lost) js + count_rows (\<lambda>j. j_state j = Running \<and> L j) js
       + count_rows (\<lambda>j. j_state j = Queued \<and> j_deadline_at j < now) js" for now L js
    by (induction js) auto
  have "count_rows (\<lambda>j. j_state j = Lost) (jobs m')
        = count_rows (\<lambda>j. j_state j = Lost) (jobs m) + sw_lost report + sw_expired_queued report"
    unfolding jobs sweep_jobs_def count lost_eq report by (simp add: sweep_once_def Let_def)
  moreover have "\<forall>w \<in> set (workers m'). w_state w = Online \<longrightarrow> clk 1 - offline_after_seconds cfg \<le> w_last_heartbeat_at w"
    by (auto simp: m' sweep_once_def Let_def set_update_rows)
  ultimately show ?thesis using overdue by blast
qed

theorem sweep_is_complete_witness:
  "count_rows (\<lambda>j. j_state j = Lost) (jobs (snd (sweep_once ex_cfg (\<lambda>_. 163) ex_running)))
    = sw_lost (fst (sweep_once ex_cfg (\<lambda>_. 163) ex_running)) + sw_expired_queued (fst (sweep_once ex_cfg (\<lambda>_. 163) ex_running))"
  using sweep_is_complete [OF ex_reachable_running prod.collapse [symmetric], of "\<lambda>_. 163"]
  by (simp add: ex_running_def ex_job_def new_job_row_def)

end
