(* ===== verification/Messages.thy ===== *)
theory Messages
  imports Prelude
begin

text \<open>
  The fixed sentences that \<open>src/src/ephy_worker/evidence.py\<close> puts into reasons and uncertainties, as
  lists of code points. They are compared when duplicates are dropped, so they are kept literally.
\<close>

definition msg_source_not_unique :: utext where
  "msg_source_not_unique =
    [115, 111, 117, 114, 99, 101, 32, 73, 68, 12364, 21462, 24471, 36039, 26009, 12392, 19968,
     24847, 12395, 23550, 24540, 12375, 12414, 12379, 12435, 65294]"

definition msg_status_open :: utext where
  "msg_status_open =
    [26412, 25991, 12434, 21033, 29992, 12391, 12365, 12394, 12356, 21462, 24471, 29366, 24907,
     12391, 12377, 65288]"

definition msg_status_close :: utext where
  "msg_status_close =
    [65289, 65294]"

definition msg_passage_not_unique :: utext where
  "msg_passage_not_unique =
    [112, 97, 115, 115, 97, 103, 101, 32, 73, 68, 12364, 25277, 20986, 26412, 25991, 12392,
     19968, 24847, 12395, 23550, 24540, 12375, 12414, 12379, 12435, 65294]"

definition msg_passage_elsewhere :: utext where
  "msg_passage_elsewhere =
    [112, 97, 115, 115, 97, 103, 101, 32, 73, 68, 12364, 25351, 23450, 115, 111, 117, 114, 99,
     101, 12395, 23646, 12375, 12390, 12356, 12414, 12379, 12435, 65294]"

definition msg_not_read :: utext where
  "msg_not_read =
    [12514, 12487, 12523, 12408, 36865, 20449, 12375, 12383, 35501, 21462, 31684, 22258, 12395,
     21547, 12414, 12428, 12414, 12379, 12435, 65294]"

definition msg_no_match :: utext where
  "msg_no_match =
    [24341, 29992, 12364, 35442, 24403, 112, 97, 115, 115, 97, 103, 101, 12398, 26412, 25991,
     12395, 19968, 33268, 12379, 12378, 65292, 31354, 30333, 24046, 12384, 12369, 12398, 19968,
     24847, 12394, 23550, 24540, 12418, 12354, 12426, 12414, 12379, 12435, 65294]"

definition msg_no_evidence :: utext where
  "msg_no_evidence =
    [21462, 24471, 12539, 35501, 21462, 28168, 12415, 26412, 25991, 12395, 19968, 33268, 12377,
     12427, 26681, 25312, 12364, 12354, 12426, 12414, 12379, 12435, 65294]"

definition msg_hash :: utext where
  "msg_hash =
    [21462, 24471, 26412, 25991, 104, 97, 115, 104, 12364, 19968, 33268, 65294]"

definition msg_shared_url :: utext where
  "msg_shared_url =
    [35201, 27714, 85, 82, 76, 12539, 26368, 32066, 85, 82, 76, 12539, 26126, 31034, 12373,
     12428, 12383, 36215, 28857, 85, 82, 76, 12364, 20849, 36890, 58, 32]"

definition msg_unknown_origin :: utext where
  "msg_unknown_origin =
    [36039, 26009, 12398, 36215, 28857, 12398, 29420, 31435, 24615, 12434, 30906, 35469, 12377,
     12427, 24773, 22577, 12364, 19981, 36275, 12375, 12390, 12356, 12427, 12383, 12417, 117,
     110, 107, 110, 111, 119, 110, 65294]"

definition msg_precision_a :: utext where
  "msg_precision_a =
    [25968, 20516, 12398, 31934, 24230, 12364, 19968, 33268, 12375, 12414, 12379, 12435, 65288,
     99, 108, 97, 105, 109, 12300]"

definition msg_precision_b :: utext where
  "msg_precision_b =
    [12301, 12395, 23550, 12375, 24341, 29992, 12399, 12300]"

definition msg_precision_c :: utext where
  "msg_precision_c =
    [12301, 65289, 65294]"

definition msg_precision_d :: utext where
  "msg_precision_d =
    [24341, 29992, 12398, 25968, 20516, 12434, 20024, 12417, 12383, 12426, 31934, 24230, 12434,
     21152, 12360, 12383, 12426, 12375, 12383, 99, 108, 97, 105, 109, 12399, 115, 117, 112,
     112, 111, 114, 116, 12392, 12375, 12390, 25201, 12356, 12414, 12379, 12435, 65294]"

definition msg_comparison :: utext where
  "msg_comparison =
    [99, 108, 97, 105, 109, 12364, 24341, 29992, 12424, 12426, 24375, 12356, 27604, 36611,
     34920, 29694, 65288, 21516, 31561, 12539, 20778, 20301, 12394, 12393, 65289, 12434, 20351,
     29992, 12375, 12390, 12356, 12414, 12377, 65294, 24341, 29992, 12364, 21516, 12376, 20197,
     19978, 12398, 24375, 12373, 12398, 27604, 36611, 12434, 31034, 12373, 12394, 12356, 12383,
     12417, 65292, 115, 117, 112, 112, 111, 114, 116, 12392, 12375, 12390, 25201, 12356, 12414,
     12379, 12435, 65294]"

definition msg_bad_claim_id :: utext where
  "msg_bad_claim_id =
    [29031, 21512, 32080, 26524, 12398, 99, 108, 97, 105, 109, 32, 73, 68, 12364, 19981, 26126,
     12539, 37325, 35079, 12539, 27424, 33853, 12375, 12390, 12356, 12427, 12383, 12417, 25505,
     29992, 12391, 12365, 12414, 12379, 12435, 65294]"

definition msg_bad_evidence_ids :: utext where
  "msg_bad_evidence_ids =
    [29031, 21512, 32080, 26524, 12364, 99, 108, 97, 105, 109, 12398, 20840, 101, 118, 105,
     100, 101, 110, 99, 101, 32, 73, 68, 12392, 19968, 24847, 12395, 23550, 24540, 12375,
     12394, 12356, 12383, 12417, 25505, 29992, 12391, 12365, 12414, 12379, 12435, 65294]"

definition msg_no_quote :: utext where
  "msg_no_quote =
    [20170, 22238, 12398, 35501, 21462, 31684, 22258, 12391, 65292, 26412, 25991, 12395, 19968,
     33268, 12377, 12427, 26377, 21177, 12394, 24341, 29992, 12434, 30906, 20445, 12391, 12365,
     12414, 12379, 12435, 12391, 12375, 12383, 65294, 36039, 26009, 20840, 20307, 12398, 35352,
     36617, 12398, 26377, 28961, 12399, 21028, 23450, 12375, 12390, 12356, 12414, 12379, 12435,
     65294]"

definition msg_conditions :: utext where
  "msg_conditions =
    [58, 32, 26465, 20214, 12539, 26085, 26178, 12539, 118, 101, 114, 115, 105, 111, 110,
     31561, 12364, 19981, 19968, 33268, 65294]"

definition msg_conflict_note :: utext where
  "msg_conflict_note =
    [32, 27770, 23450, 30340, 25972, 21512, 24615, 12481, 12455, 12483, 12463, 12391, 99, 108,
     97, 105, 109, 12392, 24341, 29992, 12398, 38291, 12395, 25968, 20516, 12398, 31934, 24230,
     24046, 12414, 12383, 12399, 27604, 36611, 34920, 29694, 12398, 24375, 12373, 12398, 24046,
     12434, 26908, 20986, 12375, 12383, 12383, 12417, 65292, 35442, 24403, 12398, 101, 118,
     105, 100, 101, 110, 99, 101, 12434, 115, 117, 112, 112, 111, 114, 116, 12392, 12375,
     12390, 35336, 12426, 12414, 12379, 12435, 65294]"

definition msg_conflicting :: utext where
  "msg_conflicting =
    [32, 26465, 20214, 12364, 19968, 33268, 12377, 12427, 25903, 25345, 26681, 25312, 12392,
     21453, 23550, 26681, 25312, 12364, 12354, 12426, 65292, 30683, 30462, 12434, 26410, 35299,
     27770, 12392, 12375, 12390, 20445, 25345, 12375, 12414, 12377, 65294]"

definition msg_primary_only :: utext where
  "msg_primary_only =
    [32, 29420, 31435, 12375, 12383, 35079, 25968, 36215, 28857, 12399, 26410, 30906, 35469,
     12391, 12354, 12426, 65292, 19968, 27425, 36039, 26009, 12395, 12424, 12427, 25903, 25345,
     12414, 12391, 12392, 12375, 12414, 12377, 65294]"

definition msg_no_primary :: utext where
  "msg_no_primary =
    [32, 19968, 27425, 36039, 26009, 12395, 12424, 12427, 25903, 25345, 12414, 12383, 12399,
     35079, 25968, 12398, 30906, 35469, 28168, 12415, 29420, 31435, 36215, 28857, 12364, 19981,
     36275, 12375, 12390, 12356, 12414, 12377, 65294]"

definition msg_not_met :: utext where
  "msg_not_met =
    [32, 25351, 23450, 29366, 24907, 12434, 28288, 12383, 12377, 26465, 20214, 19968, 33268,
     12398, 26681, 25312, 12364, 19981, 36275, 12375, 12390, 12356, 12414, 12377, 65294]"

definition msg_inference :: utext where
  "msg_inference =
    [32, 25512, 35542, 20803, 12364, 30906, 35469, 28168, 12415, 12398, 25903, 25345, 12373,
     12428, 12383, 99, 108, 97, 105, 109, 12395, 35299, 27770, 12391, 12365, 12414, 12379,
     12435, 65294]"

definition msg_unchecked :: utext where
  "msg_unchecked =
    [29031, 21512, 26410, 23436, 20102, 65294]"

definition comparison_levels :: "(nat \<times> utext list) list" where
  "comparison_levels = [
     (2, [
       [21516, 31561],
       [21305, 25973],
       ascii ''equal'',
       ascii ''equivalent'',
       ascii ''on par'',
       ascii ''comparable'']),
     (3, [
       [21516, 31561, 20197, 19978],
       [21516, 31561, 12414, 12383, 12399, 20778, 12428, 12427],
       [21516, 31561, 12414, 12383, 12399, 20778, 12428, 12390, 12356, 12427],
       [21516, 31561, 12363, 12381, 12428, 20197, 19978],
       ascii ''equal to or better'',
       ascii ''equal or better'',
       ascii ''matches or exceeds'']),
     (4, [
       [20778, 12428, 12427],
       [20778, 20301],
       [19978, 22238, 12427],
       [21213, 12427],
       [20940, 12368],
       ascii ''outperform'',
       ascii ''surpass'',
       ascii ''better than'',
       ascii ''higher than'',
       ascii ''state-of-the-art'',
       ascii ''state of the art''])]"

definition negation_ja :: "utext list" where
  "negation_ja = [
     [12431, 12369, 12391, 12399, 12394, 12356],
     [12431, 12369, 12391, 12418, 12394, 12356],
     [12431, 12369, 12364, 12394, 12356],
     [12391, 12399, 12394, 12356],
     [12391, 12394, 12356],
     [12395, 12377, 12366, 12394, 12356],
     [12375, 12394, 12356],
     [12394, 12356],
     [12414, 12379, 12435],
     [12394, 12367],
     [12378]]"

end
