(* ===== verification/Quotes.thy ===== *)
theory Quotes
  imports Schema Messages
begin

text \<open>
  \<open>_quote_span\<close> of \<open>evidence.py\<close>: where a quotation stands in an extracted text. An exact occurrence is
  taken as it is; otherwise text and quotation are compared with their runs of white space collapsed,
  and only a unique occurrence of at most 500 characters is mapped back to the unmodified text.
\<close>

section \<open>Searching and collapsing\<close>

text \<open>\<open>str.find\<close>: the first position at which \<open>p\<close> occurs, at or after \<open>k\<close>.\<close>

fun find_sub :: "'a list \<Rightarrow> 'a list \<Rightarrow> nat option" where
  "find_sub p [] = (if p = [] then Some 0 else None)"
| "find_sub p (x # xs) = (if take (length p) (x # xs) = p then Some 0 else map_option Suc (find_sub p xs))"

definition find_from :: "'a list \<Rightarrow> 'a list \<Rightarrow> nat \<Rightarrow> nat option" where
  "find_from p t k = map_option (\<lambda>i. i + k) (find_sub p (drop k t))"

text \<open>\<open>re.sub\<close> of a white-space run by one blank, and \<open>str.strip\<close>.\<close>

function collapse :: "utext \<Rightarrow> utext" where
  "collapse [] = []"
| "collapse (c # cs) = (if py_space c then 32 # collapse (dropWhile py_space cs) else c # collapse cs)"
  by pat_completeness auto
termination by (relation "measure length") (auto simp: length_dropWhile_le less_Suc_eq_le)

definition strip :: "utext \<Rightarrow> utext" where
  "strip t = rev (dropWhile py_space (rev (dropWhile py_space t)))"

text \<open>The matches of a white-space run or one other character: start, end, and the character of the normalized text.\<close>

function chunks :: "nat \<Rightarrow> utext \<Rightarrow> (nat \<times> nat \<times> codepoint) list" where
  "chunks i [] = []"
| "chunks i (c # cs) =
     (if py_space c
      then (i, Suc i + length (takeWhile py_space cs), 32)
             # chunks (Suc i + length (takeWhile py_space cs)) (dropWhile py_space cs)
      else (i, Suc i, c) # chunks (Suc i) cs)"
  by pat_completeness auto
termination by (relation "measure (\<lambda>(i, t). length t)") (auto simp: length_dropWhile_le less_Suc_eq_le)

datatype quote_match = Exact | WhitespaceNormalized

definition quote_span :: "utext \<Rightarrow> utext \<Rightarrow> (nat \<times> nat \<times> quote_match) option" where
  "quote_span text quote =
     (if blank quote then None
      else case find_sub quote text of
        Some e \<Rightarrow> Some (e, e + length quote, Exact)
      | None \<Rightarrow>
          let needle = strip (collapse quote);
              ck = chunks 0 text;
              normalized = map (\<lambda>(s, e, c). c) ck
          in case find_sub needle normalized of
               None \<Rightarrow> None
             | Some first \<Rightarrow>
                 if find_from needle normalized (first + 1) \<noteq> None then None
                 else
                   let start = fst (ck ! first); end = fst (snd (ck ! (first + length needle - 1)))
                   in if 500 < end - start then None
                      else Some (start, end, WhitespaceNormalized))"

definition slice :: "nat \<Rightarrow> nat \<Rightarrow> 'a list \<Rightarrow> 'a list" where
  "slice a b t = take (b - a) (drop a t)"

section \<open>Facts about searching\<close>

lemma find_sub_Some: "find_sub p t = Some i \<Longrightarrow> i + length p \<le> length t \<and> take (length p) (drop i t) = p"
proof (induction t arbitrary: i)
  case (Cons x xs)
  show ?case
  proof (cases "take (length p) (x # xs) = p")
    case True
    then have "length p \<le> length (x # xs)" by (metis length_take min.cobounded1)
    with True Cons.prems show ?thesis by auto
  next
    case False
    with Cons.prems obtain k where "i = Suc k" "find_sub p xs = Some k" by auto
    with Cons.IH show ?thesis by auto
  qed
qed (auto split: if_splits)

lemma find_sub_least: "find_sub p t = Some i \<Longrightarrow> k < i \<Longrightarrow> take (length p) (drop k t) \<noteq> p"
proof (induction t arbitrary: i k)
  case (Cons x xs)
  then show ?case by (cases k) (auto split: if_splits)
qed (auto split: if_splits)

lemma find_sub_None: "find_sub p t = None \<Longrightarrow> take (length p) (drop k t) \<noteq> p"
proof (induction t arbitrary: k)
  case (Cons x xs)
  then show ?case by (cases k) (auto split: if_splits)
qed (auto split: if_splits)

lemma find_sub_complete: "take (length p) (drop k t) = p \<Longrightarrow> k \<le> length t \<Longrightarrow> \<exists>i \<le> k. find_sub p t = Some i"
proof (induction t arbitrary: k)
  case (Cons x xs)
  show ?case
  proof (cases "take (length p) (x # xs) = p")
    case False
    with Cons.prems obtain n where "k = Suc n" "take (length p) (drop n xs) = p" "n \<le> length xs"
      by (cases k) auto
    with Cons.IH obtain i where "i \<le> n" "find_sub p xs = Some i" by blast
    with False \<open>k = Suc n\<close> show ?thesis by auto
  qed simp
qed auto

section \<open>Facts about chunks\<close>

lemma chunks_collapse: "map (\<lambda>(s, e, c). c) (chunks i t) = collapse t"
  by (induction i t rule: chunks.induct) auto

lemma chunks_empty [simp]: "chunks i t = [] \<longleftrightarrow> t = []"
  by (cases t) auto

lemma chunk_bounds:
  "k < length (chunks i t) \<Longrightarrow> i \<le> fst (chunks i t ! k) \<and> fst (chunks i t ! k) < fst (snd (chunks i t ! k))
    \<and> fst (snd (chunks i t ! k)) \<le> i + length t"
proof (induction i t arbitrary: k rule: chunks.induct)
  case (2 i c cs)
  have len: "length (takeWhile py_space cs) + length (dropWhile py_space cs) = length cs"
    by (metis length_append takeWhile_dropWhile_id)
  show ?case
  proof (cases k)
    case 0
    then show ?thesis using len by (auto simp: length_takeWhile_le)
  next
    case (Suc n)
    show ?thesis
    proof (cases "py_space c")
      case True
      with 2 Suc len show ?thesis by (auto dest: meta_spec [of _ n])
    next
      case False
      with 2 Suc show ?thesis by (auto dest: meta_spec [of _ n])
    qed
  qed
qed simp

text \<open>The chunks from the \<open>k\<close>-th on are the chunks of the text from the \<open>k\<close>-th start on.\<close>

lemma chunks_drop:
  "k < length (chunks i t) \<Longrightarrow> drop k (chunks i t) = chunks (fst (chunks i t ! k)) (drop (fst (chunks i t ! k) - i) t)"
proof (induction i t arbitrary: k rule: chunks.induct)
  case (2 i c cs)
  show ?case
  proof (cases k)
    case 0
    then show ?thesis by simp
  next
    case (Suc n)
    show ?thesis
    proof (cases "py_space c")
      case True
      let ?i = "Suc i + length (takeWhile py_space cs)"
      let ?rest = "dropWhile py_space cs"
      have n: "n < length (chunks ?i ?rest)" using 2(3) Suc True by simp
      have b: "?i \<le> fst (chunks ?i ?rest ! n)" using chunk_bounds [OF n] by simp
      have rest: "?rest = drop (length (takeWhile py_space cs)) cs" by (simp add: dropWhile_eq_drop)
      have "drop (fst (chunks ?i ?rest ! n) - ?i) ?rest = drop (fst (chunks ?i ?rest ! n) - i) (c # cs)"
        using b by (simp add: rest drop_Cons' add.commute)
      with 2(1) [OF True n] True Suc show ?thesis by simp
    next
      case False
      have n: "n < length (chunks (Suc i) cs)" using 2(3) Suc False by simp
      have b: "Suc i \<le> fst (chunks (Suc i) cs ! n)" using chunk_bounds [OF n] by simp
      then have "drop (fst (chunks (Suc i) cs ! n) - Suc i) cs = drop (fst (chunks (Suc i) cs ! n) - i) (c # cs)"
        by (simp add: drop_Cons')
      with 2(2) [OF False n] False Suc show ?thesis by simp
    qed
  qed
qed simp

lemma collapse_space_prefix:
  "\<forall>c \<in> set ws. py_space c \<Longrightarrow> dropWhile py_space (ws @ t) = dropWhile py_space t"
  by (induction ws) auto

lemma dropWhile_take_id:
  "t = [] \<or> \<not> py_space (hd t) \<Longrightarrow> dropWhile py_space (take n t) = take n t"
  by (cases t; cases n) auto

text \<open>The text up to the end of the \<open>k\<close>-th chunk collapses to the first \<open>k + 1\<close> characters.\<close>

lemma chunks_take:
  "k < length (chunks i t) \<Longrightarrow> collapse (take (fst (snd (chunks i t ! k)) - i) t) = take (Suc k) (collapse t)"
proof (induction i t arbitrary: k rule: chunks.induct)
  case (2 i c cs)
  show ?case
  proof (cases "py_space c")
    case True
    let ?w = "takeWhile py_space cs"
    let ?i = "Suc i + length ?w"
    let ?rest = "dropWhile py_space cs"
    have cs: "cs = ?w @ ?rest" by simp
    have ws: "\<forall>c \<in> set ?w. py_space c" by (auto dest: set_takeWhileD)
    have tk: "take n cs = ?w @ take (n - length ?w) ?rest" if "length ?w \<le> n" for n
      using that by (subst cs) (simp only: take_append, simp)
    have hd: "?rest = [] \<or> \<not> py_space (hd ?rest)" using hd_dropWhile by blast
    have col: "collapse (take (Suc n) (c # cs)) = 32 # collapse (take (n - length ?w) ?rest)"
      if "length ?w \<le> n" for n
      using True that by (simp add: tk collapse_space_prefix [OF ws] dropWhile_take_id [OF hd])
    show ?thesis
    proof (cases k)
      case 0
      then show ?thesis using True col [of "length ?w"] by simp
    next
      case (Suc n)
      have n: "n < length (chunks ?i ?rest)" using 2(3) Suc True by simp
      have b: "?i \<le> fst (snd (chunks ?i ?rest ! n))" using chunk_bounds [OF n] by auto
      define e where "e = fst (snd (chunks ?i ?rest ! n))"
      have "e - i = Suc (e - Suc i)" "length ?w \<le> e - Suc i" "e - Suc i - length ?w = e - ?i"
        using b by (auto simp: e_def)
      then have "collapse (take (e - i) (c # cs)) = 32 # collapse (take (e - ?i) ?rest)"
        using col [of "e - Suc i"] by metis
      with 2(1) [OF True n] True Suc show ?thesis by (simp add: e_def)
    qed
  next
    case False
    show ?thesis
    proof (cases k)
      case 0
      then show ?thesis using False by simp
    next
      case (Suc n)
      have n: "n < length (chunks (Suc i) cs)" using 2(3) Suc False by simp
      have b: "Suc i \<le> fst (snd (chunks (Suc i) cs ! n))" using chunk_bounds [OF n] by auto
      define e where "e = fst (snd (chunks (Suc i) cs ! n))"
      have "take (e - i) (c # cs) = c # take (e - Suc i) cs"
        using b by (simp add: e_def take_Cons')
      with 2(2) [OF False n] False Suc show ?thesis by (simp add: e_def)
    qed
  qed
qed simp

lemma chunk_slice:
  assumes "a \<le> b" "b < length (chunks i t)"
  shows "collapse (slice (fst (chunks i t ! a) - i) (fst (snd (chunks i t ! b)) - i) t) = slice a (Suc b) (collapse t)"
proof -
  let ?ck = "chunks i t"
  let ?s = "fst (?ck ! a)"
  let ?t = "drop (?s - i) t"
  have a: "a < length ?ck" using assms by simp
  have d: "drop a ?ck = chunks ?s ?t" by (rule chunks_drop [OF a])
  have si: "i \<le> ?s" using chunk_bounds [OF a] by simp
  have len: "b - a < length (chunks ?s ?t)" using assms by (simp flip: d)
  have nth: "chunks ?s ?t ! (b - a) = ?ck ! b" using assms by (simp flip: d)
  have "collapse ?t = drop a (collapse t)"
    by (simp only: chunks_collapse [of ?s ?t, symmetric] chunks_collapse [of i t, symmetric] d [symmetric] drop_map)
  moreover have "collapse (take (fst (snd (?ck ! b)) - ?s) ?t) = take (Suc (b - a)) (collapse ?t)"
    using chunks_take [OF len] by (simp only: nth)
  moreover have "fst (snd (?ck ! b)) - i - (?s - i) = fst (snd (?ck ! b)) - ?s" using si by simp
  ultimately show ?thesis using assms(1) by (simp add: slice_def Suc_diff_le)
qed

lemma blank_collapse: "blank (collapse t) = blank t"
proof (induction t rule: collapse.induct)
  case (2 c cs)
  have "list_all py_space (dropWhile py_space cs) = list_all py_space cs"
    by (induction cs) auto
  with 2 show ?case by (auto simp: blank_def py_space_def)
qed simp

lemma dropWhile_space_Nil: "dropWhile py_space t = [] \<longleftrightarrow> blank t"
  unfolding blank_def list_all_iff dropWhile_eq_Nil_conv ..

lemma blank_strip: "strip t = [] \<longleftrightarrow> blank t"
proof (cases "blank t")
  case True
  then have e: "dropWhile py_space t = []" by (simp only: dropWhile_space_Nil)
  have "strip t = []" unfolding strip_def e by simp
  with True show ?thesis by simp
next
  case False
  let ?u = "dropWhile py_space t"
  have u: "?u \<noteq> []" using False by (simp only: dropWhile_space_Nil not_False_eq_True)
  then have "\<not> py_space (hd ?u)" by (rule hd_dropWhile)
  with u have "\<not> blank (rev ?u)" by (cases ?u) (auto simp: blank_def list_all_iff)
  then have "strip t \<noteq> []" unfolding strip_def rev_is_Nil_conv dropWhile_space_Nil .
  with False show ?thesis by simp
qed

lemma slice_length: "b \<le> length t \<Longrightarrow> a \<le> b \<Longrightarrow> length (slice a b t) = b - a"
  by (simp add: slice_def)

section \<open>What a span means\<close>

lemma quote_span_exact:
  "quote_span text quote = Some (s, e, Exact) \<Longrightarrow> s < e \<and> e \<le> length text \<and> slice s e text = quote \<and> e = s + length quote"
proof -
  assume q: "quote_span text quote = Some (s, e, Exact)"
  then have f: "\<not> blank quote" "find_sub quote text = Some s" "e = s + length quote"
    by (auto simp: quote_span_def Let_def split: if_splits option.splits)
  then have "quote \<noteq> []" by (auto simp: blank_def)
  with find_sub_Some [OF f(2)] f(3) show ?thesis by (simp add: slice_def)
qed

lemma quote_span_normalized:
  assumes "quote_span text quote = Some (s, e, WhitespaceNormalized)"
  shows "s < e" "e \<le> length text" "e - s \<le> 500"
    "collapse (slice s e text) = strip (collapse quote)" "find_sub quote text = None"
    "\<exists>!k. k \<le> length (collapse text) \<and> take (length (strip (collapse quote))) (drop k (collapse text)) = strip (collapse quote)"
proof -
  define needle where "needle = strip (collapse quote)"
  define ck where "ck = chunks 0 text"
  have norm: "map (\<lambda>(s, e, c). c) ck = collapse text" unfolding ck_def by (rule chunks_collapse)
  obtain k where k: "\<not> blank quote" "find_sub quote text = None" "find_sub needle (collapse text) = Some k"
    "find_from needle (collapse text) (k + 1) = None" "s = fst (ck ! k)"
    "e = fst (snd (ck ! (k + length needle - 1)))" "e - s \<le> 500"
    using assms unfolding quote_span_def Let_def needle_def [symmetric] ck_def [symmetric] norm
    by (auto split: if_splits option.splits)
  have ne: "needle \<noteq> []" unfolding needle_def blank_strip blank_collapse by (rule k(1))
  note f = find_sub_Some [OF k(3)]
  have len: "length ck = length (collapse text)" by (simp flip: norm)
  let ?b = "k + length needle - 1"
  have b: "?b < length (chunks 0 text)" "k \<le> ?b" "Suc ?b = k + length needle"
    using f ne len by (cases needle; simp add: ck_def)+
  have sl: "collapse (slice s e text) = slice k (Suc ?b) (collapse text)"
    using chunk_slice [OF b(2,1)] k(5,6) by (simp add: ck_def)
  also have "\<dots> = needle" unfolding b(3) using f by (simp add: slice_def)
  finally show col: "collapse (slice s e text) = strip (collapse quote)" by (simp add: needle_def)
  show "e \<le> length text" using chunk_bounds [OF b(1)] k(6) by (simp add: ck_def)
  have "slice s e text \<noteq> []" using col ne by (auto simp: needle_def)
  then show "s < e" by (auto simp: slice_def)
  show "e - s \<le> 500" "find_sub quote text = None" by fact+
  show "\<exists>!k. k \<le> length (collapse text) \<and> take (length (strip (collapse quote))) (drop k (collapse text)) = strip (collapse quote)"
    unfolding needle_def [symmetric]
  proof (intro ex1I [of _ k] conjI)
    show "k \<le> length (collapse text)" "take (length needle) (drop k (collapse text)) = needle" using f by auto
    fix j assume j: "j \<le> length (collapse text) \<and> take (length needle) (drop j (collapse text)) = needle"
    show "j = k"
    proof (rule ccontr)
      assume "j \<noteq> k"
      then consider "j < k" | "k < j" by linarith
      then show False
      proof cases
        case 1
        then show False using find_sub_least [OF k(3)] j by blast
      next
        case 2
        have "find_sub needle (drop (k + 1) (collapse text)) = None"
          using k(4) by (simp add: find_from_def)
        from find_sub_None [OF this, of "j - (k + 1)"] j 2 show False by simp
      qed
    qed
  qed
qed

end
