(* ===== verification/Evidence_Extraction.thy ===== *)
theory Evidence_Extraction
  imports Quotes Activity
begin

text \<open>
  \<open>validate_extraction\<close> of \<open>evidence.py\<close>: the claims a model proposes are stored with worker-issued
  identifiers, and of the quotations it cites only those that stand in a passage it was given.
\<close>

section \<open>The evidence types of schema.py\<close>

datatype relation = Supports | Contradicts | ContextOnly
datatype importance = Major | Minor
datatype claim_status = SupportedPrimary | Corroborated | Conflicting | Insufficient | Refuted | Inference

record proposal =
  pr_source_id :: string
  pr_passage_id :: string
  pr_quote :: utext
  pr_relation :: relation
  pr_conditions :: utext

record claim_proposal =
  cp_text :: utext
  cp_importance :: importance
  cp_evidence :: "proposal list"
  cp_conditions :: utext
  cp_uncertainty :: "utext list"

record evidence =
  ev_source_id :: string
  ev_passage_id :: string
  ev_quote :: utext
  ev_relation :: relation
  ev_conditions :: utext
  ev_id :: string
  ev_page :: "nat option"
  ev_start :: int
  ev_end :: int
  ev_match :: quote_match
  ev_checked :: bool
  ev_check_reason :: "utext option"
  ev_conditions_match :: "bool option"
  ev_is_primary :: "bool option"

record claim =
  cl_id :: string
  cl_text :: utext
  cl_importance :: importance
  cl_evidence_ids :: "string list"
  cl_status :: claim_status
  cl_reason :: utext
  cl_conditions :: utext
  cl_uncertainty :: "utext list"
  cl_inference_from :: "string list"
  cl_checked :: bool

text \<open>The bounds of \<open>EvidenceProposal\<close>, \<open>ClaimProposal\<close> and \<open>Extraction\<close>.\<close>

definition valid_proposal :: "proposal \<Rightarrow> bool" where
  "valid_proposal p \<longleftrightarrow> 1 \<le> length (pr_quote p) \<and> length (pr_quote p) \<le> 500"

definition valid_claim_proposal :: "claim_proposal \<Rightarrow> bool" where
  "valid_claim_proposal p \<longleftrightarrow> 1 \<le> length (cp_text p) \<and> length (cp_text p) \<le> 2000
     \<and> length (cp_evidence p) \<le> 8 \<and> list_all valid_proposal (cp_evidence p)"

section \<open>Checking one citation\<close>

definition lookup_source :: "source list \<Rightarrow> string \<Rightarrow> source option" where
  "lookup_source sources i =
     (if count_rows (\<lambda>s. so_source_id s = i) sources = 1 then find_row so_source_id i sources else None)"

definition passage_count :: "source list \<Rightarrow> string \<Rightarrow> nat" where
  "passage_count sources i = count_rows (\<lambda>p. pa_passage_id p = i) (concat (map so_passages sources))"

fun status_text :: "source_status \<Rightarrow> string" where
  "status_text SOk = ''ok''"
| "status_text SPartial = ''partial''"
| "status_text SBlocked = ''blocked''"
| "status_text SHttpError = ''http_error''"
| "status_text SNetworkError = ''network_error''"
| "status_text SUnsupported = ''unsupported''"
| "status_text SExtractionFailed = ''extraction_failed''"
| "status_text SImageOnly = ''image_only''"
| "status_text SEncrypted = ''encrypted''"
| "status_text SInvalid = ''invalid''"
| "status_text STimeout = ''timeout''"
| "status_text SLimit = ''limit''"

datatype citation = Rejected utext | Accepted passage nat nat quote_match

definition check_citation :: "source list \<Rightarrow> proposal \<Rightarrow> citation" where
  "check_citation sources item =
     (case lookup_source sources (pr_source_id item) of
        None \<Rightarrow> Rejected msg_source_not_unique
      | Some source \<Rightarrow>
          if \<not> usable_source source
          then Rejected (msg_status_open @ ascii (status_text (so_status source)) @ msg_status_close)
          else if passage_count sources (pr_passage_id item) \<noteq> 1 then Rejected msg_passage_not_unique
          else
            (case find (\<lambda>p. pa_passage_id p = pr_passage_id item \<and> pa_source_id p = so_source_id source)
                    (so_passages source) of
               None \<Rightarrow> Rejected msg_passage_elsewhere
             | Some p \<Rightarrow>
                 if pr_passage_id item \<notin> set (so_read_passage_ids source) then Rejected msg_not_read
                 else (case quote_span (pa_text p) (pr_quote item) of
                         None \<Rightarrow> Rejected msg_no_match
                       | Some (s, e, k) \<Rightarrow> Accepted p s e k)))"

section \<open>The loops\<close>

definition rejection_message :: "string \<Rightarrow> proposal \<Rightarrow> utext \<Rightarrow> utext" where
  "rejection_message c item why =
     ascii c @ ascii '' / '' @ ascii (pr_source_id item) @ ascii '' / '' @ ascii (pr_passage_id item)
       @ ascii '': '' @ why"

definition numbered :: "string \<Rightarrow> string \<Rightarrow> nat \<Rightarrow> string" where
  "numbered prefix kind n = prefix @ kind @ pad_left 3 (dec n)"

definition new_evidence :: "string \<Rightarrow> proposal \<Rightarrow> passage \<Rightarrow> nat \<Rightarrow> nat \<Rightarrow> quote_match \<Rightarrow> evidence" where
  "new_evidence i item p s e k =
     \<lparr> ev_source_id = pr_source_id item, ev_passage_id = pr_passage_id item,
       ev_quote = slice s e (pa_text p), ev_relation = pr_relation item,
       ev_conditions = japanese_punctuation (pr_conditions item), ev_id = i, ev_page = pa_page p,
       ev_start = pa_start p + int s, ev_end = pa_start p + int e, ev_match = k, ev_checked = False,
       ev_check_reason = None, ev_conditions_match = None, ev_is_primary = None \<rparr>"

definition new_claim :: "string \<Rightarrow> claim_proposal \<Rightarrow> claim" where
  "new_claim i p =
     \<lparr> cl_id = i, cl_text = japanese_punctuation (cp_text p), cl_importance = cp_importance p,
       cl_evidence_ids = [], cl_status = Insufficient, cl_reason = msg_unchecked,
       cl_conditions = japanese_punctuation (cp_conditions p),
       cl_uncertainty = map japanese_punctuation (cp_uncertainty p), cl_inference_from = [],
       cl_checked = False \<rparr>"

fun add_citations ::
  "string \<Rightarrow> source list \<Rightarrow> proposal list \<Rightarrow> claim \<times> evidence list \<times> utext list
   \<Rightarrow> claim \<times> evidence list \<times> utext list" where
  "add_citations prefix sources [] st = st"
| "add_citations prefix sources (item # items) (c, evs, errs) =
     (case check_citation sources item of
        Rejected why \<Rightarrow>
          let m = rejection_message (cl_id c) item why
          in add_citations prefix sources items
               (c\<lparr> cl_uncertainty := cl_uncertainty c @ [m] \<rparr>, evs, errs @ [m])
      | Accepted p s e k \<Rightarrow>
          let i = numbered prefix ''e'' (length evs + 1)
          in add_citations prefix sources items
               (c\<lparr> cl_evidence_ids := cl_evidence_ids c @ [i] \<rparr>,
                evs @ [new_evidence i item p s e k], errs))"

definition add_claim ::
  "string \<Rightarrow> source list \<Rightarrow> nat \<Rightarrow> claim_proposal \<Rightarrow> evidence list \<Rightarrow> utext list
   \<Rightarrow> claim \<times> evidence list \<times> utext list" where
  "add_claim prefix sources n p evs errs =
     (case add_citations prefix sources (cp_evidence p)
             (new_claim (numbered prefix ''c'' n) p, evs, errs) of
        (c, evs', errs') \<Rightarrow>
          (if cl_evidence_ids c = [] then c\<lparr> cl_reason := msg_no_evidence \<rparr> else c, evs', errs'))"

fun add_claims ::
  "string \<Rightarrow> source list \<Rightarrow> nat \<Rightarrow> claim_proposal list \<Rightarrow> claim list \<times> evidence list \<times> utext list
   \<Rightarrow> claim list \<times> evidence list \<times> utext list" where
  "add_claims prefix sources n [] st = st"
| "add_claims prefix sources n (p # ps) (cs, evs, errs) =
     (case add_claim prefix sources n p evs errs of
        (c, evs', errs') \<Rightarrow> add_claims prefix sources (n + 1) ps (cs @ [c], evs', errs'))"

definition validate_extraction ::
  "claim_proposal list \<Rightarrow> source list \<Rightarrow> string \<Rightarrow> claim list \<times> evidence list \<times> utext list" where
  "validate_extraction proposals sources prefix = add_claims prefix sources 1 proposals ([], [], [])"

section \<open>What is stored\<close>

text \<open>An evidence item is grounded: its quote is a piece of a passage of a usable source that was
  read, at the recorded offsets, and reads as the proposal's quote up to white space.\<close>

definition grounded :: "source list \<Rightarrow> proposal \<Rightarrow> evidence \<Rightarrow> bool" where
  "grounded sources item ev \<longleftrightarrow> (\<exists>s \<in> set sources. \<exists>p \<in> set (so_passages s). \<exists>a b.
     so_source_id s = ev_source_id ev \<and> usable_source s
     \<and> pa_passage_id p = ev_passage_id ev \<and> pa_source_id p = so_source_id s
     \<and> ev_passage_id ev \<in> set (so_read_passage_ids s)
     \<and> passage_count sources (ev_passage_id ev) = 1 \<and> count_rows (\<lambda>x. so_source_id x = ev_source_id ev) sources = 1
     \<and> a < b \<and> b \<le> length (pa_text p) \<and> ev_quote ev = slice a b (pa_text p)
     \<and> ev_start ev = pa_start p + int a \<and> ev_end ev = pa_start p + int b
     \<and> pr_source_id item = ev_source_id ev \<and> pr_passage_id item = ev_passage_id ev
     \<and> (if ev_match ev = Exact then ev_quote ev = pr_quote item
        else collapse (ev_quote ev) = strip (collapse (pr_quote item)) \<and> b - a \<le> 500))"

lemma accepted_grounded:
  assumes "check_citation sources item = Accepted p s e k"
  shows "grounded sources item (new_evidence i item p s e k)"
proof -
  obtain src where src: "lookup_source sources (pr_source_id item) = Some src"
    using assms by (auto simp: check_citation_def split: option.splits)
  with assms have u: "usable_source src" "passage_count sources (pr_passage_id item) = 1"
    by (auto simp: check_citation_def split: if_splits)
  with assms src obtain p' where p': "find (\<lambda>p. pa_passage_id p = pr_passage_id item
      \<and> pa_source_id p = so_source_id src) (so_passages src) = Some p'"
    by (auto simp: check_citation_def split: option.splits)
  with assms src u have r: "pr_passage_id item \<in> set (so_read_passage_ids src)"
    "quote_span (pa_text p') (pr_quote item) = Some (s, e, k)" "p' = p"
    by (auto simp: check_citation_def split: option.splits if_splits)
  have p: "p \<in> set (so_passages src)" "pa_passage_id p = pr_passage_id item" "pa_source_id p = so_source_id src"
    using p' r(3) by (auto simp: find_Some_iff)
  have s: "src \<in> set sources" "so_source_id src = pr_source_id item"
    "count_rows (\<lambda>x. so_source_id x = pr_source_id item) sources = 1"
    using src by (auto simp: lookup_source_def dest!: find_row_SomeD split: if_splits)
  show ?thesis
  proof (cases k)
    case Exact
    with quote_span_exact r(2,3) have "s < e \<and> e \<le> length (pa_text p) \<and> slice s e (pa_text p) = pr_quote item" by blast
    with u r(1) p s Exact show ?thesis
      unfolding grounded_def by (intro bexI [of _ src] bexI [of _ p] exI [of _ s] exI [of _ e]) (simp_all add: new_evidence_def)
  next
    case WhitespaceNormalized
    note n = quote_span_normalized [OF r(2) [unfolded WhitespaceNormalized r(3)]]
    with u r(1) p s WhitespaceNormalized show ?thesis
      unfolding grounded_def by (intro bexI [of _ src] bexI [of _ p] exI [of _ s] exI [of _ e]) (simp_all add: new_evidence_def)
  qed
qed

section \<open>Invariants of the loops\<close>

lemma numbered_inj [simp]: "numbered prefix kind m = numbered prefix kind n \<longleftrightarrow> m = n"
  by (simp add: numbered_def)

definition ids_from :: "string \<Rightarrow> nat \<Rightarrow> nat \<Rightarrow> string list" where
  "ids_from prefix a b = map (\<lambda>n. numbered prefix ''e'' (n + 1)) [a..<b]"

lemma ids_from_append: "a \<le> b \<Longrightarrow> b \<le> c \<Longrightarrow> ids_from prefix a b @ ids_from prefix b c = ids_from prefix a c"
  unfolding ids_from_def by (metis le_Suc_ex map_append upt_add_eq_append)

lemma ids_from_self [simp]: "ids_from prefix a a = []"
  by (simp add: ids_from_def)

lemma ids_from_Suc: "ids_from prefix a (Suc a) = [numbered prefix ''e'' (a + 1)]"
  by (simp add: ids_from_def)

lemma new_evidence_id [simp]: "ev_id (new_evidence i item p s e k) = i" "\<not> ev_checked (new_evidence i item p s e k)"
  by (simp_all add: new_evidence_def)

text \<open>What one claim adds.\<close>

definition adds ::
  "string \<Rightarrow> source list \<Rightarrow> proposal list \<Rightarrow> claim \<Rightarrow> evidence list \<Rightarrow> utext list
   \<Rightarrow> claim \<Rightarrow> evidence list \<Rightarrow> utext list \<Rightarrow> bool" where
  "adds prefix sources items c evs errs c' evs' errs' \<longleftrightarrow> (\<exists>new rejected.
     evs' = evs @ new \<and> errs' = errs @ rejected \<and> length new + length rejected = length items
     \<and> map ev_id new = ids_from prefix (length evs) (length evs')
     \<and> cl_evidence_ids c' = cl_evidence_ids c @ map ev_id new
     \<and> cl_uncertainty c' = cl_uncertainty c @ rejected
     \<and> cl_id c' = cl_id c \<and> cl_text c' = cl_text c \<and> cl_status c' = cl_status c \<and> cl_checked c' = cl_checked c
     \<and> (\<forall>ev \<in> set new. \<not> ev_checked ev \<and> (\<exists>item \<in> set items. grounded sources item ev)))"

lemma add_citations_adds:
  "add_citations prefix sources items (c, evs, errs) = (c', evs', errs') \<Longrightarrow> adds prefix sources items c evs errs c' evs' errs'"
proof (induction items arbitrary: c evs errs)
  case Nil
  then show ?case by (simp add: adds_def)
next
  case (Cons item items)
  show ?case
  proof (cases "check_citation sources item")
    case (Rejected why)
    let ?m = "rejection_message (cl_id c) item why"
    from Cons Rejected have "adds prefix sources items (c\<lparr> cl_uncertainty := cl_uncertainty c @ [?m] \<rparr>) evs (errs @ [?m]) c' evs' errs'"
      by (simp add: Let_def)
    then obtain new rejected where "evs' = evs @ new" "errs' = (errs @ [?m]) @ rejected"
      "length new + length rejected = length items" "map ev_id new = ids_from prefix (length evs) (length evs')"
      "cl_evidence_ids c' = cl_evidence_ids c @ map ev_id new" "cl_uncertainty c' = (cl_uncertainty c @ [?m]) @ rejected"
      "cl_id c' = cl_id c" "cl_text c' = cl_text c" "cl_status c' = cl_status c" "cl_checked c' = cl_checked c"
      "\<forall>ev \<in> set new. \<not> ev_checked ev \<and> (\<exists>item \<in> set items. grounded sources item ev)"
      by (auto simp: adds_def)
    then show ?thesis
      unfolding adds_def by (intro exI [of _ new] exI [of _ "?m # rejected"]) auto
  next
    case (Accepted p s e k)
    let ?i = "numbered prefix ''e'' (length evs + 1)"
    let ?ev = "new_evidence ?i item p s e k"
    from Cons Accepted have "adds prefix sources items (c\<lparr> cl_evidence_ids := cl_evidence_ids c @ [?i] \<rparr>) (evs @ [?ev]) errs c' evs' errs'"
      by (simp add: Let_def)
    then obtain new rejected where n: "evs' = (evs @ [?ev]) @ new" "errs' = errs @ rejected"
      "length new + length rejected = length items" "map ev_id new = ids_from prefix (Suc (length evs)) (length evs')"
      "cl_evidence_ids c' = (cl_evidence_ids c @ [?i]) @ map ev_id new" "cl_uncertainty c' = cl_uncertainty c @ rejected"
      "cl_id c' = cl_id c" "cl_text c' = cl_text c" "cl_status c' = cl_status c" "cl_checked c' = cl_checked c"
      "\<forall>ev \<in> set new. \<not> ev_checked ev \<and> (\<exists>item \<in> set items. grounded sources item ev)"
      by (auto simp: adds_def)
    have "map ev_id (?ev # new) = ids_from prefix (length evs) (length evs')"
      using n(1,4) ids_from_append [of "length evs" "Suc (length evs)" "length evs'" prefix]
      by (simp add: ids_from_Suc)
    then show ?thesis
      using n accepted_grounded [OF Accepted] unfolding adds_def
      by (intro exI [of _ "?ev # new"] exI [of _ rejected]) auto
  qed
qed

lemma add_claim_adds:
  assumes "add_claim prefix sources n p evs errs = (c, evs', errs')"
  obtains new rejected where "evs' = evs @ new" "errs' = errs @ rejected"
    "length new + length rejected = length (cp_evidence p)"
    "map ev_id new = ids_from prefix (length evs) (length evs')" "cl_evidence_ids c = map ev_id new"
    "cl_id c = numbered prefix ''c'' n" "cl_text c = japanese_punctuation (cp_text p)"
    "cl_status c = Insufficient" "\<not> cl_checked c"
    "\<forall>ev \<in> set new. \<not> ev_checked ev \<and> (\<exists>item \<in> set (cp_evidence p). grounded sources item ev)"
proof -
  obtain c0 where c0: "add_citations prefix sources (cp_evidence p) (new_claim (numbered prefix ''c'' n) p, evs, errs) = (c0, evs', errs')"
    "c = (if cl_evidence_ids c0 = [] then c0\<lparr> cl_reason := msg_no_evidence \<rparr> else c0)"
    using assms by (auto simp: add_claim_def split: prod.splits)
  from add_citations_adds [OF c0(1)] obtain new rejected where n: "evs' = evs @ new" "errs' = errs @ rejected"
    "length new + length rejected = length (cp_evidence p)" "map ev_id new = ids_from prefix (length evs) (length evs')"
    "cl_evidence_ids c0 = map ev_id new" "cl_id c0 = numbered prefix ''c'' n" "cl_text c0 = japanese_punctuation (cp_text p)"
    "cl_status c0 = Insufficient" "\<not> cl_checked c0"
    "\<forall>ev \<in> set new. \<not> ev_checked ev \<and> (\<exists>item \<in> set (cp_evidence p). grounded sources item ev)"
    by (auto simp: adds_def new_claim_def)
  show ?thesis by (rule that [OF n(1-4) _ _ _ _ _ n(10)]) (use n c0(2) in auto)
qed

lemma add_claims_adds:
  "add_claims prefix sources n ps (cs, evs, errs) = (cs', evs', errs') \<Longrightarrow>
   \<exists>newc new rejected. cs' = cs @ newc \<and> evs' = evs @ new \<and> errs' = errs @ rejected
     \<and> length new + length rejected = sum_list (map (\<lambda>p. length (cp_evidence p)) ps)
     \<and> map ev_id new = ids_from prefix (length evs) (length evs')
     \<and> concat (map cl_evidence_ids newc) = map ev_id new
     \<and> map cl_id newc = map (numbered prefix ''c'') [n..<n + length ps]
     \<and> map cl_text newc = map (\<lambda>p. japanese_punctuation (cp_text p)) ps
     \<and> (\<forall>c \<in> set newc. cl_status c = Insufficient \<and> \<not> cl_checked c)
     \<and> (\<forall>ev \<in> set new. \<not> ev_checked ev \<and> (\<exists>p \<in> set ps. \<exists>item \<in> set (cp_evidence p). grounded sources item ev))"
proof (induction ps arbitrary: n cs evs errs)
  case Nil
  then show ?case by simp
next
  case (Cons p ps)
  obtain c evs1 errs1 where one: "add_claim prefix sources n p evs errs = (c, evs1, errs1)"
    by (cases "add_claim prefix sources n p evs errs")
  from one obtain new rejected where a: "evs1 = evs @ new" "errs1 = errs @ rejected"
    "length new + length rejected = length (cp_evidence p)"
    "map ev_id new = ids_from prefix (length evs) (length evs1)" "cl_evidence_ids c = map ev_id new"
    "cl_id c = numbered prefix ''c'' n" "cl_text c = japanese_punctuation (cp_text p)"
    "cl_status c = Insufficient" "\<not> cl_checked c"
    "\<forall>ev \<in> set new. \<not> ev_checked ev \<and> (\<exists>item \<in> set (cp_evidence p). grounded sources item ev)"
    by (rule add_claim_adds)
  have "add_claims prefix sources (n + 1) ps (cs @ [c], evs1, errs1) = (cs', evs', errs')"
    using Cons.prems one by simp
  from Cons.IH [OF this] obtain newc new2 rejected2 where b: "cs' = (cs @ [c]) @ newc" "evs' = evs1 @ new2"
    "errs' = errs1 @ rejected2"
    "length new2 + length rejected2 = sum_list (map (\<lambda>p. length (cp_evidence p)) ps)"
    "map ev_id new2 = ids_from prefix (length evs1) (length evs')"
    "concat (map cl_evidence_ids newc) = map ev_id new2"
    "map cl_id newc = map (numbered prefix ''c'') [n + 1..<n + 1 + length ps]"
    "map cl_text newc = map (\<lambda>p. japanese_punctuation (cp_text p)) ps"
    "\<forall>c \<in> set newc. cl_status c = Insufficient \<and> \<not> cl_checked c"
    "\<forall>ev \<in> set new2. \<not> ev_checked ev \<and> (\<exists>p \<in> set ps. \<exists>item \<in> set (cp_evidence p). grounded sources item ev)"
    by blast
  have ids: "map ev_id (new @ new2) = ids_from prefix (length evs) (length evs')"
    using a(1,4) b(2,5) ids_from_append [of "length evs" "length evs1" "length evs'" prefix] by simp
  have num: "map cl_id (c # newc) = map (numbered prefix ''c'') [n..<n + length (p # ps)]"
  proof -
    have "[n..<n + length (p # ps)] = n # [n + 1..<n + 1 + length ps]" by (simp add: upt_conv_Cons del: upt_Suc)
    with a(6) b(7) show ?thesis by (simp only: list.map)
  qed
  show ?case
    by (rule exI [of _ "c # newc"], rule exI [of _ "new @ new2"], rule exI [of _ "rejected @ rejected2"])
      (use a b ids num in auto)
qed

lemma extraction_facts:
  assumes "validate_extraction ps sources prefix = (cs, evs, errs)"
  shows "length evs + length errs = sum_list (map (\<lambda>p. length (cp_evidence p)) ps)"
    "map ev_id evs = ids_from prefix 0 (length evs)" "concat (map cl_evidence_ids cs) = map ev_id evs"
    "map cl_id cs = map (numbered prefix ''c'') [1..<1 + length ps]"
    "map cl_text cs = map (\<lambda>p. japanese_punctuation (cp_text p)) ps"
    "\<forall>c \<in> set cs. cl_status c = Insufficient \<and> \<not> cl_checked c"
    "\<forall>ev \<in> set evs. \<not> ev_checked ev \<and> (\<exists>p \<in> set ps. \<exists>item \<in> set (cp_evidence p). grounded sources item ev)"
  using add_claims_adds [OF assms [unfolded validate_extraction_def]] by auto

lemma distinct_ids_from: "distinct (ids_from prefix a b)"
  by (auto simp: ids_from_def distinct_map inj_on_def)

section \<open>Properties\<close>

text \<open>C20. Nothing a model quotes is stored unless it is in what it was given. Every stored evidence
  item cites a source that was fetched under a unique identifier and is usable, and a passage that
  exists once, belongs to it and was sent to the model; its quote is, character for character, the
  piece of that passage at the recorded offsets, and it is the proposed quote, or the unique place
  that differs from it in white space only and is at most 500 characters long.\<close>

theorem stored_quotes_are_grounded:
  assumes "validate_extraction ps sources prefix = (cs, evs, errs)" "ev \<in> set evs"
  shows "\<exists>p \<in> set ps. \<exists>item \<in> set (cp_evidence p). grounded sources item ev"
  using extraction_facts(7) [OF assms(1)] assms(2) by blast

definition ex_passage :: passage where
  "ex_passage = \<lparr> pa_passage_id = ''s001-p0001'', pa_source_id = ''s001'',
     pa_text = ascii ''Has  30B.'', pa_page = None, pa_start = 100, pa_end = 109 \<rparr>"

definition ex_source :: source where
  "ex_source = (new_source ''s001'' ''https://example.org/'' ''now'')\<lparr> so_status := SOk,
     so_passages := [ex_passage], so_read_passage_ids := [''s001-p0001''] \<rparr>"

definition ex_proposal :: "string \<Rightarrow> proposal" where
  "ex_proposal q = \<lparr> pr_source_id = ''s001'', pr_passage_id = ''s001-p0001'', pr_quote = ascii q,
     pr_relation = Supports, pr_conditions = [] \<rparr>"

definition ex_claim_proposal :: claim_proposal where
  "ex_claim_proposal = \<lparr> cp_text = ascii ''It has 30B'', cp_importance = Major,
     cp_evidence = [ex_proposal ''Has 30B'', ex_proposal ''31B''], cp_conditions = [], cp_uncertainty = [] \<rparr>"

lemma ex_spans:
  "check_citation [ex_source] (ex_proposal ''Has 30B'') = Accepted ex_passage 0 8 WhitespaceNormalized"
  "check_citation [ex_source] (ex_proposal ''31B'') = Rejected msg_no_match"
proof -
  have "quote_span (ascii ''Has  30B.'') (ascii ''Has 30B'') = Some (0, 8, WhitespaceNormalized)"
    "quote_span (ascii ''Has  30B.'') (ascii ''31B'') = None"
    by (simp_all add: quote_span_def ascii_def blank_def py_space_def strip_def find_from_def Let_def)
  then show "check_citation [ex_source] (ex_proposal ''Has 30B'') = Accepted ex_passage 0 8 WhitespaceNormalized"
    "check_citation [ex_source] (ex_proposal ''31B'') = Rejected msg_no_match"
    by (simp_all add: check_citation_def lookup_source_def ex_source_def ex_proposal_def ex_passage_def
        usable_source_def passage_count_def new_source_def)
qed

lemma ex_extraction:
  "\<exists>c err. validate_extraction [ex_claim_proposal] [ex_source] [] =
    ([c], [new_evidence ''e001'' (ex_proposal ''Has 30B'') ex_passage 0 8 WhitespaceNormalized], [err])"
proof -
  have "numbered [] ''e'' 1 = ''e001''" by code_simp
  then show ?thesis
    by (simp add: validate_extraction_def add_claim_def ex_claim_proposal_def ex_spans new_claim_def Let_def)
qed

theorem stored_quotes_are_grounded_witness:
  "\<exists>item. grounded [ex_source] item (new_evidence ''e001'' (ex_proposal ''Has 30B'') ex_passage 0 8 WhitespaceNormalized)"
proof -
  obtain c err where "validate_extraction [ex_claim_proposal] [ex_source] [] =
    ([c], [new_evidence ''e001'' (ex_proposal ''Has 30B'') ex_passage 0 8 WhitespaceNormalized], [err])"
    using ex_extraction by blast
  from stored_quotes_are_grounded [OF this] show ?thesis by auto
qed

text \<open>The bookkeeping of an extraction is exact: every proposed quote is either stored or reported
  as an error, the claims are the proposals in order under distinct new identifiers, evidence
  identifiers are distinct, and each evidence item is owned by exactly one claim, in order; nothing
  is marked as checked.\<close>

theorem extraction_accounts_for_everything:
  assumes "validate_extraction ps sources prefix = (cs, evs, errs)"
  shows "length evs + length errs = sum_list (map (\<lambda>p. length (cp_evidence p)) ps)
    \<and> concat (map cl_evidence_ids cs) = map ev_id evs \<and> distinct (map ev_id evs)
    \<and> map cl_text cs = map (\<lambda>p. japanese_punctuation (cp_text p)) ps \<and> distinct (map cl_id cs)
    \<and> (\<forall>c \<in> set cs. cl_status c = Insufficient \<and> \<not> cl_checked c) \<and> (\<forall>ev \<in> set evs. \<not> ev_checked ev)"
  using extraction_facts [OF assms] distinct_ids_from
  by (auto simp: distinct_map inj_on_def)

theorem extraction_accounts_for_everything_witness:
  "length (fst (snd (validate_extraction [ex_claim_proposal] [ex_source] []))) = 1
   \<and> length (fst (snd (validate_extraction [ex_claim_proposal] [ex_source] [])))
     + length (snd (snd (validate_extraction [ex_claim_proposal] [ex_source] []))) = 2"
proof -
  obtain c err where e: "validate_extraction [ex_claim_proposal] [ex_source] [] =
    ([c], [new_evidence ''e001'' (ex_proposal ''Has 30B'') ex_passage 0 8 WhitespaceNormalized], [err])"
    using ex_extraction by blast
  have "length (cp_evidence ex_claim_proposal) = 2" by (simp add: ex_claim_proposal_def)
  with extraction_accounts_for_everything [OF e] show ?thesis unfolding e by simp
qed

end
