(* ===== verification/Comparison.thy ===== *)
theory Comparison
  imports Evidence_Extraction
begin

text \<open>
  The deterministic guard of \<open>evidence.py\<close> between a claim and a quotation that is said to support it:
  numbers whose precision differs and comparisons the quotation does not make. Normalization, case
  folding and the Unicode classes behind \<open>\d\<close> and \<open>\w\<close> are parameters.
\<close>

record unicode =
  u_nfkc :: "utext \<Rightarrow> utext"
  u_casefold :: "utext \<Rightarrow> utext"
  u_digit :: "codepoint \<Rightarrow> bool"
  u_word :: "codepoint \<Rightarrow> bool"

section \<open>Quantities\<close>

definition ascii_alnum :: "codepoint \<Rightarrow> bool" where
  "ascii_alnum c \<longleftrightarrow> (48 \<le> c \<and> c \<le> 57) \<or> (65 \<le> c \<and> c \<le> 90) \<or> (97 \<le> c \<and> c \<le> 122)"

definition hyphens :: "codepoint list" where
  "hyphens = [45, 8209, 8211, 8213]"

text \<open>The matches of digits with an optional decimal part: where each starts and ends.\<close>

function number_tokens :: "(codepoint \<Rightarrow> bool) \<Rightarrow> nat \<Rightarrow> utext \<Rightarrow> (nat \<times> nat) list" where
  "number_tokens dg i [] = []"
| "number_tokens dg i (c # cs) =
     (if dg c then
        let n = Suc (length (takeWhile dg cs)); rest = dropWhile dg cs;
            m = (case rest of [] \<Rightarrow> 0
                 | x # r \<Rightarrow> if x = 46 \<and> takeWhile dg r \<noteq> [] then Suc (length (takeWhile dg r)) else 0)
        in (i, i + n + m) # number_tokens dg (i + n + m) (drop m rest)
      else number_tokens dg (Suc i) cs)"
  by pat_completeness auto
termination
  by (relation "measure (\<lambda>(dg, i, t). length t)")
    (auto simp: less_Suc_eq_le intro: le_trans [OF diff_le_self length_dropWhile_le])

text \<open>\<open>_QUANTITY_UNIT\<close>, its alternatives in order, without regard to case: the length of the unit.\<close>

definition lower :: "codepoint \<Rightarrow> codepoint" where
  "lower c = (if 65 \<le> c \<and> c \<le> 90 then c + 32 else if c = 383 then 115 else if c = 8490 then 107 else c)"

definition begins :: "utext \<Rightarrow> utext \<Rightarrow> bool" where
  "begins p t \<longleftrightarrow> take (length p) t = p"

definition scale :: "codepoint list" where
  "scale = [107, 109, 103, 116, 112]"

definition unit_length :: "utext \<Rightarrow> nat option" where
  "unit_length t =
     (let l = map lower (take 2 t) in
      if begins [20740, 19975] t \<or> begins [30334, 19975] t then Some 2
      else if begins [20493] t \<or> begins [37] t then Some 1
      else if length l = 2 \<and> hd l \<in> set scale \<and> l ! 1 = 98 then Some 2
      else if begins [98] l then Some 1
      else if l = [109, 115] \<or> l = [107, 109] \<or> l = [107, 103] then Some 2
      else if l \<noteq> [] \<and> hd l \<in> set scale then Some 1
      else if begins [20806] t \<or> begins [20740] t \<or> begins [19975] t \<or> begins [21315] t then Some 1
      else if l \<noteq> [] \<and> hd l \<in> {115, 109, 120} then Some 1
      else None)"

definition rstrip_char :: "codepoint \<Rightarrow> utext \<Rightarrow> utext" where
  "rstrip_char c t = rev (dropWhile (\<lambda>x. x = c) (rev t))"

definition quantity_core :: "utext \<Rightarrow> utext" where
  "quantity_core core = (if 46 \<in> set core then rstrip_char 46 (rstrip_char 48 core) else core)"

definition quantity_at :: "utext \<Rightarrow> nat \<times> nat \<Rightarrow> (utext \<times> utext) option" where
  "quantity_at t sp =
     (case sp of (s, e) \<Rightarrow>
        let before = (if 0 < s then take 1 (drop (s - 1) t) else []) in
        if list_ex ascii_alnum before \<or> list_ex (\<lambda>c. c \<in> set hyphens) before then None
        else case unit_length (drop e t) of
          None \<Rightarrow> None
        | Some n \<Rightarrow>
            let after = take 1 (drop (e + n) t); unit = take n (drop e t) in
            if list_ex (\<lambda>c. c \<in> set hyphens) after then None
            else if list_all (\<lambda>c. c < 128) unit \<and> list_ex ascii_alnum after then None
            else Some (quantity_core (slice s e t), unit))"

definition quantities :: "unicode \<Rightarrow> utext \<Rightarrow> (utext \<times> utext) list" where
  "quantities u text =
     (let t = u_nfkc u text in List.map_filter (quantity_at t) (number_tokens (u_digit u) 0 t))"

definition precision_conflict :: "utext \<Rightarrow> utext \<Rightarrow> bool" where
  "precision_conflict claim_core quote_core \<longleftrightarrow> claim_core \<noteq> quote_core
     \<and> (begins (claim_core @ [46]) quote_core \<or> begins (quote_core @ [46]) claim_core)"

section \<open>Comparisons\<close>

text \<open>\<open>\b\<close> between positions \<open>i - 1\<close> and \<open>i\<close>.\<close>

definition boundary :: "unicode \<Rightarrow> utext \<Rightarrow> nat \<Rightarrow> bool" where
  "boundary u t i \<longleftrightarrow> (0 < i \<and> i \<le> length t \<and> u_word u (t ! (i - 1))) \<noteq> (i < length t \<and> u_word u (t ! i))"

definition inflections :: "utext list" where
  "inflections = [ascii ''s'', ascii ''es'', ascii ''ed'', ascii ''ing'', ascii ''d'', []]"

definition marker_end :: "unicode \<Rightarrow> utext \<Rightarrow> utext \<Rightarrow> nat \<Rightarrow> nat option" where
  "marker_end u marker t i =
     (if \<not> begins marker (drop i t) then None
      else if list_all (\<lambda>c. c < 128) marker then
        if boundary u t i
        then map_option (\<lambda>w. i + length marker + length w)
               (find (\<lambda>w. begins w (drop (i + length marker) t)
                          \<and> boundary u t (i + length marker + length w)) inflections)
        else None
      else Some (i + length marker))"

text \<open>\<open>re.finditer\<close>: from left to right, each match after the end of the last. A marker is never empty.\<close>

function marker_spans_from :: "unicode \<Rightarrow> utext \<Rightarrow> utext \<Rightarrow> nat \<Rightarrow> (nat \<times> nat) list" where
  "marker_spans_from u marker t i =
     (if length t \<le> i then []
      else case marker_end u marker t i of
        Some e \<Rightarrow> if i < e then (i, e) # marker_spans_from u marker t e
                  else marker_spans_from u marker t (Suc i)
      | None \<Rightarrow> marker_spans_from u marker t (Suc i))"
  by pat_completeness auto
termination by (relation "measure (\<lambda>(u, marker, t, i). length t - i)") auto

declare marker_spans_from.simps [simp del]

definition marker_spans :: "unicode \<Rightarrow> utext \<Rightarrow> utext \<Rightarrow> (nat \<times> nat) list" where
  "marker_spans u t marker = marker_spans_from u marker t 0"

text \<open>\<open>_NEGATION_EN\<close>. The alternatives with two words end in \<open>not\<close> after white space, so the pattern
  holds when the text before the marker ends in white space after \<open>n't\<close> or after one of these
  words at a word boundary.\<close>

definition negation_words :: "utext list" where
  "negation_words = [ascii ''cannot'', ascii ''without'', ascii ''never'', ascii ''not'', ascii ''no'']"

definition ends :: "utext \<Rightarrow> utext \<Rightarrow> bool" where
  "ends w t \<longleftrightarrow> begins (rev w) (rev t)"

definition negated_en :: "unicode \<Rightarrow> utext \<Rightarrow> bool" where
  "negated_en u before =
     (let body = rev (dropWhile py_space (rev before))
      in body \<noteq> before
         \<and> (ends [110, 39, 116] body
            \<or> list_ex (\<lambda>w. ends w body \<and> boundary u body (length body - length w)) negation_words))"

definition negated :: "unicode \<Rightarrow> utext \<Rightarrow> nat \<times> nat \<Rightarrow> bool" where
  "negated u t sp =
     (case sp of (s, e) \<Rightarrow>
        negated_en u (slice (s - 12) s t)
        \<or> (0 < s \<and> t ! (s - 1) = 38750)
        \<or> (let tail = slice e (e + 6) t
           in list_ex (\<lambda>k. list_ex (\<lambda>w. begins w (drop k tail)) negation_ja) [0, 1, 2]))"

definition all_spans :: "unicode \<Rightarrow> utext \<Rightarrow> (nat \<times> nat \<times> nat) list" where
  "all_spans u t = concat (map (\<lambda>(level, markers).
     concat (map (\<lambda>m. map (\<lambda>(s, e). (s, e, level)) (marker_spans u t m)) markers)) comparison_levels)"

definition sorted_spans :: "unicode \<Rightarrow> utext \<Rightarrow> (nat \<times> nat \<times> nat) list" where
  "sorted_spans u t = sort_key (\<lambda>(s, e, level). (int s - int e, int s)) (all_spans u t)"

definition apart :: "nat \<times> nat \<times> nat \<Rightarrow> nat \<times> nat \<times> nat \<Rightarrow> bool" where
  "apart x y \<longleftrightarrow> fst (snd x) \<le> fst y \<or> fst (snd y) \<le> fst x"

fun pick :: "(nat \<times> nat \<times> nat) list \<Rightarrow> (nat \<times> nat \<times> nat) list \<Rightarrow> (nat \<times> nat \<times> nat) list" where
  "pick chosen [] = chosen"
| "pick chosen (x # xs) =
     (if list_all (apart x) chosen then pick (chosen @ [x]) xs else pick chosen xs)"

definition comparison_level :: "unicode \<Rightarrow> utext \<Rightarrow> nat" where
  "comparison_level u text =
     (let t = u_casefold u (u_nfkc u text);
          kept = filter (\<lambda>(s, e, level). \<not> negated u t (s, e)) (pick [] (sorted_spans u t))
      in fold max (map (\<lambda>(s, e, level). level) kept) 0)"

section \<open>The guard\<close>

text \<open>\<open>list(dict.fromkeys(_))\<close>: the first occurrences, in order.\<close>

definition py_unique :: "'a list \<Rightarrow> 'a list" where
  "py_unique xs = rev (remdups (rev xs))"

definition precision_detail :: "utext \<times> utext \<Rightarrow> utext \<times> utext \<Rightarrow> utext" where
  "precision_detail c q = msg_precision_a @ fst c @ snd c @ msg_precision_b @ fst q @ snd q
     @ msg_precision_c @ msg_precision_d"

definition quantity_details :: "unicode \<Rightarrow> (utext \<times> utext) list \<Rightarrow> (utext \<times> utext) list \<Rightarrow> utext list" where
  "quantity_details u cq qq =
     (let exact = map (\<lambda>(core, unit). (core, u_casefold u unit)) qq in
      concat (map (\<lambda>c.
        if (fst c, u_casefold u (snd c)) \<in> set exact then []
        else map (precision_detail c) (filter (\<lambda>q. u_casefold u (snd q) = u_casefold u (snd c)
               \<and> precision_conflict (fst c) (fst q)) qq)) cq))"

definition support_conflicts :: "unicode \<Rightarrow> utext \<Rightarrow> utext \<Rightarrow> utext list" where
  "support_conflicts u claim_text quote_text =
     (let cq = quantities u claim_text; qq = quantities u quote_text;
          numeric = (if cq \<noteq> [] \<and> qq \<noteq> [] then quantity_details u cq qq else []);
          level = comparison_level u claim_text
      in py_unique (numeric
           @ (if level \<noteq> 0 \<and> comparison_level u quote_text < level then [msg_comparison] else [])))"

section \<open>Facts\<close>

lemma set_py_unique [simp]: "set (py_unique xs) = set xs"
  by (simp add: py_unique_def)

lemma py_unique_Nil [simp]: "py_unique xs = [] \<longleftrightarrow> xs = []"
  by (simp add: py_unique_def)

lemma distinct_py_unique [simp]: "distinct (py_unique xs)"
  by (simp add: py_unique_def)

lemma precision_conflict_sym: "precision_conflict a b \<longleftrightarrow> precision_conflict b a"
  by (auto simp: precision_conflict_def)

lemma fold_max_least: "fold max xs (a :: nat) \<le> b \<longleftrightarrow> a \<le> b \<and> (\<forall>x \<in> set xs. x \<le> b)"
  by (induction xs arbitrary: a) auto

lemma fold_max_in: "fold max xs (a :: nat) = a \<or> fold max xs a \<in> set xs"
proof (induction xs arbitrary: a)
  case (Cons x xs)
  then show ?case by (cases "x \<le> a") (auto simp: max_def dest: meta_spec [of _ x] meta_spec [of _ a])
qed simp

lemma apart_sym: "apart x y \<longleftrightarrow> apart y x"
  by (auto simp: apart_def)

text \<open>What the greedy choice keeps: the chosen spans are pairwise apart, and a span is dropped only
  for a chosen one that comes before it.\<close>

lemma pick_keeps: "set chosen \<subseteq> set (pick chosen xs)"
  by (induction chosen xs rule: pick.induct) auto

lemma pick_subset: "set (pick chosen xs) \<subseteq> set chosen \<union> set xs"
  by (induction chosen xs rule: pick.induct) auto

lemma pick_apart:
  "sorted_wrt apart chosen \<Longrightarrow> sorted_wrt apart (pick chosen xs)"
  by (induction chosen xs rule: pick.induct) (auto simp: sorted_wrt_append list_all_iff apart_sym)

lemma pick_dropped:
  assumes "sorted_wrt R (pre @ xs)" "set chosen \<subseteq> set pre" "x \<in> set xs" "x \<notin> set (pick chosen xs)"
  shows "\<exists>y \<in> set (pick chosen xs). \<not> apart x y \<and> R y x"
  using assms
proof (induction xs arbitrary: pre chosen)
  case (Cons a xs)
  show ?case
  proof (cases "list_all (apart a) chosen")
    case True
    have "x \<noteq> a" using Cons.prems(4) pick_keeps [of "chosen @ [a]" xs] True by auto
    then have "\<exists>y \<in> set (pick (chosen @ [a]) xs). \<not> apart x y \<and> R y x"
      using Cons.prems True by (intro Cons.IH [of "pre @ [a]"]) auto
    with True show ?thesis by simp
  next
    case False
    show ?thesis
    proof (cases "x = a")
      case True
      from False obtain y where y: "y \<in> set chosen" "\<not> apart a y" by (auto simp: list_all_iff)
      with Cons.prems(1,2) True have "R y x" by (auto simp: sorted_wrt_append)
      with y True False pick_keeps [of chosen xs] show ?thesis by auto
    next
      case False
      then have "\<exists>y \<in> set (pick chosen xs). \<not> apart x y \<and> R y x"
        using Cons.prems \<open>\<not> list_all (apart a) chosen\<close> by (intro Cons.IH [of "pre @ [a]"]) auto
      with \<open>\<not> list_all (apart a) chosen\<close> show ?thesis by simp
    qed
  qed
qed simp


section \<open>Properties\<close>

definition span_level :: "nat \<times> nat \<times> nat \<Rightarrow> nat" where
  "span_level x = snd (snd x)"

definition span_length :: "nat \<times> nat \<times> nat \<Rightarrow> int" where
  "span_length x = int (fst (snd x)) - int (fst x)"

lemma comparison_level_fold:
  "comparison_level u text = fold max (map span_level (filter (\<lambda>x. \<not> negated u (u_casefold u (u_nfkc u text))
     (fst x, fst (snd x))) (pick [] (sorted_spans u (u_casefold u (u_nfkc u text)))))) 0"
proof -
  have "(\<lambda>(s, e, level). level) = span_level" by (auto simp: span_level_def)
  moreover have "(\<lambda>(s, e, level). \<not> negated u t (s, e)) = (\<lambda>x :: nat \<times> nat \<times> nat. \<not> negated u t (fst x, fst (snd x)))" for t
    by auto
  ultimately show ?thesis by (simp only: comparison_level_def Let_def)
qed

lemma sorted_spans_length:
  "sorted_wrt (\<lambda>y x. span_length x \<le> span_length y) (sorted_spans u t)"
proof -
  have "sorted (map (\<lambda>(s, e, level). (int s - int e, int s)) (sorted_spans u t))"
    unfolding sorted_spans_def by (rule sorted_sort_key)
  then show ?thesis
    unfolding sorted_map
    by (rule sorted_wrt_mono_rel [rotated]) (auto simp: span_length_def less_eq_prod_def)
qed

lemma set_sorted_spans [simp]: "set (sorted_spans u t) = set (all_spans u t)"
  by (simp add: sorted_spans_def)

lemma all_spans_level: "x \<in> set (all_spans u t) \<Longrightarrow> span_level x \<in> {2, 3, 4}"
  by (auto simp: all_spans_def comparison_levels_def span_level_def)

text \<open>The comparison a text makes: of all marker occurrences, the pairwise disjoint ones are chosen
  so that any other occurrence overlaps a chosen one at least as long (so ``equal or better'' is never
  read as the weaker ``equal''); the level is the highest among the chosen ones no explicit negation is
  attached to, and zero when there is none.\<close>

theorem comparison_counts_the_longest:
  assumes "t = u_casefold u (u_nfkc u text)" "kept = pick [] (sorted_spans u t)"
  shows "sorted_wrt apart kept \<and> set kept \<subseteq> set (all_spans u t)
    \<and> (\<forall>x \<in> set (all_spans u t). x \<in> set kept \<or> (\<exists>y \<in> set kept. \<not> apart x y \<and> span_length x \<le> span_length y))
    \<and> comparison_level u text \<in> {0, 2, 3, 4}
    \<and> (\<forall>n > 0. n \<le> comparison_level u text \<longleftrightarrow>
         (\<exists>x \<in> set kept. \<not> negated u t (fst x, fst (snd x)) \<and> n \<le> span_level x))"
proof (intro conjI ballI allI impI)
  let ?live = "filter (\<lambda>x. \<not> negated u t (fst x, fst (snd x))) kept"
  have level: "comparison_level u text = fold max (map span_level ?live) 0"
    by (simp only: comparison_level_fold assms)
  show "sorted_wrt apart kept" unfolding assms(2) by (intro pick_apart) simp
  show sub: "set kept \<subseteq> set (all_spans u t)" unfolding assms(2) using pick_subset [of "[]" "sorted_spans u t"] by simp
  show "x \<in> set kept \<or> (\<exists>y \<in> set kept. \<not> apart x y \<and> span_length x \<le> span_length y)"
    if "x \<in> set (all_spans u t)" for x
    using pick_dropped [of _ "[]" "sorted_spans u t" "[]", OF _ _ _ , simplified, OF sorted_spans_length that]
    unfolding assms(2) by blast
  show "comparison_level u text \<in> {0, 2, 3, 4}"
    using fold_max_in [of "map span_level ?live" 0] all_spans_level sub unfolding level by fastforce
  show "n \<le> comparison_level u text \<longleftrightarrow> (\<exists>x \<in> set kept. \<not> negated u t (fst x, fst (snd x)) \<and> n \<le> span_level x)"
    if "0 < n" for n
  proof
    assume n: "n \<le> comparison_level u text"
    then have "fold max (map span_level ?live) 0 \<in> set (map span_level ?live)"
      using that fold_max_in [of "map span_level ?live" 0] unfolding level by auto
    with n show "\<exists>x \<in> set kept. \<not> negated u t (fst x, fst (snd x)) \<and> n \<le> span_level x"
      unfolding level by auto
  next
    assume "\<exists>x \<in> set kept. \<not> negated u t (fst x, fst (snd x)) \<and> n \<le> span_level x"
    then obtain x where x: "span_level x \<in> set (map span_level ?live)" "n \<le> span_level x" by auto
    have "\<forall>y \<in> set (map span_level ?live). y \<le> fold max (map span_level ?live) 0"
      using fold_max_least [of "map span_level ?live" 0] by blast
    with x(1) have "span_level x \<le> comparison_level u text" unfolding level by (rule bspec [rotated])
    with x(2) show "n \<le> comparison_level u text" by (rule le_trans)
  qed
qed

definition ex_unicode :: unicode where
  "ex_unicode = \<lparr> u_nfkc = map (\<lambda>c. if c = 8209 then 8208 else c), u_casefold = map lower,
     u_digit = (\<lambda>c. 48 \<le> c \<and> c \<le> 57), u_word = ascii_alnum \<rparr>"

lemma marker_end_needs: "marker \<noteq> [] \<Longrightarrow> hd marker \<notin> set t \<Longrightarrow> marker_end u marker t i = None"
  by (cases marker; cases "drop i t") (auto simp: marker_end_def begins_def dest!: arg_cong [of "drop i t" _ set] dest: in_set_dropD)

lemma marker_spans_none: "marker \<noteq> [] \<Longrightarrow> hd marker \<notin> set t \<Longrightarrow> marker_spans_from u marker t i = []"
proof (induction u marker t i rule: marker_spans_from.induct)
  case (1 u marker t i)
  then show ?case by (subst marker_spans_from.simps) (simp add: marker_end_needs)
qed

lemma ex_comparison_spans:
  "all_spans ex_unicode (ascii ''surpass'') = [(0, 7, 4)]" 
  by (simp add: all_spans_def comparison_levels_def marker_spans_def marker_spans_none ascii_def marker_spans_from.simps marker_end_def
    begins_def boundary_def ex_unicode_def inflections_def ascii_alnum_def)

theorem comparison_counts_the_longest_witness:
  "comparison_level ex_unicode (ascii ''surpass'') = 4"
proof -
  let ?t = "u_casefold ex_unicode (u_nfkc ex_unicode (ascii ''surpass''))"
  have t: "?t = ascii ''surpass''" by (simp add: ex_unicode_def ascii_def lower_def)
  have kept: "pick [] (sorted_spans ex_unicode ?t) = [(0, 7, 4)]"
    by (simp add: t sorted_spans_def ex_comparison_spans)
  have "\<not> negated ex_unicode ?t (0, 7)"
    unfolding t by (simp add: negated_def negated_en_def slice_def ascii_def negation_ja_def begins_def)
  with comparison_counts_the_longest [OF refl kept [symmetric]]
  have "4 \<le> comparison_level ex_unicode (ascii ''surpass'')"
    "comparison_level ex_unicode (ascii ''surpass'') \<in> {0, 2, 3, 4}"
    by (auto simp: span_level_def)
  then show ?thesis by auto
qed

text \<open>What makes the guard speak.\<close>

lemma quantity_details_iff:
  "quantity_details u cq qq = [] \<longleftrightarrow>
     (\<forall>x \<in> set cq. \<forall>y \<in> set qq. u_casefold u (snd y) = u_casefold u (snd x) \<longrightarrow> precision_conflict (fst x) (fst y)
          \<longrightarrow> (\<exists>z \<in> set qq. fst z = fst x \<and> u_casefold u (snd z) = u_casefold u (snd x)))"
proof -
  have e: "(a, b) \<in> (\<lambda>(core, unit). (core, u_casefold u unit)) ` set qq
      \<longleftrightarrow> (\<exists>z \<in> set qq. fst z = a \<and> u_casefold u (snd z) = b)" for a b
    by force
  let ?stated = "\<lambda>x. \<exists>z \<in> set qq. fst z = fst x \<and> u_casefold u (snd z) = u_casefold u (snd x)"
  have "quantity_details u cq qq = [] \<longleftrightarrow> (\<forall>x \<in> set cq. ?stated x \<or>
      (\<forall>y \<in> set qq. \<not> (u_casefold u (snd y) = u_casefold u (snd x) \<and> precision_conflict (fst x) (fst y))))"
    unfolding quantity_details_def Let_def concat_eq_Nil_conv set_map ball_simps e
    by (intro ball_cong refl) (simp add: filter_empty_conv split del: if_split split: if_splits, blast)
  then show ?thesis by blast
qed

text \<open>C21. The guard between a claim and a quotation is silent exactly when the quotation makes a
  comparison at least as strong and every quantity of the claim that differs only in precision from a
  quantity of the quotation with the same unit is also stated by the quotation exactly.\<close>

theorem guard_is_exact:
  "support_conflicts u c q = [] \<longleftrightarrow>
     comparison_level u c \<le> comparison_level u q
     \<and> (\<forall>x \<in> set (quantities u c). \<forall>y \<in> set (quantities u q).
          u_casefold u (snd y) = u_casefold u (snd x) \<longrightarrow> precision_conflict (fst x) (fst y)
          \<longrightarrow> (\<exists>z \<in> set (quantities u q). fst z = fst x \<and> u_casefold u (snd z) = u_casefold u (snd x)))"
proof -
  have "(if quantities u c \<noteq> [] \<and> quantities u q \<noteq> [] then quantity_details u (quantities u c) (quantities u q) else []) = []
      \<longleftrightarrow> quantity_details u (quantities u c) (quantities u q) = []"
    by (auto simp: quantity_details_def)
  then show ?thesis
    unfolding support_conflicts_def Let_def py_unique_Nil append_is_Nil_conv quantity_details_iff
    by auto
qed

lemmas quantity_simps = quantities_def quantity_at_def unit_length_def ascii_alnum_def hyphens_def ascii_def
  begins_def slice_def scale_def lower_def quantity_core_def rstrip_char_def ex_unicode_def List.map_filter_simps Let_def

lemma ex_quantities:
  "quantities ex_unicode (ascii ''30B'') = [([51, 48], [66])]"
  "quantities ex_unicode (ascii ''30.5B'') = [([51, 48, 46, 53], [66])]"
  "quantities ex_unicode (ascii ''Qwen3-30B'') = []"
  "quantities ex_unicode (ascii ''Qwen3'' @ [8209] @ ascii ''30B'') = [([51, 48], [66])]"
  by (simp_all add: quantity_simps)

theorem guard_is_exact_witness: "support_conflicts ex_unicode (ascii ''30B'') (ascii ''30.5B'') \<noteq> []"
  unfolding guard_is_exact ex_quantities
  by (simp add: precision_conflict_def begins_def ex_unicode_def lower_def)

text \<open>Under NFKC the non-breaking hyphen U+2011 becomes U+2010, which \<open>_HYPHENS\<close> does not list: the
  digits of a model name joined by it count as a quantity, those joined by an ASCII hyphen do not.\<close>

theorem non_breaking_hyphen_is_missed:
  "quantities ex_unicode (ascii ''Qwen3-30B'') = []
   \<and> quantities ex_unicode (ascii ''Qwen3'' @ [8209] @ ascii ''30B'') = [([51, 48], [66])]"
  using ex_quantities by simp

end
