(* ===== verification/Review.thy ===== *)
theory Review
  imports Comparison
begin

text \<open>
  \<open>apply_review\<close> of \<open>evidence.py\<close>: a model's separate judgement of claims and quotations is taken over
  only when it covers the evidence exactly, and the status it asks for only when the judged evidence
  meets that status. The evidence list is updated in place and passed along.
\<close>

record evidence_check =
  ec_id :: string
  ec_relation :: relation
  ec_conditions_match :: bool
  ec_primary :: bool
  ec_reason :: utext

record claim_check =
  ck_id :: string
  ck_status :: claim_status
  ck_reason :: utext
  ck_conditions :: utext
  ck_uncertainty :: "utext list"
  ck_items :: "evidence_check list"
  ck_inference :: "string list"

datatype independence = Confirmed | Unknown

record origin_group =
  gr_id :: string
  gr_sources :: "string list"
  gr_urls :: "string list"
  gr_reasons :: "utext list"
  gr_independence :: independence

section \<open>Identifiers that occur once\<close>

definition once :: "('a \<Rightarrow> string) \<Rightarrow> string \<Rightarrow> 'a list \<Rightarrow> 'a option" where
  "once key i xs = (if count_rows (\<lambda>x. key x = i) xs = 1 then find_row key i xs else None)"

definition global_error :: "claim list \<Rightarrow> claim_check list \<Rightarrow> bool" where
  "global_error claims checks \<longleftrightarrow>
     list_ex (\<lambda>ck. (\<not> row_exists (\<lambda>c. cl_id c = ck_id ck) claims)
                 \<or> count_rows (\<lambda>x. ck_id x = ck_id ck) checks \<noteq> 1) checks"

definition owners :: "claim list \<Rightarrow> string \<Rightarrow> nat" where
  "owners claims i = count_list (concat (map cl_evidence_ids claims)) i"

definition covers :: "claim list \<Rightarrow> evidence list \<Rightarrow> claim \<Rightarrow> claim_check \<Rightarrow> bool" where
  "covers claims evs c ck \<longleftrightarrow>
     (let checked_ids = map ec_id (ck_items ck) in
      distinct checked_ids \<and> distinct (cl_evidence_ids c)
      \<and> set checked_ids = set (cl_evidence_ids c)
      \<and> list_all (\<lambda>i. once ev_id i evs \<noteq> None \<and> owners claims i = 1) checked_ids)"

text \<open>A source belongs to a group as often as the group lists it.\<close>

definition memberships :: "origin_group list \<Rightarrow> string \<Rightarrow> origin_group list" where
  "memberships groups s = concat (map (\<lambda>g. replicate (count_list (gr_sources g) s) g) groups)"

definition confirmed_group :: "origin_group list \<Rightarrow> evidence \<Rightarrow> string option" where
  "confirmed_group groups e =
     (case memberships groups (ev_source_id e) of
        [g] \<Rightarrow> if count_rows (\<lambda>x. gr_id x = gr_id g) groups = 1 \<and> gr_independence g = Confirmed
               then Some (gr_id g) else None
      | _ \<Rightarrow> None)"

definition confirmed_groups :: "origin_group list \<Rightarrow> evidence list \<Rightarrow> string set" where
  "confirmed_groups groups supporting = set (List.map_filter (confirmed_group groups) supporting)"

section \<open>Judging one item\<close>

definition reset_evidence :: "evidence \<Rightarrow> evidence" where
  "reset_evidence e =
     e\<lparr> ev_checked := False, ev_check_reason := None, ev_conditions_match := None, ev_is_primary := None \<rparr>"

definition conflicts_of :: "unicode \<Rightarrow> utext \<Rightarrow> evidence_check \<Rightarrow> evidence \<Rightarrow> utext list" where
  "conflicts_of u claim_text chk e =
     (if ec_conditions_match chk \<and> ec_relation chk = Supports
      then support_conflicts u claim_text (ev_quote e) else [])"

definition judged :: "unicode \<Rightarrow> utext \<Rightarrow> evidence_check \<Rightarrow> evidence \<Rightarrow> evidence" where
  "judged u claim_text chk e =
     (let details = conflicts_of u claim_text chk e in
      e\<lparr> ev_relation := (if details = [] then ec_relation chk else ContextOnly), ev_checked := True,
         ev_check_reason := Some (ec_reason chk @ concat details),
         ev_conditions_match := Some (ec_conditions_match chk), ev_is_primary := Some (ec_primary chk) \<rparr>)"

record tally =
  ty_evidence :: "evidence list"
  ty_uncertainty :: "utext list"
  ty_supporting :: "evidence list"
  ty_contradicting :: "evidence list"
  ty_conflicts :: "utext list"

definition judge_item :: "unicode \<Rightarrow> utext \<Rightarrow> evidence_check \<Rightarrow> tally \<Rightarrow> tally" where
  "judge_item u claim_text chk ty =
     (case find_row ev_id (ec_id chk) (ty_evidence ty) of
        None \<Rightarrow> ty
      | Some e0 \<Rightarrow>
          let e = judged u claim_text chk e0; details = conflicts_of u claim_text chk e0;
              ty' = ty\<lparr> ty_evidence :=
                update_rows (\<lambda>x. ev_id x = ec_id chk) (judged u claim_text chk) (ty_evidence ty) \<rparr>
          in if \<not> ec_conditions_match chk
             then ty'\<lparr> ty_uncertainty := ty_uncertainty ty
                       @ [ascii (ec_id chk) @ msg_conditions @ ec_reason chk] \<rparr>
             else if ec_relation chk = Supports
             then (if details \<noteq> []
                   then ty'\<lparr> ty_uncertainty := ty_uncertainty ty
                               @ map (\<lambda>d. ascii (ec_id chk) @ ascii '': '' @ d) details,
                             ty_conflicts := ty_conflicts ty @ details \<rparr>
                   else ty'\<lparr> ty_supporting := ty_supporting ty @ [e] \<rparr>)
             else if ec_relation chk = Contradicts
             then ty'\<lparr> ty_contradicting := ty_contradicting ty @ [e] \<rparr>
             else ty')"

section \<open>Judging one claim\<close>

definition supported :: "claim_status \<Rightarrow> bool" where
  "supported s \<longleftrightarrow> s = SupportedPrimary \<or> s = Corroborated"

text \<open>The status a check may give to a claim, with what is added to the reason.\<close>

definition gate :: "claim_status \<Rightarrow> evidence list \<Rightarrow> evidence list \<Rightarrow> string set \<Rightarrow> claim_status \<times> utext" where
  "gate asked supporting contradicting confirmed =
     (let primary = list_ex (\<lambda>e. ev_is_primary e = Some True) supporting in
      if supporting \<noteq> [] \<and> contradicting \<noteq> [] then (Conflicting, msg_conflicting)
      else if asked = Inference then (Insufficient, [])
      else if asked = Refuted \<and> contradicting \<noteq> [] \<and> supporting = [] then (Refuted, [])
      else if supported asked \<and> supporting \<noteq> [] \<and> contradicting = [] then
        (if asked = Corroborated \<and> 2 \<le> card confirmed then (Corroborated, [])
         else if primary
         then (SupportedPrimary, if asked = Corroborated then msg_primary_only else [])
         else (Insufficient, msg_no_primary))
      else if asked \<noteq> Insufficient then (Insufficient, msg_not_met)
      else (Insufficient, []))"

definition refused :: "claim \<Rightarrow> utext \<Rightarrow> claim" where
  "refused c why =
     c\<lparr> cl_status := Insufficient, cl_checked := False, cl_inference_from := [], cl_reason := why \<rparr>"

definition tally_claim :: "unicode \<Rightarrow> claim \<Rightarrow> claim_check \<Rightarrow> evidence list \<Rightarrow> tally" where
  "tally_claim u c ck evs =
     fold (judge_item u (cl_text c)) (ck_items ck)
       \<lparr> ty_evidence = evs, ty_uncertainty = py_unique (cl_uncertainty c @ ck_uncertainty ck),
         ty_supporting = [], ty_contradicting = [], ty_conflicts = [] \<rparr>"

definition judge_claim ::
  "unicode \<Rightarrow> origin_group list \<Rightarrow> claim \<Rightarrow> claim_check \<Rightarrow> evidence list \<Rightarrow> claim \<times> evidence list" where
  "judge_claim u groups c ck evs =
     (let ty = tally_claim u c ck evs;
          (status, note) = gate (ck_status ck) (ty_supporting ty) (ty_contradicting ty)
                             (confirmed_groups groups (ty_supporting ty))
      in (c\<lparr> cl_status := status, cl_checked := True,
             cl_reason := ck_reason ck @ (if ty_conflicts ty \<noteq> [] then msg_conflict_note else []) @ note,
             cl_conditions := (if ck_conditions ck = [] then cl_conditions c else ck_conditions ck),
             cl_uncertainty := ty_uncertainty ty,
             cl_inference_from := (if status \<noteq> Conflicting \<and> ck_status ck = Inference
                                   then ck_inference ck else []) \<rparr>,
          ty_evidence ty))"

text \<open>What decides whether a claim is judged at all.\<close>

datatype verdict = Refuse utext | Judge claim_check

definition admit :: "claim list \<Rightarrow> evidence list \<Rightarrow> claim_check list \<Rightarrow> claim \<Rightarrow> verdict" where
  "admit claims evs checks c =
     (case once ck_id (cl_id c) checks of
        None \<Rightarrow> Refuse msg_bad_claim_id
      | Some ck \<Rightarrow>
          if global_error claims checks \<or> count_rows (\<lambda>x. cl_id x = cl_id c) claims \<noteq> 1
          then Refuse msg_bad_claim_id
          else if \<not> covers claims evs c ck then Refuse msg_bad_evidence_ids
          else if cl_evidence_ids c = [] \<and> ck_status ck \<noteq> Inference then Refuse msg_no_quote
          else Judge ck)"

definition review_claim ::
  "unicode \<Rightarrow> origin_group list \<Rightarrow> (claim \<Rightarrow> verdict) \<Rightarrow> claim \<Rightarrow> evidence list \<Rightarrow> claim \<times> evidence list" where
  "review_claim u groups verdict_of c evs =
     (case verdict_of c of Refuse why \<Rightarrow> (refused c why, evs) | Judge ck \<Rightarrow> judge_claim u groups c ck evs)"

fun review_claims ::
  "unicode \<Rightarrow> origin_group list \<Rightarrow> (claim \<Rightarrow> verdict) \<Rightarrow> claim list \<Rightarrow> claim list \<times> evidence list
   \<Rightarrow> claim list \<times> evidence list" where
  "review_claims u groups v [] st = st"
| "review_claims u groups v (c # cs) (out, evs) =
     (case review_claim u groups v c evs of (c', evs') \<Rightarrow> review_claims u groups v cs (out @ [c'], evs'))"

section \<open>Inferences\<close>

definition last_claim :: "claim list \<Rightarrow> string \<Rightarrow> claim option" where
  "last_claim cs i = find_row cl_id i (rev cs)"

definition resolves :: "claim list \<Rightarrow> claim \<Rightarrow> bool" where
  "resolves cs c \<longleftrightarrow>
     (let refs = cl_inference_from c in
      refs \<noteq> [] \<and> distinct refs \<and> cl_id c \<notin> set refs
      \<and> list_all (\<lambda>r. case last_claim cs r of
             None \<Rightarrow> False
           | Some x \<Rightarrow> cl_checked x \<and> supported (cl_status x) \<and> cl_evidence_ids x \<noteq> []) refs)"

definition infer_at :: "claim_check list \<Rightarrow> nat \<Rightarrow> claim list \<Rightarrow> claim list" where
  "infer_at checks k cs =
     (let c = cs ! k in
      case once ck_id (cl_id c) checks of
        None \<Rightarrow> cs
      | Some ck \<Rightarrow>
          if \<not> cl_checked c \<or> ck_status ck \<noteq> Inference \<or> cl_status c = Conflicting then cs
          else if resolves cs c then cs[k := c\<lparr> cl_status := Inference \<rparr>]
          else cs[k := c\<lparr> cl_inference_from := [], cl_reason := cl_reason c @ msg_inference \<rparr>])"

definition apply_review ::
  "unicode \<Rightarrow> claim list \<Rightarrow> evidence list \<Rightarrow> claim_check list \<Rightarrow> origin_group list
   \<Rightarrow> claim list \<times> evidence list" where
  "apply_review u claims evs checks groups =
     (let evs0 = map reset_evidence evs;
          (cs, evs') = review_claims u groups (admit claims evs checks) claims ([], evs0)
      in (fold (infer_at checks) [0..<length cs] cs, evs'))"


section \<open>Facts about judged items\<close>

lemma judged_simps [simp]:
  "ev_id (judged u t chk e) = ev_id e" "ev_quote (judged u t chk e) = ev_quote e"
  "ev_source_id (judged u t chk e) = ev_source_id e" "ev_checked (judged u t chk e)"
  "ev_conditions_match (judged u t chk e) = Some (ec_conditions_match chk)"
  "ev_is_primary (judged u t chk e) = Some (ec_primary chk)"
  "ev_relation (judged u t chk e) = (if conflicts_of u t chk e = [] then ec_relation chk else ContextOnly)"
  by (simp_all add: judged_def Let_def)

text \<open>What all checks of one claim do to an evidence item.\<close>

definition touch :: "unicode \<Rightarrow> utext \<Rightarrow> evidence_check list \<Rightarrow> evidence \<Rightarrow> evidence" where
  "touch u t items e = (case find_row ec_id (ev_id e) items of None \<Rightarrow> e | Some chk \<Rightarrow> judged u t chk e)"

lemma touch_id [simp]: "ev_id (touch u t items e) = ev_id e" "ev_quote (touch u t items e) = ev_quote e"
  by (simp_all add: touch_def split: option.split)

lemma update_rows_none: "find_row key i xs = None \<Longrightarrow> update_rows (\<lambda>x. key x = i) f xs = xs"
  by (induction xs) (auto split: if_splits)

lemma judge_item_evidence:
  "ty_evidence (judge_item u t chk ty)
     = update_rows (\<lambda>x. ev_id x = ec_id chk) (judged u t chk) (ty_evidence ty)"
proof (cases "find_row ev_id (ec_id chk) (ty_evidence ty)")
  case None
  then show ?thesis by (simp add: judge_item_def update_rows_none)
qed (simp add: judge_item_def Let_def)

lemma judge_items_evidence:
  "distinct (map ec_id items) \<Longrightarrow>
   ty_evidence (fold (judge_item u t) items ty) = map (touch u t items) (ty_evidence ty)"
proof (induction items arbitrary: ty)
  case (Cons chk items)
  have "touch u t items (if ev_id e = ec_id chk then judged u t chk e else e) = touch u t (chk # items) e" for e
    using Cons.prems by (auto simp: touch_def find_row_notin split: option.split)
  with Cons show ?case
    by (simp add: judge_item_evidence update_rows_def comp_def)
qed (simp add: touch_def map_idI)


text \<open>Which checks end up as support and as contradiction.\<close>

definition supports_item :: "unicode \<Rightarrow> utext \<Rightarrow> evidence_check \<Rightarrow> evidence \<Rightarrow> bool" where
  "supports_item u t chk e \<longleftrightarrow> ec_conditions_match chk \<and> ec_relation chk = Supports \<and> conflicts_of u t chk e = []"

definition opposes_item :: "evidence_check \<Rightarrow> bool" where
  "opposes_item chk \<longleftrightarrow> ec_conditions_match chk \<and> ec_relation chk = Contradicts"

lemma judge_item_sides:
  assumes "find_row ev_id (ec_id chk) (ty_evidence ty) = Some e"
  shows "ty_supporting (judge_item u t chk ty)
      = ty_supporting ty @ (if supports_item u t chk e then [judged u t chk e] else [])"
    and "ty_contradicting (judge_item u t chk ty)
      = ty_contradicting ty @ (if opposes_item chk then [judged u t chk e] else [])"
  using assms by (auto simp: judge_item_def Let_def supports_item_def opposes_item_def)

lemma find_row_update_other:
  "i \<noteq> k \<Longrightarrow> (\<And>e. key (f e) = key e) \<Longrightarrow>
   find_row key i (update_rows (\<lambda>x. key x = k) f xs) = find_row key i xs"
  by (induction xs) auto

lemma judge_item_other:
  "ec_id c \<noteq> ec_id chk \<Longrightarrow>
   find_row ev_id (ec_id c) (ty_evidence (judge_item u t chk ty)) = find_row ev_id (ec_id c) (ty_evidence ty)"
  unfolding judge_item_evidence by (rule find_row_update_other) simp_all

lemma judge_items_supporting:
  "distinct (map ec_id items) \<Longrightarrow> \<forall>c \<in> set items. find_row ev_id (ec_id c) (ty_evidence ty) \<noteq> None \<Longrightarrow>
   x \<in> set (ty_supporting (fold (judge_item u t) items ty)) \<longleftrightarrow> x \<in> set (ty_supporting ty)
      \<or> (\<exists>c \<in> set items. \<exists>e. find_row ev_id (ec_id c) (ty_evidence ty) = Some e \<and> supports_item u t c e \<and> x = judged u t c e)"
proof (induction items arbitrary: ty)
  case (Cons chk items)
  let ?ty = "judge_item u t chk ty"
  obtain e where e: "find_row ev_id (ec_id chk) (ty_evidence ty) = Some e" using Cons.prems(2) by auto
  have same: "find_row ev_id (ec_id c) (ty_evidence ?ty) = find_row ev_id (ec_id c) (ty_evidence ty)"
    if "c \<in> set items" for c
    using Cons.prems(1) that by (intro judge_item_other) (metis distinct.simps(2) image_eqI list.map(2) list.set_map)
  have "x \<in> set (ty_supporting (fold (judge_item u t) items ?ty)) \<longleftrightarrow> x \<in> set (ty_supporting ?ty)
      \<or> (\<exists>c \<in> set items. \<exists>e. find_row ev_id (ec_id c) (ty_evidence ?ty) = Some e \<and> supports_item u t c e \<and> x = judged u t c e)"
    using Cons.prems same by (intro Cons.IH) auto
  also have "\<dots> \<longleftrightarrow> x \<in> set (ty_supporting ?ty)
      \<or> (\<exists>c \<in> set items. \<exists>e. find_row ev_id (ec_id c) (ty_evidence ty) = Some e \<and> supports_item u t c e \<and> x = judged u t c e)"
    by (simp add: same cong: bex_cong)
  finally show ?case by (auto simp: judge_item_sides [OF e] e)
qed simp

lemma judge_items_contradicting:
  "distinct (map ec_id items) \<Longrightarrow> \<forall>c \<in> set items. find_row ev_id (ec_id c) (ty_evidence ty) \<noteq> None \<Longrightarrow>
   x \<in> set (ty_contradicting (fold (judge_item u t) items ty)) \<longleftrightarrow> x \<in> set (ty_contradicting ty)
      \<or> (\<exists>c \<in> set items. \<exists>e. find_row ev_id (ec_id c) (ty_evidence ty) = Some e \<and> opposes_item c \<and> x = judged u t c e)"
proof (induction items arbitrary: ty)
  case (Cons chk items)
  let ?ty = "judge_item u t chk ty"
  obtain e where e: "find_row ev_id (ec_id chk) (ty_evidence ty) = Some e" using Cons.prems(2) by auto
  have same: "find_row ev_id (ec_id c) (ty_evidence ?ty) = find_row ev_id (ec_id c) (ty_evidence ty)"
    if "c \<in> set items" for c
    using Cons.prems(1) that by (intro judge_item_other) (metis distinct.simps(2) image_eqI list.map(2) list.set_map)
  have "x \<in> set (ty_contradicting (fold (judge_item u t) items ?ty)) \<longleftrightarrow> x \<in> set (ty_contradicting ?ty)
      \<or> (\<exists>c \<in> set items. \<exists>e. find_row ev_id (ec_id c) (ty_evidence ?ty) = Some e \<and> opposes_item c \<and> x = judged u t c e)"
    using Cons.prems same by (intro Cons.IH) auto
  also have "\<dots> \<longleftrightarrow> x \<in> set (ty_contradicting ?ty)
      \<or> (\<exists>c \<in> set items. \<exists>e. find_row ev_id (ec_id c) (ty_evidence ty) = Some e \<and> opposes_item c \<and> x = judged u t c e)"
    by (simp add: same cong: bex_cong)
  finally show ?case by (auto simp: judge_item_sides [OF e] e)
qed simp

section \<open>What backs and what opposes a claim\<close>

definition backs :: "unicode \<Rightarrow> claim \<Rightarrow> evidence \<Rightarrow> bool" where
  "backs u c e \<longleftrightarrow> ev_id e \<in> set (cl_evidence_ids c) \<and> ev_checked e \<and> ev_relation e = Supports
     \<and> ev_conditions_match e = Some True \<and> support_conflicts u (cl_text c) (ev_quote e) = []"

definition opposes :: "claim \<Rightarrow> evidence \<Rightarrow> bool" where
  "opposes c e \<longleftrightarrow> ev_id e \<in> set (cl_evidence_ids c) \<and> ev_checked e \<and> ev_relation e = Contradicts
     \<and> ev_conditions_match e = Some True"

lemma backs_judged:
  "ev_id e \<in> set (cl_evidence_ids c) \<Longrightarrow> backs u c (judged u (cl_text c) chk e) \<longleftrightarrow> supports_item u (cl_text c) chk e"
  by (auto simp: backs_def supports_item_def conflicts_of_def split: if_splits)

lemma opposes_judged:
  "ev_id e \<in> set (cl_evidence_ids c) \<Longrightarrow> opposes c (judged u (cl_text c) chk e) \<longleftrightarrow> opposes_item chk"
  by (auto simp: opposes_def opposes_item_def conflicts_of_def split: if_splits)

lemma once_SomeD: "once key i xs = Some x \<Longrightarrow> find_row key i xs = Some x \<and> (\<forall>y \<in> set xs. key y = i \<longrightarrow> y = x)"
proof -
  assume o: "once key i xs = Some x"
  then have "length (filter (\<lambda>x. key x = i) xs) = 1" and f: "find_row key i xs = Some x"
    by (auto simp: once_def count_rows_def split: if_splits)
  from this(1) obtain z where "filter (\<lambda>x. key x = i) xs = [z]" by (auto simp: length_Suc_conv)
  from arg_cong [OF this, of set] have z: "{y \<in> set xs. key y = i} = {z}" by simp
  moreover have "x \<in> {y \<in> set xs. key y = i}" using f by (auto dest: find_row_SomeD)
  ultimately have "{y \<in> set xs. key y = i} = {x}" by auto
  with f show ?thesis by blast
qed

lemma once_ids:
  fixes evs evs' :: "evidence list"
  assumes "map ev_id evs' = map ev_id evs" "once ev_id i evs \<noteq> None"
  shows "once ev_id i evs' \<noteq> None"
proof -
  have c: "count_rows (\<lambda>x. ev_id x = i) xs = length (filter (\<lambda>j. j = i) (map ev_id xs))" for xs :: "evidence list"
    by (simp add: count_rows_def filter_map comp_def)
  have o: "once ev_id i xs \<noteq> None \<longleftrightarrow> length (filter (\<lambda>j. j = i) (map ev_id xs)) = 1 \<and> i \<in> set (map ev_id xs)"
    for xs :: "evidence list"
    unfolding once_def c using find_row_None [of ev_id i xs] by auto
  show ?thesis using assms(2) unfolding o assms(1) .
qed

lemma tally_sets:
  assumes cov: "covers claims evs0 c ck" and ids: "map ev_id evs = map ev_id evs0"
    and ty: "ty = tally_claim u c ck evs"
  shows "set (ty_supporting ty) = {e \<in> set (ty_evidence ty). backs u c e}"
    and "set (ty_contradicting ty) = {e \<in> set (ty_evidence ty). opposes c e}"
    and "ty_evidence ty = map (touch u (cl_text c) (ck_items ck)) evs"
proof -
  let ?t = "cl_text c" and ?items = "ck_items ck"
  have d: "distinct (map ec_id ?items)" and eq: "ec_id ` set ?items = set (cl_evidence_ids c)"
    and o0: "\<forall>chk \<in> set ?items. once ev_id (ec_id chk) evs0 \<noteq> None"
    using cov by (auto simp: covers_def Let_def list_all_iff)
  have o: "\<forall>chk \<in> set ?items. \<exists>e. once ev_id (ec_id chk) evs = Some e" using o0 once_ids [OF ids] by fastforce
  then have f: "\<forall>chk \<in> set ?items. find_row ev_id (ec_id chk) evs \<noteq> None" using once_SomeD by fastforce
  show ev: "ty_evidence ty = map (touch u ?t ?items) evs"
    unfolding ty tally_claim_def by (simp add: judge_items_evidence [OF d])
  have member: "e' \<in> set (map (touch u ?t ?items) evs) \<and> ev_id e' \<in> set (cl_evidence_ids c)
      \<longleftrightarrow> (\<exists>chk e. chk \<in> set ?items \<and> find_row ev_id (ec_id chk) evs = Some e \<and> e' = judged u ?t chk e)" for e'
  proof
    assume "e' \<in> set (map (touch u ?t ?items) evs) \<and> ev_id e' \<in> set (cl_evidence_ids c)"
    then obtain e where e: "e \<in> set evs" "e' = touch u ?t ?items e" "ev_id e \<in> ec_id ` set ?items" using eq by auto
    then obtain chk where chk: "find_row ec_id (ev_id e) ?items = Some chk"
      using find_row_None [of ec_id "ev_id e" ?items] by auto
    then have "chk \<in> set ?items" "ec_id chk = ev_id e" by (auto dest: find_row_SomeD)
    moreover from this o once_SomeD e(1) have "find_row ev_id (ec_id chk) evs = Some e" by fastforce
    ultimately show "\<exists>chk e. chk \<in> set ?items \<and> find_row ev_id (ec_id chk) evs = Some e \<and> e' = judged u ?t chk e"
      using e(2) chk by (auto simp: touch_def)
  next
    assume "\<exists>chk e. chk \<in> set ?items \<and> find_row ev_id (ec_id chk) evs = Some e \<and> e' = judged u ?t chk e"
    then obtain chk e where e: "chk \<in> set ?items" "find_row ev_id (ec_id chk) evs = Some e" "e' = judged u ?t chk e" by blast
    then have "e \<in> set evs" "ev_id e = ec_id chk" by (auto dest: find_row_SomeD)
    moreover from d e(1) this(2) have "find_row ec_id (ev_id e) ?items = Some chk" by (simp add: find_row_in)
    ultimately show "e' \<in> set (map (touch u ?t ?items) evs) \<and> ev_id e' \<in> set (cl_evidence_ids c)"
      using e eq by (force simp: touch_def)
  qed
  have f': "\<forall>chk \<in> set ?items. find_row ev_id (ec_id chk) (ty_evidence \<lparr> ty_evidence = evs,
      ty_uncertainty = py_unique (cl_uncertainty c @ ck_uncertainty ck),
      ty_supporting = [], ty_contradicting = [], ty_conflicts = [] \<rparr>) \<noteq> None"
    using f by simp
  have id: "ev_id e \<in> set (cl_evidence_ids c)"
    if "chk \<in> set ?items" "find_row ev_id (ec_id chk) evs = Some e" for chk e
    using that eq by (auto dest: find_row_SomeD)
  show "set (ty_supporting ty) = {e \<in> set (ty_evidence ty). backs u c e}"
  proof -
    have "set (ty_supporting ty) = {judged u ?t chk e |chk e. chk \<in> set ?items
        \<and> find_row ev_id (ec_id chk) evs = Some e \<and> supports_item u ?t chk e}"
      by (rule set_eqI) (simp add: ty tally_claim_def judge_items_supporting [OF d f'], blast)
    also have "\<dots> = {e' \<in> set (map (touch u ?t ?items) evs). ev_id e' \<in> set (cl_evidence_ids c) \<and> backs u c e'}"
    proof (intro set_eqI iffI)
      fix e'
      assume "e' \<in> {judged u ?t chk e |chk e. chk \<in> set ?items \<and> find_row ev_id (ec_id chk) evs = Some e
        \<and> supports_item u ?t chk e}"
      then show "e' \<in> {e' \<in> set (map (touch u ?t ?items) evs). ev_id e' \<in> set (cl_evidence_ids c) \<and> backs u c e'}"
        using member [of e'] backs_judged [OF id] by blast
    next
      fix e'
      assume a: "e' \<in> {e' \<in> set (map (touch u ?t ?items) evs). ev_id e' \<in> set (cl_evidence_ids c) \<and> backs u c e'}"
      then obtain chk e where "chk \<in> set ?items" "find_row ev_id (ec_id chk) evs = Some e" "e' = judged u ?t chk e"
        using member [of e'] by blast
      then show "e' \<in> {judged u ?t chk e |chk e. chk \<in> set ?items \<and> find_row ev_id (ec_id chk) evs = Some e
          \<and> supports_item u ?t chk e}"
        using a backs_judged [OF id, of chk e] by blast
    qed
    finally show ?thesis unfolding ev by (auto simp: backs_def)
  qed
  show "set (ty_contradicting ty) = {e \<in> set (ty_evidence ty). opposes c e}"
  proof -
    have "set (ty_contradicting ty) = {judged u ?t chk e |chk e. chk \<in> set ?items
        \<and> find_row ev_id (ec_id chk) evs = Some e \<and> opposes_item chk}"
      by (rule set_eqI) (simp add: ty tally_claim_def judge_items_contradicting [OF d f'], blast)
    also have "\<dots> = {e' \<in> set (map (touch u ?t ?items) evs). ev_id e' \<in> set (cl_evidence_ids c) \<and> opposes c e'}"
    proof (intro set_eqI iffI)
      fix e'
      assume "e' \<in> {judged u ?t chk e |chk e. chk \<in> set ?items \<and> find_row ev_id (ec_id chk) evs = Some e
        \<and> opposes_item chk}"
      then show "e' \<in> {e' \<in> set (map (touch u ?t ?items) evs). ev_id e' \<in> set (cl_evidence_ids c) \<and> opposes c e'}"
        using member [of e'] opposes_judged [OF id] by blast
    next
      fix e'
      assume a: "e' \<in> {e' \<in> set (map (touch u ?t ?items) evs). ev_id e' \<in> set (cl_evidence_ids c) \<and> opposes c e'}"
      then obtain chk e where "chk \<in> set ?items" "find_row ev_id (ec_id chk) evs = Some e" "e' = judged u ?t chk e"
        using member [of e'] by blast
      then show "e' \<in> {judged u ?t chk e |chk e. chk \<in> set ?items \<and> find_row ev_id (ec_id chk) evs = Some e
          \<and> opposes_item chk}"
        using a opposes_judged [OF id, of chk e] by blast
    qed
    finally show ?thesis unfolding ev by (auto simp: opposes_def)
  qed
qed


section \<open>The loop over the claims\<close>

definition touch_of :: "unicode \<Rightarrow> (claim \<Rightarrow> verdict) \<Rightarrow> claim \<Rightarrow> evidence \<Rightarrow> evidence" where
  "touch_of u v c e = (case v c of Refuse _ \<Rightarrow> e | Judge ck \<Rightarrow> touch u (cl_text c) (ck_items ck) e)"

lemma touch_of_id [simp]: "ev_id (touch_of u v c e) = ev_id e" "ev_quote (touch_of u v c e) = ev_quote e"
  by (simp_all add: touch_of_def split: verdict.split)

lemma fold_touch_id [simp]:
  "ev_id (fold (touch_of u v) cs e) = ev_id e" "ev_quote (fold (touch_of u v) cs e) = ev_quote e"
  by (induction cs arbitrary: e) simp_all

lemma admit_JudgeD:
  "admit claims evs checks c = Judge ck \<Longrightarrow> covers claims evs c ck \<and> once ck_id (cl_id c) checks = Some ck
     \<and> \<not> global_error claims checks \<and> count_rows (\<lambda>x. cl_id x = cl_id c) claims = 1
     \<and> (cl_evidence_ids c = [] \<longrightarrow> ck_status ck = Inference)"
  by (auto simp: admit_def split: option.splits if_splits)

lemma review_claim_evidence:
  assumes "v = admit claims evs0 checks"
  shows "snd (review_claim u groups v c evs) = map (touch_of u v c) evs"
proof (cases "v c")
  case (Judge ck)
  then have "distinct (map ec_id (ck_items ck))"
    using assms admit_JudgeD by (fastforce simp: covers_def Let_def)
  with Judge show ?thesis
    by (simp add: review_claim_def judge_claim_def Let_def case_prod_beta tally_claim_def
        judge_items_evidence touch_of_def)
qed (simp add: review_claim_def touch_of_def map_idI)

lemma review_claims_closed:
  assumes "v = admit claims evs0 checks"
  shows "review_claims u groups v cs (out, evs) =
    (out @ map (\<lambda>k. fst (review_claim u groups v (cs ! k) (map (fold (touch_of u v) (take k cs)) evs))) [0..<length cs],
     map (fold (touch_of u v) cs) evs)"
proof (induction cs arbitrary: out evs)
  case (Cons c cs)
  obtain c' where c': "review_claim u groups v c evs = (c', map (touch_of u v c) evs)"
    using review_claim_evidence [OF assms, of u groups c evs] by (metis prod.collapse)
  show ?case
    by (simp add: c' Cons.IH comp_def upt_conv_Cons map_Suc_upt [symmetric] del: upt_Suc)
qed simp

lemma owners_twice:
  assumes "c2 \<in> set post" "i \<in> set (cl_evidence_ids c)" "i \<in> set (cl_evidence_ids c2)"
  shows "2 \<le> owners (pre @ c # post) i"
proof -
  have "1 \<le> count_list (cl_evidence_ids c) i" using assms(2) count_list_0_iff [of "cl_evidence_ids c" i] by simp
  moreover have "i \<in> set (concat (map cl_evidence_ids post))" using assms(1,3) by auto
  then have "1 \<le> count_list (concat (map cl_evidence_ids post)) i"
    using count_list_0_iff [of "concat (map cl_evidence_ids post)" i] by linarith
  ultimately show ?thesis by (simp add: owners_def)
qed

text \<open>Nothing after a claim touches the claim's evidence.\<close>

lemma later_untouched:
  assumes v: "v = admit claims evs0 checks" and cl: "claims = pre @ c # post"
    and i: "ev_id e \<in> set (cl_evidence_ids c)"
  shows "fold (touch_of u v) post e = e"
proof -
  have "touch_of u v c2 e = e" if c2: "c2 \<in> set post" for c2
  proof (cases "v c2")
    case (Judge ck)
    then have cov: "covers claims evs0 c2 ck" using v admit_JudgeD by blast
    have "ev_id e \<notin> set (cl_evidence_ids c2)"
    proof
      assume j: "ev_id e \<in> set (cl_evidence_ids c2)"
      from cov have "ev_id e \<in> set (map ec_id (ck_items ck))" "\<forall>i \<in> set (map ec_id (ck_items ck)). owners claims i = 1"
        unfolding covers_def Let_def list_all_iff using j by blast+
      then have "owners claims (ev_id e) = 1" by blast
      with owners_twice [OF c2 i j, of pre] cl show False by simp
    qed
    with cov have "find_row ec_id (ev_id e) (ck_items ck) = None"
      by (auto simp: covers_def Let_def find_row_None)
    with Judge show ?thesis by (simp add: touch_of_def touch_def)
  qed (simp add: touch_of_def)
  then show ?thesis by (induction post) auto
qed

section \<open>The gates\<close>

lemma gate_facts:
  assumes "gate asked pros antis conf = (st, note)"
  shows "st = SupportedPrimary \<longrightarrow> antis = [] \<and> (\<exists>e \<in> set pros. ev_is_primary e = Some True)"
    and "st = Corroborated \<longrightarrow> antis = [] \<and> 2 \<le> card conf" and "st = Conflicting \<longleftrightarrow> pros \<noteq> [] \<and> antis \<noteq> []"
    and "st = Refuted \<longrightarrow> pros = [] \<and> antis \<noteq> []" and "st \<noteq> Inference"
    and "asked = Inference \<longrightarrow> st = Insufficient \<or> st = Conflicting"
  using assms by (auto simp: gate_def Let_def supported_def list_ex_iff split: if_splits)

lemma set_confirmed_groups:
  "confirmed_groups groups xs = {g. \<exists>e \<in> set xs. confirmed_group groups e = Some g}"
  by (induction xs) (auto simp: confirmed_groups_def List.map_filter_simps split: option.splits)

text \<open>The state of a claim after the loop, in terms of the final evidence.\<close>

definition earned :: "unicode \<Rightarrow> origin_group list \<Rightarrow> evidence list \<Rightarrow> claim \<Rightarrow> bool" where
  "earned u groups evs c \<longleftrightarrow>
     (let pros = filter (backs u c) evs; antis = filter (opposes c) evs in
      (cl_status c = SupportedPrimary \<longrightarrow> antis = [] \<and> (\<exists>e \<in> set pros. ev_is_primary e = Some True))
      \<and> (cl_status c = Corroborated \<longrightarrow> antis = [] \<and> 2 \<le> card (confirmed_groups groups pros))
      \<and> (cl_status c = Conflicting \<longrightarrow> pros \<noteq> [] \<and> antis \<noteq> [])
      \<and> (cl_status c = Refuted \<longrightarrow> pros = [] \<and> antis \<noteq> []))"

lemma backs_frame:
  "cl_text c' = cl_text c \<Longrightarrow> cl_evidence_ids c' = cl_evidence_ids c \<Longrightarrow> backs u c' = backs u c \<and> opposes c' = opposes c"
  by (auto simp: backs_def opposes_def fun_eq_iff)

lemma judged_claim_earned:
  assumes v: "v = admit claims evs checks" and cl: "claims = pre @ c # post" and vc: "v c = Judge ck"
    and c': "c' = fst (judge_claim u groups c ck (map (fold (touch_of u v) pre) (map reset_evidence evs)))"
    and evs': "evs' = map (fold (touch_of u v) claims) (map reset_evidence evs)"
  shows "earned u groups evs' c'"
    and "cl_status c' \<noteq> Inference" and "ck_status ck = Inference \<longrightarrow> \<not> supported (cl_status c')"
proof -
  define evs1 where "evs1 = map (fold (touch_of u v) pre) (map reset_evidence evs)"
  define ty where "ty = tally_claim u c ck evs1"
  define antis where "antis = ty_contradicting ty"
  define pros where "pros = ty_supporting ty"
  obtain st nt where g: "gate (ck_status ck) pros antis (confirmed_groups groups pros) = (st, nt)" by fastforce
  have fields: "cl_status c' = st" "cl_text c' = cl_text c" "cl_evidence_ids c' = cl_evidence_ids c"
    unfolding c' judge_claim_def Let_def evs1_def [symmetric] ty_def [symmetric] pros_def [symmetric] antis_def [symmetric] g
    by simp_all
  have cov: "covers claims evs c ck" using v vc admit_JudgeD by blast
  have ids: "map ev_id evs1 = map ev_id evs" by (simp add: evs1_def reset_evidence_def comp_def)
  note t = tally_sets [OF cov ids ty_def]
  have d: "distinct (map ec_id (ck_items ck))" using cov by (simp add: covers_def Let_def)
  have T: "touch u (cl_text c) (ck_items ck) = touch_of u v c" by (rule ext) (simp add: touch_of_def vc)
  have evs'_ty: "evs' = map (fold (touch_of u v) post) (ty_evidence ty)"
    unfolding evs' t(3) evs1_def T cl by (simp add: comp_def)
  have keep: "{e \<in> set evs'. P e} = {e \<in> set (ty_evidence ty). P e}"
    if P: "\<And>e. P e \<Longrightarrow> ev_id e \<in> set (cl_evidence_ids c)" for P
  proof -
    have "fold (touch_of u v) post e = e" if "ev_id e \<in> set (cl_evidence_ids c)" for e
      by (rule later_untouched [OF v cl that])
    then show ?thesis unfolding evs'_ty using P by (auto simp: image_iff) (metis fold_touch_id(1))+
  qed
  have pros: "set (filter (backs u c) evs') = set pros"
    using keep [of "backs u c"] t(1) by (auto simp: pros_def backs_def)
  have antis: "set (filter (opposes c) evs') = set antis"
    using keep [of "opposes c"] t(2) by (auto simp: antis_def opposes_def)
  have empty: "filter (backs u c) evs' = [] \<longleftrightarrow> pros = []" "filter (opposes c) evs' = [] \<longleftrightarrow> antis = []"
    using pros antis by (metis set_empty)+
  have conf: "confirmed_groups groups (filter (backs u c) evs') = confirmed_groups groups pros"
    unfolding set_confirmed_groups pros ..
  note gf = gate_facts [OF g]
  show "earned u groups evs' c'"
    unfolding earned_def Let_def backs_frame [OF fields(2,3), THEN conjunct1] backs_frame [OF fields(2,3), THEN conjunct2]
      conf empty fields(1) pros
    using gf by blast
  show "cl_status c' \<noteq> Inference" unfolding fields(1) by (rule gf(5))
  show "ck_status ck = Inference \<longrightarrow> \<not> supported (cl_status c')"
    unfolding fields(1) using gf(6) by (auto simp: supported_def)
qed


section \<open>The pass over the inferences\<close>

definition pending :: "claim_check list \<Rightarrow> claim \<Rightarrow> bool" where
  "pending checks c \<longleftrightarrow> (case once ck_id (cl_id c) checks of None \<Rightarrow> False
     | Some ck \<Rightarrow> cl_checked c \<and> ck_status ck = Inference \<and> cl_status c \<noteq> Conflicting)"

definition infer_one :: "claim_check list \<Rightarrow> claim list \<Rightarrow> claim \<Rightarrow> claim" where
  "infer_one checks cs c =
     (if \<not> pending checks c then c
      else if resolves cs c then c\<lparr> cl_status := Inference \<rparr>
      else c\<lparr> cl_inference_from := [], cl_reason := cl_reason c @ msg_inference \<rparr>)"

lemma infer_at_one: "k < length cs \<Longrightarrow> infer_at checks k cs = cs[k := infer_one checks cs (cs ! k)]"
  by (auto simp: infer_at_def infer_one_def pending_def Let_def split: option.splits)

lemma infer_one_simps [simp]:
  "cl_id (infer_one checks cs c) = cl_id c" "cl_evidence_ids (infer_one checks cs c) = cl_evidence_ids c"
  "cl_checked (infer_one checks cs c) = cl_checked c" "cl_text (infer_one checks cs c) = cl_text c"
  by (simp_all add: infer_one_def)

definition same_support :: "claim \<Rightarrow> claim \<Rightarrow> bool" where
  "same_support c c' \<longleftrightarrow> cl_id c' = cl_id c \<and> cl_checked c' = cl_checked c
     \<and> supported (cl_status c') = supported (cl_status c) \<and> cl_evidence_ids c' = cl_evidence_ids c"

lemma find_row_rel:
  "list_all2 same_support cs cs' \<Longrightarrow> rel_option same_support (find_row cl_id i cs) (find_row cl_id i cs')"
  by (induction rule: list_all2_induct) (auto simp: same_support_def)

lemma resolves_same:
  assumes "list_all2 same_support cs cs'"
  shows "resolves cs' c = resolves cs c"
proof -
  have r: "rel_option same_support (last_claim cs r) (last_claim cs' r)" for r
    unfolding last_claim_def by (rule find_row_rel) (simp add: list_all2_rev1 assms)
  have "(case last_claim cs' r of None \<Rightarrow> False | Some x \<Rightarrow> cl_checked x \<and> supported (cl_status x) \<and> cl_evidence_ids x \<noteq> [])
      = (case last_claim cs r of None \<Rightarrow> False | Some x \<Rightarrow> cl_checked x \<and> supported (cl_status x) \<and> cl_evidence_ids x \<noteq> [])" for r
    using r [of r] by (cases rule: option.rel_cases) (auto simp: same_support_def)
  then show ?thesis by (simp only: resolves_def)
qed

text \<open>An inference is never resolved against another one, so the order of the pass does not matter.\<close>

lemma infer_pass:
  assumes "\<forall>c \<in> set cs. pending checks c \<longrightarrow> \<not> supported (cl_status c)"
  shows "fold (infer_at checks) [0..<length cs] cs = map (infer_one checks cs) cs"
proof -
  have "fold (infer_at checks) [0..<k] cs = map (infer_one checks cs) (take k cs) @ drop k cs"
    if "k \<le> length cs" for k
    using that
  proof (induction k)
    case (Suc k)
    let ?now = "map (infer_one checks cs) (take k cs) @ drop k cs"
    have len: "k < length ?now" using Suc.prems by simp
    have kth: "?now ! k = cs ! k" using Suc.prems by (simp add: nth_append)
    have "list_all2 same_support cs ?now"
    proof (rule list_all2_all_nthI)
      fix n
      assume n: "n < length cs"
      then have "cs ! n \<in> set cs" by simp
      with assms n show "same_support (cs ! n) (?now ! n)"
        by (auto simp: nth_append same_support_def infer_one_def supported_def)
    qed simp
    from resolves_same [OF this] have "infer_one checks ?now (cs ! k) = infer_one checks cs (cs ! k)"
      by (simp add: infer_one_def)
    then have "infer_at checks k ?now = ?now[k := infer_one checks cs (cs ! k)]"
      by (simp only: infer_at_one [OF len] kth)
    also have "\<dots> = map (infer_one checks cs) (take (Suc k) cs) @ drop (Suc k) cs"
      using Suc.prems by (simp add: list_update_append take_Suc_conv_app_nth Cons_nth_drop_Suc [symmetric])
    finally show ?case using Suc by simp
  qed simp
  from this [of "length cs"] show ?thesis by simp
qed

section \<open>What a review yields\<close>

text \<open>The reviewed claims before the inferences are resolved.\<close>

definition reviewed ::
  "unicode \<Rightarrow> claim list \<Rightarrow> evidence list \<Rightarrow> claim_check list \<Rightarrow> origin_group list \<Rightarrow> claim list" where
  "reviewed u claims evs checks groups =
     (let v = admit claims evs checks in
      map (\<lambda>k. fst (review_claim u groups v (claims ! k)
                  (map (fold (touch_of u v) (take k claims)) (map reset_evidence evs)))) [0..<length claims])"

lemma reviewed_nth:
  assumes "k < length claims" "v = admit claims evs checks"
  shows "reviewed u claims evs checks groups ! k =
    (case v (claims ! k) of Refuse why \<Rightarrow> refused (claims ! k) why
     | Judge ck \<Rightarrow> fst (judge_claim u groups (claims ! k) ck
                      (map (fold (touch_of u v) (take k claims)) (map reset_evidence evs))))"
  using assms by (simp add: reviewed_def Let_def review_claim_def split: verdict.split)

lemma length_reviewed [simp]: "length (reviewed u claims evs checks groups) = length claims"
  by (simp add: reviewed_def Let_def)

lemma judge_claim_fields [simp]:
  "cl_id (fst (judge_claim u groups c ck evs)) = cl_id c" "cl_text (fst (judge_claim u groups c ck evs)) = cl_text c"
  "cl_evidence_ids (fst (judge_claim u groups c ck evs)) = cl_evidence_ids c" "cl_checked (fst (judge_claim u groups c ck evs))"
  by (simp_all add: judge_claim_def Let_def split: prod.split)

lemma refused_fields [simp]:
  "cl_id (refused c why) = cl_id c" "cl_text (refused c why) = cl_text c" "cl_status (refused c why) = Insufficient"
  "cl_evidence_ids (refused c why) = cl_evidence_ids c" "\<not> cl_checked (refused c why)"
  by (simp_all add: refused_def)

lemma reviewed_fields:
  assumes "k < length claims"
  shows "cl_id (reviewed u claims evs checks groups ! k) = cl_id (claims ! k)"
    and "cl_text (reviewed u claims evs checks groups ! k) = cl_text (claims ! k)"
    and "cl_evidence_ids (reviewed u claims evs checks groups ! k) = cl_evidence_ids (claims ! k)"
    and "cl_checked (reviewed u claims evs checks groups ! k) \<longleftrightarrow> (\<exists>ck. admit claims evs checks (claims ! k) = Judge ck)"
  unfolding reviewed_nth [OF assms refl] by (auto split: verdict.split)

lemma reviewed_facts:
  assumes "c \<in> set (reviewed u claims evs checks groups)"
    and "evs' = map (fold (touch_of u (admit claims evs checks)) claims) (map reset_evidence evs)"
  shows "earned u groups evs' c" "cl_status c \<noteq> Inference" "pending checks c \<longrightarrow> \<not> supported (cl_status c)"
proof -
  obtain k where k: "k < length claims" "c = reviewed u claims evs checks groups ! k"
    using assms(1) by (auto simp: in_set_conv_nth)
  note c = k(2) [unfolded reviewed_nth [OF k(1) refl]]
  have "earned u groups evs' c \<and> cl_status c \<noteq> Inference \<and> (pending checks c \<longrightarrow> \<not> supported (cl_status c))"
  proof (cases "admit claims evs checks (claims ! k)")
    case (Judge ck)
    have cl: "claims = take k claims @ claims ! k # drop (Suc k) claims" by (rule id_take_nth_drop [OF k(1)])
    have c': "c = fst (judge_claim u groups (claims ! k) ck
        (map (fold (touch_of u (admit claims evs checks)) (take k claims)) (map reset_evidence evs)))"
      using c Judge by simp
    have "once ck_id (cl_id c) checks = Some ck" using admit_JudgeD [OF Judge] by (simp add: c')
    with judged_claim_earned [OF refl cl Judge c' assms(2)] show ?thesis by (auto simp: pending_def)
  qed (use c in \<open>auto simp: earned_def Let_def pending_def supported_def split: option.splits\<close>)
  then show "earned u groups evs' c" "cl_status c \<noteq> Inference" "pending checks c \<longrightarrow> \<not> supported (cl_status c)"
    by blast+
qed

lemma apply_review_closed:
  assumes "v = admit claims evs checks"
  shows "apply_review u claims evs checks groups =
    (map (infer_one checks (reviewed u claims evs checks groups)) (reviewed u claims evs checks groups),
     map (fold (touch_of u v) claims) (map reset_evidence evs))"
proof -
  have "fold (infer_at checks) [0..<length (reviewed u claims evs checks groups)] (reviewed u claims evs checks groups)
      = map (infer_one checks (reviewed u claims evs checks groups)) (reviewed u claims evs checks groups)"
    using reviewed_facts(3) [OF _ refl] by (intro infer_pass) blast
  moreover have "review_claims u groups v claims ([], map reset_evidence evs)
      = (reviewed u claims evs checks groups, map (fold (touch_of u v) claims) (map reset_evidence evs))"
    unfolding review_claims_closed [OF assms] by (simp add: reviewed_def assms Let_def)
  ultimately show ?thesis by (simp add: apply_review_def assms)
qed


text \<open>What a check must be to be taken over.\<close>

definition exact_check :: "claim list \<Rightarrow> evidence list \<Rightarrow> claim_check list \<Rightarrow> claim \<Rightarrow> claim_check \<Rightarrow> bool" where
  "exact_check claims evs checks c ck \<longleftrightarrow> once ck_id (cl_id c) checks = Some ck \<and> \<not> global_error claims checks
     \<and> count_rows (\<lambda>x. cl_id x = cl_id c) claims = 1 \<and> covers claims evs c ck
     \<and> (cl_evidence_ids c = [] \<longrightarrow> ck_status ck = Inference)"

lemma admit_Judge_iff: "admit claims evs checks c = Judge ck \<longleftrightarrow> exact_check claims evs checks c ck"
  by (auto simp: admit_def exact_check_def split: option.splits if_splits)

lemma touch_checked:
  "ev_checked (fold (touch_of u (admit claims evs checks)) cs e) \<longleftrightarrow> ev_checked e
     \<or> (\<exists>c \<in> set cs. ev_id e \<in> set (cl_evidence_ids c) \<and> (\<exists>ck. exact_check claims evs checks c ck))"
proof (induction cs arbitrary: e)
  case (Cons c cs)
  have "ev_checked (touch_of u (admit claims evs checks) c e) \<longleftrightarrow> ev_checked e
      \<or> ev_id e \<in> set (cl_evidence_ids c) \<and> (\<exists>ck. exact_check claims evs checks c ck)"
  proof (cases "admit claims evs checks c")
    case (Refuse why)
    then have "\<not> exact_check claims evs checks c ck" for ck by (simp flip: admit_Judge_iff)
    with Refuse show ?thesis by (simp add: touch_of_def)
  next
    case (Judge ck)
    then have "ec_id ` set (ck_items ck) = set (cl_evidence_ids c)" "exact_check claims evs checks c ck"
      using admit_JudgeD [OF Judge] by (auto simp: covers_def Let_def admit_Judge_iff)
    then show ?thesis
      using find_row_None [of ec_id "ev_id e" "ck_items ck"]
      by (auto simp: touch_of_def Judge touch_def split: option.split)
  qed
  with Cons show ?case by auto
qed simp

definition ev_frame :: "evidence \<Rightarrow> string \<times> string \<times> string \<times> utext \<times> int \<times> int" where
  "ev_frame e = (ev_id e, ev_source_id e, ev_passage_id e, ev_quote e, ev_start e, ev_end e)"

lemma touch_frame [simp]: "ev_frame (fold (touch_of u v) cs e) = ev_frame e" "ev_frame (reset_evidence e) = ev_frame e"
proof -
  have "ev_frame (touch_of u v c e) = ev_frame e" for c e
    by (simp add: touch_of_def touch_def judged_def ev_frame_def Let_def split: verdict.split option.split)
  then show "ev_frame (fold (touch_of u v) cs e) = ev_frame e" by (induction cs arbitrary: e) simp_all
qed (simp add: ev_frame_def reset_evidence_def)

section \<open>Properties\<close>

lemma review_earned:
  assumes "apply_review u claims evs checks groups = (cs, evs')" "c \<in> set cs"
  shows "earned u groups evs' c
    \<and> (cl_status c = Inference \<longrightarrow> cl_inference_from c \<noteq> [] \<and> distinct (cl_inference_from c)
         \<and> cl_id c \<notin> set (cl_inference_from c)
         \<and> (\<forall>r \<in> set (cl_inference_from c). \<exists>x \<in> set cs. cl_id x = r \<and> cl_checked x
              \<and> supported (cl_status x) \<and> cl_evidence_ids x \<noteq> []))"
proof -
  let ?r = "reviewed u claims evs checks groups"
  have cs: "cs = map (infer_one checks ?r) ?r"
    and evs': "evs' = map (fold (touch_of u (admit claims evs checks)) claims) (map reset_evidence evs)"
    using assms(1) apply_review_closed [OF refl, of u claims evs checks groups] by simp_all
  obtain d where d: "d \<in> set ?r" "c = infer_one checks ?r d" using assms(2) cs by auto
  note f = reviewed_facts [OF d(1) evs']
  have e: "earned u groups evs' c"
  proof (cases "cl_status c = cl_status d")
    case True
    with f(1) d(2) backs_frame [of c d] show ?thesis by (simp add: earned_def Let_def)
  next
    case False
    then have "cl_status c = Inference" using d(2) by (auto simp: infer_one_def split: if_splits)
    then show ?thesis by (simp add: earned_def Let_def)
  qed
  have "cl_inference_from c \<noteq> [] \<and> distinct (cl_inference_from c) \<and> cl_id c \<notin> set (cl_inference_from c)
       \<and> (\<forall>r \<in> set (cl_inference_from c). \<exists>x \<in> set cs. cl_id x = r \<and> cl_checked x
            \<and> supported (cl_status x) \<and> cl_evidence_ids x \<noteq> [])" if i: "cl_status c = Inference"
  proof -
    from i d(2) f(2) have "resolves ?r d" "cl_inference_from c = cl_inference_from d" "cl_id c = cl_id d"
      by (auto simp: infer_one_def split: if_splits)
    moreover have "\<exists>x \<in> set cs. cl_id x = r \<and> cl_checked x \<and> supported (cl_status x) \<and> cl_evidence_ids x \<noteq> []"
      if r: "r \<in> set (cl_inference_from d)" "resolves ?r d" for r
    proof -
      from r obtain y where y: "last_claim ?r r = Some y" "cl_checked y" "supported (cl_status y)" "cl_evidence_ids y \<noteq> []"
        unfolding resolves_def Let_def list_all_iff by (auto split: option.splits)
      then have in_r: "y \<in> set ?r" "cl_id y = r" unfolding last_claim_def by (auto dest: find_row_SomeD)
      then have "infer_one checks ?r y = y" using reviewed_facts(3) [OF in_r(1) evs'] y(3) by (auto simp: infer_one_def)
      with in_r y cs show ?thesis by (metis image_eqI list.set_map)
    qed
    ultimately show ?thesis unfolding resolves_def Let_def by simp
  qed
  with e show ?thesis by blast
qed

text \<open>C22. A status has to be earned. After a review, a claim is supported by primary evidence only if
  some checked, condition-matching quotation backs it that the review called primary, corroborated
  only if the backing quotations come from two confirmed groups of origin, and neither if anything
  opposes it; conflicting means both sides exist, refuted that only opposition does, and an inference
  rests on distinct other claims that are checked and supported by evidence. A quotation on which the
  deterministic guard speaks never counts as backing.\<close>

theorem review_statuses_are_earned:
  assumes "apply_review u claims evs checks groups = (cs, evs')" "c \<in> set cs"
  shows "earned u groups evs' c
    \<and> (cl_status c = Inference \<longrightarrow> cl_inference_from c \<noteq> [] \<and> distinct (cl_inference_from c)
         \<and> cl_id c \<notin> set (cl_inference_from c)
         \<and> (\<forall>r \<in> set (cl_inference_from c). \<exists>x \<in> set cs. cl_id x = r \<and> cl_checked x
              \<and> supported (cl_status x) \<and> cl_evidence_ids x \<noteq> []))"
  by (rule review_earned [OF assms])

lemma review_coverage:
  assumes "apply_review u claims evs checks groups = (cs, evs')"
  shows "map (\<lambda>c. (cl_id c, cl_text c, cl_evidence_ids c)) cs = map (\<lambda>c. (cl_id c, cl_text c, cl_evidence_ids c)) claims
    \<and> map ev_frame evs' = map ev_frame evs
    \<and> (\<forall>k < length claims. (cl_checked (cs ! k) \<longleftrightarrow> (\<exists>ck. exact_check claims evs checks (claims ! k) ck))
         \<and> (\<not> cl_checked (cs ! k) \<longrightarrow> cl_status (cs ! k) = Insufficient))
    \<and> (\<forall>e \<in> set evs'. ev_checked e \<longleftrightarrow>
         (\<exists>c \<in> set claims. ev_id e \<in> set (cl_evidence_ids c) \<and> (\<exists>ck. exact_check claims evs checks c ck)))"
proof -
  let ?r = "reviewed u claims evs checks groups"
  have cs: "cs = map (infer_one checks ?r) ?r"
    and evs': "evs' = map (fold (touch_of u (admit claims evs checks)) claims) (map reset_evidence evs)"
    using assms(1) apply_review_closed [OF refl, of u claims evs checks groups] by simp_all
  have "\<not> cl_checked (cs ! k) \<longrightarrow> cl_status (cs ! k) = Insufficient" if k: "k < length claims" for k
    using k unfolding cs by (auto simp: reviewed_nth [OF k refl] infer_one_def pending_def split: verdict.split option.splits)
  moreover have "map (\<lambda>c. (cl_id c, cl_text c, cl_evidence_ids c)) cs = map (\<lambda>c. (cl_id c, cl_text c, cl_evidence_ids c)) claims"
    unfolding cs by (rule nth_equalityI) (simp_all add: reviewed_fields)
  ultimately show ?thesis
    unfolding cs evs' by (simp add: reviewed_fields(4) admit_Judge_iff touch_checked) (simp add: reset_evidence_def)
qed

text \<open>C23. A review counts only where it is exact. The claims keep their order, identifiers, texts and
  evidence, and the quotations what was quoted and from where. A claim is marked as checked exactly
  when one check names it, no check names an unknown or repeated claim, and that check covers each of
  the claim's quotations once, none of them shared or ambiguous (and only an inference may have
  none); every other claim is insufficient, and a quotation is marked as checked exactly when it
  belongs to a checked claim.\<close>

theorem review_needs_exact_coverage:
  assumes "apply_review u claims evs checks groups = (cs, evs')"
  shows "map (\<lambda>c. (cl_id c, cl_text c, cl_evidence_ids c)) cs = map (\<lambda>c. (cl_id c, cl_text c, cl_evidence_ids c)) claims
    \<and> map ev_frame evs' = map ev_frame evs
    \<and> (\<forall>k < length claims. (cl_checked (cs ! k) \<longleftrightarrow> (\<exists>ck. exact_check claims evs checks (claims ! k) ck))
         \<and> (\<not> cl_checked (cs ! k) \<longrightarrow> cl_status (cs ! k) = Insufficient))
    \<and> (\<forall>e \<in> set evs'. ev_checked e \<longleftrightarrow>
         (\<exists>c \<in> set claims. ev_id e \<in> set (cl_evidence_ids c) \<and> (\<exists>ck. exact_check claims evs checks c ck)))"
  by (rule review_coverage [OF assms])


section \<open>A concrete review\<close>

definition ex_evidence :: evidence where
  "ex_evidence = \<lparr> ev_source_id = ''s001'', ev_passage_id = ''s001-p0001'', ev_quote = ascii ''zz'',
     ev_relation = Supports, ev_conditions = [], ev_id = ''e001'', ev_page = None, ev_start = 0, ev_end = 2,
     ev_match = Exact, ev_checked = False, ev_check_reason = None, ev_conditions_match = None,
     ev_is_primary = None \<rparr>"

definition ex_claim :: "string \<Rightarrow> string list \<Rightarrow> claim" where
  "ex_claim i es = \<lparr> cl_id = i, cl_text = ascii ''zz'', cl_importance = Major, cl_evidence_ids = es,
     cl_status = Insufficient, cl_reason = [], cl_conditions = [], cl_uncertainty = [],
     cl_inference_from = [], cl_checked = False \<rparr>"

definition ex_checks :: "claim_check list" where
  "ex_checks =
     [\<lparr> ck_id = ''c001'', ck_status = SupportedPrimary, ck_reason = [], ck_conditions = [], ck_uncertainty = [],
        ck_items = [\<lparr> ec_id = ''e001'', ec_relation = Supports, ec_conditions_match = True,
                      ec_primary = True, ec_reason = [] \<rparr>], ck_inference = [] \<rparr>,
      \<lparr> ck_id = ''c002'', ck_status = Inference, ck_reason = [], ck_conditions = [], ck_uncertainty = [],
        ck_items = [], ck_inference = [''c001''] \<rparr>]"

definition ex_claims :: "claim list" where
  "ex_claims = [ex_claim ''c001'' [''e001''], ex_claim ''c002'' []]"

lemma support_conflicts_self: "quantities u t = [] \<Longrightarrow> support_conflicts u t t = []"
  by (simp add: support_conflicts_def Let_def)

lemma ex_support: "support_conflicts ex_unicode (ascii ''zz'') (ascii ''zz'') = []"
  by (rule support_conflicts_self) (simp add: quantity_simps)

lemmas review_simps = apply_review_def Let_def admit_def once_def count_rows_def global_error_def covers_def owners_def
  review_claim_def judge_claim_def tally_claim_def judge_item_def judged_def conflicts_of_def gate_def supported_def
  infer_at_def resolves_def last_claim_def reset_evidence_def update_rows_def py_unique_def

lemma ex_review:
  "\<exists>c1 c2 e. apply_review ex_unicode ex_claims [ex_evidence] ex_checks [] = ([c1, c2], [e])
     \<and> cl_status c1 = SupportedPrimary \<and> cl_status c2 = Inference \<and> ev_id e = ''e001''
     \<and> cl_inference_from c2 = [''c001''] \<and> cl_id c1 = ''c001''"
  by (simp add: review_simps ex_claims_def ex_claim_def ex_checks_def ex_evidence_def ex_support)

theorem review_statuses_are_earned_witness:
  "\<exists>c1 c2 e. apply_review ex_unicode ex_claims [ex_evidence] ex_checks [] = ([c1, c2], [e])
     \<and> ev_is_primary e = Some True \<and> backs ex_unicode c1 e \<and> supported (cl_status c1)"
proof -
  obtain c1 c2 e where r: "apply_review ex_unicode ex_claims [ex_evidence] ex_checks [] = ([c1, c2], [e])"
    "cl_status c1 = SupportedPrimary" using ex_review by blast
  have "earned ex_unicode [] [e] c1" using review_statuses_are_earned [OF r(1), of c1] by simp
  with r(2) have "ev_is_primary e = Some True \<and> backs ex_unicode c1 e"
    by (auto simp: earned_def Let_def split: if_splits)
  with r show ?thesis by (auto simp: supported_def)
qed

theorem review_needs_exact_coverage_witness:
  "\<exists>cs e. apply_review ex_unicode ex_claims [ex_evidence] ex_checks [] = (cs, [e])
     \<and> ev_frame e = ev_frame ex_evidence \<and> ev_checked e"
proof -
  obtain c1 c2 e where r: "apply_review ex_unicode ex_claims [ex_evidence] ex_checks [] = ([c1, c2], [e])"
    using ex_review by blast
  note f = review_needs_exact_coverage [OF r]
  have "exact_check ex_claims [ex_evidence] ex_checks (ex_claim ''c001'' [''e001'']) (ex_checks ! 0)"
    by (simp add: exact_check_def review_simps ex_claims_def ex_claim_def ex_checks_def ex_evidence_def)
  moreover have "ev_id e = ''e001''" using f by (simp add: ev_frame_def ex_evidence_def)
  ultimately have "ev_checked e" using f by (auto simp: ex_claims_def ex_claim_def)
  with f r show ?thesis by auto
qed

end
