(* ===== verification/Urls.thy ===== *)
theory Urls
  imports Prelude
begin

text \<open>
  URLs. Splitting and joining them is the standard library's work and a parameter; what the program
  does with the parts is modelled: the normal forms under which \<open>research.py\<close>, \<open>search.py\<close> and
  \<open>evidence.py\<close> compare addresses.
\<close>

record url_parts =
  up_scheme :: string
  up_netloc :: string
  up_path :: string
  up_query :: string
  up_fragment :: string
  up_hostname :: "string option"
  up_username :: "string option"
  up_password :: "string option"
  up_port :: "nat option option"

text \<open>\<open>ur_split\<close> is \<open>urlsplit\<close> with the properties of its result (\<open>None\<close> where a \<open>ValueError\<close> is raised,
  also for \<open>up_port\<close>); \<open>ur_unsplit\<close> joins scheme, location, path and query, with no fragment.\<close>

record url_library =
  ur_split :: "string \<Rightarrow> url_parts option"
  ur_unsplit :: "string \<Rightarrow> string \<Rightarrow> string \<Rightarrow> string \<Rightarrow> string"
  ur_parse_qsl :: "string \<Rightarrow> (string \<times> string) list"
  ur_urlencode :: "(string \<times> string) list \<Rightarrow> string"
  ur_lower :: "string \<Rightarrow> string"

definition present :: "string option \<Rightarrow> bool" where
  "present s \<longleftrightarrow> s \<noteq> None \<and> s \<noteq> Some []"

definition web_scheme :: "string \<Rightarrow> bool" where
  "web_scheme s \<longleftrightarrow> s = ''http'' \<or> s = ''https''"

section \<open>Dropping tracking parameters\<close>

definition tracking :: "url_library \<Rightarrow> string \<Rightarrow> bool" where
  "tracking u k \<longleftrightarrow> take 4 (ur_lower u k) = ''utm_'' \<or> ur_lower u k \<in> {''fbclid'', ''gclid''}"

definition kept_query :: "url_library \<Rightarrow> string \<Rightarrow> string" where
  "kept_query u q = ur_urlencode u (filter (\<lambda>(k, v). \<not> tracking u k) (ur_parse_qsl u q))"

text \<open>\<open>normalize_url\<close> of \<open>research.py\<close>; \<open>None\<close> is the \<open>ValueError\<close> of a malformed address.\<close>

definition research_url :: "url_library \<Rightarrow> string \<Rightarrow> string option" where
  "research_url u url =
     map_option (\<lambda>p. ur_unsplit u (ur_lower u (up_scheme p)) (ur_lower u (up_netloc p))
         (if up_path p = [] then ''/'' else up_path p) (kept_query u (up_query p))) (ur_split u url)"

text \<open>\<open>normalize_url\<close> of \<open>search.py\<close>, which refuses addresses with credentials.\<close>

definition search_url :: "url_library \<Rightarrow> string \<Rightarrow> string option" where
  "search_url u url =
     (case ur_split u url of
        None \<Rightarrow> None
      | Some p \<Rightarrow>
          if \<not> web_scheme (up_scheme p) \<or> \<not> present (up_hostname p) \<or> present (up_username p) \<or> present (up_password p)
          then None
          else if up_port p = None then None
          else Some (ur_unsplit u (up_scheme p) (up_netloc p) (up_path p) (kept_query u (up_query p))))"

section \<open>The address of an origin\<close>

definition default_port :: "string \<Rightarrow> nat \<Rightarrow> bool" where
  "default_port s p \<longleftrightarrow> (s = ''https'' \<and> p = 443) \<or> (s = ''http'' \<and> p = 80)"

definition origin_url :: "url_library \<Rightarrow> string \<Rightarrow> string option" where
  "origin_url u url =
     (case ur_split u url of
        None \<Rightarrow> None
      | Some p \<Rightarrow>
          let s = ur_lower u (up_scheme p) in
          if \<not> web_scheme s \<or> \<not> present (up_hostname p) \<or> present (up_username p) then None
          else
            let h = ur_lower u (the (up_hostname p));
                host = (if CHR '':'' \<in> set h then ''['' @ h @ '']'' else h)
            in case up_port p of
                 None \<Rightarrow> None
               | Some port \<Rightarrow>
                   let loc = (case port of
                       Some n \<Rightarrow> if n \<noteq> 0 \<and> \<not> default_port s n then host @ '':'' @ dec n else host
                     | None \<Rightarrow> host)
                   in Some (ur_unsplit u s loc (if up_path p = [] then ''/'' else up_path p) (up_query p)))"

end
