(* ===== verification/Origins.thy ===== *)
theory Origins
  imports Review Urls
begin

text \<open>
  \<open>group_origins\<close> of \<open>evidence.py\<close>: sources are put into one group when a chain of equal bodies or
  shared addresses links them, with a union-find structure whose parents are halved on the way.
\<close>

section \<open>Links between sources\<close>

definition url_set :: "url_library \<Rightarrow> source \<Rightarrow> string list" where
  "url_set u s =
     remdups (List.map_filter (\<lambda>v. if v = [] then None else case origin_url u v of None \<Rightarrow> None
                | Some url \<Rightarrow> if url = [] then None else Some url)
       (so_requested_url s # (case so_final_url s of None \<Rightarrow> [] | Some f \<Rightarrow> [f]) @ so_origin_urls s))"

definition same_body :: "source \<Rightarrow> source \<Rightarrow> bool" where
  "same_body s t \<longleftrightarrow> present (so_body_hash s) \<and> so_body_hash s = so_body_hash t"

definition shared_urls :: "url_library \<Rightarrow> source \<Rightarrow> source \<Rightarrow> string list" where
  "shared_urls u s t = sort (filter (\<lambda>url. url \<in> set (url_set u t)) (url_set u s))"

fun join :: "utext \<Rightarrow> utext list \<Rightarrow> utext" where
  "join sep [] = []"
| "join sep [x] = x"
| "join sep (x # y # ys) = x @ sep @ join sep (y # ys)"

definition link_reasons :: "url_library \<Rightarrow> source \<Rightarrow> source \<Rightarrow> utext list" where
  "link_reasons u s t =
     (if same_body s t then [msg_hash] else [])
     @ (if shared_urls u s t \<noteq> [] then [msg_shared_url @ join (ascii '', '') (map ascii (shared_urls u s t))] else [])"

section \<open>Union-find\<close>

partial_function (option) find_root :: "nat \<Rightarrow> nat list \<Rightarrow> (nat \<times> nat list) option" where
  "find_root i p =
     (if p ! i = i then Some (i, p)
      else let p' = p[i := p ! (p ! i)] in find_root (p' ! i) p')"

declare find_root.simps [code]

text \<open>\<open>parents[root(left)] = root(right)\<close>: the right-hand side is evaluated first.\<close>

definition unite :: "nat \<Rightarrow> nat \<Rightarrow> nat list \<Rightarrow> nat list option" where
  "unite left right p =
     (case find_root right p of
        None \<Rightarrow> None
      | Some (r, p1) \<Rightarrow>
          (case find_root left p1 of None \<Rightarrow> None | Some (l, p2) \<Rightarrow> Some (p2[l := r])))"

fun link_pairs ::
  "url_library \<Rightarrow> source list \<Rightarrow> (nat \<times> nat) list \<Rightarrow> nat list \<times> (nat \<times> nat \<times> utext) list
   \<Rightarrow> (nat list \<times> (nat \<times> nat \<times> utext) list) option" where
  "link_pairs u sources [] st = Some st"
| "link_pairs u sources ((left, right) # ps) (p, rels) =
     (let reasons = link_reasons u (sources ! left) (sources ! right) in
      if reasons = [] then link_pairs u sources ps (p, rels)
      else case unite left right p of
             None \<Rightarrow> None
           | Some p' \<Rightarrow> link_pairs u sources ps (p', rels @ map (\<lambda>r. (left, right, r)) reasons))"

definition below :: "nat \<Rightarrow> (nat \<times> nat) list" where
  "below n = concat (map (\<lambda>l. map (\<lambda>r. (l, r)) [0..<l]) [0..<n])"

section \<open>Collecting the groups\<close>

text \<open>\<open>groups.setdefault(root, []).append(index)\<close> on a dict in insertion order.\<close>

fun add_member :: "nat \<Rightarrow> nat \<Rightarrow> (nat \<times> nat list) list \<Rightarrow> (nat \<times> nat list) list" where
  "add_member r i [] = [(r, [i])]"
| "add_member r i ((k, is) # gs) = (if k = r then (k, is @ [i]) # gs else (k, is) # add_member r i gs)"

fun collect_groups :: "nat list \<Rightarrow> nat list \<times> (nat \<times> nat list) list \<Rightarrow> (nat \<times> nat list) list option" where
  "collect_groups [] (p, gs) = Some gs"
| "collect_groups (i # is) (p, gs) =
     (case find_root i p of None \<Rightarrow> None | Some (r, p') \<Rightarrow> collect_groups is (p', add_member r i gs))"

definition new_group ::
  "url_library \<Rightarrow> source list \<Rightarrow> (nat \<times> nat \<times> utext) list \<Rightarrow> nat \<Rightarrow> nat list \<Rightarrow> origin_group" where
  "new_group u sources rels n is =
     \<lparr> gr_id = ''o'' @ pad_left 3 (dec n), gr_sources = map (\<lambda>i. so_source_id (sources ! i)) is,
       gr_urls = sort (remdups (List.map_filter (\<lambda>v. case origin_url u v of None \<Rightarrow> None
           | Some url \<Rightarrow> if url = [] then None else Some url) (concat (map (\<lambda>i. so_origin_urls (sources ! i)) is)))),
       gr_reasons = py_unique (map (\<lambda>(l, r, why). why) (filter (\<lambda>(l, r, why). l \<in> set is \<and> r \<in> set is) rels)
           @ [msg_unknown_origin]),
       gr_independence = Unknown \<rparr>"

definition group_origins :: "url_library \<Rightarrow> source list \<Rightarrow> origin_group list option" where
  "group_origins u sources =
     (let n = length sources in
      case link_pairs u sources (below n) ([0..<n], []) of
        None \<Rightarrow> None
      | Some (p, rels) \<Rightarrow>
          map_option (\<lambda>gs. map (\<lambda>(k, is). new_group u sources rels k is) (zip [1..<Suc (length gs)] (map snd gs)))
            (collect_groups [0..<n] (p, [])))"


section \<open>Representatives\<close>

inductive rep_of :: "nat list \<Rightarrow> nat \<Rightarrow> nat \<Rightarrow> bool" for p where
  rep_root: "p ! i = i \<Longrightarrow> rep_of p i i"
| rep_step: "p ! i \<noteq> i \<Longrightarrow> rep_of p (p ! i) r \<Longrightarrow> rep_of p i r"

inductive_cases rep_ofE: "rep_of p i r"

definition ranked :: "(nat \<Rightarrow> nat) \<Rightarrow> nat list \<Rightarrow> bool" where
  "ranked h p \<longleftrightarrow> (\<forall>i < length p. p ! i < length p \<and> (p ! i \<noteq> i \<longrightarrow> h (p ! i) < h i))"

lemma rep_of_is_root: "rep_of p i r \<Longrightarrow> p ! r = r"
  by (induction rule: rep_of.induct) auto

lemma rep_of_det: "rep_of p i r \<Longrightarrow> rep_of p i s \<Longrightarrow> r = s"
proof (induction arbitrary: s rule: rep_of.induct)
  case (rep_root i)
  from rep_root.prems rep_root.hyps show ?case by (cases rule: rep_of.cases) simp_all
next
  case (rep_step i r)
  from rep_step.prems rep_step.hyps(1) have "rep_of p (p ! i) s" by (cases rule: rep_of.cases) simp_all
  then show ?case by (rule rep_step.IH)
qed

lemma rep_of_bound: "rep_of p i r \<Longrightarrow> ranked h p \<Longrightarrow> i < length p \<Longrightarrow> r < length p"
  by (induction rule: rep_of.induct) (auto simp: ranked_def)

lemma rep_of_exists: "ranked h p \<Longrightarrow> i < length p \<Longrightarrow> \<exists>r. rep_of p i r"
proof (induction "h i" arbitrary: i rule: less_induct)
  case less
  show ?case
  proof (cases "p ! i = i")
    case False
    with less.prems have "h (p ! i) < h i" "p ! i < length p" by (auto simp: ranked_def)
    with less obtain r where "rep_of p (p ! i) r" by blast
    with False show ?thesis by (blast intro: rep_of.rep_step)
  qed (blast intro: rep_of.rep_root)
qed

lemma rep_of_root [simp]: "p ! i = i \<Longrightarrow> rep_of p i r \<longleftrightarrow> r = i"
  by (auto intro: rep_of.rep_root elim: rep_ofE)

lemma rep_of_parent: "p ! i \<noteq> i \<Longrightarrow> rep_of p i r \<longleftrightarrow> rep_of p (p ! i) r"
  by (auto intro: rep_of.rep_step elim: rep_ofE)

text \<open>Halving a path keeps ranks and representatives.\<close>

lemma ranked_halve: "ranked h p \<Longrightarrow> i < length p \<Longrightarrow> ranked h (p[i := p ! (p ! i)])"
  unfolding ranked_def
proof (intro allI impI)
  fix k
  assume r: "\<forall>i < length p. p ! i < length p \<and> (p ! i \<noteq> i \<longrightarrow> h (p ! i) < h i)"
    and i: "i < length p" and k: "k < length (p[i := p ! (p ! i)])"
  have "p ! (p ! i) \<noteq> i \<Longrightarrow> h (p ! (p ! i)) < h i"
    using r i by (metis order_less_trans)
  with r i k show "p[i := p ! (p ! i)] ! k < length (p[i := p ! (p ! i)])
      \<and> (p[i := p ! (p ! i)] ! k \<noteq> k \<longrightarrow> h (p[i := p ! (p ! i)] ! k) < h k)"
    by (auto simp: nth_list_update)
qed

lemma rep_of_halve:
  assumes "ranked h p" "i < length p" "k < length p"
  shows "rep_of (p[i := p ! (p ! i)]) k r \<longleftrightarrow> rep_of p k r"
proof -
  let ?q = "p[i := p ! (p ! i)]"
  have "rep_of ?q k s" if "rep_of p k s" "k < length p" for s k
    using that
  proof (induction "h k" arbitrary: k rule: less_induct)
    case less
    show ?case
    proof (cases "p ! k = k")
      case True
      then have "s = k" using less.prems by simp
      moreover have "?q ! k = k" using True assms(2) by (cases "k = i") auto
      ultimately show ?thesis by simp
    next
      case False
      have b: "p ! k < length p" "h (p ! k) < h k" using assms(1) less.prems(2) False by (auto simp: ranked_def)
      have up: "rep_of p (p ! k) s" using less.prems(1) rep_of_parent [OF False] by simp
      show ?thesis
      proof (cases "k = i")
        case True
        show ?thesis
        proof (cases "p ! (p ! k) = p ! k")
          case True
          with \<open>k = i\<close> have q: "?q ! k = p ! k" using assms(2) by simp
          with False have "?q ! k \<noteq> k" by simp
          from rep_of_parent [OF this, of s] less.hyps [OF b(2) up b(1)] q show ?thesis by simp
        next
          case deep: False
          then have b2: "p ! (p ! k) < length p" "h (p ! (p ! k)) < h k"
            using assms(1) b by (auto simp: ranked_def)
          have up2: "rep_of p (p ! (p ! k)) s" using up rep_of_parent [OF deep] by simp
          have q: "?q ! k = p ! (p ! k)" using True assms(2) by simp
          then have "?q ! k \<noteq> k" using b2(2) by auto
          from rep_of_parent [OF this, of s] less.hyps [OF b2(2) up2 b2(1)] q show ?thesis by simp
        qed
      next
        case other: False
        then have q: "?q ! k = p ! k" by simp
        with False have "?q ! k \<noteq> k" by simp
        from rep_of_parent [OF this, of s] less.hyps [OF b(2) up b(1)] q show ?thesis by simp
      qed
    qed
  qed
  note fwd = this
  obtain s where s: "rep_of p k s" using rep_of_exists [OF assms(1,3)] by blast
  from fwd [OF s assms(3)] s show ?thesis by (metis rep_of_det)
qed

definition same_reps :: "nat list \<Rightarrow> nat list \<Rightarrow> bool" where
  "same_reps p q \<longleftrightarrow> length q = length p \<and> (\<forall>k < length p. \<forall>r. rep_of q k r \<longleftrightarrow> rep_of p k r)"

text \<open>The walk to the root returns, with the representative, and keeps all representatives.\<close>

lemma find_root_correct:
  "ranked h p \<Longrightarrow> i < length p \<Longrightarrow>
   \<exists>r q. find_root i p = Some (r, q) \<and> rep_of p i r \<and> ranked h q \<and> same_reps p q"
proof (induction "h i" arbitrary: i p rule: less_induct)
  case less
  show ?case
  proof (cases "p ! i = i")
    case True
    then have "find_root i p = Some (i, p)" by (subst find_root.simps) simp
    with True less.prems show ?thesis by (auto simp: same_reps_def)
  next
    case False
    let ?q = "p[i := p ! (p ! i)]"
    have q: "?q ! i = p ! (p ! i)" using less.prems(2) by simp
    have par: "p ! i < length p" "h (p ! i) < h i" using less.prems False by (auto simp: ranked_def)
    then have hh: "p ! (p ! i) < length p" "h (p ! (p ! i)) < h i"
      using less.prems(1) by (auto simp: ranked_def)
    have rq: "ranked h ?q" by (rule ranked_halve [OF less.prems])
    obtain r p' where r: "find_root (?q ! i) ?q = Some (r, p')" "rep_of ?q (?q ! i) r" "ranked h p'" "same_reps ?q p'"
      using less.hyps [of "?q ! i" ?q] hh rq q by auto
    have "find_root i p = Some (r, p')" using False r(1) by (subst find_root.simps) (simp add: Let_def)
    moreover have "rep_of p i r"
    proof -
      have "rep_of p (p ! (p ! i)) r" using r(2) rep_of_halve [OF less.prems hh(1)] q by simp
      then have "rep_of p (p ! i) r" using rep_of_parent [of p "p ! i" r] by (cases "p ! (p ! i) = p ! i") auto
      with rep_of_parent [OF False] show ?thesis by simp
    qed
    moreover have "same_reps p p'"
      using r(4) rep_of_halve [OF less.prems] by (auto simp: same_reps_def)
    ultimately show ?thesis using r(3) by blast
  qed
qed


text \<open>Making one root the parent of another joins their trees.\<close>

lemma ranked_link:
  assumes "ranked h p" "l < length p" "r < length p" "p ! l = l" "p ! r = r"
  shows "\<exists>h'. ranked h' (p[l := r])"
proof (cases "l = r")
  case True
  with assms have "p[l := r] = p" by (metis list_update_id)
  with assms(1) show ?thesis by auto
next
  case False
  let ?q = "p[l := r]"
  define h' where "h' k = h k + (if rep_of p k l then Suc (h r) else 0)" for k
  have "ranked h' ?q"
    unfolding ranked_def
  proof (intro allI impI conjI)
    fix k
    assume "k < length ?q"
    then have k: "k < length p" by simp
    show "?q ! k < length ?q" using assms k by (cases "k = l") (auto simp: ranked_def)
    assume n: "?q ! k \<noteq> k"
    show "h' (?q ! k) < h' k"
    proof (cases "k = l")
      case True
      have "\<not> rep_of p r l" using assms(5) False by simp
      moreover have "rep_of p l l" using assms(4) by simp
      ultimately show ?thesis using True assms(2) by (simp add: h'_def)
    next
      case other: False
      with n have pk: "p ! k \<noteq> k" by simp
      with assms(1) k have "h (p ! k) < h k" by (auto simp: ranked_def)
      with other rep_of_parent [OF pk] show ?thesis by (simp add: h'_def)
    qed
  qed
  then show ?thesis by blast
qed

lemma rep_of_link:
  assumes "ranked h p" "l < length p" "r < length p" "p ! l = l" "p ! r = r" "k < length p" "rep_of p k t"
  shows "rep_of (p[l := r]) k s \<longleftrightarrow> s = (if t = l then r else t)"
proof -
  let ?q = "p[l := r]"
  have fwd: "rep_of ?q k (if t = l then r else t)" if "rep_of p k t" "k < length p" for k t
    using that
  proof (induction rule: rep_of.induct)
    case (rep_root i)
    have "rep_of ?q l r"
    proof (cases "l = r")
      case True
      then have "?q ! l = l" using assms(2) by simp
      then have "rep_of ?q l l" by (rule rep_of.rep_root)
      with True show ?thesis by simp
    next
      case False
      have "?q ! l = r" "?q ! r = r" using assms(2,5) False by simp_all
      then have "rep_of ?q (?q ! l) r" "?q ! l \<noteq> l" using False by simp_all
      then show ?thesis by (simp add: rep_of_parent)
    qed
    moreover have "rep_of ?q i i" if "i \<noteq> l"
      by (rule rep_of.rep_root) (cases "l = i"; use that rep_root in simp)
    ultimately show ?case by auto
  next
    case (rep_step i t)
    then have "i \<noteq> l" using assms(4) by auto
    then have q: "?q ! i = p ! i" by simp
    have "p ! i < length p" using assms(1) rep_step.prems by (auto simp: ranked_def)
    from rep_step.IH [OF this] q rep_step.hyps(1) show ?case by (metis rep_of.rep_step)
  qed
  show ?thesis using fwd [OF assms(7,6)] rep_of_det by blast
qed

text \<open>Two indexes are together when they have one representative.\<close>

definition together :: "nat list \<Rightarrow> (nat \<times> nat) set" where
  "together p = {(i, j). i < length p \<and> j < length p \<and> (\<exists>r. rep_of p i r \<and> rep_of p j r)}"

lemma together_same: "same_reps p q \<Longrightarrow> together q = together p"
  by (auto simp: together_def same_reps_def)

definition joined :: "(nat \<times> nat) set \<Rightarrow> nat \<Rightarrow> nat \<Rightarrow> (nat \<times> nat) set" where
  "joined R i j = R \<union> {(x, y). (x, i) \<in> R \<and> (j, y) \<in> R} \<union> {(x, y). (x, j) \<in> R \<and> (i, y) \<in> R}"

lemma unite_correct:
  assumes "ranked h p" "left < length p" "right < length p"
  shows "\<exists>q h'. unite left right p = Some q \<and> ranked h' q \<and> length q = length p
    \<and> together q = joined (together p) left right"
proof -
  obtain r p1 where 1: "find_root right p = Some (r, p1)" "rep_of p right r" "ranked h p1" "same_reps p p1"
    using find_root_correct [OF assms(1,3)] by blast
  then have len1: "length p1 = length p" by (simp add: same_reps_def)
  obtain l p2 where 2: "find_root left p1 = Some (l, p2)" "rep_of p1 left l" "ranked h p2" "same_reps p1 p2"
    using find_root_correct [OF 1(3), of left] assms(2) len1 by auto
  have len2: "length p2 = length p" using 2(4) len1 by (simp add: same_reps_def)
  have same: "same_reps p p2" using 1(4) 2(4) by (simp add: same_reps_def)
  have lb: "l < length p" using rep_of_bound [OF 2(2) 1(3)] assms(2) len1 by simp
  have rb: "r < length p" by (rule rep_of_bound [OF 1(2) assms(1,3)])
  have repl: "rep_of p2 left l" using 2(2,4) assms(2) len1 by (simp add: same_reps_def)
  have repr: "rep_of p2 right r" using 1(2) same assms(3) by (simp add: same_reps_def)
  note roots = rep_of_is_root [OF repl] rep_of_is_root [OF repr]
  obtain h' where h': "ranked h' (p2[l := r])"
    using ranked_link [OF 2(3) _ _ roots] lb rb len2 by auto
  have link: "rep_of (p2[l := r]) k s \<longleftrightarrow> s = (if t = l then r else t)" if "k < length p" "rep_of p2 k t" for k s t
    by (rule rep_of_link [OF 2(3) _ _ roots]) (simp_all add: lb rb len2 that)
  have "together (p2[l := r]) = joined (together p2) left right"
  proof (rule set_eqI, clarify)
    fix x y
    show "(x, y) \<in> together (p2[l := r]) \<longleftrightarrow> (x, y) \<in> joined (together p2) left right"
    proof (cases "x < length p \<and> y < length p")
      case True
      then obtain a b where a: "rep_of p2 x a" and b: "rep_of p2 y b"
        using rep_of_exists [OF 2(3)] len2 by metis
      have px: "rep_of p2 x = (\<lambda>s. s = a)" and py: "rep_of p2 y = (\<lambda>s. s = b)"
        and pl: "rep_of p2 left = (\<lambda>s. s = l)" and pr: "rep_of p2 right = (\<lambda>s. s = r)"
        by (rule ext, use a b repl repr rep_of_det in blast)+
      have "(x, y) \<in> together (p2[l := r]) \<longleftrightarrow> (if a = l then r else a) = (if b = l then r else b)"
        using True link a b len2 by (auto simp: together_def)
      moreover have "(x, y) \<in> joined (together p2) left right \<longleftrightarrow> a = b \<or> (a = l \<and> r = b) \<or> (a = r \<and> l = b)"
        using True assms(2,3) len2 by (auto simp: together_def joined_def px py pl pr)
      ultimately show ?thesis by auto
    qed (auto simp: together_def joined_def len2)
  qed
  with together_same [OF same] 1(1) 2(1) h' len2 show ?thesis by (auto simp: unite_def)
qed


section \<open>The linking loop\<close>

definition chained :: "nat \<Rightarrow> (nat \<times> nat) set \<Rightarrow> (nat \<times> nat) set" where
  "chained n E = {(x, y). (x, y) \<in> (E \<union> E\<inverse>)\<^sup>* \<and> x < n \<and> y < n}"

lemma chained_empty: "chained n {} = {(x, x) |x. x < n}"
  by (auto simp: chained_def)

lemma joined_chained:
  assumes "E \<subseteq> {..<n} \<times> {..<n}" "i < n" "j < n"
  shows "joined (chained n E) i j = chained n (insert (i, j) E)"
proof -
  let ?S = "(E \<union> E\<inverse>)\<^sup>*" and ?T = "(insert (i, j) E \<union> (insert (i, j) E)\<inverse>)\<^sup>*"
  have sub: "?S \<subseteq> ?T" by (rule rtrancl_mono) auto
  have ij: "(i, j) \<in> ?T" "(j, i) \<in> ?T" by auto
  have "joined (chained n E) i j \<subseteq> chained n (insert (i, j) E)"
    using sub ij assms(2,3) by (auto simp: joined_def chained_def) (meson subsetD rtrancl_trans)+
  moreover have "chained n (insert (i, j) E) \<subseteq> joined (chained n E) i j"
  proof clarify
    fix x y
    assume "(x, y) \<in> chained n (insert (i, j) E)"
    then have t: "(x, y) \<in> ?T" and b: "x < n" by (auto simp: chained_def)
    from t have "(x, y) \<in> joined (chained n E) i j"
    proof (induction rule: rtrancl_induct)
      case base
      then show ?case using b by (simp add: joined_def chained_def)
    next
      case (step y z)
      from step.hyps(2) consider "(y, z) = (i, j)" | "(y, z) = (j, i)" | "(y, z) \<in> E \<union> E\<inverse>" by auto
      then show ?case
      proof cases
        case 3
        then have "(a, y) \<in> chained n E \<Longrightarrow> (a, z) \<in> chained n E" for a
          using assms(1) by (auto simp: chained_def intro: rtrancl_into_rtrancl)
        with step.IH show ?thesis by (auto simp: joined_def)
      qed (use step.IH assms(2,3) in \<open>auto simp: joined_def chained_def\<close>)
    qed
    then show "(x, y) \<in> joined (chained n E) i j" .
  qed
  ultimately show ?thesis by blast
qed

definition linked :: "url_library \<Rightarrow> source list \<Rightarrow> nat \<Rightarrow> nat \<Rightarrow> bool" where
  "linked u sources i j \<longleftrightarrow> link_reasons u (sources ! i) (sources ! j) \<noteq> []"

lemma link_pairs_correct:
  assumes "ranked h p" "length p = n" "together p = chained n E" "E \<subseteq> {..<n} \<times> {..<n}" "set ps \<subseteq> {..<n} \<times> {..<n}"
  shows "\<exists>q rels' h'. link_pairs u sources ps (p, rels) = Some (q, rels') \<and> ranked h' q \<and> length q = n
    \<and> together q = chained n (E \<union> {(i, j). (i, j) \<in> set ps \<and> linked u sources i j})"
  using assms
proof (induction ps arbitrary: p rels h E)
  case (Cons x ps)
  obtain l r where x: "x = (l, r)" by fastforce
  have b: "l < n" "r < n" using Cons.prems(5) x by auto
  show ?case
  proof (cases "linked u sources l r")
    case False
    then have "{(i, j). (i, j) \<in> set (x # ps) \<and> linked u sources i j} = {(i, j). (i, j) \<in> set ps \<and> linked u sources i j}" using x by auto
    with Cons False x show ?thesis by (simp add: linked_def)
  next
    case True
    obtain q h' where q: "unite l r p = Some q" "ranked h' q" "length q = n" "together q = chained n (insert (l, r) E)"
      using unite_correct [OF Cons.prems(1), of l r] joined_chained [OF Cons.prems(4) b] Cons.prems(2,3) b by metis
    have "\<exists>q' rels' h'. link_pairs u sources ps (q, rels @ map (\<lambda>why. (l, r, why)) (link_reasons u (sources ! l) (sources ! r)))
        = Some (q', rels') \<and> ranked h' q' \<and> length q' = n
        \<and> together q' = chained n (insert (l, r) E \<union> {(i, j). (i, j) \<in> set ps \<and> linked u sources i j})"
      using Cons.prems b q by (intro Cons.IH [of h']) auto
    moreover have "insert (l, r) E \<union> {(i, j). (i, j) \<in> set ps \<and> linked u sources i j} = E \<union> {(i, j). (i, j) \<in> set (x # ps) \<and> linked u sources i j}"
      using True x by auto
    ultimately show ?thesis using True x q(1) by (simp add: linked_def Let_def)
  qed
qed auto

text \<open>The chains of links.\<close>

definition related :: "url_library \<Rightarrow> source \<Rightarrow> source \<Rightarrow> bool" where
  "related u s t \<longleftrightarrow> same_body s t \<or> (\<exists>url. url \<in> set (url_set u s) \<and> url \<in> set (url_set u t))"

definition links :: "url_library \<Rightarrow> source list \<Rightarrow> (nat \<times> nat) set" where
  "links u sources = {(i, j). i < length sources \<and> j < length sources \<and> related u (sources ! i) (sources ! j)}"

lemma sort_Nil_iff [simp]: "sort xs = [] \<longleftrightarrow> xs = []"
  by (metis set_empty set_sort)

lemma linked_related: "linked u sources i j \<longleftrightarrow> related u (sources ! i) (sources ! j)"
  by (auto simp: linked_def link_reasons_def related_def shared_urls_def filter_empty_conv)

lemma related_sym: "related u s t \<longleftrightarrow> related u t s"
  by (auto simp: related_def same_body_def)

lemma set_below: "set (below n) = {(l, r). l < n \<and> r < l}"
  by (auto simp: below_def)

lemma chained_links:
  "chained (length sources) {(i, j). (i, j) \<in> set (below (length sources)) \<and> linked u sources i j}
    = {(i, j). (i, j) \<in> (links u sources)\<^sup>* \<and> i < length sources \<and> j < length sources}"
proof -
  let ?E = "{(i, j). (i, j) \<in> set (below (length sources)) \<and> linked u sources i j}"
  have "links u sources \<subseteq> (?E \<union> ?E\<inverse>)\<^sup>*"
  proof clarify
    fix i j
    assume ij: "(i, j) \<in> links u sources"
    show "(i, j) \<in> (?E \<union> ?E\<inverse>)\<^sup>*"
    proof (cases "i = j")
      case False
      with ij have "(i, j) \<in> ?E \<union> ?E\<inverse>"
        by (auto simp: links_def set_below linked_related related_sym [of u "sources ! i"])
      then show ?thesis by blast
    qed simp
  qed
  then have "(links u sources)\<^sup>* \<subseteq> (?E \<union> ?E\<inverse>)\<^sup>*" by (rule rtrancl_subset_rtrancl)
  moreover have "?E \<union> ?E\<inverse> \<subseteq> links u sources"
    by (auto simp: links_def set_below linked_related related_sym)
  then have "(?E \<union> ?E\<inverse>)\<^sup>* \<subseteq> (links u sources)\<^sup>*" by (rule rtrancl_mono)
  ultimately show ?thesis by (auto simp: chained_def)
qed

lemma initial_parents: "ranked h [0..<n]" "together [0..<n] = chained n {}"
proof -
  show "ranked h [0..<n]" by (simp add: ranked_def)
  have "rep_of [0..<n] i r \<longleftrightarrow> r = i" if "i < n" for i r using that by simp
  then show "together [0..<n] = chained n {}" by (auto simp: together_def chained_empty)
qed

section \<open>The collecting loop\<close>

lemma add_member_eq:
  "distinct (map fst gs) \<Longrightarrow> add_member r i gs =
    (if r \<in> fst ` set gs then map (\<lambda>(k, is). if k = r then (k, is @ [i]) else (k, is)) gs else gs @ [(r, [i])])"
proof (induction r i gs rule: add_member.induct)
  case (2 r i k "is" gs)
  show ?case
  proof (cases "k = r")
    case True
    with 2(2) have "map (\<lambda>(k, is). if k = r then (k, is @ [i]) else (k, is)) gs = gs"
      by (intro map_idI) (auto simp: image_iff)
    with True show ?thesis by simp
  next
    case False
    with 2 show ?thesis by (simp add: image_iff)
  qed
qed simp

definition grouped :: "nat list \<Rightarrow> nat list \<Rightarrow> (nat \<times> nat list) list \<Rightarrow> bool" where
  "grouped p ds gs \<longleftrightarrow> distinct (map fst gs)
     \<and> (\<forall>(r, is) \<in> set gs. is = filter (\<lambda>i. rep_of p i r) ds \<and> is \<noteq> [])
     \<and> (\<forall>i \<in> set ds. \<forall>r. rep_of p i r \<longrightarrow> r \<in> fst ` set gs)"

lemma grouped_add:
  assumes "grouped p ds gs" "rep_of p i r"
  shows "grouped p (ds @ [i]) (add_member r i gs)"
proof -
  have d: "distinct (map fst gs)" using assms(1) by (simp add: grouped_def)
  have rep: "rep_of p i s \<longleftrightarrow> s = r" for s using assms(2) rep_of_det by blast
  have fst_eq: "map fst (map (\<lambda>(k, is). if k = r then (k, is @ [i]) else (k, is)) gs) = map fst gs"
    by (simp add: case_prod_beta)
  have none: "filter (\<lambda>i. rep_of p i r) ds = []" if "r \<notin> fst ` set gs"
    using assms(1) that by (auto simp: grouped_def filter_empty_conv)
  show ?thesis
  proof (cases "r \<in> fst ` set gs")
    case True
    have e: "add_member r i gs = map (\<lambda>(k, is). if k = r then (k, is @ [i]) else (k, is)) gs"
      using add_member_eq [OF d] True by simp
    show ?thesis
      unfolding grouped_def e fst_eq
    proof (intro conjI d)
      show "\<forall>(s, is) \<in> set (map (\<lambda>(k, is). if k = r then (k, is @ [i]) else (k, is)) gs).
          is = filter (\<lambda>i. rep_of p i s) (ds @ [i]) \<and> is \<noteq> []"
        using assms(1) unfolding grouped_def by (fastforce simp: rep split: if_splits)
      have "fst ` set (map (\<lambda>(k, is). if k = r then (k, is @ [i]) else (k, is)) gs) = fst ` set gs"
        by (metis fst_eq list.set_map)
      then show "\<forall>x \<in> set (ds @ [i]). \<forall>s. rep_of p x s \<longrightarrow> s \<in> fst ` set (map (\<lambda>(k, is). if k = r then (k, is @ [i]) else (k, is)) gs)"
        using assms(1) True by (simp add: grouped_def rep)
    qed
  next
    case False
    have e: "add_member r i gs = gs @ [(r, [i])]" using add_member_eq [OF d] False by simp
    from False have "s \<noteq> r" if "(s, is) \<in> set gs" for s "is" using that by force
    then show ?thesis
      using assms(1) False none [OF False] unfolding grouped_def e by (auto simp: rep)
  qed
qed

lemma collect_groups_correct:
  assumes "ranked h q" "same_reps p q" "set is \<subseteq> {..<length p}" "grouped p ds gs"
  shows "\<exists>gs'. collect_groups is (q, gs) = Some gs' \<and> grouped p (ds @ is) gs'"
  using assms
proof (induction "is" arbitrary: q ds gs)
  case (Cons i "is")
  have i: "i < length q" using Cons.prems(2,3) by (simp add: same_reps_def)
  obtain r q' where f: "find_root i q = Some (r, q')" "rep_of q i r" "ranked h q'" "same_reps q q'"
    using find_root_correct [OF Cons.prems(1) i] by blast
  have "rep_of p i r" using f(2) Cons.prems(2,3) by (simp add: same_reps_def)
  then have g: "grouped p (ds @ [i]) (add_member r i gs)" by (rule grouped_add [OF Cons.prems(4)])
  have "same_reps p q'" using Cons.prems(2) f(4) by (simp add: same_reps_def)
  with Cons.IH [OF f(3) this _ g] Cons.prems(3) f(1) show ?case by simp
qed simp


section \<open>Property\<close>

lemma grouped_partition:
  assumes "ranked h p" "n = length p" "grouped p [0..<n] gs"
  shows "distinct (concat (map snd gs))" "set (concat (map snd gs)) = {..<n}"
    "\<forall>g \<in> set (map snd gs). g \<noteq> [] \<and> sorted g"
    "i < n \<Longrightarrow> j < n \<Longrightarrow> (\<exists>g \<in> set (map snd gs). i \<in> set g \<and> j \<in> set g) \<longleftrightarrow> (i, j) \<in> together p"
proof -
  have g: "(r, is) \<in> set gs \<Longrightarrow> is = filter (\<lambda>i. rep_of p i r) [0..<n] \<and> is \<noteq> []" for r "is"
    using assms(3) by (auto simp: grouped_def)
  have mem: "i \<in> set is \<longleftrightarrow> i < n \<and> rep_of p i r" if "(r, is) \<in> set gs" for i r "is"
    by (subst g [OF that, THEN conjunct1]) auto
  have d: "distinct (map fst gs)" using assms(3) by (simp add: grouped_def)
  have cover: "\<exists>r is. (r, is) \<in> set gs \<and> rep_of p i r" if i: "i < n" for i
  proof -
    obtain r where r: "rep_of p i r" using rep_of_exists [OF assms(1)] i assms(2) by blast
    with assms(3) i have "r \<in> fst ` set gs" by (simp add: grouped_def)
    with r show ?thesis by force
  qed
  show "\<forall>g \<in> set (map snd gs). g \<noteq> [] \<and> sorted g"
  proof
    fix x
    assume "x \<in> set (map snd gs)"
    then obtain r where "(r, x) \<in> set gs" by auto
    then have "x = filter (\<lambda>i. rep_of p i r) [0..<n]" "x \<noteq> []" using g by blast+
    then show "x \<noteq> [] \<and> sorted x" by (metis sorted_upt sorted_wrt_filter)
  qed
  have "distinct (map snd gs)"
    unfolding distinct_map
  proof (intro conjI inj_onI)
    show "distinct gs" using d by (simp add: distinct_map)
    fix x y
    assume xy: "x \<in> set gs" "y \<in> set gs" "snd x = snd y"
    obtain r s "is" where e: "x = (r, is)" "y = (s, is)" using xy(3) by (metis prod.collapse)
    then obtain i where "i \<in> set is" using g xy(1) by fastforce
    then have "rep_of p i r" "rep_of p i s" using mem [of r "is" i] mem [of s "is" i] xy(1,2) e by simp_all
    then show "x = y" using e rep_of_det by blast
  qed
  moreover have "set a \<inter> set b = {}" if ab: "a \<in> snd ` set gs" "b \<in> snd ` set gs" "a \<noteq> b" for a b
  proof -
    obtain r s where "(r, a) \<in> set gs" "(s, b) \<in> set gs" using ab by auto
    with ab(3) g show ?thesis using mem rep_of_det by (metis disjoint_iff)
  qed
  moreover have "distinct x" if x: "x \<in> set (map snd gs)" for x
  proof -
    obtain r where "(r, x) \<in> set gs" using x by auto
    then have "x = filter (\<lambda>i. rep_of p i r) [0..<n]" using g by blast
    then show ?thesis by (metis distinct_filter distinct_upt)
  qed
  ultimately show "distinct (concat (map snd gs))" by (intro distinct_concat) auto
  show "set (concat (map snd gs)) = {..<n}"
  proof (intro set_eqI iffI)
    fix i
    assume "i \<in> set (concat (map snd gs))"
    then obtain r "is" where "(r, is) \<in> set gs" "i \<in> set is" by auto
    with mem show "i \<in> {..<n}" by auto
  next
    fix i
    assume "i \<in> {..<n}"
    then have "i < n" by simp
    then obtain r "is" where "(r, is) \<in> set gs" "rep_of p i r" using cover by blast
    with mem \<open>i < n\<close> have "i \<in> set is" by blast
    with \<open>(r, is) \<in> set gs\<close> show "i \<in> set (concat (map snd gs))" by force
  qed
  show "(\<exists>g \<in> set (map snd gs). i \<in> set g \<and> j \<in> set g) \<longleftrightarrow> (i, j) \<in> together p" if ij: "i < n" "j < n"
  proof
    assume "\<exists>g \<in> set (map snd gs). i \<in> set g \<and> j \<in> set g"
    then obtain r "is" where r: "(r, is) \<in> set gs" "i \<in> set is" "j \<in> set is" by auto
    with mem [OF r(1)] show "(i, j) \<in> together p" using ij assms(2) by (auto simp: together_def)
  next
    assume t: "(i, j) \<in> together p"
    obtain r "is" where r: "(r, is) \<in> set gs" "rep_of p i r" using cover [OF ij(1)] by blast
    with t have "rep_of p j r" using rep_of_det by (auto simp: together_def) 
    with mem [OF r(1)] r ij have "i \<in> set is" "j \<in> set is" by blast+
    with r(1) show "\<exists>g \<in> set (map snd gs). i \<in> set g \<and> j \<in> set g" by force
  qed
qed

text \<open>C24. Grouping by origin always returns, and its groups are the connected components of the links:
  every source is in exactly one group, two sources are in one group exactly when a chain of equal
  bodies or shared addresses joins them, group identifiers are distinct, and no group is ever claimed
  to be independent.\<close>

theorem origin_groups_are_components:
  "\<exists>gs parts. group_origins u sources = Some gs
     \<and> map gr_sources gs = map (map (\<lambda>i. so_source_id (sources ! i))) parts
     \<and> distinct (concat parts) \<and> set (concat parts) = {..<length sources}
     \<and> (\<forall>g \<in> set parts. g \<noteq> [] \<and> sorted g)
     \<and> (\<forall>i < length sources. \<forall>j < length sources.
          (\<exists>g \<in> set parts. i \<in> set g \<and> j \<in> set g) \<longleftrightarrow> (i, j) \<in> (links u sources)\<^sup>*)
     \<and> distinct (map gr_id gs) \<and> (\<forall>g \<in> set gs. gr_independence g = Unknown)"
proof -
  let ?n = "length sources"
  have below: "set (below ?n) \<subseteq> {..<?n} \<times> {..<?n}" by (auto simp: set_below)
  obtain p rels h where p: "link_pairs u sources (below ?n) ([0..<?n], []) = Some (p, rels)" "ranked h p" "length p = ?n"
    "together p = {(i, j). (i, j) \<in> (links u sources)\<^sup>* \<and> i < ?n \<and> j < ?n}"
    using link_pairs_correct [OF initial_parents(1) _ initial_parents(2) _ below, where u = u and sources = sources and rels = "[]"] chained_links by auto
  have "grouped p [] []" by (simp add: grouped_def)
  then obtain gs where gs: "collect_groups [0..<?n] (p, []) = Some gs" "grouped p [0..<?n] gs"
    using collect_groups_correct [OF p(2) _ _ \<open>grouped p [] []\<close>, of "[0..<?n]"] p(3)
    by (auto simp: same_reps_def lessThan_atLeast0)
  define parts where "parts = map snd gs"
  define groups where "groups = map (\<lambda>(k, is). new_group u sources rels k is) (zip [1..<Suc (length gs)] parts)"
  have "group_origins u sources = Some groups"
    by (simp add: group_origins_def p(1) gs(1) groups_def parts_def)
  moreover have "map gr_sources groups = map (map (\<lambda>i. so_source_id (sources ! i))) parts"
    by (rule nth_equalityI) (auto simp: groups_def new_group_def parts_def simp del: upt_Suc)
  moreover have "length parts = length [1..<Suc (length gs)]" by (simp add: parts_def del: upt_Suc)
  then have "map gr_id groups = map (\<lambda>k. ''o'' @ pad_left 3 (dec k)) [1..<Suc (length gs)]"
    by (intro nth_equalityI) (auto simp: groups_def new_group_def simp del: upt_Suc)
  then have "distinct (map gr_id groups)" by (simp add: distinct_map inj_on_def del: upt_Suc)
  moreover have "\<forall>g \<in> set groups. gr_independence g = Unknown" by (auto simp: groups_def new_group_def)
  moreover note part = grouped_partition [OF p(2) p(3) [symmetric] gs(2), folded parts_def]
  have "\<forall>i < ?n. \<forall>j < ?n. (\<exists>g \<in> set parts. i \<in> set g \<and> j \<in> set g) \<longleftrightarrow> (i, j) \<in> (links u sources)\<^sup>*"
    using part(4) p(4) by simp
  ultimately show ?thesis using part(1-3) by (intro exI [of _ groups] exI [of _ parts]) blast
qed

definition ex_urls :: url_library where
  "ex_urls = \<lparr> ur_split = (\<lambda>_. None), ur_unsplit = (\<lambda>_ _ _ _. []), ur_parse_qsl = (\<lambda>_. []),
     ur_urlencode = (\<lambda>_. []), ur_lower = id \<rparr>"

definition ex_copies :: "source list" where
  "ex_copies = [(new_source ''a'' ''u'' ''t'')\<lparr> so_body_hash := Some ''h'' \<rparr>, new_source ''b'' ''v'' ''t'',
     (new_source ''c'' ''w'' ''t'')\<lparr> so_body_hash := Some ''h'' \<rparr>]"

theorem origin_groups_are_components_witness:
  "\<exists>gs parts. group_origins ex_urls ex_copies = Some gs
     \<and> map gr_sources gs = map (map (\<lambda>i. so_source_id (ex_copies ! i))) parts
     \<and> (\<exists>g \<in> set parts. 0 \<in> set g \<and> 2 \<in> set g)"
proof -
  have l: "(0, 2) \<in> links ex_urls ex_copies"
    by (simp add: links_def ex_copies_def related_def same_body_def present_def new_source_def)
  then have "(0, 2) \<in> (links ex_urls ex_copies)\<^sup>*" by blast
  moreover have "0 < length ex_copies" "2 < length ex_copies" by (simp_all add: ex_copies_def)
  moreover obtain gs parts where g: "group_origins ex_urls ex_copies = Some gs"
    "map gr_sources gs = map (map (\<lambda>i. so_source_id (ex_copies ! i))) parts"
    "\<forall>i < length ex_copies. \<forall>j < length ex_copies.
          (\<exists>g \<in> set parts. i \<in> set g \<and> j \<in> set g) \<longleftrightarrow> (i, j) \<in> (links ex_urls ex_copies)\<^sup>*"
    using origin_groups_are_components [of ex_urls ex_copies] by (elim exE conjE) (rule that, assumption+)
  ultimately have "\<exists>g \<in> set parts. 0 \<in> set g \<and> 2 \<in> set g" by meson
  with g(1,2) show ?thesis by blast
qed

end
