(* ===== verification/Passages.thy ===== *)
theory Passages
  imports Comparison
begin

text \<open>
  \<open>_tokens\<close> and \<open>select_passages\<close> of \<open>evidence.py\<close>: every usable passage is ranked against the question, and
  the strongest passage of each source comes before any second passage of a source. Scores are reals.
\<close>

section \<open>Tokens\<close>

definition STOPWORDS :: "utext list" where
  "STOPWORDS = map ascii
     [''a'', ''an'', ''and'', ''are'', ''as'', ''at'', ''be'', ''by'', ''for'', ''from'', ''how'', ''in'', ''is'', ''it'',
      ''of'', ''on'', ''or'', ''the'', ''to'', ''was'', ''what'', ''which'', ''with'']"

definition plain_alnum :: "codepoint \<Rightarrow> bool" where
  "plain_alnum c \<longleftrightarrow> (97 \<le> c \<and> c \<le> 122) \<or> (48 \<le> c \<and> c \<le> 57)"

definition word_joint :: "codepoint \<Rightarrow> bool" where
  "word_joint c \<longleftrightarrow> c = 46 \<or> c = 95 \<or> c = 45"

text \<open>How long the longest word at the start of a text is: runs of letters and digits, joined by single
  dots, underscores or hyphens.\<close>

fun word_length :: "utext \<Rightarrow> nat" where
  "word_length [] = 0"
| "word_length [c] = (if plain_alnum c then 1 else 0)"
| "word_length (c # d # cs) =
     (if \<not> plain_alnum c then 0
      else if plain_alnum d then Suc (word_length (d # cs))
      else if word_joint d \<and> word_length cs \<noteq> 0 then Suc (Suc (word_length cs))
      else 1)"

function words :: "utext \<Rightarrow> utext list" where
  "words [] = []"
| "words (c # cs) =
     (let n = word_length (c # cs) in
      if n = 0 then words cs else take n (c # cs) # words (drop (n - 1) cs))"
  by pat_completeness auto
termination by (relation "measure length") auto

definition cjk :: "codepoint \<Rightarrow> bool" where
  "cjk c \<longleftrightarrow> (12352 \<le> c \<and> c \<le> 12543) \<or> (13312 \<le> c \<and> c \<le> 40959)"

function cjk_runs :: "utext \<Rightarrow> utext list" where
  "cjk_runs [] = []"
| "cjk_runs (c # cs) =
     (if cjk c then (c # takeWhile cjk cs) # cjk_runs (dropWhile cjk cs) else cjk_runs cs)"
  by pat_completeness auto
termination by (relation "measure length") (auto simp: length_dropWhile_le less_Suc_eq_le)

definition bigrams :: "utext \<Rightarrow> utext list" where
  "bigrams run = map (\<lambda>i. slice i (i + 2) run) [0..<length run - 1] @ (if length run = 1 then [run] else [])"

definition tokens :: "unicode \<Rightarrow> utext \<Rightarrow> utext list" where
  "tokens u text =
     (let t = u_casefold u (u_nfkc u text)
      in filter (\<lambda>w. w \<notin> set STOPWORDS) (words t) @ concat (map bigrams (cjk_runs t)))"

section \<open>Ranking\<close>

definition passage_score :: "utext list \<Rightarrow> (utext \<Rightarrow> nat) \<Rightarrow> nat \<Rightarrow> utext list \<Rightarrow> real" where
  "passage_score terms freq passages_total ts =
     sum_list (map (\<lambda>t. (1 + ln (real (count_list ts t))) * ln (1 + real passages_total / (1 + real (freq t))))
       (filter (\<lambda>t. t \<in> set ts) (remdups terms)))
     / (1 + ln (1 + real (length ts)) / 8)"

definition passage_scores :: "unicode \<Rightarrow> utext \<Rightarrow> passage list \<Rightarrow> real list" where
  "passage_scores u question ps =
     (let terms = tokens u question; tokenized = map (\<lambda>p. tokens u (pa_text p)) ps;
          freq = (\<lambda>t. count_rows (\<lambda>ts. t \<in> set ts) tokenized)
      in map (passage_score terms freq (length ps)) tokenized)"

definition ranked_indexes :: "real list \<Rightarrow> nat list" where
  "ranked_indexes scores = sort_key (\<lambda>i. (- (scores ! i), i)) [0..<length scores]"

section \<open>Selecting\<close>

definition usable_passages :: "source list \<Rightarrow> passage list" where
  "usable_passages sources =
     concat (map (\<lambda>s. if usable_source s
                     then filter (\<lambda>p. pa_source_id p = so_source_id s \<and> strip (pa_text p) \<noteq> []) (so_passages s)
                     else []) sources)"

text \<open>The first loop: one passage per source, until there are enough.\<close>

fun cover_sources :: "nat \<Rightarrow> (nat \<Rightarrow> string) \<Rightarrow> nat list \<Rightarrow> nat list \<Rightarrow> nat list" where
  "cover_sources n src [] selected = selected"
| "cover_sources n src (i # is) selected =
     (let selected' = (if src i \<notin> src ` set selected then selected @ [i] else selected)
      in if n \<le> length selected' then selected' else cover_sources n src is selected')"

text \<open>The second loop: the best of the others.\<close>

fun fill_selection :: "nat \<Rightarrow> nat list \<Rightarrow> nat list \<Rightarrow> nat list" where
  "fill_selection n [] selected = selected"
| "fill_selection n (i # is) selected =
     (if n \<le> length selected then selected
      else if i \<notin> set selected then fill_selection n is (selected @ [i])
      else fill_selection n is selected)"

definition select_indexes :: "nat \<Rightarrow> (nat \<Rightarrow> string) \<Rightarrow> nat list \<Rightarrow> nat list" where
  "select_indexes n src ranked = fill_selection n ranked (cover_sources n src ranked [])"

definition select_passages :: "unicode \<Rightarrow> source list \<Rightarrow> utext \<Rightarrow> int \<Rightarrow> passage list" where
  "select_passages u sources question max_passages =
     (if max_passages \<le> 0 then []
      else
        let ps = usable_passages sources in
        if ps = [] then []
        else map (nth ps) (select_indexes (nat max_passages) (\<lambda>i. pa_source_id (ps ! i))
               (ranked_indexes (passage_scores u question ps))))"

section \<open>The loops\<close>

lemma cover_sources_correct:
  assumes "n > 0" "distinct (selected @ is)" "length selected < n" "distinct (map src selected)"
  shows "\<exists>more. cover_sources n src is selected = selected @ more \<and> set more \<subseteq> set is
      \<and> distinct (selected @ more) \<and> length (selected @ more) \<le> n \<and> distinct (map src (selected @ more))
      \<and> (length (selected @ more) < n \<longrightarrow> src ` set (selected @ more) = src ` set (selected @ is))
      \<and> (\<forall>x \<in> set more. \<exists>pre post. is = pre @ x # post \<and> src x \<notin> src ` set pre)"
  using assms(2-)
proof (induction "is" arbitrary: selected)
  case (Cons i "is")
  show ?case
  proof (cases "src i \<in> src ` set selected")
    case True
    then have step: "cover_sources n src (i # is) selected = cover_sources n src is selected"
      using Cons.prems by (auto simp: Let_def)
    obtain more where m: "cover_sources n src is selected = selected @ more" "set more \<subseteq> set is"
      "distinct (selected @ more)" "length (selected @ more) \<le> n" "distinct (map src (selected @ more))"
      "length (selected @ more) < n \<longrightarrow> src ` set (selected @ more) = src ` set (selected @ is)"
      "\<forall>x \<in> set more. \<exists>pre post. is = pre @ x # post \<and> src x \<notin> src ` set pre"
      using Cons.IH [of selected] Cons.prems by auto
    have "\<exists>pre post. i # is = pre @ x # post \<and> src x \<notin> src ` set pre" if x: "x \<in> set more" for x
    proof -
      obtain pre post where "is = pre @ x # post" "src x \<notin> src ` set pre" using m(7) x by blast
      moreover have "src x \<notin> src ` set selected" using m(5) x by auto
      then have "src x \<noteq> src i" using True by metis
      ultimately show ?thesis by (intro exI [of _ "i # pre"] exI [of _ post]) auto
    qed
    with step m True show ?thesis by (intro exI [of _ more]) (auto simp: insert_absorb)
  next
    case False
    let ?sel = "selected @ [i]"
    show ?thesis
    proof (cases "n \<le> length ?sel")
      case True
      then show ?thesis
        using False Cons.prems by (intro exI [of _ "[i]"]) (auto intro: exI [of _ "[]"])
    next
      case less: False
      obtain more where m: "cover_sources n src is ?sel = ?sel @ more" "set more \<subseteq> set is"
        "distinct (?sel @ more)" "length (?sel @ more) \<le> n" "distinct (map src (?sel @ more))"
        "length (?sel @ more) < n \<longrightarrow> src ` set (?sel @ more) = src ` set (?sel @ is)"
        "\<forall>x \<in> set more. \<exists>pre post. is = pre @ x # post \<and> src x \<notin> src ` set pre"
        using Cons.IH [of ?sel] Cons.prems False less by auto
      have "\<exists>pre post. i # is = pre @ x # post \<and> src x \<notin> src ` set pre" if x: "x \<in> set (i # more)" for x
      proof (cases "x = i")
        case False
        then obtain pre post where "is = pre @ x # post" "src x \<notin> src ` set pre" using m(7) x by auto
        moreover have "src i \<notin> src ` set more" "x \<in> set more" using m(5) x False by auto
        then have "src x \<noteq> src i" by (metis imageI)
        ultimately show ?thesis by (intro exI [of _ "i # pre"] exI [of _ post]) auto
      qed (auto intro: exI [of _ "[]"])
      with m False less show ?thesis by (intro exI [of _ "i # more"]) (auto simp: Let_def)
    qed
  qed
qed auto

lemma fill_selection_correct:
  assumes "distinct is" "distinct selected" "length selected \<le> n"
  shows "\<exists>more. fill_selection n is selected = selected @ more \<and> set more \<subseteq> set is
      \<and> distinct (selected @ more) \<and> length (selected @ more) = min n (card (set selected \<union> set is))"
  using assms
proof (induction "is" arbitrary: selected)
  case Nil
  then show ?case by (auto simp: distinct_card)
next
  case (Cons i "is")
  have card: "length selected = card (set selected)" using Cons.prems by (simp add: distinct_card)
  show ?case
  proof (cases "n \<le> length selected")
    case True
    have "card (set selected) \<le> card (set selected \<union> set (i # is))" by (rule card_mono) auto
    with True Cons.prems card show ?thesis by (intro exI [of _ "[]"]) auto
  next
    case False
    show ?thesis
    proof (cases "i \<in> set selected")
      case True
      with Cons False obtain more where "fill_selection n is selected = selected @ more" "set more \<subseteq> set is"
        "distinct (selected @ more)" "length (selected @ more) = min n (card (set selected \<union> set is))" by force
      with True False show ?thesis by (intro exI [of _ more]) (auto simp: insert_absorb)
    next
      case new: False
      obtain more where m: "fill_selection n is (selected @ [i]) = (selected @ [i]) @ more" "set more \<subseteq> set is"
        "distinct ((selected @ [i]) @ more)" "length ((selected @ [i]) @ more) = min n (card (set (selected @ [i]) \<union> set is))"
        using Cons.IH [of "selected @ [i]"] Cons.prems new False by auto
      with new False show ?thesis by (intro exI [of _ "i # more"]) auto
    qed
  qed
qed

lemma ranked_indexes_facts:
  "set (ranked_indexes scores) = {..<length scores}" "distinct (ranked_indexes scores)"
  "sorted_wrt (\<lambda>i j. scores ! j \<le> scores ! i) (ranked_indexes scores)"
proof -
  show "set (ranked_indexes scores) = {..<length scores}" "distinct (ranked_indexes scores)"
    by (auto simp: ranked_indexes_def)
  have "sorted (map (\<lambda>i. (- (scores ! i), i)) (ranked_indexes scores))"
    unfolding ranked_indexes_def by (rule sorted_sort_key)
  then show "sorted_wrt (\<lambda>i j. scores ! j \<le> scores ! i) (ranked_indexes scores)"
    unfolding sorted_map by (rule sorted_wrt_mono_rel [rotated]) (auto simp: less_eq_prod_def)
qed


section \<open>Property\<close>

lemma select_indexes_correct:
  assumes "n > 0" "distinct ranked"
  shows "\<exists>first more. select_indexes n src ranked = first @ more \<and> distinct (first @ more)
    \<and> set (first @ more) \<subseteq> set ranked \<and> length (first @ more) = min n (length ranked)
    \<and> length first = min n (card (src ` set ranked)) \<and> distinct (map src first)
    \<and> (\<forall>x \<in> set first. \<exists>pre post. ranked = pre @ x # post \<and> src x \<notin> src ` set pre)"
proof -
  obtain first where f: "cover_sources n src ranked [] = first" "set first \<subseteq> set ranked" "distinct first"
    "length first \<le> n" "distinct (map src first)" "length first < n \<longrightarrow> src ` set first = src ` set ranked"
    "\<forall>x \<in> set first. \<exists>pre post. ranked = pre @ x # post \<and> src x \<notin> src ` set pre"
    using cover_sources_correct [of n "[]" ranked src] assms by auto
  obtain more where m: "fill_selection n ranked first = first @ more" "set more \<subseteq> set ranked"
    "distinct (first @ more)" "length (first @ more) = min n (card (set first \<union> set ranked))"
    using fill_selection_correct [OF assms(2) f(3,4)] by blast
  have "set first \<union> set ranked = set ranked" using f(2) by blast
  then have len: "length (first @ more) = min n (length ranked)" using m(4) assms(2) by (simp add: distinct_card)
  have card: "length first = card (src ` set first)" using f(5) by (metis distinct_card length_map list.set_map)
  have le: "card (src ` set first) \<le> card (src ` set ranked)" using f(2) by (intro card_mono image_mono) auto
  have lf: "length first = min n (card (src ` set ranked))"
  proof (cases "length first < n")
    case True
    then have "length first = card (src ` set ranked)" using f(6) card by (simp only:)
    with True show ?thesis by simp
  next
    case False
    with f(4) have "length first = n" by simp
    with le card show ?thesis by linarith
  qed
  have sub: "set (first @ more) \<subseteq> set ranked" using f(2) m(2) by simp
  show ?thesis
    unfolding select_indexes_def f(1)
    by (intro exI conjI, rule m(1), rule m(3), rule sub, rule len, rule lf, rule f(5), rule f(7))
qed

text \<open>The selection is as large as it may be and fair to the sources: it consists of different usable
  passages, as many as allowed or as there are; its first part holds one passage of each source (as many
  sources as fit), and that passage has the highest score of all passages of its source.\<close>

theorem selection_covers_sources:
  assumes "ps = usable_passages sources" "0 < max_passages" "scores = passage_scores u question ps"
  shows "\<exists>first more. select_passages u sources question max_passages = map (nth ps) (first @ more)
    \<and> distinct (first @ more) \<and> set (first @ more) \<subseteq> {..<length ps}
    \<and> length (first @ more) = min (nat max_passages) (length ps)
    \<and> length first = min (nat max_passages) (card (pa_source_id ` set ps))
    \<and> distinct (map (\<lambda>i. pa_source_id (ps ! i)) first)
    \<and> (\<forall>i \<in> set first. \<forall>j < length ps. pa_source_id (ps ! j) = pa_source_id (ps ! i) \<longrightarrow> scores ! j \<le> scores ! i)"
proof (cases "ps = []")
  case True
  then show ?thesis using assms by (auto simp: select_passages_def)
next
  case False
  let ?src = "\<lambda>i. pa_source_id (ps ! i)" and ?ranked = "ranked_indexes scores"
  have len: "length scores = length ps" by (simp add: assms(3) passage_scores_def Let_def)
  note r = ranked_indexes_facts [of scores, unfolded len]
  have lr: "length ?ranked = length ps" using r(1,2) by (metis card_lessThan distinct_card)
  have srcs: "?src ` set ?ranked = pa_source_id ` set ps"
    unfolding r(1) by (auto simp: set_conv_nth)
  obtain first more where s: "select_indexes (nat max_passages) ?src ?ranked = first @ more" "distinct (first @ more)"
    "set (first @ more) \<subseteq> set ?ranked" "length (first @ more) = min (nat max_passages) (length ?ranked)"
    "length first = min (nat max_passages) (card (?src ` set ?ranked))" "distinct (map ?src first)"
    "\<forall>x \<in> set first. \<exists>pre post. ?ranked = pre @ x # post \<and> ?src x \<notin> ?src ` set pre"
    using select_indexes_correct [of "nat max_passages" ?ranked ?src] assms(2) r(2) by auto
  have "scores ! j \<le> scores ! i" if i: "i \<in> set first" and j: "j < length ps" "?src j = ?src i" for i j
  proof -
    obtain pre post where p: "?ranked = pre @ i # post" "?src i \<notin> ?src ` set pre" using s(7) i by blast
    have "j \<in> set ?ranked" using r(1) j(1) by simp
    moreover have "j \<notin> set pre" using p(2) j(2) by (metis imageI)
    ultimately have "j = i \<or> j \<in> set post" unfolding p(1) by auto
    with r(3) p(1) show ?thesis by (auto simp: sorted_wrt_append)
  qed
  moreover have "select_passages u sources question max_passages = map (nth ps) (first @ more)"
    using assms False s(1) by (simp add: select_passages_def Let_def)
  ultimately show ?thesis using s r(1) lr srcs by (intro exI [of _ first] exI [of _ more]) simp
qed

definition ex_read :: "string \<Rightarrow> string \<Rightarrow> source" where
  "ex_read s t = (new_source s ''u'' ''t'')\<lparr> so_status := SOk,
     so_passages := [\<lparr> pa_passage_id = s @ ''-p1'', pa_source_id = s, pa_text = ascii t, pa_page = None, pa_start = 0, pa_end = 1 \<rparr>,
                     \<lparr> pa_passage_id = s @ ''-p2'', pa_source_id = s, pa_text = ascii t, pa_page = None, pa_start = 1, pa_end = 2 \<rparr>] \<rparr>"

theorem selection_covers_sources_witness:
  "length (select_passages ex_unicode [ex_read ''a'' ''x'', ex_read ''b'' ''y''] [] 2) = 2
   \<and> distinct (map pa_source_id (select_passages ex_unicode [ex_read ''a'' ''x'', ex_read ''b'' ''y''] [] 2))"
proof -
  let ?s = "[ex_read ''a'' ''x'', ex_read ''b'' ''y'']" and ?ps = "usable_passages [ex_read ''a'' ''x'', ex_read ''b'' ''y'']"
  have ps: "map pa_source_id ?ps = [''a'', ''a'', ''b'', ''b'']"
    by (simp add: usable_passages_def ex_read_def new_source_def usable_source_def strip_def py_space_def ascii_def)
  from arg_cong [OF ps, of length] have "length ?ps = 4" by simp
  moreover from ps have "pa_source_id ` set ?ps = {''a'', ''b''}" by (metis (no_types) image_set list.set(1,2) insert_absorb2)
  then have "card (pa_source_id ` set ?ps) = 2" by simp
  ultimately obtain first more where "select_passages ex_unicode ?s [] 2 = map (nth ?ps) (first @ more)"
    "length (first @ more) = 2" "length first = 2" "distinct (map (\<lambda>i. pa_source_id (?ps ! i)) first)"
    using selection_covers_sources [OF refl _ refl, where max_passages = 2 and sources = ?s and u = ex_unicode and question = "[]"] by auto
  then show ?thesis by (simp add: comp_def)
qed

end
