(* ===== verification/Budget.thy ===== *)
theory Budget
  imports Quotes
begin

text \<open>
  \<open>budget.py\<close>: the allowance that all requests of a job share. The monotonic clock is a sequence of
  readings; a budget counts how many of them were taken. An operation yields an exception or a value,
  together with the new budget.
\<close>

section \<open>Exceptions\<close>

text \<open>What the research and collection code raises. \<open>Cancelled\<close> is \<open>asyncio.CancelledError\<close>, which is not an
  \<open>Exception\<close>; \<open>OtherError\<close> is any other exception, with the code it carries or its class name.\<close>

datatype exn =
    BudgetExceeded string
  | SearchError string "nat option"
  | QueryPrivacyError utext
  | UnsafeURL string
  | DocumentLimit string
  | InvalidEncoding string
  | FetchTimeout
  | ConnectionError string
  | ModelFailure string
  | Cancelled
  | OtherError string

type_synonym ('a, 's) run = "'s \<Rightarrow> (exn + 'a) \<times> 's"

text \<open>Sequencing: a raise skips the rest, and the state is what it was at the raise.\<close>

definition returns :: "'a \<Rightarrow> ('a, 's) run" where
  "returns x s = (Inr x, s)"

definition raise :: "exn \<Rightarrow> ('a, 's) run" where
  "raise e s = (Inl e, s)"

definition andthen :: "('a, 's) run \<Rightarrow> ('a \<Rightarrow> ('b, 's) run) \<Rightarrow> ('b, 's) run" where
  "andthen m f s = (case m s of (Inl e, s') \<Rightarrow> (Inl e, s') | (Inr x, s') \<Rightarrow> f x s')"

section \<open>State\<close>

datatype category = MaxQueries | SearchRequests | MaxSources | FetchRequests | ModelRequests | CacheBytes

fun limit_of :: "limits \<Rightarrow> category \<Rightarrow> int" where
  "limit_of l MaxQueries = max_queries l"
| "limit_of l SearchRequests = search_requests l"
| "limit_of l MaxSources = max_sources l"
| "limit_of l FetchRequests = fetch_requests l"
| "limit_of l ModelRequests = model_requests l"
| "limit_of l CacheBytes = cache_bytes l"

fun category_name :: "category \<Rightarrow> string" where
  "category_name MaxQueries = ''max_queries''"
| "category_name SearchRequests = ''search_requests''"
| "category_name MaxSources = ''max_sources''"
| "category_name FetchRequests = ''fetch_requests''"
| "category_name ModelRequests = ''model_requests''"
| "category_name CacheBytes = ''cache_bytes''"

record budget =
  b_limits :: limits
  b_started :: real
  b_readings :: nat
  b_counts :: "category \<Rightarrow> int"
  b_query_keys :: "utext list"
  b_source_keys :: "string list"
  b_input_tokens :: "int option"
  b_output_tokens :: "int option"

definition new_budget :: "clock \<Rightarrow> limits \<Rightarrow> budget" where
  "new_budget clk l =
     \<lparr> b_limits = l, b_started = clk 0, b_readings = 1, b_counts = (\<lambda>_. 0), b_query_keys = [],
       b_source_keys = [], b_input_tokens = None, b_output_tokens = None \<rparr>"

section \<open>Operations\<close>

definition remaining_seconds :: "clock \<Rightarrow> budget \<Rightarrow> real \<times> budget" where
  "remaining_seconds clk b =
     (max 0 (job_seconds (b_limits b) - (clk (b_readings b) - b_started b)),
      b\<lparr> b_readings := Suc (b_readings b) \<rparr>)"

definition check_time :: "clock \<Rightarrow> (unit, budget) run" where
  "check_time clk b =
     (case remaining_seconds clk b of
        (s, b') \<Rightarrow> (if s = 0 then Inl (BudgetExceeded ''job_timeout'') else Inr (), b'))"

definition take_budget :: "clock \<Rightarrow> category \<Rightarrow> int \<Rightarrow> (unit, budget) run" where
  "take_budget clk c n b =
     (case check_time clk b of
        (Inl e, b') \<Rightarrow> (Inl e, b')
      | (Inr _, b') \<Rightarrow>
          if limit_of (b_limits b') c < b_counts b' c + n then (Inl (BudgetExceeded (category_name c)), b')
          else (Inr (), b'\<lparr> b_counts := (b_counts b')(c := b_counts b' c + n) \<rparr>))"

text \<open>\<open>" ".join(query.casefold().split())\<close>.\<close>

definition query_key :: "(utext \<Rightarrow> utext) \<Rightarrow> utext \<Rightarrow> utext" where
  "query_key casefold q = strip (collapse (casefold q))"

definition take_query :: "clock \<Rightarrow> (utext \<Rightarrow> utext) \<Rightarrow> utext \<Rightarrow> (bool, budget) run" where
  "take_query clk casefold q b =
     (let key = query_key casefold q in
      if key \<in> set (b_query_keys b) then (Inr False, b)
      else case take_budget clk MaxQueries 1 b of
             (Inl e, b') \<Rightarrow> (Inl e, b')
           | (Inr _, b') \<Rightarrow> (Inr True, b'\<lparr> b_query_keys := key # b_query_keys b' \<rparr>))"

definition take_source :: "clock \<Rightarrow> string \<Rightarrow> (bool, budget) run" where
  "take_source clk url b =
     (if url \<in> set (b_source_keys b) then (Inr False, b)
      else case take_budget clk MaxSources 1 b of
             (Inl e, b') \<Rightarrow> (Inl e, b')
           | (Inr _, b') \<Rightarrow> (Inr True, b'\<lparr> b_source_keys := url # b_source_keys b' \<rparr>))"

text \<open>The requests part of \<open>snapshot\<close>.\<close>

definition snapshot_requests :: "budget \<Rightarrow> (string \<times> int) list" where
  "snapshot_requests b =
     map (\<lambda>c. (category_name c, b_counts b c)) [SearchRequests, FetchRequests, ModelRequests]"

section \<open>What no operation breaks\<close>

text \<open>No count is above its limit or falls, and the keys taken are different and paid for.\<close>

definition budget_ok :: "budget \<Rightarrow> bool" where
  "budget_ok b \<longleftrightarrow> (\<forall>c. 0 \<le> b_counts b c \<and> b_counts b c \<le> limit_of (b_limits b) c)
     \<and> distinct (b_query_keys b) \<and> distinct (b_source_keys b)
     \<and> int (length (b_query_keys b)) \<le> b_counts b MaxQueries
     \<and> int (length (b_source_keys b)) \<le> b_counts b MaxSources"

definition spends :: "budget \<Rightarrow> budget \<Rightarrow> bool" where
  "spends b b' \<longleftrightarrow> b_limits b' = b_limits b \<and> b_started b' = b_started b \<and> b_readings b \<le> b_readings b'
     \<and> (\<forall>c. b_counts b c \<le> b_counts b' c) \<and> set (b_query_keys b) \<subseteq> set (b_query_keys b')
     \<and> set (b_source_keys b) \<subseteq> set (b_source_keys b') \<and> (budget_ok b \<longrightarrow> budget_ok b')"

named_theorems spending \<open>operations only spend\<close>

lemma spends_refl [simp]: "spends b b"
  by (simp add: spends_def)

lemma spends_trans [trans]: "spends b b' \<Longrightarrow> spends b' b'' \<Longrightarrow> spends b b''"
  by (auto simp: spends_def intro: order_trans)

lemma new_budget_ok: "valid_limits l \<Longrightarrow> budget_ok (new_budget clk l)"
proof -
  assume "valid_limits l"
  then have "0 \<le> limit_of l c" for c by (cases c) (auto simp: valid_limits_def)
  then show ?thesis by (simp add: budget_ok_def new_budget_def)
qed

lemma remaining_spends [spending]: "spends b (snd (remaining_seconds clk b))"
  by (simp add: remaining_seconds_def spends_def budget_ok_def)

lemma check_spends [spending]: "spends b (snd (check_time clk b))"
  using remaining_spends [of b clk] by (simp add: check_time_def case_prod_beta)

lemma check_counts [simp]:
  "b_counts (snd (check_time clk b)) = b_counts b" "b_query_keys (snd (check_time clk b)) = b_query_keys b"
  "b_source_keys (snd (check_time clk b)) = b_source_keys b" "b_limits (snd (check_time clk b)) = b_limits b"
  by (simp_all add: check_time_def remaining_seconds_def)

text \<open>What \<open>take\<close> does, in one equation over the clock check.\<close>

lemma take_budget_cases:
  obtains (refused) e where "take_budget clk c n b = (Inl e, snd (check_time clk b))"
    | (taken) "take_budget clk c n b
        = (Inr (), (snd (check_time clk b))\<lparr> b_counts := (b_counts b)(c := b_counts b c + n) \<rparr>)"
      "b_counts b c + n \<le> limit_of (b_limits b) c" "fst (check_time clk b) = Inr ()"
proof (cases "fst (check_time clk b)")
  case (Inl e)
  then have "take_budget clk c n b = (Inl e, snd (check_time clk b))"
    by (simp add: take_budget_def case_prod_beta split: sum.split)
  then show thesis by (rule refused)
next
  case (Inr u)
  show thesis
  proof (cases "limit_of (b_limits b) c < b_counts b c + n")
    case True
    with Inr have "take_budget clk c n b = (Inl (BudgetExceeded (category_name c)), snd (check_time clk b))"
      by (cases "check_time clk b") (use check_counts [of clk b] in \<open>auto simp: take_budget_def\<close>)
    then show thesis by (rule refused)
  next
    case False
    with Inr have "take_budget clk c n b
        = (Inr (), (snd (check_time clk b))\<lparr> b_counts := (b_counts b)(c := b_counts b c + n) \<rparr>)"
      by (cases "check_time clk b") (use check_counts [of clk b] in \<open>auto simp: take_budget_def\<close>)
    with False Inr show thesis by (intro taken) auto
  qed
qed

lemma take_spends [spending]:
  assumes "0 \<le> n"
  shows "spends b (snd (take_budget clk c n b))"
proof (cases rule: take_budget_cases [of clk c n b])
  case (refused e)
  then show ?thesis by (simp add: check_spends)
next
  case taken
  then show ?thesis using assms check_spends [of b clk] by (auto simp: spends_def budget_ok_def)
qed

lemma take_query_spends [spending]: "spends b (snd (take_query clk cf q b))"
proof (cases rule: take_budget_cases [of clk MaxQueries 1 b])
  case (refused e)
  then show ?thesis by (simp add: take_query_def Let_def check_spends)
next
  case taken
  then show ?thesis
    using check_spends [of b clk] by (auto simp: take_query_def Let_def spends_def budget_ok_def)
qed

lemma take_source_spends [spending]: "spends b (snd (take_source clk url b))"
proof (cases rule: take_budget_cases [of clk MaxSources 1 b])
  case (refused e)
  then show ?thesis by (simp add: take_source_def check_spends)
next
  case taken
  then show ?thesis
    using check_spends [of b clk] by (auto simp: take_source_def spends_def budget_ok_def)
qed

text \<open>Sequencing of operations that only spend.\<close>

lemma andthen_spends:
  assumes "spends b (snd (m b))" "\<And>x. fst (m b) = Inr x \<Longrightarrow> spends (snd (m b)) (snd (f x (snd (m b))))"
  shows "spends b (snd (andthen m f b))"
  using assms by (auto simp: andthen_def case_prod_beta split: sum.split intro: spends_trans)

end
