(* ===== verification/Network.thy ===== *)
theory Network
  imports Budget Results Urls
begin

text \<open>
  What the search providers and the fetcher see of the network: JSON values and the outcomes of single
  HTTP exchanges. The servers are parameters: the \<open>i\<close>-th exchange of a component gets whatever \<open>net i\<close>
  answers to the request.
\<close>

section \<open>JSON\<close>

text \<open>\<open>JFloat None\<close> is a number that is not finite.\<close>

datatype json =
    JNull
  | JBool bool
  | JInt int
  | JFloat "real option"
  | JStr utext
  | JArr "json list"
  | JObj "(utext \<times> json) list"

text \<open>\<open>jl_loads\<close> is \<open>json.loads\<close>, \<open>jl_str\<close> is \<open>str\<close> on decoded values, \<open>jl_lower\<close> is \<open>str.lower\<close>; \<open>jl_id\<close> reads a
  text as an identifier (both are \<open>str\<close> in the program).\<close>

record json_library =
  jl_loads :: "byte_string \<Rightarrow> json option"
  jl_str :: "json \<Rightarrow> utext"
  jl_lower :: "utext \<Rightarrow> utext"
  jl_id :: "utext \<Rightarrow> string"

text \<open>\<open>dict.get\<close> on a decoded object; the last of repeated keys counts, as in \<open>json.loads\<close>.\<close>

fun jget :: "string \<Rightarrow> json \<Rightarrow> json option" where
  "jget k (JObj kvs) = map_option snd (find (\<lambda>kv. fst kv = ascii k) (rev kvs))"
| "jget k _ = None"

fun is_obj :: "json \<Rightarrow> bool" where
  "is_obj (JObj _) = True"
| "is_obj _ = False"

fun truthy :: "json \<Rightarrow> bool" where
  "truthy JNull = False"
| "truthy (JBool b) = b"
| "truthy (JInt i) = (i \<noteq> 0)"
| "truthy (JFloat x) = (x \<noteq> Some 0)"
| "truthy (JStr t) = (t \<noteq> [])"
| "truthy (JArr xs) = (xs \<noteq> [])"
| "truthy (JObj kvs) = (kvs \<noteq> [])"

text \<open>What a \<open>for\<close> loop runs over; \<open>None\<close> is a \<open>TypeError\<close>.\<close>

fun iterate :: "json \<Rightarrow> json list option" where
  "iterate (JArr xs) = Some xs"
| "iterate (JObj kvs) = Some (map (JStr \<circ> fst) kvs)"
| "iterate (JStr t) = Some (map (\<lambda>c. JStr [c]) t)"
| "iterate _ = None"

text \<open>\<open>x in v\<close> for a string \<open>x\<close>.\<close>

fun contains_str :: "utext \<Rightarrow> json \<Rightarrow> bool option" where
  "contains_str x (JArr xs) = Some (JStr x \<in> set xs)"
| "contains_str x (JObj kvs) = Some (x \<in> fst ` set kvs)"
| "contains_str x (JStr t) = Some (find_sub x t \<noteq> None)"
| "contains_str x _ = None"

section \<open>Exchanges\<close>

record http_request =
  hr_method :: string
  hr_path :: string
  hr_body :: "(string \<times> utext) list"

datatype http_outcome =
    HttpTimeout
  | HttpNetworkError
  | HttpResponse nat "byte_string list"

type_synonym network = "nat \<Rightarrow> http_request \<Rightarrow> http_outcome"

text \<open>Reading a body in chunks up to a bound: \<open>None\<close> as soon as it is exceeded.\<close>

fun read_chunks :: "int \<Rightarrow> byte_string list \<Rightarrow> byte_string \<Rightarrow> byte_string option" where
  "read_chunks bound [] acc = Some acc"
| "read_chunks bound (c # cs) acc =
     (if bound < int (length (acc @ c)) then None else read_chunks bound cs (acc @ c))"

lemma read_chunks_bound:
  "read_chunks bound cs acc = Some body \<Longrightarrow> int (length acc) \<le> bound \<Longrightarrow> int (length body) \<le> bound"
  by (induction bound cs acc rule: read_chunks.induct) (auto split: if_splits)

section \<open>Search configuration\<close>

record search_config =
  sc_engine :: string
  sc_language :: string
  sc_max_results :: nat
  sc_retries :: nat
  sc_response_bytes :: int
  sc_max_credits :: nat

definition valid_search_config :: "search_config \<Rightarrow> bool" where
  "valid_search_config c \<longleftrightarrow> 1 \<le> sc_max_results c \<and> sc_max_results c \<le> 20 \<and> sc_retries c \<le> 1
     \<and> 1024 \<le> sc_response_bytes c \<and> sc_response_bytes c \<le> 8 * 1024 ^ 2
     \<and> 1 \<le> sc_max_credits c \<and> sc_max_credits c \<le> 10"

text \<open>\<open>Candidate(...)\<close> with the default of \<open>supplied\<close>; \<open>now\<close> is \<open>utc_now()\<close>.\<close>

definition new_candidate :: "string \<Rightarrow> utext \<Rightarrow> utext \<Rightarrow> string \<Rightarrow> string \<Rightarrow> int \<Rightarrow> string \<Rightarrow> candidate" where
  "new_candidate url title snippet query_id engine rank now =
     \<lparr> c_url = url, c_title = title, c_snippet = snippet, c_query_id = query_id, c_engine = engine,
       c_rank = rank, c_discovered_at = now, c_supplied = False \<rparr>"

text \<open>\<open>SearchDiagnostic\<close> with its defaults, which is what is kept of an empty \<open>last_diagnostic\<close>.\<close>

definition blank_diagnostic :: diagnostic where
  "blank_diagnostic = \<lparr> di_engine = ''unknown'', di_unresponsive = False, di_reasons = [],
     di_result_count = 0, di_code = None \<rparr>"

end
