(* ===== verification/Searxng.thy ===== *)
theory Searxng
  imports Network
begin

text \<open>
  \<open>SearchProvider\<close> of \<open>search.py\<close>: SearXNG queries with a bounded number of retries, each of which is paid
  from the budget before it is sent. \<open>validate_query\<close> is a parameter (\<open>vq\<close>): a rejected text or the
  normalized one.
\<close>

record searxng =
  sx_budget :: budget
  sx_sent :: nat
  sx_diagnostic :: diagnostic

record environment =
  en_clock :: clock
  en_net :: network
  en_json :: json_library
  en_urls :: url_library
  en_validate_query :: "utext \<Rightarrow> utext + utext"
  en_casefold :: "utext \<Rightarrow> utext"
  en_now :: string

section \<open>One exchange\<close>

text \<open>What \<open>_json\<close> makes of an outcome: the payload, or an error and whether it may be tried again.\<close>

definition searxng_response ::
  "search_config \<Rightarrow> json_library \<Rightarrow> http_outcome \<Rightarrow> (exn \<times> bool) + json" where
  "searxng_response cfg jl outcome =
     (case outcome of
        HttpTimeout \<Rightarrow> Inl (SearchError ''searxng_timeout'' None, True)
      | HttpNetworkError \<Rightarrow> Inl (SearchError ''searxng_network_error'' None, True)
      | HttpResponse status pieces \<Rightarrow>
          if status = 403 then Inl (SearchError ''searxng_forbidden_json_or_access_disabled'' (Some 403), False)
          else if status \<noteq> 200 then
            Inl (SearchError ''searxng_http_error'' (Some status), status \<in> {429, 502, 503, 504})
          else
            (case read_chunks (sc_response_bytes cfg) pieces [] of
               None \<Rightarrow> Inl (SearchError ''searxng_response_size_limit'' None, False)
             | Some body \<Rightarrow>
                 (case jl_loads jl body of
                    None \<Rightarrow> Inl (SearchError ''searxng_invalid_json'' None, False)
                  | Some payload \<Rightarrow>
                      if is_obj payload then Inr payload
                      else Inl (SearchError ''searxng_invalid_response'' None, False))))"

definition sx_read_clock :: "environment \<Rightarrow> searxng \<Rightarrow> searxng" where
  "sx_read_clock env s = s\<lparr> sx_budget := snd (remaining_seconds (en_clock env) (sx_budget s)) \<rparr>"

definition sx_send :: "environment \<Rightarrow> searxng \<Rightarrow> searxng" where
  "sx_send env s = (sx_read_clock env s)\<lparr> sx_sent := Suc (sx_sent s) \<rparr>"

fun searxng_json :: "environment \<Rightarrow> search_config \<Rightarrow> http_request \<Rightarrow> nat \<Rightarrow> (json, searxng) run" where
  "searxng_json env cfg rq left s =
     (case take_budget (en_clock env) SearchRequests 1 (sx_budget s) of
        (Inl e, b) \<Rightarrow> (Inl e, s\<lparr> sx_budget := b \<rparr>)
      | (Inr _, b) \<Rightarrow>
          let s2 = sx_send env (s\<lparr> sx_budget := b \<rparr>)
          in (case searxng_response cfg (en_json env) (en_net env (sx_sent s) rq) of
                Inr payload \<Rightarrow> (Inr payload, s2)
              | Inl (e, again) \<Rightarrow>
                  (case left of
                     0 \<Rightarrow> (Inl e, s2)
                   | Suc left' \<Rightarrow>
                       if again then searxng_json env cfg rq left' (sx_read_clock env s2) else (Inl e, s2))))"

declare searxng_json.simps [simp del]

section \<open>Reading the answer\<close>

text \<open>An entry of \<open>unresponsive_engines\<close> names the engine, alone or as the head of a list.\<close>

definition entry_engine :: "json \<Rightarrow> json" where
  "entry_engine entry = (case entry of JArr (x # xs) \<Rightarrow> x | _ \<Rightarrow> entry)"

definition upstream_reasons :: "json_library \<Rightarrow> utext \<Rightarrow> json list \<Rightarrow> utext list" where
  "upstream_reasons jl engine entries =
     List.map_filter (\<lambda>entry. case entry of
         JArr (x # y # ys) \<Rightarrow> if x = JStr engine then Some (jl_lower jl (jl_str jl y)) else None
       | _ \<Rightarrow> None) entries"

definition known_reasons :: "utext list \<Rightarrow> string list" where
  "known_reasons reasons =
     filter (\<lambda>k. list_ex (\<lambda>r. find_sub (ascii k) r \<noteq> None) reasons)
       [''captcha'', ''timeout'', ''too many requests'', ''access denied'', ''suspended'']"

definition text_field :: "json_library \<Rightarrow> string \<Rightarrow> json \<Rightarrow> utext" where
  "text_field jl k item = (case jget k item of None \<Rightarrow> [] | Some v \<Rightarrow> jl_str jl v)"

text \<open>\<open>item.get("engines") or ([item["engine"]] if item.get("engine") else [])\<close>.\<close>

definition item_engines :: "json \<Rightarrow> json" where
  "item_engines item =
     (case jget ''engines'' item of
        Some v \<Rightarrow> if truthy v then v
                  else (case jget ''engine'' item of Some e \<Rightarrow> if truthy e then JArr [e] else JArr [] | None \<Rightarrow> JArr [])
      | None \<Rightarrow> (case jget ''engine'' item of Some e \<Rightarrow> if truthy e then JArr [e] else JArr [] | None \<Rightarrow> JArr []))"

fun searxng_items ::
  "environment \<Rightarrow> search_config \<Rightarrow> string \<Rightarrow> nat \<Rightarrow> json list \<Rightarrow> candidate list \<Rightarrow> exn + candidate list" where
  "searxng_items env cfg query_id rank [] results = Inr results"
| "searxng_items env cfg query_id rank (item # items) results =
     (if \<not> is_obj item then Inl (SearchError ''searxng_invalid_result'' None)
      else
        let engines = item_engines item; jl = en_json env in
        (case (if truthy engines then contains_str (ascii (sc_engine cfg)) engines else Some True) of
           None \<Rightarrow> Inl (OtherError ''TypeError'')
         | Some False \<Rightarrow> Inl (SearchError ''searxng_unexpected_engine'' None)
         | Some True \<Rightarrow>
             let results' = (case search_url (en_urls env) (jl_id jl (text_field jl ''url'' item)) of
                   None \<Rightarrow> results
                 | Some url \<Rightarrow>
                     if url = [] then results
                     else results @ [new_candidate url (take 500 (text_field jl ''title'' item))
                            (take 1000 (text_field jl ''content'' item)) query_id (sc_engine cfg) (int rank) (en_now env)])
             in if length results' = sc_max_results cfg then Inr results'
                else searxng_items env cfg query_id (rank + 1) items results'))"

definition searxng_request :: "search_config \<Rightarrow> utext \<Rightarrow> http_request" where
  "searxng_request cfg q =
     \<lparr> hr_method = ''POST'', hr_path = ''/search'',
       hr_body = [(''q'', q), (''format'', ascii ''json''), (''engines'', ascii (sc_engine cfg)),
                  (''language'', ascii (sc_language cfg)), (''safesearch'', ascii ''0'')] \<rparr>"

definition searxng_search ::
  "environment \<Rightarrow> search_config \<Rightarrow> utext \<Rightarrow> string \<Rightarrow> (candidate list, searxng) run" where
  "searxng_search env cfg query query_id s0 =
     (case en_validate_query env query of
        Inl why \<Rightarrow> (Inl (QueryPrivacyError why), s0)
      | Inr q \<Rightarrow>
        (case searxng_json env cfg (searxng_request cfg q) (sc_retries cfg) s0 of
           (Inl e, s) \<Rightarrow> (Inl e, s)
         | (Inr payload, s) \<Rightarrow>
           (case iterate (case jget ''unresponsive_engines'' payload of None \<Rightarrow> JArr [] | Some v \<Rightarrow> v) of
              None \<Rightarrow> (Inl (OtherError ''TypeError''), s)
            | Some entries \<Rightarrow>
                let failed = list_ex (\<lambda>e. entry_engine e = JStr (ascii (sc_engine cfg))) entries;
                    d = blank_diagnostic\<lparr> di_engine := sc_engine cfg, di_unresponsive := failed \<rparr>
                in if failed then
                     let known = known_reasons (upstream_reasons (en_json env) (ascii (sc_engine cfg)) entries)
                     in (Inl (SearchError ''searxng_engine_unresponsive'' None),
                         s\<lparr> sx_diagnostic := d\<lparr> di_reasons := (if known = [] then [''engine_error''] else known) \<rparr> \<rparr>)
                   else
                     (case jget ''results'' payload of
                        Some (JArr items) \<Rightarrow>
                          (case searxng_items env cfg query_id 1 items [] of
                             Inl e \<Rightarrow> (Inl e, s\<lparr> sx_diagnostic := d \<rparr>)
                           | Inr results \<Rightarrow>
                               (Inr results, s\<lparr> sx_diagnostic := d\<lparr> di_result_count := int (length results) \<rparr> \<rparr>))
                      | _ \<Rightarrow> (Inl (SearchError ''searxng_missing_results'' None), s\<lparr> sx_diagnostic := d \<rparr>)))))"


section \<open>Facts\<close>

lemma read_clock_spends [spending]: "spends (sx_budget s) (sx_budget (sx_read_clock env s))"
  by (simp add: sx_read_clock_def remaining_spends)

lemma sx_read_clock_sent [simp]: "sx_sent (sx_read_clock env s) = sx_sent s"
  by (simp add: sx_read_clock_def)

text \<open>The state in which the next exchange is read: paid for, the clock read, one more request sent.\<close>

definition sx_asked :: "environment \<Rightarrow> searxng \<Rightarrow> searxng" where
  "sx_asked env s =
     sx_send env (s\<lparr> sx_budget := snd (take_budget (en_clock env) SearchRequests 1 (sx_budget s)) \<rparr>)"

lemma sx_asked_sent [simp]: "sx_sent (sx_asked env s) = Suc (sx_sent s)"
  by (simp add: sx_asked_def sx_send_def)

lemma sx_asked_spends: "spends (sx_budget s) (sx_budget (sx_asked env s))"
proof -
  let ?b = "snd (take_budget (en_clock env) SearchRequests 1 (sx_budget s))"
  have "spends (sx_budget s) ?b" by (rule take_spends) simp
  moreover have "spends ?b (sx_budget (sx_asked env s))"
    using read_clock_spends [of "s\<lparr> sx_budget := ?b \<rparr>" env] by (simp add: sx_asked_def sx_send_def)
  ultimately show ?thesis by (rule spends_trans)
qed

lemma searxng_json_unfold:
  "searxng_json env cfg rq left s =
     (case fst (take_budget (en_clock env) SearchRequests 1 (sx_budget s)) of
        Inl e \<Rightarrow> (Inl e, s\<lparr> sx_budget := snd (take_budget (en_clock env) SearchRequests 1 (sx_budget s)) \<rparr>)
      | Inr _ \<Rightarrow>
         (case searxng_response cfg (en_json env) (en_net env (sx_sent s) rq) of
            Inr payload \<Rightarrow> (Inr payload, sx_asked env s)
          | Inl (e, again) \<Rightarrow> (case left of 0 \<Rightarrow> (Inl e, sx_asked env s)
              | Suc left' \<Rightarrow> if again then searxng_json env cfg rq left' (sx_read_clock env (sx_asked env s))
                             else (Inl e, sx_asked env s))))"
  by (subst searxng_json.simps)
    (auto simp: case_prod_beta sx_asked_def Let_def split: sum.split prod.split nat.split)

lemma searxng_json_spends [spending]: "spends (sx_budget s) (sx_budget (snd (searxng_json env cfg rq left s)))"
proof (induction left arbitrary: s)
  case 0
  have "spends (sx_budget s) (snd (take_budget (en_clock env) SearchRequests 1 (sx_budget s)))"
    by (rule take_spends) simp
  then show ?case by (subst searxng_json_unfold) (auto simp: sx_asked_spends split: sum.split)
next
  case (Suc left)
  have "spends (sx_budget s) (snd (take_budget (en_clock env) SearchRequests 1 (sx_budget s)))"
    by (rule take_spends) simp
  moreover have "spends (sx_budget s) (sx_budget (snd (searxng_json env cfg rq left (sx_read_clock env (sx_asked env s)))))"
    using sx_asked_spends read_clock_spends Suc by (blast intro: spends_trans)
  ultimately show ?case by (subst searxng_json_unfold) (auto simp: sx_asked_spends split: sum.split)
qed

text \<open>No search is sent more often than once and for each retry allowed.\<close>

lemma searxng_json_sent:
  "sx_sent s \<le> sx_sent (snd (searxng_json env cfg rq left s))
   \<and> sx_sent (snd (searxng_json env cfg rq left s)) \<le> sx_sent s + Suc left"
proof (induction left arbitrary: s)
  case 0
  then show ?case by (subst (1 2) searxng_json_unfold) (auto split: sum.split)
next
  case (Suc left)
  show ?case using Suc [of "sx_read_clock env (sx_asked env s)"]
    by (subst (1 2) searxng_json_unfold) (auto split: sum.split)
qed

lemma searxng_items_bound:
  "searxng_items env cfg qi rank items results = Inr rs \<Longrightarrow> length results < sc_max_results cfg
   \<Longrightarrow> length rs \<le> sc_max_results cfg"
proof (induction env cfg qi rank items results rule: searxng_items.induct)
  case (2 env cfg qi rank item items results)
  then show ?case by (auto simp: Let_def split: if_splits option.splits bool.splits)
qed simp

lemma searxng_search_frame:
  "sx_budget (snd (searxng_search env cfg q i s)) = sx_budget (case en_validate_query env q of Inl _ \<Rightarrow> s
     | Inr t \<Rightarrow> snd (searxng_json env cfg (searxng_request cfg t) (sc_retries cfg) s))"
  by (auto simp: searxng_search_def Let_def case_prod_beta split: sum.split option.split json.split)

lemma searxng_search_spends: "spends (sx_budget s) (sx_budget (snd (searxng_search env cfg q i s)))"
  unfolding searxng_search_frame by (auto split: sum.split intro: searxng_json_spends)

lemma searxng_search_bound:
  "fst (searxng_search env cfg q i s) = Inr rs \<Longrightarrow> 0 < sc_max_results cfg \<Longrightarrow> length rs \<le> sc_max_results cfg"
  by (auto simp: searxng_search_def Let_def case_prod_beta split: sum.splits option.splits json.splits if_splits
      dest: searxng_items_bound)

end
