(* ===== verification/Tavily.thy ===== *)
theory Tavily
  imports Searxng
begin

text \<open>
  \<open>TavilySearchProvider\<close> of \<open>tavily.py\<close>: searches that may only spend free credits. Before each search the
  account is asked for its plan and balance, a credit is reserved before the request is sent, and the
  first error stops the provider for good.
\<close>

record tavily =
  tv_budget :: budget
  tv_log :: "string list"
  tv_attempted :: nat
  tv_remaining :: "real option"
  tv_known_credits :: real
  tv_known_responses :: nat
  tv_halt :: "exn option"
  tv_diagnostic :: diagnostic

definition new_tavily :: "budget \<Rightarrow> tavily" where
  "new_tavily b =
     \<lparr> tv_budget = b, tv_log = [], tv_attempted = 0, tv_remaining = None, tv_known_credits = 0,
       tv_known_responses = 0, tv_halt = None, tv_diagnostic = blank_diagnostic \<rparr>"

section \<open>One exchange\<close>

definition tavily_code :: "nat \<Rightarrow> string" where
  "tavily_code status =
     (if status = 401 then ''tavily_authentication_failed'' else if status = 403 then ''tavily_access_denied''
      else if status = 429 then ''tavily_rate_limited'' else if status = 432 then ''tavily_quota_exhausted''
      else if status = 433 then ''tavily_paygo_limit'' else ''tavily_http_error'')"

definition tavily_response :: "search_config \<Rightarrow> json_library \<Rightarrow> http_outcome \<Rightarrow> exn + json" where
  "tavily_response cfg jl outcome =
     (case outcome of
        HttpTimeout \<Rightarrow> Inl (SearchError ''tavily_timeout'' None)
      | HttpNetworkError \<Rightarrow> Inl (SearchError ''tavily_network_error'' None)
      | HttpResponse status pieces \<Rightarrow>
          if status \<noteq> 200 then Inl (SearchError (tavily_code status) (Some status))
          else
            (case read_chunks (sc_response_bytes cfg) pieces [] of
               None \<Rightarrow> Inl (SearchError ''tavily_response_size_limit'' None)
             | Some body \<Rightarrow>
                 (case jl_loads jl body of
                    None \<Rightarrow> Inl (SearchError ''tavily_invalid_json'' None)
                  | Some payload \<Rightarrow>
                      if \<not> is_obj payload \<or> jget ''error'' payload \<noteq> None \<or> jget ''detail'' payload \<noteq> None
                      then Inl (SearchError ''tavily_invalid_response'' None) else Inr payload)))"

text \<open>The log holds the paths of the requests sent, in order.\<close>

definition tavily_json :: "environment \<Rightarrow> search_config \<Rightarrow> http_request \<Rightarrow> (json, tavily) run" where
  "tavily_json env cfg rq s =
     (if hr_path rq \<notin> {''/usage'', ''/search''} then (Inl (SearchError ''tavily_endpoint_not_allowed'' None), s)
      else case take_budget (en_clock env) SearchRequests 1 (tv_budget s) of
        (Inl e, b) \<Rightarrow> (Inl e, s\<lparr> tv_budget := b \<rparr>)
      | (Inr _, b) \<Rightarrow>
          (tavily_response cfg (en_json env) (en_net env (length (tv_log s)) rq),
           s\<lparr> tv_budget := snd (remaining_seconds (en_clock env) b), tv_log := tv_log s @ [hr_path rq] \<rparr>))"

section \<open>The allowance\<close>

text \<open>\<open>type(value) in {int, float}\<close> and \<open>0 <= value < inf\<close>.\<close>

fun number :: "json \<Rightarrow> real option" where
  "number (JInt i) = (if 0 \<le> i then Some (real_of_int i) else None)"
| "number (JFloat (Some x)) = (if 0 \<le> x then Some x else None)"
| "number _ = None"

record account =
  ac_plan_usage :: real
  ac_plan_limit :: real
  ac_paygo_usage :: real
  ac_paygo_limit :: "real option"

definition read_number :: "string \<Rightarrow> json \<Rightarrow> real option" where
  "read_number k v = (case jget k v of None \<Rightarrow> None | Some x \<Rightarrow> number x)"

definition read_account :: "json \<Rightarrow> account option" where
  "read_account v =
     (case (read_number ''plan_usage'' v, read_number ''plan_limit'' v, read_number ''paygo_usage'' v) of
        (Some pu, Some pl, Some yu) \<Rightarrow>
          (case jget ''paygo_limit'' v of
             None \<Rightarrow> None
           | Some JNull \<Rightarrow> Some \<lparr> ac_plan_usage = pu, ac_plan_limit = pl, ac_paygo_usage = yu, ac_paygo_limit = None \<rparr>
           | Some x \<Rightarrow> map_option (\<lambda>yl. \<lparr> ac_plan_usage = pu, ac_plan_limit = pl, ac_paygo_usage = yu,
                                        ac_paygo_limit = Some yl \<rparr>) (number x))
      | _ \<Rightarrow> None)"

definition free_plan :: "environment \<Rightarrow> json \<Rightarrow> bool" where
  "free_plan env v =
     (case jget ''current_plan'' v of
        Some (JStr t) \<Rightarrow> jl_id (en_json env) (en_casefold env t) \<in> {''researcher'', ''free''}
      | _ \<Rightarrow> False)"

text \<open>The balance an answer of the usage endpoint proves to be free.\<close>

definition free_balance :: "environment \<Rightarrow> json \<Rightarrow> exn + real" where
  "free_balance env payload =
     (case jget ''account'' payload of
        Some v \<Rightarrow>
          if \<not> is_obj v then Inl (SearchError ''tavily_free_allowance_unverified'' None)
          else (case read_account v of
             None \<Rightarrow> Inl (SearchError ''tavily_free_allowance_unverified'' None)
           | Some a \<Rightarrow>
               if \<not> free_plan env v then Inl (SearchError ''tavily_free_plan_required'' None)
               else if (ac_paygo_limit a \<noteq> None \<and> ac_paygo_limit a \<noteq> Some 0) \<or> ac_paygo_usage a \<noteq> 0
               then Inl (SearchError ''tavily_paygo_must_be_disabled'' None)
               else if \<not> (0 < ac_plan_limit a \<and> ac_plan_limit a \<le> 1000)
               then Inl (SearchError ''tavily_free_allowance_unverified'' None)
               else Inr (max 0 (ac_plan_limit a - ac_plan_usage a)))
      | None \<Rightarrow> Inl (SearchError ''tavily_free_allowance_unverified'' None))"

definition usage_request :: http_request where
  "usage_request = \<lparr> hr_method = ''GET'', hr_path = ''/usage'', hr_body = [] \<rparr>"

definition check_allowance :: "environment \<Rightarrow> search_config \<Rightarrow> (unit, tavily) run" where
  "check_allowance env cfg s0 =
     (case tavily_json env cfg usage_request (s0\<lparr> tv_diagnostic := blank_diagnostic \<rparr>) of
        (Inl e, s) \<Rightarrow> (Inl e, s)
      | (Inr payload, s) \<Rightarrow>
          (case free_balance env payload of
             Inl e \<Rightarrow> (Inl e, s)
           | Inr balance \<Rightarrow>
               let left = (case tv_remaining s of None \<Rightarrow> balance | Some r \<Rightarrow> min r balance);
                   s' = s\<lparr> tv_remaining := Some left \<rparr>
               in (if left < 1 then Inl (SearchError ''tavily_free_credits_exhausted'' None) else Inr (), s')))"

section \<open>Searching\<close>

definition tavily_request :: "search_config \<Rightarrow> utext \<Rightarrow> http_request" where
  "tavily_request cfg q =
     \<lparr> hr_method = ''POST'', hr_path = ''/search'',
       hr_body = [(''query'', q), (''search_depth'', ascii ''basic''), (''topic'', ascii ''general''),
                  (''max_results'', ascii (dec (sc_max_results cfg))), (''auto_parameters'', ascii ''false''),
                  (''include_answer'', ascii ''false''), (''include_raw_content'', ascii ''false''),
                  (''include_images'', ascii ''false''), (''include_usage'', ascii ''true'')]
         @ (if sc_language cfg \<noteq> ''auto'' then [(''language'', ascii (sc_language cfg))] else []) \<rparr>"

fun str_or_absent :: "json option \<Rightarrow> bool" where
  "str_or_absent None = True"
| "str_or_absent (Some (JStr _)) = True"
| "str_or_absent _ = False"

fun tavily_items ::
  "environment \<Rightarrow> search_config \<Rightarrow> string \<Rightarrow> nat \<Rightarrow> json list \<Rightarrow> candidate list \<Rightarrow> exn + candidate list" where
  "tavily_items env cfg query_id rank [] results = Inr results"
| "tavily_items env cfg query_id rank (item # items) results =
     (case jget ''url'' item of
        Some (JStr raw) \<Rightarrow>
          if \<not> str_or_absent (jget ''title'' item) \<or> \<not> str_or_absent (jget ''content'' item)
          then Inl (SearchError ''tavily_invalid_result'' None)
          else
            let jl = en_json env;
                field = (\<lambda>k. case jget k item of Some (JStr t) \<Rightarrow> t | _ \<Rightarrow> []);
                results' = (case search_url (en_urls env) (jl_id jl raw) of
                   None \<Rightarrow> results
                 | Some url \<Rightarrow>
                     if url = [] then results
                     else results @ [new_candidate url (take 500 (field ''title'')) (take 1000 (field ''content''))
                            query_id ''tavily'' (int rank) (en_now env)])
            in if length results' = sc_max_results cfg then Inr results'
               else tavily_items env cfg query_id (rank + 1) items results'
      | _ \<Rightarrow> Inl (SearchError ''tavily_invalid_result'' None))"

text \<open>After the reservation: the search request and its answer.\<close>

definition tavily_answer ::
  "environment \<Rightarrow> search_config \<Rightarrow> string \<Rightarrow> json \<Rightarrow> (candidate list, tavily) run" where
  "tavily_answer env cfg query_id payload s0 =
     (let credits = (case jget ''usage'' payload of None \<Rightarrow> None | Some v \<Rightarrow> read_number ''credits'' v);
          s = (case credits of None \<Rightarrow> s0
               | Some c \<Rightarrow> s0\<lparr> tv_known_credits := tv_known_credits s0 + c,
                              tv_known_responses := Suc (tv_known_responses s0) \<rparr>)
      in if (case credits of None \<Rightarrow> False | Some c \<Rightarrow> 1 < c)
         then (Inl (SearchError ''tavily_unexpected_credit_usage'' None), s)
         else (case jget ''results'' payload of
                 Some (JArr items) \<Rightarrow>
                   (case tavily_items env cfg query_id 1 items [] of
                      Inl e \<Rightarrow> (Inl e, s)
                    | Inr results \<Rightarrow>
                        (Inr results, s\<lparr> tv_diagnostic := (tv_diagnostic s)\<lparr> di_result_count := int (length results) \<rparr> \<rparr>))
               | _ \<Rightarrow> (Inl (SearchError ''tavily_missing_results'' None), s)))"

definition reserve_credit :: "environment \<Rightarrow> (unit, tavily) run" where
  "reserve_credit env s =
     (case check_time (en_clock env) (tv_budget s) of
        (Inl e, b) \<Rightarrow> (Inl e, s\<lparr> tv_budget := b \<rparr>)
      | (Inr _, b) \<Rightarrow>
          if limit_of (b_limits b) SearchRequests \<le> b_counts b SearchRequests
          then (Inl (BudgetExceeded ''search_requests''), s\<lparr> tv_budget := b \<rparr>)
          else (Inr (), s\<lparr> tv_budget := b, tv_attempted := Suc (tv_attempted s),
                         tv_remaining := map_option (\<lambda>r. r - 1) (tv_remaining s) \<rparr>))"

definition spend_credit :: "environment \<Rightarrow> search_config \<Rightarrow> utext \<Rightarrow> string \<Rightarrow> (candidate list, tavily) run" where
  "spend_credit env cfg q query_id =
     andthen (check_allowance env cfg) (\<lambda>_.
     andthen (reserve_credit env) (\<lambda>_.
     andthen (tavily_json env cfg (tavily_request cfg q)) (tavily_answer env cfg query_id)))"

fun is_search_error :: "exn \<Rightarrow> bool" where
  "is_search_error (SearchError _ _) = True"
| "is_search_error _ = False"

definition tavily_search ::
  "environment \<Rightarrow> search_config \<Rightarrow> utext \<Rightarrow> string \<Rightarrow> (candidate list, tavily) run" where
  "tavily_search env cfg query query_id s0 =
     (case en_validate_query env query of
        Inl why \<Rightarrow> (Inl (QueryPrivacyError why), s0)
      | Inr q \<Rightarrow>
          let s = s0\<lparr> tv_diagnostic := blank_diagnostic\<lparr> di_engine := ''tavily'' \<rparr> \<rparr> in
          (case tv_halt s of
             Some e \<Rightarrow> (Inl e, s)
           | None \<Rightarrow>
               if sc_max_credits cfg \<le> tv_attempted s then (Inl (BudgetExceeded ''tavily_credits_per_job''), s)
               else (case spend_credit env cfg q query_id s of
                       (Inl e, s') \<Rightarrow> (Inl e, if is_search_error e then s'\<lparr> tv_halt := Some e \<rparr> else s')
                     | r \<Rightarrow> r)))"

text \<open>\<open>engine_health\<close> asks for the allowance without reserving anything.\<close>

definition engine_health :: "environment \<Rightarrow> search_config \<Rightarrow> (unit, tavily) run" where
  "engine_health env cfg = check_allowance env cfg"

section \<open>What the log may hold\<close>

definition searches :: "string list \<Rightarrow> nat" where
  "searches sent = length (filter ((=) ''/search'') sent)"

lemma searches_simps [simp]:
  "searches [] = 0" "searches (xs @ ys) = searches xs + searches ys"
  "searches (x # xs) = (if x = ''/search'' then 1 else 0) + searches xs"
  by (auto simp: searches_def)

text \<open>The free balance that the \<open>j\<close>-th exchange shows if it asks for the usage.\<close>

definition balance_at :: "environment \<Rightarrow> search_config \<Rightarrow> nat \<Rightarrow> real option" where
  "balance_at env cfg j =
     (case tavily_response cfg (en_json env) (en_net env j usage_request) of
        Inl _ \<Rightarrow> None
      | Inr payload \<Rightarrow> (case free_balance env payload of Inl _ \<Rightarrow> None | Inr b \<Rightarrow> Some b))"

text \<open>Each search follows a usage answer that shows at least one free credit.\<close>

definition searches_allowed :: "environment \<Rightarrow> search_config \<Rightarrow> string list \<Rightarrow> bool" where
  "searches_allowed env cfg sent \<longleftrightarrow>
     (\<forall>i < length sent. sent ! i = ''/search'' \<longrightarrow>
        0 < i \<and> sent ! (i - 1) = ''/usage'' \<and> (\<exists>b. balance_at env cfg (i - 1) = Some b \<and> 1 \<le> b))"

text \<open>Since each usage answer, no more than the balance it showed was spent, nor will be: \<open>r\<close> is what is left,
  \<open>k\<close> the credits reserved for searches not yet sent.\<close>

definition balances_kept :: "environment \<Rightarrow> search_config \<Rightarrow> nat \<Rightarrow> real option \<Rightarrow> string list \<Rightarrow> bool" where
  "balances_kept env cfg k r sent \<longleftrightarrow>
     (\<forall>j < length sent. sent ! j = ''/usage'' \<longrightarrow>
        (\<forall>b. balance_at env cfg j = Some b \<longrightarrow> (\<exists>x. r = Some x \<and> x + real (k + searches (drop j sent)) \<le> b)))"

definition credit_inv :: "environment \<Rightarrow> search_config \<Rightarrow> nat \<Rightarrow> tavily \<Rightarrow> bool" where
  "credit_inv env cfg k s \<longleftrightarrow> searches (tv_log s) + k \<le> tv_attempted s \<and> tv_attempted s \<le> sc_max_credits cfg
     \<and> searches_allowed env cfg (tv_log s) \<and> balances_kept env cfg k (tv_remaining s) (tv_log s)
     \<and> (\<forall>x. tv_remaining s = Some x \<longrightarrow> 0 \<le> x)"

lemma free_balance_nonneg: "free_balance env payload = Inr b \<Longrightarrow> 0 \<le> b"
  by (auto simp: free_balance_def split: option.splits if_splits)

lemma all_less_Suc: "(\<forall>i < Suc n. P i) \<longleftrightarrow> (\<forall>i < n. P i) \<and> P n"
  by (auto simp: less_Suc_eq)

lemma searches_allowed_snoc:
  "searches_allowed env cfg (sent @ [p]) \<longleftrightarrow> searches_allowed env cfg sent \<and>
     (p = ''/search'' \<longrightarrow> sent \<noteq> [] \<and> last sent = ''/usage''
        \<and> (\<exists>b. balance_at env cfg (length sent - 1) = Some b \<and> 1 \<le> b))"
proof -
  have "(sent @ [p]) ! (i - 1) = sent ! (i - 1)" if "i < length sent \<or> i = length sent \<and> 0 < i" for i
    using that by (auto simp: nth_append)
  then show ?thesis
    unfolding searches_allowed_def length_append list.size
    by (simp add: all_less_Suc nth_append last_conv_nth cong: conj_cong imp_cong)
qed

lemma balances_kept_snoc:
  "balances_kept env cfg k r (sent @ [p]) \<longleftrightarrow> balances_kept env cfg (if p = ''/search'' then Suc k else k) r sent \<and>
     (p = ''/usage'' \<longrightarrow> (\<forall>b. balance_at env cfg (length sent) = Some b \<longrightarrow> (\<exists>x. r = Some x \<and> x + real k \<le> b)))"
  unfolding balances_kept_def length_append list.size
  by (simp add: all_less_Suc nth_append algebra_simps cong: conj_cong imp_cong)

text \<open>What is left may only fall.\<close>

lemma balances_kept_less:
  "balances_kept env cfg k (Some x) sent \<Longrightarrow> y + real l \<le> x + real k \<Longrightarrow> balances_kept env cfg l (Some y) sent"
  unfolding balances_kept_def by fastforce

text \<open>One exchange: it is refused by the budget, or its path is logged and its answer is the one at that place.\<close>

lemma tavily_json_cases:
  assumes "hr_path rq \<in> {''/usage'', ''/search''}"
  obtains (refused) e b where "tavily_json env cfg rq s = (Inl e, s\<lparr> tv_budget := b \<rparr>)"
    | (sent) b where "tavily_json env cfg rq s
        = (tavily_response cfg (en_json env) (en_net env (length (tv_log s)) rq),
           s\<lparr> tv_budget := b, tv_log := tv_log s @ [hr_path rq] \<rparr>)"
proof (cases "take_budget (en_clock env) SearchRequests 1 (tv_budget s)")
  case (Pair r b)
  show thesis
  proof (cases r)
    case (Inl e)
    with Pair assms show thesis by (intro refused [of e b]) (auto simp: tavily_json_def)
  next
    case (Inr u)
    with Pair assms show thesis
      by (intro sent [of "snd (remaining_seconds (en_clock env) b)"]) (auto simp: tavily_json_def)
  qed
qed

lemma check_allowance_credit:
  assumes "credit_inv env cfg 0 s"
  shows "credit_inv env cfg 0 (snd (check_allowance env cfg s))"
    "tv_attempted (snd (check_allowance env cfg s)) = tv_attempted s"
    "fst (check_allowance env cfg s) = Inr () \<Longrightarrow>
       tv_log (snd (check_allowance env cfg s)) = tv_log s @ [''/usage'']
       \<and> (\<exists>b. balance_at env cfg (length (tv_log s)) = Some b \<and> 1 \<le> b)
       \<and> (\<exists>x. tv_remaining (snd (check_allowance env cfg s)) = Some x \<and> 1 \<le> x)"
proof -
  let ?s0 = "s\<lparr> tv_diagnostic := blank_diagnostic \<rparr>"
  have path: "hr_path usage_request \<in> {''/usage'', ''/search''}" by (simp add: usage_request_def)
  have "credit_inv env cfg 0 (snd (check_allowance env cfg s))
      \<and> tv_attempted (snd (check_allowance env cfg s)) = tv_attempted s
      \<and> (fst (check_allowance env cfg s) = Inr () \<longrightarrow>
         tv_log (snd (check_allowance env cfg s)) = tv_log s @ [''/usage'']
         \<and> (\<exists>b. balance_at env cfg (length (tv_log s)) = Some b \<and> 1 \<le> b)
         \<and> (\<exists>x. tv_remaining (snd (check_allowance env cfg s)) = Some x \<and> 1 \<le> x))"
    using path
  proof (cases rule: tavily_json_cases [where env = env and cfg = cfg and s = ?s0])
    case (refused e b)
    with assms show ?thesis by (simp add: check_allowance_def credit_inv_def)
  next
    case (sent b)
    let ?r = "tavily_response cfg (en_json env) (en_net env (length (tv_log s)) usage_request)"
    have path': "hr_path usage_request = ''/usage''" by (simp add: usage_request_def)
    show ?thesis
    proof (cases "balance_at env cfg (length (tv_log s))")
      case None
      with sent path' assms show ?thesis
        by (auto simp: check_allowance_def credit_inv_def balance_at_def searches_allowed_snoc balances_kept_snoc
            split: sum.splits)
    next
      case (Some c)
      then obtain payload where r: "?r = Inr payload" "free_balance env payload = Inr c"
        by (auto simp: balance_at_def split: sum.splits)
      define x where "x = (case tv_remaining s of None \<Rightarrow> c | Some r \<Rightarrow> min r c)"
      have pos: "0 \<le> x" "x \<le> c" using assms free_balance_nonneg [OF r(2)]
        by (auto simp: x_def credit_inv_def split: option.splits)
      have "check_allowance env cfg s =
          (if x < 1 then Inl (SearchError ''tavily_free_credits_exhausted'' None) else Inr (),
           s\<lparr> tv_diagnostic := blank_diagnostic, tv_budget := b, tv_log := tv_log s @ [''/usage''], tv_remaining := Some x \<rparr>)"
        using sent path' r by (simp add: check_allowance_def x_def Let_def)
      moreover have "balances_kept env cfg 0 (Some x) (tv_log s)"
      proof (cases "tv_remaining s")
        case None
        with assms show ?thesis by (auto simp: credit_inv_def balances_kept_def)
      next
        case (Some r)
        with assms have "balances_kept env cfg 0 (Some r) (tv_log s)" by (simp add: credit_inv_def)
        then show ?thesis by (rule balances_kept_less) (simp add: x_def Some)
      qed
      ultimately show ?thesis using assms Some pos
        by (auto simp: credit_inv_def searches_allowed_snoc balances_kept_snoc)
    qed
  qed
  then show "credit_inv env cfg 0 (snd (check_allowance env cfg s))"
    "tv_attempted (snd (check_allowance env cfg s)) = tv_attempted s"
    "fst (check_allowance env cfg s) = Inr () \<Longrightarrow>
       tv_log (snd (check_allowance env cfg s)) = tv_log s @ [''/usage'']
       \<and> (\<exists>b. balance_at env cfg (length (tv_log s)) = Some b \<and> 1 \<le> b)
       \<and> (\<exists>x. tv_remaining (snd (check_allowance env cfg s)) = Some x \<and> 1 \<le> x)" by blast+
qed

text \<open>A reservation moves one credit from what is left to what is reserved.\<close>

lemma reserve_credit_credit:
  assumes "credit_inv env cfg 0 s" "tv_attempted s < sc_max_credits cfg" "tv_remaining s = Some x" "1 \<le> x"
  shows "fst (reserve_credit env s) = Inr () \<Longrightarrow> credit_inv env cfg 1 (snd (reserve_credit env s))"
    "fst (reserve_credit env s) = Inl e \<Longrightarrow> credit_inv env cfg 0 (snd (reserve_credit env s))"
    "tv_log (snd (reserve_credit env s)) = tv_log s"
proof -
  have kept: "balances_kept env cfg 1 (Some (x - 1)) (tv_log s)"
    by (rule balances_kept_less [of env cfg 0 x]) (use assms in \<open>simp_all add: credit_inv_def\<close>)
  show "fst (reserve_credit env s) = Inr () \<Longrightarrow> credit_inv env cfg 1 (snd (reserve_credit env s))"
    using assms kept by (auto simp: reserve_credit_def credit_inv_def split: sum.splits prod.splits if_splits)
  show "fst (reserve_credit env s) = Inl e \<Longrightarrow> credit_inv env cfg 0 (snd (reserve_credit env s))"
    using assms by (auto simp: reserve_credit_def credit_inv_def split: sum.splits prod.splits if_splits)
  show "tv_log (snd (reserve_credit env s)) = tv_log s"
    by (auto simp: reserve_credit_def split: sum.splits prod.splits if_splits)
qed

text \<open>A reserved credit may stay unused.\<close>

lemma credit_inv_unused: "credit_inv env cfg (Suc k) s \<Longrightarrow> credit_inv env cfg k s"
  unfolding credit_inv_def
  by (cases "tv_remaining s") (auto simp: balances_kept_def intro: balances_kept_less [of env cfg "Suc k"])

lemma tavily_answer_frame [simp]:
  "tv_log (snd (tavily_answer env cfg qi v s)) = tv_log s"
  "tv_attempted (snd (tavily_answer env cfg qi v s)) = tv_attempted s"
  "tv_remaining (snd (tavily_answer env cfg qi v s)) = tv_remaining s"
  "tv_budget (snd (tavily_answer env cfg qi v s)) = tv_budget s"
  "tv_halt (snd (tavily_answer env cfg qi v s)) = tv_halt s"
  by (auto simp: tavily_answer_def Let_def split: option.split json.split sum.split)

lemma credit_inv_cong:
  "tv_log s' = tv_log s \<Longrightarrow> tv_attempted s' = tv_attempted s \<Longrightarrow> tv_remaining s' = tv_remaining s
   \<Longrightarrow> credit_inv env cfg k s \<Longrightarrow> credit_inv env cfg k s'"
  by (simp add: credit_inv_def)

lemma spend_credit_credit:
  assumes "credit_inv env cfg 0 s" "tv_attempted s < sc_max_credits cfg"
  shows "credit_inv env cfg 0 (snd (spend_credit env cfg q qi s))"
proof (cases "check_allowance env cfg s")
  case (Pair r1 s1)
  have s1: "credit_inv env cfg 0 s1" "tv_attempted s1 = tv_attempted s"
    using check_allowance_credit (1,2) [OF assms(1)] Pair by simp_all
  show ?thesis
  proof (cases r1)
    case (Inl e)
    with Pair s1 show ?thesis by (simp add: spend_credit_def andthen_def)
  next
    case (Inr u)
    then obtain b x where s1': "tv_log s1 = tv_log s @ [''/usage'']"
        "balance_at env cfg (length (tv_log s)) = Some b" "1 \<le> b" "tv_remaining s1 = Some x" "1 \<le> x"
      using check_allowance_credit (3) [OF assms(1)] Pair by auto
    obtain r2 s2 where Pair2: "reserve_credit env s1 = (r2, s2)" by fastforce
    have "tv_attempted s1 < sc_max_credits cfg" using s1 assms by simp
    note reserved = reserve_credit_credit [OF s1(1) this s1'(4,5)]
    have path: "hr_path (tavily_request cfg q) \<in> {''/usage'', ''/search''}" by (simp add: tavily_request_def)
    show ?thesis
    proof (cases r2)
      case (Inl e)
      with Pair Pair2 Inr reserved(2) [of e] show ?thesis by (simp add: spend_credit_def andthen_def)
    next
      case (Inr v)
      with Pair2 reserved have s2: "credit_inv env cfg 1 s2" "tv_log s2 = tv_log s1" by auto
      have "credit_inv env cfg 0 (snd (tavily_json env cfg (tavily_request cfg q) s2))"
        using path
      proof (cases rule: tavily_json_cases [where env = env and cfg = cfg and s = s2])
        case (refused e b)
        with credit_inv_unused [of env cfg 0 s2] s2 show ?thesis by (simp add: credit_inv_def)
      next
        case (sent b')
        have "hr_path (tavily_request cfg q) = ''/search''" by (simp add: tavily_request_def)
        moreover have "tv_log s2 \<noteq> []" "last (tv_log s2) = ''/usage''" "balance_at env cfg (length (tv_log s2) - 1) = Some b"
          using s2 s1' by simp_all
        ultimately show ?thesis using sent s2(1) s1'(3)
          by (simp add: credit_inv_def searches_allowed_snoc balances_kept_snoc)
      qed
      then show ?thesis using Pair Pair2 Inr \<open>r1 = Inr u\<close>
        by (auto simp: spend_credit_def andthen_def split: sum.split prod.split
            intro: credit_inv_cong [rotated 3])
    qed
  qed
qed

lemma tavily_search_credit:
  assumes "credit_inv env cfg 0 s"
  shows "credit_inv env cfg 0 (snd (tavily_search env cfg q qi s))"
proof -
  let ?s = "s\<lparr> tv_diagnostic := blank_diagnostic\<lparr> di_engine := ''tavily'' \<rparr> \<rparr>"
  have start: "credit_inv env cfg 0 ?s" using assms by (simp add: credit_inv_def)
  show ?thesis
  proof (cases "en_validate_query env q")
    case (Inl why)
    with assms show ?thesis by (simp add: tavily_search_def)
  next
    case (Inr t)
    show ?thesis
    proof (cases "tv_halt s = None \<and> tv_attempted s < sc_max_credits cfg")
      case False
      with Inr start show ?thesis by (auto simp: tavily_search_def Let_def split: option.split)
    next
      case True
      with start have "credit_inv env cfg 0 (snd (spend_credit env cfg t qi ?s))" by (intro spend_credit_credit) simp_all
      with True Inr show ?thesis
        by (cases "spend_credit env cfg t qi ?s") (auto simp: tavily_search_def credit_inv_def split: sum.split)
    qed
  qed
qed

section \<open>Runs\<close>

text \<open>The states a provider can reach by searches and health checks, in any order.\<close>

inductive tavily_runs :: "environment \<Rightarrow> search_config \<Rightarrow> tavily \<Rightarrow> tavily \<Rightarrow> bool" for env cfg s where
  start: "tavily_runs env cfg s s"
| search: "tavily_runs env cfg s t \<Longrightarrow> tavily_runs env cfg s (snd (tavily_search env cfg q qi t))"
| health: "tavily_runs env cfg s t \<Longrightarrow> tavily_runs env cfg s (snd (engine_health env cfg t))"

lemma tavily_runs_credit:
  "tavily_runs env cfg s t \<Longrightarrow> credit_inv env cfg 0 s \<Longrightarrow> credit_inv env cfg 0 t"
  by (induction rule: tavily_runs.induct)
    (simp_all add: tavily_search_credit engine_health_def check_allowance_credit)

text \<open>C25. In every run of searches and health checks, each search request directly follows a usage answer that
  proves a free plan without pay-as-you-go and at least one credit left; since any usage answer no more searches
  are sent than the free balance it showed; and searches sent never outnumber the credits reserved, which stay
  within the limit of the job.\<close>

theorem tavily_spends_only_free_credits:
  assumes "tavily_runs env cfg (new_tavily b) s"
  shows "searches (tv_log s) \<le> tv_attempted s \<and> tv_attempted s \<le> sc_max_credits cfg
    \<and> (\<forall>i < length (tv_log s). tv_log s ! i = ''/search'' \<longrightarrow>
         0 < i \<and> tv_log s ! (i - 1) = ''/usage'' \<and> (\<exists>c. balance_at env cfg (i - 1) = Some c \<and> 1 \<le> c))
    \<and> (\<forall>j < length (tv_log s). tv_log s ! j = ''/usage'' \<longrightarrow>
         (\<forall>c. balance_at env cfg j = Some c \<longrightarrow> real (searches (drop j (tv_log s))) \<le> c))"
proof -
  have "credit_inv env cfg 0 (new_tavily b)"
    by (simp add: credit_inv_def new_tavily_def searches_allowed_def balances_kept_def)
  with assms have "credit_inv env cfg 0 s" by (rule tavily_runs_credit)
  then show ?thesis unfolding credit_inv_def searches_allowed_def balances_kept_def by fastforce
qed

section \<open>The first error\<close>

lemma tavily_search_halted:
  "tv_halt s = Some e \<Longrightarrow> tv_log (snd (tavily_search env cfg q qi s)) = tv_log s
   \<and> tv_halt (snd (tavily_search env cfg q qi s)) = Some e"
  by (auto simp: tavily_search_def Let_def split: sum.split)

lemma tavily_search_halts:
  "fst (tavily_search env cfg q qi s) = Inl (SearchError c st) \<Longrightarrow> \<exists>e. tv_halt (snd (tavily_search env cfg q qi s)) = Some e"
  by (auto simp: tavily_search_def Let_def split: sum.splits option.splits prod.splits if_splits)

lemma check_allowance_log:
  "tv_halt (snd (check_allowance env cfg s)) = tv_halt s
   \<and> searches (tv_log (snd (check_allowance env cfg s))) = searches (tv_log s)"
  by (auto simp: check_allowance_def tavily_json_def usage_request_def Let_def split: sum.splits prod.splits)

text \<open>The first search error stops the provider: whatever searches and health checks follow, no search request
  is sent any more.\<close>

theorem tavily_stops_after_error:
  assumes "fst (tavily_search env cfg q qi s) = Inl (SearchError c st)"
    and "tavily_runs env cfg (snd (tavily_search env cfg q qi s)) u"
  shows "searches (tv_log u) = searches (tv_log (snd (tavily_search env cfg q qi s)))"
proof -
  obtain e where e: "tv_halt (snd (tavily_search env cfg q qi s)) = Some e"
    using tavily_search_halts [OF assms(1)] by blast
  from assms(2) have "tv_halt u = Some e \<and> searches (tv_log u) = searches (tv_log (snd (tavily_search env cfg q qi s)))"
    by induction (auto simp: e tavily_search_halted engine_health_def check_allowance_log)
  then show ?thesis by blast
qed

section \<open>An example\<close>

definition ex_usage :: json where
  "ex_usage = JObj [(ascii ''account'', JObj [(ascii ''plan_usage'', JInt 3), (ascii ''plan_limit'', JInt 5),
     (ascii ''paygo_usage'', JInt 0), (ascii ''paygo_limit'', JNull), (ascii ''current_plan'', JStr (ascii ''free''))])]"

definition ex_found :: json where
  "ex_found = JObj [(ascii ''results'', JArr []), (ascii ''usage'', JObj [(ascii ''credits'', JInt 1)])]"

text \<open>A server that answers the first usage request and the first search, and fails afterwards.\<close>

definition ex_search_env :: environment where
  "ex_search_env =
     \<lparr> en_clock = (\<lambda>_. 0),
       en_net = (\<lambda>i rq. if i = 0 then HttpResponse 200 [[0]] else if i = 1 then HttpResponse 200 [[1]] else HttpTimeout),
       en_json = \<lparr> jl_loads = (\<lambda>b. if b = [0] then Some ex_usage else Some ex_found), jl_str = (\<lambda>_. []),
                   jl_lower = (\<lambda>t. t), jl_id = (\<lambda>t. if t = ascii ''free'' then ''free'' else []) \<rparr>,
       en_urls = \<lparr> ur_split = (\<lambda>_. None), ur_unsplit = (\<lambda>_ _ _ _. []), ur_parse_qsl = (\<lambda>_. []),
                   ur_urlencode = (\<lambda>_. []), ur_lower = (\<lambda>s. s) \<rparr>,
       en_validate_query = Inr, en_casefold = (\<lambda>t. t), en_now = ''2026-01-01T00:00:00+00:00'' \<rparr>"

definition ex_search_config :: search_config where
  "ex_search_config = \<lparr> sc_engine = ''tavily'', sc_language = ''auto'', sc_max_results = 5, sc_retries = 0,
     sc_response_bytes = 2048, sc_max_credits = 2 \<rparr>"

definition ex_tavily :: tavily where
  "ex_tavily = snd (tavily_search ex_search_env ex_search_config [97] ''q1'' (new_tavily (new_budget (\<lambda>_. 0) default_limits)))"

lemmas ex_tavily_simps = ex_usage_def ex_found_def ex_search_env_def ex_search_config_def new_tavily_def new_budget_def
  tavily_search_def spend_credit_def check_allowance_def reserve_credit_def tavily_json_def tavily_response_def
  tavily_answer_def usage_request_def tavily_request_def free_balance_def read_account_def read_number_def free_plan_def
  take_budget_def check_time_def remaining_seconds_def andthen_def default_limits_def blank_diagnostic_def

lemma ex_tavily_log: "tv_log ex_tavily = [''/usage'', ''/search'']"
  by (simp add: ex_tavily_def ex_tavily_simps ascii_def)

lemma ex_tavily_later:
  "fst (tavily_search ex_search_env ex_search_config [98] ''q2'' ex_tavily) = Inl (SearchError ''tavily_timeout'' None)"
  by (simp add: ex_tavily_def ex_tavily_simps ascii_def)

lemma tavily_spends_only_free_credits_witness:
  "tv_log ex_tavily = [''/usage'', ''/search''] \<and> searches (tv_log ex_tavily) \<le> tv_attempted ex_tavily
   \<and> tv_attempted ex_tavily \<le> 2"
  using tavily_spends_only_free_credits [OF tavily_runs.search [OF tavily_runs.start,
      of ex_search_env ex_search_config "new_tavily (new_budget (\<lambda>_. 0) default_limits)" "[97]" "''q1''"]]
  by (simp add: ex_tavily_log ex_tavily_def [symmetric]) (simp add: ex_search_config_def)

lemma tavily_stops_after_error_witness:
  "searches (tv_log (snd (tavily_search ex_search_env ex_search_config [97] ''q3''
      (snd (tavily_search ex_search_env ex_search_config [98] ''q2'' ex_tavily)))))
   = searches (tv_log (snd (tavily_search ex_search_env ex_search_config [98] ''q2'' ex_tavily)))"
  by (rule tavily_stops_after_error [OF ex_tavily_later tavily_runs.search [OF tavily_runs.start]])

end
