(* ===== verification/Parsing.thy ===== *)
theory Parsing
  imports Schema
begin

text \<open>
  \<open>extraction.py\<close>: a fetched document becomes passages in a disposable parser process. The parsing
  libraries are parameters (what \<open>trafilatura\<close>, \<open>lxml\<close> and \<open>pypdf\<close> return for the given bytes, and
  the hash of the retained text); the splitting into passages, the bookkeeping over the pages of a PDF and
  the loop that watches the parser process are modelled.
\<close>

section \<open>Splitting text into passages\<close>

text \<open>\<open>text.rfind(c, lo, hi)\<close> for one character.\<close>

definition rfind :: "codepoint \<Rightarrow> nat \<Rightarrow> nat \<Rightarrow> utext \<Rightarrow> nat option" where
  "rfind c lo hi t =
     (let found = filter (\<lambda>i. t ! i = c) [lo ..< min hi (length t)]
      in if found = [] then None else Some (last found))"

definition passage_end :: "nat \<Rightarrow> utext \<Rightarrow> nat \<Rightarrow> nat" where
  "passage_end width t start =
     (let e = min (start + width) (length t) in
      if e < length t then
        (case rfind 10 (start + width div 2) e t of
           Some b \<Rightarrow> Suc b
         | None \<Rightarrow> (case rfind 32 (start + width div 2) e t of Some b \<Rightarrow> Suc b | None \<Rightarrow> e))
      else e)"

definition new_passage :: "string \<Rightarrow> nat option \<Rightarrow> utext \<Rightarrow> nat \<Rightarrow> nat \<Rightarrow> passage" where
  "new_passage sid page chunk start e =
     \<lparr> pa_passage_id = sid @ ''-'' @ (case page of Some n \<Rightarrow> ''p'' @ dec n | None \<Rightarrow> ''html'') @ ''-'' @ dec start,
       pa_source_id = sid, pa_text = chunk, pa_page = page, pa_start = int start, pa_end = int e \<rparr>"

text \<open>The loop of \<open>split_passages\<close>; with a size of zero it would not end.\<close>

partial_function (option) split_from ::
  "string \<Rightarrow> nat option \<Rightarrow> nat \<Rightarrow> utext \<Rightarrow> nat \<Rightarrow> passage list option" where
  "split_from sid page width t start =
     (if start < length t then
        Option.bind (split_from sid page width t (passage_end width t start)) (\<lambda>rest.
          let e = passage_end width t start; chunk = take (e - start) (drop start t)
          in Some (if blank chunk then rest else new_passage sid page chunk start e # rest))
      else Some [])"

definition split_passages :: "utext \<Rightarrow> string \<Rightarrow> nat option \<Rightarrow> nat \<Rightarrow> passage list option" where
  "split_passages t sid page width = split_from sid page width t 0"

section \<open>What the parser returns\<close>

text \<open>The dictionary a parser returns: a field it leaves out is \<open>None\<close>.\<close>

record parsed =
  pd_status :: source_status
  pd_error :: "string option option"
  pd_extractor :: "string option"
  pd_title :: "utext option"
  pd_author :: "utext option"
  pd_publisher :: "utext option"
  pd_published_at :: "string option"
  pd_metadata_evidence :: "(string \<times> utext) list option"
  pd_origin_urls :: "string list option"
  pd_body_hash :: "string option"
  pd_passages :: "passage list option"
  pd_page_count :: "nat option"
  pd_page_statuses :: "(string \<times> string) list option"
  pd_limitations :: "utext list option"

definition failed_parse :: "source_status \<Rightarrow> string \<Rightarrow> parsed" where
  "failed_parse st err =
     \<lparr> pd_status = st, pd_error = Some (Some err), pd_extractor = None, pd_title = None, pd_author = None,
       pd_publisher = None, pd_published_at = None, pd_metadata_evidence = None, pd_origin_urls = None,
       pd_body_hash = None, pd_passages = None, pd_page_count = None, pd_page_statuses = None, pd_limitations = None \<rparr>"

text \<open>\<open>Source.model_validate({**source.model_dump(), **parsed})\<close>.\<close>

definition or_else :: "'a option \<Rightarrow> 'a \<Rightarrow> 'a" where
  "or_else x d = (case x of None \<Rightarrow> d | Some v \<Rightarrow> v)"

definition merge_parsed :: "parsed \<Rightarrow> source \<Rightarrow> source" where
  "merge_parsed p s = s\<lparr>
     so_status := pd_status p, so_error := or_else (pd_error p) (so_error s),
     so_extractor := (case pd_extractor p of None \<Rightarrow> so_extractor s | x \<Rightarrow> x),
     so_title := or_else (pd_title p) (so_title s),
     so_author := (case pd_author p of None \<Rightarrow> so_author s | x \<Rightarrow> x),
     so_publisher := (case pd_publisher p of None \<Rightarrow> so_publisher s | x \<Rightarrow> x),
     so_published_at := (case pd_published_at p of None \<Rightarrow> so_published_at s | x \<Rightarrow> x),
     so_metadata_evidence := or_else (pd_metadata_evidence p) (so_metadata_evidence s),
     so_origin_urls := or_else (pd_origin_urls p) (so_origin_urls s),
     so_body_hash := (case pd_body_hash p of None \<Rightarrow> so_body_hash s | x \<Rightarrow> x),
     so_passages := or_else (pd_passages p) (so_passages s),
     so_page_count := (case pd_page_count p of None \<Rightarrow> so_page_count s | x \<Rightarrow> x),
     so_page_statuses := or_else (pd_page_statuses p) (so_page_statuses s),
     so_limitations := or_else (pd_limitations p) (so_limitations s) \<rparr>"

section \<open>Notes\<close>

text \<open>The limitations a parser writes into its result, as code points.\<close>

definition HTML_TEXT_LIMIT :: utext where
  "HTML_TEXT_LIMIT = [116, 101, 120, 116, 95, 99, 104, 97, 114, 115, 19978, 38480, 12395, 12424, 12426, 72, 84, 77, 76,
     26412, 25991, 12434, 36884, 20013, 12391, 25171, 12385, 20999, 12387, 12383, 65294]"

definition ENCRYPTED_NOTE :: utext where
  "ENCRYPTED_NOTE = [26263, 21495, 21270, 80, 68, 70, 12399, 26412, 25991, 12434, 25277, 20986, 12375, 12390, 12356, 12394,
     12356, 65294]"

definition IMAGES_NOTE :: utext where
  "IMAGES_NOTE = [30011, 20687, 12398, 20869, 23481, 12399, 26410, 35501, 12391, 12354, 12426, 65292, 79, 67, 82, 12539,
     22259, 34920, 12398, 30011, 20687, 29702, 35299, 12399, 23455, 26045, 12375, 12390, 12356, 12394, 12356,
     65294]"

definition TEXT_LIMIT_NOTE :: utext where
  "TEXT_LIMIT_NOTE = [116, 101, 120, 116, 95, 99, 104, 97, 114, 115, 19978, 38480, 12395, 12424, 12426, 26412, 25991, 12434,
     36884, 20013, 12391, 25171, 12385, 20999, 12387, 12383, 65294]"

definition UNREADABLE_NOTE :: utext where
  "UNREADABLE_NOTE = [26412, 25991, 12434, 25277, 20986, 12391, 12365, 12394, 12356, 29289, 29702, 12506, 12540, 12472,
     12364, 12354, 12427, 65294]"

definition PAGE_LIMIT_HEAD :: utext where
  "PAGE_LIMIT_HEAD = [112, 100, 102, 95, 112, 97, 103, 101, 115, 19978, 38480, 12395, 12424, 12426, 29289, 29702, 12506,
     12540, 12472]"

definition PAGE_LIMIT_TAIL :: utext where
  "PAGE_LIMIT_TAIL = [20197, 38477, 12399, 26410, 25277, 20986, 65294]"

section \<open>HTML\<close>

text \<open>What \<open>trafilatura.bare_extraction\<close> and \<open>_html_metadata\<close> make of a document.\<close>

record html_document =
  hd_text :: "utext option"
  hd_title :: "utext option"

record html_metadata =
  hm_author :: "utext option"
  hm_publisher :: "utext option"
  hm_published_at :: "string option"
  hm_evidence :: "(string \<times> utext) list"
  hm_origin_urls :: "string list"

datatype page_outcome = PageText bool utext | PageError string | PageOutOfMemory

datatype pdf_outcome =
    PdfInvalid
  | PdfOtherError string
  | PdfEncrypted
  | PdfPages "page_outcome list" "(string \<times> utext) list"

record parser_library =
  pl_html :: "byte_string \<Rightarrow> string \<Rightarrow> html_document option"
  pl_metadata :: "byte_string \<Rightarrow> string \<Rightarrow> html_metadata"
  pl_pdf :: "byte_string \<Rightarrow> pdf_outcome"
  pl_hash :: "utext \<Rightarrow> string"
  pl_html_version :: string
  pl_pdf_version :: string

definition trim :: "utext \<Rightarrow> utext" where
  "trim t = rev (dropWhile py_space (rev (dropWhile py_space t)))"

text \<open>\<open>None\<close> is a parser that does not return.\<close>

definition parse_html :: "parser_library \<Rightarrow> limits \<Rightarrow> string \<Rightarrow> string \<Rightarrow> byte_string \<Rightarrow> parsed option" where
  "parse_html pl l url sid data =
     (let ext = ''trafilatura/'' @ pl_html_version pl;
          failed = Some (failed_parse SExtractionFailed ''html_body_unavailable'' \<lparr> pd_extractor := Some ext \<rparr>)
      in case pl_html pl data url of
           None \<Rightarrow> failed
         | Some d \<Rightarrow>
             (case hd_text d of
                None \<Rightarrow> failed
              | Some raw \<Rightarrow>
                  if blank raw then failed
                  else
                    let full = trim raw; cut = text_chars l < int (length full);
                        body = take (nat (text_chars l)) full; m = pl_metadata pl data url
                    in map_option (\<lambda>ps.
                         \<lparr> pd_status = (if cut then SPartial else SOk),
                           pd_error = Some (if cut then Some ''text_chars'' else None), pd_extractor = Some ext,
                           pd_title = Some (take 2000 (or_else (hd_title d) [])),
                           pd_author = hm_author m, pd_publisher = hm_publisher m, pd_published_at = hm_published_at m,
                           pd_metadata_evidence = Some (hm_evidence m), pd_origin_urls = Some (hm_origin_urls m),
                           pd_body_hash = Some (pl_hash pl body), pd_passages = Some ps, pd_page_count = None,
                           pd_page_statuses = None,
                           pd_limitations = Some (if cut then [HTML_TEXT_LIMIT] else []) \<rparr>)
                       (split_passages body sid None (nat (passage_chars l)))))"

section \<open>PDF\<close>

record pdf_state =
  ps_passages :: "passage list"
  ps_statuses :: "(string \<times> string) list"
  ps_retained :: nat
  ps_pieces :: utext

definition set_page :: "nat \<Rightarrow> string \<Rightarrow> pdf_state \<Rightarrow> pdf_state" where
  "set_page n st s = s\<lparr> ps_statuses := ps_statuses s @ [(dec n, st)] \<rparr>"

text \<open>The loop over the pages, from page \<open>n\<close>; \<open>Inl\<close> is the \<open>MemoryError\<close> that is raised again.\<close>

fun read_pages :: "limits \<Rightarrow> string \<Rightarrow> page_outcome list \<Rightarrow> nat \<Rightarrow> pdf_state \<Rightarrow> (unit + pdf_state) option" where
  "read_pages l sid [] n s = Some (Inr s)"
| "read_pages l sid (pg # pages) n s =
     (if nat (text_chars l) \<le> ps_retained s then read_pages l sid pages (Suc n) (set_page n ''not_extracted_text_limit'' s)
      else case pg of
        PageOutOfMemory \<Rightarrow> Some (Inl ())
      | PageError name \<Rightarrow> read_pages l sid pages (Suc n) (set_page n (''extraction_failed:'' @ name) s)
      | PageText images raw \<Rightarrow>
          if trim raw = [] then
            read_pages l sid pages (Suc n) (set_page n (if images then ''image_only'' else ''no_extractable_text'') s)
          else
            let left = nat (text_chars l) - ps_retained s; cut = left < length (trim raw); body = take left (trim raw)
            in Option.bind (split_passages body sid (Some n) (nat (passage_chars l))) (\<lambda>ps.
                 read_pages l sid pages (Suc n)
                   (set_page n (if cut then ''text_limit'' else if images then ''text_with_unread_images'' else ''text_extracted'')
                     (s\<lparr> ps_passages := ps_passages s @ ps, ps_retained := ps_retained s + length body,
                         ps_pieces := ps_pieces s @ ascii ''
[physical-page:'' @ ascii (dec n) @ ascii '']
'' @ body \<rparr>))))"

definition prefix_of :: "string \<Rightarrow> string \<Rightarrow> bool" where
  "prefix_of p s \<longleftrightarrow> take (length p) s = p"

definition substring_of :: "string \<Rightarrow> string \<Rightarrow> bool" where
  "substring_of p s \<longleftrightarrow> list_ex (\<lambda>i. prefix_of p (drop i s)) [0 ..< Suc (length s)]"

definition pdf_metadata :: "(string \<times> utext) list \<Rightarrow> string \<Rightarrow> utext option" where
  "pdf_metadata m k = (case map_of m k of Some v \<Rightarrow> if v = [] then None else Some v | None \<Rightarrow> None)"

definition metadata_evidence :: "(string \<times> utext) list \<Rightarrow> (string \<times> utext) list" where
  "metadata_evidence m =
     concat (map (\<lambda>(k, field, bound). case pdf_metadata m k of
         None \<Rightarrow> []
       | Some v \<Rightarrow> [(field, ascii (''PDF metadata '' @ k @ '': '') @ take bound v)])
       [(''/Title'', ''title'', 2000), (''/Author'', ''author'', 2000), (''/CreationDate'', ''created_at'', 1000)])"

text \<open>The page statuses and notes after the loop, and the status they amount to.\<close>

definition pdf_statuses :: "limits \<Rightarrow> nat \<Rightarrow> pdf_state \<Rightarrow> (string \<times> string) list" where
  "pdf_statuses l count s = ps_statuses s
     @ (if nat (pdf_pages l) < count
        then [(dec (nat (pdf_pages l) + 1) @ ''-'' @ dec count, ''not_extracted_page_limit'')] else [])"

definition pdf_notes :: "limits \<Rightarrow> nat \<Rightarrow> string list \<Rightarrow> utext list" where
  "pdf_notes l count states =
     (if nat (pdf_pages l) < count then [PAGE_LIMIT_HEAD @ ascii (dec (nat (pdf_pages l) + 1)) @ PAGE_LIMIT_TAIL] else [])
     @ (if list_ex (substring_of ''image'') states then [IMAGES_NOTE] else [])
     @ (if list_ex (substring_of ''text_limit'') states then [TEXT_LIMIT_NOTE] else [])
     @ (if list_ex (\<lambda>st. prefix_of ''extraction_failed'' st \<or> st = ''no_extractable_text'') states then [UNREADABLE_NOTE] else [])"

definition pdf_result :: "parser_library \<Rightarrow> limits \<Rightarrow> nat \<Rightarrow> (string \<times> utext) list \<Rightarrow> pdf_state \<Rightarrow> parsed" where
  "pdf_result pl l count m s =
     (let statuses = pdf_statuses l count s; states = map snd statuses; found = ps_passages s \<noteq> [] in
      \<lparr> pd_status = (if found then (if \<forall>st \<in> set states. st = ''text_extracted'' then SOk else SPartial)
                     else if set states = {''image_only''} then SImageOnly else SExtractionFailed),
        pd_error = (if found then None else Some (Some ''pdf_text_unavailable'')),
        pd_extractor = Some (''pypdf/'' @ pl_pdf_version pl),
        pd_title = map_option (take 2000) (pdf_metadata m ''/Title''),
        pd_author = map_option (take 2000) (pdf_metadata m ''/Author''),
        pd_publisher = None, pd_published_at = None,
        pd_metadata_evidence = Some (metadata_evidence m), pd_origin_urls = None,
        pd_body_hash = (if found then Some (pl_hash pl (ps_pieces s)) else None),
        pd_passages = Some (ps_passages s), pd_page_count = Some count,
        pd_page_statuses = Some statuses, pd_limitations = Some (pdf_notes l count states) \<rparr>)"

datatype parse_outcome = Parsed parsed | ParserError string | ParserOutOfMemory

definition parse_pdf :: "parser_library \<Rightarrow> limits \<Rightarrow> string \<Rightarrow> byte_string \<Rightarrow> parse_outcome option" where
  "parse_pdf pl l sid data =
     (let ext = ''pypdf/'' @ pl_pdf_version pl in
      case pl_pdf pl data of
        PdfInvalid \<Rightarrow> Some (Parsed (failed_parse SInvalid ''invalid_pdf'' \<lparr> pd_extractor := Some ext \<rparr>))
      | PdfOtherError name \<Rightarrow> Some (ParserError name)
      | PdfEncrypted \<Rightarrow> Some (Parsed (failed_parse SEncrypted ''encrypted_pdf''
            \<lparr> pd_extractor := Some ext, pd_limitations := Some [ENCRYPTED_NOTE] \<rparr>))
      | PdfPages pages m \<Rightarrow>
          map_option (\<lambda>r. case r of
              Inl _ \<Rightarrow> ParserOutOfMemory
            | Inr s \<Rightarrow> Parsed (pdf_result pl l (length pages) m s))
            (read_pages l sid (take (nat (pdf_pages l)) pages) 1
              \<lparr> ps_passages = [], ps_statuses = [], ps_retained = 0, ps_pieces = [] \<rparr>))"

section \<open>The parser process\<close>

text \<open>What \<open>_parse_child\<close> sends through the pipe.\<close>

definition parse_child ::
  "parser_library \<Rightarrow> limits \<Rightarrow> source_kind \<Rightarrow> string \<Rightarrow> string \<Rightarrow> byte_string \<Rightarrow> parsed option" where
  "parse_child pl l kind url sid data =
     map_option (\<lambda>r. case r of
         Parsed p \<Rightarrow> p
       | ParserOutOfMemory \<Rightarrow> failed_parse SLimit ''parser_memory_mb''
       | ParserError name \<Rightarrow> failed_parse SExtractionFailed (''parser:'' @ name))
       (if kind = KPdf then parse_pdf pl l sid data else map_option Parsed (parse_html pl l url sid data))"

text \<open>What the parent sees of the child at one turn of its loop: the time since the start, its memory, the
  pipe and whether it lives.\<close>

datatype memory = Resident nat | NoSuchProcess | AccessDenied
datatype pipe = NothingYet | Received parsed | EndOfFile

record turn =
  tu_elapsed :: real
  tu_memory :: memory
  tu_pipe :: pipe
  tu_alive :: bool

partial_function (option) watch_parser :: "limits \<Rightarrow> real \<Rightarrow> (nat \<Rightarrow> turn) \<Rightarrow> nat \<Rightarrow> parsed option" where
  "watch_parser l deadline turns i =
     (let t = turns i in
      if deadline \<le> tu_elapsed t then Some (failed_parse STimeout ''parser_timeout'')
      else if (case tu_memory t of Resident n \<Rightarrow> parser_memory_mb l * 1024 ^ 2 < int n | _ \<Rightarrow> False)
      then Some (failed_parse SLimit ''parser_memory_mb'')
      else if tu_memory t = AccessDenied then Some (failed_parse SLimit ''parser_resource_monitor_unavailable'')
      else case tu_pipe t of
             Received p \<Rightarrow> Some p
           | EndOfFile \<Rightarrow> Some (failed_parse SExtractionFailed ''parser_exited_without_result'')
           | NothingYet \<Rightarrow>
               if \<not> tu_alive t then Some (failed_parse SExtractionFailed ''parser_exited_without_result'')
               else watch_parser l deadline turns (Suc i))"

definition extract_document :: "limits \<Rightarrow> real option \<Rightarrow> (nat \<Rightarrow> turn) \<Rightarrow> parsed option" where
  "extract_document l seconds turns =
     watch_parser l (min (parser_seconds l) (or_else seconds (parser_seconds l))) turns 0"

section \<open>Passages tile the text\<close>

lemma rfind_bounds:
  assumes "rfind c lo hi t = Some b"
  shows "lo \<le> b \<and> b < hi \<and> b < length t"
proof -
  define xs where "xs = filter (\<lambda>i. t ! i = c) [lo ..< min hi (length t)]"
  have "xs \<noteq> [] \<and> b = last xs"
    using assms by (simp add: rfind_def xs_def [symmetric] split: if_split_asm)
  then have "b \<in> set xs" by simp
  then show ?thesis by (simp add: xs_def)
qed

lemma passage_end_bounds:
  assumes "start < length t" "0 < width"
  shows "start < passage_end width t start \<and> passage_end width t start \<le> length t
    \<and> passage_end width t start \<le> start + width"
  using assms by (auto simp: passage_end_def Let_def dest!: rfind_bounds split: option.split)

text \<open>The pieces from \<open>start\<close> on are exact, in order, without overlap, and leave only white space out.\<close>

definition tiles :: "nat \<Rightarrow> utext \<Rightarrow> nat \<Rightarrow> passage list \<Rightarrow> bool" where
  "tiles width t start ps \<longleftrightarrow>
     (\<forall>p \<in> set ps. \<exists>a b. pa_start p = int a \<and> pa_end p = int b \<and> start \<le> a \<and> a < b \<and> b \<le> length t
        \<and> b \<le> a + width \<and> pa_text p = take (b - a) (drop a t))
     \<and> sorted_wrt (\<lambda>p q. pa_end p \<le> pa_start q) ps
     \<and> (\<forall>i. start \<le> i \<and> i < length t \<and> \<not> py_space (t ! i) \<longrightarrow> (\<exists>p \<in> set ps. pa_start p \<le> int i \<and> int i < pa_end p))"

lemma blank_slice:
  "blank (take (e - start) (drop start t)) \<Longrightarrow> start \<le> i \<Longrightarrow> i < e \<Longrightarrow> e \<le> length t \<Longrightarrow> py_space (t ! i)"
  unfolding blank_def list_all_length by (drule spec [of _ "i - start"]) simp

lemma split_from_tiles:
  assumes "0 < width"
  shows "\<exists>ps. split_from sid page width t start = Some ps \<and> tiles width t start ps"
proof (induction "length t - start" arbitrary: start rule: less_induct)
  case less
  show ?case
  proof (cases "start < length t")
    case False
    then show ?thesis by (subst split_from.simps) (simp add: tiles_def)
  next
    case True
    define e where "e = passage_end width t start"
    have e: "start < e" "e \<le> length t" "e \<le> start + width"
      using passage_end_bounds [OF True assms] by (simp_all add: e_def)
    with True have "length t - e < length t - start" by linarith
    from less [OF this] obtain ps where ps: "split_from sid page width t e = Some ps" "tiles width t e ps"
      by blast
    let ?c = "take (e - start) (drop start t)"
    have eq: "split_from sid page width t start =
        Some (if blank ?c then ps else new_passage sid page ?c start e # ps)"
      using True ps by (subst split_from.simps) (simp add: e_def Let_def)
    have after: "int e \<le> pa_start q" if "q \<in> set ps" for q
      using ps(2) that by (force simp: tiles_def)
    have cover: "\<exists>p \<in> set ps. pa_start p \<le> int i \<and> int i < pa_end p"
      if "e \<le> i" "i < length t" "\<not> py_space (t ! i)" for i
      using ps(2) that by (simp add: tiles_def)
    show ?thesis
    proof (cases "blank ?c")
      case True
      have "tiles width t start ps"
        unfolding tiles_def
      proof (intro conjI ballI allI impI)
        fix p assume "p \<in> set ps"
        then obtain a b where "pa_start p = int a \<and> pa_end p = int b \<and> e \<le> a \<and> a < b \<and> b \<le> length t
            \<and> b \<le> a + width \<and> pa_text p = take (b - a) (drop a t)"
          using ps(2) unfolding tiles_def by blast
        with e(1) show "\<exists>a b. pa_start p = int a \<and> pa_end p = int b \<and> start \<le> a \<and> a < b \<and> b \<le> length t
            \<and> b \<le> a + width \<and> pa_text p = take (b - a) (drop a t)" by force
      next
        show "sorted_wrt (\<lambda>p q. pa_end p \<le> pa_start q) ps" using ps(2) by (simp add: tiles_def)
      next
        fix i assume i: "start \<le> i \<and> i < length t \<and> \<not> py_space (t ! i)"
        with blank_slice [OF True _ _ e(2), of i] have "e \<le> i" by force
        with i show "\<exists>p \<in> set ps. pa_start p \<le> int i \<and> int i < pa_end p" by (intro cover) simp_all
      qed
      with eq True show ?thesis by simp
    next
      case False
      have "tiles width t start (new_passage sid page ?c start e # ps)"
        unfolding tiles_def
      proof (intro conjI ballI allI impI)
        fix p assume p: "p \<in> set (new_passage sid page ?c start e # ps)"
        show "\<exists>a b. pa_start p = int a \<and> pa_end p = int b \<and> start \<le> a \<and> a < b \<and> b \<le> length t
            \<and> b \<le> a + width \<and> pa_text p = take (b - a) (drop a t)"
        proof (cases "p \<in> set ps")
          case True
          then obtain a b where "pa_start p = int a \<and> pa_end p = int b \<and> e \<le> a \<and> a < b \<and> b \<le> length t
              \<and> b \<le> a + width \<and> pa_text p = take (b - a) (drop a t)"
            using ps(2) unfolding tiles_def by blast
          with e(1) show ?thesis by force
        next
          case False
          with p e show ?thesis by (auto simp: new_passage_def)
        qed
      next
        show "sorted_wrt (\<lambda>p q. pa_end p \<le> pa_start q) (new_passage sid page ?c start e # ps)"
          using ps(2) after by (simp add: tiles_def new_passage_def)
      next
        fix i assume i: "start \<le> i \<and> i < length t \<and> \<not> py_space (t ! i)"
        then show "\<exists>p \<in> set (new_passage sid page ?c start e # ps). pa_start p \<le> int i \<and> int i < pa_end p"
          using cover [of i] by (cases "e \<le> i") (auto simp: new_passage_def)
      qed
      with eq False show ?thesis by simp
    qed
  qed
qed

text \<open>C28. For any positive size the splitting ends, and its passages are exact slices of the text of at most that
  size, in order and without overlap; a character in no passage is white space.\<close>

theorem passages_tile_text:
  assumes "0 < width"
  shows "\<exists>ps. split_passages t sid page width = Some ps
    \<and> (\<forall>p \<in> set ps. \<exists>a b. pa_start p = int a \<and> pa_end p = int b \<and> a < b \<and> b \<le> length t
         \<and> b \<le> a + width \<and> pa_text p = take (b - a) (drop a t))
    \<and> sorted_wrt (\<lambda>p q. pa_end p \<le> pa_start q) ps
    \<and> (\<forall>i < length t. \<not> py_space (t ! i) \<longrightarrow> (\<exists>p \<in> set ps. pa_start p \<le> int i \<and> int i < pa_end p))"
proof -
  obtain ps where "split_from sid page width t 0 = Some ps" "tiles width t 0 ps"
    using split_from_tiles [OF assms] by blast
  then show ?thesis unfolding split_passages_def tiles_def by (intro exI [of _ ps]) fastforce
qed

lemma passages_tile_text_witness:
  "\<exists>ps. split_passages (ascii ''one two three'') ''s1'' None 8 = Some ps \<and> sorted_wrt (\<lambda>p q. pa_end p \<le> pa_start q) ps"
  using passages_tile_text [of 8 "ascii ''one two three''" "''s1''" None] by fastforce

section \<open>The retained text is bounded\<close>

definition text_total :: "passage list \<Rightarrow> nat" where
  "text_total ps = sum_list (map (\<lambda>p. length (pa_text p)) ps)"

lemma text_total_simps [simp]:
  "text_total [] = 0" "text_total (p # ps) = length (pa_text p) + text_total ps"
  "text_total (ps @ qs) = text_total ps + text_total qs"
  by (simp_all add: text_total_def)

lemma split_from_total:
  assumes "0 < width"
  shows "split_from sid page width t start = Some ps \<Longrightarrow> text_total ps \<le> length t - start"
proof (induction "length t - start" arbitrary: start ps rule: less_induct)
  case less
  show ?case
  proof (cases "start < length t")
    case False
    with less(2) show ?thesis by (subst (asm) split_from.simps) simp
  next
    case True
    let ?e = "passage_end width t start"
    have e: "start < ?e" "?e \<le> length t" using passage_end_bounds [OF True assms] by simp_all
    then have "length t - ?e < length t - start" by linarith
    note IH = less(1) [OF this]
    from less(2) True obtain qs where qs: "split_from sid page width t ?e = Some qs"
      "ps = qs \<or> (\<exists>p. ps = p # qs \<and> pa_text p = take (?e - start) (drop start t))"
      by (subst (asm) split_from.simps) (auto simp: bind_eq_Some_conv new_passage_def Let_def split: if_splits)
    from IH [OF qs(1)] qs(2) e show ?thesis by auto
  qed
qed

lemma split_passages_total:
  "0 < width \<Longrightarrow> split_passages t sid page width = Some ps \<Longrightarrow> text_total ps \<le> length t"
  using split_from_total [of width sid page t 0 ps] by (simp add: split_passages_def)

lemma split_passages_ends: "0 < width \<Longrightarrow> \<exists>ps. split_passages t sid page width = Some ps"
  using split_from_tiles [of width sid page t 0] by (auto simp: split_passages_def)

lemma set_page_frame [simp]:
  "ps_passages (set_page n st s) = ps_passages s" "ps_retained (set_page n st s) = ps_retained s"
  by (simp_all add: set_page_def)

lemma read_pages_total:
  assumes "0 < passage_chars l"
  shows "text_total (ps_passages s) \<le> ps_retained s \<Longrightarrow> ps_retained s \<le> nat (text_chars l)
    \<Longrightarrow> \<exists>r. read_pages l sid pages n s = Some r
      \<and> (\<forall>s'. r = Inr s' \<longrightarrow> text_total (ps_passages s') \<le> ps_retained s' \<and> ps_retained s' \<le> nat (text_chars l))"
proof (induction pages arbitrary: n s)
  case (Cons pg pages)
  show ?case
  proof (cases "nat (text_chars l) \<le> ps_retained s")
    case True
    with Cons show ?thesis by simp
  next
    case False
    show ?thesis
    proof (cases pg)
      case (PageText images raw)
      show ?thesis
      proof (cases "trim raw = []")
        case True
        with False PageText Cons show ?thesis by simp
      next
        case nonempty: False
        define body where "body = take (nat (text_chars l) - ps_retained s) (trim raw)"
        obtain ps where ps: "split_passages body sid (Some n) (nat (passage_chars l)) = Some ps"
          using split_passages_ends assms by (metis zero_less_nat_eq)
        then have "text_total ps \<le> length body" using split_passages_total assms by (metis zero_less_nat_eq)
        moreover have "ps_retained s + length body \<le> nat (text_chars l)" using False by (simp add: body_def)
        moreover obtain s2 where "read_pages l sid (pg # pages) n s = read_pages l sid pages (Suc n) s2"
            "ps_passages s2 = ps_passages s @ ps" "ps_retained s2 = ps_retained s + length body"
          using False PageText nonempty ps
          by (simp add: body_def Let_def del: length_take)
        ultimately show ?thesis using Cons.prems Cons.IH [of s2 "Suc n"] by (simp del: read_pages.simps)
      qed
    next
      case (PageError name)
      with False Cons show ?thesis by simp
    next
      case PageOutOfMemory
      with False show ?thesis by simp
    qed
  qed
qed simp

text \<open>Under valid limits both parsers return on every input, and the passages of a result hold at most
  \<open>text_chars\<close> characters together.\<close>

theorem parsers_return_bounded_text:
  assumes "valid_limits l"
  shows "\<exists>p. parse_child pl l kind url sid data = Some p
    \<and> (\<forall>ps. pd_passages p = Some ps \<longrightarrow> int (text_total ps) \<le> text_chars l)"
proof -
  have l: "0 < passage_chars l" "0 < nat (passage_chars l)" "0 \<le> text_chars l"
    using assms by (simp_all add: valid_limits_def)
  show ?thesis
  proof (cases "kind = KPdf")
    case True
    show ?thesis
    proof (cases "pl_pdf pl data")
      case (PdfPages pages m)
      let ?s0 = "\<lparr> ps_passages = [], ps_statuses = [], ps_retained = 0, ps_pieces = [] \<rparr>"
      obtain r where r: "read_pages l sid (take (nat (pdf_pages l)) pages) 1 ?s0 = Some r"
        "\<forall>s'. r = Inr s' \<longrightarrow> text_total (ps_passages s') \<le> ps_retained s' \<and> ps_retained s' \<le> nat (text_chars l)"
        using read_pages_total [OF l(1), of ?s0 sid "take (nat (pdf_pages l)) pages" 1] by auto
      show ?thesis
      proof (cases r)
        case (Inl u)
        with True PdfPages r show ?thesis by (simp add: parse_child_def parse_pdf_def failed_parse_def)
      next
        case (Inr s')
        with r(2) have "text_total (ps_passages s') \<le> ps_retained s' \<and> ps_retained s' \<le> nat (text_chars l)" by blast
        then have "text_total (ps_passages s') \<le> nat (text_chars l)" by linarith
        with l(3) have "int (text_total (ps_passages s')) \<le> text_chars l" by linarith
        with True PdfPages r(1) Inr show ?thesis
          by (simp add: parse_child_def parse_pdf_def pdf_result_def Let_def)
      qed
    qed (use True in \<open>simp_all add: parse_child_def parse_pdf_def failed_parse_def\<close>)
  next
    case False
    have total: "\<exists>ps. split_passages (take (nat (text_chars l)) t) sid None (nat (passage_chars l)) = Some ps
        \<and> int (text_total ps) \<le> text_chars l" for t
    proof -
      obtain ps where "split_passages (take (nat (text_chars l)) t) sid None (nat (passage_chars l)) = Some ps"
        using split_passages_ends [OF l(2)] by blast
      with split_passages_total [OF l(2) this] l(3) show ?thesis by auto
    qed
    show ?thesis
    proof (cases "pl_html pl data url")
      case None
      with False show ?thesis by (simp add: parse_child_def parse_html_def failed_parse_def)
    next
      case (Some d)
      show ?thesis
      proof (cases "hd_text d")
        case None
        with False Some show ?thesis by (simp add: parse_child_def parse_html_def failed_parse_def)
      next
        case (Some raw)
        with False \<open>pl_html pl data url = Some d\<close> total [of "trim raw"] show ?thesis
          by (auto simp: parse_child_def parse_html_def failed_parse_def Let_def)
      qed
    qed
  qed
qed

definition ex_parsers :: parser_library where
  "ex_parsers = \<lparr> pl_html = (\<lambda>_ _. None), pl_metadata = (\<lambda>_ _. \<lparr> hm_author = None, hm_publisher = None,
     hm_published_at = None, hm_evidence = [], hm_origin_urls = [] \<rparr>),
     pl_pdf = (\<lambda>_. PdfPages [PageText False (ascii ''some text'')] []), pl_hash = (\<lambda>_. ''hash''),
     pl_html_version = ''2'', pl_pdf_version = ''6'' \<rparr>"

lemma parsers_return_bounded_text_witness:
  "\<exists>p. parse_child ex_parsers default_limits KPdf [] ''s1'' [37] = Some p
    \<and> (\<forall>ps. pd_passages p = Some ps \<longrightarrow> int (text_total ps) \<le> 200000)"
  using parsers_return_bounded_text [OF valid_default_limits, of ex_parsers KPdf "[]" "''s1''" "[37]"]
  by (simp add: default_limits_def)

section \<open>The watch ends\<close>

lemma watch_ends:
  assumes "min (parser_seconds l) (or_else seconds (parser_seconds l)) \<le> tu_elapsed (turns n)"
  shows "\<exists>p. extract_document l seconds turns = Some p
    \<and> ((\<exists>i \<le> n. tu_pipe (turns i) = Received p) \<or> pd_status p \<in> {STimeout, SLimit, SExtractionFailed})"
proof -
  define d where "d = min (parser_seconds l) (or_else seconds (parser_seconds l))"
  have "\<exists>p. watch_parser l d turns (n - k) = Some p
      \<and> ((\<exists>i \<le> n. tu_pipe (turns i) = Received p) \<or> pd_status p \<in> {STimeout, SLimit, SExtractionFailed})"
    if "k \<le> n" for k
    using that
  proof (induction k)
    case 0
    with assms show ?case by (subst watch_parser.simps) (auto simp: d_def failed_parse_def Let_def)
  next
    case (Suc k)
    then have "Suc (n - Suc k) = n - k" by simp
    with Suc show ?case
      by (subst watch_parser.simps) (auto simp: failed_parse_def Let_def split: pipe.split)
  qed
  from this [of n] show ?thesis by (simp add: extract_document_def d_def)
qed

text \<open>Once the parser's time is over the watch ends, whatever the parser does: the document is what
  the parser sent, or a failure that names the reason.\<close>

theorem parser_watch_ends:
  assumes "min (parser_seconds l) (or_else seconds (parser_seconds l)) \<le> tu_elapsed (turns n)"
  shows "\<exists>p. extract_document l seconds turns = Some p
    \<and> ((\<exists>i \<le> n. tu_pipe (turns i) = Received p) \<or> pd_status p \<in> {STimeout, SLimit, SExtractionFailed})"
  using assms by (rule watch_ends)

lemma parser_watch_ends_witness:
  "\<exists>p. extract_document default_limits None
      (\<lambda>i. \<lparr> tu_elapsed = real i, tu_memory = Resident 0, tu_pipe = NothingYet, tu_alive = True \<rparr>) = Some p"
  using parser_watch_ends [of default_limits None "\<lambda>i. \<lparr> tu_elapsed = real i, tu_memory = Resident 0,
      tu_pipe = NothingYet, tu_alive = True \<rparr>" 20]
  by (force simp: default_limits_def or_else_def)

end
