(* ===== verification/Fetch.thy ===== *)
theory Fetch
  imports Network Parsing "HOL-Library.Word"
begin

unbundle bit_operations_syntax

text \<open>
  \<open>fetch.py\<close>: documents are fetched from public addresses only. A URL is checked, its host is resolved,
  every address is checked, and the connection is pinned to the checked addresses; redirects repeat all
  of it. The resolver, the servers, \<open>zlib\<close> and the splitting of URLs are parameters; addresses are words.
\<close>

section \<open>Addresses\<close>

datatype ip = IPv4 "32 word" | IPv6 "128 word"

text \<open>\<open>al_parse\<close> is \<open>ipaddress.ip_address\<close>, \<open>al_show\<close> its \<open>str\<close>, \<open>al_global\<close> the \<open>is_global\<close> of the registry
  the Python version ships.\<close>

record address_library =
  al_parse :: "string \<Rightarrow> ip option"
  al_show :: "ip \<Rightarrow> string"
  al_global :: "ip \<Rightarrow> bool"
  al_idna :: "string \<Rightarrow> string option"
  al_defrag :: "string \<Rightarrow> string"
  al_join :: "string \<Rightarrow> string \<Rightarrow> string option"

definition in_net4 :: "32 word \<Rightarrow> nat \<Rightarrow> 32 word \<Rightarrow> bool" where
  "in_net4 base bits a \<longleftrightarrow> drop_bit (32 - bits) a = drop_bit (32 - bits) base"

definition in_net6 :: "128 word \<Rightarrow> nat \<Rightarrow> 128 word \<Rightarrow> bool" where
  "in_net6 base bits a \<longleftrightarrow> drop_bit (128 - bits) a = drop_bit (128 - bits) base"

fun is_multicast :: "ip \<Rightarrow> bool" where
  "is_multicast (IPv4 a) = in_net4 0xE0000000 4 a"
| "is_multicast (IPv6 a) = in_net6 (push_bit 120 0xFF) 8 a"

fun is_reserved :: "ip \<Rightarrow> bool" where
  "is_reserved (IPv4 a) = in_net4 0xF0000000 4 a"
| "is_reserved (IPv6 a) = list_ex (\<lambda>(hextet, bits). in_net6 (push_bit 112 hextet) bits a)
     [(0, 8), (0x100, 8), (0x200, 7), (0x400, 6), (0x800, 5), (0x1000, 4), (0x4000, 3), (0x6000, 3), (0x8000, 3),
      (0xA000, 3), (0xC000, 3), (0xE000, 4), (0xF000, 5), (0xF800, 6), (0xFE00, 9)]"

fun is_unspecified :: "ip \<Rightarrow> bool" where
  "is_unspecified (IPv4 a) \<longleftrightarrow> a = 0"
| "is_unspecified (IPv6 a) \<longleftrightarrow> a = 0"

text \<open>IPv4-mapped, 6to4 and Teredo addresses and the two NAT64 networks.\<close>

fun is_transition :: "ip \<Rightarrow> bool" where
  "is_transition (IPv4 a) = False"
| "is_transition (IPv6 a) \<longleftrightarrow> drop_bit 32 a = 0xFFFF \<or> drop_bit 112 a = 0x2002 \<or> drop_bit 96 a = 0x20010000
     \<or> in_net6 (push_bit 96 0x64FF9B) 96 a \<or> in_net6 (push_bit 80 0x64FF9B0001) 48 a"

definition public_ip :: "address_library \<Rightarrow> ip \<Rightarrow> bool" where
  "public_ip al a \<longleftrightarrow> al_global al a \<and> \<not> is_multicast a \<and> \<not> is_reserved a \<and> \<not> is_unspecified a"

definition public_address :: "address_library \<Rightarrow> string \<Rightarrow> exn + string" where
  "public_address al v =
     (case al_parse al v of
        None \<Rightarrow> Inl (UnsafeURL ''dns_non_ip_result'')
      | Some a \<Rightarrow>
          if \<not> public_ip al a \<or> CHR ''%'' \<in> set v then Inl (UnsafeURL ''non_public_address'')
          else if is_transition a then Inl (UnsafeURL ''transition_address'')
          else Inr (al_show al a))"

fun public_addresses :: "address_library \<Rightarrow> string list \<Rightarrow> exn + string list" where
  "public_addresses al [] = Inr []"
| "public_addresses al (v # vs) =
     (case public_address al v of
        Inl e \<Rightarrow> Inl e
      | Inr a \<Rightarrow> (case public_addresses al vs of Inl e \<Rightarrow> Inl e | Inr as \<Rightarrow> Inr (a # as)))"

section \<open>URLs\<close>

definition rstrip_dots :: "string \<Rightarrow> string" where
  "rstrip_dots s = rev (dropWhile ((=) CHR ''.'') (rev s))"

definition suffix_of :: "string \<Rightarrow> string \<Rightarrow> bool" where
  "suffix_of t s \<longleftrightarrow> length t \<le> length s \<and> drop (length s - length t) s = t"

definition local_host :: "string \<Rightarrow> bool" where
  "local_host h \<longleftrightarrow> CHR ''%'' \<in> set h \<or> h = ''localhost''
     \<or> suffix_of ''.localhost'' h \<or> suffix_of ''.local'' h \<or> suffix_of ''.internal'' h"

text \<open>The numeric forms some resolvers read as addresses: decimal or hexadecimal labels only.\<close>

fun labels :: "string \<Rightarrow> string \<Rightarrow> string list" where
  "labels acc [] = [rev acc]"
| "labels acc (c # cs) = (if c = CHR ''.'' then rev acc # labels [] cs else labels (c # acc) cs)"

definition decimal_char :: "char \<Rightarrow> bool" where
  "decimal_char c \<longleftrightarrow> 48 \<le> (of_char c :: nat) \<and> (of_char c :: nat) \<le> 57"

definition hexadecimal_char :: "char \<Rightarrow> bool" where
  "hexadecimal_char c \<longleftrightarrow> decimal_char c \<or> (65 \<le> (of_char c :: nat) \<and> (of_char c :: nat) \<le> 70)
     \<or> (97 \<le> (of_char c :: nat) \<and> (of_char c :: nat) \<le> 102)"

definition numeric_label :: "string \<Rightarrow> bool" where
  "numeric_label s \<longleftrightarrow> (s \<noteq> [] \<and> list_all decimal_char s)
     \<or> (2 < length s \<and> hd s = CHR ''0'' \<and> s ! 1 \<in> {CHR ''x'', CHR ''X''} \<and> list_all hexadecimal_char (drop 2 s))"

definition ambiguous_numeric :: "string \<Rightarrow> bool" where
  "ambiguous_numeric h \<longleftrightarrow> list_all numeric_label (labels [] h)"

definition bad_url_char :: "char \<Rightarrow> bool" where
  "bad_url_char c \<longleftrightarrow> (of_char c :: nat) \<le> 32 \<or> (of_char c :: nat) = 127"

definition host_ok :: "address_library \<Rightarrow> string \<Rightarrow> exn + unit" where
  "host_ok al host =
     (case al_parse al host of
        None \<Rightarrow> if ambiguous_numeric host then Inl (UnsafeURL ''ambiguous_numeric_address'') else Inr ()
      | Some _ \<Rightarrow> (case public_address al host of Inl e \<Rightarrow> Inl e | Inr _ \<Rightarrow> Inr ()))"

definition validate_public_url :: "url_library \<Rightarrow> address_library \<Rightarrow> string \<Rightarrow> exn + string \<times> string \<times> nat" where
  "validate_public_url u al url =
     (if 8192 < length url \<or> list_ex bad_url_char url then Inl (UnsafeURL ''invalid_url'')
      else if CHR 0x5C \<in> set url then Inl (UnsafeURL ''ambiguous_url'')
      else case ur_split u url of
        None \<Rightarrow> Inl (UnsafeURL ''invalid_url'')
      | Some p \<Rightarrow>
          if \<not> web_scheme (up_scheme p) \<or> \<not> present (up_hostname p) then Inl (UnsafeURL ''non_http_url'')
          else if up_username p \<noteq> None \<or> up_password p \<noteq> None then Inl (UnsafeURL ''url_credentials'')
          else
            let h = rstrip_dots (ur_lower u (the (up_hostname p))) in
            if local_host h then Inl (UnsafeURL ''non_public_hostname'')
            else (case al_idna al h of
                    None \<Rightarrow> Inl (UnsafeURL ''invalid_url'')
                  | Some host \<Rightarrow>
                      (case up_port p of
                         None \<Rightarrow> Inl (UnsafeURL ''invalid_url'')
                       | Some given \<Rightarrow>
                           let port = (case given of Some n \<Rightarrow> if n = 0 then None else Some n | None \<Rightarrow> None);
                               n = or_else port (if up_scheme p = ''https'' then 443 else 80)
                           in if \<not> (1 \<le> n \<and> n \<le> 65535) then Inl (UnsafeURL ''invalid_port'')
                              else (case host_ok al host of
                                      Inl e \<Rightarrow> Inl e
                                    | Inr _ \<Rightarrow> Inr (al_defrag al url, host, n)))))"

section \<open>The pinned connection\<close>

text \<open>\<open>_PinnedResolver.resolve\<close>: the answers for the pinned host and port, \<open>family\<close> is \<open>None\<close> for any.\<close>

record pinned =
  pi_host :: string
  pi_port :: nat
  pi_addresses :: "string list"

definition new_pinned :: "address_library \<Rightarrow> string \<Rightarrow> nat \<Rightarrow> string list \<Rightarrow> exn + pinned" where
  "new_pinned al host port addresses =
     (case public_addresses al addresses of
        Inl e \<Rightarrow> Inl e
      | Inr as \<Rightarrow> Inr \<lparr> pi_host = host, pi_port = port, pi_addresses = as \<rparr>)"

definition six :: "string \<Rightarrow> bool" where
  "six a \<longleftrightarrow> CHR '':'' \<in> set a"

definition pinned_resolve :: "url_library \<Rightarrow> pinned \<Rightarrow> string \<Rightarrow> nat \<Rightarrow> bool option \<Rightarrow> exn + (string \<times> bool) list" where
  "pinned_resolve u r host port family =
     (if rstrip_dots (ur_lower u host) \<noteq> pi_host r \<or> port \<noteq> pi_port r then Inl (UnsafeURL ''unpinned_dns_request'')
      else Inr (map (\<lambda>a. (a, six a)) (filter (\<lambda>a. family = None \<or> family = Some (six a)) (pi_addresses r))))"

text \<open>An exchange: refused, or a status, the headers by their names in lower case, the chunks of the body
  as they come, and the exception that cuts the body off, if any.\<close>

datatype exchange = Refused exn | Answer nat "(string \<times> string) list" "byte_string list" "exn option"

record fetch_env =
  fv_clock :: clock
  fv_urls :: url_library
  fv_addresses :: address_library
  fv_resolve :: "nat \<Rightarrow> string \<Rightarrow> nat \<Rightarrow> exn + string list"
  fv_net :: "nat \<Rightarrow> string \<Rightarrow> pinned \<Rightarrow> exchange"
  fv_inflate :: "bool \<Rightarrow> byte_string list \<Rightarrow> (byte_string \<times> byte_string \<times> bool) option"
  fv_inflated :: "bool \<Rightarrow> byte_string list \<Rightarrow> bool"
  fv_parser :: "byte_string \<Rightarrow> string \<Rightarrow> source_kind \<Rightarrow> string \<Rightarrow> nat \<Rightarrow> turn"
  fv_hook :: "source \<Rightarrow> byte_string \<Rightarrow> source_kind \<Rightarrow> string option"

text \<open>\<open>AioHTTPTransport.request\<close>: the URL and the addresses are checked again before the connection.\<close>

definition transport_request :: "fetch_env \<Rightarrow> nat \<Rightarrow> string \<Rightarrow> string list \<Rightarrow> exchange" where
  "transport_request env i url addresses =
     (case validate_public_url (fv_urls env) (fv_addresses env) url of
        Inl e \<Rightarrow> Refused e
      | Inr (_, host, port) \<Rightarrow>
          (case new_pinned (fv_addresses env) host port addresses of
             Inl e \<Rightarrow> Refused e
           | Inr r \<Rightarrow> fv_net env i url r))"

section \<open>Bodies\<close>

definition header :: "string \<Rightarrow> (string \<times> string) list \<Rightarrow> string option" where
  "header k hs = map_of hs k"

definition strip_chars :: "string \<Rightarrow> string" where
  "strip_chars s = rev (dropWhile (\<lambda>c. py_space (of_char c)) (rev (dropWhile (\<lambda>c. py_space (of_char c)) s)))"

text \<open>The inner loop of \<open>_decoded_chunks\<close>: \<open>z\<close> answers to the inputs fed so far with the output, the
  unconsumed rest and whether data follow the end of the stream; \<open>None\<close> is a \<open>zlib.error\<close>.\<close>

partial_function (option) inflate ::
  "(byte_string list \<Rightarrow> (byte_string \<times> byte_string \<times> bool) option) \<Rightarrow> byte_string list \<Rightarrow> byte_string
   \<Rightarrow> (byte_string list \<times> (exn + byte_string list)) option" where
  "inflate z fed pending =
     (if pending = [] then Some ([], Inr fed)
      else case z (fed @ [pending]) of
        None \<Rightarrow> Some ([], Inl (InvalidEncoding ''invalid_compressed_body''))
      | Some r \<Rightarrow>
          let out = (if fst r = [] then [] else [fst r]) in
          if snd (snd r) then Some (out, Inl (InvalidEncoding ''multiple_compressed_streams''))
          else Option.bind (inflate z (fed @ [pending]) (fst (snd r))) (\<lambda>q. Some (out @ fst q, snd q)))"

text \<open>The chunks \<open>_decoded_chunks\<close> yields, and the exception it ends with.\<close>

fun plain_chunks :: "int \<Rightarrow> byte_string list \<Rightarrow> exn option \<Rightarrow> int \<Rightarrow> byte_string list \<times> exn option" where
  "plain_chunks bound [] ending wire = ([], ending)"
| "plain_chunks bound (c # cs) ending wire =
     (if bound < wire + int (length c) then ([], Some (DocumentLimit ''wire_bytes''))
      else (let (out, e) = plain_chunks bound cs ending (wire + int (length c)) in (c # out, e)))"

fun inflated_chunks ::
  "(byte_string list \<Rightarrow> (byte_string \<times> byte_string \<times> bool) option) \<Rightarrow> (byte_string list \<Rightarrow> bool) \<Rightarrow> int
   \<Rightarrow> byte_string list \<Rightarrow> exn option \<Rightarrow> int \<Rightarrow> byte_string list \<Rightarrow> (byte_string list \<times> exn option) option" where
  "inflated_chunks z eof bound [] ending wire fed =
     Some ([], case ending of Some e \<Rightarrow> Some e
               | None \<Rightarrow> if eof fed then None else Some (InvalidEncoding ''incomplete_compressed_body''))"
| "inflated_chunks z eof bound (c # cs) ending wire fed =
     (if bound < wire + int (length c) then Some ([], Some (DocumentLimit ''wire_bytes''))
      else case inflate z fed c of
        None \<Rightarrow> None
      | Some (out, Inl e) \<Rightarrow> Some (out, Some e)
      | Some (out, Inr fed') \<Rightarrow>
          map_option (\<lambda>(more, e). (out @ more, e)) (inflated_chunks z eof bound cs ending (wire + int (length c)) fed'))"

definition decoded_chunks ::
  "fetch_env \<Rightarrow> (string \<times> string) list \<Rightarrow> byte_string list \<Rightarrow> exn option \<Rightarrow> int \<Rightarrow> (byte_string list \<times> exn option) option" where
  "decoded_chunks env hs pieces ending bound =
     (let enc = ur_lower (fv_urls env) (strip_chars (or_else (header ''content-encoding'' hs) ''identity'')) in
      if enc \<notin> {''identity'', [], ''gzip'', ''deflate''} then Some ([], Some (InvalidEncoding ''unsupported_content_encoding''))
      else if enc \<in> {''gzip'', ''deflate''} then
        inflated_chunks (fv_inflate env (enc = ''gzip'')) (fv_inflated env (enc = ''gzip'')) bound pieces ending 0 []
      else Some (plain_chunks bound pieces ending 0))"

section \<open>What a body is\<close>

definition byte_lower :: "nat \<Rightarrow> nat" where
  "byte_lower b = (if 65 \<le> b \<and> b \<le> 90 then b + 32 else b)"

definition byte_space :: "nat \<Rightarrow> bool" where
  "byte_space b \<longleftrightarrow> b = 32 \<or> (9 \<le> b \<and> b \<le> 13)"

definition tag_ends :: "byte_string \<Rightarrow> bool" where
  "tag_ends b \<longleftrightarrow> b \<noteq> [] \<and> (byte_space (hd b) \<or> hd b = 62)"

definition after :: "string \<Rightarrow> byte_string \<Rightarrow> byte_string option" where
  "after w b = (if map byte_lower (take (length w) b) = ascii w then Some (drop (length w) b) else None)"

text \<open>What may follow \<open><\<close>: a document type, or one of the tags.\<close>

definition html_tag :: "byte_string \<Rightarrow> bool" where
  "html_tag b \<longleftrightarrow>
     (case after ''!doctype'' b of
        None \<Rightarrow> False
      | Some r \<Rightarrow> r \<noteq> [] \<and> byte_space (hd r)
          \<and> (case after ''html'' (dropWhile byte_space r) of None \<Rightarrow> False | Some q \<Rightarrow> tag_ends q))
     \<or> list_ex (\<lambda>w. case after w b of None \<Rightarrow> False | Some r \<Rightarrow> tag_ends r)
         [''html'', ''head'', ''body'', ''article'', ''main'', ''p'']"

definition html_like :: "byte_string \<Rightarrow> bool" where
  "html_like b \<longleftrightarrow> list_ex (\<lambda>i. b ! i = 60 \<and> html_tag (drop (Suc i) b)) [0 ..< length b]"

datatype document_kind = Pdf | Html | InvalidKind | UnknownKind

definition PDF_NOTE :: utext where
  "PDF_NOTE = [80, 68, 70, 32, 109, 97, 103, 105, 99, 12392, 67, 111, 110, 116, 101, 110, 116, 45, 84, 121, 112, 101,
     12364, 19968, 33268, 12375, 12394, 12356, 65294]"

definition HTML_NOTE :: utext where
  "HTML_NOTE = [80, 68, 70, 12391, 12399, 12394, 12367, 72, 84, 77, 76, 24540, 31572, 12434, 25277, 20986, 12375,
     12383, 65294]"

text \<open>The kind and a note on it; for the two kinds that are refused the error takes the place of the note.\<close>

definition identify_document :: "string \<Rightarrow> byte_string \<Rightarrow> document_kind \<times> utext option" where
  "identify_document media prefix =
     (let stripped = dropWhile (\<lambda>b. b \<in> {239, 187, 191, 0, 9, 10, 13, 32}) prefix in
      if take 5 stripped = ascii ''%PDF-'' then (Pdf, if media = ''application/pdf'' then None else Some PDF_NOTE)
      else if html_like (take 1024 stripped) \<or> media \<in> {''text/html'', ''application/xhtml+xml''}
      then (Html, if media = ''application/pdf'' then Some HTML_NOTE else None)
      else if media = ''application/pdf'' then (InvalidKind, Some (ascii ''pdf_magic_missing''))
      else (UnknownKind, Some (ascii ''unsupported_media_type'')))"

section \<open>Fetching\<close>

text \<open>The state of one \<open>fetch\<close>: the shared budget, the source it fills in, the requests handed to the
  transport, the bodies handed on, and the names of the failures of the document hook.\<close>

record fetching =
  fg_budget :: budget
  fg_source :: source
  fg_requests :: "(string \<times> string list) list"
  fg_bodies :: "(byte_string \<times> source_kind) list"
  fg_hook_errors :: "string list"

definition set_source :: "(source \<Rightarrow> source) \<Rightarrow> fetching \<Rightarrow> fetching" where
  "set_source f s = s\<lparr> fg_source := f (fg_source s) \<rparr>"

definition fails :: "source_status \<Rightarrow> string \<Rightarrow> source \<Rightarrow> source" where
  "fails st err so = so\<lparr> so_status := st, so_error := Some err \<rparr>"

definition body_bound :: "limits \<Rightarrow> document_kind \<Rightarrow> int" where
  "body_bound l k = (if k = Pdf then pdf_bytes l else html_bytes l)"

text \<open>Reading the decoded chunks: each is counted and paid for before it is kept.\<close>

fun take_body :: "fetch_env \<Rightarrow> string \<Rightarrow> byte_string list \<Rightarrow> exn option \<Rightarrow> byte_string \<Rightarrow> (byte_string, fetching) run" where
  "take_body env media [] ending body s = (case ending of Some e \<Rightarrow> (Inl e, s) | None \<Rightarrow> (Inr body, s))"
| "take_body env media (c # cs) ending body s =
     (let s1 = set_source (\<lambda>so. so\<lparr> so_bytes_received := so_bytes_received so + int (length c) \<rparr>) s in
      case take_budget (fv_clock env) CacheBytes (int (length c)) (fg_budget s1) of
        (Inl e, b) \<Rightarrow> (Inl e, s1\<lparr> fg_budget := b \<rparr>)
      | (Inr _, b) \<Rightarrow>
          let kind = fst (identify_document media (take 1024 (body @ c))) in
          if body_bound (b_limits b) kind < int (length (body @ c))
          then (Inl (DocumentLimit (if kind = Pdf then ''pdf_bytes'' else ''html_bytes'')), s1\<lparr> fg_budget := b \<rparr>)
          else take_body env media cs ending (body @ c) (s1\<lparr> fg_budget := b \<rparr>))"

text \<open>The length of the UTF-8 encoding; a surrogate has none.\<close>

fun utf8_length :: "utext \<Rightarrow> nat option" where
  "utf8_length [] = Some 0"
| "utf8_length (c # cs) =
     (if 0xD800 \<le> c \<and> c \<le> 0xDFFF then None
      else map_option ((+) (if c < 0x80 then 1 else if c < 0x800 then 2 else if c < 0x10000 then 3 else 4)) (utf8_length cs))"

fun passages_bytes :: "passage list \<Rightarrow> nat option" where
  "passages_bytes [] = Some 0"
| "passages_bytes (p # ps) =
     (case utf8_length (pa_text p) of None \<Rightarrow> None | Some n \<Rightarrow> map_option ((+) n) (passages_bytes ps))"

text \<open>After the body: the parser runs, its text is paid for, and its result is merged into the source.\<close>

definition extract_body ::
  "fetch_env \<Rightarrow> string \<Rightarrow> source_kind \<Rightarrow> byte_string \<Rightarrow> fetching \<Rightarrow> ((exn + unit) \<times> fetching) option" where
  "extract_body env url kind body s =
     (let (left, b) = remaining_seconds (fv_clock env) (fg_budget s);
          s1 = s\<lparr> fg_budget := b, fg_bodies := fg_bodies s @ [(body, kind)] \<rparr>
      in map_option (\<lambda>p.
           case passages_bytes (or_else (pd_passages p) []) of
             None \<Rightarrow> (Inl (OtherError ''UnicodeEncodeError''), s1)
           | Some n \<Rightarrow>
               (case take_budget (fv_clock env) CacheBytes (int n) (fg_budget s1) of
                  (Inl e, b') \<Rightarrow> (Inr (), set_source (fails SLimit ''cache_bytes'') (s1\<lparr> fg_budget := b' \<rparr>))
                | (Inr _, b') \<Rightarrow>
                    (Inr (), set_source (\<lambda>so. let m = merge_parsed p so in m\<lparr> so_limitations := so_limitations so @ so_limitations m \<rparr>)
                       (s1\<lparr> fg_budget := b' \<rparr>))))
         (extract_document (b_limits b) (Some left) (fv_parser env body url kind (so_source_id (fg_source s)))))"

definition call_hook :: "fetch_env \<Rightarrow> byte_string \<Rightarrow> source_kind \<Rightarrow> fetching \<Rightarrow> fetching" where
  "call_hook env body kind s =
     (case fv_hook env (fg_source s) body kind of
        None \<Rightarrow> s
      | Some name \<Rightarrow> s\<lparr> fg_hook_errors := fg_hook_errors s @ [so_source_id (fg_source s) @ '':'' @ name] \<rparr>)"

definition media_type :: "fetch_env \<Rightarrow> (string \<times> string) list \<Rightarrow> string" where
  "media_type env hs =
     ur_lower (fv_urls env) (strip_chars (takeWhile (\<lambda>c. c \<noteq> CHR '';'') (or_else (header ''content-type'' hs) [])))"

definition read_document ::
  "fetch_env \<Rightarrow> string \<Rightarrow> (string \<times> string) list \<Rightarrow> byte_string list \<Rightarrow> exn option \<Rightarrow> fetching
   \<Rightarrow> ((exn + unit) \<times> fetching) option" where
  "read_document env url hs pieces ending s0 =
     (let l = b_limits (fg_budget s0); media = media_type env hs;
          s = set_source (\<lambda>so. so\<lparr> so_media_type := Some media \<rparr>) s0
      in case decoded_chunks env hs pieces ending (max (html_bytes l) (pdf_bytes l)) of
           None \<Rightarrow> None
         | Some (out, e) \<Rightarrow>
             (case take_body env media out e [] s of
                (Inl e, s1) \<Rightarrow> Some (Inl e, s1)
              | (Inr body, s1) \<Rightarrow>
                  (case identify_document media (take 1024 body) of
                     (InvalidKind, n) \<Rightarrow> Some (Inr (), set_source (fails SInvalid ''pdf_magic_missing'') s1)
                   | (UnknownKind, n) \<Rightarrow> Some (Inr (), set_source (fails SUnsupported ''unsupported_media_type'') s1)
                   | (k, n) \<Rightarrow>
                       let kind = (if k = Pdf then KPdf else KHtml);
                           s2 = set_source (\<lambda>so. so\<lparr> so_kind := kind,
                                  so_limitations := so_limitations so @ (case n of None \<Rightarrow> [] | Some t \<Rightarrow> [t]) \<rparr>) s1
                       in extract_body env url kind body (call_hook env body kind s2))))"

text \<open>One iteration for each request that is still allowed.\<close>

fun fetch_hops :: "fetch_env \<Rightarrow> nat \<Rightarrow> string \<Rightarrow> fetching \<Rightarrow> ((exn + unit) \<times> fetching) option" where
  "fetch_hops env 0 url s = Some (Inl (DocumentLimit ''max_redirects''), s)"
| "fetch_hops env (Suc left) url0 s =
     (case validate_public_url (fv_urls env) (fv_addresses env) url0 of
        Inl e \<Rightarrow> Some (Inl e, s)
      | Inr (url, host, port) \<Rightarrow>
          let s1 = s\<lparr> fg_budget := snd (remaining_seconds (fv_clock env) (fg_budget s)) \<rparr>; i = length (fg_requests s)
          in (case fv_resolve env i host port of
                Inl e \<Rightarrow> Some (Inl e, s1)
              | Inr values \<Rightarrow>
                  (case public_addresses (fv_addresses env) values of
                     Inl e \<Rightarrow> Some (Inl e, s1)
                   | Inr addresses \<Rightarrow>
                       if addresses = [] then Some (Inl (UnsafeURL ''dns_empty_result''), s1)
                       else (case take_budget (fv_clock env) FetchRequests 1 (fg_budget s1) of
                          (Inl e, b) \<Rightarrow> Some (Inl e, s1\<lparr> fg_budget := b \<rparr>)
                        | (Inr _, b) \<Rightarrow>
                            let s2 = s1\<lparr> fg_budget := b, fg_requests := fg_requests s1 @ [(url, addresses)] \<rparr>
                            in (case transport_request env i url addresses of
                                  Refused e \<Rightarrow> Some (Inl e, s2)
                                | Answer status hs pieces ending \<Rightarrow>
                                    let s3 = set_source (\<lambda>so. so\<lparr> so_final_url := Some url, so_http_status := Some status \<rparr>) s2
                                    in if status \<in> {301, 302, 303, 307, 308} then
                                         (case header ''location'' hs of
                                            None \<Rightarrow> Some (Inr (), set_source (fails SHttpError ''redirect_without_location'') s3)
                                          | Some loc \<Rightarrow>
                                              if loc = [] then
                                                Some (Inr (), set_source (fails SHttpError ''redirect_without_location'') s3)
                                              else if left = 0 then Some (Inl (DocumentLimit ''max_redirects''), s3)
                                              else (case al_join (fv_addresses env) url loc of
                                                      None \<Rightarrow> Some (Inl (OtherError ''ValueError''), s3)
                                                    | Some next \<Rightarrow> fetch_hops env left next s3))
                                       else if \<not> (200 \<le> status \<and> status < 300) then
                                         Some (Inr (), set_source (fails SHttpError (''http_'' @ dec status)) s3)
                                       else read_document env url hs pieces ending s3)))))"

text \<open>What \<open>fetch\<close> makes of an exception; \<open>None\<close> is one it lets through.\<close>

fun fetch_failure :: "exn \<Rightarrow> (source_status \<times> string) option" where
  "fetch_failure (UnsafeURL m) = Some (SBlocked, m)"
| "fetch_failure (BudgetExceeded m) = Some (SLimit, m)"
| "fetch_failure (DocumentLimit m) = Some (SLimit, m)"
| "fetch_failure (InvalidEncoding m) = Some (SInvalid, m)"
| "fetch_failure FetchTimeout = Some (STimeout, ''fetch_timeout'')"
| "fetch_failure (ConnectionError name) = Some (SNetworkError, name)"
| "fetch_failure _ = None"

definition requested_source :: "candidate \<Rightarrow> string \<Rightarrow> string \<Rightarrow> source" where
  "requested_source c sid now = (new_source sid (c_url c) now)
     \<lparr> so_title := c_title c, so_supplied := c_supplied c,
       so_query_ids := (if c_query_id c = [] then [] else [c_query_id c]),
       so_engines := (if c_engine c = [] then [] else [c_engine c]) \<rparr>"

definition fetch :: "fetch_env \<Rightarrow> candidate \<Rightarrow> string \<Rightarrow> string \<Rightarrow> budget \<Rightarrow> ((exn + source) \<times> fetching) option" where
  "fetch env c sid now b =
     (let s = \<lparr> fg_budget = snd (remaining_seconds (fv_clock env) b), fg_source = requested_source c sid now,
                fg_requests = [], fg_bodies = [], fg_hook_errors = [] \<rparr>
      in map_option (\<lambda>(r, s'). case r of
             Inr _ \<Rightarrow> (Inr (fg_source s'), s')
           | Inl e \<Rightarrow> (case fetch_failure e of
                 None \<Rightarrow> (Inl e, s')
               | Some (st, err) \<Rightarrow> let s'' = set_source (fails st err) s' in (Inr (fg_source s''), s'')))
         (fetch_hops env (nat (max_redirects (b_limits b)) + 1) (c_url c) s))"

section \<open>Frames\<close>

lemma set_source_frame [simp]:
  "fg_budget (set_source f s) = fg_budget s" "fg_requests (set_source f s) = fg_requests s"
  "fg_bodies (set_source f s) = fg_bodies s" "fg_source (set_source f s) = f (fg_source s)"
  "fg_hook_errors (set_source f s) = fg_hook_errors s"
  by (simp_all add: set_source_def)

lemma call_hook_frame [simp]:
  "fg_budget (call_hook env body k s) = fg_budget s" "fg_requests (call_hook env body k s) = fg_requests s"
  "fg_bodies (call_hook env body k s) = fg_bodies s" "fg_source (call_hook env body k s) = fg_source s"
  by (simp_all add: call_hook_def split: option.split)

text \<open>What reading a body and parsing it leave alone.\<close>

definition body_ok :: "limits \<Rightarrow> byte_string \<times> source_kind \<Rightarrow> bool" where
  "body_ok l bk \<longleftrightarrow> int (length (fst bk)) \<le> max 0 (if snd bk = KPdf then pdf_bytes l else html_bytes l)"

definition same_hops :: "fetching \<Rightarrow> fetching \<Rightarrow> bool" where
  "same_hops s t \<longleftrightarrow> fg_requests t = fg_requests s \<and> spends (fg_budget s) (fg_budget t)
     \<and> (\<forall>bk \<in> set (fg_bodies t). bk \<in> set (fg_bodies s) \<or> body_ok (b_limits (fg_budget s)) bk)
     \<and> b_counts (fg_budget t) FetchRequests = b_counts (fg_budget s) FetchRequests
     \<and> so_source_id (fg_source t) = so_source_id (fg_source s)"

lemma same_hops_refl [simp]: "same_hops s s"
  by (simp add: same_hops_def)

lemma same_hops_trans: "same_hops s t \<Longrightarrow> same_hops t u \<Longrightarrow> same_hops s u"
  unfolding same_hops_def by (metis spends_def spends_trans)

lemma take_other_category:
  "c \<noteq> d \<Longrightarrow> b_counts (snd (take_budget clk c n b)) d = b_counts b d"
  by (cases rule: take_budget_cases [of clk c n b]) simp_all

lemma take_limits [simp]: "b_limits (snd (take_budget clk c n b)) = b_limits b"
  by (cases rule: take_budget_cases [of clk c n b]) simp_all

lemma remaining_frame [simp]:
  "b_limits (snd (remaining_seconds clk b)) = b_limits b" "b_counts (snd (remaining_seconds clk b)) = b_counts b"
  by (simp_all add: remaining_seconds_def)

lemma take_body_same: "same_hops s (snd (take_body env media cs ending body s))"
proof (induction cs arbitrary: body s)
  case Nil
  then show ?case by (cases ending) simp_all
next
  case (Cons c cs)
  let ?s1 = "set_source (\<lambda>so. so\<lparr> so_bytes_received := so_bytes_received so + int (length c) \<rparr>) s"
  let ?b = "snd (take_budget (fv_clock env) CacheBytes (int (length c)) (fg_budget s))"
  have step: "same_hops s (?s1\<lparr> fg_budget := ?b \<rparr>)"
    by (simp add: same_hops_def take_spends take_other_category) 
  show ?case
    using step same_hops_trans [OF step Cons.IH]
    by (cases "take_budget (fv_clock env) CacheBytes (int (length c)) (fg_budget s)")
      (auto simp: Let_def split: sum.split)
qed

lemma take_body_bound:
  "fst (take_body env media cs ending body0 s) = Inr body \<Longrightarrow> b_limits (fg_budget s) = l \<Longrightarrow>
   body = body0 \<or> int (length body) \<le> body_bound l (fst (identify_document media (take 1024 body)))"
proof (induction cs arbitrary: body0 s)
  case Nil
  then show ?case by (cases ending) simp_all
next
  case (Cons c cs)
  let ?s1 = "set_source (\<lambda>so. so\<lparr> so_bytes_received := so_bytes_received so + int (length c) \<rparr>) s"
  let ?t = "take_budget (fv_clock env) CacheBytes (int (length c)) (fg_budget s)"
  have l: "b_limits (snd ?t) = l" using Cons.prems by simp
  from Cons.prems have "fst (take_body env media cs ending (body0 @ c) (?s1\<lparr> fg_budget := snd ?t \<rparr>)) = Inr body"
      "int (length (body0 @ c)) \<le> body_bound l (fst (identify_document media (take 1024 (body0 @ c))))"
    using l by (cases ?t; auto simp: Let_def split: sum.splits if_splits)+
  with Cons.IH [OF this(1)] l show ?case by auto
qed

lemma extract_body_same:
  assumes "extract_body env url kind body s = Some (r, t)" "body_ok (b_limits (fg_budget s)) (body, kind)"
  shows "same_hops s t"
proof -
  let ?b = "snd (remaining_seconds (fv_clock env) (fg_budget s))"
  let ?s1 = "s\<lparr> fg_budget := ?b, fg_bodies := fg_bodies s @ [(body, kind)] \<rparr>"
  have s1: "same_hops s ?s1" using assms(2) by (simp add: same_hops_def remaining_spends)
  have paid: "same_hops ?s1 (set_source f (?s1\<lparr> fg_budget := snd (take_budget (fv_clock env) CacheBytes (int n) ?b) \<rparr>))"
    if "\<And>so. so_source_id (f so) = so_source_id so" for f n
    using that by (simp add: same_hops_def take_spends take_other_category)
  have id: "so_source_id (fails st e so) = so_source_id so" "so_source_id (merge_parsed p so) = so_source_id so" for st e so p
    by (simp_all add: fails_def merge_parsed_def)
  obtain p where p: "extract_document (b_limits ?b) (Some (fst (remaining_seconds (fv_clock env) (fg_budget s))))
      (fv_parser env body url kind (so_source_id (fg_source s))) = Some p"
    using assms by (auto simp: extract_body_def Let_def case_prod_beta)
  show ?thesis
  proof (cases "passages_bytes (or_else (pd_passages p) [])")
    case None
    with assms p s1 show ?thesis by (simp add: extract_body_def Let_def case_prod_beta)
  next
    case (Some n)
    let ?t = "take_budget (fv_clock env) CacheBytes (int n) ?b"
    have "\<exists>f. t = set_source f (?s1\<lparr> fg_budget := snd ?t \<rparr>) \<and> (\<forall>so. so_source_id (f so) = so_source_id so)"
    proof (cases "fst ?t")
      case (Inl e)
      with assms p Some have "t = set_source (fails SLimit ''cache_bytes'') (?s1\<lparr> fg_budget := snd ?t \<rparr>)"
        by (auto simp: extract_body_def Let_def case_prod_beta)
      then show ?thesis using id by blast
    next
      case (Inr u)
      with assms p Some have "t = set_source (\<lambda>so. let m = merge_parsed p so
          in m\<lparr> so_limitations := so_limitations so @ so_limitations m \<rparr>) (?s1\<lparr> fg_budget := snd ?t \<rparr>)"
        by (auto simp: extract_body_def Let_def case_prod_beta)
      then show ?thesis using id by (intro exI conjI) (auto simp: Let_def)
    qed
    then show ?thesis using same_hops_trans [OF s1 paid] by blast
  qed
qed

lemma read_document_same:
  assumes "read_document env url hs pieces ending s = Some (r, t)"
  shows "same_hops s t"
proof -
  define media where "media = media_type env hs"
  define s0 where "s0 = set_source (\<lambda>so. so\<lparr> so_media_type := Some media \<rparr>) s"
  have s0: "same_hops s s0" by (simp add: s0_def same_hops_def)
  obtain out e where d: "decoded_chunks env hs pieces ending
      (max (html_bytes (b_limits (fg_budget s))) (pdf_bytes (b_limits (fg_budget s)))) = Some (out, e)"
    using assms by (auto simp: read_document_def Let_def split: option.splits)
  define s1 where "s1 = snd (take_body env media out e [] s0)"
  have s1: "same_hops s s1"
    using same_hops_trans [OF s0 take_body_same] by (simp add: s1_def)
  have s2: "same_hops s (call_hook env body k (set_source f s1))" if "\<And>so. so_source_id (f so) = so_source_id so" for body k f
    using s1 that by (simp add: same_hops_def)
  have s3: "same_hops s (set_source (fails st err) s1)" for st err
    using s1 by (simp add: same_hops_def fails_def)
  show ?thesis
  proof (cases "fst (take_body env media out e [] s0)")
    case (Inl e')
    with assms d s1 show ?thesis
      by (auto simp: read_document_def Let_def case_prod_beta media_def [symmetric] s0_def [symmetric] s1_def)
  next
    case (Inr body)
    show ?thesis
    proof (cases "fst (identify_document media (take 1024 body)) \<in> {InvalidKind, UnknownKind}")
      case True
      with assms d Inr s3 show ?thesis
        by (cases "identify_document media (take 1024 body)")
          (auto simp: read_document_def Let_def case_prod_beta media_def [symmetric] s0_def [symmetric] s1_def)
    next
      case False
      then obtain k n where k: "identify_document media (take 1024 body) = (k, n)" "k = Pdf \<or> k = Html"
        by (cases "identify_document media (take 1024 body)"; cases "fst (identify_document media (take 1024 body))") auto
      define kind where "kind = (if k = Pdf then KPdf else KHtml)"
      define f where "f = (\<lambda>so :: source. so\<lparr> so_kind := kind,
          so_limitations := so_limitations so @ (case n of None \<Rightarrow> [] | Some t \<Rightarrow> [t]) \<rparr>)"
      have "extract_body env url kind body (call_hook env body kind (set_source f s1)) = Some (r, t)"
        using assms d Inr k
        by (auto simp: read_document_def Let_def case_prod_beta media_def [symmetric] s0_def [symmetric] s1_def kind_def f_def)
      moreover have "body_ok (b_limits (fg_budget s1)) (body, kind)"
        using take_body_bound [OF Inr refl] s1 k
        by (auto simp: body_ok_def body_bound_def kind_def s0_def same_hops_def spends_def)
      ultimately have "same_hops (call_hook env body kind (set_source f s1)) t"
        using extract_body_same by simp
      moreover have "same_hops s (call_hook env body kind (set_source f s1))" by (rule s2) (simp add: f_def)
      ultimately show ?thesis by (metis same_hops_trans)
    qed
  qed
qed

section \<open>Only public addresses\<close>

definition public_text :: "address_library \<Rightarrow> string \<Rightarrow> bool" where
  "public_text al a \<longleftrightarrow> (\<exists>ip. public_ip al ip \<and> \<not> is_transition ip \<and> a = al_show al ip)"

definition request_ok :: "fetch_env \<Rightarrow> string \<times> string list \<Rightarrow> bool" where
  "request_ok env rq \<longleftrightarrow>
     (\<exists>given host port. validate_public_url (fv_urls env) (fv_addresses env) given = Inr (fst rq, host, port))
     \<and> snd rq \<noteq> [] \<and> (\<forall>a \<in> set (snd rq). public_text (fv_addresses env) a)"

lemma public_address_text: "public_address al v = Inr a \<Longrightarrow> public_text al a"
  by (auto simp: public_address_def public_text_def split: option.splits if_splits)

lemma public_addresses_text: "public_addresses al vs = Inr as \<Longrightarrow> a \<in> set as \<Longrightarrow> public_text al a"
  by (induction vs arbitrary: as) (auto split: sum.splits dest: public_address_text)

text \<open>\<open>t\<close> comes from \<open>s\<close> by at most \<open>n\<close> requests, each checked and paid for.\<close>

definition hops :: "fetch_env \<Rightarrow> nat \<Rightarrow> fetching \<Rightarrow> fetching \<Rightarrow> bool" where
  "hops env n s t \<longleftrightarrow> spends (fg_budget s) (fg_budget t)
     \<and> (\<forall>bk \<in> set (fg_bodies t). bk \<in> set (fg_bodies s) \<or> body_ok (b_limits (fg_budget s)) bk) \<and> so_source_id (fg_source t) = so_source_id (fg_source s)
     \<and> (\<exists>sent. fg_requests t = fg_requests s @ sent \<and> length sent \<le> n \<and> list_all (request_ok env) sent
        \<and> b_counts (fg_budget t) FetchRequests = b_counts (fg_budget s) FetchRequests + int (length sent))"

lemma hops_same: "same_hops s t \<Longrightarrow> hops env n s t"
  by (auto simp: hops_def same_hops_def)

lemma hops_trans:
  assumes "hops env m s t" "hops env n t u"
  shows "hops env (m + n) s u"
proof -
  have "b_limits (fg_budget t) = b_limits (fg_budget s)" using assms(1) by (simp add: hops_def spends_def)
  with assms show ?thesis unfolding hops_def by (fastforce intro: spends_trans)
qed

lemma hops_more: "hops env m s t \<Longrightarrow> m \<le> n \<Longrightarrow> hops env n s t"
  unfolding hops_def by fastforce

lemma hops_source: "hops env n s t \<Longrightarrow> (\<And>so. so_source_id (f so) = so_source_id so) \<Longrightarrow> hops env n s (set_source f t)"
  by (simp add: hops_def)

lemma fetch_hops_hops: "fetch_hops env left url s = Some (r, t) \<Longrightarrow> hops env left s t"
proof (induction left arbitrary: url s)
  case 0
  then show ?case by (auto intro: hops_same)
next
  case (Suc left)
  define s1 where "s1 = s\<lparr> fg_budget := snd (remaining_seconds (fv_clock env) (fg_budget s)) \<rparr>"
  have s1: "hops env n s s1" for n by (rule hops_same) (simp add: s1_def same_hops_def remaining_spends)
  show ?case
  proof (cases "validate_public_url (fv_urls env) (fv_addresses env) url")
    case (Inl e)
    with Suc.prems show ?thesis by (auto intro: hops_same)
  next
    case (Inr v)
    then obtain url' host port where v: "validate_public_url (fv_urls env) (fv_addresses env) url = Inr (url', host, port)"
      by (cases v) auto
    define i where "i = length (fg_requests s)"
    show ?thesis
    proof (cases "\<exists>values addresses. fv_resolve env i host port = Inr values
        \<and> public_addresses (fv_addresses env) values = Inr addresses \<and> addresses \<noteq> []")
      case False
      with Suc.prems v s1 show ?thesis
        by (auto simp: s1_def [symmetric] i_def [symmetric] Let_def split: sum.splits if_splits)
    next
      case True
      then obtain vals addresses where a: "fv_resolve env i host port = Inr vals"
        "public_addresses (fv_addresses env) vals = Inr addresses" "addresses \<noteq> []" by blast
      show ?thesis
      proof (cases rule: take_budget_cases [of "fv_clock env" FetchRequests 1 "fg_budget s1"])
        case (refused e)
        have "hops env (Suc left) s1 (s1\<lparr> fg_budget := snd (check_time (fv_clock env) (fg_budget s1)) \<rparr>)"
          by (rule hops_same) (simp add: same_hops_def check_spends)
        from hops_trans [OF s1 [of 0] this] Suc.prems v a refused show ?thesis
          by (simp add: s1_def [symmetric] i_def [symmetric] Let_def)
      next
        case taken
        define b where "b = snd (take_budget (fv_clock env) FetchRequests 1 (fg_budget s1))"
        have tk: "take_budget (fv_clock env) FetchRequests 1 (fg_budget s1) = (Inr (), b)"
          using taken(1) by (simp add: b_def)
        define s2 where "s2 = s1\<lparr> fg_budget := b, fg_requests := fg_requests s1 @ [(url', addresses)] \<rparr>"
        have "request_ok env (url', addresses)"
          using v a public_addresses_text [OF a(2)] by (auto simp: request_ok_def)
        then have "hops env 1 s1 s2"
          using take_spends [of 1 "fg_budget s1" "fv_clock env" FetchRequests] taken(1)
          by (auto simp: hops_def s2_def b_def)
        then have s2: "hops env 1 s s2" using hops_trans [OF s1 [of 0]] by simp
        have id: "so_source_id (fails st e so) = so_source_id so" for st e so by (simp add: fails_def)
        define s3 where "s3 = (\<lambda>st. set_source (\<lambda>so :: source. so\<lparr> so_final_url := Some url', so_http_status := Some st \<rparr>) s2)"
        have s3: "hops env 1 s (s3 st)" for st unfolding s3_def by (rule hops_source [OF s2]) simp
        have failed: "hops env (Suc left) s (set_source (fails x e) (s3 st))" for st x e
          by (rule hops_source [OF hops_more [OF s3]]) (simp_all add: id)
        have unfold: "fetch_hops env (Suc left) url s =
          (case transport_request env i url' addresses of
             Refused e \<Rightarrow> Some (Inl e, s2)
           | Answer status hs pieces ending \<Rightarrow>
               if status \<in> {301, 302, 303, 307, 308} then
                 (case header ''location'' hs of
                    None \<Rightarrow> Some (Inr (), set_source (fails SHttpError ''redirect_without_location'') (s3 status))
                  | Some loc \<Rightarrow>
                      if loc = [] then
                        Some (Inr (), set_source (fails SHttpError ''redirect_without_location'') (s3 status))
                      else if left = 0 then Some (Inl (DocumentLimit ''max_redirects''), s3 status)
                      else (case al_join (fv_addresses env) url' loc of
                              None \<Rightarrow> Some (Inl (OtherError ''ValueError''), s3 status)
                            | Some next \<Rightarrow> fetch_hops env left next (s3 status)))
               else if \<not> (200 \<le> status \<and> status < 300) then
                 Some (Inr (), set_source (fails SHttpError (''http_'' @ dec status)) (s3 status))
               else read_document env url' hs pieces ending (s3 status))"
          using v a tk unfolding fetch_hops.simps Let_def s3_def s2_def s1_def [symmetric] i_def [symmetric] by simp
        show ?thesis
        proof (cases "transport_request env i url' addresses")
          case (Refused e)
          with Suc.prems unfold hops_more [OF s2, of "Suc left"] show ?thesis by simp
        next
          case (Answer status hs pieces ending)
          have more: "hops env (Suc left) s (s3 status)" using hops_more [OF s3, of "Suc left"] by simp
          have next_hop: "hops env (Suc left) s t" if "fetch_hops env left u (s3 status) = Some (r, t)" for u
            using hops_trans [OF s3 Suc.IH [OF that]] by simp
          have body: "hops env (Suc left) s t" if "read_document env url' hs pieces ending (s3 status) = Some (r, t)"
            using hops_trans [OF s3 hops_same [OF read_document_same [OF that]], of left] by simp
          from Suc.prems unfold Answer show ?thesis
            using more failed next_hop body by (auto split: if_splits option.splits)
        qed
      qed
    qed
  qed
qed

definition fetch_start :: "fetch_env \<Rightarrow> candidate \<Rightarrow> string \<Rightarrow> string \<Rightarrow> budget \<Rightarrow> fetching" where
  "fetch_start env c sid now b =
     \<lparr> fg_budget = snd (remaining_seconds (fv_clock env) b), fg_source = requested_source c sid now,
       fg_requests = [], fg_bodies = [], fg_hook_errors = [] \<rparr>"

lemma fetch_hops_from_start:
  assumes "fetch env c sid now b = Some (r, s)"
  shows "hops env (nat (max_redirects (b_limits b)) + 1) (fetch_start env c sid now b) s
    \<and> (\<forall>so. r = Inr so \<longrightarrow> so = fg_source s)"
proof -
  let ?s0 = "fetch_start env c sid now b"
  define left where "left = nat (max_redirects (b_limits b)) + 1"
  obtain r0 t where t: "fetch_hops env left (c_url c) ?s0 = Some (r0, t)"
    using assms unfolding fetch_def fetch_start_def [symmetric] left_def [symmetric] by auto
  have "s = t \<or> (\<exists>st err. s = set_source (fails st err) t)" "\<forall>so. r = Inr so \<longrightarrow> so = fg_source s"
    using assms t unfolding fetch_def fetch_start_def [symmetric] left_def [symmetric]
    by (auto simp: Let_def split: sum.splits option.splits)
  moreover have "hops env left ?s0 (set_source (fails st err) t)" for st err
    by (rule hops_source [OF fetch_hops_hops [OF t]]) (simp add: fails_def)
  ultimately show ?thesis using fetch_hops_hops [OF t] unfolding left_def by blast
qed

lemma fetch_start_simps [simp]:
  "fg_requests (fetch_start env c sid now b) = []" "fg_bodies (fetch_start env c sid now b) = []"
  "fg_budget (fetch_start env c sid now b) = snd (remaining_seconds (fv_clock env) b)"
  "so_source_id (fg_source (fetch_start env c sid now b)) = sid"
  by (simp_all add: fetch_start_def requested_source_def new_source_def)

lemma fetch_spends: "fetch env c sid now b = Some (r, s) \<Longrightarrow> spends b (fg_budget s)"
  using fetch_hops_from_start [of env c sid now b r s] remaining_spends [of b "fv_clock env"]
  by (auto simp: hops_def intro: spends_trans)

lemma fetch_source_id: "fetch env c sid now b = Some (Inr so, s) \<Longrightarrow> so_source_id so = sid"
  using fetch_hops_from_start [of env c sid now b "Inr so" s] by (simp add: hops_def)

text \<open>C26. A fetch sends at most one request more than the redirects allowed, each paid from the budget, each to a
  URL that passed the checks, and pinned to addresses that are global, not multicast, reserved or unspecified, and
  not an IPv4 address in disguise.\<close>

theorem fetch_contacts_public_addresses:
  assumes "fetch env c sid now b = Some (r, s)"
  shows "length (fg_requests s) \<le> nat (max_redirects (b_limits b)) + 1
    \<and> b_counts (fg_budget s) FetchRequests = b_counts b FetchRequests + int (length (fg_requests s))
    \<and> (\<forall>rq \<in> set (fg_requests s).
         (\<exists>given host port. validate_public_url (fv_urls env) (fv_addresses env) given = Inr (fst rq, host, port))
         \<and> (\<forall>a \<in> set (snd rq). \<exists>ip. a = al_show (fv_addresses env) ip \<and> al_global (fv_addresses env) ip
              \<and> \<not> is_multicast ip \<and> \<not> is_reserved ip \<and> \<not> is_unspecified ip \<and> \<not> is_transition ip))"
proof -
  have h: "hops env (nat (max_redirects (b_limits b)) + 1) (fetch_start env c sid now b) s"
    using fetch_hops_from_start [OF assms] by blast
  then have ok: "\<forall>rq \<in> set (fg_requests s). request_ok env rq"
    by (auto simp: hops_def list_all_iff)
  have "length (fg_requests s) \<le> nat (max_redirects (b_limits b)) + 1"
    "b_counts (fg_budget s) FetchRequests = b_counts b FetchRequests + int (length (fg_requests s))"
    using h by (auto simp: hops_def)
  moreover have "\<forall>rq \<in> set (fg_requests s).
         (\<exists>given host port. validate_public_url (fv_urls env) (fv_addresses env) given = Inr (fst rq, host, port))
         \<and> (\<forall>a \<in> set (snd rq). \<exists>ip. a = al_show (fv_addresses env) ip \<and> al_global (fv_addresses env) ip
              \<and> \<not> is_multicast ip \<and> \<not> is_reserved ip \<and> \<not> is_unspecified ip \<and> \<not> is_transition ip)"
    using ok unfolding request_ok_def public_text_def public_ip_def by metis
  ultimately show ?thesis by blast
qed

text \<open>A body that reaches the document hook or the parser is within the limit for its kind.\<close>

theorem fetched_bodies_are_bounded:
  assumes "fetch env c sid now b = Some (r, s)" and "(body, kind) \<in> set (fg_bodies s)"
  shows "int (length body) \<le> max 0 (if kind = KPdf then pdf_bytes (b_limits b) else html_bytes (b_limits b))"
  using fetch_hops_from_start [OF assms(1)] assms(2) by (auto simp: hops_def body_ok_def)

section \<open>A fetch ends\<close>

lemma take_limits_eq: "take_budget clk c n b = (r, b') \<Longrightarrow> b_limits b' = b_limits b"
  using take_limits [of clk c n b] by simp

lemma inflated_chunks_end:
  assumes "\<And>fed p. inflate z fed p \<noteq> None"
  shows "inflated_chunks z eof bound cs ending wire fed \<noteq> None"
proof (induction cs arbitrary: wire fed)
  case (Cons c cs)
  then show ?case using assms [of fed c] by (auto split: sum.splits) metis
qed simp

lemma extract_body_ends:
  assumes "\<And>url kind sid body. \<exists>n. parser_seconds (b_limits (fg_budget s)) \<le> tu_elapsed (fv_parser env body url kind sid n)"
  shows "extract_body env url kind body s \<noteq> None"
proof -
  obtain n where "parser_seconds (b_limits (fg_budget s))
      \<le> tu_elapsed (fv_parser env body url kind (so_source_id (fg_source s)) n)" using assms by blast
  then have "\<exists>p. extract_document (b_limits (fg_budget s)) (Some x)
      (fv_parser env body url kind (so_source_id (fg_source s))) = Some p" for x
    using watch_ends [of "b_limits (fg_budget s)" "Some x" _ n] by (fastforce simp: min_le_iff_disj)
  then show ?thesis by (auto simp: extract_body_def Let_def case_prod_beta)
qed

lemma read_document_ends:
  assumes "\<And>g fed p. inflate (fv_inflate env g) fed p \<noteq> None"
    and "\<And>url kind sid body. \<exists>n. parser_seconds (b_limits (fg_budget s)) \<le> tu_elapsed (fv_parser env body url kind sid n)"
  shows "read_document env url hs pieces ending s \<noteq> None"
proof -
  have "decoded_chunks env hs pieces ending bound \<noteq> None" for bound
    using inflated_chunks_end [OF assms(1)] by (auto simp: decoded_chunks_def Let_def)
  then obtain out e where d: "decoded_chunks env hs pieces ending
      (max (html_bytes (b_limits (fg_budget s))) (pdf_bytes (b_limits (fg_budget s)))) = Some (out, e)" by fastforce
  have "extract_body env url kind body (call_hook env body kind (set_source f t)) \<noteq> None"
    if "same_hops s t" for kind body f t
    by (rule extract_body_ends) (use that assms(2) in \<open>simp add: same_hops_def spends_def\<close>)
  moreover have "same_hops s (snd (take_body env m out e [] (set_source (\<lambda>so. so\<lparr> so_media_type := Some m \<rparr>) s)))" for m
    by (rule same_hops_trans [OF _ take_body_same]) (simp add: same_hops_def)
  ultimately show ?thesis using d
    by (fastforce simp: read_document_def Let_def case_prod_beta split: sum.split document_kind.split)
qed

lemma fetch_hops_end:
  assumes "\<And>g fed p. inflate (fv_inflate env g) fed p \<noteq> None"
    and "\<And>url kind sid body. \<exists>n. parser_seconds l \<le> tu_elapsed (fv_parser env body url kind sid n)"
  shows "b_limits (fg_budget s) = l \<Longrightarrow> fetch_hops env left url s \<noteq> None"
proof (induction left arbitrary: url s)
  case (Suc left)
  have body: "read_document env u hs pieces ending t \<noteq> None" if "b_limits (fg_budget t) = l" for u hs pieces ending t
    by (rule read_document_ends) (use assms that in auto)
  show ?case using Suc body
    by (auto simp: Let_def split: sum.split prod.split exchange.split option.split dest!: take_limits_eq)
qed simp

lemma fetch_returns:
  assumes "\<And>g fed p. inflate (fv_inflate env g) fed p \<noteq> None"
    and "\<And>url kind sid body. \<exists>n. parser_seconds (b_limits b) \<le> tu_elapsed (fv_parser env body url kind sid n)"
  shows "\<exists>r s. fetch env c sid now b = Some (r, s)
    \<and> (case r of Inl e \<Rightarrow> fetch_failure e = None | Inr so \<Rightarrow> so_source_id so = sid)"
proof -
  have "fetch_hops env (nat (max_redirects (b_limits b)) + 1) (c_url c) (fetch_start env c sid now b) \<noteq> None"
    using assms by (intro fetch_hops_end [where l = "b_limits b"]) simp_all
  then obtain r s where f: "fetch env c sid now b = Some (r, s)"
    by (fastforce simp: fetch_def fetch_start_def [symmetric] simp del: fetch_hops.simps)
  have "fetch_failure e = None" if "r = Inl e" for e
  proof -
    from f that obtain a t where "fetch_hops env (nat (max_redirects (b_limits b)) + 1) (c_url c) (fetch_start env c sid now b) = Some (a, t)"
      "(case a of Inr _ \<Rightarrow> (Inr (fg_source t), t) | Inl e \<Rightarrow> (case fetch_failure e of None \<Rightarrow> (Inl e, t)
         | Some (st, err) \<Rightarrow> let s'' = set_source (fails st err) t in (Inr (fg_source s''), s''))) = (Inl e, s)"
      by (auto simp: fetch_def fetch_start_def [symmetric] simp del: fetch_hops.simps)
    then show ?thesis by (auto simp: Let_def split: sum.splits option.splits)
  qed
  with f show ?thesis using fetch_source_id [of env c sid now b _ s] by (auto split: sum.split)
qed

section \<open>What zlib promises\<close>

text \<open>What a call of \<open>decompress\<close> consumes of its input and what it yields; the sums over the calls so far.\<close>

definition call_used :: "(byte_string list \<Rightarrow> (byte_string \<times> byte_string \<times> bool) option) \<Rightarrow> byte_string list \<Rightarrow> nat" where
  "call_used z fed = (case z fed of None \<Rightarrow> 0 | Some (out, rest, surplus) \<Rightarrow> length (last fed) - length rest)"

definition call_made :: "(byte_string list \<Rightarrow> (byte_string \<times> byte_string \<times> bool) option) \<Rightarrow> byte_string list \<Rightarrow> nat" where
  "call_made z fed = (case z fed of None \<Rightarrow> 0 | Some (out, rest, surplus) \<Rightarrow> length out)"

definition over_calls :: "(byte_string list \<Rightarrow> nat) \<Rightarrow> byte_string list \<Rightarrow> nat" where
  "over_calls f fed = sum_list (map (\<lambda>i. f (take (Suc i) fed)) [0..<length fed])"

lemma over_calls_snoc: "over_calls f (fed @ [p]) = over_calls f fed + f (fed @ [p])"
proof -
  have "map (\<lambda>i. f (take (Suc i) (fed @ [p]))) [0..<length fed] = map (\<lambda>i. f (take (Suc i) fed)) [0..<length fed]"
    by (rule map_cong) simp_all
  then show ?thesis by (simp add: over_calls_def del: take_append map_eq_conv)
qed

text \<open>The documented behaviour of a decompressor: \<open>unconsumed_tail\<close> is the end of the input that was not consumed;
  there is one only when the limit of the output was reached, so that some output was made; and the format
  expands its input by no more than a constant factor, about 1032 for deflate.\<close>

definition zlib_behaves :: "(byte_string list \<Rightarrow> (byte_string \<times> byte_string \<times> bool) option) \<Rightarrow> bool" where
  "zlib_behaves z \<longleftrightarrow>
     (\<forall>fed p out rest surplus. z (fed @ [p]) = Some (out, rest, surplus) \<longrightarrow> (\<exists>used. p = used @ rest) \<and> (rest \<noteq> [] \<longrightarrow> out \<noteq> []))
     \<and> (\<exists>c d. \<forall>fed. over_calls (call_made z) fed \<le> c * over_calls (call_used z) fed + d)"

lemma inflate_ends:
  assumes "zlib_behaves z"
  shows "inflate z fed pending \<noteq> None"
proof -
  obtain c d where bound: "over_calls (call_made z) fed \<le> c * over_calls (call_used z) fed + d" for fed
    using assms unfolding zlib_behaves_def by blast
  define left where "left fed pending = c * (over_calls (call_used z) fed + length pending) + d - over_calls (call_made z) fed"
    for fed :: "byte_string list" and pending :: byte_string
  show ?thesis
  proof (induction "left fed pending" arbitrary: fed pending rule: less_induct)
    case less
    show ?case
    proof (cases "pending = [] \<or> z (fed @ [pending]) = None")
      case True
      then show ?thesis by (subst inflate.simps) auto
    next
      case False
      then obtain out rest surplus where call: "z (fed @ [pending]) = Some (out, rest, surplus)" by (cases "z (fed @ [pending])") auto
      have rest: "\<exists>used. pending = used @ rest" "rest \<noteq> [] \<Longrightarrow> out \<noteq> []" using assms call unfolding zlib_behaves_def by blast+
      have "inflate z (fed @ [pending]) rest \<noteq> None"
      proof (cases "rest = []")
        case True
        then show ?thesis by (subst inflate.simps) simp
      next
        case some: False
        have "over_calls (call_made z) (fed @ [pending]) = over_calls (call_made z) fed + length out"
          "over_calls (call_used z) (fed @ [pending]) + length rest = over_calls (call_used z) fed + length pending"
          using call rest(1) by (auto simp add: over_calls_snoc call_made_def call_used_def)
        moreover have "over_calls (call_made z) (fed @ [pending])
            \<le> c * (over_calls (call_used z) (fed @ [pending]) + length rest) + d"
          using bound [of "fed @ [pending]"] by (simp add: distrib_left)
        moreover have "1 \<le> length out" using rest(2) [OF some] by (cases out) simp_all
        ultimately have "left (fed @ [pending]) rest < left fed pending" by (simp add: left_def del: length_greater_0_conv)
        then show ?thesis by (rule less.hyps)
      qed
      with call False show ?thesis by (subst inflate.simps) (auto simp: Let_def)
    qed
  qed
qed

text \<open>C27. Every fetch returns, whatever finite answers the servers give, provided that \<open>zlib\<close> behaves as documented
  (it keeps back input only when it has filled its output, and expands the input by a bounded factor) and that
  time passes for the parser: with a source of the name asked for, or with one of the exceptions that \<open>fetch\<close>
  does not handle.\<close>

theorem every_fetch_returns:
  assumes "\<And>g. zlib_behaves (fv_inflate env g)"
    and "\<And>url kind sid body. \<exists>n. parser_seconds (b_limits b) \<le> tu_elapsed (fv_parser env body url kind sid n)"
  shows "\<exists>r s. fetch env c sid now b = Some (r, s)
    \<and> (case r of Inl e \<Rightarrow> fetch_failure e = None | Inr so \<Rightarrow> so_source_id so = sid)"
  by (rule fetch_returns [OF inflate_ends [OF assms(1)] assms(2)])

section \<open>A note that is written twice\<close>

text \<open>When the parser process runs out of time, the note that the content type did not match is kept twice: the
  parser's result has no limitations of its own, so that the merged source has the note already.\<close>

theorem notes_are_doubled:
  assumes "\<And>i. tu_elapsed (fv_parser env body url kind (so_source_id (fg_source s)) i) \<ge> parser_seconds (b_limits (fg_budget s))"
    and "fst (take_budget (fv_clock env) CacheBytes 0 (snd (remaining_seconds (fv_clock env) (fg_budget s)))) = Inr ()"
  shows "\<exists>t. extract_body env url kind body s = Some (Inr (), t) \<and> so_status (fg_source t) = STimeout
    \<and> so_limitations (fg_source t) = so_limitations (fg_source s) @ so_limitations (fg_source s)"
proof -
  let ?turns = "fv_parser env body url kind (so_source_id (fg_source s))"
  have doc: "extract_document (b_limits (fg_budget s)) (Some x) ?turns = Some (failed_parse STimeout ''parser_timeout'')" for x
    using assms(1) [of 0] unfolding extract_document_def
    by (subst watch_parser.simps) (simp add: Let_def min_le_iff_disj)
  obtain b' where b': "take_budget (fv_clock env) CacheBytes 0 (snd (remaining_seconds (fv_clock env) (fg_budget s))) = (Inr (), b')"
    using assms(2) by (cases "take_budget (fv_clock env) CacheBytes 0 (snd (remaining_seconds (fv_clock env) (fg_budget s)))") simp
  show ?thesis
    by (simp add: extract_body_def case_prod_beta Let_def doc failed_parse_def or_else_def b' merge_parsed_def)
qed

section \<open>An example\<close>

definition ex_fetch_env :: fetch_env where
  "ex_fetch_env =
     \<lparr> fv_clock = (\<lambda>_. 0),
       fv_urls = \<lparr> ur_split = (\<lambda>_. Some \<lparr> up_scheme = ''http'', up_netloc = ''a.example'', up_path = ''/'', up_query = [],
                      up_fragment = [], up_hostname = Some ''a.example'', up_username = None, up_password = None,
                      up_port = Some None \<rparr>),
                    ur_unsplit = (\<lambda>_ _ _ _. []), ur_parse_qsl = (\<lambda>_. []), ur_urlencode = (\<lambda>_. []), ur_lower = (\<lambda>s. s) \<rparr>,
       fv_addresses = \<lparr> al_parse = (\<lambda>v. if v = ''8.8.8.8'' then Some (IPv4 0x08080808) else None), al_show = (\<lambda>_. ''8.8.8.8''),
                        al_global = (\<lambda>a. a = IPv4 0x08080808), al_idna = Some, al_defrag = (\<lambda>s. s), al_join = (\<lambda>_ _. None) \<rparr>,
       fv_resolve = (\<lambda>_ _ _. Inr [''8.8.8.8'']),
       fv_net = (\<lambda>_ _ _. Answer 200 [(''content-type'', ''text/html'')] [[60, 112, 62]] None),
       fv_inflate = (\<lambda>_ _. None), fv_inflated = (\<lambda>_ _. True),
       fv_parser = (\<lambda>_ _ _ _ i. \<lparr> tu_elapsed = 20 + real i, tu_memory = Resident 0, tu_pipe = NothingYet, tu_alive = True \<rparr>),
       fv_hook = (\<lambda>_ _ _. None) \<rparr>"

definition ex_fetch_candidate :: candidate where
  "ex_fetch_candidate = new_candidate ''http://a.example/'' [] [] ''q1'' ''e'' 1 []"

definition ex_fetch_budget :: budget where
  "ex_fetch_budget = new_budget (\<lambda>_. 0) default_limits"

lemma ex_public: "public_address (fv_addresses ex_fetch_env) ''8.8.8.8'' = Inr ''8.8.8.8''"
  by (simp add: public_address_def ex_fetch_env_def public_ip_def in_net4_def)

lemma ex_url: "validate_public_url (fv_urls ex_fetch_env) (fv_addresses ex_fetch_env) ''http://a.example/''
    = Inr (''http://a.example/'', ''a.example'', 80)"
proof -
  have "\<not> list_ex bad_url_char ''http://a.example/''" "rstrip_dots ''a.example'' = ''a.example''"
    "\<not> local_host ''a.example''" "\<not> ambiguous_numeric ''a.example''"
    by (simp_all add: bad_url_char_def rstrip_dots_def local_host_def suffix_of_def ambiguous_numeric_def
        numeric_label_def decimal_char_def)
  then show ?thesis
    by (simp add: validate_public_url_def ex_fetch_env_def web_scheme_def present_def or_else_def host_ok_def)
qed

lemma ex_identify: "identify_document ''text/html'' [60, 112, 62] = (Html, None)" "identify_document ''text/html'' [60, 112] = (Html, None)"
  by (simp_all add: identify_document_def ascii_def)

text \<open>Fetching the page, as it is or compressed.\<close>

definition ex_answer :: "(string \<times> string) list \<Rightarrow> (byte_string list \<Rightarrow> (byte_string \<times> byte_string \<times> bool) option) \<Rightarrow> fetch_env" where
  "ex_answer hs z = ex_fetch_env\<lparr> fv_net := (\<lambda>_ _ _. Answer 200 ((''content-type'', ''text/html'') # hs) [[60, 112, 62]] None),
     fv_inflate := (\<lambda>_. z) \<rparr>"

lemma ex_answer_fields:
  "fv_clock (ex_answer hs z) = (\<lambda>_. 0)" "fv_urls (ex_answer hs z) = fv_urls ex_fetch_env"
  "fv_addresses (ex_answer hs z) = fv_addresses ex_fetch_env" "fv_resolve (ex_answer hs z) = (\<lambda>_ _ _. Inr [''8.8.8.8''])"
  "fv_parser (ex_answer hs z) = fv_parser ex_fetch_env" "fv_hook (ex_answer hs z) = (\<lambda>_ _ _. None)"
  "fv_inflate (ex_answer hs z) = (\<lambda>_. z)"
  by (simp_all add: ex_answer_def ex_fetch_env_def)

lemma ex_page_fetch:
  assumes "\<And>bound. 3 \<le> bound \<Longrightarrow> decoded_chunks (ex_answer hs z) ((''content-type'', ''text/html'') # hs) [[60, 112, 62]] None bound
      = Some (out, None)"
    and "out = [[60, 112, 62]] \<or> out = [[60, 112], [62]]"
  shows "\<exists>so s. fetch (ex_answer hs z) ex_fetch_candidate ''s1'' [] ex_fetch_budget = Some (Inr so, s)
    \<and> fg_requests s = [(''http://a.example/'', [''8.8.8.8''])] \<and> fg_bodies s = [([60, 112, 62], KHtml)]"
proof -
  have "public_addresses (fv_addresses ex_fetch_env) [''8.8.8.8''] = Inr [''8.8.8.8'']" by (simp add: ex_public)
  then have t: "transport_request (ex_answer hs z) 0 ''http://a.example/'' [''8.8.8.8'']
      = Answer 200 ((''content-type'', ''text/html'') # hs) [[60, 112, 62]] None"
    by (simp add: transport_request_def ex_answer_fields ex_url new_pinned_def) (simp add: ex_answer_def)
  have doc: "extract_document default_limits (Some x) (fv_parser ex_fetch_env body url kind sid)
      = Some (failed_parse STimeout ''parser_timeout'')" for x body url kind sid
    unfolding extract_document_def
    by (subst watch_parser.simps) (simp add: Let_def ex_fetch_env_def default_limits_def)
  have media: "media_type (ex_answer hs z) ((''content-type'', ''text/html'') # hs) = ''text/html''"
    by (simp add: media_type_def ex_answer_fields header_def or_else_def) (simp add: ex_fetch_env_def strip_chars_def py_space_def)
  have six: "Suc 5 = 6" by simp
  note hops = fetch_hops.simps(2) [of "ex_answer hs z" 5, unfolded six]
  have lim: "job_seconds default_limits = 900" "max_redirects default_limits = 5" "fetch_requests default_limits = 36"
      "html_bytes default_limits = 5242880" "pdf_bytes default_limits = 20971520" "cache_bytes default_limits = 134217728"
    by (simp_all add: default_limits_def)
  show ?thesis
    using assms(2)
    by (elim disjE)
      (simp_all add: lim fetch_def ex_fetch_candidate_def new_candidate_def ex_url ex_public t ex_answer_fields assms(1) hops
        ex_fetch_budget_def new_budget_def remaining_seconds_def check_time_def take_budget_def
        requested_source_def new_source_def read_document_def media ex_identify body_bound_def call_hook_def extract_body_def
        set_source_def doc or_else_def failed_parse_def Let_def)
qed

lemma ex_fetch: "\<exists>so s. fetch ex_fetch_env ex_fetch_candidate ''s1'' [] ex_fetch_budget = Some (Inr so, s)
    \<and> fg_requests s = [(''http://a.example/'', [''8.8.8.8''])] \<and> fg_bodies s = [([60, 112, 62], KHtml)]"
proof -
  have env: "ex_fetch_env = ex_answer [] (\<lambda>_. None)" by (simp add: ex_answer_def ex_fetch_env_def)
  show ?thesis unfolding env
    by (rule ex_page_fetch [where out = "[[60, 112, 62]]"])
      (simp_all add: decoded_chunks_def ex_answer_def ex_fetch_env_def header_def or_else_def strip_chars_def py_space_def)
qed

text \<open>The same page as a compressed body, with a decompressor that yields two bytes a call.\<close>

definition ex_zlib :: "byte_string list \<Rightarrow> (byte_string \<times> byte_string \<times> bool) option" where
  "ex_zlib fed = Some (take 2 (last fed), drop 2 (last fed), False)"

definition ex_zip_env :: fetch_env where
  "ex_zip_env = ex_answer [(''content-encoding'', ''gzip'')] ex_zlib"

lemma ex_zip_behaves: "zlib_behaves (fv_inflate ex_zip_env g)"
proof -
  have "call_made ex_zlib = call_used ex_zlib" by (rule ext) (simp add: call_made_def call_used_def ex_zlib_def)
  then have "\<exists>c d. \<forall>fed. over_calls (call_made ex_zlib) fed \<le> c * over_calls (call_used ex_zlib) fed + d"
    by (intro exI [of _ 1] exI [of _ 0]) simp
  then show ?thesis
    by (auto simp: zlib_behaves_def ex_zip_env_def ex_answer_fields ex_zlib_def intro: append_take_drop_id [symmetric])
qed

lemma ex_zip_fetch: "\<exists>so s. fetch ex_zip_env ex_fetch_candidate ''s1'' [] ex_fetch_budget = Some (Inr so, s)
    \<and> fg_bodies s = [([60, 112, 62], KHtml)]"
proof -
  have "inflate ex_zlib [] [60, 112, 62] = Some ([[60, 112], [62]], Inr [[60, 112, 62], [62]])"
    by (simp add: inflate.simps ex_zlib_def Let_def)
  then have "decoded_chunks ex_zip_env [(''content-type'', ''text/html''), (''content-encoding'', ''gzip'')] [[60, 112, 62]] None bound
      = Some ([[60, 112], [62]], None)" if "3 \<le> bound" for bound
    using that by (simp add: ex_zip_env_def decoded_chunks_def ex_answer_fields header_def or_else_def Let_def)
      (simp add: ex_fetch_env_def ex_answer_def strip_chars_def py_space_def)
  from ex_page_fetch [OF this [unfolded ex_zip_env_def]] show ?thesis unfolding ex_zip_env_def by blast
qed

lemma every_fetch_returns_witness:
  "\<exists>so s. fetch ex_zip_env ex_fetch_candidate ''s1'' [] ex_fetch_budget = Some (Inr so, s)
     \<and> so_source_id so = ''s1'' \<and> fg_bodies s = [([60, 112, 62], KHtml)]"
proof -
  have "\<exists>n. parser_seconds (b_limits ex_fetch_budget) \<le> tu_elapsed (fv_parser ex_zip_env body url kind sid n)"
    for url kind sid body
    by (simp add: ex_zip_env_def ex_answer_fields) (simp add: ex_fetch_env_def ex_fetch_budget_def new_budget_def default_limits_def)
  from every_fetch_returns [OF ex_zip_behaves this, of ex_fetch_candidate "''s1''" "[]"] ex_zip_fetch show ?thesis by auto
qed

lemma fetch_contacts_public_addresses_witness:
  "\<exists>r s. fetch ex_fetch_env ex_fetch_candidate ''s1'' [] ex_fetch_budget = Some (r, s)
    \<and> fg_requests s = [(''http://a.example/'', [''8.8.8.8''])] \<and> length (fg_requests s) \<le> 6"
proof -
  obtain r s where f: "fetch ex_fetch_env ex_fetch_candidate ''s1'' [] ex_fetch_budget = Some (r, s)"
    "fg_requests s = [(''http://a.example/'', [''8.8.8.8''])]" using ex_fetch by blast
  with fetch_contacts_public_addresses [OF f(1)] show ?thesis
    by (auto simp: ex_fetch_budget_def new_budget_def default_limits_def)
qed

lemma fetched_bodies_are_bounded_witness:
  "\<exists>r s. fetch ex_fetch_env ex_fetch_candidate ''s1'' [] ex_fetch_budget = Some (r, s)
    \<and> ([60, 112, 62], KHtml) \<in> set (fg_bodies s) \<and> int (length [60, 112, 62 :: nat]) \<le> max 0 (5 * 1024 ^ 2)"
proof -
  obtain r s where f: "fetch ex_fetch_env ex_fetch_candidate ''s1'' [] ex_fetch_budget = Some (r, s)"
    "fg_bodies s = [([60, 112, 62], KHtml)]" using ex_fetch by blast
  from fetched_bodies_are_bounded [OF f(1), of "[60, 112, 62]" KHtml] f show ?thesis
    by (auto simp: ex_fetch_budget_def new_budget_def default_limits_def)
qed

lemma notes_are_doubled_witness:
  "\<exists>s t. extract_body ex_fetch_env [] KHtml [] s = Some (Inr (), t) \<and> so_limitations (fg_source s) = [HTML_NOTE]
    \<and> so_limitations (fg_source t) = [HTML_NOTE, HTML_NOTE]"
proof -
  define s where "s = (fetch_start ex_fetch_env ex_fetch_candidate ''s1'' [] ex_fetch_budget)
    \<lparr> fg_source := (new_source ''s1'' [] [])\<lparr> so_limitations := [HTML_NOTE] \<rparr> \<rparr>"
  have "parser_seconds (b_limits (fg_budget s)) \<le> tu_elapsed (fv_parser ex_fetch_env [] [] KHtml (so_source_id (fg_source s)) i)" for i
    by (simp add: s_def ex_fetch_env_def ex_fetch_budget_def new_budget_def default_limits_def fetch_start_def)
  moreover have "fst (take_budget (fv_clock ex_fetch_env) CacheBytes 0
      (snd (remaining_seconds (fv_clock ex_fetch_env) (fg_budget s)))) = Inr ()"
    by (simp add: s_def ex_fetch_env_def ex_fetch_budget_def new_budget_def default_limits_def fetch_start_def
        take_budget_def check_time_def remaining_seconds_def)
  ultimately have "\<exists>t. extract_body ex_fetch_env [] KHtml [] s = Some (Inr (), t) \<and> so_status (fg_source t) = STimeout
      \<and> so_limitations (fg_source t) = so_limitations (fg_source s) @ so_limitations (fg_source s)"
    by (rule notes_are_doubled)
  moreover have "so_limitations (fg_source s) = [HTML_NOTE]" by (simp add: s_def)
  ultimately show ?thesis by (metis append_Cons append_Nil)
qed

end
