(* ===== verification/Collector.thy ===== *)
theory Collector
  imports Tavily Fetch "HOL-Library.Sublist"
begin

text \<open>
  \<open>collector.py\<close>: the search stage and the extract stage that the local collector and the remote worker
  share. A stage runs its items in order within one budget; a failure of one item is recorded and the stage
  goes on. Search providers and fetchers are used through the interfaces below, so that the stages and
  their properties hold for each of them. Elapsed times are not modelled.
\<close>

section \<open>Interfaces\<close>

record 'p provider =
  pv_search :: "utext \<Rightarrow> string \<Rightarrow> (candidate list, 'p) run"
  pv_budget :: "'p \<Rightarrow> budget"
  pv_set_budget :: "budget \<Rightarrow> 'p \<Rightarrow> 'p"
  pv_diagnostic :: "'p \<Rightarrow> diagnostic"

text \<open>A fetcher yields a source or the exception it lets through, and the budget; \<open>None\<close> is a fetch that
  never returns.\<close>

type_synonym fetcher = "candidate \<Rightarrow> string \<Rightarrow> budget \<Rightarrow> ((exn + source) \<times> budget) option"

definition searxng_provider :: "environment \<Rightarrow> search_config \<Rightarrow> searxng provider" where
  "searxng_provider env cfg =
     \<lparr> pv_search = searxng_search env cfg, pv_budget = sx_budget, pv_set_budget = (\<lambda>b s. s\<lparr> sx_budget := b \<rparr>),
       pv_diagnostic = sx_diagnostic \<rparr>"

definition tavily_provider :: "environment \<Rightarrow> search_config \<Rightarrow> tavily provider" where
  "tavily_provider env cfg =
     \<lparr> pv_search = tavily_search env cfg, pv_budget = tv_budget, pv_set_budget = (\<lambda>b s. s\<lparr> tv_budget := b \<rparr>),
       pv_diagnostic = tv_diagnostic \<rparr>"

text \<open>\<open>PublicFetcher.fetch\<close>; the network it sees is the same at each call.\<close>

definition public_fetcher :: "fetch_env \<Rightarrow> string \<Rightarrow> fetcher" where
  "public_fetcher env now c sid b = map_option (\<lambda>(r, s). (r, fg_budget s)) (fetch env c sid now b)"

section \<open>Results\<close>

record stage_failure =
  sf_stage :: failure_stage
  sf_query_id :: "string option"
  sf_source_id :: "string option"
  sf_url :: "string option"
  sf_code :: string
  sf_detail :: "utext option"

record search_stage =
  ss_queries :: "query_result list"
  ss_candidates :: "candidate list"
  ss_failures :: "stage_failure list"
  ss_exhausted :: "string option"
  ss_usage :: usage

record extract_stage =
  es_sources :: "source list"
  es_failures :: "stage_failure list"
  es_exhausted :: "string option"
  es_usage :: usage

definition new_search_stage :: search_stage where
  "new_search_stage = \<lparr> ss_queries = [], ss_candidates = [], ss_failures = [], ss_exhausted = None, ss_usage = no_usage \<rparr>"

definition new_extract_stage :: extract_stage where
  "new_extract_stage = \<lparr> es_sources = [], es_failures = [], es_exhausted = None, es_usage = no_usage \<rparr>"

definition query_entry :: "string \<Rightarrow> query \<Rightarrow> query_status \<Rightarrow> int \<Rightarrow> diagnostic \<Rightarrow> query_result" where
  "query_entry i q st n d =
     \<lparr> qr_query_id = i, qr_text = q_text q, qr_role = q_role q, qr_reason = q_reason q, qr_status = st,
       qr_result_count = n, qr_diagnostic = d \<rparr>"

definition code_diagnostic :: "string \<Rightarrow> diagnostic" where
  "code_diagnostic code = blank_diagnostic\<lparr> di_code := Some code \<rparr>"

definition search_usage :: "budget \<Rightarrow> usage" where
  "search_usage b = no_usage\<lparr> u_search_requests := b_counts b SearchRequests, u_search_credits := b_counts b SearchRequests \<rparr>"

definition extract_usage :: "budget \<Rightarrow> source list \<Rightarrow> usage" where
  "extract_usage b sources = no_usage\<lparr> u_fetch_requests := b_counts b FetchRequests,
     u_document_bytes := sum_list (map so_bytes_received sources) \<rparr>"

definition search_failure :: "string \<Rightarrow> string \<Rightarrow> utext option \<Rightarrow> stage_failure" where
  "search_failure i code detail = \<lparr> sf_stage = FSearch, sf_query_id = Some i, sf_source_id = None, sf_url = None,
     sf_code = code, sf_detail = detail \<rparr>"

definition fetch_stage_failure :: "string \<Rightarrow> string \<Rightarrow> string \<Rightarrow> stage_failure" where
  "fetch_stage_failure i url code = \<lparr> sf_stage = FFetch, sf_query_id = None, sf_source_id = Some i, sf_url = Some url,
     sf_code = code, sf_detail = None \<rparr>"

text \<open>\<open>getattr(exc, "code", type(exc).__name__)\<close>, and \<open>str(exc)\<close> where it is known.\<close>

fun exn_code :: "exn \<Rightarrow> string" where
  "exn_code (BudgetExceeded _) = ''BudgetExceeded''"
| "exn_code (SearchError c _) = c"
| "exn_code (QueryPrivacyError _) = ''QueryPrivacyError''"
| "exn_code (UnsafeURL _) = ''UnsafeURL''"
| "exn_code (DocumentLimit _) = ''DocumentLimit''"
| "exn_code (InvalidEncoding _) = ''InvalidEncoding''"
| "exn_code FetchTimeout = ''TimeoutError''"
| "exn_code (ConnectionError name) = name"
| "exn_code (ModelFailure c) = c"
| "exn_code exn.Cancelled = ''CancelledError''"
| "exn_code (OtherError name) = name"

section \<open>The search stage\<close>

definition add_query :: "query_result \<Rightarrow> search_stage \<Rightarrow> search_stage" where
  "add_query e r = r\<lparr> ss_queries := ss_queries r @ [e] \<rparr>"

definition fail_query :: "string \<Rightarrow> query \<Rightarrow> query_status \<Rightarrow> string \<Rightarrow> utext option \<Rightarrow> search_stage \<Rightarrow> search_stage" where
  "fail_query i q st code detail r =
     (add_query (query_entry i q st 0 (code_diagnostic code)) r)
       \<lparr> ss_failures := ss_failures r @ [search_failure i code detail] \<rparr>"

definition exhaust :: "search_stage \<Rightarrow> search_stage" where
  "exhaust r = r\<lparr> ss_exhausted := Some ''max_queries'' \<rparr>"

text \<open>The loop; \<open>stop i\<close> is the answer of \<open>cancel_check\<close> before the \<open>i\<close>-th item. The result is the exception
  that leaves the stage, if any, with the stage and the provider as they are then.\<close>

fun search_items ::
  "'p provider \<Rightarrow> environment \<Rightarrow> (nat \<Rightarrow> bool) \<Rightarrow> (string \<times> query) list \<Rightarrow> nat \<Rightarrow> search_stage \<Rightarrow> 'p
   \<Rightarrow> exn option \<times> search_stage \<times> 'p" where
  "search_items pv env stop [] n r p = (None, r, p)"
| "search_items pv env stop ((i, q) # items) n r p =
     (if stop n then (None, r, p)
      else case en_validate_query env (q_text q) of
        Inl why \<Rightarrow>
          search_items pv env stop items (Suc n)
            (fail_query i q QFailed ''query_rejected_privacy'' (Some (take 200 why)) r) p
      | Inr _ \<Rightarrow>
          (case take_query (en_clock env) (en_casefold env) (q_text q) (pv_budget pv p) of
             (Inl e, b) \<Rightarrow> (Some e, r, pv_set_budget pv b p)
           | (Inr False, b) \<Rightarrow> (None, exhaust (fail_query i q QLimit ''max_queries'' None r), pv_set_budget pv b p)
           | (Inr True, b) \<Rightarrow>
               (case pv_search pv (q_text q) i (pv_set_budget pv b p) of
                  (Inl (BudgetExceeded _), p') \<Rightarrow> (None, exhaust (fail_query i q QLimit ''budget_exhausted'' None r), p')
                | (Inl exn.Cancelled, p') \<Rightarrow> (Some exn.Cancelled, r, p')
                | (Inl e, p') \<Rightarrow> search_items pv env stop items (Suc n) (fail_query i q QFailed (exn_code e) None r) p'
                | (Inr found, p') \<Rightarrow>
                    search_items pv env stop items (Suc n)
                      ((add_query (query_entry i q QOk (int (length found)) (pv_diagnostic pv p')) r)
                         \<lparr> ss_candidates := ss_candidates r @ found \<rparr>) p')))"

definition run_search_stage ::
  "'p provider \<Rightarrow> environment \<Rightarrow> (nat \<Rightarrow> bool) \<Rightarrow> (string \<times> query) list \<Rightarrow> search_stage \<Rightarrow> 'p
   \<Rightarrow> exn option \<times> search_stage \<times> 'p" where
  "run_search_stage pv env stop items r p =
     (case search_items pv env stop items 0 r p of
        (e, r', p') \<Rightarrow> (e, r'\<lparr> ss_usage := search_usage (pv_budget pv p') \<rparr>, p'))"

section \<open>The extract stage\<close>

definition fetched :: "source \<Rightarrow> bool" where
  "fetched s \<longleftrightarrow> so_status s \<in> {SOk, SPartial}"

text \<open>The name of a source status.\<close>

fun status_name :: "source_status \<Rightarrow> string" where
  "status_name SOk = ''ok''"
| "status_name SPartial = ''partial''"
| "status_name SBlocked = ''blocked''"
| "status_name SHttpError = ''http_error''"
| "status_name SNetworkError = ''network_error''"
| "status_name SUnsupported = ''unsupported''"
| "status_name SExtractionFailed = ''extraction_failed''"
| "status_name SImageOnly = ''image_only''"
| "status_name SEncrypted = ''encrypted''"
| "status_name SInvalid = ''invalid''"
| "status_name STimeout = ''timeout''"
| "status_name SLimit = ''limit''"

definition add_source :: "source \<Rightarrow> extract_stage \<Rightarrow> extract_stage" where
  "add_source s r = r\<lparr> es_sources := es_sources r @ [s] \<rparr>"

definition add_failure :: "stage_failure \<Rightarrow> extract_stage \<Rightarrow> extract_stage" where
  "add_failure f r = r\<lparr> es_failures := es_failures r @ [f] \<rparr>"

text \<open>\<open>message e\<close> is \<open>str(exc)\<close> of an exception the fetcher lets through; \<open>now\<close> is \<open>utc_now()\<close>.\<close>

fun extract_items ::
  "fetcher \<Rightarrow> environment \<Rightarrow> (exn \<Rightarrow> string) \<Rightarrow> string \<Rightarrow> (nat \<Rightarrow> bool) \<Rightarrow> (string \<times> candidate) list \<Rightarrow> nat
   \<Rightarrow> extract_stage \<Rightarrow> budget \<Rightarrow> (exn option \<times> extract_stage \<times> budget) option" where
  "extract_items ft env message now stop [] n r b = Some (None, r, b)"
| "extract_items ft env message now stop ((i, c) # items) n r b0 =
     (if stop n then Some (None, r, b0)
      else case research_url (en_urls env) (c_url c) of
        None \<Rightarrow> Some (Some (OtherError ''ValueError''), r, b0)
      | Some key \<Rightarrow>
          (case take_source (en_clock env) key b0 of
             (Inl _, b) \<Rightarrow>
               Some (None, (add_failure (fetch_stage_failure i (c_url c) ''max_sources'') r)
                       \<lparr> es_exhausted := Some ''max_sources'' \<rparr>, b)
           | (Inr False, b) \<Rightarrow> extract_items ft env message now stop items (Suc n) r b
           | (Inr True, b) \<Rightarrow>
               (case ft c i b of
                  None \<Rightarrow> None
                | Some (Inl (BudgetExceeded m), b') \<Rightarrow>
                    let reason = (if m = [] then ''budget_exhausted'' else m) in
                    Some (None, (add_failure (fetch_stage_failure i (c_url c) reason)
                        (add_source ((new_source i (c_url c) now)\<lparr> so_status := SLimit, so_error := Some reason \<rparr>) r))
                        \<lparr> es_exhausted := Some reason \<rparr>, b')
                | Some (Inl exn.Cancelled, b') \<Rightarrow> Some (Some exn.Cancelled, r, b')
                | Some (Inl e, b') \<Rightarrow>
                    let err = (if take 300 (message e) = [] then exn_code e else take 300 (message e)) in
                    extract_items ft env message now stop items (Suc n)
                      (add_failure (fetch_stage_failure i (c_url c) (exn_code e))
                        (add_source ((new_source i (c_url c) now)\<lparr> so_status := SNetworkError, so_error := Some err \<rparr>) r)) b'
                | Some (Inr s, b') \<Rightarrow>
                    extract_items ft env message now stop items (Suc n)
                      (if fetched s then add_source s r
                       else add_failure (fetch_stage_failure (so_source_id s) (c_url c) (status_name (so_status s))) (add_source s r)) b')))"

definition run_extract_stage ::
  "fetcher \<Rightarrow> environment \<Rightarrow> (exn \<Rightarrow> string) \<Rightarrow> string \<Rightarrow> (nat \<Rightarrow> bool) \<Rightarrow> (string \<times> candidate) list
   \<Rightarrow> extract_stage \<Rightarrow> budget \<Rightarrow> (exn option \<times> extract_stage \<times> budget) option" where
  "run_extract_stage ft env message now stop items r b =
     map_option (\<lambda>(e, r', b'). (e, r'\<lparr> es_usage := extract_usage b' (es_sources r') \<rparr>, b'))
       (extract_items ft env message now stop items 0 r b)"

section \<open>What a stage promises\<close>

text \<open>The contract of a search provider: it only spends from its budget, and its answers are bounded.\<close>

locale search_provider =
  fixes pv :: "'p provider" and most :: nat
  assumes search_spends: "spends (pv_budget pv p) (pv_budget pv (snd (pv_search pv q i p)))"
    and search_bound: "fst (pv_search pv q i p) = Inr rs \<Longrightarrow> 0 < most \<Longrightarrow> length rs \<le> most"
    and get_set: "pv_budget pv (pv_set_budget pv b p) = b"
begin

text \<open>\<open>r'\<close> accounts for the first \<open>k\<close> items after \<open>r\<close>: one entry each, in order, a failure for each that is
  not ok, and as many candidates as the entries say.\<close>

definition accounts :: "(string \<times> query) list \<Rightarrow> nat \<Rightarrow> search_stage \<Rightarrow> search_stage \<Rightarrow> bool" where
  "accounts items k r r' \<longleftrightarrow> k \<le> length items
     \<and> (\<exists>new. ss_queries r' = ss_queries r @ new \<and> map qr_query_id new = map fst (take k items)
        \<and> int (length (ss_candidates r')) = int (length (ss_candidates r)) + sum_list (map qr_result_count new)
        \<and> length (ss_failures r') = length (ss_failures r) + length (filter (\<lambda>e. qr_status e \<noteq> QOk) new)
        \<and> (0 < most \<longrightarrow> (\<forall>e \<in> set new. 0 \<le> qr_result_count e \<and> qr_result_count e \<le> int most)))"

lemma accounts_none [simp]: "accounts items 0 r r"
  by (simp add: accounts_def)

lemma accounts_fail: "st \<noteq> QOk \<Longrightarrow> accounts ((i, q) # items) 1 r (fail_query i q st code d r)"
  by (simp add: accounts_def fail_query_def add_query_def query_entry_def)

lemma accounts_ok: "(0 < most \<Longrightarrow> length found \<le> most) \<Longrightarrow> accounts ((i, q) # items) 1 r
    ((add_query (query_entry i q QOk (int (length found)) d) r)\<lparr> ss_candidates := ss_candidates r @ found \<rparr>)"
  by (simp add: accounts_def add_query_def query_entry_def)

lemma accounts_exhaust [simp]: "accounts items k r (exhaust r') \<longleftrightarrow> accounts items k r r'"
  by (simp add: accounts_def exhaust_def)

lemma accounts_step:
  assumes "accounts (x # items) 1 r r1" "accounts items k r1 r2"
  shows "accounts (x # items) (Suc k) r r2"
  using assms unfolding accounts_def by fastforce

lemma exhausted_simps [simp]:
  "ss_exhausted (fail_query i q st code d r) = ss_exhausted r" "ss_exhausted (add_query e r) = ss_exhausted r"
  "ss_exhausted (exhaust r) = Some ''max_queries''"
  by (simp_all add: fail_query_def add_query_def exhaust_def)

lemma query_spent: "spends (pv_budget pv p) b \<Longrightarrow> spends (pv_budget pv p) (pv_budget pv (pv_set_budget pv b p))"
  by (simp add: get_set)

lemma search_items_accounts:
  "search_items pv env stop items n r p = (e, r', p') \<Longrightarrow>
   spends (pv_budget pv p) (pv_budget pv p') \<and>
   (\<exists>k. accounts items k r r' \<and> (e = None \<and> ss_exhausted r' = None \<and> (\<forall>i. \<not> stop i) \<longrightarrow> k = length items))"
proof (induction items arbitrary: n r p)
  case Nil
  then show ?case by (auto intro: exI [of _ 0])
next
  case (Cons x items)
  obtain i q where x: "x = (i, q)" by fastforce
  consider (stopped) "stop n" | (rejected) why where "\<not> stop n" "en_validate_query env (q_text q) = Inl why"
    | (asked) t where "\<not> stop n" "en_validate_query env (q_text q) = Inr t"
    by (cases "en_validate_query env (q_text q)") auto
  then show ?case
  proof cases
    case stopped
    with Cons.prems x show ?thesis by (auto intro: exI [of _ 0])
  next
    case rejected
    let ?r1 = "fail_query i q QFailed ''query_rejected_privacy'' (Some (take 200 why)) r"
    from rejected Cons.prems x have "search_items pv env stop items (Suc n) ?r1 p = (e, r', p')" by simp
    moreover have "accounts (x # items) 1 r ?r1" unfolding x by (rule accounts_fail) simp
    ultimately show ?thesis using Cons.IH accounts_step by (metis length_Cons)
  next
    case asked
    obtain u b where tq: "take_query (en_clock env) (en_casefold env) (q_text q) (pv_budget pv p) = (u, b)" by fastforce
    have one: "accounts (x # items) 1 r (fail_query i q st c d r)" if "st \<noteq> QOk" for st c d
      unfolding x by (rule accounts_fail [OF that])
    have b: "spends (pv_budget pv p) b"
      using take_query_spends [of "pv_budget pv p" "en_clock env" "en_casefold env" "q_text q"] tq by simp
    consider (raises) e' where "u = Inl e'" | (known) "u = Inr False" | (new) "u = Inr True"
      by (cases u) auto
    then show ?thesis
    proof cases
      case raises
      with asked Cons.prems x tq b show ?thesis by (auto simp: get_set intro: exI [of _ 0])
    next
      case known
      with asked Cons.prems x tq b show ?thesis
        using one [of QLimit "''max_queries''" None] by (auto simp: get_set simp del: One_nat_def)
    next
      case new
      obtain s p1 where s: "pv_search pv (q_text q) i (pv_set_budget pv b p) = (s, p1)" by fastforce
      have p1: "spends (pv_budget pv p) (pv_budget pv p1)"
        using spends_trans [OF b] search_spends [of "pv_set_budget pv b p" "q_text q" i] s by (simp add: get_set)
      have step: ?thesis if "search_items pv env stop items (Suc n) r1 p1 = (e, r', p')" "accounts (x # items) 1 r r1" for r1
        using Cons.IH [OF that(1)] accounts_step [OF that(2), of _ r'] p1
        by (metis length_Cons spends_trans)
      show ?thesis
      proof (cases s)
        case (Inr found)
        then have "length found \<le> most" if "0 < most" using search_bound s that by (metis fst_conv)
        then show ?thesis using step accounts_ok asked Cons.prems x tq new s Inr by simp
      next
        case (Inl e')
        show ?thesis
        proof (cases "(\<exists>m. e' = BudgetExceeded m) \<or> e' = exn.Cancelled")
          case True
          then show ?thesis
          proof (elim disjE exE)
            fix m assume "e' = BudgetExceeded m"
            with Inl asked Cons.prems x tq new s p1 one [of QLimit "''budget_exhausted''" None] show ?thesis
              by (auto simp del: One_nat_def)
          next
            assume "e' = exn.Cancelled"
            with Inl asked Cons.prems x tq new s p1 show ?thesis by (auto intro: exI [of _ 0])
          qed
        next
          case False
          with Inl asked Cons.prems x tq new s have
            "search_items pv env stop items (Suc n) (fail_query i q QFailed (exn_code e') None r) p1 = (e, r', p')"
            by (cases e') auto
          then show ?thesis by (rule step) (rule one, simp)
        qed
      qed
    qed
  qed
qed

end

lemma take_source_pays:
  "take_source clk key b = (Inr True, b') \<Longrightarrow> b_counts b MaxSources + 1 \<le> b_counts b' MaxSources"
  by (cases rule: take_budget_cases [of clk MaxSources 1 b]) (auto simp: take_source_def split: if_splits)

text \<open>The contract of a fetcher: it only spends, and the source it returns is the one asked for.\<close>

locale source_fetcher =
  fixes ft :: fetcher
  assumes fetch_only_spends: "ft c i b = Some (r, b') \<Longrightarrow> spends b b'"
    and fetch_names: "ft c i b = Some (Inr s, b') \<Longrightarrow> so_source_id s = i"
begin

text \<open>The new sources, in the order of the items, each paid for; a source that was not read has a failure.\<close>

definition gathers :: "(string \<times> candidate) list \<Rightarrow> extract_stage \<Rightarrow> budget \<Rightarrow> extract_stage \<Rightarrow> budget \<Rightarrow> bool" where
  "gathers items r b r' b' \<longleftrightarrow> spends b b' \<and>
     (\<exists>new. es_sources r' = es_sources r @ new \<and> subseq (map so_source_id new) (map fst items)
        \<and> int (length new) \<le> b_counts b' MaxSources - b_counts b MaxSources)
     \<and> set (es_failures r) \<subseteq> set (es_failures r')
     \<and> (\<forall>s \<in> set (es_sources r'). s \<in> set (es_sources r) \<or> fetched s \<or>
          (\<exists>f \<in> set (es_failures r'). sf_source_id f = Some (so_source_id s)))"

lemma gathers_none: "spends b b' \<Longrightarrow> es_sources r' = es_sources r \<Longrightarrow> set (es_failures r) \<subseteq> set (es_failures r')
    \<Longrightarrow> gathers items r b r' b'"
  by (auto simp: gathers_def spends_def)

lemma gathers_one:
  assumes "spends b b'" "b_counts b MaxSources + 1 \<le> b_counts b' MaxSources" "es_sources r' = es_sources r @ [s]"
    "so_source_id s = i" "set (es_failures r) \<subseteq> set (es_failures r')"
    "fetched s \<or> (\<exists>f \<in> set (es_failures r'). sf_source_id f = Some i)"
  shows "gathers ((i, c) # items) r b r' b'"
  using assms by (auto simp: gathers_def)

lemma gathers_later:
  assumes "gathers items r b r' b'" shows "gathers (x # items) r b r' b'"
proof -
  have "\<exists>new. es_sources r' = es_sources r @ new \<and> subseq (map so_source_id new) (map fst (x # items))
      \<and> int (length new) \<le> b_counts b' MaxSources - b_counts b MaxSources"
    using assms by (auto simp: gathers_def intro: list_emb_Cons)
  with assms show ?thesis unfolding gathers_def by blast
qed

lemma gathers_next:
  assumes "gathers [x] r b r1 b1" "gathers items r1 b1 r2 b2"
  shows "gathers (x # items) r b r2 b2"
proof -
  obtain n1 where n1: "es_sources r1 = es_sources r @ n1" "subseq (map so_source_id n1) [fst x]"
      "int (length n1) \<le> b_counts b1 MaxSources - b_counts b MaxSources"
    using assms(1) by (auto simp: gathers_def)
  obtain n2 where n2: "es_sources r2 = es_sources r1 @ n2" "subseq (map so_source_id n2) (map fst items)"
      "int (length n2) \<le> b_counts b2 MaxSources - b_counts b1 MaxSources"
    using assms(2) by (auto simp: gathers_def)
  have "subseq (map so_source_id (n1 @ n2)) ([fst x] @ map fst items)"
    unfolding map_append using n1(2) n2(2) by (rule list_emb_append_mono)
  then have "\<exists>new. es_sources r2 = es_sources r @ new \<and> subseq (map so_source_id new) (map fst (x # items))
        \<and> int (length new) \<le> b_counts b2 MaxSources - b_counts b MaxSources"
    using n1 n2 by (intro exI [of _ "n1 @ n2"]) simp
  then show ?thesis using assms unfolding gathers_def by (blast intro: spends_trans)
qed

lemma extract_items_gathers:
  "extract_items ft env message now stop items n r b = Some (e, r', b') \<Longrightarrow> gathers items r b r' b'"
proof (induction items arbitrary: n r b)
  case Nil
  then show ?case by (auto intro: gathers_none)
next
  case (Cons x items)
  obtain i c where x: "x = (i, c)" by fastforce
  show ?case
  proof (cases "stop n \<or> research_url (en_urls env) (c_url c) = None")
    case True
    with Cons.prems x show ?thesis by (auto intro: gathers_none split: if_splits)
  next
    case False
    then obtain key where key: "\<not> stop n" "research_url (en_urls env) (c_url c) = Some key" by auto
    obtain u b1 where t: "take_source (en_clock env) key b = (u, b1)" by fastforce
    have b1: "spends b b1" using take_source_spends [of b "en_clock env" key] t by simp
    consider (raises) e' where "u = Inl e'" | (known) "u = Inr False" | (taken) "u = Inr True" by (cases u) auto
    then show ?thesis
    proof cases
      case raises
      with Cons.prems x key t b1 show ?thesis by (auto simp: add_failure_def intro!: gathers_none)
    next
      case known
      with Cons.prems x key t have "extract_items ft env message now stop items (Suc n) r b1 = Some (e, r', b')" by simp
      from gathers_next [OF _ Cons.IH [OF this]] b1 show ?thesis by (simp add: gathers_none)
    next
      case taken
      have paid: "b_counts b MaxSources + 1 \<le> b_counts b1 MaxSources"
        using take_source_pays t taken by simp
      obtain v b2 where f: "ft c i b1 = Some (v, b2)"
        using Cons.prems x key t taken by (cases "ft c i b1") auto
      have b2: "spends b b2" using spends_trans [OF b1 fetch_only_spends [OF f]] .
      have paid2: "b_counts b MaxSources + 1 \<le> b_counts b2 MaxSources"
        using paid fetch_only_spends [OF f] unfolding spends_def by (meson order_trans)
      have step: ?thesis if "extract_items ft env message now stop items (Suc n) r1 b2 = Some (e, r', b')"
          "gathers [x] r b r1 b2" for r1
        using gathers_next [OF that(2) Cons.IH [OF that(1)]] .
      have failed: "gathers (x # zs) r b (add_failure (fetch_stage_failure i u code) (add_source
          ((new_source i w now)\<lparr> so_status := st, so_error := err \<rparr>) r)\<lparr> es_exhausted := ex \<rparr>) b2" for u code w st err ex zs
        unfolding x by (rule gathers_one [OF b2 paid2])
          (auto simp: add_failure_def add_source_def new_source_def fetch_stage_failure_def)
      show ?thesis
      proof (cases v)
        case (Inr s)
        then have id: "so_source_id s = i" using fetch_names f by simp
        let ?r1 = "if fetched s then add_source s r
          else add_failure (fetch_stage_failure (so_source_id s) (c_url c) (status_name (so_status s))) (add_source s r)"
        have "gathers [x] r b ?r1 b2" unfolding x
          by (rule gathers_one [OF b2 paid2, of _ _ s])
            (auto simp: add_failure_def add_source_def fetch_stage_failure_def id)
        with Inr Cons.prems x key t taken f show ?thesis by (intro step [of ?r1]) simp_all
      next
        case (Inl e')
        show ?thesis
        proof (cases "(\<exists>m. e' = BudgetExceeded m) \<or> e' = exn.Cancelled")
          case True
          then show ?thesis
          proof (elim disjE exE)
            fix m assume "e' = BudgetExceeded m"
            with Inl Cons.prems x key t taken f failed show ?thesis by (auto simp: Let_def)
          next
            assume "e' = exn.Cancelled"
            with Inl Cons.prems x key t taken f b2 show ?thesis by (auto intro!: gathers_none)
          qed
        next
          case False
          let ?err = "if take 300 (message e') = [] then exn_code e' else take 300 (message e')"
          let ?r1 = "add_failure (fetch_stage_failure i (c_url c) (exn_code e')) (add_source
              ((new_source i (c_url c) now)\<lparr> so_status := SNetworkError, so_error := Some ?err \<rparr>) r)"
          have "gathers [x] r b ?r1 b2" unfolding x
            by (rule gathers_one [OF b2 paid2])
              (auto simp: add_failure_def add_source_def new_source_def fetch_stage_failure_def)
          moreover from False Inl Cons.prems x key t taken f
          have "extract_items ft env message now stop items (Suc n) ?r1 b2 = Some (e, r', b')"
            by (cases e') (auto simp: Let_def)
          ultimately show ?thesis using step by blast
        qed
      qed
    qed
  qed
qed

end

section \<open>The providers and the fetcher keep their promises\<close>

lemma tavily_json_spends [spending]: "spends (tv_budget s) (tv_budget (snd (tavily_json env cfg rq s)))"
proof -
  have "spends (tv_budget s) (snd (take_budget (en_clock env) SearchRequests 1 (tv_budget s)))" by (rule take_spends) simp
  then show ?thesis
    using remaining_spends by (auto simp: tavily_json_def case_prod_beta split: sum.split intro: spends_trans)
qed

lemma check_allowance_spends [spending]: "spends (tv_budget s) (tv_budget (snd (check_allowance env cfg s)))"
  using tavily_json_spends [of "s\<lparr> tv_diagnostic := blank_diagnostic \<rparr>" env cfg usage_request]
  by (auto simp: check_allowance_def case_prod_beta Let_def split: sum.split)

lemma reserve_credit_spends [spending]: "spends (tv_budget s) (tv_budget (snd (reserve_credit env s)))"
  using check_spends [of "tv_budget s" "en_clock env"]
  by (auto simp: reserve_credit_def case_prod_beta split: sum.split)

lemma spend_credit_spends [spending]: "spends (tv_budget s) (tv_budget (snd (spend_credit env cfg q i s)))"
proof -
  obtain r1 s1 where 1: "check_allowance env cfg s = (r1, s1)" by fastforce
  obtain r2 s2 where 2: "reserve_credit env s1 = (r2, s2)" by fastforce
  obtain r3 s3 where 3: "tavily_json env cfg (tavily_request cfg q) s2 = (r3, s3)" by fastforce
  have "spends (tv_budget s) (tv_budget s1)" "spends (tv_budget s1) (tv_budget s2)" "spends (tv_budget s2) (tv_budget s3)"
    using check_allowance_spends [of s env cfg] reserve_credit_spends [of s1 env]
      tavily_json_spends [of s2 env cfg "tavily_request cfg q"] 1 2 3 by simp_all
  with 1 2 3 show ?thesis
    by (auto simp: spend_credit_def andthen_def split: sum.split intro: spends_trans)
qed

lemma tavily_search_spends: "spends (tv_budget s) (tv_budget (snd (tavily_search env cfg q i s)))"
  using spend_credit_spends [of "s\<lparr> tv_diagnostic := blank_diagnostic\<lparr> di_engine := ''tavily'' \<rparr> \<rparr>" env cfg _ i]
  by (auto simp: tavily_search_def Let_def case_prod_beta split: sum.split option.split)

lemma tavily_items_bound:
  "tavily_items env cfg qi rank items results = Inr rs \<Longrightarrow> length results < sc_max_results cfg
   \<Longrightarrow> length rs \<le> sc_max_results cfg"
proof (induction env cfg qi rank items results rule: tavily_items.induct)
  case (2 env cfg qi rank item items results)
  then show ?case by (auto simp: Let_def split: if_splits option.splits json.splits)
qed simp

lemma tavily_answer_bound:
  "fst (tavily_answer env cfg qi v s) = Inr rs \<Longrightarrow> 0 < sc_max_results cfg \<Longrightarrow> length rs \<le> sc_max_results cfg"
  by (auto simp: tavily_answer_def Let_def split: option.splits json.splits sum.splits if_splits dest: tavily_items_bound)

lemma tavily_search_bound:
  assumes "fst (tavily_search env cfg q qi s) = Inr rs" "0 < sc_max_results cfg"
  shows "length rs \<le> sc_max_results cfg"
proof -
  have "\<exists>v t. fst (tavily_answer env cfg qi v t) = Inr rs"
    using assms(1) unfolding tavily_search_def spend_credit_def andthen_def
    by (auto simp: Let_def split: sum.splits option.splits prod.splits if_splits) (metis fst_conv)+
  with assms(2) tavily_answer_bound show ?thesis by blast
qed

interpretation searxng: search_provider "searxng_provider env cfg" "sc_max_results cfg" for env cfg
  by unfold_locales (auto simp: searxng_provider_def searxng_search_spends searxng_search_bound)

interpretation tavily: search_provider "tavily_provider env cfg" "sc_max_results cfg" for env cfg
  by unfold_locales (auto simp: tavily_provider_def tavily_search_spends tavily_search_bound)

interpretation public: source_fetcher "public_fetcher env now" for env now
  by unfold_locales (auto simp: public_fetcher_def fetch_spends fetch_source_id)

section \<open>The stages\<close>

lemma spends_within:
  assumes "spends b b'" "budget_ok b"
  shows "b_counts b' c \<le> limit_of (b_limits b) c"
proof -
  have "budget_ok b'" "b_limits b' = b_limits b" using assms by (simp_all add: spends_def)
  then show ?thesis by (metis budget_ok_def)
qed

lemma run_search_stage_eq:
  assumes "run_search_stage pv env stop items r0 p = (e, r, p')"
  obtains r1 where "search_items pv env stop items 0 r0 p = (e, r1, p')"
    "r = r1\<lparr> ss_usage := search_usage (pv_budget pv p') \<rparr>"
  using assms by (auto simp: run_search_stage_def split: prod.splits)

text \<open>The search stage answers for its queries in order: one entry for each query it reached, a failure for
  each entry that is not ok, and as many candidates as the entries count; without an exception, an exhausted budget
  or a cancellation it reaches all of them, and it never sends more search requests than its budget allows.\<close>

theorem search_stage_accounts:
  assumes "run_search_stage (tavily_provider env cfg) env stop items new_search_stage p = (e, r, p')"
    and "budget_ok (tv_budget p)"
  shows "\<exists>k \<le> length items. map qr_query_id (ss_queries r) = map fst (take k items)
    \<and> int (length (ss_candidates r)) = sum_list (map qr_result_count (ss_queries r))
    \<and> length (ss_failures r) = length (filter (\<lambda>q. qr_status q \<noteq> QOk) (ss_queries r))
    \<and> (e = None \<and> ss_exhausted r = None \<and> (\<forall>i. \<not> stop i) \<longrightarrow> k = length items)
    \<and> u_search_requests (ss_usage r) \<le> search_requests (b_limits (tv_budget p))"
proof -
  obtain r1 where r1: "search_items (tavily_provider env cfg) env stop items 0 new_search_stage p = (e, r1, p')"
    "r = r1\<lparr> ss_usage := search_usage (tv_budget p') \<rparr>"
    using run_search_stage_eq [OF assms(1)] by (auto simp: tavily_provider_def)
  from tavily.search_items_accounts [OF this(1)]
  have s: "spends (tv_budget p) (tv_budget p')" by (simp add: tavily_provider_def)
  then have "b_counts (tv_budget p') SearchRequests \<le> limit_of (b_limits (tv_budget p)) SearchRequests"
    using assms(2) by (rule spends_within)
  moreover obtain k where k: "tavily.accounts cfg items k new_search_stage r1"
      "e = None \<and> ss_exhausted r1 = None \<and> (\<forall>i. \<not> stop i) \<longrightarrow> k = length items"
    using tavily.search_items_accounts [OF r1(1)] by blast
  ultimately show ?thesis using r1(2)
    by (intro exI [of _ k]) (auto simp: tavily.accounts_def new_search_stage_def search_usage_def)
qed

text \<open>The extract stage returns its sources in the order of the candidates, with the identifiers it was given,
  no more than the budget allows, with a failure for each source that could not be read, and within the number of
  requests allowed.\<close>

theorem extract_stage_accounts:
  assumes "run_extract_stage (public_fetcher fenv now) env message now stop items new_extract_stage b = Some (e, r, b')"
    and "budget_ok b"
  shows "subseq (map so_source_id (es_sources r)) (map fst items)
    \<and> int (length (es_sources r)) \<le> max_sources (b_limits b)
    \<and> (\<forall>s \<in> set (es_sources r). fetched s \<or> (\<exists>f \<in> set (es_failures r). sf_source_id f = Some (so_source_id s)))
    \<and> u_fetch_requests (es_usage r) \<le> fetch_requests (b_limits b)"
proof -
  obtain r1 where r1: "extract_items (public_fetcher fenv now) env message now stop items 0 new_extract_stage b = Some (e, r1, b')"
    "r = r1\<lparr> es_usage := extract_usage b' (es_sources r1) \<rparr>"
    using assms(1) by (auto simp: run_extract_stage_def)
  note g = public.extract_items_gathers [OF r1(1)]
  then have s: "spends b b'" by (simp add: public.gathers_def)
  with assms(2) have ok: "b_counts b' c \<le> limit_of (b_limits b) c" "0 \<le> b_counts b c" for c
    by (simp_all add: spends_within budget_ok_def)
  obtain new where "es_sources r1 = new" "subseq (map so_source_id new) (map fst items)"
      "int (length new) \<le> b_counts b' MaxSources - b_counts b MaxSources"
      "\<forall>s \<in> set (es_sources r1). fetched s \<or> (\<exists>f \<in> set (es_failures r1). sf_source_id f = Some (so_source_id s))"
    using g by (auto simp: public.gathers_def new_extract_stage_def)
  then show ?thesis using r1(2) ok(1) [of MaxSources] ok(2) [of MaxSources] ok(1) [of FetchRequests]
    by (auto simp: extract_usage_def)
qed

text \<open>A query that was already asked within the job ends the search stage: it is reported as \<open>max_queries\<close>
  exhausted however much of the budget is left, and no later query is asked.\<close>

theorem repeated_query_ends_stage:
  assumes "query_key (en_casefold env) (q_text q) \<in> set (b_query_keys (tv_budget p))"
    and "en_validate_query env (q_text q) = Inr t" and "\<not> stop 0"
  shows "\<exists>r. run_search_stage (tavily_provider env cfg) env stop ((i, q) # items) new_search_stage p = (None, r, p)
    \<and> ss_exhausted r = Some ''max_queries'' \<and> map qr_query_id (ss_queries r) = [i] \<and> ss_candidates r = []"
  using assms
  by (simp add: run_search_stage_def tavily_provider_def take_query_def Let_def exhaust_def fail_query_def add_query_def
      query_entry_def new_search_stage_def)

section \<open>Examples\<close>

definition ex_query :: query where
  "ex_query = \<lparr> q_text = [97], q_role = Overview, q_reason = [98] \<rparr>"

lemma ex_budget_ok: "budget_ok (new_budget clk default_limits)"
  by (rule new_budget_ok) simp

lemma search_stage_accounts_witness:
  "\<exists>e r p'. run_search_stage (tavily_provider ex_search_env ex_search_config) ex_search_env (\<lambda>_. False)
       [(''q1'', ex_query), (''q2'', ex_query)] new_search_stage (new_tavily (new_budget (\<lambda>_. 0) default_limits)) = (e, r, p')
     \<and> int (length (ss_candidates r)) = sum_list (map qr_result_count (ss_queries r))
     \<and> u_search_requests (ss_usage r) \<le> 20"
proof -
  let ?p = "new_tavily (new_budget (\<lambda>_. 0) default_limits)"
  obtain e r p' where run: "run_search_stage (tavily_provider ex_search_env ex_search_config) ex_search_env (\<lambda>_. False)
       [(''q1'', ex_query), (''q2'', ex_query)] new_search_stage ?p = (e, r, p')" by (metis surj_pair)
  have "budget_ok (tv_budget ?p)" by (simp add: new_tavily_def ex_budget_ok)
  from search_stage_accounts [OF run this] run show ?thesis
    by (auto simp: new_tavily_def new_budget_def default_limits_def)
qed

lemma ex_extract_returns:
  "\<exists>e r b'. run_extract_stage (public_fetcher ex_fetch_env []) (ex_search_env\<lparr> en_urls := fv_urls ex_fetch_env \<rparr>)
     (\<lambda>_. []) [] (\<lambda>_. False) [(''s1'', ex_fetch_candidate)] new_extract_stage ex_fetch_budget = Some (e, r, b')"
proof -
  let ?env = "ex_search_env\<lparr> en_urls := fv_urls ex_fetch_env \<rparr>"
  obtain key where key: "research_url (en_urls ?env) (c_url ex_fetch_candidate) = Some key"
    by (simp add: research_url_def ex_fetch_env_def)
  obtain u b1 where t: "take_source (en_clock ?env) key ex_fetch_budget = (u, b1)" by fastforce
  have lim: "b_limits b1 = default_limits"
    using t take_source_spends [of ex_fetch_budget "en_clock ?env" key]
    by (simp add: spends_def ex_fetch_budget_def new_budget_def)
  have "inflate (fv_inflate ex_fetch_env g) fed p \<noteq> None" for g fed p
    by (subst inflate.simps) (simp add: ex_fetch_env_def)
  then obtain v s where "fetch ex_fetch_env ex_fetch_candidate ''s1'' [] b1 = Some (v, s)"
    using fetch_returns [of ex_fetch_env b1] lim by (fastforce simp: ex_fetch_env_def default_limits_def)
  then show ?thesis using key t
    by (auto simp: run_extract_stage_def public_fetcher_def Let_def split: sum.split exn.split bool.split)
qed

lemma extract_stage_accounts_witness:
  "\<exists>e r b'. run_extract_stage (public_fetcher ex_fetch_env []) (ex_search_env\<lparr> en_urls := fv_urls ex_fetch_env \<rparr>)
     (\<lambda>_. []) [] (\<lambda>_. False) [(''s1'', ex_fetch_candidate)] new_extract_stage ex_fetch_budget = Some (e, r, b')
     \<and> int (length (es_sources r)) \<le> 12"
proof -
  obtain e r b' where run: "run_extract_stage (public_fetcher ex_fetch_env []) (ex_search_env\<lparr> en_urls := fv_urls ex_fetch_env \<rparr>)
     (\<lambda>_. []) [] (\<lambda>_. False) [(''s1'', ex_fetch_candidate)] new_extract_stage ex_fetch_budget = Some (e, r, b')"
    using ex_extract_returns by blast
  have "budget_ok ex_fetch_budget" by (simp add: ex_fetch_budget_def ex_budget_ok)
  from extract_stage_accounts [OF run this] run show ?thesis
    by (auto simp: ex_fetch_budget_def new_budget_def default_limits_def)
qed

lemma repeated_query_ends_stage_witness:
  "\<exists>r. run_search_stage (tavily_provider ex_search_env ex_search_config) ex_search_env (\<lambda>_. False)
     [(''q1'', ex_query), (''q2'', ex_query)] new_search_stage
     (new_tavily ((new_budget (\<lambda>_. 0) default_limits)\<lparr> b_query_keys := [[97]] \<rparr>))
       = (None, r, new_tavily ((new_budget (\<lambda>_. 0) default_limits)\<lparr> b_query_keys := [[97]] \<rparr>))
     \<and> ss_exhausted r = Some ''max_queries''"
proof -
  let ?p = "new_tavily ((new_budget (\<lambda>_. 0) default_limits)\<lparr> b_query_keys := [[97]] \<rparr>)"
  have "query_key (en_casefold ex_search_env) (q_text ex_query) \<in> set (b_query_keys (tv_budget ?p))"
    by (simp add: query_key_def ex_search_env_def ex_query_def new_tavily_def strip_def py_space_def)
  moreover have "en_validate_query ex_search_env (q_text ex_query) = Inr [97]"
    by (simp add: ex_search_env_def ex_query_def)
  ultimately show ?thesis
    using repeated_query_ends_stage [of ex_search_env ex_query ?p "[97]" "\<lambda>_. False" ex_search_config "''q1''"
        "[(''q2'', ex_query)]"] by auto
qed

end
