(* ===== verification/Manager_Http.thy ===== *)
theory Manager_Http
  imports Submission Network
begin

text \<open>
  The HTTP face of the manager: \<open>ManagerApp\<close> of \<open>manager.py\<close>. A request is one of the routes with its
  headers and the chunks of its body; the answer is a status and a body. JSON decoding and the conversion
  of decoded values to the contract's records are parameters; the conditions pydantic checks on those
  records are the \<open>valid_...\<close> predicates of the contract. \<open>uuid4\<close> is drawn from the arguments.
\<close>

section \<open>Requests and answers\<close>

datatype route =
    Health
  | ListWorkers
  | RegisterWorker
  | SubmitJob
  | ClaimJob
  | GetJob string
  | CancelJob string
  | RetryJob string
  | GetResult string
  | DeleteJob string
  | RenewLease string
  | FinalizeJob string
  | UploadArtifact string
  | DownloadArtifact string string

text \<open>A missing header is the empty string.\<close>

record api_request =
  rq_route :: route
  rq_worker_id :: string
  rq_credential :: string
  rq_attempt_id :: string
  rq_lease_token :: string
  rq_artifact_id :: string
  rq_artifact_name :: string
  rq_media_type :: string
  rq_sha256 :: string
  rq_schema_version :: "string option"
  rq_bytes :: string
  rq_body :: "byte_string list"

datatype answer =
    Failure string
  | Healthy
  | WorkerList "worker_row list"
  | WorkerView worker_row
  | JobView job_view
  | Created job_view bool
  | ResultView job_view "envelope option"
  | Deleted string nat
  | Claimed "(job_view \<times> attempt_row) option"
  | LeaseView lease_info
  | Saved artifact_ref
  | FileAnswer artifact_ref "string list"
  | NoAnswer

record api_reply =
  rp_status :: nat
  rp_answer :: answer

record draws =
  dr_job_id :: string
  dr_attempt_id :: string
  dr_lease_token :: string

record app =
  ap_settings :: settings
  ap_library :: library
  ap_loads :: "byte_string \<Rightarrow> json option"
  ap_registration :: "json \<Rightarrow> registration option"
  ap_submit :: "json \<Rightarrow> submit_job option"
  ap_envelope :: "json \<Rightarrow> envelope option"
  ap_json_size :: "observe_payload \<Rightarrow> nat"
  ap_int :: "string \<Rightarrow> int option"
  ap_id :: "utext \<Rightarrow> string"

definition MAX_ARTIFACT_BYTES :: int where "MAX_ARTIFACT_BYTES = 20 * 1024 * 1024"

definition artifact_limit :: "app \<Rightarrow> int" where
  "artifact_limit ap = min (max_artifact_bytes (ap_settings ap)) MAX_ARTIFACT_BYTES"

definition reply :: "nat \<Rightarrow> answer \<Rightarrow> api_reply" where
  "reply st x = \<lparr> rp_status = st, rp_answer = x \<rparr>"

text \<open>\<open>_manager_error_handler\<close>; a method that never returns is never answered.\<close>

fun error_reply :: "manager_error \<Rightarrow> api_reply" where
  "error_reply (ManagerError code status) = reply status (Failure code)"
| "error_reply ValidationError = reply 422 (Failure ''invalid_payload'')"
| "error_reply TypeError = reply 422 (Failure ''invalid_payload'')"
| "error_reply IntegrityError = reply 500 (Failure ''internal_error'')"
| "error_reply ValueError = reply 500 (Failure ''internal_error'')"
| "error_reply Diverges = reply 0 NoAnswer"

section \<open>Bodies\<close>

definition read_body :: "int \<Rightarrow> byte_string list \<Rightarrow> manager_error + byte_string" where
  "read_body bound pieces =
     (case read_chunks bound pieces [] of
        None \<Rightarrow> Inl (ManagerError ''payload_too_large'' 413) | Some data \<Rightarrow> Inr data)"

definition read_json :: "app \<Rightarrow> int \<Rightarrow> byte_string list \<Rightarrow> manager_error + json" where
  "read_json ap bound pieces =
     (case read_body bound pieces of
        Inl e \<Rightarrow> Inl e
      | Inr data \<Rightarrow>
          (case ap_loads ap data of
             None \<Rightarrow> Inl (ManagerError ''invalid_json'' 422)
           | Some v \<Rightarrow> if is_obj v then Inr v else Inl (ManagerError ''invalid_payload'' 422)))"

definition validated :: "('a \<Rightarrow> bool) \<Rightarrow> 'a option \<Rightarrow> manager_error + 'a" where
  "validated ok x = (case x of Some v \<Rightarrow> if ok v then Inr v else Inl (ManagerError ''invalid_payload'' 422)
     | None \<Rightarrow> Inl (ManagerError ''invalid_payload'' 422))"

definition checked_json :: "app \<Rightarrow> int \<Rightarrow> (json \<Rightarrow> 'a option) \<Rightarrow> ('a \<Rightarrow> bool) \<Rightarrow> byte_string list \<Rightarrow> manager_error + 'a" where
  "checked_json ap bound parse ok pieces =
     (case read_json ap bound pieces of Inl e \<Rightarrow> Inl e | Inr v \<Rightarrow> validated ok (parse v))"

section \<open>Handlers\<close>

text \<open>A handler raises or answers. \<open>answering\<close> turns an operation's outcome into an answer.\<close>

type_synonym handled = "(manager_error + api_reply) \<times> manager"

definition answering :: "('a \<Rightarrow> api_reply) \<Rightarrow> 'a outcome \<Rightarrow> handled" where
  "answering f r = (map_sum id f (fst r), snd r)"

definition require_requester :: "app \<Rightarrow> api_request \<Rightarrow> (manager \<Rightarrow> handled) \<Rightarrow> manager \<Rightarrow> handled" where
  "require_requester ap rq h m =
     (case authenticate_requester (ap_settings ap) (rq_credential rq) of Some e \<Rightarrow> (Inl e, m) | None \<Rightarrow> h m)"

definition require_worker :: "app \<Rightarrow> api_request \<Rightarrow> (manager \<Rightarrow> handled) \<Rightarrow> manager \<Rightarrow> handled" where
  "require_worker ap rq h m =
     (case check_worker_credential (ap_settings ap) (rq_worker_id rq) (rq_credential rq) of
        Some e \<Rightarrow> (Inl e, m) | None \<Rightarrow> h m)"

definition with_body :: "(manager_error + 'a) \<Rightarrow> ('a \<Rightarrow> manager \<Rightarrow> handled) \<Rightarrow> manager \<Rightarrow> handled" where
  "with_body b h m = (case b of Inl e \<Rightarrow> (Inl e, m) | Inr v \<Rightarrow> h v m)"

definition created_reply :: "job_view \<times> bool \<Rightarrow> api_reply" where
  "created_reply vc = reply (if snd vc then 202 else 200) (Created (fst vc) (snd vc))"

definition register_handler :: "app \<Rightarrow> clock \<Rightarrow> api_request \<Rightarrow> manager \<Rightarrow> handled" where
  "register_handler ap clk rq =
     with_body (checked_json ap (1024 * 1024) (ap_registration ap) valid_registration (rq_body rq)) (\<lambda>r.
       require_worker ap rq (\<lambda>m.
         answering (\<lambda>w. reply 200 (WorkerView w))
           (upsert_worker (ap_settings ap) clk (rq_worker_id rq) (rq_credential rq) r m)))"

definition submit_handler :: "app \<Rightarrow> clock \<Rightarrow> draws \<Rightarrow> api_request \<Rightarrow> manager \<Rightarrow> handled" where
  "submit_handler ap clk dr rq =
     require_requester ap rq
       (with_body (checked_json ap (256 * 1024) (ap_submit ap) (valid_submit (nfkc (ap_library ap))) (rq_body rq)) (\<lambda>s m.
          answering created_reply (submit (ap_settings ap) (ap_library ap) clk (dr_job_id dr) s m)))"

text \<open>\<open>body.get("submit_key")\<close>: absent or null, or a string.\<close>

definition retry_key :: "app \<Rightarrow> json \<Rightarrow> manager_error + string option" where
  "retry_key ap v =
     (case jget ''submit_key'' v of
        None \<Rightarrow> Inr None
      | Some JNull \<Rightarrow> Inr None
      | Some (JStr t) \<Rightarrow> Inr (Some (ap_id ap t))
      | _ \<Rightarrow> Inl (ManagerError ''invalid_payload'' 422))"

definition retry_handler :: "app \<Rightarrow> clock \<Rightarrow> draws \<Rightarrow> string \<Rightarrow> api_request \<Rightarrow> manager \<Rightarrow> handled" where
  "retry_handler ap clk dr job_id rq =
     require_requester ap rq
       (with_body (case read_json ap (64 * 1024) (rq_body rq) of Inl e \<Rightarrow> Inl e | Inr v \<Rightarrow> retry_key ap v) (\<lambda>key m.
          answering created_reply (retry (ap_settings ap) (ap_library ap) clk (dr_job_id dr) job_id key m)))"

definition result_handler :: "app \<Rightarrow> clock \<Rightarrow> string \<Rightarrow> manager \<Rightarrow> handled" where
  "result_handler ap clk job_id m0 =
     (case job_view (ap_settings ap) clk job_id m0 of
        (Inl e, m) \<Rightarrow> (Inl e, m)
      | (Inr v, m) \<Rightarrow>
          if \<not> terminal (j_state (v_row v)) then (Inl (ManagerError ''not_terminal'' 409), m)
          else (case job_result (ap_settings ap) (\<lambda>i. clk (i + 2)) job_id m of
                  (Inr r, m') \<Rightarrow> (Inr (reply 200 (ResultView v (Some r))), m')
                | (Inl e, m') \<Rightarrow>
                    if (case e of ManagerError code _ \<Rightarrow> code = ''result_unavailable'' | _ \<Rightarrow> False)
                    then (Inr (reply 200 (ResultView v None)), m') else (Inl e, m')))"

definition lease_reply :: "lease_info \<Rightarrow> api_reply" where
  "lease_reply i =
     reply (case li_job_state i of DeadlinePassed \<Rightarrow> 410 | JobState st \<Rightarrow> if terminal st then 410 else 200) (LeaseView i)"

definition finalize_handler :: "app \<Rightarrow> clock \<Rightarrow> string \<Rightarrow> api_request \<Rightarrow> manager \<Rightarrow> handled" where
  "finalize_handler ap clk job_id rq =
     require_worker ap rq
       (with_body (checked_json ap (8 * 1024 * 1024) (ap_envelope ap) (valid_envelope (ap_json_size ap)) (rq_body rq)) (\<lambda>r m.
          answering (\<lambda>v. reply 200 (JobView v))
            (finalize (ap_settings ap) clk job_id (rq_worker_id rq) (rq_credential rq) (rq_lease_token rq) r m)))"

text \<open>The checks of an upload before the manager sees it.\<close>

definition upload_request :: "app \<Rightarrow> api_request \<Rightarrow> manager_error + (artifact_ref \<times> byte_string)" where
  "upload_request ap rq =
     (case (if rq_bytes rq = [] then Some 0 else ap_int ap (rq_bytes rq)) of
        None \<Rightarrow> Inl (ManagerError ''invalid_artifact_size'' 400)
      | Some declared \<Rightarrow>
          if declared < 1 \<or> artifact_limit ap < declared then Inl (ManagerError ''invalid_artifact_size'' 400)
          else (case read_body (artifact_limit ap) (rq_body rq) of
             Inl e \<Rightarrow> Inl e
           | Inr data \<Rightarrow>
               if int (length data) \<noteq> declared then Inl (ManagerError ''artifact_size_mismatch'' 409)
               else (case ap_int ap (case rq_schema_version rq of None \<Rightarrow> ''1'' | Some v \<Rightarrow> v) of
                  None \<Rightarrow> Inl (ManagerError ''invalid_payload'' 422)
                | Some version \<Rightarrow>
                    map_sum id (\<lambda>r. (r, data)) (validated valid_artifact_ref (Some
                      \<lparr> ar_artifact_id = rq_artifact_id rq, ar_name = rq_artifact_name rq, ar_media_type = rq_media_type rq,
                        ar_bytes = int (length data), ar_sha256 = rq_sha256 rq, ar_schema_version = version \<rparr>)))))"

definition upload_handler :: "app \<Rightarrow> clock \<Rightarrow> string \<Rightarrow> api_request \<Rightarrow> manager \<Rightarrow> handled" where
  "upload_handler ap clk job_id rq =
     require_worker ap rq (with_body (upload_request ap rq) (\<lambda>(r, data) m.
       answering (\<lambda>s. reply 201 (Saved s))
         (add_artifact (ap_settings ap) (ap_library ap) clk job_id (rq_worker_id rq) (rq_credential rq)
           (rq_attempt_id rq) (rq_lease_token rq) r data m)))"

definition list_handler :: "app \<Rightarrow> api_request \<Rightarrow> manager \<Rightarrow> handled" where
  "list_handler ap rq = require_requester ap rq (\<lambda>m. (Inr (reply 200 (WorkerList (list_workers m))), m))"

definition claim_handler :: "app \<Rightarrow> clock \<Rightarrow> draws \<Rightarrow> api_request \<Rightarrow> manager \<Rightarrow> handled" where
  "claim_handler ap clk dr rq =
     require_worker ap rq (\<lambda>m. answering (\<lambda>c. reply 200 (Claimed c))
       (claim (ap_settings ap) clk (dr_attempt_id dr) (dr_lease_token dr) (rq_worker_id rq) (rq_credential rq) m))"

definition get_handler :: "app \<Rightarrow> clock \<Rightarrow> string \<Rightarrow> api_request \<Rightarrow> manager \<Rightarrow> handled" where
  "get_handler ap clk job_id rq =
     require_requester ap rq (\<lambda>m. answering (\<lambda>v. reply 200 (JobView v)) (job_view (ap_settings ap) clk job_id m))"

definition cancel_handler :: "app \<Rightarrow> clock \<Rightarrow> string \<Rightarrow> api_request \<Rightarrow> manager \<Rightarrow> handled" where
  "cancel_handler ap clk job_id rq =
     require_requester ap rq (\<lambda>m. answering (\<lambda>v. reply 200 (JobView v)) (cancel (ap_settings ap) clk job_id m))"

definition delete_handler :: "app \<Rightarrow> string \<Rightarrow> api_request \<Rightarrow> manager \<Rightarrow> handled" where
  "delete_handler ap job_id rq =
     require_requester ap rq (\<lambda>m. answering (\<lambda>n. reply 202 (Deleted job_id n)) (delete_job job_id m))"

definition lease_handler :: "app \<Rightarrow> clock \<Rightarrow> string \<Rightarrow> api_request \<Rightarrow> manager \<Rightarrow> handled" where
  "lease_handler ap clk job_id rq =
     require_worker ap rq (\<lambda>m. answering lease_reply
       (renew_lease (ap_settings ap) clk job_id (rq_worker_id rq) (rq_credential rq)
         (rq_attempt_id rq) (rq_lease_token rq) m))"

definition download_handler :: "app \<Rightarrow> clock \<Rightarrow> string \<Rightarrow> string \<Rightarrow> api_request \<Rightarrow> manager \<Rightarrow> handled" where
  "download_handler ap clk job_id artifact_id rq =
     require_requester ap rq (\<lambda>m. answering (\<lambda>(r, path). reply 200 (FileAnswer r path))
       (get_artifact clk job_id artifact_id m))"

fun route_handler :: "route \<Rightarrow> app \<Rightarrow> clock \<Rightarrow> draws \<Rightarrow> api_request \<Rightarrow> manager \<Rightarrow> handled" where
  "route_handler Health ap clk dr rq = (\<lambda>m. (Inr (reply 200 Healthy), m))"
| "route_handler ListWorkers ap clk dr rq = list_handler ap rq"
| "route_handler RegisterWorker ap clk dr rq = register_handler ap clk rq"
| "route_handler SubmitJob ap clk dr rq = submit_handler ap clk dr rq"
| "route_handler ClaimJob ap clk dr rq = claim_handler ap clk dr rq"
| "route_handler (GetJob k) ap clk dr rq = get_handler ap clk k rq"
| "route_handler (CancelJob k) ap clk dr rq = cancel_handler ap clk k rq"
| "route_handler (RetryJob k) ap clk dr rq = retry_handler ap clk dr k rq"
| "route_handler (GetResult k) ap clk dr rq = require_requester ap rq (result_handler ap clk k)"
| "route_handler (DeleteJob k) ap clk dr rq = delete_handler ap k rq"
| "route_handler (RenewLease k) ap clk dr rq = lease_handler ap clk k rq"
| "route_handler (FinalizeJob k) ap clk dr rq = finalize_handler ap clk k rq"
| "route_handler (UploadArtifact k) ap clk dr rq = upload_handler ap clk k rq"
| "route_handler (DownloadArtifact k i) ap clk dr rq = download_handler ap clk k i rq"

text \<open>The middleware around every handler.\<close>

definition serve :: "app \<Rightarrow> clock \<Rightarrow> draws \<Rightarrow> api_request \<Rightarrow> manager \<Rightarrow> api_reply \<times> manager" where
  "serve ap clk dr rq m =
     (case route_handler (rq_route rq) ap clk dr rq m of
        (Inl e, m') \<Rightarrow> (error_reply e, m')
      | (Inr r, m') \<Rightarrow> (r, m'))"

text \<open>The routes a worker calls; the others are the requester's.\<close>

fun for_worker :: "route \<Rightarrow> bool" where
  "for_worker RegisterWorker = True"
| "for_worker ClaimJob = True"
| "for_worker (RenewLease k) = True"
| "for_worker (FinalizeJob k) = True"
| "for_worker (UploadArtifact k) = True"
| "for_worker _ = False"

section \<open>Requests are steps of the machine\<close>

lemmas handler_defs = list_handler_def claim_handler_def get_handler_def cancel_handler_def
  delete_handler_def lease_handler_def download_handler_def register_handler_def submit_handler_def
  retry_handler_def finalize_handler_def upload_handler_def

lemma snd_answering [simp]: "snd (answering f r) = snd r"
  by (simp add: answering_def)

lemma fst_answering_Inl [simp]: "fst (answering f r) = Inl e \<longleftrightarrow> fst r = Inl e"
  by (cases "fst r") (simp_all add: answering_def)

lemma serve_state [simp]: "snd (serve ap clk dr rq m) = snd (route_handler (rq_route rq) ap clk dr rq m)"
  by (auto simp: serve_def split: prod.splits sum.splits)

lemma checked_json_ok: "checked_json ap b parse ok pieces = Inr v \<Longrightarrow> ok v"
  by (auto simp: checked_json_def validated_def split: sum.splits option.splits if_splits)

text \<open>What a guarded handler does to the state is nothing, or what the method behind it does.\<close>

lemma require_requester_cases:
  obtains e where "authenticate_requester (ap_settings ap) (rq_credential rq) = Some e"
      "require_requester ap rq h m = (Inl e, m)"
  | "authenticate_requester (ap_settings ap) (rq_credential rq) = None" "require_requester ap rq h m = h m"
  by (cases "authenticate_requester (ap_settings ap) (rq_credential rq)") (auto simp: require_requester_def)

lemma require_worker_cases:
  obtains e where "check_worker_credential (ap_settings ap) (rq_worker_id rq) (rq_credential rq) = Some e"
      "require_worker ap rq h m = (Inl e, m)"
  | "check_worker_credential (ap_settings ap) (rq_worker_id rq) (rq_credential rq) = None"
      "require_worker ap rq h m = h m"
  by (cases "check_worker_credential (ap_settings ap) (rq_worker_id rq) (rq_credential rq)")
    (auto simp: require_worker_def)

lemma guarded_state:
  "P m \<Longrightarrow> P (snd (h m)) \<Longrightarrow> P (snd (require_requester ap rq h m))"
  "P m \<Longrightarrow> P (snd (h m)) \<Longrightarrow> P (snd (require_worker ap rq h m))"
  "P m \<Longrightarrow> (\<And>v. b = Inr v \<Longrightarrow> P (snd (g v m))) \<Longrightarrow> P (snd (with_body b g m))"
  by (auto simp: require_requester_def require_worker_def with_body_def split: option.splits sum.splits)

text \<open>\<open>uuid4\<close> draws no identifier an older row names as its parent.\<close>

definition fresh_draws :: "manager \<Rightarrow> draws \<Rightarrow> bool" where
  "fresh_draws m dr \<longleftrightarrow> Some (dr_job_id dr) \<notin> j_parent_job_id ` set (jobs m)"

inductive http_step :: "app \<Rightarrow> manager \<Rightarrow> clock \<Rightarrow> manager \<Rightarrow> bool" for ap :: app where
  http_request: "fresh_draws m dr \<Longrightarrow> http_step ap m clk (snd (serve ap clk dr rq m))"
| http_sweep: "http_step ap m clk (snd (sweep_once (ap_settings ap) clk m))"

definition served :: "app \<Rightarrow> manager \<Rightarrow> bool" where
  "served ap = reachable (\<lambda>m. m = empty_manager) (http_step ap)"

lemma reach_next: "manager_reachable cfg lib m \<Longrightarrow> manager_step cfg lib m clk m' \<Longrightarrow> manager_reachable cfg lib m'"
  unfolding manager_reachable_def by (rule reachable_step)

lemma result_handler_state:
  "snd (result_handler ap clk k m) = snd (job_view (ap_settings ap) clk k m)
   \<or> snd (result_handler ap clk k m)
       = snd (job_result (ap_settings ap) (\<lambda>i. clk (i + 2)) k (snd (job_view (ap_settings ap) clk k m)))"
  by (auto simp: result_handler_def split: prod.splits sum.splits)

lemmas registration_ok = checked_json_ok [where ok = valid_registration]
lemmas submission_ok = checked_json_ok [where ok = "valid_submit (nfkc lib)" for lib]

lemma serve_reaches:
  assumes m: "manager_reachable (ap_settings ap) (ap_library ap) m"
    and dr: "\<not> for_worker (rq_route rq) \<Longrightarrow> fresh_draws m dr"
  shows "manager_reachable (ap_settings ap) (ap_library ap) (snd (serve ap clk dr rq m))"
proof -
  let ?R = "manager_reachable (ap_settings ap) (ap_library ap)"
  note step = reach_next [OF m]
  show ?thesis
  proof (cases "rq_route rq")
    case (GetResult k)
    show ?thesis
      using GetResult result_handler_state [of ap clk k m] m
      by (auto intro!: guarded_state [where P = ?R] step [OF step_view] reach_next [OF step [OF step_view] step_result])
  next
    case RegisterWorker
    then show ?thesis
      using m by (auto simp: register_handler_def intro!: guarded_state [where P = ?R]
          step [OF step_register] intro: registration_ok)
  next
    case SubmitJob
    then show ?thesis
      using m dr by (auto simp: submit_handler_def fresh_draws_def intro!: guarded_state [where P = ?R]
          step [OF step_submit] intro: submission_ok)
  qed (use m dr in \<open>auto simp: handler_defs fresh_draws_def split: prod.splits
       intro!: guarded_state [where P = ?R] intro: manager_step.intros [THEN step]\<close>)
qed

lemma http_reaches: "served ap m \<Longrightarrow> manager_reachable (ap_settings ap) (ap_library ap) m"
  unfolding served_def
proof (induction rule: reachable.induct)
  case (reachable_init m)
  then show ?case by (auto simp: manager_reachable_def intro: reachable.reachable_init)
next
  case (reachable_step m clk m')
  then show ?case by (auto elim!: http_step.cases simp del: serve_state intro: serve_reaches reach_next step_sweep)
qed

section \<open>Credentials\<close>

text \<open>Whether a request carries the secret its route asks for.\<close>

definition authorized :: "app \<Rightarrow> api_request \<Rightarrow> bool" where
  "authorized ap rq \<longleftrightarrow> rq_route rq = Health \<or>
     (if for_worker (rq_route rq)
      then (\<exists>env. worker_credentials_env (ap_settings ap) (rq_worker_id rq) = Some env
              \<and> environ (ap_settings ap) env = Some (rq_credential rq)) \<and> rq_credential rq \<noteq> []
      else environ (ap_settings ap) (requester_credential_env (ap_settings ap)) = Some (rq_credential rq)
              \<and> rq_credential rq \<noteq> [])"

text \<open>The error of the guard of a request without the secret its route asks for.\<close>

definition guard_error :: "app \<Rightarrow> api_request \<Rightarrow> manager_error option" where
  "guard_error ap rq =
     (if for_worker (rq_route rq)
      then check_worker_credential (ap_settings ap) (rq_worker_id rq) (rq_credential rq)
      else authenticate_requester (ap_settings ap) (rq_credential rq))"

definition ascii_secrets :: "app \<Rightarrow> bool" where
  "ascii_secrets ap \<longleftrightarrow> (\<forall>env v. environ (ap_settings ap) env = Some v \<longrightarrow> ascii_only v)"

lemma credential_error:
  assumes "\<not> (provided = expected \<and> expected \<noteq> [])"
  obtains e where "compare_credential provided expected = Some e" "rp_status (error_reply e) \<in> {401, 422}"
    "ascii_only provided \<Longrightarrow> ascii_only expected \<Longrightarrow> rp_status (error_reply e) = 401"
    "\<exists>code. rp_answer (error_reply e) = Failure code"
proof (cases "expected = []")
  case True
  then show ?thesis by (intro that [of "ManagerError ''unauthorized'' 401"]) (simp_all add: compare_credential_def reply_def)
next
  case False
  with assms have ne: "provided \<noteq> expected" by simp
  show ?thesis
  proof (cases "ascii_only provided \<and> ascii_only expected")
    case True
    with ne False show ?thesis
      by (intro that [of "ManagerError ''unauthorized'' 401"]) (simp_all add: compare_credential_def reply_def)
  next
    case nonascii: False
    with ne False show ?thesis
      by (intro that [of TypeError]) (auto simp: compare_credential_def reply_def)
  qed
qed

lemma ascii_environ: "ascii_secrets ap \<Longrightarrow> ascii_only (case environ (ap_settings ap) env of None \<Rightarrow> [] | Some v \<Rightarrow> v)"
  by (auto simp: ascii_secrets_def ascii_only_def split: option.splits)

lemma unauthorized_error:
  assumes "\<not> authorized ap rq"
  obtains e where "guard_error ap rq = Some e" "rp_status (error_reply e) \<in> {401, 422}"
    "ascii_only (rq_credential rq) \<Longrightarrow> ascii_secrets ap \<Longrightarrow> rp_status (error_reply e) = 401"
    "\<exists>code. rp_answer (error_reply e) = Failure code"
proof -
  note found = that
  let ?env = "environ (ap_settings ap)"
  have requester: thesis if "\<not> for_worker (rq_route rq)"
  proof -
    let ?e = "case ?env (requester_credential_env (ap_settings ap)) of None \<Rightarrow> [] | Some v \<Rightarrow> v"
    have "\<not> (rq_credential rq = ?e \<and> ?e \<noteq> [])"
      using assms that by (auto simp: authorized_def split: option.splits)
    then show thesis
      using \<open>\<not> for_worker (rq_route rq)\<close> ascii_environ [of ap] found
      by (elim credential_error) (simp add: guard_error_def authenticate_requester_def)
  qed
  show thesis
  proof (cases "for_worker (rq_route rq) \<and> worker_credentials_env (ap_settings ap) (rq_worker_id rq) = None")
    case True
    then show thesis
      by (intro that [of "ManagerError ''unknown_worker'' 401"])
        (simp_all add: guard_error_def check_worker_credential_def reply_def)
  next
    case False
    show thesis
    proof (cases "for_worker (rq_route rq)")
      case w: True
      with False obtain env where env: "worker_credentials_env (ap_settings ap) (rq_worker_id rq) = Some env" by auto
      let ?e = "case ?env env of None \<Rightarrow> [] | Some v \<Rightarrow> v"
      have "\<not> (rq_credential rq = ?e \<and> ?e \<noteq> [])"
        using assms w env by (auto simp: authorized_def split: option.splits)
      then show thesis
        using w env ascii_environ [of ap env] that
        by (elim credential_error) (simp add: guard_error_def check_worker_credential_def)
    next
      case False
      then show thesis by (rule requester)
    qed
  qed
qed

lemma checked_json_error:
  "checked_json ap b parse ok pieces = Inl e \<Longrightarrow> e \<in> {ManagerError ''payload_too_large'' 413,
     ManagerError ''invalid_json'' 422, ManagerError ''invalid_payload'' 422}"
  by (auto simp: checked_json_def read_json_def read_body_def validated_def
      split: sum.splits option.splits if_splits)

lemma guarded_requests:
  assumes "guard_error ap rq = Some e" "rq_route rq \<noteq> Health"
  shows "snd (serve ap clk dr rq m) = m
     \<and> (fst (serve ap clk dr rq m) = error_reply e
        \<or> rq_route rq = RegisterWorker \<and> (\<exists>e'. fst (serve ap clk dr rq m) = error_reply e'
            \<and> e' \<in> {ManagerError ''payload_too_large'' 413, ManagerError ''invalid_json'' 422,
                 ManagerError ''invalid_payload'' 422}))"
proof (cases "rq_route rq")
  case RegisterWorker
  show ?thesis
  proof (cases "checked_json ap (1024 * 1024) (ap_registration ap) valid_registration (rq_body rq)")
    case (Inl e')
    with RegisterWorker checked_json_error [OF Inl] show ?thesis
      by (auto simp: serve_def register_handler_def with_body_def)
  next
    case (Inr r)
    with RegisterWorker assms(1) show ?thesis
      by (simp add: serve_def register_handler_def with_body_def require_worker_def guard_error_def)
  qed
qed (use assms in \<open>simp_all add: serve_def guard_error_def require_worker_def require_requester_def handler_defs\<close>)

section \<open>Refusals\<close>

text \<open>
  A method that fails has at most let retention erase what was due, and it never fails by not
  coming back.
\<close>

definition retained :: "manager \<Rightarrow> manager \<Rightarrow> bool" where
  "retained m m' \<longleftrightarrow> (\<exists>ts. m' = fold (\<lambda>t s. snd (expire_observations t s)) ts m)"

definition orderly :: "manager \<Rightarrow> (manager_error + 'a) \<times> manager \<Rightarrow> bool" where
  "orderly m r \<longleftrightarrow> (\<forall>e. fst r = Inl e \<longrightarrow> e \<noteq> Diverges \<and> retained m (snd r))"

named_theorems orderly

lemma retained_refl [simp]: "retained m m"
  unfolding retained_def by (rule exI [of _ "[]"]) simp

lemma retained_expire [simp]: "retained m (snd (expire_observations t m))"
  unfolding retained_def by (rule exI [of _ "[t]"]) simp

lemma retained_trans: "retained m m' \<Longrightarrow> retained m' m'' \<Longrightarrow> retained m m''"
  unfolding retained_def by (metis fold_append o_apply)

lemma check_orderly:
  "check_worker_credential cfg w c \<noteq> Some Diverges" "authenticate_requester cfg c \<noteq> Some Diverges"
  by (auto simp: check_worker_credential_def authenticate_requester_def compare_credential_def
      split: option.splits)

lemma map_sum_Inl [simp]: "map_sum id f x = Inl e \<longleftrightarrow> x = Inl e"
  by (cases x) auto

lemma map_sum_Inr [simp]: "map_sum id f x = Inr r \<longleftrightarrow> (\<exists>y. x = Inr y \<and> r = f y)"
  by (cases x) auto

lemma eligible_orderly [simp]: "eligible_workers cfg m row now \<noteq> Inl Diverges"
  by (auto simp: eligible_workers_def Let_def split: option.splits)

lemma claimable_orderly: "first_claimable cfg m w caps now cs \<noteq> Inl Diverges"
proof (induction cs)
  case (Cons c cs)
  then show ?case
    by (cases "eligible_workers cfg m c now") (auto split: option.splits list.splits)
qed simp

lemma view_orderly: "view_of cfg m now row \<noteq> Inl Diverges" "view_by_id cfg m now k \<noteq> Inl Diverges"
  by (auto simp: view_of_def view_by_id_def wait_reason_def eligible_workers_def Let_def
      split: option.splits sum.splits)

lemma upsert_orderly [orderly]: "orderly m (upsert_worker cfg clk w c r m)"
  using check_orderly(1) [of cfg w c]
  by (auto simp: orderly_def upsert_worker_def Let_def split: option.splits)

lemma admit_orderly:
  assumes "manager_inv m"
  shows "admit_child m s now \<noteq> Some Diverges"
proof
  assume a: "admit_child m s now = Some Diverges"
  then obtain p parent where p: "job_row_of m p = Some parent" "validate_child_allocation m parent s now = Some Diverges"
    by (auto simp: admit_child_def split: option.splits if_splits)
  then have "parent \<in> set (jobs m)" using assms by (simp add: job_row_in)
  then obtain pre post where js: "jobs m = pre @ parent # post" by (auto simp: in_set_conv_decomp)
  from p(2) have "root_job (jobs m) (Suc (length (jobs m))) parent = Inl Diverges"
    by (auto simp: validate_child_allocation_def Let_def simp del: root_job.simps split: sum.splits if_splits)
  moreover have "root_job (jobs m) (Suc (length (jobs m))) parent \<noteq> Inl Diverges"
    by (rule root_job_no_diverge [OF inv_forest [OF assms] js]) (simp add: js)
  ultimately show False by simp
qed

lemma submit_orderly [orderly]:
  assumes "manager_inv m" "valid_submit (nfkc lib) s"
  shows "orderly m (submit cfg lib clk k s m)"
proof -
  let ?row = "new_job_row lib (clk 1) k s"
  have "required_capabilities ?row \<noteq> None"
    using job_ok_new [OF assms(2)] by (simp add: job_ok_def)
  moreover have "view_by_id cfg (m\<lparr> jobs := jobs m @ [?row] \<rparr>) now k = view_of cfg (m\<lparr> jobs := jobs m @ [?row] \<rparr>) now ?row"
    if "k \<notin> j_job_id ` set (jobs m)" for now
    using that by (simp add: view_by_id_def job_row_of_def find_row_append find_row_notin)
  ultimately have new: "\<exists>v. view_by_id cfg (m\<lparr> jobs := jobs m @ [?row] \<rparr>) (clk 2) k = Inr v"
    if "k \<notin> j_job_id ` set (jobs m)"
    using that by (metis view_of_total)
  note admit = admit_orderly [OF assms(1), of s "clk 0"]
  show ?thesis
  proof (cases "k \<in> j_job_id ` set (jobs m)")
    case True
    then show ?thesis
      using admit view_orderly(1) [of cfg m "clk 2"]
      by (auto simp: orderly_def submit_def split: option.splits sum.splits)
  next
    case False
    with new obtain v where "view_by_id cfg (m\<lparr> jobs := jobs m @ [?row] \<rparr>) (clk 2) k = Inr v" by blast
    with False admit view_orderly(1) [of cfg m "clk 2"] show ?thesis
      by (auto simp: orderly_def submit_def Let_def split: option.splits sum.splits)
  qed
qed

lemma retry_orderly [orderly]:
  assumes "manager_inv m"
  shows "orderly m (retry cfg lib clk n k key m)"
proof (cases "retry_request lib (clk 0) k key m")
  case (Inl e)
  moreover have "e \<noteq> Diverges"
    using Inl by (auto simp: retry_request_def retry_budget_def Let_def split: option.splits if_splits sum.splits)
  ultimately show ?thesis by (simp add: retry_def orderly_def)
next
  case (Inr s)
  then have "valid_submit (nfkc lib) s"
    by (auto simp: retry_request_def Let_def split: option.splits if_splits sum.splits)
  with Inr submit_orderly [OF assms] show ?thesis by (simp add: retry_def)
qed

lemma claim_orderly [orderly]:
  assumes "manager_inv m"
  shows "orderly m (claim cfg clk att token w c m)"
proof (cases rule: claim_cases [of cfg clk att token w c m])
  case refused
  have "claim_target cfg clk w c m \<noteq> Inl Diverges"
    using check_orderly(1) [of cfg w c] claimable_orderly by (auto simp: claim_target_def split: option.splits)
  then have "fst (claim cfg clk att token w c m) \<noteq> Inl Diverges"
    using view_orderly(2) by (auto simp: claim_def Let_def split: sum.splits option.splits)
  with refused show ?thesis by (auto simp: orderly_def)
next
  case (started row)
  let ?m = "start_attempt cfg (clk 1) w att token row m"
  have inv: "manager_inv ?m" using assms inv_claim [of m cfg clk att token w c] started(2) by simp
  have row: "row \<in> set (jobs m)" "j_state row = Queued" using claim_target_row [OF started(1)] by simp_all
  then have "j_job_id row \<in> j_job_id ` set (jobs ?m)"
    by (simp add: start_attempt_def ids_update_rows)
  then obtain j where "job_row_of ?m (j_job_id row) = Some j" using inv by (auto simp: job_row_in)
  then obtain v where "view_by_id cfg ?m (clk 2) (j_job_id row) = Inr v" by (rule view_by_id_total [OF inv])
  with started(1) have "\<exists>x. fst (claim cfg clk att token w c m) = Inr x \<or> snd (claim cfg clk att token w c m) = m
      \<and> fst (claim cfg clk att token w c m) \<noteq> Inl Diverges"
    by (auto simp: claim_def Let_def)
  then show ?thesis by (auto simp: orderly_def)
qed

lemma renew_orderly [orderly]: "orderly m (renew_lease cfg clk k w c att token m)"
  using check_orderly(1) [of cfg w c]
  by (auto simp: orderly_def renew_lease_def Let_def split: option.splits)

lemma delete_orderly [orderly]: "orderly m (delete_job k m)"
  by (auto simp: orderly_def delete_job_def Let_def split: option.splits)

lemma cancel_orderly [orderly]:
  assumes "manager_inv m"
  shows "orderly m (cancel cfg clk k m)"
proof (cases "job_row_of m k")
  case (Some row)
  let ?m = "snd (cancel cfg clk k m)"
  have inv: "manager_inv ?m" by (rule inv_cancel [OF assms])
  have "k \<in> j_job_id ` set (jobs m)" using Some assms by (auto simp: job_row_in)
  then have "k \<in> j_job_id ` set (jobs ?m)"
    using Some by (simp add: cancel_def Let_def set_job_def ids_update_rows)
  then obtain j where "job_row_of ?m k = Some j" using inv by (auto simp: job_row_in)
  then obtain v where "view_by_id cfg ?m (clk 0) k = Inr v" by (rule view_by_id_total [OF inv])
  with Some view_orderly(1) [of cfg m "clk 0" row] show ?thesis
    by (cases "terminal (j_state row)") (auto simp: orderly_def cancel_def Let_def)
qed (simp add: orderly_def cancel_def)

lemma job_view_orderly [orderly]: "orderly m (job_view cfg clk k m)"
  using view_orderly(1) [of cfg "snd (expire_observations (clk 0) m)" "clk 1"]
  by (auto simp: orderly_def job_view_def Let_def split: option.splits)

lemma job_view_retained: "retained m (snd (job_view cfg clk k m))"
  by (auto simp: job_view_def Let_def split: option.splits)

lemma job_result_orderly [orderly]: "orderly m (job_result cfg clk k m)"
  and job_result_retained: "retained m (snd (job_result cfg clk k m))"
proof -
  let ?v = "job_view cfg (\<lambda>i. clk (Suc i)) k (snd (expire_observations (clk 0) m))"
  have "retained m (snd ?v)" by (rule retained_trans [OF retained_expire job_view_retained])
  moreover have "fst ?v \<noteq> Inl Diverges"
    using job_view_orderly [of "snd (expire_observations (clk 0) m)" cfg "\<lambda>i. clk (Suc i)" k]
    by (auto simp: orderly_def)
  ultimately show "orderly m (job_result cfg clk k m)" "retained m (snd (job_result cfg clk k m))"
    by (auto simp: orderly_def job_result_def split: prod.splits sum.splits option.splits)
qed

lemma get_artifact_orderly [orderly]: "orderly m (get_artifact clk k i m)"
  by (auto simp: orderly_def get_artifact_def Let_def split: option.splits)

lemma add_artifact_orderly [orderly]: "orderly m (add_artifact cfg lib clk k w c att token r data m)"
proof (cases "artifact_check cfg lib (clk 0) k w c att token r data m")
  case (Inl e)
  then have "e \<noteq> Diverges"
    using check_orderly(1) [of cfg w c] by (auto simp: artifact_check_def split: option.splits if_splits)
  with Inl show ?thesis by (simp add: orderly_def add_artifact_def)
qed (auto simp: orderly_def add_artifact_def split: bool.splits)

text \<open>An unsettled job has no observation, so a first result is always stored.\<close>

lemma no_observation_yet:
  assumes "manager_inv m" "job_row_of m k = Some j" "active_state (j_state j)"
  shows "k \<notin> o_job_id ` set (observations m)"
proof
  assume "k \<in> o_job_id ` set (observations m)"
  then obtain j' where "j' \<in> set (jobs m)" "j_job_id j' = k" "settled (j_state j')"
    using assms(1) by (auto simp: manager_inv_def observations_ok_def)
  moreover from this have "j' = j" using assms(1,2) by (auto simp: job_row_in intro: job_unique)
  ultimately show False using assms(3) by simp
qed

lemma finalize_check_orderly: "finalize_check cfg clk k w c token r m \<noteq> Inl Diverges"
proof -
  have "check_manifest m k a rs \<noteq> Some Diverges" for a rs
    by (induction rs) (auto split: option.splits)
  moreover have "final_state st s \<noteq> Inl Diverges" for st s
    by (auto simp: final_state_def)
  moreover have "validate_observation_result row r now \<noteq> Some Diverges" for row now
    by (auto simp: validate_observation_result_def Let_def split: payload.splits job_input.splits option.splits)
  ultimately show ?thesis
    using check_orderly(1) [of cfg w c]
    by (auto simp: finalize_check_def split: option.splits sum.splits)
qed

lemma finalize_orderly [orderly]:
  assumes inv: "manager_inv m"
  shows "orderly m (finalize cfg clk k w c token r m)"
proof (cases "finalize_check cfg clk k w c token r m")
  case (Inl e)
  with finalize_check_orderly [of cfg clk k w c token r m] show ?thesis by (auto simp: finalize_def orderly_def)
next
  case (Inr x)
  obtain row a st where x: "x = (row, a, st)" by (cases x)
  show ?thesis
  proof (cases st)
    case None
    with Inr x view_orderly(1) [of cfg m "clk 3" row] show ?thesis by (auto simp: finalize_def orderly_def)
  next
    case (Some st')
    let ?m = "snd (finalize cfg clk k w c token r m)" and ?s = "store_result k (a_attempt_id a) st' r (clk 2) m"
    note d = finalize_check_storeD [OF Inr [unfolded x Some]]
    have "k \<notin> o_job_id ` set (observations m)"
      by (rule no_observation_yet [OF inv d(2)]) (use final_state_settled [OF d(12)] in blast)
    then have none: "k \<notin> o_job_id ` set (observations ?s)" by (simp add: store_result_def Let_def)
    have inv': "manager_inv ?m" by (rule inv_finalize [OF inv])
    have "k \<in> j_job_id ` set (jobs m)" using d(2) inv by (auto simp: job_row_in)
    then have "k \<in> j_job_id ` set (jobs ?s)" by (simp add: store_result_def Let_def ids_update_rows)
    then have "k \<in> j_job_id ` set (jobs ?m)"
      using Inr x Some by (simp add: finalize_def Let_def split: payload.splits)
    then obtain j where "job_row_of ?m k = Some j" using inv' by (auto simp: job_row_in)
    then obtain v where "view_by_id cfg ?m (clk 3) k = Inr v" by (rule view_by_id_total [OF inv'])
    then show ?thesis
      using none Inr x Some by (cases "e_payload r") (auto simp: orderly_def finalize_def Let_def)
  qed
qed

text \<open>The guards of the handlers pass orderliness on.\<close>

lemma orderly_refused: "e \<noteq> Diverges \<Longrightarrow> orderly m (Inl e, m)"
  by (simp add: orderly_def)

lemma orderly_answering [orderly]: "orderly m r \<Longrightarrow> orderly m (answering f r)"
  by (simp add: orderly_def)

lemma orderly_guards:
  "orderly m (h m) \<Longrightarrow> orderly m (require_requester ap rq h m)"
  "orderly m (h m) \<Longrightarrow> orderly m (require_worker ap rq h m)"
  "b \<noteq> Inl Diverges \<Longrightarrow> (\<And>v. b = Inr v \<Longrightarrow> orderly m (g v m)) \<Longrightarrow> orderly m (with_body b g m)"
  using check_orderly by (auto simp: require_requester_def require_worker_def with_body_def orderly_def
      split: option.splits sum.splits)

lemma read_json_orderly [simp]: "read_json ap b pieces \<noteq> Inl Diverges"
  by (auto simp: read_json_def read_body_def split: option.splits sum.splits)

lemma checked_orderly [simp]: "checked_json ap b parse ok pieces \<noteq> Inl Diverges"
  using read_json_orderly [of ap b pieces]
  by (auto simp: checked_json_def validated_def split: option.splits sum.splits)

lemma upload_orderly [simp]: "upload_request ap rq \<noteq> Inl Diverges"
  by (auto simp: upload_request_def read_body_def validated_def split: option.splits sum.splits)

lemma retry_key_orderly [simp]: "retry_key ap v \<noteq> Inl Diverges"
  by (auto simp: retry_key_def split: option.splits json.splits)

lemma result_handler_orderly [orderly]: "orderly m (result_handler ap clk k m)"
proof -
  let ?v = "job_view (ap_settings ap) clk k m"
  let ?r = "job_result (ap_settings ap) (\<lambda>i. clk (i + 2)) k (snd ?v)"
  have "retained m (snd ?r)" by (rule retained_trans [OF job_view_retained job_result_retained])
  moreover have "orderly (snd ?v) ?r" "orderly m ?v" by (rule orderly)+
  ultimately show ?thesis
    using job_view_retained [of m "ap_settings ap" clk k]
    by (auto simp: orderly_def result_handler_def split: prod.splits sum.splits if_splits)
qed

lemma handler_orderly:
  assumes "manager_inv m"
  shows "orderly m (route_handler (rq_route rq) ap clk dr rq m)"
proof (cases "rq_route rq")
  case SubmitJob
  then show ?thesis
    by (auto simp: submit_handler_def intro!: orderly_guards orderly assms intro: submission_ok)
next
  case (RetryJob k)
  then show ?thesis
    by (auto simp: retry_handler_def split: sum.splits intro!: orderly_guards orderly assms)
qed (use assms in \<open>auto simp: handler_defs orderly_def [of _ "(Inr _, _)"] split: prod.splits
       intro!: orderly_guards orderly\<close>)

lemma serve_failure:
  assumes "rp_answer (fst (serve ap clk dr rq m)) = Failure code \<or> rp_answer (fst (serve ap clk dr rq m)) = NoAnswer"
  obtains e where "fst (route_handler (rq_route rq) ap clk dr rq m) = Inl e"
    "fst (serve ap clk dr rq m) = error_reply e"
proof (cases "fst (route_handler (rq_route rq) ap clk dr rq m)")
  case (Inl e)
  then show ?thesis by (intro that [of e]) (auto simp: serve_def split: prod.splits)
next
  case (Inr r)
  have "rp_answer r \<noteq> Failure code \<and> rp_answer r \<noteq> NoAnswer"
    using Inr by (cases "rq_route rq")
      (auto simp: handler_defs result_handler_def answering_def require_worker_def require_requester_def
        with_body_def reply_def created_reply_def lease_reply_def
        split: option.splits sum.splits prod.splits if_splits)
  moreover have "fst (serve ap clk dr rq m) = r" using Inr by (auto simp: serve_def split: prod.splits)
  ultimately show ?thesis using assms by simp
qed

lemma error_reply_answered: "e \<noteq> Diverges \<Longrightarrow> rp_answer (error_reply e) \<noteq> NoAnswer"
  by (cases e) (simp_all add: reply_def)

section \<open>A concrete application\<close>

definition ex_app :: app where
  "ex_app = \<lparr> ap_settings = ex_cfg, ap_library = ex_lib, ap_loads = (\<lambda>d. Some (JObj [])),
     ap_registration = (\<lambda>_. Some (ex_registration ''w1'' 1)), ap_submit = (\<lambda>_. Some (ex_submit ''key-1'' ''t'')),
     ap_envelope = (\<lambda>_. Some (ex_result RFailed)), ap_json_size = (\<lambda>_. 0), ap_int = (\<lambda>_. Some 3),
     ap_id = (\<lambda>t. map char_of t) \<rparr>"

definition ex_request :: "route \<Rightarrow> string \<Rightarrow> api_request" where
  "ex_request r c = \<lparr> rq_route = r, rq_worker_id = ''w1'', rq_credential = c, rq_attempt_id = ''att-0001'',
     rq_lease_token = ''tok'', rq_artifact_id = ''a1'', rq_artifact_name = ''p'', rq_media_type = ''text/plain'',
     rq_sha256 = [], rq_schema_version = None, rq_bytes = ''3'', rq_body = [[123, 125]] \<rparr>"

definition ex_draws :: draws where
  "ex_draws = \<lparr> dr_job_id = ''job-0001'', dr_attempt_id = ''att-0001'', dr_lease_token = ''tok'' \<rparr>"

lemmas ex_http_defs = ex_app_def ex_request_def ex_draws_def checked_json_def read_json_def read_body_def
  validated_def with_body_def require_worker_def require_requester_def serve_def handler_defs reply_def

section \<open>Properties\<close>

text \<open>C9. The HTTP application drives the manager only through its operations: every state reached by
  requests and sweeps is a reachable state of the machine, so its invariants and its life cycle hold.\<close>

theorem http_refines_machine:
  assumes "served ap m"
  shows "manager_reachable (ap_settings ap) (ap_library ap) m \<and> manager_inv m
    \<and> reachable (\<lambda>l. l = Map.empty) life_step (lives_of m)"
  using http_reaches [OF assms] life.reach_abs reachable_inv
  unfolding manager_reachable_def by blast

lemma ex_served_idle:
  "served ex_app (snd (serve ex_app (\<lambda>_. 100) ex_draws (ex_request RegisterWorker ''secret1'') empty_manager))"
proof -
  have "reachable (\<lambda>m. m = empty_manager) (http_step ex_app) empty_manager" by (rule reachable_init) (rule refl)
  moreover have "fresh_draws empty_manager ex_draws" by (simp add: fresh_draws_def empty_manager_def)
  ultimately show ?thesis unfolding served_def by (blast intro: reachable_step http_request)
qed

theorem http_refines_machine_witness:
  "manager_inv (snd (serve ex_app (\<lambda>_. 100) ex_draws (ex_request RegisterWorker ''secret1'') empty_manager))
   \<and> workers (snd (serve ex_app (\<lambda>_. 100) ex_draws (ex_request RegisterWorker ''secret1'') empty_manager))
       = [ex_worker ''w1'' 1 100]"
proof -
  have valid: "valid_registration (ex_registration ''w1'' 1)"
    by (simp add: valid_registration_def ex_registration_def id_string_def id_char_def alnum_char_def digit_char_def)
  have "workers (snd (serve ex_app (\<lambda>_. 100) ex_draws (ex_request RegisterWorker ''secret1'') empty_manager))
      = [ex_worker ''w1'' 1 100]"
    using valid by (simp add: ex_http_defs upsert_worker_def worker_row_of_def empty_manager_def ex_worker_def
        ex_registration_def answering_def Let_def)
  then show ?thesis using http_refines_machine [OF ex_served_idle] by simp
qed

text \<open>C10. A request to any route but the health check that does not carry the secret of its worker, or
  of the requester for a requester's route, changes nothing and is refused; with ASCII secrets the
  status is 401, except that a registration's body is read before the credential is looked at.\<close>

theorem unauthorized_requests_change_nothing:
  assumes "\<not> authorized ap rq"
  shows "snd (serve ap clk dr rq m) = m
    \<and> rp_status (fst (serve ap clk dr rq m)) \<in> {401, 413, 422}
    \<and> (\<exists>code. rp_answer (fst (serve ap clk dr rq m)) = Failure code)
    \<and> (rq_route rq \<noteq> RegisterWorker \<longrightarrow> ascii_only (rq_credential rq) \<longrightarrow> ascii_secrets ap
        \<longrightarrow> rp_status (fst (serve ap clk dr rq m)) = 401)"
proof -
  obtain e where e: "guard_error ap rq = Some e" "rp_status (error_reply e) \<in> {401, 422}"
    "ascii_only (rq_credential rq) \<Longrightarrow> ascii_secrets ap \<Longrightarrow> rp_status (error_reply e) = 401"
    "\<exists>code. rp_answer (error_reply e) = Failure code"
    using unauthorized_error [OF assms] by blast
  have "rq_route rq \<noteq> Health" using assms by (simp add: authorized_def)
  from guarded_requests [OF e(1) this, of clk dr m] e show ?thesis
    by (auto simp: reply_def simp del: serve_state)
qed

theorem unauthorized_requests_change_nothing_witness:
  "rp_status (fst (serve ex_app (\<lambda>_. 102) ex_draws (ex_request (DeleteJob ''job-0001'') ''secret1'') ex_failed)) = 401
   \<and> snd (serve ex_app (\<lambda>_. 102) ex_draws (ex_request (DeleteJob ''job-0001'') ''secret1'') ex_failed) = ex_failed"
proof -
  have "\<not> authorized ex_app (ex_request (DeleteJob ''job-0001'') ''secret1'')"
    by (simp add: authorized_def ex_app_def ex_request_def ex_cfg_def)
  moreover have "ascii_secrets ex_app" "ascii_only (rq_credential (ex_request (DeleteJob ''job-0001'') ''secret1''))"
    by (auto simp: ascii_secrets_def ascii_only_def ex_app_def ex_cfg_def ex_request_def split: if_splits)
  ultimately show ?thesis
    using unauthorized_requests_change_nothing [of ex_app "ex_request (DeleteJob ''job-0001'') ''secret1''"]
    by (simp add: ex_request_def del: serve_state)
qed

text \<open>C11. Every request is answered, and one that is answered with an error has changed nothing, apart
  from observations whose retention had ended.\<close>

theorem failed_requests_change_nothing:
  assumes "served ap m"
  shows "rp_answer (fst (serve ap clk dr rq m)) \<noteq> NoAnswer
    \<and> (\<forall>code. rp_answer (fst (serve ap clk dr rq m)) = Failure code \<longrightarrow> retained m (snd (serve ap clk dr rq m)))"
proof -
  have "orderly m (route_handler (rq_route rq) ap clk dr rq m)"
    by (rule handler_orderly [OF reachable_inv [OF http_reaches [OF assms]]])
  then show ?thesis
    by (metis serve_failure serve_state orderly_def error_reply_answered)
qed

theorem failed_requests_change_nothing_witness:
  "\<exists>ts. snd (serve ex_app (\<lambda>_. 102) ex_draws (ex_request (GetJob ''job-0007'') ''client'') empty_manager)
      = fold (\<lambda>t s. snd (expire_observations t s)) ts empty_manager
    \<and> fst (serve ex_app (\<lambda>_. 102) ex_draws (ex_request (GetJob ''job-0007'') ''client'') empty_manager)
      = reply 404 (Failure ''unknown_job'')"
proof -
  have "served ex_app empty_manager" by (simp add: served_def reachable_init)
  moreover have "fst (serve ex_app (\<lambda>_. 102) ex_draws (ex_request (GetJob ''job-0007'') ''client'') empty_manager)
      = reply 404 (Failure ''unknown_job'')"
    by (simp add: ex_http_defs answering_def job_view_def expire_observations_def empty_manager_def
        job_row_of_def authenticate_requester_def compare_credential_def ascii_only_def ex_cfg_def)
  ultimately show ?thesis
    using failed_requests_change_nothing [of ex_app empty_manager]
    by (simp add: retained_def reply_def del: serve_state)
qed

end
