(* ===== verification/Client.thy ===== *)
theory Client
  imports Manager_Http Finalization
begin

text \<open>
  \<open>ManagerClient\<close> of \<open>manager_client.py\<close> over the application of \<open>Manager_Http\<close>. A client counts its calls;
  before the \<open>n\<close>-th one the other parties may have changed the manager (\<open>lk_others\<close>), and the network may
  lose the request or the answer. An error status becomes a \<open>ManagerAPIError\<close>; everything else that the
  HTTP library raises is \<open>TransportError\<close>, which the client does not convert.
\<close>

section \<open>The link\<close>

datatype wire = Delivered | RequestLost | AnswerLost

datatype api_error =
    ManagerAPIError nat string
  | TransportError
  | UnexpectedAnswer

record link =
  lk_app :: app
  lk_clock :: "nat \<Rightarrow> clock"
  lk_draws :: "nat \<Rightarrow> draws"
  lk_others :: "nat \<Rightarrow> manager \<Rightarrow> manager"
  lk_wire :: "nat \<Rightarrow> wire"
  lk_uuid :: "nat \<Rightarrow> string"
  lk_dump_registration :: "registration \<Rightarrow> byte_string"
  lk_dump_submit :: "submit_job \<Rightarrow> byte_string"
  lk_dump_key :: "string option \<Rightarrow> byte_string"
  lk_dump_envelope :: "envelope \<Rightarrow> byte_string"
  lk_canonical :: "envelope \<Rightarrow> byte_string"

text \<open>The number of calls made so far, and the manager.\<close>

type_synonym world = "nat \<times> manager"
type_synonym 'a called = "(api_error + 'a) \<times> world"

text \<open>\<open>_error_code\<close>: only the manager's error bodies have the form it looks for.\<close>

definition error_code :: "answer \<Rightarrow> string" where
  "error_code a = (case a of Failure code \<Rightarrow> take 128 code | _ \<Rightarrow> ''request_failed'')"

definition client_answer :: "api_reply \<Rightarrow> api_error + answer" where
  "client_answer rp =
     (if 400 \<le> rp_status rp then Inl (ManagerAPIError (rp_status rp) (error_code (rp_answer rp)))
      else Inr (rp_answer rp))"

definition call :: "link \<Rightarrow> api_request \<Rightarrow> world \<Rightarrow> answer called" where
  "call lk rq w =
     (let n = fst w; m = lk_others lk n (snd w)
      in case lk_wire lk n of
           RequestLost \<Rightarrow> (Inl TransportError, (Suc n, m))
         | AnswerLost \<Rightarrow> (Inl TransportError, (Suc n, snd (serve (lk_app lk) (lk_clock lk n) (lk_draws lk n) rq m)))
         | Delivered \<Rightarrow>
             (client_answer (fst (serve (lk_app lk) (lk_clock lk n) (lk_draws lk n) rq m)),
              (Suc n, snd (serve (lk_app lk) (lk_clock lk n) (lk_draws lk n) rq m))))"

text \<open>The part of an answer a caller uses.\<close>

definition expecting :: "(answer \<Rightarrow> 'a option) \<Rightarrow> answer called \<Rightarrow> 'a called" where
  "expecting f r =
     ((case fst r of Inl e \<Rightarrow> Inl e
       | Inr a \<Rightarrow> (case f a of Some x \<Rightarrow> Inr x | None \<Rightarrow> Inl UnexpectedAnswer)), snd r)"

definition bare_request :: "string \<Rightarrow> route \<Rightarrow> api_request" where
  "bare_request credential r =
     \<lparr> rq_route = r, rq_worker_id = [], rq_credential = credential, rq_attempt_id = [], rq_lease_token = [],
       rq_artifact_id = [], rq_artifact_name = [], rq_media_type = [], rq_sha256 = [],
       rq_schema_version = None, rq_bytes = [], rq_body = [] \<rparr>"

section \<open>The requester's calls\<close>

definition client_submit :: "link \<Rightarrow> string \<Rightarrow> submit_job \<Rightarrow> world \<Rightarrow> (job_view \<times> bool) called" where
  "client_submit lk cred s w =
     expecting (\<lambda>a. case a of Created v c \<Rightarrow> Some (v, c) | _ \<Rightarrow> None)
       (call lk ((bare_request cred SubmitJob)\<lparr> rq_body := [lk_dump_submit lk s] \<rparr>) w)"

definition client_get_job :: "link \<Rightarrow> string \<Rightarrow> string \<Rightarrow> world \<Rightarrow> job_view called" where
  "client_get_job lk cred k w =
     expecting (\<lambda>a. case a of JobView v \<Rightarrow> Some v | _ \<Rightarrow> None) (call lk (bare_request cred (GetJob k)) w)"

definition client_job_result :: "link \<Rightarrow> string \<Rightarrow> string \<Rightarrow> world \<Rightarrow> (job_view \<times> envelope option) called" where
  "client_job_result lk cred k w =
     expecting (\<lambda>a. case a of ResultView v r \<Rightarrow> Some (v, r) | _ \<Rightarrow> None) (call lk (bare_request cred (GetResult k)) w)"

definition client_cancel_job :: "link \<Rightarrow> string \<Rightarrow> string \<Rightarrow> world \<Rightarrow> job_view called" where
  "client_cancel_job lk cred k w =
     expecting (\<lambda>a. case a of JobView v \<Rightarrow> Some v | _ \<Rightarrow> None) (call lk (bare_request cred (CancelJob k)) w)"

definition client_retry_job :: "link \<Rightarrow> string \<Rightarrow> string \<Rightarrow> string option \<Rightarrow> world \<Rightarrow> (job_view \<times> bool) called" where
  "client_retry_job lk cred k key w =
     expecting (\<lambda>a. case a of Created v c \<Rightarrow> Some (v, c) | _ \<Rightarrow> None)
       (call lk ((bare_request cred (RetryJob k))
          \<lparr> rq_body := [lk_dump_key lk (if key = Some [] then None else key)] \<rparr>) w)"

definition client_delete_job :: "link \<Rightarrow> string \<Rightarrow> string \<Rightarrow> world \<Rightarrow> nat called" where
  "client_delete_job lk cred k w =
     expecting (\<lambda>a. case a of Deleted _ n \<Rightarrow> Some n | _ \<Rightarrow> None) (call lk (bare_request cred (DeleteJob k)) w)"

definition client_list_workers :: "link \<Rightarrow> string \<Rightarrow> world \<Rightarrow> worker_row list called" where
  "client_list_workers lk cred w =
     expecting (\<lambda>a. case a of WorkerList ws \<Rightarrow> Some ws | _ \<Rightarrow> None) (call lk (bare_request cred ListWorkers) w)"

definition client_download :: "link \<Rightarrow> string \<Rightarrow> string \<Rightarrow> string \<Rightarrow> world \<Rightarrow> (artifact_ref \<times> byte_string) called" where
  "client_download lk cred k i w =
     (let r = call lk (bare_request cred (DownloadArtifact k i)) w
      in expecting (\<lambda>a. case a of FileAnswer ref path \<Rightarrow> map_option (Pair ref) (files (snd (snd r)) path)
                            | _ \<Rightarrow> None) r)"

section \<open>The worker's calls\<close>

definition worker_request :: "string \<Rightarrow> string \<Rightarrow> route \<Rightarrow> api_request" where
  "worker_request cred worker_id r = (bare_request cred r)\<lparr> rq_worker_id := worker_id \<rparr>"

definition client_register :: "link \<Rightarrow> string \<Rightarrow> string \<Rightarrow> registration \<Rightarrow> world \<Rightarrow> worker_row called" where
  "client_register lk cred worker_id r w =
     expecting (\<lambda>a. case a of WorkerView v \<Rightarrow> Some v | _ \<Rightarrow> None)
       (call lk ((worker_request cred worker_id RegisterWorker)\<lparr> rq_body := [lk_dump_registration lk r] \<rparr>) w)"

definition client_claim :: "link \<Rightarrow> string \<Rightarrow> string \<Rightarrow> world \<Rightarrow> (job_view \<times> attempt_row) option called" where
  "client_claim lk cred worker_id w =
     expecting (\<lambda>a. case a of Claimed c \<Rightarrow> Some c | _ \<Rightarrow> None) (call lk (worker_request cred worker_id ClaimJob) w)"

definition client_renew :: "link \<Rightarrow> string \<Rightarrow> string \<Rightarrow> string \<Rightarrow> string \<Rightarrow> string \<Rightarrow> world \<Rightarrow> lease_info called" where
  "client_renew lk cred worker_id k att token w =
     expecting (\<lambda>a. case a of LeaseView i \<Rightarrow> Some i | _ \<Rightarrow> None)
       (call lk ((worker_request cred worker_id (RenewLease k))\<lparr> rq_attempt_id := att, rq_lease_token := token \<rparr>) w)"

definition client_finalize :: "link \<Rightarrow> string \<Rightarrow> string \<Rightarrow> string \<Rightarrow> string \<Rightarrow> envelope \<Rightarrow> world \<Rightarrow> job_view called" where
  "client_finalize lk cred worker_id k token e w =
     expecting (\<lambda>a. case a of JobView v \<Rightarrow> Some v | _ \<Rightarrow> None)
       (call lk ((worker_request cred worker_id (FinalizeJob k))
          \<lparr> rq_lease_token := token, rq_body := [lk_dump_envelope lk e] \<rparr>) w)"

definition client_upload ::
  "link \<Rightarrow> string \<Rightarrow> string \<Rightarrow> string \<Rightarrow> string \<Rightarrow> string \<Rightarrow> artifact_ref \<Rightarrow> byte_string \<Rightarrow> world \<Rightarrow> artifact_ref called" where
  "client_upload lk cred worker_id k att token r content w =
     expecting (\<lambda>a. case a of Saved s \<Rightarrow> Some s | _ \<Rightarrow> None)
       (call lk ((worker_request cred worker_id (UploadArtifact k))
          \<lparr> rq_attempt_id := att, rq_lease_token := token, rq_artifact_id := ar_artifact_id r,
            rq_artifact_name := ar_name r, rq_media_type := ar_media_type r, rq_sha256 := ar_sha256 r,
            rq_bytes := dec (length content), rq_schema_version := Some (dec (nat (ar_schema_version r))),
            rq_body := [content] \<rparr>) w)"

section \<open>What a call does\<close>

text \<open>The other parties act through the application too.\<close>

definition fair_link :: "link \<Rightarrow> bool" where
  "fair_link lk \<longleftrightarrow> (\<forall>n m. manager_reachable (ap_settings (lk_app lk)) (ap_library (lk_app lk)) m \<longrightarrow>
     manager_reachable (ap_settings (lk_app lk)) (ap_library (lk_app lk)) (lk_others lk n m))"

abbreviation sound_world :: "link \<Rightarrow> world \<Rightarrow> bool" where
  "sound_world lk w \<equiv> manager_reachable (ap_settings (lk_app lk)) (ap_library (lk_app lk)) (snd w)"

lemma snd_expecting [simp]: "snd (expecting f r) = snd r"
  by (simp add: expecting_def)

lemma fst_expecting_Inl: "fst (expecting f r) = Inl e \<Longrightarrow> e \<noteq> UnexpectedAnswer \<Longrightarrow> fst r = Inl e"
  by (auto simp: expecting_def split: sum.splits option.splits)

lemma fst_expecting_Inr: "fst (expecting f r) = Inr x \<longleftrightarrow> (\<exists>a. fst r = Inr a \<and> f a = Some x)"
  by (auto simp: expecting_def split: sum.splits option.splits)

text \<open>A call that answers was delivered, and its answer is the application's.\<close>

lemma call_answered:
  assumes "fst (call lk rq w) = Inr a"
  shows "snd (call lk rq w) = (Suc (fst w), snd (serve (lk_app lk) (lk_clock lk (fst w)) (lk_draws lk (fst w)) rq (lk_others lk (fst w) (snd w))))"
    "rp_answer (fst (serve (lk_app lk) (lk_clock lk (fst w)) (lk_draws lk (fst w)) rq (lk_others lk (fst w) (snd w)))) = a"
    "rp_status (fst (serve (lk_app lk) (lk_clock lk (fst w)) (lk_draws lk (fst w)) rq (lk_others lk (fst w) (snd w)))) < 400"
  using assms by (auto simp: call_def client_answer_def Let_def split: wire.splits if_splits simp del: serve_state)

lemma call_refused:
  assumes "fst (call lk rq w) = Inl (ManagerAPIError st code)"
  shows "snd (call lk rq w) = (Suc (fst w), snd (serve (lk_app lk) (lk_clock lk (fst w)) (lk_draws lk (fst w)) rq (lk_others lk (fst w) (snd w))))"
    "rp_status (fst (serve (lk_app lk) (lk_clock lk (fst w)) (lk_draws lk (fst w)) rq (lk_others lk (fst w) (snd w)))) = st"
    "error_code (rp_answer (fst (serve (lk_app lk) (lk_clock lk (fst w)) (lk_draws lk (fst w)) rq (lk_others lk (fst w) (snd w))))) = code"
  using assms by (auto simp: call_def client_answer_def Let_def split: wire.splits if_splits simp del: serve_state)

lemma call_sound:
  assumes "fair_link lk" "sound_world lk w" "for_worker (rq_route rq)"
  shows "sound_world lk (snd (call lk rq w))"
proof -
  let ?m = "lk_others lk (fst w) (snd w)"
  have m: "manager_reachable (ap_settings (lk_app lk)) (ap_library (lk_app lk)) ?m"
    using assms(1,2) by (simp add: fair_link_def)
  have "manager_reachable (ap_settings (lk_app lk)) (ap_library (lk_app lk))
      (snd (serve (lk_app lk) (lk_clock lk (fst w)) (lk_draws lk (fst w)) rq ?m))"
    by (rule serve_reaches [OF m]) (use assms(3) in simp)
  with m show ?thesis by (auto simp: call_def Let_def split: wire.splits simp del: serve_state)
qed

end
