(* ===== verification/Worker.thy ===== *)
theory Worker
  imports Client Collector
begin

text \<open>
  \<open>worker_service.py\<close>: a worker process claims a job, runs its stage, keeps the lease alive meanwhile, uploads
  what it found and finalizes. The stage is one of \<open>Collector\<close>, the manager is reached through \<open>Client\<close>. What
  happens concurrently with the stage is given by a \<open>conduct\<close>: the answers of \<open>cancel_check\<close>, whether the stage
  was cancelled at an await, the two events when they are read afterwards, the documents the fetcher handed
  to the hook, and the exception the lease task ended with, if any. The observer is a parameter with its payload and its use of the budget.
\<close>

section \<open>Data\<close>

datatype worker_error =
    ApiError api_error
  | StageError exn
  | InvalidData
  | NeverReturns

type_synonym 'a worked = "(worker_error + 'a) \<times> world"

record signals =
  sg_cancel :: bool
  sg_lost :: bool

record worker =
  wk_link :: link
  wk_id :: string
  wk_credential :: string
  wk_os :: string
  wk_architecture :: string
  wk_capabilities :: "string list"
  wk_content_requested :: bool
  wk_observer :: bool
  wk_json_size :: "observe_payload \<Rightarrow> nat"

record 'p equipment =
  eq_provider :: "'p provider"
  eq_connect :: "budget \<Rightarrow> 'p"
  eq_env :: environment
  eq_fetcher :: fetcher
  eq_message :: "exn \<Rightarrow> string"
  eq_now :: string

record conduct =
  cd_stop :: "nat \<Rightarrow> bool"
  cd_interrupted :: bool
  cd_mid :: signals
  cd_end :: signals
  cd_documents :: "(source \<times> byte_string \<times> source_kind) list"
  cd_observed :: "exn option \<times> observe_payload \<times> usage"
  cd_now :: real
  cd_elapsed :: real
  cd_lease_end :: "api_error option"

definition MAX_FAILURES_REPORTED :: nat where "MAX_FAILURES_REPORTED = 200"

definition registration_of :: "worker \<Rightarrow> registration" where
  "registration_of wk =
     \<lparr> r_contract = CONTRACT_VERSION, r_worker_id = wk_id wk,
       r_capabilities = COLLECT_CAPABILITY # wk_capabilities wk, r_implementation_version = ''0.4'',
       r_os = wk_os wk, r_architecture = (if wk_architecture wk = [] then ''unknown'' else wk_architecture wk),
       r_concurrency = 1 \<rparr>"

definition register :: "worker \<Rightarrow> world \<Rightarrow> worker_row called" where
  "register wk w = client_register (wk_link wk) (wk_credential wk) (wk_id wk) (registration_of wk) w"

section \<open>The lease loop\<close>

text \<open>What one renewal tells the loop: whether it goes on, and the events.\<close>

definition lease_lost :: "api_error \<Rightarrow> bool" where
  "lease_lost e \<longleftrightarrow> (case e of ManagerAPIError st code \<Rightarrow>
      st \<in> {404, 410} \<or> code \<in> {''unknown_job'', ''lease_conflict'', ''lease_expired''} | _ \<Rightarrow> False)"

fun lease_news :: "api_error + lease_info \<Rightarrow> signals \<Rightarrow> (api_error + bool) \<times> signals" where
  "lease_news (Inl e) sg =
     (case e of
        ManagerAPIError _ _ \<Rightarrow> if lease_lost e then (Inr False, sg\<lparr> sg_lost := True \<rparr>) else (Inr True, sg)
      | _ \<Rightarrow> (Inl e, sg))"
| "lease_news (Inr i) sg =
     (case li_job_state i of
        JobState CancelRequested \<Rightarrow> (Inr False, sg\<lparr> sg_cancel := True \<rparr>)
      | JobState st \<Rightarrow> if terminal st then (Inr False, sg\<lparr> sg_lost := True \<rparr>) else (Inr True, sg)
      | DeadlinePassed \<Rightarrow> (Inr False, sg\<lparr> sg_lost := True \<rparr>))"

definition lease_tick :: "worker \<Rightarrow> string \<Rightarrow> string \<Rightarrow> string \<Rightarrow> signals \<Rightarrow> world \<Rightarrow> ((api_error + bool) \<times> signals) \<times> world" where
  "lease_tick wk k att token sg w =
     (if sg_lost sg then ((Inr False, sg), w)
      else case client_renew (wk_link wk) (wk_credential wk) (wk_id wk) k att token w of
             (r, w') \<Rightarrow> (lease_news r sg, w'))"

text \<open>The first \<open>n\<close> renewals.\<close>

fun lease_loop :: "nat \<Rightarrow> worker \<Rightarrow> string \<Rightarrow> string \<Rightarrow> string \<Rightarrow> signals \<Rightarrow> world \<Rightarrow> ((api_error + bool) \<times> signals) \<times> world" where
  "lease_loop 0 wk k att token sg w = ((Inr True, sg), w)"
| "lease_loop (Suc n) wk k att token sg w =
     (case lease_tick wk k att token sg w of
        ((Inr True, sg'), w') \<Rightarrow> lease_loop n wk k att token sg' w'
      | r \<Rightarrow> r)"

definition lease_interval :: "real \<Rightarrow> real \<Rightarrow> real \<Rightarrow> real" where
  "lease_interval expires now ratio = max (1 / 10) ((expires - now) * ratio)"

section \<open>Stages\<close>

text \<open>\<open>_run_cancellable\<close>: a cancelled stage leaves the partial result it was given.\<close>

definition run_cancellable :: "bool \<Rightarrow> exn option \<Rightarrow> 'r \<Rightarrow> worker_error + 'r" where
  "run_cancellable interrupted e r =
     (case e of
        None \<Rightarrow> Inr r
      | Some exn.Cancelled \<Rightarrow> if interrupted then Inr r else Inl (StageError exn.Cancelled)
      | Some x \<Rightarrow> Inl (StageError x))"

text \<open>The queries of a job as the stage takes them; \<open>None\<close> is a \<open>ValidationError\<close> of \<open>Query\<close>.\<close>

fun query_items :: "job_query list \<Rightarrow> (string \<times> query) list option" where
  "query_items [] = Some []"
| "query_items (q # qs) =
     (case new_query (jq_text q) (jq_role q) (jq_reason q) of
        None \<Rightarrow> None
      | Some x \<Rightarrow> map_option ((#) (jq_query_id q, x)) (query_items qs))"

definition unasked :: "string \<Rightarrow> job_query \<Rightarrow> query_result" where
  "unasked code q =
     \<lparr> qr_query_id = jq_query_id q, qr_text = jq_text q, qr_role = jq_role q, qr_reason = jq_reason q,
       qr_status = QFailed, qr_result_count = 0, qr_diagnostic = code_diagnostic code \<rparr>"

definition fill_queries :: "signals \<Rightarrow> job_query list \<Rightarrow> search_stage \<Rightarrow> search_stage" where
  "fill_queries sg qs r =
     (if sg_cancel sg \<or> sg_lost sg then
        let code = (if sg_cancel sg then ''cancelled_by_requester'' else ''worker_lease_lost'');
            rest = drop (length (ss_queries r)) qs
        in r\<lparr> ss_queries := ss_queries r @ map (unasked code) rest,
             ss_failures := ss_failures r @ map (\<lambda>q. search_failure (jq_query_id q) code None) rest \<rparr>
      else r)"

definition run_search_job :: "'p equipment \<Rightarrow> conduct \<Rightarrow> limits \<Rightarrow> job_query list \<Rightarrow> worker_error + search_stage" where
  "run_search_job eq cd l qs =
     (case query_items qs of
        None \<Rightarrow> Inl InvalidData
      | Some items \<Rightarrow>
          (case run_search_stage (eq_provider eq) (eq_env eq) (cd_stop cd) items new_search_stage
                  (eq_connect eq (new_budget (en_clock (eq_env eq)) l)) of
             (e, r, _) \<Rightarrow>
               (case run_cancellable (cd_interrupted cd) e r of
                  Inl x \<Rightarrow> Inl x
                | Inr r' \<Rightarrow> Inr (fill_queries (cd_mid cd) qs r'))))"

text \<open>\<open>f"s{i}"\<close> from 1 on.\<close>

definition source_items :: "candidate list \<Rightarrow> (string \<times> candidate) list" where
  "source_items cs = zip (map (\<lambda>i. CHR ''s'' # dec (Suc i)) [0..<length cs]) cs"

definition run_extract_job :: "'p equipment \<Rightarrow> conduct \<Rightarrow> limits \<Rightarrow> candidate list \<Rightarrow> worker_error + extract_stage" where
  "run_extract_job eq cd l cs =
     (case run_extract_stage (eq_fetcher eq) (eq_env eq) (eq_message eq) (eq_now eq) (cd_stop cd) (source_items cs)
             new_extract_stage (new_budget (en_clock (eq_env eq)) l) of
        None \<Rightarrow> Inl NeverReturns
      | Some (e, r, _) \<Rightarrow> run_cancellable (cd_interrupted cd) e r)"

section \<open>Artifacts\<close>

definition artifact_of :: "link \<Rightarrow> nat \<Rightarrow> string \<Rightarrow> string \<Rightarrow> byte_string \<Rightarrow> artifact_ref" where
  "artifact_of lk n nm media content =
     \<lparr> ar_artifact_id = lk_uuid lk n, ar_name = nm, ar_media_type = media, ar_bytes = int (length content),
       ar_sha256 = sha256 (ap_library (lk_app lk)) content, ar_schema_version = 1 \<rparr>"

text \<open>\<open>_document_hook\<close>; the second part of its memory are the errors.\<close>

type_synonym hooked = "artifact_ref list \<times> string list"

definition document_hook ::
  "worker \<Rightarrow> string \<Rightarrow> string \<Rightarrow> string \<Rightarrow> source \<times> byte_string \<times> source_kind \<Rightarrow> hooked \<times> world \<Rightarrow> hooked \<times> world" where
  "document_hook wk k att token d s =
     (case d of (so, body, kind) \<Rightarrow> case s of ((refs, errs), w) \<Rightarrow>
        if kind = KUnknown \<or> body = [] then ((refs, errs), w)
        else
          let nm = so_source_id so @ (if kind = KHtml then ''.html'' else ''.pdf'');
              media = (if kind = KHtml then ''text/html'' else ''application/pdf'');
              ref = artifact_of (wk_link wk) (fst w) nm media body
          in case client_upload (wk_link wk) (wk_credential wk) (wk_id wk) k att token ref body w of
               (Inl (ManagerAPIError _ code), w') \<Rightarrow> ((refs, errs @ [so_source_id so @ '': '' @ code]), w')
             | (Inl _, w') \<Rightarrow> ((refs, errs), w')
             | (Inr _, w') \<Rightarrow> ((refs @ [ref], errs), w'))"

section \<open>The report\<close>

definition search_status :: "search_stage \<Rightarrow> result_status \<times> string option" where
  "search_status r =
     (if ss_exhausted r \<noteq> None then (RPartial, Some ''budget_exhausted'')
      else if ss_queries r \<noteq> [] \<and> list_all (\<lambda>e. qr_status e \<noteq> QOk) (ss_queries r) then (RFailed, Some ''no_results'')
      else (RSucceeded, None))"

definition extract_status :: "extract_stage \<Rightarrow> result_status \<times> string option" where
  "extract_status r =
     (if es_exhausted r \<noteq> None then (RPartial, Some ''budget_exhausted'')
      else if es_sources r = [] then (RPartial, Some ''no_sources'')
      else if list_all (\<lambda>s. \<not> fetched s) (es_sources r) then (RFailed, Some ''all_fetches_failed'')
      else (RSucceeded, None))"

text \<open>\<open>str(detail or url or "")[:1000] or None\<close>.\<close>

definition failure_detail :: "stage_failure \<Rightarrow> utext option" where
  "failure_detail f =
     (let d = (case sf_detail f of Some (c # cs) \<Rightarrow> c # cs
               | _ \<Rightarrow> (case sf_url f of None \<Rightarrow> [] | Some u \<Rightarrow> map of_char u))
      in if take 1000 d = [] then None else Some (take 1000 d))"

definition stage_failures :: "stage_failure list \<Rightarrow> failure list" where
  "stage_failures fs =
     map (\<lambda>f. \<lparr> fl_stage = sf_stage f, fl_query_id = sf_query_id f, fl_source_id = sf_source_id f,
               fl_code = take 128 (sf_code f), fl_detail = failure_detail f \<rparr>)
       (take MAX_FAILURES_REPORTED fs)"

definition hook_failure :: "string \<Rightarrow> failure" where
  "hook_failure err = \<lparr> fl_stage = FArtifact, fl_query_id = None, fl_source_id = None,
     fl_code = ''artifact_upload_failed'', fl_detail = Some (map of_char (take 1000 err)) \<rparr>"

definition collect_status :: "job_mode \<Rightarrow> signals \<Rightarrow> result_status \<times> string option \<Rightarrow> result_status \<times> string option" where
  "collect_status mode sg st =
     (if sg_cancel sg then (RCancelled, Some ''cancelled_by_requester'')
      else if mode = SearchMode \<and> sg_lost sg then (RFailed, Some ''worker_lease_lost'')
      else st)"

definition report ::
  "string \<Rightarrow> string \<Rightarrow> result_status \<times> string option \<Rightarrow> usage \<Rightarrow> real \<Rightarrow> payload \<Rightarrow> artifact_ref list \<Rightarrow> envelope" where
  "report k att st u elapsed p refs =
     \<lparr> e_contract = CONTRACT_VERSION, e_job_id = k, e_attempt_id = att, e_status = fst st, e_stop_reason = snd st,
       e_usage = u, e_elapsed_seconds = elapsed, e_payload = p, e_manifest = refs \<rparr>"

definition search_report :: "conduct \<Rightarrow> string \<Rightarrow> string \<Rightarrow> search_stage \<Rightarrow> envelope" where
  "search_report cd k att r =
     report k att (collect_status SearchMode (cd_end cd) (search_status r)) (ss_usage r) (cd_elapsed cd)
       (SearchPay \<lparr> sp_queries = ss_queries r, sp_candidates = ss_candidates r,
          sp_failures = stage_failures (ss_failures r) \<rparr>) []"

definition extract_report :: "conduct \<Rightarrow> string \<Rightarrow> string \<Rightarrow> extract_stage \<Rightarrow> hooked \<Rightarrow> envelope" where
  "extract_report cd k att r h =
     report k att (collect_status ExtractMode (cd_end cd) (extract_status r)) (es_usage r) (cd_elapsed cd)
       (ExtractPay \<lparr> ep_sources = es_sources r,
          ep_failures = stage_failures (es_failures r) @ map hook_failure (snd h) \<rparr>) (fst h)"

section \<open>Finalization\<close>

definition RESULT_PACK_NAME :: string where "RESULT_PACK_NAME = ''result-pack.json''"
definition RESULT_PACK_MEDIA_TYPE :: string where "RESULT_PACK_MEDIA_TYPE = ''application/json''"

definition result_pack :: "worker \<Rightarrow> nat \<Rightarrow> envelope \<Rightarrow> artifact_ref" where
  "result_pack wk n e =
     artifact_of (wk_link wk) n RESULT_PACK_NAME RESULT_PACK_MEDIA_TYPE (lk_canonical (wk_link wk) e)"

definition upload_result_pack :: "worker \<Rightarrow> string \<Rightarrow> string \<Rightarrow> envelope \<Rightarrow> world \<Rightarrow> artifact_ref called" where
  "upload_result_pack wk k token e w =
     (case client_upload (wk_link wk) (wk_credential wk) (wk_id wk) k (e_attempt_id e) token
             (result_pack wk (fst w) e) (lk_canonical (wk_link wk) e) w of
        (Inl err, w') \<Rightarrow> (Inl err, w')
      | (Inr _, w') \<Rightarrow> (Inr (result_pack wk (fst w) e), w'))"

definition as_cancelled :: "envelope \<Rightarrow> envelope" where
  "as_cancelled e = e\<lparr> e_status := RCancelled, e_stop_reason := Some ''cancelled_by_requester'' \<rparr>"

definition cancel_conflict :: "api_error \<Rightarrow> bool" where
  "cancel_conflict e \<longleftrightarrow>
     (case e of ManagerAPIError _ code \<Rightarrow> code = ''result_conflicts_with_cancel'' | _ \<Rightarrow> False)"

definition worker_finalize :: "worker \<Rightarrow> string \<Rightarrow> string \<Rightarrow> envelope \<Rightarrow> bool \<Rightarrow> world \<Rightarrow> job_view called" where
  "worker_finalize wk k token e cancel_fallback w =
     (case upload_result_pack wk k token e w of
        (Inl err, w1) \<Rightarrow> (Inl err, w1)
      | (Inr ref, w1) \<Rightarrow>
          let e1 = e\<lparr> e_manifest := e_manifest e @ [ref] \<rparr>
          in case client_finalize (wk_link wk) (wk_credential wk) (wk_id wk) k token e1 w1 of
               (Inr v, w2) \<Rightarrow> (Inr v, w2)
             | (Inl err, w2) \<Rightarrow>
                 if cancel_fallback \<and> cancel_conflict err
                 then client_finalize (wk_link wk) (wk_credential wk) (wk_id wk) k token (as_cancelled e1) w2
                 else (Inl err, w2))"

definition deliver :: "worker \<Rightarrow> string \<Rightarrow> string \<Rightarrow> envelope \<Rightarrow> world \<Rightarrow> nat worked" where
  "deliver wk k token e w =
     (case worker_finalize wk k token e True w of
        (Inl err, w') \<Rightarrow> (Inl (ApiError err), w')
      | (Inr _, w') \<Rightarrow> (Inr 0, w'))"

section \<open>One job\<close>

definition search_job :: "worker \<Rightarrow> 'p equipment \<Rightarrow> conduct \<Rightarrow> job_row \<Rightarrow> attempt_row \<Rightarrow> job_query list \<Rightarrow> world \<Rightarrow> nat worked" where
  "search_job wk eq cd job att qs w =
     (case run_search_job eq cd (j_budget job) qs of
        Inl x \<Rightarrow> (Inl x, w)
      | Inr r \<Rightarrow>
          let e = search_report cd (j_job_id job) (a_attempt_id att) r
          in if valid_envelope (wk_json_size wk) e
             then deliver wk (j_job_id job) (a_lease_token att) e w
             else (Inl InvalidData, w))"

text \<open>The hook runs while the stage does; what it did stays when the stage raises.\<close>

definition extract_job :: "worker \<Rightarrow> 'p equipment \<Rightarrow> conduct \<Rightarrow> job_row \<Rightarrow> attempt_row \<Rightarrow> candidate list \<Rightarrow> world \<Rightarrow> nat worked" where
  "extract_job wk eq cd job att cs w =
     (case fold (document_hook wk (j_job_id job) (a_attempt_id att) (a_lease_token att)) (cd_documents cd) (([], []), w) of
        (h, w') \<Rightarrow>
          (case run_extract_job eq cd (j_budget job) cs of
             Inl x \<Rightarrow> (Inl x, w')
           | Inr r \<Rightarrow>
               let e = extract_report cd (j_job_id job) (a_attempt_id att) r h
               in if valid_envelope (wk_json_size wk) e
                  then deliver wk (j_job_id job) (a_lease_token att) e w'
                  else (Inl InvalidData, w')))"

definition observe_status :: "signals \<Rightarrow> observe_payload \<Rightarrow> result_status \<times> string option" where
  "observe_status sg p =
     (if sg_cancel sg then (RCancelled, Some ''cancelled_by_requester'')
      else if sg_lost sg then (RFailed, Some ''worker_lease_lost'')
      else if co_status (op_coverage p) = CComplete then (RSucceeded, None)
      else if os_guild (op_snapshot p) \<noteq> None \<or> op_messages p \<noteq> [] then (RPartial, Some ''observation_incomplete'')
      else (RFailed, Some ''observation_unavailable''))"

text \<open>The limitations of an empty observation.\<close>

definition observation_limitations :: "utext list" where
  "observation_limitations =
     [ascii ''Only configured channels are observed; threads are excluded.'',
      ascii ''Counts describe observed messages, not unreadable or deleted history.'',
      ascii ''Conversation starts mean messages without a reply reference; reply counts do not prove relationships.'',
      ascii ''Operators are explicitly configured IDs; no expertise or individual relationship inference is performed.'']"

definition observe_payload_of :: "worker \<Rightarrow> conduct \<Rightarrow> observe_input \<Rightarrow> worker_error + observe_payload" where
  "observe_payload_of wk cd inp =
     (if \<not> wk_observer wk then
        let p = empty_payload inp (wk_content_requested wk) observation_limitations (cd_now cd)
        in Inr (p\<lparr> op_failures := op_failures p
             @ [\<lparr> of_stage = OWorker, of_code = ''observer_not_configured'', of_channel_id = None \<rparr>] \<rparr>)
      else run_cancellable (cd_interrupted cd) (fst (cd_observed cd)) (fst (snd (cd_observed cd))))"

definition observe_report :: "conduct \<Rightarrow> observe_input \<Rightarrow> string \<Rightarrow> string \<Rightarrow> observe_payload \<Rightarrow> envelope" where
  "observe_report cd inp k att p =
     (let p1 = p\<lparr> op_activity := activities (op_messages p) inp \<rparr>;
          p2 = (if sg_cancel (cd_end cd) \<or> sg_lost (cd_end cd)
                then p1\<lparr> op_coverage := (op_coverage p1)\<lparr> co_status := CPartial \<rparr> \<rparr> else p1)
      in report k att (observe_status (cd_end cd) p1)
           (no_usage\<lparr> u_fetch_requests := u_fetch_requests (snd (snd (cd_observed cd))),
                      u_document_bytes := u_document_bytes (snd (snd (cd_observed cd))) \<rparr>)
           (cd_elapsed cd) (ObservePay p2) [])"

definition observe_job :: "worker \<Rightarrow> conduct \<Rightarrow> job_row \<Rightarrow> attempt_row \<Rightarrow> observe_input \<Rightarrow> world \<Rightarrow> nat worked" where
  "observe_job wk cd job att inp w =
     (case observe_payload_of wk cd inp of
        Inl x \<Rightarrow> (Inl x, w)
      | Inr p \<Rightarrow> deliver wk (j_job_id job) (a_lease_token att)
                   (observe_report cd inp (j_job_id job) (a_attempt_id att) p) w)"

definition run_job :: "worker \<Rightarrow> 'p equipment \<Rightarrow> conduct \<Rightarrow> job_row \<Rightarrow> attempt_row \<Rightarrow> world \<Rightarrow> nat worked" where
  "run_job wk eq cd job att w =
     (case j_input job of
        SearchIn i \<Rightarrow> search_job wk eq cd job att (si_queries i) w
      | ExtractIn i \<Rightarrow> extract_job wk eq cd job att (ei_candidates i) w
      | ObserveIn i \<Rightarrow> observe_job wk cd job att i w)"

text \<open>\<open>_execute_job\<close>: errors of the manager become exit codes; awaiting the lease task raises what it ended with.\<close>

definition execute_job :: "worker \<Rightarrow> 'p equipment \<Rightarrow> conduct \<Rightarrow> job_view \<times> attempt_row \<Rightarrow> world \<Rightarrow> nat worked" where
  "execute_job wk eq cd claimed w =
     (case run_job wk eq cd (v_row (fst claimed)) (snd claimed) w of
        (r, w') \<Rightarrow>
          ((case cd_lease_end cd of
              Some err \<Rightarrow> Inl (ApiError err)
            | None \<Rightarrow>
                (case r of
                   Inl (ApiError (ManagerAPIError st _)) \<Rightarrow> Inr (if st = 409 then 0 else 1)
                 | _ \<Rightarrow> r)), w'))"

section \<open>The main loop\<close>

text \<open>\<open>run\<close> for at most \<open>n\<close> rounds: \<open>stop i\<close> is the stop event before round \<open>i\<close>, \<open>conducts i\<close> what happens beside
  the job of round \<open>i\<close>. \<open>None\<close> means that the loop has not ended.\<close>

fun worker_rounds ::
  "nat \<Rightarrow> (nat \<Rightarrow> bool) \<Rightarrow> (nat \<Rightarrow> conduct) \<Rightarrow> worker \<Rightarrow> 'p equipment \<Rightarrow> nat \<Rightarrow> nat \<Rightarrow> world \<Rightarrow> nat worked option" where
  "worker_rounds 0 stop conducts wk eq i code w = None"
| "worker_rounds (Suc n) stop conducts wk eq i code w =
     (if stop i then Some (Inr code, w)
      else case client_claim (wk_link wk) (wk_credential wk) (wk_id wk) w of
             (Inl (ManagerAPIError _ _), w') \<Rightarrow> worker_rounds n stop conducts wk eq (Suc i) code w'
           | (Inl err, w') \<Rightarrow> Some (Inl (ApiError err), w')
           | (Inr None, w') \<Rightarrow> worker_rounds n stop conducts wk eq (Suc i) code w'
           | (Inr (Some claimed), w') \<Rightarrow>
               (case execute_job wk eq (conducts i) claimed w' of
                  (Inl x, w2) \<Rightarrow> Some (Inl x, w2)
                | (Inr c, w2) \<Rightarrow> worker_rounds n stop conducts wk eq (Suc i) (if code = 0 then c else code) w2))"

definition worker_run ::
  "nat \<Rightarrow> (nat \<Rightarrow> bool) \<Rightarrow> (nat \<Rightarrow> conduct) \<Rightarrow> worker \<Rightarrow> 'p equipment \<Rightarrow> world \<Rightarrow> nat worked option" where
  "worker_run n stop conducts wk eq w =
     (case register wk w of
        (Inl err, w') \<Rightarrow> Some (Inl (ApiError err), w')
      | (Inr _, w') \<Rightarrow> worker_rounds n stop conducts wk eq 0 0 w')"

end
