(* ===== verification/Worker_Stages.thy ===== *)
theory Worker_Stages
  imports Worker
begin

text \<open>
  What a worker reports of its stage: every query of a job is answered for, also when the job is cancelled
  or the lease is lost in the middle of it, and which jobs the worker cannot carry through.
\<close>

section \<open>Queries of a job\<close>

lemma query_items_ids: "query_items qs = Some items \<Longrightarrow> map fst items = map jq_query_id qs"
  by (induction qs arbitrary: items) (auto split: option.splits)

lemma query_items_length: "query_items qs = Some items \<Longrightarrow> length items = length qs"
  using query_items_ids map_eq_imp_length_eq by blast

lemma query_items_None:
  "query_items qs = None \<longleftrightarrow> (\<exists>q \<in> set qs. new_query (jq_text q) (jq_role q) (jq_reason q) = None)"
  by (induction qs) (auto split: option.splits)

lemma run_cancellable_Inr: "run_cancellable b e r = Inr r' \<Longrightarrow> r' = r \<and> (e = None \<or> b \<and> e = Some exn.Cancelled)"
  by (auto simp: run_cancellable_def split: option.splits exn.splits if_splits)

lemma filled:
  assumes "map qr_query_id (ss_queries r) = map jq_query_id (take k qs)" "k \<le> length qs"
    and "length (ss_failures r) = length (filter (\<lambda>e. qr_status e \<noteq> QOk) (ss_queries r))"
  shows "map qr_query_id (ss_queries (fill_queries sg qs r))
      = map jq_query_id (take (if sg_cancel sg \<or> sg_lost sg then length qs else k) qs)"
    "length (ss_failures (fill_queries sg qs r))
      = length (filter (\<lambda>e. qr_status e \<noteq> QOk) (ss_queries (fill_queries sg qs r)))"
proof -
  have len: "length (ss_queries r) = k" using assms(1,2) by (metis length_map length_take min.absorb2)
  have un: "qr_query_id \<circ> unasked c = jq_query_id" "filter (\<lambda>e. qr_status e \<noteq> QOk) (map (unasked c) xs) = map (unasked c) xs"
    for c xs by (auto simp: unasked_def fun_eq_iff)
  have "map jq_query_id (take k qs) @ map jq_query_id (drop k qs) = map jq_query_id qs"
    by (metis append_take_drop_id map_append)
  then show "map qr_query_id (ss_queries (fill_queries sg qs r))
      = map jq_query_id (take (if sg_cancel sg \<or> sg_lost sg then length qs else k) qs)"
    using assms(1) by (simp add: fill_queries_def Let_def len un)
  show "length (ss_failures (fill_queries sg qs r))
      = length (filter (\<lambda>e. qr_status e \<noteq> QOk) (ss_queries (fill_queries sg qs r)))"
    using assms(3) by (simp add: fill_queries_def Let_def un)
qed

lemma search_job_accounts:
  assumes pv: "search_provider (eq_provider eq) most" and run: "run_search_job eq cd l qs = Inr r"
  obtains k where "k \<le> length qs"
    "map qr_query_id (ss_queries r) = map jq_query_id (take k qs)"
    "length (ss_failures r) = length (filter (\<lambda>e. qr_status e \<noteq> QOk) (ss_queries r))"
    "sg_cancel (cd_mid cd) \<or> sg_lost (cd_mid cd) \<Longrightarrow> k = length qs"
    "\<not> cd_interrupted cd \<Longrightarrow> (\<forall>i. \<not> cd_stop cd i) \<Longrightarrow> ss_exhausted r = None \<Longrightarrow> k = length qs"
proof -
  let ?p = "eq_connect eq (new_budget (en_clock (eq_env eq)) l)"
  obtain items where items: "query_items qs = Some items"
    using run by (auto simp: run_search_job_def split: option.splits)
  obtain e r0 p' where stage: "run_search_stage (eq_provider eq) (eq_env eq) (cd_stop cd) items new_search_stage ?p = (e, r0, p')"
    by (metis surj_pair)
  have c: "run_cancellable (cd_interrupted cd) e r0 = Inr r0" "r = fill_queries (cd_mid cd) qs r0"
    using run items stage run_cancellable_Inr [of "cd_interrupted cd" e r0]
    by (auto simp: run_search_job_def split: sum.splits)
  obtain r1 where r1: "search_items (eq_provider eq) (eq_env eq) (cd_stop cd) items 0 new_search_stage ?p = (e, r1, p')"
    "r0 = r1\<lparr> ss_usage := search_usage (pv_budget (eq_provider eq) p') \<rparr>"
    using run_search_stage_eq [OF stage] by blast
  obtain k where k: "search_provider.accounts most items k new_search_stage r1"
    "e = None \<and> ss_exhausted r1 = None \<and> (\<forall>i. \<not> cd_stop cd i) \<Longrightarrow> k = length items"
    using search_provider.search_items_accounts [OF pv r1(1)] by blast
  have acc: "k \<le> length qs" "map qr_query_id (ss_queries r0) = map jq_query_id (take k qs)"
    "length (ss_failures r0) = length (filter (\<lambda>e. qr_status e \<noteq> QOk) (ss_queries r0))"
    using k(1) query_items_ids [OF items] query_items_length [OF items] r1(2)
    by (auto simp: search_provider.accounts_def [OF pv] new_search_stage_def take_map [symmetric])
  let ?k = "if sg_cancel (cd_mid cd) \<or> sg_lost (cd_mid cd) then length qs else k"
  show ?thesis
  proof (rule that [of ?k])
    show "?k = length qs" if "\<not> cd_interrupted cd" "\<forall>i. \<not> cd_stop cd i" "ss_exhausted r = None"
    proof -
      have "e = None" using run_cancellable_Inr [OF c(1)] that(1) by simp
      moreover have "ss_exhausted r1 = None"
        using that(3) c(2) r1(2) by (auto simp: fill_queries_def Let_def split: if_splits)
      ultimately show ?thesis using k(2) that(2) query_items_length [OF items] by simp
    qed
  qed (use acc filled [OF acc(2,1,3)] c(2) in auto)
qed

section \<open>A concrete worker\<close>

definition ex_link :: link where
  "ex_link = \<lparr> lk_app = ex_app, lk_clock = (\<lambda>_ _. 102), lk_draws = (\<lambda>_. ex_draws), lk_others = (\<lambda>_ m. m),
     lk_wire = (\<lambda>_. Delivered), lk_uuid = (\<lambda>_. ''pack-0001''), lk_dump_registration = (\<lambda>_. [1]),
     lk_dump_submit = (\<lambda>_. [1]), lk_dump_key = (\<lambda>_. [1]), lk_dump_envelope = (\<lambda>_. [1, 2, 3]), lk_canonical = (\<lambda>_. [1, 2, 3]) \<rparr>"

definition ex_service :: worker where
  "ex_service = \<lparr> wk_link = ex_link, wk_id = ''w1'', wk_credential = ''secret1'', wk_os = ''linux'',
     wk_architecture = ''x86_64'', wk_capabilities = [], wk_content_requested = False, wk_observer = False,
     wk_json_size = (\<lambda>_. 0) \<rparr>"

definition ex_conduct :: conduct where
  "ex_conduct = \<lparr> cd_stop = (\<lambda>_. False), cd_interrupted = False, cd_mid = \<lparr> sg_cancel = False, sg_lost = False \<rparr>,
     cd_end = \<lparr> sg_cancel = False, sg_lost = False \<rparr>, cd_documents = [],
     cd_observed = (None, empty_payload \<lparr> oi_guild_id = [], oi_channel_ids = [], oi_observed_before = 0, oi_utc_offset = 0,
       oi_lookback_days = 30, oi_max_messages_per_channel = 1 \<rparr> False [] 0, no_usage),
     cd_now = 0, cd_elapsed = 1, cd_lease_end = None \<rparr>"

definition ex_equipment :: "clock \<Rightarrow> tavily equipment" where
  "ex_equipment clk = \<lparr> eq_provider = tavily_provider (ex_search_env\<lparr> en_clock := clk \<rparr>) ex_search_config,
     eq_connect = new_tavily, eq_env = ex_search_env\<lparr> en_clock := clk \<rparr>, eq_fetcher = (\<lambda>_ _ _. None),
     eq_message = (\<lambda>_. []), eq_now = [] \<rparr>"

lemma ex_client_claim:
  "client_claim (wk_link ex_service) (wk_credential ex_service) (wk_id ex_service) (0, ex_queued)
     = (Inr (Some (\<lparr> v_row = hd (jobs ex_running), v_wait_reason = None, v_usage = no_usage \<rparr>, ex_attempt)), (1, ex_running))"
proof -
  have "claim_handler ex_app (\<lambda>_. 102) ex_draws (worker_request ''secret1'' ''w1'' ClaimJob) ex_queued
      = (Inr (reply 200 (Claimed (Some (\<lparr> v_row = hd (jobs ex_running), v_wait_reason = None, v_usage = no_usage \<rparr>, ex_attempt)))), ex_running)"
    by (simp add: claim_handler_def require_worker_def worker_request_def bare_request_def ex_app_def ex_draws_def
        answering_def ex_step_claim)
  then show ?thesis
    by (simp add: client_claim_def call_def expecting_def client_answer_def ex_service_def ex_link_def serve_def
        worker_request_def bare_request_def reply_def)
qed

section \<open>Properties\<close>

text \<open>C14. A search job that was not ended by its budget is reported in full: the entries are those of the job's
  queries, each once and in order, with one failure for each that was not answered, also when the requester
  cancelled the job or the lease was lost while a search was under way.\<close>

theorem search_job_reports_every_query:
  assumes "search_provider (eq_provider eq) most" "run_search_job eq cd l qs = Inr r"
    and "e_payload (search_report cd k att r) = SearchPay p"
    and "sg_cancel (cd_mid cd) \<or> sg_lost (cd_mid cd)
      \<or> \<not> cd_interrupted cd \<and> (\<forall>i. \<not> cd_stop cd i) \<and> ss_exhausted r = None"
  shows "map qr_query_id (sp_queries p) = map jq_query_id qs
      \<and> length (ss_failures r) = length (filter (\<lambda>e. qr_status e \<noteq> QOk) (sp_queries p))"
proof -
  have p: "sp_queries p = ss_queries r" using assms(3) by (auto simp: search_report_def report_def)
  show ?thesis
    by (rule search_job_accounts [OF assms(1,2)]) (use assms(4) p in auto)
qed

theorem search_job_reports_every_query_witness:
  "\<exists>r. run_search_job (ex_equipment (\<lambda>_. 0)) ex_conduct default_limits
      [\<lparr> jq_query_id = ''q01'', jq_text = [97], jq_role = Overview, jq_reason = [98] \<rparr>] = Inr r
    \<and> map qr_query_id (ss_queries r) = [''q01'']"
proof -
  let ?qs = "[\<lparr> jq_query_id = ''q01'', jq_text = [97], jq_role = Overview, jq_reason = [98] \<rparr>]"
  have "\<exists>r. run_search_job (ex_equipment (\<lambda>_. 0)) ex_conduct default_limits ?qs = Inr r \<and> ss_exhausted r = None"
    by (simp add: run_search_job_def new_query_def japanese_punctuation_def normalize_char_def run_search_stage_def
        ex_equipment_def ex_conduct_def take_query_def query_key_def strip_def py_space_def Let_def
        ex_tavily_simps ascii_def tavily_provider_def fill_queries_def run_cancellable_def new_search_stage_def
        add_query_def query_entry_def fail_query_def)
  then obtain r where r: "run_search_job (ex_equipment (\<lambda>_. 0)) ex_conduct default_limits ?qs = Inr r" "ss_exhausted r = None"
    by blast
  have "search_provider (eq_provider (ex_equipment (\<lambda>_. 0))) 5"
    using tavily.search_provider_axioms [of "ex_search_env\<lparr> en_clock := \<lambda>_. 0 \<rparr>" ex_search_config]
    by (simp add: ex_equipment_def ex_search_config_def)
  from search_job_reports_every_query [OF this r(1), of "[]" "[]" "\<lparr> sp_queries = ss_queries r,
      sp_candidates = ss_candidates r, sp_failures = stage_failures (ss_failures r) \<rparr>"] r
  show ?thesis by (simp add: search_report_def report_def ex_conduct_def)
qed

text \<open>C15. A search job with a query text of more than 240 characters, and one whose stage runs out of time or
  queries between two searches, end the whole worker: the exception leaves the main loop, and the manager has
  not been told anything since the claim.\<close>

theorem unfit_search_jobs_end_the_worker:
  assumes "client_claim (wk_link wk) (wk_credential wk) (wk_id wk) w = (Inr (Some (v, a)), w')" "\<not> stop i"
    and "j_input (v_row v) = SearchIn inp" "cd_lease_end (conducts i) = None"
    and "(\<exists>q \<in> set (si_queries inp). 240 < length (jq_text q))
      \<or> (\<exists>items why r p. query_items (si_queries inp) = Some items
          \<and> run_search_stage (eq_provider eq) (eq_env eq) (cd_stop (conducts i)) items new_search_stage
              (eq_connect eq (new_budget (en_clock (eq_env eq)) (j_budget (v_row v))))
            = (Some (BudgetExceeded why), r, p))"
  shows "\<exists>x. worker_rounds (Suc n) stop conducts wk eq i code w = Some (Inl x, w')
    \<and> (x = InvalidData \<or> (\<exists>why. x = StageError (BudgetExceeded why)))"
proof -
  let ?run = "run_search_job eq (conducts i) (j_budget (v_row v)) (si_queries inp)"
  have "?run = Inl InvalidData \<or> (\<exists>why. ?run = Inl (StageError (BudgetExceeded why)))"
    using assms(5)
  proof (elim disjE)
    assume "\<exists>q \<in> set (si_queries inp). 240 < length (jq_text q)"
    then have "query_items (si_queries inp) = None" unfolding query_items_None new_query_def by (force simp: not_le)
    then show ?thesis by (simp add: run_search_job_def)
  qed (auto simp: run_search_job_def run_cancellable_def)
  then show ?thesis
    using assms(1-4) by (auto simp: execute_job_def run_job_def search_job_def)
qed

theorem unfit_search_jobs_end_the_worker_witness:
  "\<exists>x. worker_rounds 1 (\<lambda>_. False) (\<lambda>_. ex_conduct) ex_service (ex_equipment (\<lambda>i. 1000 * real i)) 0 0 (0, ex_queued)
      = Some (Inl x, (1, ex_running))"
proof -
  have inp: "j_input (v_row \<lparr> v_row = hd (jobs ex_running), v_wait_reason = None, v_usage = no_usage \<rparr>)
      = SearchIn \<lparr> si_topic = ascii ''t'', si_round_index = 0,
          si_queries = [\<lparr> jq_query_id = ''q01'', jq_text = ascii ''rust'', jq_role = Overview, jq_reason = ascii ''why'' \<rparr>] \<rparr>"
    by (simp add: ex_running_def ex_queued_def ex_idle_def ex_job_def new_job_row_def ex_submit_def ex_input_def)
  have "\<exists>items why r p. query_items [\<lparr> jq_query_id = ''q01'', jq_text = ascii ''rust'', jq_role = Overview, jq_reason = ascii ''why'' \<rparr>] = Some items
      \<and> run_search_stage (eq_provider (ex_equipment (\<lambda>i. 1000 * real i))) (eq_env (ex_equipment (\<lambda>i. 1000 * real i)))
          (cd_stop ex_conduct) items new_search_stage
          (eq_connect (ex_equipment (\<lambda>i. 1000 * real i)) (new_budget (en_clock (eq_env (ex_equipment (\<lambda>i. 1000 * real i)))) default_limits))
        = (Some (BudgetExceeded why), r, p)"
    by (simp add: new_query_def ascii_def ex_equipment_def ex_conduct_def run_search_stage_def tavily_provider_def
        new_tavily_def new_budget_def ex_search_env_def take_query_def take_budget_def check_time_def
        remaining_seconds_def Let_def default_limits_def)
  then show ?thesis
    using unfit_search_jobs_end_the_worker [OF ex_client_claim, of "\<lambda>_. False" 0 _ "\<lambda>_. ex_conduct" _ 0 0] inp
    by (fastforce simp: ex_conduct_def ex_running_def ex_queued_def ex_idle_def ex_job_def new_job_row_def ex_submit_def)
qed

end
