(* ===== verification/Delivery.thy ===== *)
theory Delivery
  imports Worker_Stages
begin

text \<open>
  The worker and the manager together: what a renewal of the lease tells the worker about its job, what a
  finalization leaves in the manager, and how a cancellation that comes too late for the stage is settled.
\<close>

section \<open>Calls of a worker that are delivered\<close>

definition credentials_fit :: "worker \<Rightarrow> bool" where
  "credentials_fit wk \<longleftrightarrow>
     check_worker_credential (ap_settings (lk_app (wk_link wk))) (wk_id wk) (wk_credential wk) = None"

lemma call_delivered:
  assumes "lk_wire lk n = Delivered" "route_handler (rq_route rq) (lk_app lk) (lk_clock lk n) (lk_draws lk n) rq (lk_others lk n m) = (r, m')"
  shows "call lk rq (n, m) = ((case r of Inl e \<Rightarrow> client_answer (error_reply e) | Inr rp \<Rightarrow> client_answer rp), (Suc n, m'))"
  using assms by (auto simp: call_def serve_def Let_def split: sum.splits)

definition lease_gone :: "real \<Rightarrow> job_row \<Rightarrow> attempt_row \<Rightarrow> bool" where
  "lease_gone t row a \<longleftrightarrow> terminal (j_state row) \<or> a_lease_expires_at a < t \<or> j_deadline_at row < t"

lemma renew_own_lease:
  assumes "check_worker_credential cfg w c = None" "job_row_of m k = Some row" "attempt_row_of m k (Some att) = Some a"
    and "a_worker_id a = w" "a_lease_token a = token" "a_finalized_at a = None" "j_attempt_id row = Some att"
  shows "renew_lease cfg clk k w c att token m =
    (if terminal (j_state row) then (Inr \<lparr> li_job_id = k, li_attempt_id = att, li_job_state = JobState (j_state row), li_lease_expires_at = None \<rparr>, m)
     else if a_lease_expires_at a < clk 0 then (Inl (ManagerError ''lease_expired'' 410), m)
     else if j_deadline_at row < clk 0
     then (Inr \<lparr> li_job_id = k, li_attempt_id = att, li_job_state = DeadlinePassed, li_lease_expires_at = None \<rparr>, m)
     else (Inr \<lparr> li_job_id = k, li_attempt_id = att, li_job_state = JobState (j_state row),
                 li_lease_expires_at = Some (min (clk 0 + lease_seconds cfg) (j_deadline_at row)) \<rparr>,
           m\<lparr> attempts := update_rows (\<lambda>r. a_attempt_id r = att)
                (\<lambda>r. r\<lparr> a_lease_expires_at := min (clk 0 + lease_seconds cfg) (j_deadline_at row) \<rparr>) (attempts m) \<rparr>))"
  using assms by (simp add: renew_lease_def Let_def)

section \<open>Uploads and manifests\<close>

lemma find_more: "find_row key i t = Some f \<Longrightarrow> q f \<Longrightarrow> find (\<lambda>r. key r = i \<and> q r) t = Some f"
  by (induction t) (auto split: if_splits)

lemma listed_manifest:
  assumes "find_row f_artifact_id (ar_artifact_id r) (artifacts m) = Some f" "f_job_id f = k" "f_attempt_id f = att" "ref_matches f r"
  shows "check_manifest m k att [r] = None"
  using find_more [OF assms(1), of "\<lambda>f. f_job_id f = k \<and> f_attempt_id f = att"] assms by simp

lemma check_manifest_append: "check_manifest m k att (xs @ ys) = None \<longleftrightarrow> check_manifest m k att xs = None \<and> check_manifest m k att ys = None"
  by (induction xs) (auto split: option.splits)

lemma added_artifact_listed:
  assumes "add_artifact cfg lib clk k w c att token r data m = (Inr s, m')"
  shows "check_manifest m' k att [r] = None"
proof -
  obtain b where b: "artifact_check cfg lib (clk 0) k w c att token r data m = Inr b"
    using assms by (cases "artifact_check cfg lib (clk 0) k w c att token r data m") (auto simp: add_artifact_def)
  show ?thesis
  proof (cases b)
    case True
    then have m': "artifacts m' = artifacts m @ [artifact_row_for k att r]"
      using assms b by (auto simp: add_artifact_def)
    have "ar_artifact_id r \<notin> f_artifact_id ` set (artifacts m)"
      using b True by (auto elim!: artifact_check_storeD)
    then have "find_row f_artifact_id (ar_artifact_id r) (artifacts m') = Some (artifact_row_for k att r)"
      by (simp add: m' find_row_append find_row_notin artifact_row_for_def)
    then show ?thesis by (rule listed_manifest) (simp_all add: artifact_row_for_def ref_matches_def)
  next
    case False
    then have m': "m' = m" using assms b by (simp add: add_artifact_def)
    have "\<exists>f. find_row f_artifact_id (ar_artifact_id r) (artifacts m) = Some f \<and> f_job_id f = k \<and> f_attempt_id f = att \<and> ref_matches f r"
      using b False by (auto simp: artifact_check_def split: option.splits if_splits)
    then show ?thesis unfolding m' by (elim exE conjE) (rule listed_manifest)
  qed
qed

section \<open>Envelopes on the wire\<close>

text \<open>The manager reads the envelope the worker wrote, and accepts it as one.\<close>

definition understood :: "link \<Rightarrow> envelope \<Rightarrow> bool" where
  "understood lk e \<longleftrightarrow>
     checked_json (lk_app lk) (8 * 1024 * 1024) (ap_envelope (lk_app lk)) (valid_envelope (ap_json_size (lk_app lk)))
       [lk_dump_envelope lk e] = Inr e"

lemma error_is_no_view: "rp_answer (error_reply e) \<noteq> JobView v"
  by (cases e) (simp_all add: reply_def)

lemma error_is_no_saved [simp]: "rp_answer (error_reply e) \<noteq> Saved r"
  by (cases e) (simp_all add: reply_def)

text \<open>A finalize call of the worker, as the manager sees it.\<close>

abbreviation manager_finalize :: "worker \<Rightarrow> nat \<Rightarrow> string \<Rightarrow> string \<Rightarrow> envelope \<Rightarrow> manager \<Rightarrow> job_view outcome" where
  "manager_finalize wk n k token e m \<equiv>
     finalize (ap_settings (lk_app (wk_link wk))) (lk_clock (wk_link wk) n) k (wk_id wk) (wk_credential wk) token e
       (lk_others (wk_link wk) n m)"

lemma client_finalize_delivered:
  assumes "lk_wire (wk_link wk) n = Delivered" "understood (wk_link wk) e" "credentials_fit wk"
    and "manager_finalize wk n k token e m = (r, m')"
  shows "client_finalize (wk_link wk) (wk_credential wk) (wk_id wk) k token e (n, m) =
    ((case r of Inl err \<Rightarrow> (case client_answer (error_reply err) of Inl x \<Rightarrow> Inl x | Inr _ \<Rightarrow> Inl UnexpectedAnswer)
      | Inr v \<Rightarrow> Inr v), (Suc n, m'))"
proof -
  let ?rq = "(worker_request (wk_credential wk) (wk_id wk) (FinalizeJob k))
      \<lparr> rq_lease_token := token, rq_body := [lk_dump_envelope (wk_link wk) e] \<rparr>"
  have "route_handler (rq_route ?rq) (lk_app (wk_link wk)) (lk_clock (wk_link wk) n) (lk_draws (wk_link wk) n) ?rq (lk_others (wk_link wk) n m)
      = (map_sum id (\<lambda>v. reply 200 (JobView v)) r, m')"
    using assms(2-4) by (simp add: worker_request_def bare_request_def finalize_handler_def require_worker_def
        credentials_fit_def understood_def with_body_def answering_def)
  note delivered = call_delivered [OF assms(1) this]
  show ?thesis
    using delivered error_is_no_view by (cases r) (auto simp: client_finalize_def expecting_def client_answer_def reply_def split: if_splits sum.splits answer.splits manager_error.splits)
qed

lemma client_finalize_accepted:
  assumes "client_finalize (wk_link wk) (wk_credential wk) (wk_id wk) k token e (n, m) = (Inr v, w')"
    and "understood (wk_link wk) e"
  shows "manager_finalize wk n k token e m = (Inr v, snd w') \<and> fst w' = Suc n"
proof -
  let ?lk = "wk_link wk"
  let ?rq = "(worker_request (wk_credential wk) (wk_id wk) (FinalizeJob k))
      \<lparr> rq_lease_token := token, rq_body := [lk_dump_envelope ?lk e] \<rparr>"
  have "fst (call ?lk ?rq (n, m)) = Inr (JobView v)" and w': "w' = snd (call ?lk ?rq (n, m))"
    using assms(1) by (auto simp: client_finalize_def expecting_def split: sum.splits option.splits answer.splits)
  note c = call_answered [OF this(1)]
  have "credentials_fit wk"
  proof (rule ccontr)
    assume "\<not> credentials_fit wk"
    then obtain err where "check_worker_credential (ap_settings (lk_app ?lk)) (wk_id wk) (wk_credential wk) = Some err"
      by (auto simp: credentials_fit_def)
    then have "fst (serve (lk_app ?lk) (lk_clock ?lk n) (lk_draws ?lk n) ?rq (lk_others ?lk n m)) = error_reply err"
      by (simp add: serve_def worker_request_def bare_request_def finalize_handler_def require_worker_def)
    with c(2) error_is_no_view show False by simp
  qed
  moreover have "lk_wire ?lk n = Delivered"
    using assms(1) by (cases "lk_wire ?lk n") (simp_all add: client_finalize_def expecting_def call_def Let_def)
  moreover obtain r m' where r: "manager_finalize wk n k token e m = (r, m')" by fastforce
  ultimately have "client_finalize ?lk (wk_credential wk) (wk_id wk) k token e (n, m) =
    ((case r of Inl err \<Rightarrow> (case client_answer (error_reply err) of Inl x \<Rightarrow> Inl x | Inr _ \<Rightarrow> Inl UnexpectedAnswer)
      | Inr v \<Rightarrow> Inr v), (Suc n, m'))"
    using assms(2) by (intro client_finalize_delivered)
  with assms(1) r show ?thesis by (auto split: sum.splits)
qed

lemma client_finalize_sound:
  "fair_link lk \<Longrightarrow> sound_world lk w \<Longrightarrow> sound_world lk (snd (client_finalize lk c i k token e w))"
  unfolding client_finalize_def snd_expecting by (rule call_sound) (simp_all add: worker_request_def bare_request_def)

lemma client_upload_sound:
  "fair_link lk \<Longrightarrow> sound_world lk w \<Longrightarrow> sound_world lk (snd (client_upload lk c i k att token r d w))"
  unfolding client_upload_def snd_expecting by (rule call_sound) (simp_all add: worker_request_def bare_request_def)

lemma snd_upload_result_pack: "snd (upload_result_pack wk k token e w) =
    snd (client_upload (wk_link wk) (wk_credential wk) (wk_id wk) k (e_attempt_id e) token
           (result_pack wk (fst w) e) (lk_canonical (wk_link wk) e) w)"
  by (simp add: upload_result_pack_def split: prod.split sum.split)

lemma upload_sound:
  "fair_link (wk_link wk) \<Longrightarrow> sound_world (wk_link wk) w \<Longrightarrow>
   sound_world (wk_link wk) (snd (upload_result_pack wk k token e w))"
  unfolding snd_upload_result_pack by (rule client_upload_sound)

text \<open>What an accepted finalize call leaves behind.\<close>

lemma accepted_result_is_stored:
  fixes wk :: worker
  assumes "fair_link (wk_link wk)" "sound_world (wk_link wk) (n, m)"
    and "client_finalize (wk_link wk) (wk_credential wk) (wk_id wk) k token e (n, m) = (Inr v, w')" "understood (wk_link wk) e"
  shows "\<exists>row. job_row_of (snd w') k = Some row \<and> settled (j_state row) \<and> j_result row = Some e"
proof -
  let ?m = "lk_others (wk_link wk) n m" and ?cfg = "ap_settings (lk_app (wk_link wk))"
  let ?lib = "ap_library (lk_app (wk_link wk))"
  have m: "manager_reachable ?cfg ?lib ?m" using assms(1,2) by (simp add: fair_link_def)
  have f: "manager_finalize wk n k token e m = (Inr v, snd w')" using client_finalize_accepted [OF assms(3,4)] by simp
  obtain row a where r: "job_row_of ?m k = Some row" "a \<in> set (attempts ?m)" "carries a row"
    "if a_finalized_at a \<noteq> None then snd w' = ?m \<and> j_result row = Some e
       else final_state (j_state row) (e_status e) = Inr (j_state (v_row v)) \<and> j_result (v_row v) = Some e
         \<and> job_row_of (snd w') k = Some (v_row v)"
    using finalize_accepted [OF m f] by (auto split: if_splits)
  show ?thesis
  proof (cases "a_finalized_at a = None")
    case True
    with r(4) show ?thesis using final_state_settled by (intro exI [of _ "v_row v"]) auto
  next
    case False
    have inv: "manager_inv ?m" by (rule reachable_inv [OF m])
    have row: "row \<in> set (jobs ?m)" "j_job_id row = k" using r(1) inv by (simp_all add: job_row_in)
    obtain j where j: "j \<in> set (jobs ?m)" "carries a j" "(a_finalized_at a \<noteq> None) = settled (j_state j)"
      using inv r(2) by (auto simp: manager_inv_def attempts_ok_def)
    have "j = row" using j(1,2) r(3) row inv by (auto simp: carries_def intro: job_unique)
    with j(3) False r show ?thesis by (intro exI [of _ row]) simp
  qed
qed

lemma upload_saved:
  assumes "rp_answer (fst (serve ap clk dr rq m)) = Saved s" "rq_route rq = UploadArtifact k"
  obtains r d where "upload_request ap rq = Inr (r, d)"
    "add_artifact (ap_settings ap) (ap_library ap) clk k (rq_worker_id rq) (rq_credential rq) (rq_attempt_id rq)
       (rq_lease_token rq) r d m = (Inr s, snd (serve ap clk dr rq m))"
  using assms
  by (auto simp: serve_def upload_handler_def require_worker_def with_body_def answering_def reply_def prod_eq_iff
      split: option.splits sum.splits prod.splits)

text \<open>A pack that was uploaded is one the manager finds again.\<close>

lemma uploaded_pack_listed:
  assumes "upload_result_pack wk k token e w = (Inr ref, (n, m))" "ap_int (lk_app (wk_link wk)) (dec 1) = Some 1"
  shows "check_manifest m k (e_attempt_id e) [ref] = None \<and> ref = result_pack wk (fst w) e"
proof -
  let ?lk = "wk_link wk" and ?ref = "result_pack wk (fst w) e" and ?data = "lk_canonical (wk_link wk) e"
  let ?m = "lk_others ?lk (fst w) (snd w)"
  let ?rq = "(worker_request (wk_credential wk) (wk_id wk) (UploadArtifact k))
          \<lparr> rq_attempt_id := e_attempt_id e, rq_lease_token := token, rq_artifact_id := ar_artifact_id ?ref,
            rq_artifact_name := ar_name ?ref, rq_media_type := ar_media_type ?ref, rq_sha256 := ar_sha256 ?ref,
            rq_bytes := dec (length ?data), rq_schema_version := Some (dec (nat (ar_schema_version ?ref))),
            rq_body := [?data] \<rparr>"
  obtain s where up: "client_upload ?lk (wk_credential wk) (wk_id wk) k (e_attempt_id e) token ?ref ?data w = (Inr s, (n, m))"
    "ref = ?ref"
    using assms(1) by (auto simp: upload_result_pack_def split: prod.splits sum.splits)
  then have c: "fst (call ?lk ?rq w) = Inr (Saved s)" "snd (call ?lk ?rq w) = (n, m)"
    by (auto simp: client_upload_def expecting_def split: sum.splits option.splits answer.splits)
  note a = call_answered [OF c(1)]
  have ver: "nat (ar_schema_version ?ref) = 1" by (simp add: result_pack_def artifact_of_def)
  have route: "rq_route ?rq = UploadArtifact k" by (simp add: worker_request_def bare_request_def)
  obtain r d where h: "upload_request (lk_app ?lk) ?rq = Inr (r, d)"
    "add_artifact (ap_settings (lk_app ?lk)) (ap_library (lk_app ?lk)) (lk_clock ?lk (fst w)) k (wk_id wk) (wk_credential wk)
       (e_attempt_id e) token r d ?m = (Inr s, m)"
    using upload_saved [OF a(2) route] a(1) c(2) by (auto simp: worker_request_def bare_request_def simp del: serve_state)
  have "r = ?ref"
    using h(1) assms(2) ver
    by (auto simp: upload_request_def read_body_def validated_def worker_request_def bare_request_def
        result_pack_def artifact_of_def split: option.splits if_splits)
  with added_artifact_listed [OF h(2)] up(2) show ?thesis by simp
qed

lemma late_cancellation_settled:
  assumes "sound_world (wk_link wk) (n, m)" "credentials_fit wk" "ap_int (lk_app (wk_link wk)) (dec 1) = Some 1"
    and "upload_result_pack wk k token e w = (Inr ref, (n, m))"
    and "\<forall>i \<in> {n, Suc n}. lk_wire (wk_link wk) i = Delivered \<and> lk_others (wk_link wk) i m = m
       \<and> lk_clock (wk_link wk) i 0 \<le> a_lease_expires_at a"
    and "understood (wk_link wk) (e\<lparr> e_manifest := e_manifest e @ [ref] \<rparr>)"
    and "understood (wk_link wk) (as_cancelled (e\<lparr> e_manifest := e_manifest e @ [ref] \<rparr>))"
    and "job_row_of m k = Some row" "j_state row = CancelRequested" "j_kind row = WebCollect"
    and "attempt_row_of m k (j_attempt_id row) = Some a" "a_worker_id a = wk_id wk" "a_lease_token a = token"
    and "e_job_id e = k" "e_attempt_id e = a_attempt_id a" "payload_mode (e_payload e) = j_mode row"
    and "e_status e \<noteq> RCancelled" "check_manifest m k (a_attempt_id a) (e_manifest e) = None"
  shows "\<exists>v w' row'. worker_finalize wk k token e True w = (Inr v, w') \<and> job_row_of (snd w') k = Some row'
    \<and> j_state row' = job_state.Cancelled \<and> j_result row' = Some (as_cancelled (e\<lparr> e_manifest := e_manifest e @ [ref] \<rparr>))"
proof -
  let ?lk = "wk_link wk" and ?e = "e\<lparr> e_manifest := e_manifest e @ [ref] \<rparr>"
  let ?cfg = "ap_settings (lk_app ?lk)"
  have inv: "manager_inv m" using reachable_inv assms(1) by auto
  note pack = uploaded_pack_listed [OF assms(4,3)]
  note att = attempt_of_row [OF inv assms(8,11)]
  have open_attempt: "a_finalized_at a = None" using att(3) assms(9) by simp
  have cred: "check_worker_credential ?cfg (wk_id wk) (wk_credential wk) = None"
    using assms(2) by (simp add: credentials_fit_def)
  have listed: "check_manifest m k (a_attempt_id a) (e_manifest e @ [ref]) = None"
    using conjunct1 [OF pack] assms(15,18) by (simp add: check_manifest_append del: check_manifest.simps)
  have t: "\<not> a_lease_expires_at a < lk_clock ?lk n 0" "\<not> a_lease_expires_at a < lk_clock ?lk (Suc n) 0"
    using assms(5) by auto
  have refused: "manager_finalize wk n k token ?e m = (Inl (ManagerError ''result_conflicts_with_cancel'' 409), m)"
    using assms cred open_attempt t by (simp add: finalize_def finalize_check_def final_state_def)
  have first: "client_finalize ?lk (wk_credential wk) (wk_id wk) k token ?e (n, m)
      = (Inl (ManagerAPIError 409 ''result_conflicts_with_cancel''), (Suc n, m))"
    using client_finalize_delivered [OF _ assms(6,2) refused] assms(5)
    by (simp add: client_answer_def reply_def error_code_def)
  obtain x m' where second: "manager_finalize wk (Suc n) k token (as_cancelled ?e) m = (x, m')" by fastforce
  have check: "finalize_check ?cfg (lk_clock ?lk (Suc n)) k (wk_id wk) (wk_credential wk) token (as_cancelled ?e) m
      = Inr (row, a, Some job_state.Cancelled)"
    using assms cred open_attempt t listed by (simp add: finalize_check_def final_state_def as_cancelled_def)
  have "required_capabilities row \<noteq> None"
    using inv_capabilities [OF inv] assms(8) inv by (simp add: job_row_in)
  then have mode: "payload_mode (e_payload e) \<noteq> ObserveMode"
    using assms(10,16) by (auto simp: required_capabilities_def)
  let ?m = "store_result k (a_attempt_id a) job_state.Cancelled (as_cancelled ?e) (lk_clock ?lk (Suc n) 2) m"
  have fin: "manager_finalize wk (Suc n) k token (as_cancelled ?e) m = (view_by_id ?cfg ?m (lk_clock ?lk (Suc n) 3) k, ?m)"
    using check mode assms(5) by (cases "e_payload e") (simp_all add: finalize_def as_cancelled_def Let_def)
  then have m': "m' = ?m" using second by simp
  have rows: "job_row_of m' k = Some (row\<lparr> j_state := job_state.Cancelled,
      j_stop_reason := Some ''cancelled_by_requester'', j_result := Some (as_cancelled ?e) \<rparr>)"
    unfolding m' using store_result_row [OF inv assms(8)] by (simp add: as_cancelled_def)
  have "manager_inv m'" using inv_finalize [OF inv] second assms(5) by (metis insertI1 insert_commute snd_conv)
  then obtain v where "view_by_id ?cfg m' (lk_clock ?lk (Suc n) 3) k = Inr v" using rows by (rule view_by_id_total)
  then have "\<exists>v. x = Inr v" using fin second m' by simp
  then obtain v where v: "x = Inr v" by blast
  have "client_finalize ?lk (wk_credential wk) (wk_id wk) k token (as_cancelled ?e) (Suc n, m) = (Inr v, (Suc (Suc n), m'))"
    using client_finalize_delivered [OF _ assms(7,2) second] assms(5) v by simp
  then have "worker_finalize wk k token e True w = (Inr v, (Suc (Suc n), m'))"
    using assms(4) first by (simp add: worker_finalize_def cancel_conflict_def)
  with rows show ?thesis by auto
qed

section \<open>Properties\<close>

text \<open>A renewal that reaches the manager tells the worker how its job stands: a job that has ended, whose lease
  has run out or whose deadline has passed raises the event of a lost lease, a cancelled one the event of a
  cancellation, and otherwise the loop goes on with a lease that the manager has extended.\<close>

theorem lease_tick_tells_the_job:
  assumes "lk_wire (wk_link wk) n = Delivered" "credentials_fit wk" "\<not> sg_lost sg"
    and "job_row_of (lk_others (wk_link wk) n m) k = Some row"
    and "attempt_row_of (lk_others (wk_link wk) n m) k (Some att) = Some a"
    and "a_worker_id a = wk_id wk" "a_lease_token a = token" "a_finalized_at a = None" "j_attempt_id row = Some att"
  shows "let t = lk_clock (wk_link wk) n 0; m0 = lk_others (wk_link wk) n m;
             r = lease_tick wk k att token sg (n, m)
    in if lease_gone t row a then r = ((Inr False, sg\<lparr> sg_lost := True \<rparr>), (Suc n, m0))
       else fst r = (if j_state row = CancelRequested then (Inr False, sg\<lparr> sg_cancel := True \<rparr>) else (Inr True, sg))
         \<and> snd r = (Suc n, m0\<lparr> attempts := update_rows (\<lambda>b. a_attempt_id b = att)
             (\<lambda>b. b\<lparr> a_lease_expires_at := min (t + lease_seconds (ap_settings (lk_app (wk_link wk)))) (j_deadline_at row) \<rparr>)
             (attempts m0) \<rparr>)"
proof -
  let ?lk = "wk_link wk"
  let ?m = "lk_others ?lk n m" and ?cfg = "ap_settings (lk_app ?lk)"
  let ?rq = "(worker_request (wk_credential wk) (wk_id wk) (RenewLease k))\<lparr> rq_attempt_id := att, rq_lease_token := token \<rparr>"
  obtain x m' where x: "renew_lease ?cfg (lk_clock ?lk n) k (wk_id wk) (wk_credential wk) att token ?m = (x, m')"
    by fastforce
  have "route_handler (rq_route ?rq) (lk_app ?lk) (lk_clock ?lk n) (lk_draws ?lk n) ?rq ?m = (map_sum id lease_reply x, m')"
    using assms(2) x by (simp add: worker_request_def bare_request_def lease_handler_def require_worker_def
        credentials_fit_def answering_def)
  from call_delivered [OF assms(1) this]
  have c: "call ?lk ?rq (n, m) = ((case x of Inl e \<Rightarrow> client_answer (error_reply e)
      | Inr i \<Rightarrow> client_answer (lease_reply i)), (Suc n, m'))"
    by (cases x) simp_all
  have "renew_lease ?cfg (lk_clock ?lk n) k (wk_id wk) (wk_credential wk) att token ?m = (x, m')" by (rule x)
  note own = renew_own_lease [of ?cfg "wk_id wk" "wk_credential wk" ?m k row att a token "lk_clock ?lk n"]
  have cred: "check_worker_credential ?cfg (wk_id wk) (wk_credential wk) = None"
    using assms(2) by (simp add: credentials_fit_def)
  have x': "(x, m') = (if terminal (j_state row) then (Inr \<lparr> li_job_id = k, li_attempt_id = att, li_job_state = JobState (j_state row), li_lease_expires_at = None \<rparr>, ?m)
     else if a_lease_expires_at a < lk_clock ?lk n 0 then (Inl (ManagerError ''lease_expired'' 410), ?m)
     else if j_deadline_at row < lk_clock ?lk n 0
     then (Inr \<lparr> li_job_id = k, li_attempt_id = att, li_job_state = DeadlinePassed, li_lease_expires_at = None \<rparr>, ?m)
     else (Inr \<lparr> li_job_id = k, li_attempt_id = att, li_job_state = JobState (j_state row),
                 li_lease_expires_at = Some (min (lk_clock ?lk n 0 + lease_seconds ?cfg) (j_deadline_at row)) \<rparr>,
           ?m\<lparr> attempts := update_rows (\<lambda>r. a_attempt_id r = att)
                (\<lambda>r. r\<lparr> a_lease_expires_at := min (lk_clock ?lk n 0 + lease_seconds ?cfg) (j_deadline_at row) \<rparr>) (attempts ?m) \<rparr>))"
    using own [OF cred assms(4-9)] x by simp
  note eval = lease_tick_def client_renew_def c expecting_def client_answer_def lease_reply_def reply_def lease_gone_def
    lease_lost_def Let_def
  show ?thesis
    using assms(3) x'
    by (cases "terminal (j_state row)"; cases "a_lease_expires_at a < lk_clock ?lk n 0"; cases "j_deadline_at row < lk_clock ?lk n 0";
        cases "j_state row") (simp_all add: eval)
qed

text \<open>C12. What the worker delivers is what the manager stores: when its finalization returns, the job has ended and its
  result is the worker's envelope with the uploaded pack at the end of the manifest, or the same envelope as
  cancelled when the requester's cancellation was first.\<close>

theorem delivered_results_are_stored:
  assumes "fair_link (wk_link wk)" "sound_world (wk_link wk) w"
    and "worker_finalize wk k token e True w = (Inr v, w')"
    and "understood (wk_link wk) (e\<lparr> e_manifest := e_manifest e @ [result_pack wk (fst w) e] \<rparr>)"
    and "understood (wk_link wk) (as_cancelled (e\<lparr> e_manifest := e_manifest e @ [result_pack wk (fst w) e] \<rparr>))"
  shows "\<exists>row r. job_row_of (snd w') k = Some row \<and> settled (j_state row) \<and> j_result row = Some r
    \<and> (r = e\<lparr> e_manifest := e_manifest e @ [result_pack wk (fst w) e] \<rparr>
       \<or> r = as_cancelled (e\<lparr> e_manifest := e_manifest e @ [result_pack wk (fst w) e] \<rparr>))"
proof -
  let ?e = "e\<lparr> e_manifest := e_manifest e @ [result_pack wk (fst w) e] \<rparr>"
  obtain ref w1 where up: "upload_result_pack wk k token e w = (Inr ref, w1)" "ref = result_pack wk (fst w) e"
    using assms(3) by (auto simp: worker_finalize_def upload_result_pack_def split: prod.splits sum.splits)
  have w1: "sound_world (wk_link wk) w1" using upload_sound [OF assms(1,2), of k token e] up by simp
  obtain r w2 where fin: "client_finalize (wk_link wk) (wk_credential wk) (wk_id wk) k token ?e w1 = (r, w2)"
    by (metis surj_pair)
  have w2: "sound_world (wk_link wk) w2"
    using client_finalize_sound [OF assms(1) w1, of "wk_credential wk" "wk_id wk" k token ?e] fin by simp
  show ?thesis
  proof (cases r)
    case (Inr v')
    then have "w' = w2" using assms(3) up fin by (simp add: worker_finalize_def)
    then show ?thesis
      using accepted_result_is_stored [OF assms(1), of "fst w1" "snd w1" k token ?e v' w2] w1 fin Inr assms(4) by auto
  next
    case (Inl err)
    then have "client_finalize (wk_link wk) (wk_credential wk) (wk_id wk) k token (as_cancelled ?e) w2 = (Inr v, w')"
      using assms(3) up fin by (simp add: worker_finalize_def Let_def split: if_splits)
    then show ?thesis
      using accepted_result_is_stored [OF assms(1), of "fst w2" "snd w2" k token "as_cancelled ?e" v w'] w2 assms(5) by auto
  qed
qed

text \<open>C13. A cancellation that reaches the manager after the stage of a web-collect job has ended is settled by
  the worker, as long as the worker is still heard in time. Suppose the result pack was uploaded, the worker's
  credentials fit, both envelopes are read back as they were written, both finalize calls are delivered, nobody
  else changes the manager between them, and the lease of the attempt has not ended at either call. Then the
  manager refuses the finished result, the worker delivers it again as cancelled, and the job ends as cancelled
  with everything that was collected. Once the lease has ended the manager accepts no result at all.\<close>

theorem late_cancellation_is_settled:
  assumes "sound_world (wk_link wk) (n, m)" "credentials_fit wk" "ap_int (lk_app (wk_link wk)) (dec 1) = Some 1"
    and "upload_result_pack wk k token e w = (Inr ref, (n, m))"
    and "\<forall>i \<in> {n, Suc n}. lk_wire (wk_link wk) i = Delivered \<and> lk_others (wk_link wk) i m = m
       \<and> lk_clock (wk_link wk) i 0 \<le> a_lease_expires_at a"
    and "understood (wk_link wk) (e\<lparr> e_manifest := e_manifest e @ [ref] \<rparr>)"
    and "understood (wk_link wk) (as_cancelled (e\<lparr> e_manifest := e_manifest e @ [ref] \<rparr>))"
    and "job_row_of m k = Some row" "j_state row = CancelRequested" "j_kind row = WebCollect"
    and "attempt_row_of m k (j_attempt_id row) = Some a" "a_worker_id a = wk_id wk" "a_lease_token a = token"
    and "e_job_id e = k" "e_attempt_id e = a_attempt_id a" "payload_mode (e_payload e) = j_mode row"
    and "e_status e \<noteq> RCancelled" "check_manifest m k (a_attempt_id a) (e_manifest e) = None"
  shows "\<exists>v w' row'. worker_finalize wk k token e True w = (Inr v, w') \<and> job_row_of (snd w') k = Some row'
    \<and> j_state row' = job_state.Cancelled \<and> j_result row' = Some (as_cancelled (e\<lparr> e_manifest := e_manifest e @ [ref] \<rparr>))"
  by (rule late_cancellation_settled [OF assms])

section \<open>Examples\<close>

lemma lease_tick_tells_the_job_witness:
  "lease_tick ex_service ''job-0001'' ''att-0001'' ''tok'' \<lparr> sg_cancel = False, sg_lost = False \<rparr> (1, ex_stopping)
     = ((Inr False, \<lparr> sg_cancel = True, sg_lost = False \<rparr>), snd (lease_tick ex_service ''job-0001'' ''att-0001'' ''tok''
          \<lparr> sg_cancel = False, sg_lost = False \<rparr> (1, ex_stopping)))"
proof -
  have link: "lk_wire (wk_link ex_service) 1 = Delivered" "credentials_fit ex_service"
    "lk_others (wk_link ex_service) 1 ex_stopping = ex_stopping" "lk_clock (wk_link ex_service) 1 0 = 102"
    by (simp_all add: ex_service_def ex_link_def credentials_fit_def ex_app_def)
  have row: "job_row_of ex_stopping ''job-0001'' = Some (hd (jobs ex_stopping))"
    "attempt_row_of ex_stopping ''job-0001'' (Some ''att-0001'') = Some ex_attempt"
    "j_state (hd (jobs ex_stopping)) = CancelRequested" "j_attempt_id (hd (jobs ex_stopping)) = Some ''att-0001''"
    "\<not> lease_gone 102 (hd (jobs ex_stopping)) ex_attempt"
    "a_worker_id ex_attempt = wk_id ex_service" "a_lease_token ex_attempt = ''tok''" "a_finalized_at ex_attempt = None"
    by (simp_all add: ex_stopping_eq ex_running_def ex_state_defs job_row_of_def attempt_row_of_def lease_gone_def
        ex_service_def)
  from lease_tick_tells_the_job [OF link(1,2), of "\<lparr> sg_cancel = False, sg_lost = False \<rparr>" ex_stopping "''job-0001''"
      "hd (jobs ex_stopping)" "''att-0001''" ex_attempt "''tok''"] link row
  show ?thesis by (simp add: Let_def prod_eq_iff)
qed

definition ex_done :: envelope where
  "ex_done = (ex_result RSucceeded)\<lparr> e_payload := SearchPay \<lparr> sp_queries = [\<lparr> qr_query_id = ''q01'', qr_text = ascii ''rust'',
     qr_role = Overview, qr_reason = ascii ''why'', qr_status = QOk, qr_result_count = 0,
     qr_diagnostic = blank_diagnostic \<rparr>], sp_candidates = [], sp_failures = [] \<rparr> \<rparr>"

definition ex_pack :: artifact_ref where
  "ex_pack = \<lparr> ar_artifact_id = ''pack-0001'', ar_name = ''result-pack.json'', ar_media_type = ''application/json'',
     ar_bytes = 3, ar_sha256 = replicate 64 (char_of (54 :: nat)), ar_schema_version = 1 \<rparr>"

definition ex_closing :: worker where
  "ex_closing = ex_service\<lparr> wk_link := ex_link\<lparr>
     lk_app := ex_app\<lparr> ap_int := (\<lambda>s. if s = dec 1 then Some 1 else Some 3),
       ap_loads := (\<lambda>d. Some (JObj (if d = [1, 2, 3] then [] else [([], JNull)]))),
       ap_envelope := (\<lambda>v. Some (if v = JObj [] then ex_done\<lparr> e_manifest := [ex_pack] \<rparr>
                                 else as_cancelled (ex_done\<lparr> e_manifest := [ex_pack] \<rparr>))) \<rparr>,
     lk_dump_envelope := (\<lambda>e. if e_status e = RCancelled then [4, 5, 6] else [1, 2, 3]) \<rparr> \<rparr>"

lemma ex_pack_valid: "valid_artifact_ref ex_pack"
  by (simp add: valid_artifact_ref_def ex_pack_def id_string_def id_char_def alnum_char_def digit_char_def
      sha256_string_def hex_char_def list_all_iff)

lemma ex_done_valid:
  "valid_envelope js (ex_done\<lparr> e_manifest := [ex_pack] \<rparr>)" "valid_envelope js (as_cancelled (ex_done\<lparr> e_manifest := [ex_pack] \<rparr>))"
  using ex_pack_valid
  by (simp_all add: valid_envelope_def ex_done_def ex_result_def as_cancelled_def opt_len_def valid_usage_def
      valid_query_result_def valid_diagnostic_def blank_diagnostic_def ascii_def)

lemma ex_understood:
  "understood (wk_link ex_closing) (ex_done\<lparr> e_manifest := [ex_pack] \<rparr>)"
  "understood (wk_link ex_closing) (as_cancelled (ex_done\<lparr> e_manifest := [ex_pack] \<rparr>))"
  using ex_done_valid
  by (simp_all add: understood_def ex_closing_def ex_service_def ex_link_def ex_app_def checked_json_def read_json_def
      read_body_def validated_def as_cancelled_def ex_done_def ex_result_def)

definition ex_packed :: manager where
  "ex_packed = ex_stopping\<lparr> files := [[''job-0001'', ''att-0001'', ''result-pack.json''] \<mapsto> [1, 2, 3]],
          artifacts := [artifact_row_for ''job-0001'' ''att-0001'' ex_pack] \<rparr>"

lemma ex_artifact_stored:
  "add_artifact ex_cfg ex_lib (\<lambda>_. 102) ''job-0001'' ''w1'' ''secret1'' ''att-0001'' ''tok'' ex_pack [1, 2, 3] ex_stopping
     = (Inr ex_pack, ex_packed)"
proof -
  have "artifact_check ex_cfg ex_lib 102 ''job-0001'' ''w1'' ''secret1'' ''att-0001'' ''tok'' ex_pack [1, 2, 3] ex_stopping = Inr True"
    by (simp add: artifact_check_def ex_pack_def ex_lib_def artifact_name_ok_def id_char_def alnum_char_def digit_char_def
        ARTIFACT_MEDIA_TYPES_def ex_stopping_eq ex_running_def ex_state_defs job_row_of_def attempt_row_of_def
        stored_bytes_def default_limits_def)
      (simp add: ex_cfg_def)
  then show ?thesis
    by (simp add: add_artifact_def ex_packed_def ex_stopping_eq ex_running_def ex_state_defs ex_pack_def)
qed

lemma ex_pack_upload:
  "upload_result_pack ex_closing ''job-0001'' ''tok'' ex_done (0, ex_stopping) = (Inr ex_pack, (1, ex_packed))"
proof -
  have pack: "result_pack ex_closing 0 ex_done = ex_pack"
    by (simp add: result_pack_def artifact_of_def ex_pack_def ex_closing_def ex_service_def ex_link_def ex_app_def ex_lib_def
        RESULT_PACK_NAME_def RESULT_PACK_MEDIA_TYPE_def ex_done_def ex_result_def)
  have dump: "lk_canonical (wk_link ex_closing) ex_done = [1, 2, 3]" "e_attempt_id ex_done = ''att-0001''"
    by (simp_all add: ex_closing_def ex_service_def ex_link_def ex_done_def ex_result_def)
  let ?rq = "(worker_request ''secret1'' ''w1'' (UploadArtifact ''job-0001''))
          \<lparr> rq_attempt_id := ''att-0001'', rq_lease_token := ''tok'', rq_artifact_id := ar_artifact_id ex_pack,
            rq_artifact_name := ar_name ex_pack, rq_media_type := ar_media_type ex_pack, rq_sha256 := ar_sha256 ex_pack,
            rq_bytes := dec 3, rq_schema_version := Some (dec 1), rq_body := [[1, 2, 3]] \<rparr>"
  have three: "dec 3 \<noteq> []" by (simp add: dec_def dec_digits.simps)
  have "upload_request (lk_app (wk_link ex_closing)) ?rq = Inr (ex_pack, [1, 2, 3])"
    using ex_pack_valid three
    by (simp add: upload_request_def ex_closing_def ex_app_def ex_service_def ex_link_def read_body_def artifact_limit_def
        MAX_ARTIFACT_BYTES_def ex_cfg_def validated_def ex_pack_def)
  then have "route_handler (rq_route ?rq) (lk_app (wk_link ex_closing)) (lk_clock (wk_link ex_closing) 0)
      (lk_draws (wk_link ex_closing) 0) ?rq (lk_others (wk_link ex_closing) 0 ex_stopping) = (Inr (reply 201 (Saved ex_pack)), ex_packed)"
    using ex_artifact_stored
    by (simp add: upload_handler_def require_worker_def worker_request_def bare_request_def ex_closing_def ex_service_def
        ex_link_def ex_app_def with_body_def answering_def)
  moreover have "lk_wire (wk_link ex_closing) 0 = Delivered" by (simp add: ex_closing_def ex_service_def ex_link_def)
  ultimately have c: "call (wk_link ex_closing) ?rq (0, ex_stopping) = (Inr (Saved ex_pack), (1, ex_packed))"
    by (simp add: call_delivered client_answer_def reply_def)
  have args: "length [1, 2, 3 :: nat] = 3" "nat (ar_schema_version ex_pack) = 1" by (simp_all add: ex_pack_def)
  have ids: "wk_id ex_closing = ''w1''" "wk_credential ex_closing = ''secret1''" by (simp_all add: ex_closing_def ex_service_def)
  have "client_upload (wk_link ex_closing) ''secret1'' ''w1'' ''job-0001'' ''att-0001'' ''tok'' ex_pack [1, 2, 3] (0, ex_stopping)
      = (Inr ex_pack, (1, ex_packed))"
    unfolding client_upload_def args c by (simp add: expecting_def)
  then show ?thesis unfolding upload_result_pack_def ids dump fst_conv pack by simp
qed

lemma ex_reachable_packed: "manager_reachable ex_cfg ex_lib ex_packed"
  using ex_extend [OF ex_reachable_stopping step_artifact [of ex_cfg ex_lib ex_stopping "\<lambda>_. 102" "''job-0001''" "''w1''"
      "''secret1''" "''att-0001''" "''tok''" ex_pack "[1, 2, 3]"]]
  by (simp add: ex_artifact_stored [simplified])

lemma ex_closing_link:
  "ap_settings (lk_app (wk_link ex_closing)) = ex_cfg" "ap_library (lk_app (wk_link ex_closing)) = ex_lib"
  "ap_int (lk_app (wk_link ex_closing)) (dec 1) = Some 1" "credentials_fit ex_closing" "fair_link (wk_link ex_closing)"
  "lk_wire (wk_link ex_closing) i = Delivered" "lk_others (wk_link ex_closing) i m = m"
  "lk_clock (wk_link ex_closing) i j = 102" "wk_id ex_closing = ''w1''" "result_pack ex_closing 0 ex_done = ex_pack"
  by (simp_all add: ex_closing_def ex_service_def ex_link_def ex_app_def credentials_fit_def fair_link_def
      result_pack_def artifact_of_def ex_pack_def ex_lib_def RESULT_PACK_NAME_def RESULT_PACK_MEDIA_TYPE_def
      ex_done_def ex_result_def)

lemma ex_packed_rows:
  "job_row_of ex_packed ''job-0001'' = Some (hd (jobs ex_packed))" "j_state (hd (jobs ex_packed)) = CancelRequested"
  "j_kind (hd (jobs ex_packed)) = WebCollect" "j_mode (hd (jobs ex_packed)) = SearchMode"
  "attempt_row_of ex_packed ''job-0001'' (j_attempt_id (hd (jobs ex_packed))) = Some ex_attempt"
  "a_worker_id ex_attempt = ''w1''" "a_lease_token ex_attempt = ''tok''" "a_attempt_id ex_attempt = ''att-0001''"
  "a_lease_expires_at ex_attempt = 162"
  by (simp_all add: ex_packed_def ex_stopping_eq ex_running_def ex_state_defs job_row_of_def attempt_row_of_def)

lemma ex_done_fields:
  "e_job_id ex_done = ''job-0001''" "e_attempt_id ex_done = ''att-0001''" "e_manifest ex_done = []"
  "payload_mode (e_payload ex_done) = SearchMode" "e_status ex_done = RSucceeded"
  by (simp_all add: ex_done_def ex_result_def)

lemmas ex_close_facts = ex_closing_link ex_closing_link(3) [simplified] ex_packed_rows ex_done_fields ex_reachable_packed ex_understood

lemma late_cancellation_is_settled_witness:
  "\<exists>v w' row'. worker_finalize ex_closing ''job-0001'' ''tok'' ex_done True (0, ex_stopping) = (Inr v, w')
     \<and> job_row_of (snd w') ''job-0001'' = Some row' \<and> j_state row' = job_state.Cancelled"
  using late_cancellation_is_settled [OF _ _ _ ex_pack_upload, of ex_attempt "hd (jobs ex_packed)"]
  by (simp add: ex_close_facts) blast

lemma delivered_results_are_stored_witness:
  "\<exists>v w' row. worker_finalize ex_closing ''job-0001'' ''tok'' ex_done True (0, ex_stopping) = (Inr v, w')
     \<and> job_row_of (snd w') ''job-0001'' = Some row \<and> settled (j_state row)"
proof -
  obtain v w' where f: "worker_finalize ex_closing ''job-0001'' ''tok'' ex_done True (0, ex_stopping) = (Inr v, w')"
    using late_cancellation_settled [OF _ _ _ ex_pack_upload, of ex_attempt "hd (jobs ex_packed)"]
    by (simp add: ex_close_facts) blast
  have "sound_world (wk_link ex_closing) (0, ex_stopping)" using ex_reachable_stopping by (simp add: ex_closing_link)
  from delivered_results_are_stored [OF ex_closing_link(5) this f] f show ?thesis
    by (simp add: ex_close_facts) blast
qed

end
