(* ===== verification/Tasks.thy ===== *)
theory Tasks
  imports Budget
begin

text \<open>
  Tasks: what an \<open>async\<close> method does to its object. A task returns a value or raises an exception, with the
  state as it is then, or never returns (\<open>None\<close>). The rules below prove what a task establishes from what
  its parts establish; \<open>valid\<close> says nothing of a task that does not return.
\<close>

section \<open>Tasks and their composition\<close>

type_synonym ('a, 's) task = "'s \<Rightarrow> ((exn + 'a) \<times> 's) option"

definition give :: "'a \<Rightarrow> ('a, 's) task" where
  "give x s = Some (Inr x, s)"

definition throw :: "exn \<Rightarrow> ('a, 's) task" where
  "throw e s = Some (Inl e, s)"

definition seq :: "('a, 's) task \<Rightarrow> ('a \<Rightarrow> ('b, 's) task) \<Rightarrow> ('b, 's) task" where
  "seq m f s = (case m s of
     None \<Rightarrow> None | Some (Inl e, s') \<Rightarrow> Some (Inl e, s') | Some (Inr x, s') \<Rightarrow> f x s')"

definition change :: "('s \<Rightarrow> 's) \<Rightarrow> (unit, 's) task" where
  "change f s = Some (Inr (), f s)"

definition look :: "('s \<Rightarrow> ('a, 's) task) \<Rightarrow> ('a, 's) task" where
  "look f s = f s s"

text \<open>\<open>try: m except: h\<close>.\<close>

definition attempt :: "('a, 's) task \<Rightarrow> (exn \<Rightarrow> ('a, 's) task) \<Rightarrow> ('a, 's) task" where
  "attempt m h s = (case m s of
     None \<Rightarrow> None | Some (Inl e, s') \<Rightarrow> h e s' | Some (Inr x, s') \<Rightarrow> Some (Inr x, s'))"

text \<open>A loop over a list that carries a value.\<close>

primrec each :: "('x \<Rightarrow> 'a \<Rightarrow> ('a, 's) task) \<Rightarrow> 'x list \<Rightarrow> 'a \<Rightarrow> ('a, 's) task" where
  "each f [] a = give a"
| "each f (x # xs) a = seq (f x a) (each f xs)"

text \<open>The conversion of a value that may be missing: \<open>None\<close> is a \<open>ValueError\<close>.\<close>

definition demand :: "'a option \<Rightarrow> ('a, 's) task" where
  "demand v = (case v of None \<Rightarrow> throw (OtherError ''ValueError'') | Some x \<Rightarrow> give x)"

section \<open>What a task establishes\<close>

definition valid ::
  "('s \<Rightarrow> bool) \<Rightarrow> ('a, 's) task \<Rightarrow> ('a \<Rightarrow> 's \<Rightarrow> bool) \<Rightarrow> (exn \<Rightarrow> 's \<Rightarrow> bool) \<Rightarrow> bool" where
  "valid P m Q E \<longleftrightarrow> (\<forall>s. P s \<longrightarrow> (case m s of
     None \<Rightarrow> True | Some (Inl e, s') \<Rightarrow> E e s' | Some (Inr x, s') \<Rightarrow> Q x s'))"

named_theorems establish \<open>rules for what a task establishes\<close>

lemma valid_weaken:
  "valid P' m Q' E' \<Longrightarrow> (\<And>s. P s \<Longrightarrow> P' s) \<Longrightarrow> (\<And>x s. Q' x s \<Longrightarrow> Q x s) \<Longrightarrow> (\<And>e s. E' e s \<Longrightarrow> E e s)
   \<Longrightarrow> valid P m Q E"
  unfolding valid_def by (fastforce split: option.splits sum.splits)

lemma valid_give [establish]: "(\<And>s. P s \<Longrightarrow> Q x s) \<Longrightarrow> valid P (give x) Q E"
  by (simp add: valid_def give_def)

lemma valid_throw [establish]: "(\<And>s. P s \<Longrightarrow> E e s) \<Longrightarrow> valid P (throw e) Q E"
  by (simp add: valid_def throw_def)

lemma valid_change [establish]: "(\<And>s. P s \<Longrightarrow> Q () (f s)) \<Longrightarrow> valid P (change f) Q E"
  by (simp add: valid_def change_def)

lemma valid_look [establish]: "(\<And>s0. valid (\<lambda>s. s = s0 \<and> P s) (f s0) Q E) \<Longrightarrow> valid P (look f) Q E"
  unfolding valid_def look_def by simp

lemma valid_seq [establish]:
  "valid P m R E \<Longrightarrow> (\<And>x. valid (R x) (f x) Q E) \<Longrightarrow> valid P (seq m f) Q E"
  unfolding valid_def seq_def by (fastforce split: option.splits sum.splits)

lemma valid_attempt [establish]:
  "valid P m Q R \<Longrightarrow> (\<And>e. valid (R e) (h e) Q E) \<Longrightarrow> valid P (attempt m h) Q E"
  unfolding valid_def attempt_def by (fastforce split: option.splits sum.splits)

lemma valid_if [establish]:
  "(b \<Longrightarrow> valid P m Q E) \<Longrightarrow> (\<not> b \<Longrightarrow> valid P n Q E) \<Longrightarrow> valid P (if b then m else n) Q E"
  by simp

lemma valid_demand [establish]:
  "(\<And>s. P s \<Longrightarrow> E (OtherError ''ValueError'') s) \<Longrightarrow> (\<And>x s. v = Some x \<Longrightarrow> P s \<Longrightarrow> Q x s) \<Longrightarrow> valid P (demand v) Q E"
  unfolding demand_def by (auto intro: establish split: option.split)

text \<open>A loop keeps what its body keeps; the invariant may speak of the items still to come.\<close>

lemma valid_each_items:
  assumes "\<And>x xs a. valid (I (x # xs) a) (f x a) (I xs) E"
  shows "valid (I xs a) (each f xs a) (I []) E"
proof (induction xs arbitrary: a)
  case (Cons x xs)
  then show ?case by (auto intro!: valid_seq assms)
qed (auto intro: establish)

lemma valid_each [establish]:
  assumes "\<And>x a. x \<in> set xs \<Longrightarrow> valid (I a) (f x a) I E"
  shows "valid (I a) (each f xs a) I E"
  using assms by (induction xs arbitrary: a) (auto intro!: establish)

lemma validD:
  "valid P m Q E \<Longrightarrow> P s \<Longrightarrow> m s = Some (r, s') \<Longrightarrow> (case r of Inl e \<Rightarrow> E e s' | Inr x \<Rightarrow> Q x s')"
  unfolding valid_def by (auto split: sum.split)

section \<open>Relations that every step keeps\<close>

text \<open>\<open>follows R m\<close>: however \<open>m\<close> ends, the state then is \<open>R\<close>-related to the state before. For a reflexive and
  transitive \<open>R\<close> a composed task follows \<open>R\<close> when its parts do.\<close>

definition follows :: "('s \<Rightarrow> 's \<Rightarrow> bool) \<Rightarrow> ('a, 's) task \<Rightarrow> bool" where
  "follows R m \<longleftrightarrow> (\<forall>s r s'. m s = Some (r, s') \<longrightarrow> R s s')"

lemma followsD: "follows R m \<Longrightarrow> m s = Some (r, s') \<Longrightarrow> R s s'"
  by (auto simp: follows_def)

named_theorems following \<open>tasks that follow a relation\<close>

locale progress =
  fixes R :: "'s \<Rightarrow> 's \<Rightarrow> bool"
  assumes same: "R s s" and later: "R s t \<Longrightarrow> R t u \<Longrightarrow> R s u"
begin

lemma follows_give [following]: "follows R (give x)"
  by (simp add: follows_def give_def same)

lemma follows_throw [following]: "follows R (throw e)"
  by (simp add: follows_def throw_def same)

lemma follows_change [following]: "(\<And>s. R s (f s)) \<Longrightarrow> follows R (change f)"
  by (simp add: follows_def change_def)

lemma follows_look [following]: "(\<And>s. follows R (f s)) \<Longrightarrow> follows R (look f)"
  by (simp add: follows_def look_def)

lemma follows_seq [following]: "follows R m \<Longrightarrow> (\<And>x. follows R (f x)) \<Longrightarrow> follows R (seq m f)"
  unfolding follows_def seq_def by (fastforce split: option.splits sum.splits intro: later)

lemma follows_seq_value:
  "follows R m \<Longrightarrow> (\<And>x s s'. m s = Some (Inr x, s') \<Longrightarrow> follows R (f x)) \<Longrightarrow> follows R (seq m f)"
  unfolding follows_def seq_def by (fastforce split: option.splits sum.splits intro: later)

lemma follows_attempt [following]: "follows R m \<Longrightarrow> (\<And>e. follows R (h e)) \<Longrightarrow> follows R (attempt m h)"
  unfolding follows_def attempt_def by (fastforce split: option.splits sum.splits intro: later)

lemma follows_if [following]: "follows R m \<Longrightarrow> follows R n \<Longrightarrow> follows R (if b then m else n)"
  by simp

lemma follows_demand [following]: "follows R (demand v)"
  by (auto simp: demand_def intro: following split: option.split)

lemma follows_each [following]: "(\<And>x a. follows R (f x a)) \<Longrightarrow> follows R (each f xs a)"
  by (induction xs arbitrary: a) (auto intro: following)

end

end
