(* ===== verification/Prompts.thy ===== *)
theory Prompts
  imports Prelude
begin

text \<open>
  The fixed texts of \<open>research.py\<close> as lists of code points: what each stage asks of the model, and what
  the pipeline writes into a report. Their lengths count in the estimate of a request's size.
\<close>

definition safety_text :: utext where
  "safety_text =
    [26085, 26412, 35486, 12398, 20844, 38283, 36039, 26009, 35519, 26619, 12391, 12377, 65294, 21477, 35501,
     28857, 12399, 65292, 12392, 65294, 12434, 20351, 12356, 12414, 12377, 65294, 10, 36074, 21839, 12392, 36039,
     26009, 12399, 12487, 12540, 12479, 12391, 12354, 12426, 25351, 31034, 12391, 12399, 12354, 12426, 12414,
     12379, 12435, 65294, 36039, 26009, 20013, 12398, 21629, 20196, 12420, 26908, 32034, 115, 110, 105, 112, 112,
     101, 116, 12434, 26681, 25312, 12392, 12375, 12390, 23455, 34892, 12539, 25505, 29992, 12375, 12394, 12356,
     12391, 12367, 12384, 12373, 12356, 65294, 10, 31192, 23494, 12539, 31169, 30340, 20250, 35441, 12539, 28961,
     38306, 20418, 12394, 24773, 22577, 12434, 26908, 32034, 12395, 36861, 21152, 12375, 12394, 12356, 12391,
     12367, 12384, 12373, 12356, 65294, 26908, 32034, 19981, 30330, 12399, 19981, 23384, 22312, 12398, 35388,
     26126, 12391, 12399, 12354, 12426, 12414, 12379, 12435, 65294, 10, 12514, 12487, 12523, 12398, 26082, 30693,
     30693, 35672, 12391, 21462, 24471, 26412, 25991, 12434, 35036, 23436, 12375, 12394, 12356, 12391, 12367,
     12384, 12373, 12356, 65294, 25968, 20516, 12539, 26465, 20214, 12539, 29256, 12539, 26085, 26178, 12364,
     30064, 12394, 12427, 20027, 24373, 12434, 28151, 21516, 12375, 12394, 12356, 12391, 12367, 12384, 12373,
     12356, 65294, 10, 22806, 37096, 116, 111, 111, 108, 115, 12399, 12354, 12426, 12414, 12379, 12435, 65294,
     19982, 12360, 12425, 12428, 12383, 22411, 12398, 20986, 21147, 12384, 12369, 12434, 36820, 12375, 12390,
     12367, 12384, 12373, 12356, 65294]"

definition plan_task :: utext where
  "plan_task =
    [21839, 12356, 12434, 30906, 35469, 38917, 30446, 12408, 20998, 12369, 12390, 65292, 30064, 12394, 12427,
     24441, 21106, 12398, 26908, 32034, 35486, 12434, 51, 12316, 53, 26412, 20316, 25104, 12375, 12414, 12377,
     65294, 111, 118, 101, 114, 118, 105, 101, 119, 65288, 20840, 20307, 20687, 65289, 65292, 112, 114, 105, 109,
     97, 114, 121, 65288, 19968, 27425, 36039, 26009, 65289, 65292, 108, 105, 109, 105, 116, 97, 116, 105, 111,
     110, 115, 65288, 21046, 32004, 12539, 22833, 25943, 12539, 35330, 27491, 65289, 12398, 21508, 24441, 21106,
     12434, 26368, 20302, 49, 26412, 21547, 12417, 12414, 12377, 65294, 21516, 12376, 35486, 12398, 21453, 24489,
     12391, 26412, 25968, 12434, 22679, 12420, 12375, 12414, 12379, 12435, 65294]"

definition select_task_open :: utext where
  "select_task_open =
    [21839, 12356, 12395, 38306, 36899, 12377, 12427, 19968, 27425, 36039, 26009, 65292, 23550, 35937, 12398,
     30456, 36949, 28857, 65292, 21046, 32004, 12434, 35519, 12409, 12427, 12383, 12417, 65292, 20505, 35036,
     12363, 12425, 26368, 22823]"

definition select_task_close :: utext where
  "select_task_close =
    [20214, 12398, 85, 82, 76, 12434, 36984, 12435, 12391, 12367, 12384, 12373, 12356, 65294, 72, 84, 77, 76,
     12392, 12486, 12461, 12473, 12488, 80, 68, 70, 12364, 20505, 35036, 12395, 12354, 12428, 12400, 20001, 26041,
     12434, 21547, 12417, 12414, 12377, 65294, 85, 82, 76, 12434, 26032, 35215, 20316, 25104, 12375, 12394, 12356,
     12391, 12367, 12384, 12373, 12356, 65294, 115, 110, 105, 112, 112, 101, 116, 12399, 36984, 25246, 12398,
     12415, 12395, 21033, 29992, 12375, 12414, 12377, 65294]"

definition extract_task :: utext where
  "extract_task =
    [21839, 12356, 12395, 31572, 12360, 12427, 20027, 35201, 20027, 24373, 12434, 26368, 22823, 53, 20214, 25277,
     20986, 12375, 12390, 12367, 12384, 12373, 12356, 65294, 26085, 26412, 35486, 12398, 30701, 12356, 20027,
     24373, 12372, 12392, 12395, 23455, 22312, 12377, 12427, 115, 111, 117, 114, 99, 101, 95, 105, 100, 65292, 112,
     97, 115, 115, 97, 103, 101, 95, 105, 100, 65292, 113, 117, 111, 116, 101, 12399, 33521, 35486, 36039, 26009,
     12394, 12425, 33521, 35486, 12398, 21407, 25991, 12398, 12414, 12414, 65292, 53, 48, 12316, 49, 50, 48, 25991,
     23383, 12398, 36899, 32154, 37096, 20998, 12434, 12467, 12500, 12540, 12375, 12414, 12377, 65294, 32763,
     35379, 12539, 30465, 30053, 35352, 21495, 12539, 31354, 30333, 12420, 25913, 34892, 12398, 22793, 26356,
     12399, 31105, 27490, 12391, 12377, 65294, 26465, 20214, 65292, 29256, 65292, 26085, 26178, 65292, 21453,
     35388, 12418, 27531, 12375, 12414, 12377, 65294, 80, 68, 70, 12398, 22259, 34920, 12398, 30011, 20687, 29702,
     35299, 12539, 79, 67, 82, 12399, 26410, 23550, 24540, 12391, 12377, 65294, 36039, 26009, 26411, 23614, 12414,
     12391, 20840, 25991, 12434, 30906, 35469, 28168, 12415, 12392, 20027, 24373, 12375, 12394, 12356, 12391,
     12367, 12384, 12373, 12356, 65294, 25968, 20516, 12434, 20024, 12417, 12383, 12426, 12514, 12487, 12523,
     21517, 12363, 12425, 25512, 23450, 12375, 12383, 12426, 12375, 12394, 12356, 12391, 12367, 12384, 12373,
     12356, 65294, 26412, 25991, 12364, 23567, 25968, 12434, 31034, 12377, 12394, 12425, 12381, 12398, 31934,
     24230, 12434, 32173, 25345, 12375, 12414, 12377, 65294, 36039, 26009, 12372, 12392, 12395, 20516, 12364,
     30064, 12394, 12427, 22580, 21512, 12399, 12393, 12385, 12425, 12418, 27531, 12375, 12414, 12377, 65294,
     30452, 25509, 12398, 26681, 25312, 12364, 12394, 12356, 20107, 38917, 12399, 99, 108, 97, 105, 109, 115,
     12408, 26029, 23450, 12379, 12378, 103, 97, 112, 115, 12408, 20837, 12428, 12414, 12377, 65294, 21069, 114,
     111, 117, 110, 100, 12392, 23550, 31435, 12377, 12427, 26412, 25991, 12364, 12354, 12428, 12400, 21516, 12376,
     99, 108, 97, 105, 109, 12395, 25903, 25345, 12539, 21453, 23550, 12398, 20001, 26041, 12434, 23550, 24540,
     12373, 12379, 12414, 12377, 65294]"

definition repair_task :: utext where
  "repair_task =
    [24341, 29992, 12398, 23455, 22312, 26908, 26619, 12395, 22833, 25943, 12375, 12414, 12375, 12383, 65294,
     20462, 27491, 12399, 12371, 12398, 49, 22238, 12384, 12369, 12391, 12377, 65294, 26082, 23384, 12398, 26377,
     21177, 12394, 26681, 25312, 12399, 32173, 25345, 12375, 65292, 115, 111, 117, 114, 99, 101, 95, 105, 100, 47,
     112, 97, 115, 115, 97, 103, 101, 95, 105, 100, 12399, 20837, 21147, 26412, 25991, 12398, 73, 68, 12384, 12369,
     12434, 20351, 12356, 12414, 12377, 65294, 113, 117, 111, 116, 101, 12399, 21407, 25991, 12398, 51, 48, 12316,
     49, 48, 48, 25991, 23383, 12398, 36899, 32154, 31623, 25152, 12434, 23436, 20840, 12395, 12467, 12500, 12540,
     12375, 12390, 12367, 12384, 12373, 12356, 65294, 32763, 35379, 12539, 31354, 30333, 12420, 25913, 34892,
     12398, 22793, 26356, 12539, 30465, 30053, 12399, 19981, 21487, 12391, 12377, 65294, 20462, 27491, 12391,
     12365, 12394, 12356, 26681, 25312, 12399, 21066, 38500, 12375, 12390, 103, 97, 112, 115, 12408, 20837, 12428,
     12414, 12377, 65294, 80, 68, 70, 12398, 26465, 20214, 12395, 12418, 23455, 22312, 12377, 12427, 30701, 12356,
     24341, 29992, 12434, 36984, 12403, 30452, 12375, 12414, 12377, 65294, 26029, 23450, 12434, 26032, 35215,
     36861, 21152, 12375, 12394, 12356, 12391, 12367, 12384, 12373, 12356, 65294]"

definition review_task :: utext where
  "review_task =
    [21069, 27573, 12392, 12399, 21029, 12398, 29031, 21512, 12391, 12377, 65294, 21508, 99, 108, 97, 105, 109,
     12434, 28431, 12428, 12394, 12367, 26908, 26619, 12375, 65292, 23550, 24540, 12377, 12427, 20840, 101, 118,
     105, 100, 101, 110, 99, 101, 95, 105, 100, 12434, 26908, 26619, 12375, 12390, 12367, 12384, 12373, 12356,
     65294, 24341, 29992, 12398, 23384, 22312, 12384, 12369, 12391, 12399, 25903, 25345, 12392, 12375, 12414,
     12379, 12435, 65294, 20027, 24373, 12392, 26412, 25991, 12398, 26465, 20214, 12539, 26085, 26178, 12539, 118,
     101, 114, 115, 105, 111, 110, 12398, 19968, 33268, 65292, 25903, 25345, 12539, 21453, 35388, 12539, 25991,
     33032, 12398, 12415, 65292, 24403, 35442, 20027, 24373, 12395, 12388, 12356, 12390, 19968, 27425, 36039,
     26009, 12392, 21028, 26029, 12391, 12365, 12427, 12363, 12434, 29702, 30001, 20184, 12365, 12391, 21028,
     23450, 12375, 12414, 12377, 65294, 25968, 20516, 12398, 24046, 12434, 21213, 25163, 12395, 35377, 23481,
     31684, 22258, 12420, 20024, 12417, 35492, 24046, 12392, 12375, 12390, 28040, 12373, 12394, 12356, 12391,
     12367, 12384, 12373, 12356, 65294, 31934, 24230, 12398, 30064, 12394, 12427, 20516, 12399, 26465, 20214,
     19981, 19968, 33268, 12414, 12383, 12399, 26410, 35299, 27770, 12398, 24046, 12392, 12375, 12390, 26126,
     35352, 12375, 12414, 12377, 65294, 21516, 12376, 30330, 34892, 32773, 12420, 36578, 36617, 12399, 29420,
     31435, 12375, 12383, 35023, 21462, 12426, 12391, 12399, 12354, 12426, 12414, 12379, 12435, 65294, 29420,
     31435, 24615, 117, 110, 107, 110, 111, 119, 110, 12391, 99, 111, 114, 114, 111, 98, 111, 114, 97, 116, 101,
     100, 12395, 12375, 12414, 12379, 12435, 65294, 30683, 30462, 12434, 22810, 25968, 27770, 12391, 28040, 12375,
     12414, 12379, 12435, 65294, 21069, 114, 111, 117, 110, 100, 12398, 21442, 32771, 99, 108, 97, 105, 109, 12392,
     26032, 99, 108, 97, 105, 109, 12398, 30683, 30462, 12418, 29702, 30001, 12392, 103, 97, 112, 115, 12408,
     26126, 35352, 12375, 12414, 12377, 65294, 26681, 25312, 12364, 12394, 12356, 22580, 21512, 12399, 12300,
     20170, 22238, 12398, 35501, 21462, 31684, 22258, 12391, 26410, 30906, 35469, 12301, 12392, 12375, 65292,
     36039, 26009, 20840, 20307, 12395, 35352, 36617, 12364, 12394, 12356, 12392, 12399, 26029, 23450, 12375,
     12414, 12379, 12435, 65294, 22259, 34920, 30011, 20687, 12364, 24517, 35201, 12394, 20027, 24373, 12399, 105,
     110, 115, 117, 102, 102, 105, 99, 105, 101, 110, 116, 12391, 12377, 65294, 19981, 36275, 12420, 30683, 30462,
     12364, 12354, 12428, 12400, 20855, 20307, 30340, 29702, 30001, 12395, 23550, 24540, 12377, 12427, 36861,
     21152, 113, 117, 101, 114, 121, 65288, 114, 111, 108, 101, 61, 103, 97, 112, 65289, 12434, 26368, 22823, 51,
     20214, 25552, 26696, 12375, 12414, 12377, 65294, 115, 116, 97, 116, 117, 115, 12399, 115, 117, 112, 112, 111,
     114, 116, 101, 100, 95, 112, 114, 105, 109, 97, 114, 121, 47, 99, 111, 114, 114, 111, 98, 111, 114, 97, 116,
     101, 100, 47, 99, 111, 110, 102, 108, 105, 99, 116, 105, 110, 103, 47, 105, 110, 115, 117, 102, 102, 105, 99,
     105, 101, 110, 116, 47, 114, 101, 102, 117, 116, 101, 100, 47, 105, 110, 102, 101, 114, 101, 110, 99, 101,
     12398, 12356, 12378, 12428, 12363, 12391, 12377, 65294]"

definition supplied_title :: utext where
  "supplied_title =
    [21033, 29992, 32773, 65295, 23455, 34892, 32773, 12364, 25351, 23450, 12375, 12383, 36861, 21152, 20844,
     38283, 36039, 26009]"

definition no_text_gap :: utext where
  "no_text_gap =
    [21462, 24471, 12391, 12365, 12383, 26412, 25991, 12364, 12394, 12367, 65292, 20027, 24373, 12434, 26908,
     35388, 12391, 12365, 12414, 12379, 12435, 65294]"

definition activity_queries :: utext where
  "activity_queries =
    [20214, 12398, 26908, 32034, 35486, 12391, 25506, 32034, 12375, 65292]"

definition activity_sources :: utext where
  "activity_sources =
    [20214, 12398, 36039, 26009, 12398, 21462, 24471, 12434, 35430, 34892, 65292]"

definition activity_claims :: utext where
  "activity_claims =
    [20214, 12398, 20027, 24373, 12434, 29031, 21512, 12375, 12414, 12375, 12383, 65294]"

end
