(* ===== verification/Research.thy ===== *)
theory Research
  imports Tasks Collector Review Origins Passages Prompts
begin

text \<open>
  \<open>research.py\<close>: one research run. The model plans queries, the pipeline searches, lets the model choose
  pages, fetches them, lets the model propose claims with quotations, checks these and lets a second call
  review them; at most one further round follows. Fetching and searching are done by the run itself or by a
  collector. The language model, the JSON encoding and the collector are parameters (\<open>office\<close>); the run's own
  object is the record \<open>desk\<close>. Elapsed times and descriptions of the host in \<open>metrics\<close> are not modelled, nor are
  failures of the job store.
\<close>

section \<open>The report\<close>

datatype asked_status = AskRunning | AskOk | AskLimit | AskFailed

record asked =
  aq_query_id :: string
  aq_text :: utext
  aq_role :: query_role
  aq_reason :: utext
  aq_status :: asked_status
  aq_result_count :: "int option"
  aq_diagnostic :: "diagnostic option"
  aq_http_status :: "nat option"

text \<open>An entry of \<open>report.failures\<close>: written here, or taken over from a collection stage.\<close>

datatype noted = Noted string utext | Reported stage_failure

record round_entry =
  rd_round :: nat
  rd_new_sources :: nat
  rd_checked_claims :: nat

datatype run_state = RunRunning | RunCompleted | RunPartial | RunFailed | RunCancelled

datatype answerability = Sufficient | Limited | Unresolved

record run_metrics =
  rm_requests :: "(string \<times> int) list"
  rm_source_count :: nat
  rm_domain_count :: nat
  rm_origin_group_count :: nat
  rm_unknown_origin_groups :: nat
  rm_checked_claims :: nat

record research_report =
  rp_job_id :: string
  rp_question :: utext
  rp_profile_id :: string
  rp_created_at :: string
  rp_finished_at :: "string option"
  rp_state :: run_state
  rp_answerability :: answerability
  rp_stop_reason :: string
  rp_subquestions :: "utext list"
  rp_queries :: "asked list"
  rp_candidates :: "candidate list"
  rp_sources :: "source list"
  rp_origin_groups :: "origin_group list"
  rp_evidence :: "evidence list"
  rp_claims :: "claim list"
  rp_gaps :: "utext list"
  rp_failures :: "noted list"
  rp_rounds :: "round_entry list"
  rp_metrics :: "run_metrics option"
  rp_activity_summary :: utext

definition new_report :: "string \<Rightarrow> utext \<Rightarrow> string \<Rightarrow> string \<Rightarrow> research_report" where
  "new_report job question profile now =
     \<lparr> rp_job_id = job, rp_question = question, rp_profile_id = profile, rp_created_at = now, rp_finished_at = None,
       rp_state = RunRunning, rp_answerability = Unresolved, rp_stop_reason = ''running'', rp_subquestions = [],
       rp_queries = [], rp_candidates = [], rp_sources = [], rp_origin_groups = [], rp_evidence = [], rp_claims = [],
       rp_gaps = [], rp_failures = [], rp_rounds = [], rp_metrics = None, rp_activity_summary = [] \<rparr>"

section \<open>What a model is asked and answers\<close>

record extraction =
  xt_claims :: "claim_proposal list"
  xt_gaps :: "utext list"

record model_review =
  rv_checks :: "claim_check list"
  rv_queries :: "query list"
  rv_gaps :: "utext list"

text \<open>What a source looks like in the data of a request.\<close>

definition source_url :: "source \<Rightarrow> string" where
  "source_url s = (if present (so_final_url s) then the (so_final_url s) else so_requested_url s)"

type_synonym read_view = "string \<times> string \<times> utext \<times> string \<times> utext list"
type_synonym review_view = "string \<times> string \<times> utext \<times> utext option \<times> string option \<times> utext list"

definition read_view_of :: "source \<Rightarrow> read_view" where
  "read_view_of s = (so_source_id s, source_url s, so_title s, status_name (so_status s), so_limitations s)"

definition review_view_of :: "source \<Rightarrow> review_view" where
  "review_view_of s =
     (so_source_id s, source_url s, so_title s, so_publisher s, so_published_at s, so_limitations s)"

text \<open>The dictionaries that are encoded as \<open>INPUT_DATA_JSON\<close>, one constructor for each call.\<close>

datatype request_data =
    PlanData utext string
  | SelectData utext "utext list" "candidate list"
  | ExtractData utext "utext list" "claim list" "utext list" "read_view list" "passage list"
  | RepairData utext extraction "utext list" "passage list"
  | ReviewData utext "claim list" "evidence list" "passage list" "claim list" "evidence list"
      "review_view list" "origin_group list"

datatype output_type = OutPlan | OutSelection | OutExtraction | OutReview

text \<open>\<open>ModelRunner.run(output_type, prompt, stage=...)\<close> for each output type, with what \<open>metadata\<close> says of the
  context, and the JSON schemas of the output types.\<close>

type_synonym ('a, 'm) asking = "utext \<Rightarrow> string \<Rightarrow> ('a, 'm \<times> budget) task"

record 'm language_model =
  lm_plan :: "(plan, 'm) asking"
  lm_select :: "(string list, 'm) asking"
  lm_extract :: "(extraction, 'm) asking"
  lm_review :: "(model_review, 'm) asking"
  lm_context :: "nat option"
  lm_max_output :: "nat option"
  lm_schema :: "output_type \<Rightarrow> utext"

record 'c collector =
  co_search :: "(string \<times> query) list \<Rightarrow> nat \<Rightarrow> utext \<Rightarrow> (search_stage, 'c) task"
  co_extract :: "(string \<times> candidate) list \<Rightarrow> nat \<Rightarrow> utext \<Rightarrow> (extract_stage, 'c) task"

section \<open>The run's object\<close>

datatype event =
    Started
  | StageStarted string
  | ContextReduced string nat nat
  | FailureEvent string utext
  | QuerySkipped
  | SearchCompleted string nat
  | SourceFetched string source_status nat source_kind
  | RepairStarted nat
  | PlanReady "utext list" nat
  | ClaimChecked string claim_status bool
  | RoundCompleted round_entry
  | CancelRequested
  | Finished run_state string

text \<open>The calls of the job store: \<open>event\<close>, \<open>status\<close> and \<open>save\<close>.\<close>

datatype store_call = Event event | StatusCall run_state string | SaveCall research_report

record ('p, 'm, 'c) desk =
  dk_budget :: budget
  dk_provider :: 'p
  dk_model :: 'm
  dk_collector :: 'c
  dk_stage :: string
  dk_report :: research_report
  dk_candidates :: "(string \<times> candidate) list"
  dk_extraction_ids :: "string list"
  dk_store :: "store_call list"

text \<open>What a run is built with. \<open>of_expired\<close> tells whether a cancellation that reaches \<open>run\<close> comes from its own
  \<open>asyncio.timeout\<close>; \<open>of_close_errors\<close> are the exceptions that closing the clients ends in.\<close>

record ('p, 'm, 'c) office =
  of_env :: environment
  of_unicode :: unicode
  of_provider :: "'p provider"
  of_fetcher :: fetcher
  of_model :: "'m language_model"
  of_collector :: "'c collector option"
  of_dumps :: "request_data \<Rightarrow> utext"
  of_public_text :: "utext \<Rightarrow> exn + utext"
  of_expired :: "('p, 'm, 'c) desk \<Rightarrow> bool"
  of_close_errors :: "string list"
  of_job_id :: string
  of_profile_id :: string

section \<open>Small steps\<close>

abbreviation clk :: "('p, 'm, 'c) office \<Rightarrow> clock" where
  "clk off \<equiv> en_clock (of_env off)"

abbreviation limits_of :: "('p, 'm, 'c) desk \<Rightarrow> limits" where
  "limits_of s \<equiv> b_limits (dk_budget s)"

abbreviation on_report :: "(research_report \<Rightarrow> research_report) \<Rightarrow> ('p, 'm, 'c) desk \<Rightarrow> ('p, 'm, 'c) desk" where
  "on_report f s \<equiv> s\<lparr> dk_report := f (dk_report s) \<rparr>"

text \<open>An operation of the shared budget.\<close>

definition budgeted :: "('a, budget) run \<Rightarrow> ('a, ('p, 'm, 'c) desk) task" where
  "budgeted op s = (case op (dk_budget s) of (r, b) \<Rightarrow> Some (r, s\<lparr> dk_budget := b \<rparr>))"

definition checked_time :: "('p, 'm, 'c) office \<Rightarrow> (unit, ('p, 'm, 'c) desk) task" where
  "checked_time off = budgeted (check_time (clk off))"

definition store :: "store_call \<Rightarrow> (unit, ('p, 'm, 'c) desk) task" where
  "store x = change (\<lambda>s. s\<lparr> dk_store := dk_store s @ [x] \<rparr>)"

definition event :: "event \<Rightarrow> (unit, ('p, 'm, 'c) desk) task" where
  "event e = store (Event e)"

definition enter_stage :: "string \<Rightarrow> (unit, ('p, 'm, 'c) desk) task" where
  "enter_stage st = change (dk_stage_update (\<lambda>_. st))"

definition add_note :: "noted \<Rightarrow> research_report \<Rightarrow> research_report" where
  "add_note n r = r\<lparr> rp_failures := rp_failures r @ [n] \<rparr>"

definition failure :: "string \<Rightarrow> utext \<Rightarrow> (unit, ('p, 'm, 'c) desk) task" where
  "failure st code = seq (change (on_report (add_note (Noted st code)))) (\<lambda>_. event (FailureEvent st code))"

definition failures :: "string \<Rightarrow> utext list \<Rightarrow> (unit, ('p, 'm, 'c) desk) task" where
  "failures st codes = each (\<lambda>code _. failure st code) codes ()"

definition finish_round :: "nat \<Rightarrow> nat \<Rightarrow> (unit, ('p, 'm, 'c) desk) task" where
  "finish_round n acquired = look (\<lambda>s.
     let entry = \<lparr> rd_round = n, rd_new_sources = acquired, rd_checked_claims = count_rows cl_checked (rp_claims (dk_report s)) \<rparr>
     in seq (change (on_report (\<lambda>r. r\<lparr> rp_rounds := rp_rounds r @ [entry] \<rparr>))) (\<lambda>_. event (RoundCompleted entry)))"

definition stop_because :: "string \<Rightarrow> (unit, ('p, 'm, 'c) desk) task" where
  "stop_because why = change (on_report (\<lambda>r. r\<lparr> rp_stop_reason := why \<rparr>))"

section \<open>Calls of the model\<close>

text \<open>\<open>estimate_tokens\<close> of \<open>models.py\<close>: a third of a token for each ASCII character and two for any other,
  rounded up.\<close>

definition estimate_tokens :: "utext \<Rightarrow> nat" where
  "estimate_tokens t = (let a = count_rows (\<lambda>c. c < 128) t in (a + 2) div 3 + 2 * (length t - a))"

definition prompt :: "(request_data \<Rightarrow> utext) \<Rightarrow> utext \<Rightarrow> request_data \<Rightarrow> utext" where
  "prompt dumps task data = safety_text @ [10] @ task @ [10] @ ascii ''INPUT_DATA_JSON:'' @ [10] @ dumps data"

text \<open>The list that may be shortened to fit the context: passages or candidates.\<close>

function fit :: "('x list \<Rightarrow> bool) \<Rightarrow> 'x list \<Rightarrow> 'x list" where
  "fit big xs = (if 1 < length xs \<and> big xs then fit big (butlast xs) else xs)"
  by pat_completeness auto
termination by (relation "measure (length \<circ> snd)") auto

declare fit.simps [simp del]

fun fit_data :: "(request_data \<Rightarrow> bool) \<Rightarrow> request_data \<Rightarrow> request_data" where
  "fit_data big (SelectData q subs cs) = SelectData q subs (fit (\<lambda>cs. big (SelectData q subs cs)) cs)"
| "fit_data big (ExtractData q subs pc pg vs ps) =
     ExtractData q subs pc pg vs (fit (\<lambda>ps. big (ExtractData q subs pc pg vs ps)) ps)"
| "fit_data big d = d"

fun data_size :: "request_data \<Rightarrow> nat" where
  "data_size (SelectData q subs cs) = length cs"
| "data_size (ExtractData q subs pc pg vs ps) = length ps"
| "data_size d = 0"

definition reserve_tokens :: "'m language_model \<Rightarrow> output_type \<Rightarrow> nat" where
  "reserve_tokens m ot = or_else (lm_max_output m) 4096 + estimate_tokens (lm_schema m ot) + 3072"

definition reduce_data :: "('p, 'm, 'c) office \<Rightarrow> output_type \<Rightarrow> utext \<Rightarrow> request_data \<Rightarrow> request_data" where
  "reduce_data off ot task data =
     (case lm_context (of_model off) of
        None \<Rightarrow> data
      | Some context \<Rightarrow>
          if context = 0 then data
          else fit_data (\<lambda>d. context < estimate_tokens (prompt (of_dumps off) task d) + reserve_tokens (of_model off) ot) data)"

definition ask_model :: "('a, 'm) asking \<Rightarrow> utext \<Rightarrow> string \<Rightarrow> ('a, ('p, 'm, 'c) desk) task" where
  "ask_model ask text st s =
     (case ask text st (dk_model s, dk_budget s) of
        None \<Rightarrow> None
      | Some (r, m, b) \<Rightarrow> Some (r, s\<lparr> dk_model := m, dk_budget := b \<rparr>))"

fun remember_ids :: "request_data \<Rightarrow> ('p, 'm, 'c) desk \<Rightarrow> ('p, 'm, 'c) desk" where
  "remember_ids (ExtractData q subs pc pg vs ps) s = s\<lparr> dk_extraction_ids := map pa_passage_id ps \<rparr>"
| "remember_ids d s = s"

definition call_model ::
  "('p, 'm, 'c) office \<Rightarrow> output_type \<Rightarrow> ('a, 'm) asking \<Rightarrow> utext \<Rightarrow> request_data \<Rightarrow> string \<Rightarrow> ('a, ('p, 'm, 'c) desk) task" where
  "call_model off ot ask task data st =
     seq (checked_time off) (\<lambda>_.
     seq (enter_stage st) (\<lambda>_.
     seq (event (StageStarted st)) (\<lambda>_.
       let data' = reduce_data off ot task data in
       seq (if data_size data' < data_size data then event (ContextReduced st (data_size data) (data_size data'))
            else give ()) (\<lambda>_.
       seq (change (remember_ids data')) (\<lambda>_.
         ask_model ask (prompt (of_dumps off) task data') st)))))"

section \<open>Searching\<close>

definition new_asked :: "string \<Rightarrow> utext \<Rightarrow> query \<Rightarrow> asked" where
  "new_asked i t q =
     \<lparr> aq_query_id = i, aq_text = t, aq_role = q_role q, aq_reason = q_reason q, aq_status = AskRunning,
       aq_result_count = None, aq_diagnostic = None, aq_http_status = None \<rparr>"

text \<open>The entry that \<open>gather\<close> appended last.\<close>

definition on_last_query :: "(asked \<Rightarrow> asked) \<Rightarrow> research_report \<Rightarrow> research_report" where
  "on_last_query f r = r\<lparr> rp_queries := butlast (rp_queries r) @ map f (drop (length (rp_queries r) - 1) (rp_queries r)) \<rparr>"

definition ask_provider :: "('p, 'm, 'c) office \<Rightarrow> utext \<Rightarrow> string \<Rightarrow> (candidate list, ('p, 'm, 'c) desk) task" where
  "ask_provider off q i s =
     (let pv = of_provider off in
      case pv_search pv q i (pv_set_budget pv (dk_budget s) (dk_provider s)) of
        (r, p) \<Rightarrow> Some (r, s\<lparr> dk_provider := p, dk_budget := pv_budget pv p \<rparr>))"

text \<open>The candidates that are new, by normalised address; a malformed address is passed over.\<close>

fun keep_new ::
  "url_library \<Rightarrow> candidate list \<Rightarrow> (string \<times> candidate) list \<Rightarrow> candidate list
   \<Rightarrow> (string \<times> candidate) list \<times> candidate list" where
  "keep_new u [] known fresh = (known, fresh)"
| "keep_new u (c # cs) known fresh =
     (case research_url u (c_url c) of
        None \<Rightarrow> keep_new u cs known fresh
      | Some key \<Rightarrow>
          if key \<in> fst ` set known then keep_new u cs known fresh
          else keep_new u cs (known @ [(key, c)]) (fresh @ [c]))"

fun exn_status :: "exn \<Rightarrow> nat option" where
  "exn_status (SearchError _ st) = st"
| "exn_status _ = None"

definition search_one ::
  "('p, 'm, 'c) office \<Rightarrow> utext \<Rightarrow> string \<Rightarrow> candidate list \<Rightarrow> (candidate list, ('p, 'm, 'c) desk) task" where
  "search_one off text i fresh =
     seq (ask_provider off text i) (\<lambda>found.
     seq (change (\<lambda>s. on_report (on_last_query (\<lambda>a. a\<lparr> aq_status := AskOk, aq_result_count := Some (int (length found)),
            aq_diagnostic := Some (pv_diagnostic (of_provider off) (dk_provider s)) \<rparr>)) s)) (\<lambda>_.
     seq (event (SearchCompleted i (length found))) (\<lambda>_.
     seq (change (on_report (\<lambda>r. r\<lparr> rp_candidates := rp_candidates r @ found \<rparr>))) (\<lambda>_.
     look (\<lambda>s. case keep_new (en_urls (of_env off)) found (dk_candidates s) fresh of
       (known, fresh') \<Rightarrow> seq (change (dk_candidates_update (\<lambda>_. known))) (\<lambda>_. give fresh'))))))"

definition search_failed :: "('p, 'm, 'c) office \<Rightarrow> candidate list \<Rightarrow> exn \<Rightarrow> (candidate list, ('p, 'm, 'c) desk) task" where
  "search_failed off fresh e =
     (case e of
        BudgetExceeded _ \<Rightarrow>
          seq (change (on_report (on_last_query (\<lambda>a. a\<lparr> aq_status := AskLimit \<rparr>)))) (\<lambda>_. throw e)
      | exn.Cancelled \<Rightarrow> throw e
      | _ \<Rightarrow>
          seq (change (\<lambda>s. on_report (on_last_query (\<lambda>a. a\<lparr> aq_status := AskFailed,
                aq_diagnostic := Some (pv_diagnostic (of_provider off) (dk_provider s)), aq_http_status := exn_status e \<rparr>)) s)) (\<lambda>_.
          seq (failure ''search'' (ascii (exn_code e))) (\<lambda>_. give fresh)))"

definition gather_one ::
  "('p, 'm, 'c) office \<Rightarrow> query \<Rightarrow> candidate list \<Rightarrow> (candidate list, ('p, 'm, 'c) desk) task" where
  "gather_one off q fresh =
     seq (checked_time off) (\<lambda>_.
     seq (enter_stage ''search'') (\<lambda>_.
       (case en_validate_query (of_env off) (q_text q) of
          Inl _ \<Rightarrow> seq (failure ''search'' (ascii ''query_rejected_privacy'')) (\<lambda>_. give fresh)
        | Inr text \<Rightarrow>
            seq (budgeted (take_query (clk off) (en_casefold (of_env off)) text)) (\<lambda>new.
              if \<not> new then seq (event QuerySkipped) (\<lambda>_. give fresh)
              else look (\<lambda>s.
                let i = ''Q'' @ dec (length (rp_queries (dk_report s)) + 1) in
                seq (change (on_report (\<lambda>r. r\<lparr> rp_queries := rp_queries r @ [new_asked i text q] \<rparr>))) (\<lambda>_.
                  attempt (search_one off text i fresh) (search_failed off fresh)))))))"

definition gather :: "('p, 'm, 'c) office \<Rightarrow> query list \<Rightarrow> (candidate list, ('p, 'm, 'c) desk) task" where
  "gather off qs = each (gather_one off) qs []"

end
