(* ===== verification/Research_Run.thy ===== *)
theory Research_Run
  imports Research
begin

text \<open>
  The second half of \<open>research.py\<close>: choosing candidates, fetching them, examining what was read, the two ways
  to execute a run (own search and fetching, or a collector), and \<open>run\<close> itself with its final state.
\<close>

section \<open>Choosing candidates\<close>

text \<open>\<open>xs[:n]\<close>, where a negative \<open>n\<close> counts from the end.\<close>

definition py_take :: "int \<Rightarrow> 'a list \<Rightarrow> 'a list" where
  "py_take n xs = take (nat (if n < 0 then int (length xs) + n else n)) xs"

text \<open>The candidates whose address was not read yet; \<open>None\<close> when one is malformed.\<close>

fun unread :: "url_library \<Rightarrow> string list \<Rightarrow> candidate list \<Rightarrow> candidate list option" where
  "unread u keys [] = Some []"
| "unread u keys (c # cs) =
     (case research_url u (c_url c) of
        None \<Rightarrow> None
      | Some key \<Rightarrow> map_option (\<lambda>r. if key \<in> set keys then r else c # r) (unread u keys cs))"

text \<open>\<open>{c.url: c for c in others}\<close>: the last candidate with an address.\<close>

definition by_url :: "candidate list \<Rightarrow> string \<Rightarrow> candidate option" where
  "by_url others url = find_row c_url url (rev others)"

definition take_url ::
  "candidate list \<Rightarrow> int \<Rightarrow> string \<Rightarrow> candidate list \<Rightarrow> (candidate list, ('p, 'm, 'c) desk) task" where
  "take_url others target url selected =
     (case by_url others url of
        None \<Rightarrow> seq (failure ''select'' (ascii ''unknown_candidate_url'')) (\<lambda>_. give selected)
      | Some c \<Rightarrow> give (if c \<notin> set selected \<and> int (length selected) < target then selected @ [c] else selected))"

fun fill_up :: "int \<Rightarrow> candidate list \<Rightarrow> candidate list \<Rightarrow> candidate list" where
  "fill_up target [] selected = selected"
| "fill_up target (c # cs) selected =
     fill_up target cs (if c \<notin> set selected \<and> int (length selected) < target then selected @ [c] else selected)"

definition select_task :: "int \<Rightarrow> utext" where
  "select_task n = select_task_open @ ascii (dec (nat n)) @ select_task_close"

definition choose_candidates ::
  "('p, 'm, 'c) office \<Rightarrow> int \<Rightarrow> candidate list \<Rightarrow> (candidate list, ('p, 'm, 'c) desk) task" where
  "choose_candidates off target available =
     (let selected = py_take target (filter c_supplied available);
          others = filter (\<lambda>c. c \<notin> set selected) available
      in if others \<noteq> [] \<and> int (length selected) < target
         then look (\<lambda>s.
           seq (call_model off OutSelection (lm_select (of_model off)) (select_task (target - int (length selected)))
                 (SelectData (rp_question (dk_report s)) (rp_subquestions (dk_report s)) (take 40 others)) ''select'') (\<lambda>urls.
           seq (each (take_url others target) urls selected) (\<lambda>chosen.
             give (fill_up target others chosen))))
         else give selected)"

definition select_candidates ::
  "('p, 'm, 'c) office \<Rightarrow> bool \<Rightarrow> candidate list \<Rightarrow> (candidate list, ('p, 'm, 'c) desk) task" where
  "select_candidates off is_first fresh = look (\<lambda>s.
     seq (demand (unread (en_urls (of_env off)) (b_source_keys (dk_budget s)) fresh)) (\<lambda>available.
       if available = [] then give []
       else let remaining = max_sources (limits_of s) - int (length (b_source_keys (dk_budget s)));
                target = min (if is_first then initial_sources (limits_of s) else 3) (min remaining (int (length available)))
            in if target = 0 then give [] else choose_candidates off target available))"

section \<open>Fetching\<close>

definition ask_fetcher :: "('p, 'm, 'c) office \<Rightarrow> candidate \<Rightarrow> string \<Rightarrow> (source, ('p, 'm, 'c) desk) task" where
  "ask_fetcher off c i s = map_option (\<lambda>(r, b). (r, s\<lparr> dk_budget := b \<rparr>)) (of_fetcher off c i (dk_budget s))"

text \<open>The candidates of the report with the same address; \<open>None\<close> when one of the report is malformed.\<close>

fun matches :: "url_library \<Rightarrow> string \<Rightarrow> candidate list \<Rightarrow> candidate list option" where
  "matches u key [] = Some []"
| "matches u key (c # cs) =
     (case research_url u (c_url c) of
        None \<Rightarrow> None
      | Some k \<Rightarrow> map_option (\<lambda>r. if k = key then c # r else r) (matches u key cs))"

definition found_by :: "candidate list \<Rightarrow> source \<Rightarrow> source" where
  "found_by ms src = src\<lparr> so_query_ids := py_unique (filter (\<lambda>i. i \<noteq> []) (map c_query_id ms)),
     so_engines := py_unique (filter (\<lambda>i. i \<noteq> []) (map c_engine ms)) \<rparr>"

definition exhausting_error :: "source \<Rightarrow> bool" where
  "exhausting_error src \<longleftrightarrow> so_status src = SLimit
     \<and> so_error src \<in> {Some ''cache_bytes'', Some ''fetch_requests'', Some ''job_timeout''}"

definition fetched_event :: "source \<Rightarrow> event" where
  "fetched_event src = SourceFetched (so_source_id src) (so_status src) (length (so_passages src)) (so_kind src)"

definition fetch_code :: "string \<Rightarrow> source \<Rightarrow> utext" where
  "fetch_code i src = ascii (i @ '':'' @ status_name (so_status src))"

definition add_to_sources :: "source \<Rightarrow> research_report \<Rightarrow> research_report" where
  "add_to_sources src r = r\<lparr> rp_sources := rp_sources r @ [src] \<rparr>"

definition acquire_one :: "('p, 'm, 'c) office \<Rightarrow> candidate \<Rightarrow> nat \<Rightarrow> (nat, ('p, 'm, 'c) desk) task" where
  "acquire_one off c n =
     seq (checked_time off) (\<lambda>_.
     seq (enter_stage ''fetch'') (\<lambda>_.
     seq (demand (research_url (en_urls (of_env off)) (c_url c))) (\<lambda>key.
     seq (budgeted (take_source (clk off) key)) (\<lambda>new.
       if \<not> new then give n
       else look (\<lambda>s. let i = ''S'' @ dec (length (rp_sources (dk_report s)) + 1) in
         seq (ask_fetcher off c i) (\<lambda>src0.
         seq (demand (matches (en_urls (of_env off)) key (rp_candidates (dk_report s)))) (\<lambda>ms.
           let src = found_by ms src0 in
           seq (change (on_report (add_to_sources src))) (\<lambda>_.
           seq (event (SourceFetched i (so_status src) (length (so_passages src)) (so_kind src))) (\<lambda>_.
           seq (if so_status src \<noteq> SOk then failure ''fetch'' (fetch_code i src) else give ()) (\<lambda>_.
             if exhausting_error src then throw (BudgetExceeded (the (so_error src)))
             else give (if so_passages src \<noteq> [] then n + 1 else n)))))))))))"

definition acquire :: "('p, 'm, 'c) office \<Rightarrow> bool \<Rightarrow> candidate list \<Rightarrow> (nat, ('p, 'm, 'c) desk) task" where
  "acquire off is_first fresh =
     seq (select_candidates off is_first fresh) (\<lambda>selected. each (acquire_one off) selected 0)"

section \<open>Examining\<close>

text \<open>The text the passages are ranked by.\<close>

definition ranking_text :: "research_report \<Rightarrow> utext" where
  "ranking_text r = rp_question r @ [32]
     @ join [32] (rp_subquestions r @ rp_gaps r @ map aq_text (rp_queries r))"

definition read_in_round :: "passage list \<Rightarrow> source \<Rightarrow> source" where
  "read_in_round ps src =
     src\<lparr> so_read_passage_ids := map pa_passage_id (filter (\<lambda>p. pa_source_id p = so_source_id src) ps) \<rparr>"

definition read_so_far :: "passage list \<Rightarrow> source \<Rightarrow> source" where
  "read_so_far ps src = src\<lparr> so_read_passage_ids :=
     py_unique (so_read_passage_ids src @ so_read_passage_ids (read_in_round ps src)) \<rparr>"

definition round_prefix :: "nat \<Rightarrow> string" where
  "round_prefix n = ''R'' @ dec n @ ''-''"

type_synonym checked_extraction = "extraction \<times> claim list \<times> evidence list \<times> utext list"

text \<open>The one correction of quotations. An answer with less valid evidence, or a failed call, changes nothing.\<close>

definition repair ::
  "('p, 'm, 'c) office \<Rightarrow> nat \<Rightarrow> passage list \<Rightarrow> source list \<Rightarrow> checked_extraction
   \<Rightarrow> (checked_extraction, ('p, 'm, 'c) desk) task" where
  "repair off n ps round_sources before =
     (case before of (x, cs, evs, errs) \<Rightarrow>
        look (\<lambda>s.
          if errs \<noteq> [] \<and> 2 \<le> model_requests (limits_of s) - b_counts (dk_budget s) ModelRequests
          then
            seq (event (RepairStarted (length errs))) (\<lambda>_.
            seq (failures ''evidence_initial'' errs) (\<lambda>_.
              attempt
                (seq (call_model off OutExtraction (lm_extract (of_model off)) repair_task
                        (RepairData (rp_question (dk_report s)) x (take 8 errs) ps) ''repair_quotes'') (\<lambda>corrected.
                   case validate_extraction (xt_claims corrected) round_sources (round_prefix n) of (cs', evs', errs') \<Rightarrow>
                     give (if length evs \<le> length evs' then (corrected, cs', evs', errs') else before)))
                (\<lambda>e. case e of
                   ModelFailure code \<Rightarrow> seq (failure ''repair_quotes'' (ascii code)) (\<lambda>_. give before)
                 | _ \<Rightarrow> throw e)))
          else give before))"

definition review_data :: "research_report \<Rightarrow> nat \<Rightarrow> claim list \<Rightarrow> evidence list \<Rightarrow> request_data" where
  "review_data r n cs evs =
     (let previous = (if n \<noteq> 0 then filter cl_checked (rp_claims r) else []);
          previous_evidence = (if previous \<noteq> [] then rp_evidence r else []);
          ids = set (map ev_passage_id (evs @ previous_evidence))
      in ReviewData (rp_question r) cs evs
           (filter (\<lambda>p. pa_passage_id p \<in> ids) (concat (map so_passages (rp_sources r))))
           previous previous_evidence (map review_view_of (rp_sources r)) (rp_origin_groups r))"

text \<open>What the report holds after a review. In a first round the reviewed claims replace the proposed ones; in a
  later round they are added. \<open>unreviewed\<close> tells that the report holds the very list \<open>evs\<close> that the review updates
  in place, because it held no claims when this round began.\<close>

definition take_over ::
  "nat \<Rightarrow> bool \<Rightarrow> claim list \<Rightarrow> evidence list \<Rightarrow> research_report \<Rightarrow> research_report" where
  "take_over n unreviewed cs evs r =
     (if n = 0 then r\<lparr> rp_claims := cs, rp_evidence := evs \<rparr>
      else r\<lparr> rp_claims := rp_claims r @ cs, rp_evidence := (if unreviewed then evs else rp_evidence r) @ evs \<rparr>)"

definition add_gaps :: "utext list \<Rightarrow> research_report \<Rightarrow> research_report" where
  "add_gaps gs r = r\<lparr> rp_gaps := py_unique (rp_gaps r @ gs) \<rparr>"

definition review_round ::
  "('p, 'm, 'c) office \<Rightarrow> nat \<Rightarrow> bool \<Rightarrow> checked_extraction \<Rightarrow> (model_review option, ('p, 'm, 'c) desk) task" where
  "review_round off n unreviewed result =
     (case result of (x, cs, evs, errs) \<Rightarrow>
        look (\<lambda>s.
          seq (call_model off OutReview (lm_review (of_model off)) review_task
                 (review_data (dk_report s) n cs evs) ''review'') (\<lambda>rv.
            case apply_review (of_unicode off) cs evs (rv_checks rv) (rp_origin_groups (dk_report s)) of (checked, evs') \<Rightarrow>
              seq (change (on_report (add_gaps (xt_gaps x @ rv_gaps rv @ errs) \<circ> take_over n unreviewed checked evs'))) (\<lambda>_.
              seq (each (\<lambda>c _. event (ClaimChecked (cl_id c) (cl_status c) (cl_checked c))) checked ()) (\<lambda>_.
                give (Some rv))))))"

text \<open>Proposed claims enter the report only while it has none.\<close>

definition propose :: "claim list \<Rightarrow> evidence list \<Rightarrow> research_report \<Rightarrow> research_report" where
  "propose cs evs r = (if rp_claims r = [] then r\<lparr> rp_claims := cs, rp_evidence := evs \<rparr> else r)"

definition examine_claims ::
  "('p, 'm, 'c) office \<Rightarrow> nat \<Rightarrow> checked_extraction \<Rightarrow> (model_review option, ('p, 'm, 'c) desk) task" where
  "examine_claims off n result =
     (case result of (x, cs, evs, errs) \<Rightarrow>
        look (\<lambda>s.
          seq (change (on_report (add_gaps (xt_gaps x @ errs) \<circ> propose cs evs))) (\<lambda>_.
          seq (failures ''evidence'' errs) (\<lambda>_.
            if cs = [] then give None
            else review_round off n (rp_claims (dk_report s) = []) result))))"

definition extract_data :: "research_report \<Rightarrow> passage list \<Rightarrow> request_data" where
  "extract_data r ps = ExtractData (rp_question r) (rp_subquestions r) (rp_claims r) (rp_gaps r)
     (map read_view_of (rp_sources r)) ps"

definition examine :: "('p, 'm, 'c) office \<Rightarrow> nat \<Rightarrow> (model_review option, ('p, 'm, 'c) desk) task" where
  "examine off n = look (\<lambda>s.
     let r = dk_report s;
         ps = select_passages (of_unicode off) (rp_sources r) (ranking_text r) (selected_passages (limits_of s))
     in if ps = [] then seq (change (on_report (\<lambda>r. r\<lparr> rp_gaps := rp_gaps r @ [no_text_gap] \<rparr>))) (\<lambda>_. give None)
        else case group_origins (en_urls (of_env off)) (rp_sources r) of
          None \<Rightarrow> (\<lambda>_. None)
        | Some groups \<Rightarrow>
            seq (change (on_report (\<lambda>r. r\<lparr> rp_origin_groups := groups \<rparr>))) (\<lambda>_.
            seq (call_model off OutExtraction (lm_extract (of_model off)) extract_task (extract_data r ps) ''extract'') (\<lambda>x.
            look (\<lambda>s'.
              let sent = filter (\<lambda>p. pa_passage_id p \<in> set (dk_extraction_ids s')) ps;
                  round_sources = map (read_in_round sent) (rp_sources r)
              in seq (change (on_report (\<lambda>r. r\<lparr> rp_sources := map (read_so_far sent) (rp_sources r) \<rparr>))) (\<lambda>_.
                 case validate_extraction (xt_claims x) round_sources (round_prefix n) of (cs, evs, errs) \<Rightarrow>
                   seq (repair off n sent round_sources (x, cs, evs, errs)) (examine_claims off n))))))"

section \<open>Executing\<close>

definition plan_queries :: "('p, 'm, 'c) office \<Rightarrow> (query list, ('p, 'm, 'c) desk) task" where
  "plan_queries off = look (\<lambda>s.
     seq (call_model off OutPlan (lm_plan (of_model off)) plan_task
            (PlanData (rp_question (dk_report s)) (rp_created_at (dk_report s))) ''plan'') (\<lambda>plan.
       let qs = p_queries plan in
       if \<not> {Overview, PrimaryRole, Limitations} \<subseteq> set (map q_role qs) then throw (OtherError ''ValueError'')
       else if card (set (map (query_key (en_casefold (of_env off)) \<circ> q_text) qs)) < 3 then throw (OtherError ''ValueError'')
       else seq (change (on_report (\<lambda>r. r\<lparr> rp_subquestions := p_subquestions plan \<rparr>))) (\<lambda>_.
            seq (event (PlanReady (p_subquestions plan) (length qs))) (\<lambda>_. give qs))))"

definition supplied_candidate :: "string \<Rightarrow> string \<Rightarrow> candidate" where
  "supplied_candidate now url =
     \<lparr> c_url = url, c_title = supplied_title, c_snippet = [], c_query_id = [], c_engine = [], c_rank = 0,
       c_discovered_at = now, c_supplied = True \<rparr>"

text \<open>\<open>self.candidates[key].supplied = True\<close>: the same object stands in \<open>fresh\<close> and, as the first one with this address,
  among the candidates of the report.\<close>

fun mark_first :: "url_library \<Rightarrow> string \<Rightarrow> candidate list \<Rightarrow> candidate list" where
  "mark_first u key [] = []"
| "mark_first u key (c # cs) =
     (if research_url u (c_url c) = Some key then c\<lparr> c_supplied := True \<rparr> # cs else c # mark_first u key cs)"

definition mark_known :: "url_library \<Rightarrow> string \<Rightarrow> ('p, 'm, 'c) desk \<Rightarrow> ('p, 'm, 'c) desk" where
  "mark_known u key s = on_report (\<lambda>r. r\<lparr> rp_candidates := mark_first u key (rp_candidates r) \<rparr>)
     (s\<lparr> dk_candidates := map (\<lambda>(k, c). (k, if k = key then c\<lparr> c_supplied := True \<rparr> else c)) (dk_candidates s) \<rparr>)"

definition supply_one ::
  "('p, 'm, 'c) office \<Rightarrow> string \<Rightarrow> candidate list \<Rightarrow> (candidate list, ('p, 'm, 'c) desk) task" where
  "supply_one off url fresh =
     (let u = en_urls (of_env off); c = supplied_candidate (en_now (of_env off)) url in
      seq (demand (research_url u url)) (\<lambda>key. look (\<lambda>s.
        if key \<notin> fst ` set (dk_candidates s)
        then seq (change (\<lambda>s. s\<lparr> dk_candidates := dk_candidates s @ [(key, c)] \<rparr>)) (\<lambda>_. give (c # fresh))
        else seq (change (mark_known u key)) (\<lambda>_. give (mark_first u key fresh)))))"

definition add_supplied :: "('p, 'm, 'c) office \<Rightarrow> string list \<Rightarrow> candidate list \<Rightarrow> (candidate list, ('p, 'm, 'c) desk) task" where
  "add_supplied off urls fresh = each (supply_one off) urls fresh"

text \<open>Both ways to execute end the first round alike: another round if the review asks for one.\<close>

definition reserve_for_review :: "(unit, ('p, 'm, 'c) desk) task" where
  "reserve_for_review = look (\<lambda>s.
     if model_requests (limits_of s) - b_counts (dk_budget s) ModelRequests < 3
     then throw (BudgetExceeded ''model_requests_reserved_for_review'') else give ())"

definition followup_queries :: "model_review \<Rightarrow> query list" where
  "followup_queries rv = filter (\<lambda>q. strip (q_reason q) \<noteq> [] \<and> q_role q = Gap) (rv_queries rv)"

definition no_readable_sources :: "(unit, ('p, 'm, 'c) desk) task" where
  "no_readable_sources = look (\<lambda>s.
     if list_ex (\<lambda>src. so_passages src \<noteq> []) (rp_sources (dk_report s)) then give () else stop_because ''no_readable_sources'')"

definition second_round_end :: "nat \<Rightarrow> (unit, ('p, 'm, 'c) desk) task" where
  "second_round_end acquired =
     seq (finish_round 1 acquired) (\<lambda>_. stop_because (if acquired \<noteq> 0 then ''additional_round_limit'' else ''no_new_evidence''))"

definition examine_again :: "('p, 'm, 'c) office \<Rightarrow> nat \<Rightarrow> (unit, ('p, 'm, 'c) desk) task" where
  "examine_again off acquired =
     seq (if acquired \<noteq> 0 then seq (examine off 1) (\<lambda>_. give ()) else give ()) (\<lambda>_. second_round_end acquired)"

definition first_round_end ::
  "('p, 'm, 'c) office \<Rightarrow> nat \<Rightarrow> (query list \<Rightarrow> (unit, ('p, 'm, 'c) desk) task) \<Rightarrow> (unit, ('p, 'm, 'c) desk) task" where
  "first_round_end off acquired again =
     seq (examine off 0) (\<lambda>review.
     seq (finish_round 0 acquired) (\<lambda>_.
     seq (stop_because ''no_actionable_gaps'') (\<lambda>_.
       (case review of
          Some rv \<Rightarrow> if rv_queries rv \<noteq> [] then seq reserve_for_review (\<lambda>_. again (followup_queries rv)) else no_readable_sources
        | None \<Rightarrow> no_readable_sources))))"

definition execute_here :: "('p, 'm, 'c) office \<Rightarrow> string list \<Rightarrow> (unit, ('p, 'm, 'c) desk) task" where
  "execute_here off urls =
     seq (plan_queries off) (\<lambda>qs.
     seq (gather off qs) (\<lambda>found.
     seq (add_supplied off urls found) (\<lambda>fresh.
     seq (acquire off True fresh) (\<lambda>acquired.
       first_round_end off acquired (\<lambda>followup.
         seq (gather off followup) (\<lambda>fresh.
         seq (acquire off False fresh) (examine_again off)))))))"

section \<open>Executing through a collector\<close>

definition asked_of :: "query_result \<Rightarrow> asked" where
  "asked_of q = \<lparr> aq_query_id = qr_query_id q, aq_text = qr_text q, aq_role = qr_role q, aq_reason = qr_reason q,
     aq_status = (case qr_status q of QOk \<Rightarrow> AskOk | QFailed \<Rightarrow> AskFailed | QLimit \<Rightarrow> AskLimit),
     aq_result_count = Some (qr_result_count q), aq_diagnostic = Some (qr_diagnostic q), aq_http_status = None \<rparr>"

definition add_key :: "'a \<Rightarrow> 'a list \<Rightarrow> 'a list" where
  "add_key k ks = (if k \<in> set ks then ks else k # ks)"

definition absorb_query :: "('p, 'm, 'c) office \<Rightarrow> query_result \<Rightarrow> unit \<Rightarrow> (unit, ('p, 'm, 'c) desk) task" where
  "absorb_query off q _ =
     seq (change (\<lambda>s. on_report (\<lambda>r. r\<lparr> rp_queries := rp_queries r @ [asked_of q] \<rparr>)
       (s\<lparr> dk_budget := b_query_keys_update (add_key (query_key (en_casefold (of_env off)) (qr_text q))) (dk_budget s) \<rparr>))) (\<lambda>_.
     event (SearchCompleted (qr_query_id q) (nat (qr_result_count q))))"

definition absorb_candidate ::
  "('p, 'm, 'c) office \<Rightarrow> candidate \<Rightarrow> candidate list \<Rightarrow> (candidate list, ('p, 'm, 'c) desk) task" where
  "absorb_candidate off c fresh =
     seq (demand (research_url (en_urls (of_env off)) (c_url c))) (\<lambda>key. look (\<lambda>s.
       if key \<noteq> [] \<and> key \<notin> fst ` set (dk_candidates s)
       then seq (change (\<lambda>s. on_report (\<lambda>r. r\<lparr> rp_candidates := rp_candidates r @ [c] \<rparr>)
                     (s\<lparr> dk_candidates := dk_candidates s @ [(key, c)] \<rparr>))) (\<lambda>_. give (fresh @ [c]))
       else give fresh))"

definition take_failures :: "stage_failure list \<Rightarrow> (unit, ('p, 'm, 'c) desk) task" where
  "take_failures fs = change (on_report (\<lambda>r. r\<lparr> rp_failures := rp_failures r @ map Reported fs \<rparr>))"

definition absorb_search :: "('p, 'm, 'c) office \<Rightarrow> search_stage \<Rightarrow> (candidate list, ('p, 'm, 'c) desk) task" where
  "absorb_search off res =
     seq (budgeted (take_budget (clk off) SearchRequests (u_search_requests (ss_usage res)))) (\<lambda>_.
     seq (budgeted (take_budget (clk off) MaxQueries (int (length (ss_queries res))))) (\<lambda>_.
     seq (each (absorb_query off) (ss_queries res) ()) (\<lambda>_.
     seq (each (absorb_candidate off) (ss_candidates res) []) (\<lambda>fresh.
     seq (take_failures (ss_failures res)) (\<lambda>_. give fresh)))))"

text \<open>A source of a collector gets the next number of the report, and its passages a name to match.\<close>

definition rename_passage :: "string \<Rightarrow> string \<Rightarrow> passage \<Rightarrow> passage" where
  "rename_passage old new p = p\<lparr> pa_source_id := new, pa_passage_id :=
     (let pre = old @ ''-'' in
      if take (length pre) (pa_passage_id p) = pre then new @ ''-'' @ drop (length pre) (pa_passage_id p)
      else pa_passage_id p) \<rparr>"

definition rename_source :: "string \<Rightarrow> source \<Rightarrow> source" where
  "rename_source new src = (if new = so_source_id src then src
     else src\<lparr> so_source_id := new, so_passages := map (rename_passage (so_source_id src) new) (so_passages src) \<rparr>)"

definition absorb_source :: "('p, 'm, 'c) office \<Rightarrow> source \<Rightarrow> nat \<Rightarrow> (nat, ('p, 'm, 'c) desk) task" where
  "absorb_source off src0 n = look (\<lambda>s.
     let src = rename_source (''S'' @ dec (length (rp_sources (dk_report s)) + 1)) src0 in
     seq (change (on_report (add_to_sources src))) (\<lambda>_.
     seq (demand (research_url (en_urls (of_env off)) (source_url src))) (\<lambda>key.
     seq (if key \<noteq> [] then change (\<lambda>s. s\<lparr> dk_budget := b_source_keys_update (add_key key) (dk_budget s) \<rparr>) else give ()) (\<lambda>_.
     seq (if so_status src \<noteq> SOk then failure ''fetch'' (fetch_code (so_source_id src) src) else give ()) (\<lambda>_.
     seq (event (fetched_event src)) (\<lambda>_. give (if so_passages src \<noteq> [] then n + 1 else n)))))))"

definition absorb_extract :: "('p, 'm, 'c) office \<Rightarrow> extract_stage \<Rightarrow> (nat, ('p, 'm, 'c) desk) task" where
  "absorb_extract off res =
     seq (budgeted (take_budget (clk off) FetchRequests (u_fetch_requests (es_usage res)))) (\<lambda>_.
     seq (budgeted (take_budget (clk off) MaxSources (int (length (es_sources res))))) (\<lambda>_.
     seq (each (absorb_source off) (es_sources res) 0) (\<lambda>acquired.
     seq (take_failures (es_failures res)) (\<lambda>_. give acquired))))"

definition by_collector :: "('a, 'c) task \<Rightarrow> ('a, ('p, 'm, 'c) desk) task" where
  "by_collector m s = map_option (\<lambda>(r, c). (r, s\<lparr> dk_collector := c \<rparr>)) (m (dk_collector s))"

text \<open>Identifiers handed to the collector: \<open>kind\<close> and the next numbers after \<open>n\<close>.\<close>

definition number_items :: "string \<Rightarrow> nat \<Rightarrow> 'a list \<Rightarrow> (string \<times> 'a) list" where
  "number_items kind n xs = map (\<lambda>(i, x). (kind @ dec i, x)) (zip [n + 1..<n + 1 + length xs] xs)"

definition collect_search ::
  "('p, 'm, 'c) office \<Rightarrow> 'c collector \<Rightarrow> nat \<Rightarrow> query list \<Rightarrow> (candidate list, ('p, 'm, 'c) desk) task" where
  "collect_search off co n qs =
     seq (enter_stage ''search'') (\<lambda>_. look (\<lambda>s.
     seq (by_collector (co_search co (number_items ''Q'' (if n = 0 then 0 else length (rp_queries (dk_report s))) qs)
            n (rp_question (dk_report s)))) (absorb_search off)))"

definition collect_extract ::
  "('p, 'm, 'c) office \<Rightarrow> 'c collector \<Rightarrow> nat \<Rightarrow> candidate list \<Rightarrow> (nat, ('p, 'm, 'c) desk) task" where
  "collect_extract off co n selected =
     seq (enter_stage ''fetch'') (\<lambda>_. look (\<lambda>s.
     seq (by_collector (co_extract co (number_items ''S'' (length (rp_sources (dk_report s))) selected)
            n (rp_question (dk_report s)))) (absorb_extract off)))"

definition execute_remotely :: "('p, 'm, 'c) office \<Rightarrow> 'c collector \<Rightarrow> string list \<Rightarrow> (unit, ('p, 'm, 'c) desk) task" where
  "execute_remotely off co urls =
     seq (plan_queries off) (\<lambda>qs.
     seq (collect_search off co 0 qs) (\<lambda>found.
     seq (add_supplied off urls found) (\<lambda>fresh.
     seq (select_candidates off True fresh) (\<lambda>selected.
     seq (collect_extract off co 0 selected) (\<lambda>acquired.
       first_round_end off acquired (\<lambda>followup.
         if followup = [] then give ()
         else
           seq (collect_search off co 1 followup) (\<lambda>fresh.
           seq (select_candidates off False fresh) (\<lambda>selected.
           seq (if selected \<noteq> [] then collect_extract off co 1 selected else give 0) (examine_again off)))))))))"

definition execute :: "('p, 'm, 'c) office \<Rightarrow> string list \<Rightarrow> (unit, ('p, 'm, 'c) desk) task" where
  "execute off urls = (case of_collector off of None \<Rightarrow> execute_here off urls | Some co \<Rightarrow> execute_remotely off co urls)"

section \<open>The run\<close>

definition usable_claim :: "claim \<Rightarrow> bool" where
  "usable_claim c \<longleftrightarrow> cl_checked c \<and> cl_status c \<noteq> Insufficient"

definition classify :: "research_report \<Rightarrow> research_report" where
  "classify r =
     (let usable = list_ex usable_claim (rp_claims r);
          r' = r\<lparr> rp_state := (if usable \<and> rp_failures r = [] then RunCompleted else if usable then RunPartial else RunFailed) \<rparr>
      in if \<not> usable \<and> rp_stop_reason r = ''no_actionable_gaps'' then r'\<lparr> rp_stop_reason := ''no_verified_claims'' \<rparr> else r')"

definition broken_off :: "string \<Rightarrow> research_report \<Rightarrow> research_report" where
  "broken_off why r = r\<lparr> rp_state := (if list_ex cl_checked (rp_claims r) then RunPartial else RunFailed), rp_stop_reason := why \<rparr>"

definition fail_run :: "string \<Rightarrow> utext \<Rightarrow> (unit, ('p, 'm, 'c) desk) task" where
  "fail_run why code = look (\<lambda>s. seq (change (on_report (broken_off why))) (\<lambda>_. failure (dk_stage s) code))"

text \<open>The \<open>except\<close> clauses of \<open>run\<close>.\<close>

definition settle_run :: "('p, 'm, 'c) office \<Rightarrow> exn \<Rightarrow> (unit, ('p, 'm, 'c) desk) task" where
  "settle_run off e =
     (case e of
        exn.Cancelled \<Rightarrow> look (\<lambda>s.
          if of_expired off s then fail_run ''job_timeout'' (ascii ''job_timeout'')
          else seq (change (on_report (\<lambda>r. r\<lparr> rp_state := RunCancelled, rp_stop_reason := ''cancelled'' \<rparr>))) (\<lambda>_.
               event CancelRequested))
      | BudgetExceeded m \<Rightarrow> fail_run m (ascii m)
      | FetchTimeout \<Rightarrow> fail_run ''job_timeout'' (ascii ''job_timeout'')
      | _ \<Rightarrow> fail_run ''stage_failed'' (ascii (exn_code e)))"

definition close_clients :: "string list \<Rightarrow> (unit, ('p, 'm, 'c) desk) task" where
  "close_clients errors = each (\<lambda>name _.
     seq (failure ''cleanup'' (ascii name)) (\<lambda>_.
       change (on_report (\<lambda>r. if rp_state r = RunCompleted then r\<lparr> rp_state := RunPartial \<rparr> else r)))) errors ()"

definition answer_of :: "research_report \<Rightarrow> answerability" where
  "answer_of r =
     (let checked = filter usable_claim (rp_claims r);
          unresolved = rp_gaps r \<noteq> [] \<or> list_ex (\<lambda>c. cl_status c = Insufficient \<or> cl_status c = Conflicting) (rp_claims r)
      in if checked = [] then Unresolved
         else if \<not> unresolved \<and> rp_state r = RunCompleted then Sufficient else Limited)"

text \<open>The host names of the sources; \<open>None\<close> when an address cannot be split.\<close>

fun domains :: "url_library \<Rightarrow> source list \<Rightarrow> string option set option" where
  "domains u [] = Some {}"
| "domains u (src # srcs) =
     (case ur_split u (source_url src) of
        None \<Rightarrow> None
      | Some p \<Rightarrow> map_option (insert (up_hostname p)) (domains u srcs))"

definition metrics_of :: "budget \<Rightarrow> nat \<Rightarrow> research_report \<Rightarrow> run_metrics" where
  "metrics_of b domain_count r =
     \<lparr> rm_requests = snapshot_requests b, rm_source_count = length (rp_sources r), rm_domain_count = domain_count,
       rm_origin_group_count = length (rp_origin_groups r),
       rm_unknown_origin_groups = count_rows (\<lambda>g. gr_independence g = Unknown) (rp_origin_groups r),
       rm_checked_claims = count_rows usable_claim (rp_claims r) \<rparr>"

definition activity_summary :: "research_report \<Rightarrow> utext" where
  "activity_summary r = ascii (dec (length (rp_queries r))) @ activity_queries
     @ ascii (dec (length (rp_sources r))) @ activity_sources
     @ ascii (dec (count_rows cl_checked (rp_claims r))) @ activity_claims"

definition conclude :: "('p, 'm, 'c) office \<Rightarrow> (unit, ('p, 'm, 'c) desk) task" where
  "conclude off =
     seq (close_clients (of_close_errors off)) (\<lambda>_.
     seq (change (on_report (\<lambda>r. r\<lparr> rp_finished_at := Some (en_now (of_env off)), rp_answerability := answer_of r \<rparr>))) (\<lambda>_. look (\<lambda>s.
     seq (demand (domains (en_urls (of_env off)) (rp_sources (dk_report s)))) (\<lambda>ds.
     seq (change (on_report (\<lambda>r. r\<lparr> rp_metrics := Some (metrics_of (dk_budget s) (card ds) r),
            rp_activity_summary := activity_summary r \<rparr>))) (\<lambda>_. look (\<lambda>s.
     seq (event (Finished (rp_state (dk_report s)) (rp_stop_reason (dk_report s)))) (\<lambda>_.
       store (SaveCall (dk_report s)))))))))"

definition begin_run :: "('p, 'm, 'c) office \<Rightarrow> utext \<Rightarrow> (unit, ('p, 'm, 'c) desk) task" where
  "begin_run off question =
     seq (change (dk_report_update (\<lambda>_. new_report (of_job_id off) question (of_profile_id off) (en_now (of_env off))))) (\<lambda>_.
     seq (store (StatusCall RunRunning ''running'')) (\<lambda>_. event Started))"

definition carry_out :: "('p, 'm, 'c) office \<Rightarrow> string list \<Rightarrow> (unit, ('p, 'm, 'c) desk) task" where
  "carry_out off urls = attempt (seq (execute off urls) (\<lambda>_. change (on_report classify))) (settle_run off)"

text \<open>\<open>run\<close>: a question that is not public, an opened store or a report to resume is refused before anything is done.\<close>

definition research_run ::
  "('p, 'm, 'c) office \<Rightarrow> utext \<Rightarrow> string list \<Rightarrow> bool \<Rightarrow> research_report option
   \<Rightarrow> (research_report, ('p, 'm, 'c) desk) task" where
  "research_run off question urls opened existing =
     (case of_public_text off question of
        Inl e \<Rightarrow> throw e
      | Inr _ \<Rightarrow>
          if existing = None \<and> opened then throw (OtherError ''ValueError'')
          else if existing \<noteq> None then throw (OtherError ''ValueError'')
          else
            seq (begin_run off question) (\<lambda>_.
            seq (carry_out off urls) (\<lambda>_.
            seq (conclude off) (\<lambda>_.
              look (\<lambda>s. give (dk_report s))))))"

text \<open>\<open>ResearchExecutor.__init__\<close>.\<close>

definition new_desk :: "('p, 'm, 'c) office \<Rightarrow> limits \<Rightarrow> 'p \<Rightarrow> 'm \<Rightarrow> 'c \<Rightarrow> ('p, 'm, 'c) desk" where
  "new_desk off l p m c =
     \<lparr> dk_budget = new_budget (clk off) l, dk_provider = p, dk_model = m, dk_collector = c, dk_stage = ''starting'',
       dk_report = new_report [] [] [] [], dk_candidates = [], dk_extraction_ids = [], dk_store = [] \<rparr>"

end
