(* ===== verification/Research_Steps.thy ===== *)
theory Research_Steps
  imports Research_Run
begin

text \<open>
  How properties of a research run are proved: a reflexive and transitive relation that the small steps keep
  is kept by every stage (locale \<open>run_relation\<close>), and, if the examination of a round keeps it too, by the whole
  execution (locale \<open>execution_relation\<close>).
\<close>

section \<open>From one kind of statement to the other\<close>

lemma follows_valid:
  "(\<And>s0. valid (R s0) m (\<lambda>_. R s0) (\<lambda>_. R s0)) \<Longrightarrow> (\<And>s. R s s) \<Longrightarrow> follows R m"
  unfolding follows_def by (fastforce dest: validD split: sum.splits)

lemma valid_follows:
  "follows R m \<Longrightarrow> (\<And>s s'. P s \<Longrightarrow> R s s' \<Longrightarrow> P s') \<Longrightarrow> (\<And>s. P s \<Longrightarrow> E s)
   \<Longrightarrow> valid P m (\<lambda>_. P) (\<lambda>_. E)"
  unfolding valid_def follows_def by (fastforce split: option.split sum.split)

lemma valid_with:
  assumes "valid P m Q E" "follows R m" "\<And>s s'. R s s' \<Longrightarrow> I s \<Longrightarrow> I s'"
  shows "valid (\<lambda>s. P s \<and> I s) m (\<lambda>x s. Q x s \<and> I s) (\<lambda>e s. E e s \<and> I s)"
  unfolding valid_def
proof (intro allI impI)
  fix s assume s: "P s \<and> I s"
  have "I s'" if "m s = Some (r, s')" for r s' using followsD [OF assms(2) that] assms(3) s by blast
  with validD [OF assms(1)] s
  show "case m s of None \<Rightarrow> True | Some (Inl e, s') \<Rightarrow> E e s' \<and> I s' | Some (Inr x, s') \<Rightarrow> Q x s' \<and> I s'"
    by (fastforce split: option.split sum.split)
qed

lemma valid_pointwise: "(\<And>s1. P s1 \<Longrightarrow> valid (\<lambda>s. s = s1) m Q E) \<Longrightarrow> valid P m Q E"
  by (simp add: valid_def)

section \<open>What the parts of an office promise\<close>

text \<open>A model only spends from the budget; so do the search provider and the fetcher.\<close>

definition asks_within_budget :: "('a, 'm) asking \<Rightarrow> bool" where
  "asks_within_budget ask \<longleftrightarrow>
     (\<forall>text st m b r m' b'. ask text st (m, b) = Some (r, m', b') \<longrightarrow> spends b b')"

definition model_within_budget :: "'m language_model \<Rightarrow> bool" where
  "model_within_budget lm \<longleftrightarrow> asks_within_budget (lm_plan lm) \<and> asks_within_budget (lm_select lm)
     \<and> asks_within_budget (lm_extract lm) \<and> asks_within_budget (lm_review lm)"

definition office_within_budget :: "('p, 'm, 'c) office \<Rightarrow> bool" where
  "office_within_budget off \<longleftrightarrow> model_within_budget (of_model off)
     \<and> (\<forall>q i b p. spends b (pv_budget (of_provider off) (snd (pv_search (of_provider off) q i (pv_set_budget (of_provider off) b p)))))
     \<and> (\<forall>c i b r b'. of_fetcher off c i b = Some (r, b') \<longrightarrow> spends b b')
     \<and> (\<forall>co. of_collector off = Some co \<longrightarrow>
           (\<forall>items n topic c res c'. co_search co items n topic c = Some (Inr res, c') \<longrightarrow> 0 \<le> u_search_requests (ss_usage res))
         \<and> (\<forall>items n topic c res c'. co_extract co items n topic c = Some (Inr res, c') \<longrightarrow> 0 \<le> u_fetch_requests (es_usage res)))"

section \<open>Small steps\<close>

text \<open>A change of the report that touches neither claims nor evidence, sources, groups, failures, rounds and state.\<close>

definition mild :: "(research_report \<Rightarrow> research_report) \<Rightarrow> bool" where
  "mild f \<longleftrightarrow> (\<forall>r. rp_claims (f r) = rp_claims r \<and> rp_evidence (f r) = rp_evidence r \<and> rp_sources (f r) = rp_sources r
     \<and> rp_origin_groups (f r) = rp_origin_groups r \<and> rp_failures (f r) = rp_failures r \<and> rp_rounds (f r) = rp_rounds r \<and> rp_state (f r) = rp_state r)"

definition quiet_event :: "event \<Rightarrow> bool" where
  "quiet_event e \<longleftrightarrow> (\<forall>st code. e \<noteq> FailureEvent st code) \<and> (\<forall>i st b. e \<noteq> ClaimChecked i st b)"

lemma quiet_events [simp]:
  "quiet_event (StageStarted a)" "quiet_event (ContextReduced a n k)" "quiet_event QuerySkipped"
  "quiet_event (SearchCompleted a n)" "quiet_event (SourceFetched a st n kd)" "quiet_event (RepairStarted n)"
  "quiet_event (PlanReady ts n)" "quiet_event (RoundCompleted en)"
  "quiet_event CancelRequested" "quiet_event (Finished rs a)" "quiet_event Started" "quiet_event (fetched_event src)"
  by (simp_all add: quiet_event_def fetched_event_def)

locale step_relation = progress R for R :: "('p, 'm, 'c) desk \<Rightarrow> ('p, 'm, 'c) desk \<Rightarrow> bool" +
  fixes off :: "('p, 'm, 'c) office"
  assumes within: "office_within_budget off"
    and inner: "dk_report s' = dk_report s \<Longrightarrow> dk_store s' = dk_store s \<Longrightarrow> spends (dk_budget s) (dk_budget s') \<Longrightarrow> R s s'"
    and event_follows: "quiet_event e \<Longrightarrow> follows R (event e)"
    and failure_follows: "follows R (failure st code)"
    and mild_follows: "mild f \<Longrightarrow> R s (on_report f s)"
begin

lemma budgeted_follows: "(\<And>b. spends b (snd (op b))) \<Longrightarrow> follows R (budgeted op)"
  unfolding follows_def budgeted_def by (auto split: prod.splits intro!: inner) (metis snd_conv)

lemma checked_time_follows [following]: "follows R (checked_time off)"
  unfolding checked_time_def by (rule budgeted_follows) (rule spending)

lemma enter_follows [following]: "follows R (enter_stage st)"
  unfolding enter_stage_def by (rule follows_change) (rule inner, simp_all)

lemma ask_follows: "asks_within_budget ask \<Longrightarrow> follows R (ask_model ask text st)"
  unfolding follows_def ask_model_def asks_within_budget_def
  by (auto split: option.splits prod.splits intro!: inner)

lemma report_follows: "mild f \<Longrightarrow> follows R (change (on_report f))"
  by (rule follows_change) (rule mild_follows)

lemma report_follows' : "(\<And>s. mild (f s)) \<Longrightarrow> follows R (change (\<lambda>s. on_report (f s) s))"
  by (rule follows_change) (rule mild_follows)

lemma inside_follows:
  "(\<And>s. dk_report (f s) = dk_report s \<and> dk_store (f s) = dk_store s \<and> spends (dk_budget s) (dk_budget (f s)))
   \<Longrightarrow> follows R (change f)"
  by (rule follows_change) (simp add: inner)

lemma call_follows:
  assumes "asks_within_budget ask"
  shows "follows R (call_model off ot ask task data st)"
proof -
  have "R s (remember_ids d s)" for d s by (cases d) (auto intro!: inner)
  then show ?thesis unfolding call_model_def Let_def
    by (intro following event_follows ask_follows assms) simp_all
qed

lemmas model_calls = within [unfolded office_within_budget_def model_within_budget_def]

lemma calls_follow [following]:
  "follows R (call_model off ot (lm_plan (of_model off)) task data st)"
  "follows R (call_model off ot (lm_select (of_model off)) task data st)"
  "follows R (call_model off ot (lm_extract (of_model off)) task data st)"
  "follows R (call_model off ot (lm_review (of_model off)) task data st)"
  using model_calls by (auto intro!: call_follows)

lemma stop_follows [following]: "follows R (stop_because why)"
  unfolding stop_because_def by (intro report_follows) (simp add: mild_def)

lemma failures_follow [following]: "follows R (failures st codes)"
  unfolding failures_def by (intro following failure_follows)

lemma plan_follows [following]: "follows R (plan_queries off)"
  unfolding plan_queries_def Let_def by (intro following report_follows event_follows) (simp_all add: mild_def)

lemma provider_follows [following]: "follows R (ask_provider off q i)"
  unfolding follows_def ask_provider_def Let_def using model_calls
  by (auto split: prod.splits intro!: inner) (metis snd_conv)

lemma search_follows [following]: "follows R (search_one off text i fresh)"
  unfolding search_one_def
  by (intro following event_follows report_follows report_follows' inside_follows) (auto simp: mild_def on_last_query_def intro!: following inside_follows split: prod.split)

lemma search_failed_follows [following]: "follows R (search_failed off fresh e)"
  unfolding search_failed_def
  by (cases e) (auto simp: mild_def on_last_query_def intro!: following failure_follows report_follows report_follows')

lemma gather_one_follows [following]: "follows R (gather_one off q fresh)"
proof -
  have q: "follows R (budgeted (take_query clk cf t))" for clk cf t
    by (rule budgeted_follows) (rule spending)
  show ?thesis unfolding gather_one_def Let_def
    by (auto simp: mild_def intro!: following report_follows failure_follows event_follows q split: sum.split)
qed

lemma gather_follows [following]: "follows R (gather off qs)"
  unfolding gather_def by (intro following)

lemma select_follows [following]: "follows R (select_candidates off b fresh)"
proof -
  have "follows R (take_url others target url selected)" for others target url selected
    unfolding take_url_def by (auto intro!: following failure_follows split: option.split)
  then show ?thesis unfolding select_candidates_def choose_candidates_def Let_def by (intro following)
qed

lemma supply_follows [following]: "follows R (add_supplied off urls fresh)"
proof -
  have m: "follows R (change (mark_known u key))" for u key
  proof (rule follows_change)
    fix s :: "('p, 'm, 'c) desk"
    let ?s = "s\<lparr> dk_candidates := map (\<lambda>(k, c). (k, if k = key then c\<lparr> c_supplied := True \<rparr> else c)) (dk_candidates s) \<rparr>"
    have "R s ?s" by (rule inner) simp_all
    then show "R s (mark_known u key s)" unfolding mark_known_def by (rule later) (rule mild_follows, simp add: mild_def)
  qed
  show ?thesis unfolding add_supplied_def supply_one_def Let_def
    by (intro following m inside_follows) simp_all
qed

lemma collector_follows [following]: "follows R (by_collector m)"
  unfolding follows_def by_collector_def by (auto intro!: inner)

text \<open>Where the relation allows new sources and new keys, fetching and absorbing keep it.\<close>

lemma acquire_one_follows:
  assumes "\<And>src s. R s (on_report (add_to_sources src) s)"
  shows "follows R (acquire_one off c n)"
proof -
  have f: "follows R (ask_fetcher off c i)" for c i
    unfolding follows_def ask_fetcher_def using model_calls by (auto intro!: inner)
  have "follows R (budgeted (take_source clk key))" for clk key
    by (rule budgeted_follows) (rule spending)
  then show ?thesis unfolding acquire_one_def Let_def
    by (auto intro!: following assms f failure_follows event_follows)
qed

lemma absorb_search_parts:
  assumes "\<And>q. follows R (absorb_query off q ())" and "\<And>fs. follows R (take_failures fs)"
    and "0 \<le> u_search_requests (ss_usage res)"
  shows "follows R (absorb_search off res)"
proof -
  have "follows R (absorb_candidate off c fresh)" for c fresh
  proof -
    have "R s (on_report (\<lambda>r. r\<lparr> rp_candidates := rp_candidates r @ [c] \<rparr>) (s\<lparr> dk_candidates := dk_candidates s @ [(key, c)] \<rparr>))"
      for s key by (rule later [OF inner mild_follows]) (simp_all add: mild_def)
    then show ?thesis unfolding absorb_candidate_def by (auto intro!: following)
  qed
  moreover have "follows R (budgeted (take_budget (clk off) c n))" if "0 \<le> n" for c n
    using that by (intro budgeted_follows spending)
  ultimately show ?thesis unfolding absorb_search_def using assms
    by (auto intro!: following)
qed

lemma absorb_source_follows:
  assumes "\<And>src s. R s (on_report (add_to_sources src) s)"
    and "\<And>key. follows R (change (\<lambda>s. s\<lparr> dk_budget := b_source_keys_update (add_key key) (dk_budget s) \<rparr>))"
  shows "follows R (absorb_source off src n)"
  unfolding absorb_source_def Let_def by (auto intro!: following assms failure_follows event_follows)

lemma absorb_extract_parts:
  assumes "\<And>src n. follows R (absorb_source off src n)" and "\<And>fs. follows R (take_failures fs)"
    and "0 \<le> u_fetch_requests (es_usage res)"
  shows "follows R (absorb_extract off res)"
proof -
  have "follows R (budgeted (take_budget (clk off) c n))" if "0 \<le> n" for c n
    using that by (intro budgeted_follows spending)
  then show ?thesis unfolding absorb_extract_def using assms by (auto intro!: following)
qed

lemma repair_follows [following]: "follows R (repair off n ps round_sources before)"
proof -
  have "follows R (case e of ModelFailure code \<Rightarrow> seq (failure ''repair_quotes'' (ascii code)) (\<lambda>_. give before) | _ \<Rightarrow> throw e)" for e
    by (cases e) (auto intro!: following failure_follows)
  then show ?thesis unfolding repair_def
    by (auto intro!: following event_follows split: prod.split)
qed

lemma examine_parts:
  assumes "\<And>sent s. R s (on_report (\<lambda>r. r\<lparr> rp_sources := map (read_so_far sent) (rp_sources r) \<rparr>) s)"
    and "\<And>srcs groups s. group_origins (en_urls (of_env off)) srcs = Some groups
      \<Longrightarrow> R s (on_report (\<lambda>r. r\<lparr> rp_origin_groups := groups \<rparr>) s)"
    and "\<And>cs evs gs s. R s (s\<lparr> dk_report := add_gaps gs (propose cs evs (dk_report s)) \<rparr>)"
    and "\<And>un cs evs gs s. R s (s\<lparr> dk_report := add_gaps gs (take_over n un cs evs (dk_report s)) \<rparr>)"
    and "\<And>i st b. follows R (event (ClaimChecked i st b))"
  shows "follows R (examine off n)"
proof -
  have "follows R (review_round off n un result)" for un result
    unfolding review_round_def by (auto intro!: following assms split: prod.split)
  then have e: "follows R (examine_claims off n result)" for result
    unfolding examine_claims_def by (auto intro!: following assms split: prod.split)
  have m: "mild (\<lambda>r. r\<lparr> rp_gaps := rp_gaps r @ gs \<rparr>)" for gs
    by (simp add: mild_def)
  have "follows R (\<lambda>_. None)" by (simp add: follows_def)
  then show ?thesis unfolding examine_def Let_def
    by (auto intro!: following report_follows [OF m] assms e split: option.split prod.split)
qed

end

text \<open>With fetching, absorbing and the end of a round, every stage but the examination.\<close>

locale run_relation = step_relation R off
  for R :: "('p, 'm, 'c) desk \<Rightarrow> ('p, 'm, 'c) desk \<Rightarrow> bool" and off :: "('p, 'm, 'c) office" +
  fixes sane :: "extract_stage \<Rightarrow> bool"
  assumes collected_sane:
      "of_collector off = Some co \<Longrightarrow> co_extract co items k topic x = Some (Inr res', x') \<Longrightarrow> sane res'"
    and sources_follow: "follows R (acquire_one off cand n)"
    and absorb_search_follows: "0 \<le> u_search_requests (ss_usage res) \<Longrightarrow> follows R (absorb_search off res)"
    and absorb_extract_follows: "0 \<le> u_fetch_requests (es_usage res') \<Longrightarrow> sane res' \<Longrightarrow> follows R (absorb_extract off res')"
    and round_follows: "follows R (finish_round k n)"
begin

lemma acquire_follows [following]: "follows R (acquire off b fresh)"
  unfolding acquire_def by (intro following sources_follow)

lemma collector_usage:
  "co_search co items n topic c = Some (Inr res, c') \<Longrightarrow> of_collector off = Some co \<Longrightarrow> 0 \<le> u_search_requests (ss_usage res)"
  "co_extract co items' n topic c = Some (Inr res', c') \<Longrightarrow> of_collector off = Some co \<Longrightarrow> 0 \<le> u_fetch_requests (es_usage res')"
  using within unfolding office_within_budget_def by blast+

lemma collect_search_follows [following]: "of_collector off = Some co \<Longrightarrow> follows R (collect_search off co n qs)"
  unfolding collect_search_def
  by (intro follows_seq [OF enter_follows] follows_look follows_seq_value collector_follows absorb_search_follows)
    (auto simp: by_collector_def dest!: collector_usage)

lemma collect_extract_follows [following]: "of_collector off = Some co \<Longrightarrow> follows R (collect_extract off co n cs)"
  unfolding collect_extract_def
  by (intro follows_seq [OF enter_follows] follows_look follows_seq_value collector_follows absorb_extract_follows)
    (auto simp: by_collector_def dest: collector_usage collected_sane)

lemma followup_follows [following]:
  "follows R reserve_for_review" "follows R no_readable_sources" "follows R (second_round_end n)"
  unfolding reserve_for_review_def no_readable_sources_def second_round_end_def
  by (intro following round_follows)+

end

text \<open>With the examination of a round, the relation holds for the whole execution.\<close>

locale execution_relation = run_relation R off sane
  for R :: "('p, 'm, 'c) desk \<Rightarrow> ('p, 'm, 'c) desk \<Rightarrow> bool" and off :: "('p, 'm, 'c) office"
    and sane :: "extract_stage \<Rightarrow> bool" +
  assumes examine_follows: "follows R (examine off n)"
begin

lemma rounds_follow [following]:
  "follows R (examine_again off n)"
  "(\<And>qs. follows R (again qs)) \<Longrightarrow> follows R (first_round_end off n again)"
  unfolding examine_again_def first_round_end_def
  by (auto intro!: following round_follows examine_follows split: option.split)

lemma execute_follows: "follows R (execute off urls)"
  unfolding execute_def
  by (auto simp: execute_here_def execute_remotely_def intro!: following split: option.split)

end

end
