(* ===== verification/Research_Inv.thy ===== *)
theory Research_Inv
  imports Research_Steps
begin

text \<open>
  What a research run keeps: it only spends from its budget, the sources of its report are numbered without
  gaps and their passages have names of their own, and the examination of a round changes no source's text.
\<close>

section \<open>Spending\<close>

definition desk_spends :: "('p, 'm, 'c) desk \<Rightarrow> ('p, 'm, 'c) desk \<Rightarrow> bool" where
  "desk_spends s s' \<longleftrightarrow> spends (dk_budget s) (dk_budget s')"

lemma desk_spends_report [simp]: "desk_spends s (on_report f s)"
  by (simp add: desk_spends_def)

text \<open>Keys that are added after they were paid for stay within what was paid.\<close>

definition room :: "(budget \<Rightarrow> nat) \<Rightarrow> category \<Rightarrow> nat \<Rightarrow> budget \<Rightarrow> budget \<Rightarrow> bool" where
  "room keys cat n b0 b \<longleftrightarrow> spends b0 b \<and> (budget_ok b0 \<longrightarrow> int (keys b) + int n \<le> b_counts b cat)"

lemma room_spends: "room keys cat n b0 b \<Longrightarrow> spends b0 b"
  by (simp add: room_def)

lemma room_taken:
  assumes "take_budget ck cat (int n) b = (Inr (), b')" "\<And>b. budget_ok b \<Longrightarrow> int (keys b) \<le> b_counts b cat"
    and "\<And>b f. keys (b_readings_update f b) = keys b" "\<And>b f. keys (b_counts_update f b) = keys b"
  shows "room keys cat n b b'"
proof -
  have s: "spends b b'" using take_spends [of "int n" b ck cat] assms(1) by simp
  have "b' = b\<lparr> b_readings := b_readings b', b_counts := (b_counts b)(cat := b_counts b cat + int n) \<rparr>"
    using assms(1) by (auto simp: take_budget_def check_time_def remaining_seconds_def split: if_splits prod.splits)
  then have "keys b' = keys b \<and> b_counts b' cat = b_counts b cat + int n" using assms(3,4) by (metis (no_types, lifting) budget.select_convs(4) budget.surjective budget.update_convs(3,4) fun_upd_same)
  with assms(2) [of b] s show ?thesis by (auto simp: room_def)
qed

lemma room_query_key:
  "room (length \<circ> b_query_keys) MaxQueries (Suc n) b0 b
   \<Longrightarrow> room (length \<circ> b_query_keys) MaxQueries n b0 (b_query_keys_update (add_key k) b)"
  unfolding room_def spends_def budget_ok_def add_key_def by auto

lemma room_source_key:
  "room (length \<circ> b_source_keys) MaxSources (Suc n) b0 b
   \<Longrightarrow> room (length \<circ> b_source_keys) MaxSources n b0 (b_source_keys_update (add_key k) b)"
  unfolding room_def spends_def budget_ok_def add_key_def by auto

lemma room_less: "room keys cat (Suc n) b0 b \<Longrightarrow> room keys cat n b0 b"
  by (auto simp: room_def)

text \<open>Taking over a collector's result pays first and adds keys then.\<close>

lemma valid_budgeted:
  "(\<And>s r b. P s \<Longrightarrow> op (dk_budget s) = (r, b) \<Longrightarrow>
      (case r of Inl e \<Rightarrow> E e (s\<lparr> dk_budget := b \<rparr>) | Inr x \<Rightarrow> Q x (s\<lparr> dk_budget := b \<rparr>)))
   \<Longrightarrow> valid P (budgeted op) Q E"
  unfolding valid_def budgeted_def by (auto split: prod.splits sum.splits)

lemma valid_take:
  "0 \<le> n \<Longrightarrow> valid (\<lambda>s. spends b0 (dk_budget s)) (budgeted (take_budget ck cat n))
     (\<lambda>_ s. spends b0 (dk_budget s)) (\<lambda>_ s. spends b0 (dk_budget s))"
proof (rule valid_budgeted)
  fix s r b assume n: "0 \<le> n" and s: "spends b0 (dk_budget s)" and op: "take_budget ck cat n (dk_budget s) = (r, b)"
  have "spends (dk_budget s) b" using take_spends [OF n, of "dk_budget s" ck cat] op by simp
  with s have "spends b0 b" by (rule spends_trans)
  then show "case r of Inl e \<Rightarrow> spends b0 (dk_budget (s\<lparr> dk_budget := b \<rparr>)) | Inr x \<Rightarrow> spends b0 (dk_budget (s\<lparr> dk_budget := b \<rparr>))"
    by (cases r) simp_all
qed

lemma valid_take_room:
  assumes "\<And>b. budget_ok b \<Longrightarrow> int (keys b) \<le> b_counts b cat"
    and "\<And>b f. keys (b_readings_update f b) = keys b" "\<And>b f. keys (b_counts_update f b) = keys b"
  shows "valid (\<lambda>s. spends b0 (dk_budget s)) (budgeted (take_budget ck cat (int n)))
    (\<lambda>_ s. room keys cat n b0 (dk_budget s)) (\<lambda>_ s. spends b0 (dk_budget s))"
proof (rule valid_budgeted)
  fix s r b assume s: "spends b0 (dk_budget s)" and op: "take_budget ck cat (int n) (dk_budget s) = (r, b)"
  have sb: "spends b0 b" using spends_trans [OF s take_spends [of "int n" "dk_budget s" ck cat]] op by simp
  moreover have "room keys cat n b0 b" if "r = Inr ()"
  proof -
    have "room keys cat n (dk_budget s) b" by (rule room_taken [OF op [unfolded that]]) (use assms in auto)
    with s sb show ?thesis by (auto simp: room_def spends_def)
  qed
  ultimately show "case r of Inl e \<Rightarrow> spends b0 (dk_budget (s\<lparr> dk_budget := b \<rparr>))
      | Inr x \<Rightarrow> room keys cat n b0 (dk_budget (s\<lparr> dk_budget := b \<rparr>))" by (cases r) auto
qed

lemma absorb_search_spends:
  assumes "0 \<le> u_search_requests (ss_usage res)"
  shows "follows desk_spends (absorb_search off res)"
proof -
  let ?room = "\<lambda>b0 xs s. room (length \<circ> b_query_keys) MaxQueries (length xs) b0 (dk_budget s)"
  let ?E = "\<lambda>b0 _ s. spends b0 (dk_budget s)"
  have q: "valid (\<lambda>s. ?room b0 (x # xs) s) (absorb_query off x ()) (\<lambda>_. ?room b0 xs) (?E b0)" for b0 x xs
    unfolding absorb_query_def event_def store_def
    by (rule valid_seq [where R = "\<lambda>_. ?room b0 xs"]; rule valid_change) (auto intro: room_query_key dest: room_spends)
  have qs: "valid (\<lambda>s. ?room b0 xs s) (each (absorb_query off) xs a) (\<lambda>_ s. spends b0 (dk_budget s)) (?E b0)" for b0 xs a
    by (rule valid_weaken [OF valid_each_items [where I = "\<lambda>xs _. ?room b0 xs" and E = "?E b0"]])
      (use q in \<open>auto dest: room_spends\<close>)
  have c: "valid (?E b0 ()) (absorb_candidate off x fresh) (\<lambda>_. ?E b0 ()) (?E b0)" for b0 x fresh
    unfolding absorb_candidate_def by (intro valid_seq [where R = "\<lambda>_. ?E b0 ()"] establish) auto
  have f: "valid (?E b0 ()) (take_failures fs) (\<lambda>_. ?E b0 ()) (?E b0)" for b0 fs
    unfolding take_failures_def by (rule valid_change) simp
  have t: "valid (?E b0 ()) (budgeted (take_budget ck MaxQueries (int (length xs)))) (\<lambda>_. ?room b0 xs) (?E b0)" for b0 ck and xs :: "query_result list"
    by (rule valid_take_room) (auto simp: budget_ok_def)
  have "valid (?E b0 ()) (absorb_search off res) (\<lambda>_. ?E b0 ()) (?E b0)" for b0
    unfolding absorb_search_def
    by (rule valid_seq [OF valid_take [OF assms]], rule valid_seq [OF t], rule valid_seq [OF qs],
        rule valid_seq [OF valid_each [where I = "\<lambda>_. ?E b0 ()"]], rule c, rule valid_seq [OF f], rule valid_give)
  then show ?thesis by (intro follows_valid) (simp_all add: desk_spends_def [abs_def])
qed

lemma absorb_extract_spends:
  assumes "0 \<le> u_fetch_requests (es_usage res)"
  shows "follows desk_spends (absorb_extract off res)"
proof -
  let ?room = "\<lambda>b0 xs s. room (length \<circ> b_source_keys) MaxSources (length xs) b0 (dk_budget s)"
  let ?E = "\<lambda>b0 _ s. spends b0 (dk_budget s)"
  have x: "valid (\<lambda>s. ?room b0 (x # xs) s) (absorb_source off x n) (\<lambda>_. ?room b0 xs) (?E b0)" for b0 x xs n
    unfolding absorb_source_def Let_def failure_def event_def store_def
    by (rule valid_look, rule valid_seq [where R = "\<lambda>_. ?room b0 (x # xs)"], rule valid_change, simp,
        rule valid_seq [where R = "\<lambda>_. ?room b0 (x # xs)"], rule valid_demand, simp add: room_spends, simp,
        rule valid_seq [where R = "\<lambda>_. ?room b0 xs"], rule valid_if, rule valid_change, simp add: room_source_key,
        rule valid_give, simp add: room_less, (intro valid_seq [where R = "\<lambda>_. ?room b0 xs"] establish; simp)+)
  have xs: "valid (\<lambda>s. ?room b0 xs s) (each (absorb_source off) xs a) (\<lambda>_ s. spends b0 (dk_budget s)) (?E b0)" for b0 xs a
    by (rule valid_weaken [OF valid_each_items [where I = "\<lambda>xs _. ?room b0 xs" and E = "?E b0"]])
      (use x in \<open>auto dest: room_spends\<close>)
  have f: "valid (?E b0 ()) (take_failures fs) (\<lambda>_. ?E b0 ()) (?E b0)" for b0 fs
    unfolding take_failures_def by (rule valid_change) simp
  have t: "valid (?E b0 ()) (budgeted (take_budget ck MaxSources (int (length xs)))) (\<lambda>_. ?room b0 xs) (?E b0)" for b0 ck and xs :: "source list"
    by (rule valid_take_room) (auto simp: budget_ok_def)
  have "valid (?E b0 ()) (absorb_extract off res) (\<lambda>_. ?E b0 ()) (?E b0)" for b0
    unfolding absorb_extract_def
    by (rule valid_seq [OF valid_take [OF assms]], rule valid_seq [OF t], rule valid_seq [OF xs],
        rule valid_seq [OF f], rule valid_give)
  then show ?thesis by (intro follows_valid) (simp_all add: desk_spends_def [abs_def])
qed

text \<open>An office whose parts only spend.\<close>

locale thrifty_office =
  fixes off :: "('p, 'm, 'c) office"
  assumes thrifty: "office_within_budget off"

sublocale thrifty_office \<subseteq> spending_steps: step_relation desk_spends off
  by unfold_locales (auto simp: desk_spends_def event_def store_def failure_def follows_def change_def seq_def
      thrifty intro: spends_trans)

sublocale thrifty_office \<subseteq> spending: execution_relation desk_spends off "\<lambda>_. True"
  by unfold_locales (auto simp: finish_round_def event_def store_def Let_def
      intro!: absorb_search_spends absorb_extract_spends spending_steps.acquire_one_follows spending_steps.examine_parts
      following desk_spends_report spending_steps.follows_change, simp_all add: desk_spends_def)

section \<open>Names of sources and passages\<close>

text \<open>A source owns its passages: they carry its identifier and their names begin with it.\<close>

definition owns_passages :: "source \<Rightarrow> bool" where
  "owns_passages src \<longleftrightarrow> distinct (map pa_passage_id (so_passages src))
     \<and> (\<forall>p \<in> set (so_passages src). pa_source_id p = so_source_id src \<and> (\<exists>t. pa_passage_id p = so_source_id src @ ''-'' @ t))"

definition source_name :: "nat \<Rightarrow> string" where
  "source_name n = ''S'' @ dec (n + 1)"

definition numbered_sources :: "source list \<Rightarrow> bool" where
  "numbered_sources srcs \<longleftrightarrow> map so_source_id srcs = map source_name [0..<length srcs] \<and> (\<forall>src \<in> set srcs. owns_passages src)"

lemma no_dash_digits: "CHR ''-'' \<notin> set (dec n)"
proof
  assume "CHR ''-'' \<in> set (dec n)"
  then obtain d :: nat where "CHR ''-'' = char_of (48 + d)" "d < 10" by (auto simp: dec_def dest: dec_digits_bound)
  then have "of_char (CHR ''-'') = (48 + d) mod 256" by (metis of_char_of)
  with \<open>d < 10\<close> show False by simp
qed

lemma split_at_first: "x \<notin> set a \<Longrightarrow> x \<notin> set b \<Longrightarrow> a @ x # s = b @ x # t \<Longrightarrow> a = b"
  by (induction a arbitrary: b) (auto simp: Cons_eq_append_conv)

lemma source_name_dash: "source_name m @ ''-'' @ s = source_name n @ ''-'' @ t \<Longrightarrow> m = n"
  using split_at_first [of "CHR ''-''" "dec (m + 1)" "dec (n + 1)" s t] no_dash_digits [of "m + 1"] no_dash_digits [of "n + 1"]
  by (auto simp: source_name_def)

text \<open>So every passage of the report has a name that no other passage has.\<close>

lemma numbered_passages_distinct:
  assumes "numbered_sources srcs"
  shows "distinct (map pa_passage_id (concat (map so_passages srcs)))" and "distinct (map so_source_id srcs)"
proof -
  have ids: "so_source_id (srcs ! i) = source_name i" if "i < length srcs" for i
  proof -
    have "map so_source_id srcs ! i = map source_name [0..<length srcs] ! i" using assms by (simp add: numbered_sources_def)
    with that show ?thesis by simp
  qed
  have own: "owns_passages (srcs ! i)" if "i < length srcs" for i using assms that by (simp add: numbered_sources_def)
  have inj: "i = j" if "i < length srcs" "j < length srcs" "set (map pa_passage_id (so_passages (srcs ! i))) \<inter> set (map pa_passage_id (so_passages (srcs ! j))) \<noteq> {}" for i j
    using that own [OF that(1)] own [OF that(2)] ids [OF that(1)] ids [OF that(2)]
    by (auto simp: owns_passages_def) (metis source_name_dash append_Cons append_Nil)
  have "distinct (concat (map (map pa_passage_id \<circ> so_passages) srcs))"
    unfolding distinct_concat_iff
  proof (intro conjI allI impI ballI)
    show "distinct (removeAll [] (map (map pa_passage_id \<circ> so_passages) srcs))"
    proof -
      have "distinct (removeAll [] (map (\<lambda>i. map pa_passage_id (so_passages (srcs ! i))) [0..<length srcs]))"
        unfolding removeAll_filter_not_eq filter_map distinct_map
        by (auto simp: inj_on_def intro!: inj)
      moreover have "map (map pa_passage_id \<circ> so_passages) srcs = map (\<lambda>i. map pa_passage_id (so_passages (srcs ! i))) [0..<length srcs]"
        by (rule nth_equalityI) simp_all
      ultimately show ?thesis by simp
    qed
  next
    fix xs assume "xs \<in> set (map (map pa_passage_id \<circ> so_passages) srcs)"
    then obtain i where "i < length srcs" "xs = map pa_passage_id (so_passages (srcs ! i))" by (auto simp: in_set_conv_nth)
    with own show "distinct xs" by (simp add: owns_passages_def)
  next
    fix xs ys assume xy: "xs \<in> set (map (map pa_passage_id \<circ> so_passages) srcs)
      \<and> ys \<in> set (map (map pa_passage_id \<circ> so_passages) srcs) \<and> xs \<noteq> ys"
    then obtain i j where "i < length srcs" "xs = map pa_passage_id (so_passages (srcs ! i))"
      "j < length srcs" "ys = map pa_passage_id (so_passages (srcs ! j))" by (auto simp: in_set_conv_nth)
    then show "set xs \<inter> set ys = {}" using inj xy by blast
  qed
  then show "distinct (map pa_passage_id (concat (map so_passages srcs)))" by (simp add: map_concat)
  show "distinct (map so_source_id srcs)"
    using assms by (auto simp: numbered_sources_def distinct_map inj_on_def source_name_def)
qed

lemma numbered_append:
  assumes "numbered_sources srcs" "so_source_id src = source_name (length srcs)" "owns_passages src"
  shows "numbered_sources (srcs @ [src])"
  using assms by (simp add: numbered_sources_def)

lemma numbered_same:
  assumes "map so_source_id srcs' = map so_source_id srcs" "map so_passages srcs' = map so_passages srcs" "numbered_sources srcs"
  shows "numbered_sources srcs'"
proof -
  have l: "length srcs' = length srcs" using assms(1) by (metis length_map)
  have "owns_passages (srcs' ! i)" if "i < length srcs'" for i
  proof -
    have "owns_passages (srcs ! i)" using assms(3) that l by (simp add: numbered_sources_def)
    moreover have "so_source_id (srcs' ! i) = so_source_id (srcs ! i)" "so_passages (srcs' ! i) = so_passages (srcs ! i)"
      using arg_cong [OF assms(1), of "\<lambda>xs. xs ! i"] arg_cong [OF assms(2), of "\<lambda>xs. xs ! i"] that l by simp_all
    ultimately show ?thesis by (simp add: owns_passages_def)
  qed
  then show ?thesis using assms l by (auto simp: numbered_sources_def in_set_conv_nth)
qed

lemma rename_owns: "owns_passages src \<Longrightarrow> owns_passages (rename_source new src) \<and> so_source_id (rename_source new src) = new"
proof (cases "new = so_source_id src")
  case False
  assume own: "owns_passages src"
  have id: "pa_passage_id (rename_passage (so_source_id src) new p) = new @ drop (length (so_source_id src)) (pa_passage_id p)"
    and pre: "\<exists>t. pa_passage_id p = so_source_id src @ ''-'' @ t"
    if "p \<in> set (so_passages src)" for p
    using own that by (auto simp: owns_passages_def rename_passage_def Let_def)
  have "inj_on (\<lambda>p. pa_passage_id (rename_passage (so_source_id src) new p)) (set (so_passages src))"
  proof (rule inj_onI)
    fix p q assume pq: "p \<in> set (so_passages src)" "q \<in> set (so_passages src)"
      "pa_passage_id (rename_passage (so_source_id src) new p) = pa_passage_id (rename_passage (so_source_id src) new q)"
    then have "pa_passage_id p = pa_passage_id q" using pre [OF pq(1)] pre [OF pq(2)] by (auto simp: id)
    with own pq show "p = q" by (auto simp: owns_passages_def distinct_map dest: inj_onD)
  qed
  moreover have "distinct (so_passages src)" using own by (simp add: owns_passages_def distinct_map)
  ultimately have "distinct (map pa_passage_id (so_passages (rename_source new src)))"
    using False by (simp add: rename_source_def distinct_map comp_def inj_on_def)
  moreover have "\<exists>t. pa_passage_id p = new @ ''-'' @ t" if "p \<in> set (so_passages (rename_source new src))" for p
    using that False id pre by (auto simp: rename_source_def) (metis append_eq_conv_conj append.assoc drop_append)
  ultimately show ?thesis using False by (auto simp: owns_passages_def rename_source_def rename_passage_def)
qed (simp add: rename_source_def)

definition names_ok :: "('p, 'm, 'c) desk \<Rightarrow> bool" where
  "names_ok s \<longleftrightarrow> numbered_sources (rp_sources (dk_report s))"

definition keeps_names :: "('p, 'm, 'c) desk \<Rightarrow> ('p, 'm, 'c) desk \<Rightarrow> bool" where
  "keeps_names s s' \<longleftrightarrow> (names_ok s \<longrightarrow> names_ok s')"

text \<open>A source is fetched under the identifier it is asked for, and a fetched or collected one owns its passages.\<close>

locale naming_office = thrifty_office off for off :: "('p, 'm, 'c) office" +
  assumes fetched_names: "of_fetcher off c i b = Some (Inr src, b') \<Longrightarrow> so_source_id src = i \<and> owns_passages src"
    and collected_names: "of_collector off = Some co \<Longrightarrow> co_extract co items k topic x = Some (Inr res, x')
      \<Longrightarrow> src \<in> set (es_sources res) \<Longrightarrow> owns_passages src"
begin

lemma names_steps: "step_relation keeps_names off"
  by unfold_locales (auto simp: keeps_names_def names_ok_def event_def store_def failure_def follows_def change_def seq_def
      thrifty mild_def add_note_def)

interpretation names: step_relation keeps_names off
  by (rule names_steps)

lemma valid_names: "follows keeps_names m \<Longrightarrow> valid names_ok m (\<lambda>_. names_ok) (\<lambda>_. names_ok)"
  by (rule valid_follows [where R = keeps_names]) (auto simp: keeps_names_def)

lemma follows_names: "valid names_ok m (\<lambda>_. names_ok) (\<lambda>_. names_ok) \<Longrightarrow> follows keeps_names m"
  unfolding follows_def keeps_names_def by (fastforce dest: validD split: sum.splits)

text \<open>The number of sources is looked up before the fetch and is still right when the source is added.\<close>

lemma add_source_names:
  "valid (\<lambda>s. names_ok s \<and> so_source_id src = source_name (length (rp_sources (dk_report s))) \<and> owns_passages src)
     (change (on_report (add_to_sources src))) (\<lambda>_. names_ok) (\<lambda>_. names_ok)"
  by (rule valid_change) (auto simp: names_ok_def add_to_sources_def intro: numbered_append)

lemma names_after: "(\<And>x. follows keeps_names (f x)) \<Longrightarrow> valid P m (\<lambda>_. names_ok) (\<lambda>_. names_ok)
   \<Longrightarrow> valid P (seq m f) (\<lambda>_. names_ok) (\<lambda>_. names_ok)"
  by (rule valid_seq) (auto intro: valid_names)

lemma acquire_names: "follows keeps_names (acquire_one off cand n)"
proof -
  have take: "follows keeps_names (budgeted (take_source ck key) :: (bool, ('p, 'm, 'c) desk) task)" for ck key
    by (rule names.budgeted_follows) (rule spending)
  have fetch: "valid (\<lambda>s. s = s0 \<and> names_ok s) (ask_fetcher off cand i)
      (\<lambda>src s. names_ok s \<and> length (rp_sources (dk_report s)) = length (rp_sources (dk_report s0))
          \<and> so_source_id src = i \<and> owns_passages src) (\<lambda>_. names_ok)" for s0 i
    unfolding valid_def ask_fetcher_def using fetched_names
    by (auto simp: names_ok_def split: option.splits sum.splits)
  have found: "so_source_id (found_by ms src) = so_source_id src" "owns_passages (found_by ms src) = owns_passages src" for ms src
    by (simp_all add: found_by_def owns_passages_def)
  have rest: "valid (\<lambda>s. names_ok s \<and> length (rp_sources (dk_report s)) = k \<and> so_source_id src0 = source_name k \<and> owns_passages src0)
     (seq (demand ms) (\<lambda>ms. seq (change (on_report (add_to_sources (found_by ms src0)))) (f ms)))
     (\<lambda>_. names_ok) (\<lambda>_. names_ok)" if "\<And>ms x. follows keeps_names (f ms x)"
    for k src0 ms and f :: "candidate list \<Rightarrow> unit \<Rightarrow> (nat, ('p, 'm, 'c) desk) task"
    by (rule valid_seq [where R = "\<lambda>ms s. names_ok s \<and> length (rp_sources (dk_report s)) = k \<and> so_source_id src0 = source_name k \<and> owns_passages src0"],
        rule valid_demand, simp, simp, rule names_after [OF that], rule valid_weaken [OF add_source_names]) (simp_all add: found)
  have "valid names_ok (acquire_one off cand n) (\<lambda>_. names_ok) (\<lambda>_. names_ok)"
    unfolding acquire_one_def Let_def
    apply (rule valid_seq [OF valid_names], intro following)
    apply (rule valid_seq [OF valid_names], intro following)
    apply (rule valid_seq [OF valid_names], intro following)
    apply (rule valid_seq [OF valid_names], intro take)
    apply (rule valid_if, rule valid_give, assumption, rule valid_look)
    apply (rule valid_seq [OF fetch])
    apply (rule valid_weaken [OF rest])
    apply (auto intro!: following names.event_follows names.failure_follows simp: source_name_def)
    done
  then show ?thesis by (rule follows_names)
qed

lemma absorb_source_names: "owns_passages src0 \<Longrightarrow> follows keeps_names (absorb_source off src0 n)"
proof -
  assume own: "owns_passages src0"
  have k: "follows keeps_names (change (\<lambda>s. s\<lparr> dk_budget := b_source_keys_update (add_key key) (dk_budget s) \<rparr>) :: (unit, ('p, 'm, 'c) desk) task)" for key
    by (rule names.follows_change) (simp add: keeps_names_def names_ok_def)
  have "valid names_ok (absorb_source off src0 n) (\<lambda>_. names_ok) (\<lambda>_. names_ok)"
    unfolding absorb_source_def Let_def
    apply (rule valid_look, rule names_after)
    apply (intro following k names.failure_follows names.event_follows quiet_events)
    apply (simp add: keeps_names_def names_ok_def)
    apply (rule valid_weaken [OF add_source_names])
    apply (use rename_owns [OF own] in \<open>auto simp: source_name_def\<close>)
    done
  then show ?thesis by (rule follows_names)
qed

lemma absorb_extract_names:
  assumes "0 \<le> u_fetch_requests (es_usage res)" "\<forall>src \<in> set (es_sources res). owns_passages src"
  shows "follows keeps_names (absorb_extract off res)"
proof -
  have many: "follows keeps_names (each (absorb_source off) srcs n)" if "\<forall>src \<in> set srcs. owns_passages src" for srcs n
    using that
  proof (induction srcs arbitrary: n)
    case (Cons src srcs)
    then show ?case by (simp, intro names.follows_seq) (auto intro: absorb_source_names)
  qed (simp add: names.follows_give)
  have pay: "follows keeps_names (budgeted (take_budget (clk off) cat k) :: (unit, ('p, 'm, 'c) desk) task)" if "0 \<le> k" for cat k
    using that by (intro names.budgeted_follows spending)
  have fails: "follows keeps_names (take_failures fs :: (unit, ('p, 'm, 'c) desk) task)" for fs
    unfolding take_failures_def by (rule names.follows_change) (simp add: keeps_names_def names_ok_def)
  show ?thesis unfolding absorb_extract_def
    by (intro names.follows_seq pay many fails names.follows_give) (use assms in simp_all)
qed

lemma names_execution: "execution_relation keeps_names off (\<lambda>res. \<forall>src \<in> set (es_sources res). owns_passages src)"
proof -
  have query: "follows keeps_names (absorb_query off q () :: (unit, ('p, 'm, 'c) desk) task)" for q
    unfolding absorb_query_def
    by (rule names.follows_seq, rule names.follows_change, simp add: keeps_names_def names_ok_def, rule names.event_follows, simp)
  have fails: "follows keeps_names (take_failures fs :: (unit, ('p, 'm, 'c) desk) task)" for fs
    unfolding take_failures_def by (rule names.follows_change) (simp add: keeps_names_def names_ok_def)
  have search: "follows keeps_names (absorb_search off res)" if "0 \<le> u_search_requests (ss_usage res)" for res
    by (rule names.absorb_search_parts [OF query fails that])
  have examine: "follows keeps_names (examine off k)" for k
  proof (rule names.examine_parts)
    show "keeps_names s (on_report (\<lambda>r. r\<lparr> rp_sources := map (read_so_far sent) (rp_sources r) \<rparr>) s)"
      for sent and s :: "('p, 'm, 'c) desk"
      unfolding keeps_names_def names_ok_def by (auto simp: read_so_far_def comp_def intro: numbered_same [rotated 2])
  qed (simp_all add: keeps_names_def names_ok_def add_gaps_def propose_def take_over_def event_def store_def
      follows_def change_def)
  have round: "follows keeps_names (finish_round k n :: (unit, ('p, 'm, 'c) desk) task)" for k n
    unfolding finish_round_def Let_def
    by (intro following names.event_follows names.follows_change) (simp_all add: keeps_names_def names_ok_def)
  show ?thesis
  proof unfold_locales
    show "\<And>co items k topic x res' x'. of_collector off = Some co \<Longrightarrow> co_extract co items k topic x = Some (Inr res', x')
      \<Longrightarrow> \<forall>src \<in> set (es_sources res'). owns_passages src" using collected_names by blast
  qed (simp_all add: search examine round acquire_names absorb_extract_names)
qed

end

end
