(* ===== verification/Research_Claims.thy ===== *)
theory Research_Claims
  imports Research_Inv
begin

text \<open>
  What stands behind the claims of a report: every quotation is a piece of a passage of a source in the
  report, every status is earned by the checked quotations, and what a review has established is never
  changed later in the run.
\<close>

section \<open>Quotations and statuses\<close>

text \<open>The quotation is the stretch from \<open>a\<close> to \<open>b\<close> of a passage of a usable source, and the recorded offsets are
  those of this stretch in the page or body the passage was cut from.\<close>

definition cited :: "source list \<Rightarrow> evidence \<Rightarrow> bool" where
  "cited srcs ev \<longleftrightarrow> (\<exists>src \<in> set srcs. \<exists>p \<in> set (so_passages src). \<exists>a b.
     so_source_id src = ev_source_id ev \<and> usable_source src \<and> pa_passage_id p = ev_passage_id ev
     \<and> a < b \<and> b \<le> length (pa_text p) \<and> ev_quote ev = Quotes.slice a b (pa_text p)
     \<and> ev_start ev = pa_start p + int a \<and> ev_end ev = pa_start p + int b)"

definition same_source :: "source \<Rightarrow> source \<Rightarrow> bool" where
  "same_source a b \<longleftrightarrow> so_source_id a = so_source_id b \<and> so_passages a = so_passages b \<and> so_status a = so_status b"

definition grown :: "source list \<Rightarrow> source list \<Rightarrow> bool" where
  "grown srcs srcs' \<longleftrightarrow> (\<forall>a \<in> set srcs. \<exists>b \<in> set srcs'. same_source a b)"

lemma grown_refl [simp]: "grown srcs srcs"
  by (auto simp: grown_def same_source_def)

lemma grown_trans: "grown a b \<Longrightarrow> grown b c \<Longrightarrow> grown a c"
  unfolding grown_def same_source_def by metis

lemma grown_map: "(\<And>a. same_source a (f a)) \<Longrightarrow> grown srcs (map f srcs)"
  by (auto simp: grown_def)

lemma grown_append [simp]: "grown srcs (srcs @ srcs2)"
  by (auto simp: grown_def same_source_def)

lemma cited_grown: "cited srcs ev \<Longrightarrow> grown srcs srcs' \<Longrightarrow> cited srcs' ev"
  unfolding cited_def grown_def same_source_def usable_source_def by metis

lemma cited_frame: "ev_frame ev' = ev_frame ev \<Longrightarrow> cited srcs ev' = cited srcs ev"
  by (simp add: cited_def ev_frame_def)

lemma grounded_cited: "grounded (map (read_in_round ps) srcs) item ev \<Longrightarrow> cited srcs ev"
proof -
  assume "grounded (map (read_in_round ps) srcs) item ev"
  then obtain src p a b where g: "src \<in> set srcs" "p \<in> set (so_passages src)" "so_source_id src = ev_source_id ev"
    "usable_source src" "pa_passage_id p = ev_passage_id ev" "a < b" "b \<le> length (pa_text p)" "ev_quote ev = Quotes.slice a b (pa_text p)"
    "ev_start ev = pa_start p + int a" "ev_end ev = pa_start p + int b"
    unfolding grounded_def by (auto simp: read_in_round_def usable_source_def)
  then show ?thesis unfolding cited_def by blast
qed

section \<open>Groups of unknown origin\<close>

definition unknown_groups :: "origin_group list \<Rightarrow> bool" where
  "unknown_groups groups \<longleftrightarrow> (\<forall>g \<in> set groups. gr_independence g = Unknown)"

lemma group_origins_unknown: "group_origins u srcs = Some groups \<Longrightarrow> unknown_groups groups"
  by (auto simp: group_origins_def unknown_groups_def new_group_def Let_def split: option.splits prod.splits)

lemma memberships_subset: "set (memberships groups i) \<subseteq> set groups"
  by (auto simp: memberships_def)

lemma unknown_unconfirmed: "unknown_groups groups \<Longrightarrow> confirmed_groups groups evs = {}"
proof -
  assume u: "unknown_groups groups"
  have "confirmed_group groups e = None" for e
  proof (cases "memberships groups (ev_source_id e)")
    case (Cons g gs)
    then have "g \<in> set groups" using memberships_subset [of groups "ev_source_id e"] by auto
    with u have "gr_independence g = Unknown" by (simp add: unknown_groups_def)
    with Cons show ?thesis by (cases gs) (simp_all add: confirmed_group_def)
  qed (simp add: confirmed_group_def)
  then show ?thesis by (simp add: set_confirmed_groups)
qed

lemma earned_unknown: "unknown_groups groups \<Longrightarrow> earned u groups evs c \<Longrightarrow> earned u [] evs c"
  by (simp add: earned_def Let_def unknown_unconfirmed unknown_groups_def [of "[]"])

lemma earned_parts:
  assumes "\<forall>ev \<in> set other. ev_id ev \<notin> set (cl_evidence_ids c)"
  shows "earned u groups (evs @ other) c = earned u groups evs c" "earned u groups (other @ evs) c = earned u groups evs c"
proof -
  have "filter (backs u c) other = []" "filter (opposes c) other = []"
    using assms by (auto simp: filter_empty_conv backs_def opposes_def)
  then show "earned u groups (evs @ other) c = earned u groups evs c" "earned u groups (other @ evs) c = earned u groups evs c"
    by (simp_all add: earned_def Let_def)
qed

section \<open>The claims of a round\<close>

definition tagged :: "nat \<Rightarrow> string \<Rightarrow> bool" where
  "tagged n i \<longleftrightarrow> (\<exists>t. i = round_prefix n @ t)"

lemma tagged_0_1: "tagged 0 i \<Longrightarrow> \<not> tagged 1 i"
proof
  assume "tagged 0 i" "tagged 1 i"
  then obtain s t where "dec 0 @ CHR ''-'' # s = dec 1 @ CHR ''-'' # t" by (auto simp: tagged_def round_prefix_def)
  then have "dec 0 = dec 1" by (rule split_at_first [OF no_dash_digits no_dash_digits])
  then show False by simp
qed

text \<open>Proposed claims and their quotations, as \<open>validate_extraction\<close> leaves them.\<close>

definition proposed :: "nat \<Rightarrow> source list \<Rightarrow> checked_extraction \<Rightarrow> bool" where
  "proposed n srcs result \<longleftrightarrow> (case result of (x, cs, evs, errs) \<Rightarrow>
     (\<forall>ev \<in> set evs. cited srcs ev \<and> tagged n (ev_id ev))
     \<and> (\<forall>c \<in> set cs. cl_status c = Insufficient \<and> \<not> cl_checked c \<and> (\<forall>i \<in> set (cl_evidence_ids c). tagged n i)))"

lemma proposed_grown: "proposed n srcs result \<Longrightarrow> grown srcs srcs' \<Longrightarrow> proposed n srcs' result"
  unfolding proposed_def by (auto intro: cited_grown)

lemma validated_proposed:
  assumes "validate_extraction ps (map (read_in_round sent) srcs) (round_prefix n) = (cs, evs, errs)"
  shows "proposed n srcs (x, cs, evs, errs)"
proof -
  note f = extraction_facts [OF assms]
  have ids: "tagged n i" if "i \<in> set (map ev_id evs)" for i
    using that unfolding f(2) by (auto simp: ids_from_def numbered_def tagged_def)
  moreover have "i \<in> set (map ev_id evs)" if "c \<in> set cs" "i \<in> set (cl_evidence_ids c)" for c i
    using that unfolding f(3) [symmetric] by auto
  moreover have "cited srcs ev" if "ev \<in> set evs" for ev using that f(7) grounded_cited by blast
  ultimately show ?thesis using f(6) unfolding proposed_def by simp
qed

definition sound_report :: "unicode \<Rightarrow> research_report \<Rightarrow> bool" where
  "sound_report u r \<longleftrightarrow> (\<forall>ev \<in> set (rp_evidence r). cited (rp_sources r) ev)
     \<and> (\<forall>c \<in> set (rp_claims r). earned u [] (rp_evidence r) c)"

definition from_round :: "nat \<Rightarrow> claim list \<Rightarrow> evidence list \<Rightarrow> bool" where
  "from_round n cs evs \<longleftrightarrow> (\<forall>ev \<in> set evs. tagged n (ev_id ev)) \<and> (\<forall>c \<in> set cs. \<forall>i \<in> set (cl_evidence_ids c). tagged n i)"

lemma proposed_sound:
  "proposed n (rp_sources r) (x, cs, evs, errs) \<Longrightarrow> sound_report u (r\<lparr> rp_claims := cs, rp_evidence := evs \<rparr>) \<and> from_round n cs evs"
  unfolding proposed_def sound_report_def from_round_def by (auto simp: earned_def Let_def)

lemma reviewed_sound:
  assumes "proposed n srcs (x, cs, evs, errs)" "apply_review u cs evs checks groups = (cs', evs')" "unknown_groups groups"
  shows "(\<forall>ev \<in> set evs'. cited srcs ev) \<and> (\<forall>c \<in> set cs'. earned u [] evs' c) \<and> from_round n cs' evs'"
proof -
  note c = review_coverage [OF assms(2)]
  have ev: "cited srcs ev \<and> tagged n (ev_id ev)" if "ev \<in> set evs'" for ev
  proof -
    have "ev_frame ` set evs' = ev_frame ` set evs" using c by (metis list.set_map)
    with that have "ev_frame ev \<in> ev_frame ` set evs" by blast
    then obtain e where e: "e \<in> set evs" "ev_frame ev = ev_frame e" by auto
    then have "cited srcs e \<and> tagged n (ev_id e)" using assms(1) by (auto simp: proposed_def)
    with e(2) cited_frame [OF e(2)] show ?thesis by (simp add: ev_frame_def)
  qed
  have cl: "\<forall>i \<in> set (cl_evidence_ids c'). tagged n i" if "c' \<in> set cs'" for c'
  proof -
    have "(cl_id c', cl_text c', cl_evidence_ids c') \<in> set (map (\<lambda>c. (cl_id c, cl_text c, cl_evidence_ids c)) cs')" using that by auto
    then obtain c0 where "c0 \<in> set cs" "cl_evidence_ids c' = cl_evidence_ids c0" using c by auto
    with assms(1) show ?thesis by (auto simp: proposed_def)
  qed
  have "earned u [] evs' c'" if "c' \<in> set cs'" for c'
    using review_earned [OF assms(2) that] assms(3) earned_unknown by blast
  with ev cl show ?thesis by (simp add: from_round_def)
qed

lemma take_over_sound:
  assumes "sound_report u r" "from_round 0 (rp_claims r) (rp_evidence r)"
    and "\<forall>ev \<in> set evs'. cited (rp_sources r) ev" "\<forall>c \<in> set cs'. earned u [] evs' c" "from_round 1 cs' evs'"
  shows "sound_report u (take_over 1 False cs' evs' r)"
proof -
  have "earned u [] (rp_evidence r @ evs') c" if "c \<in> set (rp_claims r)" for c
  proof -
    have "\<forall>ev \<in> set evs'. ev_id ev \<notin> set (cl_evidence_ids c)" using assms(2,5) that tagged_0_1 unfolding from_round_def by blast
    with assms(1) that show ?thesis by (simp add: earned_parts sound_report_def)
  qed
  moreover have "earned u [] (rp_evidence r @ evs') c" if "c \<in> set cs'" for c
  proof -
    have "\<forall>ev \<in> set (rp_evidence r). ev_id ev \<notin> set (cl_evidence_ids c)" using assms(2,5) that tagged_0_1 unfolding from_round_def by blast
    with assms(4) that show ?thesis by (simp add: earned_parts)
  qed
  ultimately show ?thesis using assms(1,3) by (auto simp: sound_report_def take_over_def)
qed

section \<open>Steps that leave the claims alone\<close>

definition claim_view :: "claim \<Rightarrow> string \<times> claim_status \<times> bool" where
  "claim_view c = (cl_id c, cl_status c, cl_checked c)"

text \<open>The claims whose review was logged, in the order of the log.\<close>

definition reviewed_log :: "store_call list \<Rightarrow> (string \<times> claim_status \<times> bool) list" where
  "reviewed_log = List.map_filter (\<lambda>x. case x of Event (ClaimChecked i st b) \<Rightarrow> Some (i, st, b) | _ \<Rightarrow> None)"

lemma reviewed_log_append [simp]: "reviewed_log (xs @ ys) = reviewed_log xs @ reviewed_log ys"
  by (simp add: reviewed_log_def List.map_filter_def)

lemma reviewed_log_quiet [simp]:
  "reviewed_log [] = []" "quiet_event e \<Longrightarrow> reviewed_log [Event e] = []" "reviewed_log [Event (FailureEvent st code)] = []"
  "reviewed_log [StatusCall rs why] = []" "reviewed_log [SaveCall r] = []"
  "reviewed_log [Event (ClaimChecked i cst b)] = [(i, cst, b)]"
  by (auto simp: reviewed_log_def List.map_filter_simps quiet_event_def split: event.split)

definition keeps_claims :: "('p, 'm, 'c) desk \<Rightarrow> ('p, 'm, 'c) desk \<Rightarrow> bool" where
  "keeps_claims s s' \<longleftrightarrow> rp_claims (dk_report s') = rp_claims (dk_report s)
     \<and> rp_evidence (dk_report s') = rp_evidence (dk_report s)
     \<and> grown (rp_sources (dk_report s)) (rp_sources (dk_report s'))
     \<and> reviewed_log (dk_store s') = reviewed_log (dk_store s)
     \<and> (unknown_groups (rp_origin_groups (dk_report s)) \<longrightarrow> unknown_groups (rp_origin_groups (dk_report s')))"

lemma progress_claims: "progress keeps_claims"
  by (unfold_locales) (auto simp: keeps_claims_def intro: grown_trans)

lemma keeps_claims_report:
  "(\<And>r. rp_claims (f r) = rp_claims r) \<Longrightarrow> (\<And>r. rp_evidence (f r) = rp_evidence r)
   \<Longrightarrow> (\<And>r. grown (rp_sources r) (rp_sources (f r))) \<Longrightarrow> (\<And>r. rp_origin_groups (f r) = rp_origin_groups r)
   \<Longrightarrow> keeps_claims s (on_report f s)"
  by (simp add: keeps_claims_def)

context thrifty_office
begin

lemma claims_steps: "step_relation keeps_claims off"
proof (rule step_relation.intro [OF progress_claims], unfold_locales)
  show "office_within_budget off" by (rule thrifty)
qed (auto simp: keeps_claims_def event_def store_def failure_def follows_def change_def seq_def mild_def add_note_def)

interpretation claims: step_relation keeps_claims off
  by (rule claims_steps)

lemma claims_run: "run_relation keeps_claims off (\<lambda>_. True)"
proof unfold_locales
  have src: "keeps_claims s (on_report (add_to_sources src) s)" for src and s :: "('p, 'm, 'c) desk"
    by (rule keeps_claims_report) (simp_all add: add_to_sources_def)
  have key: "follows keeps_claims (change (\<lambda>s. s\<lparr> dk_budget := b_source_keys_update (add_key key) (dk_budget s) \<rparr>) :: (unit, ('p, 'm, 'c) desk) task)" for key
    by (rule claims.follows_change) (simp add: keeps_claims_def)
  have query: "follows keeps_claims (absorb_query off q () :: (unit, ('p, 'm, 'c) desk) task)" for q
    unfolding absorb_query_def
    by (rule claims.follows_seq, rule claims.follows_change, simp add: keeps_claims_def, rule claims.event_follows, simp)
  have fails: "follows keeps_claims (take_failures fs :: (unit, ('p, 'm, 'c) desk) task)" for fs
    unfolding take_failures_def by (rule claims.follows_change) (simp add: keeps_claims_def)
  show "follows keeps_claims (acquire_one off cand n)" for cand n
    by (rule claims.acquire_one_follows) (rule src)
  show "follows keeps_claims (absorb_search off res)" if "0 \<le> u_search_requests (ss_usage res)" for res
    by (rule claims.absorb_search_parts [OF query fails that])
  show "follows keeps_claims (absorb_extract off res)" if "0 \<le> u_fetch_requests (es_usage res)" for res
    by (rule claims.absorb_extract_parts [OF claims.absorb_source_follows [OF src key] fails that])
  show "follows keeps_claims (finish_round k n :: (unit, ('p, 'm, 'c) desk) task)" for k n
    unfolding finish_round_def Let_def
    by (intro following claims.event_follows claims.follows_change) (simp_all add: keeps_claims_def)
qed simp

end

section \<open>Examining a round\<close>

definition nothing_claimed :: "('p, 'm, 'c) desk \<Rightarrow> bool" where
  "nothing_claimed s \<longleftrightarrow> rp_claims (dk_report s) = [] \<and> rp_evidence (dk_report s) = [] \<and> reviewed_log (dk_store s) = []"

text \<open>What the log tells of reviews is what the report says.\<close>

definition recorded :: "('p, 'm, 'c) desk \<Rightarrow> bool" where
  "recorded s \<longleftrightarrow> reviewed_log (dk_store s) = map claim_view (rp_claims (dk_report s))"

definition sound_desk :: "unicode \<Rightarrow> ('p, 'm, 'c) desk \<Rightarrow> bool" where
  "sound_desk u s \<longleftrightarrow> sound_report u (dk_report s) \<and> (reviewed_log (dk_store s) \<noteq> [] \<longrightarrow> recorded s)"

definition first_done :: "unicode \<Rightarrow> ('p, 'm, 'c) desk \<Rightarrow> bool" where
  "first_done u s \<longleftrightarrow> sound_report u (dk_report s) \<and> from_round 0 (rp_claims (dk_report s)) (rp_evidence (dk_report s))
     \<and> rp_claims (dk_report s) \<noteq> [] \<and> recorded s"

lemma sound_grown:
  "sound_report u r \<Longrightarrow> rp_claims r' = rp_claims r \<Longrightarrow> rp_evidence r' = rp_evidence r \<Longrightarrow> grown (rp_sources r) (rp_sources r')
   \<Longrightarrow> sound_report u r'"
  unfolding sound_report_def using cited_grown by metis

lemma kept_claims:
  "keeps_claims s s' \<Longrightarrow> nothing_claimed s \<Longrightarrow> nothing_claimed s'"
  "keeps_claims s s' \<Longrightarrow> sound_desk u s \<Longrightarrow> sound_desk u s'"
  "keeps_claims s s' \<Longrightarrow> first_done u s \<Longrightarrow> first_done u s'"
  unfolding keeps_claims_def nothing_claimed_def sound_desk_def first_done_def recorded_def
  by (auto intro: sound_grown)

lemma claims_phases: "nothing_claimed s \<Longrightarrow> sound_desk u s" "first_done u s \<Longrightarrow> sound_desk u s"
  by (auto simp: nothing_claimed_def first_done_def sound_desk_def sound_report_def)

lemma add_gaps_frame [simp]:
  "rp_claims (add_gaps gs r) = rp_claims r" "rp_evidence (add_gaps gs r) = rp_evidence r" "rp_sources (add_gaps gs r) = rp_sources r"
  "rp_origin_groups (add_gaps gs r) = rp_origin_groups r"
  by (simp_all add: add_gaps_def)

lemma valid_log_checks:
  "valid (\<lambda>s. dk_report s = r \<and> reviewed_log (dk_store s) = l)
     (each (\<lambda>c _. event (ClaimChecked (cl_id c) (cl_status c) (cl_checked c))) cs ())
     (\<lambda>_ s. dk_report s = r \<and> reviewed_log (dk_store s) = l @ map claim_view cs) E"
  by (rule valid_weaken [OF valid_each_items [where I = "\<lambda>xs _ s. dk_report s = r
        \<and> reviewed_log (dk_store s) @ map claim_view xs = l @ map claim_view cs" and E = E]])
    (auto simp: event_def store_def claim_view_def intro!: valid_change)

context thrifty_office
begin

interpretation claims: run_relation keeps_claims off "\<lambda>_. True"
  by (rule claims_run)

lemma valid_kept:
  "follows keeps_claims m \<Longrightarrow> (\<And>s s'. P s \<Longrightarrow> keeps_claims s s' \<Longrightarrow> P s') \<Longrightarrow> (\<And>s. P s \<Longrightarrow> E s)
   \<Longrightarrow> valid P m (\<lambda>_. P) (\<lambda>_. E)"
  by (rule valid_follows)

lemma review_round_valid:
  assumes "\<And>s s'. P s \<Longrightarrow> keeps_claims s s' \<Longrightarrow> E s'"
    and "\<And>s s' s'' rv cs' evs' gs. P s \<Longrightarrow> keeps_claims s s'
      \<Longrightarrow> apply_review (of_unicode off) cs evs (rv_checks rv) (rp_origin_groups (dk_report s)) = (cs', evs')
      \<Longrightarrow> dk_report s'' = add_gaps gs (take_over n un cs' evs' (dk_report s'))
      \<Longrightarrow> reviewed_log (dk_store s'') = reviewed_log (dk_store s') @ map claim_view cs' \<Longrightarrow> Q (Some rv) s''"
  shows "valid P (review_round off n un (x, cs, evs, errs)) Q (\<lambda>_. E)"
  unfolding review_round_def prod.case
proof (rule valid_look, rule valid_seq)
  fix s0
  show "valid (\<lambda>s. s = s0 \<and> P s) (call_model off OutReview (lm_review (of_model off)) review_task (review_data (dk_report s0) n cs evs) ''review'')
     (\<lambda>_ s. P s0 \<and> keeps_claims s0 s) (\<lambda>_. E)"
    using followsD [OF claims.calls_follow(4)] assms(1)
    unfolding valid_def by (auto split: option.split sum.split)
  fix rv :: model_review
  obtain cs' evs' where a: "apply_review (of_unicode off) cs evs (rv_checks rv) (rp_origin_groups (dk_report s0)) = (cs', evs')"
    by (cases "apply_review (of_unicode off) cs evs (rv_checks rv) (rp_origin_groups (dk_report s0))")
  let ?gs = "xt_gaps x @ rv_gaps rv @ errs"
  have "valid (\<lambda>s. P s0 \<and> keeps_claims s0 s)
     (seq (change (on_report (add_gaps ?gs \<circ> take_over n un cs' evs'))) (\<lambda>_.
      seq (each (\<lambda>c _. event (ClaimChecked (cl_id c) (cl_status c) (cl_checked c))) cs' ()) (\<lambda>_. give (Some rv)))) Q (\<lambda>_. E)"
  proof (rule valid_pointwise)
    fix s1 assume True: "P s0 \<and> keeps_claims s0 s1"
    let ?r = "add_gaps ?gs (take_over n un cs' evs' (dk_report s1))"
    show "valid (\<lambda>s. s = s1)
       (seq (change (on_report (add_gaps ?gs \<circ> take_over n un cs' evs'))) (\<lambda>_.
        seq (each (\<lambda>c _. event (ClaimChecked (cl_id c) (cl_status c) (cl_checked c))) cs' ()) (\<lambda>_. give (Some rv)))) Q (\<lambda>_. E)"
      by (rule valid_seq [where R = "\<lambda>_ s. dk_report s = ?r \<and> reviewed_log (dk_store s) = reviewed_log (dk_store s1)"],
          rule valid_change, simp, rule valid_seq [OF valid_log_checks], rule valid_give)
        (use assms(2) [OF _ _ a] True in blast)
  qed
  then show "valid (\<lambda>s. P s0 \<and> keeps_claims s0 s)
     (case apply_review (of_unicode off) cs evs (rv_checks rv) (rp_origin_groups (dk_report s0)) of (checked, evs') \<Rightarrow>
        seq (change (on_report (add_gaps ?gs \<circ> take_over n un checked evs'))) (\<lambda>_.
        seq (each (\<lambda>c _. event (ClaimChecked (cl_id c) (cl_status c) (cl_checked c))) checked ()) (\<lambda>_. give (Some rv)))) Q (\<lambda>_. E)"
    by (simp add: a)
qed

lemma review_first:
  "valid (\<lambda>s. rp_claims (dk_report s) = cs \<and> rp_evidence (dk_report s) = evs \<and> reviewed_log (dk_store s) = [] \<and> cs \<noteq> []
       \<and> proposed 0 (rp_sources (dk_report s)) (x, cs, evs, errs) \<and> unknown_groups (rp_origin_groups (dk_report s)))
     (review_round off 0 un (x, cs, evs, errs)) (\<lambda>rv s. rv \<noteq> None \<and> first_done (of_unicode off) s) (\<lambda>_. sound_desk (of_unicode off))"
    (is "valid ?P _ _ _")
proof (rule review_round_valid)
  fix s s' :: "('p, 'm, 'c) desk" assume p: "?P s" and k: "keeps_claims s s'"
  have g: "proposed 0 (rp_sources (dk_report s')) (x, cs, evs, errs)"
    using p k by (auto simp: keeps_claims_def intro: proposed_grown)
  have "sound_report (of_unicode off) ((dk_report s')\<lparr> rp_claims := cs, rp_evidence := evs \<rparr>)"
    using proposed_sound [OF g] by blast
  then have "sound_report (of_unicode off) (dk_report s')"
    by (rule sound_grown) (use p k in \<open>simp_all add: keeps_claims_def\<close>)
  moreover have l0: "reviewed_log (dk_store s') = []" using p k unfolding keeps_claims_def by metis
  ultimately show "sound_desk (of_unicode off) s'" by (simp add: sound_desk_def)
  fix s'' :: "('p, 'm, 'c) desk" and rv cs' evs' gs
  assume a: "apply_review (of_unicode off) cs evs (rv_checks rv) (rp_origin_groups (dk_report s)) = (cs', evs')"
    and r: "dk_report s'' = add_gaps gs (take_over 0 un cs' evs' (dk_report s'))"
    and l: "reviewed_log (dk_store s'') = reviewed_log (dk_store s') @ map claim_view cs'"
  have "(\<forall>ev \<in> set evs'. cited (rp_sources (dk_report s')) ev) \<and> (\<forall>c \<in> set cs'. earned (of_unicode off) [] evs' c) \<and> from_round 0 cs' evs'"
    using reviewed_sound [OF g a] p by blast
  moreover have "cs' \<noteq> []"
  proof -
    have "length cs' = length cs"
      using review_coverage [OF a, THEN conjunct1, THEN arg_cong [of _ _ length]] by simp
    moreover have "cs \<noteq> []" using p by blast
    ultimately show ?thesis by auto
  qed
  ultimately show "Some rv \<noteq> None \<and> first_done (of_unicode off) s''"
    unfolding first_done_def recorded_def sound_report_def r l l0 by (simp add: take_over_def)
qed

lemma review_second:
  "valid (\<lambda>s. first_done (of_unicode off) s
       \<and> proposed 1 (rp_sources (dk_report s)) (x, cs, evs, errs) \<and> unknown_groups (rp_origin_groups (dk_report s)))
     (review_round off 1 False (x, cs, evs, errs)) (\<lambda>_. sound_desk (of_unicode off)) (\<lambda>_. sound_desk (of_unicode off))"
    (is "valid ?P _ _ _")
proof (rule review_round_valid)
  fix s s' :: "('p, 'm, 'c) desk" assume p: "?P s" and k: "keeps_claims s s'"
  have f: "first_done (of_unicode off) s'" using p k kept_claims(3) by blast
  then show "sound_desk (of_unicode off) s'" by (rule claims_phases)
  have g: "proposed 1 (rp_sources (dk_report s')) (x, cs, evs, errs)"
    using p k by (auto simp: keeps_claims_def intro: proposed_grown)
  fix s'' :: "('p, 'm, 'c) desk" and rv cs' evs' gs
  assume a: "apply_review (of_unicode off) cs evs (rv_checks rv) (rp_origin_groups (dk_report s)) = (cs', evs')"
    and r: "dk_report s'' = add_gaps gs (take_over 1 False cs' evs' (dk_report s'))"
    and l: "reviewed_log (dk_store s'') = reviewed_log (dk_store s') @ map claim_view cs'"
  have "sound_report (of_unicode off) (take_over 1 False cs' evs' (dk_report s'))"
    by (rule take_over_sound) (use f reviewed_sound [OF g a] p in \<open>auto simp: first_done_def\<close>)
  then have "sound_report (of_unicode off) (dk_report s'')" unfolding r by (rule sound_grown) simp_all
  moreover have "recorded s''" using f l r by (simp add: first_done_def recorded_def take_over_def)
  ultimately show "sound_desk (of_unicode off) s''" by (simp add: sound_desk_def)
qed

lemma repair_valid:
  assumes "\<And>s s'. B s \<Longrightarrow> keeps_claims s s' \<Longrightarrow> B s'" and "\<And>s. B s \<Longrightarrow> E s" and "proposed n srcs before"
  shows "valid B (repair off n sent (map (read_in_round sent) srcs) before) (\<lambda>res s. B s \<and> proposed n srcs res) (\<lambda>_. E)"
proof -
  obtain x cs evs errs where b: "before = (x, cs, evs, errs)" by (cases before)
  have kept: "valid B m (\<lambda>_. B) (\<lambda>_. E)" if "follows keeps_claims m" for m :: "('a, ('p, 'm, 'c) desk) task"
    using that assms(1,2) by (rule valid_kept)
  have keptB: "valid B m (\<lambda>_. B) (\<lambda>_. B)" if "follows keeps_claims m" for m :: "('a, ('p, 'm, 'c) desk) task"
    using that assms(1) by (rule valid_kept)
  have end1: "valid B (give before) (\<lambda>res s. B s \<and> proposed n srcs res) E'" for E'
    using assms(3) by (intro valid_give) simp
  have end2: "valid B (case validate_extraction (xt_claims corrected) (map (read_in_round sent) srcs) (round_prefix n) of
        (cs', evs', errs') \<Rightarrow> give (if length evs \<le> length evs' then (corrected, cs', evs', errs') else before))
      (\<lambda>res s. B s \<and> proposed n srcs res) E'" for corrected E'
    using assms(3) validated_proposed [of "xt_claims corrected" sent srcs n]
    by (cases "validate_extraction (xt_claims corrected) (map (read_in_round sent) srcs) (round_prefix n)")
      (auto intro!: valid_give)
  have handler: "valid B (case e of ModelFailure code \<Rightarrow> seq (failure ''repair_quotes'' (ascii code)) (\<lambda>_. give before) | _ \<Rightarrow> throw e)
      (\<lambda>res s. B s \<and> proposed n srcs res) (\<lambda>_. E)" for e
    by (cases e) (auto intro!: valid_throw assms(2) valid_seq [OF kept end1] claims.failure_follows)
  have w: "valid (\<lambda>s. s = s0 \<and> B s) m Q F" if "valid B m Q F" for s0 m Q F
    using that by (simp add: valid_def)
  show ?thesis unfolding repair_def b prod.case
    by (rule valid_look, rule valid_if, rule w, rule valid_seq [OF kept], rule claims.event_follows, simp,
        rule valid_seq [OF kept], rule claims.failures_follow, rule valid_attempt [where R = "\<lambda>_. B"],
        rule valid_seq [OF keptB], rule claims.calls_follow, rule end2 [unfolded b], rule handler [unfolded b],
        rule w, rule end1 [unfolded b])
qed

text \<open>Both rounds examine alike: what the parts between the claims keep is kept.\<close>

lemma examine_valid:
  assumes kept: "\<And>s s'. A s \<Longrightarrow> keeps_claims s s' \<Longrightarrow> A s'" and ex: "\<And>s. A s \<Longrightarrow> E s" and none: "\<And>s. A s \<Longrightarrow> Q None s"
    and claims: "\<And>result. valid (\<lambda>s. A s \<and> proposed n (rp_sources (dk_report s)) result \<and> unknown_groups (rp_origin_groups (dk_report s)))
      (examine_claims off n result) Q (\<lambda>_. E)"
  shows "valid A (examine off n) Q (\<lambda>_. E)"
  unfolding examine_def Let_def
proof (rule valid_look, rule valid_if)
  fix s0
  have gap: "follows keeps_claims (change (on_report (\<lambda>r. r\<lparr> rp_gaps := rp_gaps r @ [no_text_gap] \<rparr>)) :: (unit, ('p, 'm, 'c) desk) task)"
    by (rule claims.report_follows) (simp add: mild_def)
  show "valid (\<lambda>s. s = s0 \<and> A s) (seq (change (on_report (\<lambda>r. r\<lparr> rp_gaps := rp_gaps r @ [no_text_gap] \<rparr>))) (\<lambda>_. give None)) Q (\<lambda>_. E)"
    by (rule valid_seq [where R = "\<lambda>_. A"], rule valid_weaken [OF valid_kept [OF gap kept ex]]) (auto intro!: valid_give none)
  let ?ps = "select_passages (of_unicode off) (rp_sources (dk_report s0)) (ranking_text (dk_report s0)) (selected_passages (limits_of s0))"
  let ?srcs = "rp_sources (dk_report s0)"
  let ?B = "\<lambda>s. A s \<and> grown ?srcs (rp_sources (dk_report s)) \<and> unknown_groups (rp_origin_groups (dk_report s))"
  have keptB: "?B s'" if "?B s" "keeps_claims s s'" for s s'
    using that kept [of s s'] grown_trans unfolding keeps_claims_def by blast
  have kB: "valid ?B m (\<lambda>_. ?B) (\<lambda>_. E)" if "follows keeps_claims m" for m :: "('a, ('p, 'm, 'c) desk) task"
    by (rule valid_kept [OF that keptB]) (auto intro: ex)
  show "valid (\<lambda>s. s = s0 \<and> A s)
     (case group_origins (en_urls (of_env off)) ?srcs of None \<Rightarrow> \<lambda>_. None
      | Some groups \<Rightarrow>
          seq (change (on_report (rp_origin_groups_update (\<lambda>_. groups)))) (\<lambda>_.
          seq (call_model off OutExtraction (lm_extract (of_model off)) extract_task (extract_data (dk_report s0) ?ps) ''extract'') (\<lambda>x.
          look (\<lambda>s'.
            seq (change (on_report (\<lambda>r. r\<lparr> rp_sources := map (read_so_far (filter (\<lambda>p. pa_passage_id p \<in> set (dk_extraction_ids s')) ?ps)) (rp_sources r) \<rparr>))) (\<lambda>_.
            case validate_extraction (xt_claims x) (map (read_in_round (filter (\<lambda>p. pa_passage_id p \<in> set (dk_extraction_ids s')) ?ps)) ?srcs) (round_prefix n) of (cs, evs, errs) \<Rightarrow>
              seq (repair off n (filter (\<lambda>p. pa_passage_id p \<in> set (dk_extraction_ids s')) ?ps)
                     (map (read_in_round (filter (\<lambda>p. pa_passage_id p \<in> set (dk_extraction_ids s')) ?ps)) ?srcs) (x, cs, evs, errs))
                  (examine_claims off n)))))) Q (\<lambda>_. E)"
  proof (cases "group_origins (en_urls (of_env off)) ?srcs")
    case (Some groups)
    have g: "valid (\<lambda>s. s = s0 \<and> A s) (change (on_report (rp_origin_groups_update (\<lambda>_. groups)))) (\<lambda>_. ?B) (\<lambda>_. E)"
    proof (rule valid_change)
      fix s assume s: "s = s0 \<and> A s"
      have "keeps_claims s0 (on_report (rp_origin_groups_update (\<lambda>_. groups)) s0)"
        using group_origins_unknown [OF Some] by (simp add: keeps_claims_def)
      with s have "A (on_report (rp_origin_groups_update (\<lambda>_. groups)) s)" using kept by blast
      with s show "?B (on_report (rp_origin_groups_update (\<lambda>_. groups)) s)"
        using group_origins_unknown [OF Some] by simp
    qed
    have last: "valid ?B
        (case validate_extraction (xt_claims x) (map (read_in_round sent) ?srcs) (round_prefix n) of (cs, evs, errs) \<Rightarrow>
           seq (repair off n sent (map (read_in_round sent) ?srcs) (x, cs, evs, errs)) (examine_claims off n)) Q (\<lambda>_. E)" for x sent
    proof -
      obtain cs evs errs where v: "validate_extraction (xt_claims x) (map (read_in_round sent) ?srcs) (round_prefix n) = (cs, evs, errs)"
        by (cases "validate_extraction (xt_claims x) (map (read_in_round sent) ?srcs) (round_prefix n)")
      have "valid ?B (repair off n sent (map (read_in_round sent) ?srcs) (x, cs, evs, errs)) (\<lambda>res s. ?B s \<and> proposed n ?srcs res) (\<lambda>_. E)"
        by (rule repair_valid [OF keptB _ validated_proposed [OF v]]) (auto intro: ex)
      then show ?thesis unfolding v prod.case
        by (rule valid_seq) (rule valid_weaken [OF claims], auto intro: proposed_grown)
    qed
    have src: "follows keeps_claims (change (on_report (\<lambda>r. r\<lparr> rp_sources := map (read_so_far sent) (rp_sources r) \<rparr>)) :: (unit, ('p, 'm, 'c) desk) task)" for sent
      by (rule claims.follows_change, rule keeps_claims_report) (auto simp: read_so_far_def same_source_def intro!: grown_map)
    have w: "valid (\<lambda>s. s = s1 \<and> P s) m Q F" if "valid P m Q F" for s1 P m Q F
      using that by (simp add: valid_def)
    show ?thesis unfolding Some option.case
      by (rule valid_seq [OF g], rule valid_seq [OF kB], rule claims.calls_follow, rule valid_look, rule w,
          rule valid_seq [OF kB [OF src]], rule last)
  qed (simp add: valid_def)
qed

lemma examine_first:
  "valid nothing_claimed (examine off 0)
     (\<lambda>rv s. if rv = None then sound_desk (of_unicode off) s else first_done (of_unicode off) s) (\<lambda>_. sound_desk (of_unicode off))"
proof (rule examine_valid)
  fix result :: checked_extraction
  obtain x cs evs errs where r: "result = (x, cs, evs, errs)" by (cases result)
  let ?P = "\<lambda>s. rp_claims (dk_report s) = cs \<and> rp_evidence (dk_report s) = evs \<and> reviewed_log (dk_store s) = []
    \<and> proposed 0 (rp_sources (dk_report s)) (x, cs, evs, errs) \<and> unknown_groups (rp_origin_groups (dk_report s))"
  let ?u = "of_unicode off"
  have sound: "sound_desk ?u s" if p: "?P s" for s :: "('p, 'm, 'c) desk"
  proof -
    have "proposed 0 (rp_sources (dk_report s)) (x, cs, evs, errs)" using p by blast
    from proposed_sound [OF this, of ?u] have "sound_report ?u ((dk_report s)\<lparr> rp_claims := cs, rp_evidence := evs \<rparr>)" by blast
    then have "sound_report ?u (dk_report s)" by (rule sound_grown) (use p in simp_all)
    with p show ?thesis by (simp add: sound_desk_def)
  qed
  have change: "valid (\<lambda>s. s = s0 \<and> nothing_claimed s \<and> proposed 0 (rp_sources (dk_report s)) result \<and> unknown_groups (rp_origin_groups (dk_report s)))
      (change (on_report (add_gaps gs \<circ> propose cs evs))) (\<lambda>_. ?P) E" for s0 gs E
    by (rule valid_change) (auto simp: r propose_def nothing_claimed_def)
  have fail: "valid ?P (failures st codes :: (unit, ('p, 'm, 'c) desk) task) (\<lambda>_. ?P) (\<lambda>_. sound_desk ?u)" for st codes
    by (rule valid_kept, rule claims.failures_follow, fastforce simp: keeps_claims_def intro: proposed_grown, rule sound)
  show "valid (\<lambda>s. nothing_claimed s \<and> proposed 0 (rp_sources (dk_report s)) result \<and> unknown_groups (rp_origin_groups (dk_report s)))
      (examine_claims off 0 result) (\<lambda>rv s. if rv = None then sound_desk ?u s else first_done ?u s) (\<lambda>_. sound_desk ?u)"
    unfolding examine_claims_def r prod.case
  proof (rule valid_look, rule valid_seq [OF change [unfolded r]], rule valid_seq [OF fail], rule valid_if)
    show "valid ?P (give None :: (model_review option, ('p, 'm, 'c) desk) task) (\<lambda>rv s. if rv = None then sound_desk ?u s else first_done ?u s) (\<lambda>_. sound_desk ?u)"
      by (rule valid_give) (use sound in auto)
    show "valid ?P (review_round off 0 b (x, cs, evs, errs))
        (\<lambda>rv s. if rv = None then sound_desk ?u s else first_done ?u s) (\<lambda>_. sound_desk ?u)" if "cs \<noteq> []" for b
      by (rule valid_weaken [OF review_first]) (use that in auto)
  qed
qed (auto simp: kept_claims claims_phases)

lemma examine_second:
  "valid (first_done (of_unicode off)) (examine off 1) (\<lambda>_. sound_desk (of_unicode off)) (\<lambda>_. sound_desk (of_unicode off))"
proof (rule examine_valid)
  fix result :: checked_extraction
  obtain x cs evs errs where r: "result = (x, cs, evs, errs)" by (cases result)
  let ?u = "of_unicode off"
  let ?P = "\<lambda>s. first_done ?u s \<and> proposed 1 (rp_sources (dk_report s)) (x, cs, evs, errs) \<and> unknown_groups (rp_origin_groups (dk_report s))"
  have change: "valid (\<lambda>s. s = s0 \<and> ?P s) (change (on_report (add_gaps gs \<circ> propose cs evs))) (\<lambda>_. ?P) E" for s0 gs E
  proof (rule valid_change)
    fix s assume p: "s = s0 \<and> ?P s"
    have "keeps_claims s (on_report (add_gaps gs \<circ> propose cs evs) s)"
    proof -
      have "rp_claims (dk_report s) \<noteq> []" using p by (auto simp: first_done_def)
      then show ?thesis by (simp add: keeps_claims_def propose_def)
    qed
    with p show "?P (on_report (add_gaps gs \<circ> propose cs evs) s)"
      using kept_claims(3) unfolding keeps_claims_def by (fastforce intro: proposed_grown)
  qed
  have fail: "valid ?P (failures st codes :: (unit, ('p, 'm, 'c) desk) task) (\<lambda>_. ?P) (\<lambda>_. sound_desk ?u)" for st codes
    by (rule valid_kept [OF claims.failures_follow]) (auto simp: kept_claims claims_phases, auto simp: keeps_claims_def intro: proposed_grown)
  have "valid (\<lambda>s. s = s0 \<and> ?P s) (seq (change (on_report (add_gaps (xt_gaps x @ errs) \<circ> propose cs evs))) (\<lambda>_.
      seq (failures ''evidence'' errs) (\<lambda>_. if cs = [] then give None else review_round off 1 (rp_claims (dk_report s0) = []) (x, cs, evs, errs))))
      (\<lambda>_. sound_desk ?u) (\<lambda>_. sound_desk ?u)" for s0
  proof (rule valid_pointwise)
    fix s assume s: "s = s0 \<and> ?P s"
    then have un: "(rp_claims (dk_report s0) = []) = False" by (auto simp: first_done_def)
    have "valid (\<lambda>s. s = s0 \<and> ?P s) (seq (change (on_report (add_gaps (xt_gaps x @ errs) \<circ> propose cs evs))) (\<lambda>_.
        seq (failures ''evidence'' errs) (\<lambda>_. if cs = [] then give None else review_round off 1 False (x, cs, evs, errs))))
        (\<lambda>_. sound_desk ?u) (\<lambda>_. sound_desk ?u)"
      by (rule valid_seq [OF change], rule valid_seq [OF fail], rule valid_if, rule valid_give, simp add: claims_phases,
          rule review_second)
    then show "valid (\<lambda>s'. s' = s) (seq (change (on_report (add_gaps (xt_gaps x @ errs) \<circ> propose cs evs))) (\<lambda>_.
        seq (failures ''evidence'' errs) (\<lambda>_. if cs = [] then give None else review_round off 1 (rp_claims (dk_report s0) = []) (x, cs, evs, errs))))
        (\<lambda>_. sound_desk ?u) (\<lambda>_. sound_desk ?u)" unfolding un by (rule valid_weaken) (use s in auto)
  qed
  then show "valid (\<lambda>s. first_done ?u s \<and> proposed 1 (rp_sources (dk_report s)) result \<and> unknown_groups (rp_origin_groups (dk_report s)))
      (examine_claims off 1 result) (\<lambda>_. sound_desk ?u) (\<lambda>_. sound_desk ?u)"
    unfolding examine_claims_def r prod.case by (rule valid_look)
qed (auto simp: kept_claims claims_phases)

lemma examine_again_claims:
  "valid (first_done (of_unicode off)) (examine_again off n) (\<lambda>_. sound_desk (of_unicode off)) (\<lambda>_. sound_desk (of_unicode off))"
proof -
  have e: "valid (first_done (of_unicode off)) (seq (examine off 1) (\<lambda>_. give ())) (\<lambda>_. sound_desk (of_unicode off)) (\<lambda>_. sound_desk (of_unicode off))"
    by (rule valid_seq [OF examine_second], rule valid_give) assumption
  have c: "valid (first_done (of_unicode off)) (if n \<noteq> 0 then seq (examine off 1) (\<lambda>_. give ()) else give ())
      (\<lambda>_. sound_desk (of_unicode off)) (\<lambda>_. sound_desk (of_unicode off))"
    by (rule valid_if, rule e, rule valid_give, rule claims_phases)
  have "valid (sound_desk (of_unicode off)) (second_round_end n :: (unit, ('p, 'm, 'c) desk) task)
      (\<lambda>_. sound_desk (of_unicode off)) (\<lambda>_. sound_desk (of_unicode off))"
    by (rule valid_kept [OF claims.followup_follows(3)]) (auto intro: kept_claims)
  then show ?thesis unfolding examine_again_def
    by (rule valid_seq [OF c])
qed

lemma first_round_claims:
  assumes "\<And>qs. valid (first_done (of_unicode off)) (again qs) (\<lambda>_. sound_desk (of_unicode off)) (\<lambda>_. sound_desk (of_unicode off))"
  shows "valid nothing_claimed (first_round_end off n again) (\<lambda>_. sound_desk (of_unicode off)) (\<lambda>_. sound_desk (of_unicode off))"
proof -
  let ?u = "of_unicode off"
  let ?P = "\<lambda>rv s. if rv = None then sound_desk ?u s else first_done ?u s"
  have k: "valid (?P rv) m (\<lambda>_. ?P rv) (\<lambda>_. sound_desk ?u)" if "follows keeps_claims m"
    for rv :: "model_review option" and m :: "(unit, ('p, 'm, 'c) desk) task"
    by (rule valid_kept [OF that]) (auto intro: kept_claims claims_phases split: if_splits)
  have d: "valid (first_done ?u) m (\<lambda>_. first_done ?u) (\<lambda>_. sound_desk ?u)" if "follows keeps_claims m" for m :: "(unit, ('p, 'm, 'c) desk) task"
    by (rule valid_kept [OF that]) (auto intro: kept_claims claims_phases)
  have s: "valid (?P rv) (no_readable_sources :: (unit, ('p, 'm, 'c) desk) task) (\<lambda>_. sound_desk ?u) (\<lambda>_. sound_desk ?u)" for rv :: "model_review option"
    by (rule valid_weaken [OF k [OF claims.followup_follows(2)]]) (auto intro: claims_phases split: if_splits)
  have "valid (?P rv) (case rv of Some r \<Rightarrow> if rv_queries r \<noteq> [] then seq reserve_for_review (\<lambda>_. again (followup_queries r)) else no_readable_sources
      | None \<Rightarrow> no_readable_sources) (\<lambda>_. sound_desk ?u) (\<lambda>_. sound_desk ?u)" for rv
  proof (cases rv)
    case (Some r)
    have "valid (?P rv) (seq reserve_for_review (\<lambda>_. again (followup_queries r))) (\<lambda>_. sound_desk ?u) (\<lambda>_. sound_desk ?u)"
      by (rule valid_weaken [OF valid_seq [OF d assms]]) (auto simp: Some intro: claims.followup_follows)
    with Some s [of rv] show ?thesis by simp
  qed (use s [of None] in simp)
  then show ?thesis unfolding first_round_end_def
    by (intro valid_seq [OF examine_first] valid_seq [OF k] claims.round_follows claims.stop_follows)
qed

lemma execute_claims:
  "valid nothing_claimed (execute off urls) (\<lambda>_. sound_desk (of_unicode off)) (\<lambda>_. sound_desk (of_unicode off))"
proof -
  have n: "valid nothing_claimed m (\<lambda>_. nothing_claimed) (\<lambda>_. sound_desk (of_unicode off))" if "follows keeps_claims m" for m :: "('a, ('p, 'm, 'c) desk) task"
    by (rule valid_kept [OF that]) (auto intro: kept_claims claims_phases)
  have d: "valid (first_done (of_unicode off)) m (\<lambda>_. first_done (of_unicode off)) (\<lambda>_. sound_desk (of_unicode off))"
    if "follows keeps_claims m" for m :: "('a, ('p, 'm, 'c) desk) task"
    by (rule valid_kept [OF that]) (auto intro: kept_claims claims_phases)
  show ?thesis
  proof (cases "of_collector off")
    case None
    then show ?thesis unfolding execute_def execute_here_def
      by simp (intro valid_seq [OF n] valid_seq [OF d] first_round_claims examine_again_claims claims.plan_follows
          claims.gather_follows claims.supply_follows claims.acquire_follows)
  next
    case (Some co)
    have "valid (first_done (of_unicode off)) (if followup = [] then give () else
        seq (collect_search off co 1 followup) (\<lambda>fresh. seq (select_candidates off False fresh) (\<lambda>selected.
        seq (if selected \<noteq> [] then collect_extract off co 1 selected else give 0) (examine_again off))))
        (\<lambda>_. sound_desk (of_unicode off)) (\<lambda>_. sound_desk (of_unicode off))" for followup
      by (intro valid_if valid_give claims_phases, assumption, intro valid_seq [OF d] examine_again_claims claims.follows_if
          claims.collect_search_follows claims.select_follows claims.collect_extract_follows claims.follows_give Some)
    then show ?thesis using Some unfolding execute_def execute_remotely_def
      by simp (intro valid_seq [OF n] first_round_claims claims.plan_follows claims.supply_follows claims.select_follows
          claims.collect_search_follows claims.collect_extract_follows)
  qed
qed

lemma conclude_follows: "follows keeps_claims (conclude off)"
proof -
  have r: "follows keeps_claims (change (on_report f) :: (unit, ('p, 'm, 'c) desk) task)"
    if "\<And>r. rp_claims (f r) = rp_claims r" "\<And>r. rp_evidence (f r) = rp_evidence r" "\<And>r. rp_sources (f r) = rp_sources r"
      "\<And>r. rp_origin_groups (f r) = rp_origin_groups r" for f
    by (rule claims.follows_change, rule keeps_claims_report) (simp_all add: that)
  have m: "follows keeps_claims (change (\<lambda>s. on_report (f s) s) :: (unit, ('p, 'm, 'c) desk) task)"
    if "\<And>s r. rp_claims (f s r) = rp_claims r" "\<And>s r. rp_evidence (f s r) = rp_evidence r" "\<And>s r. rp_sources (f s r) = rp_sources r"
      "\<And>s r. rp_origin_groups (f s r) = rp_origin_groups r" for f
    by (rule claims.follows_change, rule keeps_claims_report) (simp_all add: that)
  have st: "follows keeps_claims (store (SaveCall r) :: (unit, ('p, 'm, 'c) desk) task)" for r
    unfolding store_def by (rule claims.follows_change) (simp add: keeps_claims_def)
  have c: "follows keeps_claims (close_clients errors :: (unit, ('p, 'm, 'c) desk) task)" for errors
    unfolding close_clients_def by (intro claims.follows_each claims.follows_seq claims.failure_follows r) simp_all
  show ?thesis unfolding conclude_def
    by (intro claims.follows_seq claims.follows_look claims.follows_demand claims.event_follows st c r m) simp_all
qed

lemma carry_out_claims:
  "valid nothing_claimed (carry_out off urls) (\<lambda>_. sound_desk (of_unicode off)) (\<lambda>_. sound_desk (of_unicode off))"
proof -
  let ?S = "sound_desk (of_unicode off)"
  have k: "valid ?S m (\<lambda>_. ?S) (\<lambda>_. ?S)" if "follows keeps_claims m" for m :: "(unit, ('p, 'm, 'c) desk) task"
    by (rule valid_kept [OF that]) (auto intro: kept_claims)
  have r: "follows keeps_claims (change (on_report f) :: (unit, ('p, 'm, 'c) desk) task)"
    if "\<And>r. rp_claims (f r) = rp_claims r" "\<And>r. rp_evidence (f r) = rp_evidence r" "\<And>r. rp_sources (f r) = rp_sources r"
      "\<And>r. rp_origin_groups (f r) = rp_origin_groups r" for f
    by (rule claims.follows_change, rule keeps_claims_report) (simp_all add: that)
  have cl: "follows keeps_claims (change (on_report classify) :: (unit, ('p, 'm, 'c) desk) task)"
    by (rule r) (simp_all add: classify_def Let_def)
  have "follows keeps_claims (fail_run why code :: (unit, ('p, 'm, 'c) desk) task)" for why code
    unfolding fail_run_def
    by (intro claims.follows_look claims.follows_seq claims.failure_follows r) (simp_all add: broken_off_def)
  then have "follows keeps_claims (settle_run off e)" for e
    unfolding settle_run_def
    by (cases e) (auto intro!: claims.follows_look claims.follows_if claims.follows_seq claims.event_follows r)
  then show ?thesis unfolding carry_out_def
    by (intro valid_attempt [where R = "\<lambda>_. ?S"] valid_seq [OF execute_claims] k cl)
qed

lemma run_claims:
  assumes "reviewed_log (dk_store s) = []" "research_run off q urls opened existing s = Some (Inr r, s')"
  shows "sound_report (of_unicode off) r
    \<and> (reviewed_log (dk_store s') \<noteq> [] \<longrightarrow> reviewed_log (dk_store s') = map claim_view (rp_claims r))"
proof -
  let ?S = "sound_desk (of_unicode off)"
  have b: "valid (\<lambda>s. reviewed_log (dk_store s) = []) (begin_run off q) (\<lambda>_. nothing_claimed) (\<lambda>_ _. True)"
    unfolding begin_run_def store_def event_def
    by (intro valid_seq [where R = "\<lambda>_. nothing_claimed"] valid_change) (auto simp: nothing_claimed_def new_report_def)
  have c: "valid ?S (conclude off) (\<lambda>_. ?S) (\<lambda>_ _. True)"
    by (rule valid_kept [OF conclude_follows]) (auto intro: kept_claims)
  have g: "valid ?S (look (\<lambda>s. give (dk_report s))) (\<lambda>r s. ?S s \<and> r = dk_report s) (\<lambda>_ _. True)"
    by (intro valid_look valid_give) auto
  have "valid (\<lambda>s. reviewed_log (dk_store s) = []) (research_run off q urls opened existing) (\<lambda>r s. ?S s \<and> r = dk_report s) (\<lambda>_ _. True)"
  proof (cases "of_public_text off q")
    case (Inr text')
    have o: "valid nothing_claimed (carry_out off urls) (\<lambda>_. ?S) (\<lambda>_ _. True)"
      by (rule valid_weaken [OF carry_out_claims]) simp_all
    show ?thesis unfolding research_run_def Inr sum.case
      by (intro valid_if valid_throw valid_seq [OF b] valid_seq [OF o] valid_seq [OF c] g) simp_all
  qed (auto simp: research_run_def intro: valid_throw)
  from validD [OF this assms] show ?thesis by (auto simp: sound_desk_def recorded_def)
qed

end

end
