(* ===== verification/Research_Report.thy ===== *)
theory Research_Report
  imports Research_Claims
begin

text \<open>
  What a research run ends with: which candidates it reads, the state and answerability of its report, that
  the report it returns is the one that was saved, and the properties of the whole run.
\<close>

section \<open>Choosing candidates\<close>

lemma unread_facts:
  "unread u keys cs = Some available \<Longrightarrow>
   set available \<subseteq> set cs \<and> (distinct cs \<longrightarrow> distinct available)
   \<and> (\<forall>c \<in> set available. \<exists>key. research_url u (c_url c) = Some key \<and> key \<notin> set keys)"
proof (induction cs arbitrary: available)
  case (Cons c cs)
  then obtain key r where k: "research_url u (c_url c) = Some key" "unread u keys cs = Some r"
    "available = (if key \<in> set keys then r else c # r)" by (auto split: option.splits)
  with Cons.IH [OF k(2)] show ?case by auto
qed simp

lemma fill_up_facts:
  "distinct selected \<Longrightarrow> int (length selected) \<le> target \<Longrightarrow>
   (\<exists>rest. fill_up target cs selected = selected @ rest) \<and> distinct (fill_up target cs selected)
   \<and> set (fill_up target cs selected) \<subseteq> set selected \<union> set cs
   \<and> int (length (fill_up target cs selected)) = min target (int (card (set selected \<union> set cs)))"
proof (induction cs arbitrary: selected)
  case Nil
  then show ?case by (simp add: distinct_card)
next
  case (Cons c cs)
  let ?s = "if c \<notin> set selected \<and> int (length selected) < target then selected @ [c] else selected"
  have IH: "(\<exists>rest. fill_up target cs ?s = ?s @ rest) \<and> distinct (fill_up target cs ?s)
      \<and> set (fill_up target cs ?s) \<subseteq> set ?s \<union> set cs
      \<and> int (length (fill_up target cs ?s)) = min target (int (card (set ?s \<union> set cs)))"
    using Cons.prems by (intro Cons.IH) auto
  have "min target (int (card (set ?s \<union> set cs))) = min target (int (card (set selected \<union> set (c # cs))))"
  proof (cases "c \<notin> set selected \<and> int (length selected) \<ge> target")
    case True
    have "length selected \<le> card (set selected \<union> set cs)" "length selected \<le> card (set selected \<union> set (c # cs))"
      using Cons.prems(1) by (metis distinct_card card_mono finite_set finite_UnI Un_upper1)+
    with True Cons.prems(2) show ?thesis by simp
  qed (auto simp: insert_absorb)
  with IH show ?case by (auto split: if_splits)
qed

lemma take_url_facts:
  "take_url others target url selected s = Some (Inr chosen, s') \<Longrightarrow> distinct selected \<Longrightarrow> int (length selected) \<le> target \<Longrightarrow>
   (\<exists>rest. chosen = selected @ rest) \<and> distinct chosen \<and> int (length chosen) \<le> target \<and> set chosen \<subseteq> set selected \<union> set others"
  by (auto simp: take_url_def by_url_def seq_def failure_def change_def event_def store_def give_def
      split: option.splits if_splits dest: find_row_SomeD)

lemma take_urls_facts:
  "each (take_url others target) urls selected s = Some (Inr chosen, s') \<Longrightarrow> distinct selected \<Longrightarrow> int (length selected) \<le> target \<Longrightarrow>
   (\<exists>rest. chosen = selected @ rest) \<and> distinct chosen \<and> int (length chosen) \<le> target \<and> set chosen \<subseteq> set selected \<union> set others"
proof (induction urls arbitrary: selected s)
  case (Cons url urls)
  then obtain sel s1 where one: "take_url others target url selected s = Some (Inr sel, s1)"
    "each (take_url others target) urls sel s1 = Some (Inr chosen, s')"
    by (auto simp: seq_def split: option.splits sum.splits)
  from take_url_facts [OF one(1) Cons.prems(2,3)] Cons.IH [OF one(2)] show ?case by fastforce
qed (simp add: give_def)

lemma seq_value: "seq m f s = Some (Inr y, s') \<Longrightarrow> \<exists>x s1. m s = Some (Inr x, s1) \<and> f x s1 = Some (Inr y, s')"
  by (auto simp: seq_def split: option.splits sum.splits)

lemma choose_facts:
  fixes s s' :: "('p, 'm, 'c) desk"
  assumes run: "choose_candidates off target available s = Some (Inr cs, s')" and d: "distinct available"
    and t: "0 \<le> target" "target \<le> int (length available)"
  shows "distinct cs \<and> set cs \<subseteq> set available \<and> int (length cs) = target
    \<and> (\<exists>rest. cs = take (nat target) (filter c_supplied available) @ rest)"
proof -
  define sel where "sel = take (nat target) (filter c_supplied available)"
  define others where "others = filter (\<lambda>c. c \<notin> set sel) available"
  have sel: "py_take target (filter c_supplied available) = sel" using t(1) by (simp add: py_take_def sel_def)
  have ds: "distinct sel" "int (length sel) \<le> target" "set sel \<subseteq> set available" using d t(1) by (auto simp: sel_def dest: in_set_takeD)
  have all: "set sel \<union> set others = set available" using ds(3) by (auto simp: others_def)
  show ?thesis
  proof (cases "others \<noteq> [] \<and> int (length sel) < target")
    case True
    then obtain urls chosen and s1 s2 :: "('p, 'm, 'c) desk" where a: "each (take_url others target) urls sel s1 = Some (Inr chosen, s2)"
      "cs = fill_up target others chosen"
      using run unfolding choose_candidates_def sel Let_def others_def [symmetric] look_def
      by (auto dest!: seq_value simp: give_def)
    have c: "(\<exists>rest. chosen = sel @ rest) \<and> distinct chosen \<and> int (length chosen) \<le> target \<and> set chosen \<subseteq> set sel \<union> set others"
      by (rule take_urls_facts [OF a(1) ds(1,2)])
    have f: "(\<exists>rest. cs = chosen @ rest) \<and> distinct cs \<and> set cs \<subseteq> set chosen \<union> set others
        \<and> int (length cs) = min target (int (card (set chosen \<union> set others)))"
      unfolding a(2) using c by (intro fill_up_facts) auto
    have "set sel \<subseteq> set chosen" using c by auto
    then have "set chosen \<union> set others = set available" using c all by blast
    with f c all t d show ?thesis by (auto simp: distinct_card sel_def [symmetric])
  next
    case False
    then have cs: "cs = sel" using run unfolding choose_candidates_def sel Let_def others_def [symmetric]
      by (auto simp: give_def split: if_splits)
    have "int (length sel) = target"
    proof (rule ccontr)
      assume n: "int (length sel) \<noteq> target"
      with False ds(2) have "others = []" by linarith
      then have "set available \<subseteq> set sel" by (auto simp: others_def filter_empty_conv)
      with ds(3) have "length sel = length available" using d ds(1) by (metis distinct_card subset_antisym)
      with n t ds(2) show False by linarith
    qed
    with cs ds show ?thesis by (auto simp: sel_def [symmetric])
  qed
qed

section \<open>The final state\<close>

definition settled_report :: "research_report \<Rightarrow> bool" where
  "settled_report r \<longleftrightarrow> rp_state r \<noteq> RunRunning
     \<and> (rp_state r = RunCompleted \<longrightarrow> list_ex usable_claim (rp_claims r) \<and> rp_failures r = [])
     \<and> (rp_state r = RunPartial \<longrightarrow> list_ex cl_checked (rp_claims r))
     \<and> (rp_state r = RunFailed \<longrightarrow> \<not> list_ex usable_claim (rp_claims r))"

lemma usable_checked: "list_ex usable_claim cs \<Longrightarrow> list_ex cl_checked cs"
  by (auto simp: list_ex_iff usable_claim_def)

lemma classify_settled: "settled_report (classify r)"
  by (auto simp: settled_report_def classify_def Let_def dest: usable_checked)

lemma broken_settled: "settled_report (add_note n (broken_off why r))" "settled_report (broken_off why r)"
  by (auto simp: settled_report_def broken_off_def add_note_def dest: usable_checked)

lemma carry_out_settled: "valid (\<lambda>_. True) (carry_out off urls) (\<lambda>_ s. settled_report (dk_report s)) (\<lambda>_ _. False)"
proof -
  have f: "valid (\<lambda>_. True) (fail_run why code) (\<lambda>_ s. settled_report (dk_report s)) (\<lambda>_ _. False)" for why code
    unfolding fail_run_def failure_def event_def store_def
    by (intro valid_look valid_seq [where R = "\<lambda>_ s. \<exists>r. dk_report s = broken_off why r"]
        valid_seq [where R = "\<lambda>_ s. settled_report (dk_report s)"] valid_change) (auto simp: broken_settled)
  have s: "valid (\<lambda>_. True) (settle_run off e) (\<lambda>_ s. settled_report (dk_report s)) (\<lambda>_ _. False)" for e
  proof -
    have "valid (\<lambda>_. True) (look (\<lambda>s. if of_expired off s then fail_run ''job_timeout'' (ascii ''job_timeout'')
        else seq (change (on_report (\<lambda>r. r\<lparr> rp_state := RunCancelled, rp_stop_reason := ''cancelled'' \<rparr>))) (\<lambda>_. event CancelRequested)))
        (\<lambda>_ s. settled_report (dk_report s)) (\<lambda>_ _. False)"
      unfolding event_def store_def
      by (intro valid_look valid_if valid_weaken [OF f] valid_seq [where R = "\<lambda>_ s. settled_report (dk_report s)"] valid_change)
        (auto simp: settled_report_def)
    then show ?thesis unfolding settle_run_def by (cases e) (simp_all add: f)
  qed
  have "valid (\<lambda>_. True) (execute off urls) (\<lambda>_ _. True) (\<lambda>_ _. True)" by (auto simp: valid_def split: option.split sum.split)
  then show ?thesis unfolding carry_out_def
    by (intro valid_attempt [OF valid_seq s]) (auto intro!: valid_change classify_settled)
qed

lemma close_settled:
  "valid (\<lambda>s. settled_report (dk_report s)) (close_clients errors) (\<lambda>_ s. settled_report (dk_report s)) (\<lambda>_ _. False)"
proof -
  let ?half = "\<lambda>r. rp_state r \<noteq> RunRunning \<and> (rp_state r = RunCompleted \<longrightarrow> list_ex usable_claim (rp_claims r))
     \<and> (rp_state r = RunPartial \<longrightarrow> list_ex cl_checked (rp_claims r)) \<and> (rp_state r = RunFailed \<longrightarrow> \<not> list_ex usable_claim (rp_claims r))"
  have "valid (\<lambda>s. settled_report (dk_report s)) (seq (failure ''cleanup'' (ascii name)) (\<lambda>_.
      change (on_report (\<lambda>r. if rp_state r = RunCompleted then r\<lparr> rp_state := RunPartial \<rparr> else r))))
      (\<lambda>_ s. settled_report (dk_report s)) (\<lambda>_ _. False)" for name
    unfolding failure_def event_def store_def
    by (intro valid_seq [where R = "\<lambda>_ s. ?half (dk_report s)"] valid_change)
      (auto simp: settled_report_def add_note_def dest: usable_checked)
  then show ?thesis unfolding close_clients_def
    by (intro valid_each [where I = "\<lambda>_ s. settled_report (dk_report s)"]) auto
qed

section \<open>What is saved\<close>

definition saved_reports :: "store_call list \<Rightarrow> research_report list" where
  "saved_reports = List.map_filter (\<lambda>x. case x of SaveCall r \<Rightarrow> Some r | _ \<Rightarrow> None)"

lemma saved_append [simp]: "saved_reports (xs @ ys) = saved_reports xs @ saved_reports ys"
  by (simp add: saved_reports_def List.map_filter_def)

lemma saved_one [simp]: "saved_reports [] = []" "saved_reports [Event e] = []" "saved_reports [StatusCall st why] = []" "saved_reports [SaveCall r] = [r]"
  by (simp_all add: saved_reports_def List.map_filter_simps)

definition keeps_saved :: "('p, 'm, 'c) desk \<Rightarrow> ('p, 'm, 'c) desk \<Rightarrow> bool" where
  "keeps_saved s s' \<longleftrightarrow> saved_reports (dk_store s') = saved_reports (dk_store s)"

lemma keeps_saved_report [simp]: "keeps_saved s (s\<lparr> dk_report := r \<rparr>)"
  by (simp add: keeps_saved_def)

context thrifty_office
begin

lemma saved_steps: "step_relation keeps_saved off"
  by unfold_locales (auto simp: keeps_saved_def event_def store_def failure_def follows_def change_def seq_def thrifty)

interpretation saved: step_relation keeps_saved off
  by (rule saved_steps)

lemma saved_execution: "execution_relation keeps_saved off (\<lambda>_. True)"
proof unfold_locales
  have key: "follows keeps_saved (change (\<lambda>s. s\<lparr> dk_budget := b_source_keys_update (add_key key) (dk_budget s) \<rparr>) :: (unit, ('p, 'm, 'c) desk) task)" for key
    by (rule saved.follows_change) (simp add: keeps_saved_def)
  have query: "follows keeps_saved (absorb_query off q () :: (unit, ('p, 'm, 'c) desk) task)" for q
    unfolding absorb_query_def
    by (rule saved.follows_seq, rule saved.follows_change, simp add: keeps_saved_def, rule saved.event_follows, simp)
  have fails: "follows keeps_saved (take_failures fs :: (unit, ('p, 'm, 'c) desk) task)" for fs
    unfolding take_failures_def by (rule saved.follows_change) simp
  show "follows keeps_saved (acquire_one off cand n)" for cand n
    by (rule saved.acquire_one_follows) simp
  show "follows keeps_saved (absorb_search off res)" if "0 \<le> u_search_requests (ss_usage res)" for res
    by (rule saved.absorb_search_parts [OF query fails that])
  show "follows keeps_saved (absorb_extract off res)" if "0 \<le> u_fetch_requests (es_usage res)" for res
    by (rule saved.absorb_extract_parts [OF saved.absorb_source_follows [OF _ key] fails that]) simp
  show "follows keeps_saved (finish_round k n :: (unit, ('p, 'm, 'c) desk) task)" for k n
    unfolding finish_round_def Let_def
    by (intro saved.follows_look saved.follows_seq saved.event_follows saved.follows_change) simp_all
  show "follows keeps_saved (examine off k)" for k
    by (rule saved.examine_parts) (simp_all add: event_def store_def follows_def change_def keeps_saved_def)
qed simp

lemma carry_out_saved: "follows keeps_saved (carry_out off urls)"
proof -
  have "follows keeps_saved (fail_run why code :: (unit, ('p, 'm, 'c) desk) task)" for why code
    unfolding fail_run_def by (intro saved.follows_look saved.follows_seq saved.failure_follows saved.follows_change) simp
  then have "follows keeps_saved (settle_run off e)" for e
    unfolding settle_run_def
    by (cases e) (auto intro!: saved.follows_look saved.follows_if saved.follows_seq saved.event_follows saved.follows_change)
  then show ?thesis unfolding carry_out_def
    by (intro saved.follows_attempt saved.follows_seq execution_relation.execute_follows [OF saved_execution]
        saved.follows_change) simp_all
qed

lemma conclude_outcome:
  "valid (\<lambda>s. settled_report (dk_report s) \<and> saved_reports (dk_store s) = old) (conclude off)
     (\<lambda>_ s. settled_report (dk_report s) \<and> rp_answerability (dk_report s) = answer_of (dk_report s)
        \<and> saved_reports (dk_store s) = old @ [dk_report s])
     (\<lambda>_ s. (settled_report (dk_report s) \<and> saved_reports (dk_store s) = old)
        \<and> (\<exists>src \<in> set (rp_sources (dk_report s)). ur_split (en_urls (of_env off)) (source_url src) = None))"
proof -
  let ?A = "\<lambda>s. settled_report (dk_report s) \<and> saved_reports (dk_store s) = old"
  let ?B = "\<lambda>s. ?A s \<and> rp_answerability (dk_report s) = answer_of (dk_report s)"
  have close: "valid ?A (close_clients errors :: (unit, ('p, 'm, 'c) desk) task) (\<lambda>_. ?A) (\<lambda>_ _. False)" for errors
  proof -
    have "follows keeps_saved (close_clients errors :: (unit, ('p, 'm, 'c) desk) task)"
      unfolding close_clients_def by (intro saved.follows_each saved.follows_seq saved.failure_follows saved.follows_change) simp
    from valid_with [OF close_settled this, of "\<lambda>s. saved_reports (dk_store s) = old"]
    show ?thesis by (simp add: keeps_saved_def)
  qed
  have split: "\<exists>src \<in> set srcs. ur_split u (source_url src) = None" if "domains u srcs = None" for u srcs
    using that by (induction srcs) (auto split: option.splits)
  have answer: "answer_of (r\<lparr> rp_finished_at := t, rp_answerability := a \<rparr>) = answer_of r"
    "answer_of (r\<lparr> rp_metrics := m, rp_activity_summary := x \<rparr>) = answer_of r"
    "settled_report (r\<lparr> rp_finished_at := t, rp_answerability := a \<rparr>) = settled_report r"
    "settled_report (r\<lparr> rp_metrics := m, rp_activity_summary := x \<rparr>) = settled_report r" for r t a m x
    by (simp_all add: answer_of_def settled_report_def Let_def)
  have demand: "valid (\<lambda>s. s = s0 \<and> ?B s) (demand (domains (en_urls (of_env off)) (rp_sources (dk_report s0)))) (\<lambda>_. ?B)
      (\<lambda>_ s. ?A s \<and> (\<exists>src \<in> set (rp_sources (dk_report s)). ur_split (en_urls (of_env off)) (source_url src) = None))" for s0
    unfolding demand_def by (cases "domains (en_urls (of_env off)) (rp_sources (dk_report s0))") (auto intro!: valid_throw valid_give dest: split)
  let ?E = "\<lambda>s. ?A s \<and> (\<exists>src \<in> set (rp_sources (dk_report s)). ur_split (en_urls (of_env off)) (source_url src) = None)"
  let ?Q = "\<lambda>s. settled_report (dk_report s) \<and> rp_answerability (dk_report s) = answer_of (dk_report s)
        \<and> saved_reports (dk_store s) = old @ [dk_report s]"
  have p1: "valid ?A (close_clients errors :: (unit, ('p, 'm, 'c) desk) task) (\<lambda>_. ?A) (\<lambda>_. ?E)" for errors
    by (rule valid_weaken [OF close]) auto
  have p2: "valid ?A (change (on_report (\<lambda>r. r\<lparr> rp_finished_at := t, rp_answerability := answer_of r \<rparr>))) (\<lambda>_. ?B) E" for t E
    by (rule valid_change) (simp add: answer)
  have p3: "valid ?B (change (\<lambda>s. s\<lparr> dk_report := (dk_report s)\<lparr> rp_metrics := m s, rp_activity_summary := a s \<rparr> \<rparr>)) (\<lambda>_. ?B) E" for m a E
    by (rule valid_change) (simp add: answer)
  have p4: "valid ?B (look (\<lambda>s. seq (event (Finished (rp_state (dk_report s)) (rp_stop_reason (dk_report s))))
      (\<lambda>_. store (SaveCall (dk_report s))))) (\<lambda>_. ?Q) E" for E
    unfolding event_def store_def
  proof (rule valid_look)
    fix s0
    show "valid (\<lambda>s. s = s0 \<and> ?B s) (seq (change (\<lambda>s. s\<lparr> dk_store := dk_store s
        @ [Event (Finished (rp_state (dk_report s0)) (rp_stop_reason (dk_report s0)))] \<rparr>))
        (\<lambda>_. change (\<lambda>s. s\<lparr> dk_store := dk_store s @ [SaveCall (dk_report s0)] \<rparr>))) (\<lambda>_. ?Q) E"
      by (rule valid_seq [where R = "\<lambda>_ s. ?B s \<and> dk_report s = dk_report s0"]; rule valid_change) auto
  qed
  show ?thesis unfolding conclude_def
    by (rule valid_seq [OF p1], rule valid_seq [OF p2], rule valid_look, rule valid_seq [OF demand], rule valid_seq [OF p3], rule p4)
qed

lemma run_outcome:
  assumes run: "research_run off q urls opened existing s = Some (res, s')"
    and ready: "of_public_text off q = Inr t" "\<not> opened" "existing = None"
  shows "case res of
      Inl e \<Rightarrow> saved_reports (dk_store s') = saved_reports (dk_store s)
        \<and> (\<exists>src \<in> set (rp_sources (dk_report s')). ur_split (en_urls (of_env off)) (source_url src) = None)
    | Inr r \<Rightarrow> settled_report r \<and> rp_answerability r = answer_of r \<and> saved_reports (dk_store s') = saved_reports (dk_store s) @ [r]"
proof -
  let ?old = "saved_reports (dk_store s)"
  let ?S = "\<lambda>s. saved_reports (dk_store s) = ?old"
  let ?E = "\<lambda>s. ?S s \<and> (\<exists>src \<in> set (rp_sources (dk_report s)). ur_split (en_urls (of_env off)) (source_url src) = None)"
  have b: "valid ?S (begin_run off q) (\<lambda>_. ?S) (\<lambda>_. ?E)"
    unfolding begin_run_def store_def event_def
    by (intro valid_seq [where R = "\<lambda>_. ?S"] valid_change) auto
  have c: "valid ?S (carry_out off urls) (\<lambda>_ s. settled_report (dk_report s) \<and> ?S s) (\<lambda>_. ?E)"
    by (rule valid_weaken [OF valid_with [OF carry_out_settled carry_out_saved, where I = ?S]]) (auto simp: keeps_saved_def)
  have d: "valid (\<lambda>s. settled_report (dk_report s) \<and> ?S s) (conclude off)
      (\<lambda>_ s. settled_report (dk_report s) \<and> rp_answerability (dk_report s) = answer_of (dk_report s)
         \<and> saved_reports (dk_store s) = ?old @ [dk_report s]) (\<lambda>_. ?E)"
    by (rule valid_weaken [OF conclude_outcome]) auto
  have "valid ?S (research_run off q urls opened existing)
      (\<lambda>r s. settled_report r \<and> rp_answerability r = answer_of r \<and> saved_reports (dk_store s) = ?old @ [r]) (\<lambda>_. ?E)"
    unfolding research_run_def ready(1) sum.case using ready(2,3)
    by simp (intro valid_seq [OF b] valid_seq [OF c] valid_seq [OF d] valid_look valid_give, simp)
  from validD [OF this _ run] show ?thesis by simp
qed

lemma run_spends: "follows desk_spends (execute off urls)"
  by (rule spending.execute_follows)

lemma whole_run_spends:
  assumes "research_run off q urls opened existing s = Some (res, s')"
  shows "spends (dk_budget s) (dk_budget s')"
proof -
  have report: "follows desk_spends (change (on_report f) :: (unit, ('p, 'm, 'c) desk) task)" for f
    by (rule spending_steps.follows_change) simp
  have fail: "follows desk_spends (fail_run why code :: (unit, ('p, 'm, 'c) desk) task)" for why code
    unfolding fail_run_def by (intro spending_steps.follows_look spending_steps.follows_seq report spending_steps.failure_follows)
  have settle: "follows desk_spends (settle_run off e)" for e
    unfolding settle_run_def
    by (cases e) (auto intro!: fail report spending_steps.follows_look spending_steps.follows_if spending_steps.follows_seq spending_steps.event_follows)
  have carry: "follows desk_spends (carry_out off urls)"
    unfolding carry_out_def by (intro spending_steps.follows_attempt spending_steps.follows_seq run_spends report settle)
  have close: "follows desk_spends (close_clients errors :: (unit, ('p, 'm, 'c) desk) task)" for errors
    unfolding close_clients_def by (intro spending_steps.follows_each spending_steps.follows_seq spending_steps.failure_follows report)
  have st: "follows desk_spends (store x :: (unit, ('p, 'm, 'c) desk) task)" for x
    unfolding store_def by (rule spending_steps.follows_change) (simp add: desk_spends_def)
  have ev: "follows desk_spends (event x :: (unit, ('p, 'm, 'c) desk) task)" for x
    unfolding event_def by (rule st)
  have conclude: "follows desk_spends (conclude off)"
    unfolding conclude_def
    by (intro spending_steps.follows_seq close report spending_steps.follows_look st ev following) (simp_all add: desk_spends_def)
  have begin_it: "follows desk_spends (begin_run off q)"
    unfolding begin_run_def by (intro spending_steps.follows_seq st ev spending_steps.follows_change) (simp add: desk_spends_def)
  have "follows desk_spends (research_run off q urls opened existing)"
    unfolding research_run_def
    by (cases "of_public_text off q") (auto intro!: spending_steps.follows_if spending_steps.follows_throw spending_steps.follows_seq
        begin_it carry conclude spending_steps.follows_look spending_steps.follows_give)
  with assms show ?thesis by (auto simp: follows_def desk_spends_def)
qed

end

end
