(* ===== verification/Research_Example.thy ===== *)
theory Research_Example
  imports Research_Report
begin

text \<open>
  A run on an example office, followed step by step, and the properties of a research run with their witnesses.
\<close>

section \<open>An example run\<close>

text \<open>Every query is refused as private; one page that the user supplied is read, and the one claim that is drawn
  from it is refuted by the review.\<close>

definition ex_address :: url_library where
  "ex_address = \<lparr> ur_split = (\<lambda>url. Some \<lparr> up_scheme = ''https'', up_netloc = url, up_path = ''/'', up_query = [],
       up_fragment = [], up_hostname = Some url, up_username = None, up_password = None, up_port = Some None \<rparr>),
     ur_unsplit = (\<lambda>_ netloc _ _. netloc), ur_parse_qsl = (\<lambda>_. []), ur_urlencode = (\<lambda>_. []), ur_lower = id \<rparr>"

definition ex_surroundings :: environment where
  "ex_surroundings = ex_search_env\<lparr> en_clock := (\<lambda>_. 0), en_urls := ex_address, en_validate_query := (\<lambda>_. Inl []),
     en_casefold := id, en_now := ''now'' \<rparr>"

definition ex_plan :: plan where
  "ex_plan = \<lparr> p_subquestions = [[97]], p_queries = [\<lparr> q_text = [97], q_role = Overview, q_reason = [97] \<rparr>,
     \<lparr> q_text = [98], q_role = PrimaryRole, q_reason = [97] \<rparr>, \<lparr> q_text = [99], q_role = Limitations, q_reason = [97] \<rparr>] \<rparr>"

definition ex_extraction :: extraction where
  "ex_extraction = \<lparr> xt_claims = [\<lparr> cp_text = ascii ''It has 30B'', cp_importance = Major,
     cp_evidence = [ex_proposal ''Has 30B''], cp_conditions = [], cp_uncertainty = [] \<rparr>], xt_gaps = [] \<rparr>"

definition ex_model_review :: model_review where
  "ex_model_review = \<lparr> rv_checks = [\<lparr> ck_id = ''R0-c001'', ck_status = Refuted, ck_reason = [97], ck_conditions = [],
     ck_uncertainty = [], ck_items = [\<lparr> ec_id = ''R0-e001'', ec_relation = Contradicts, ec_conditions_match = True,
       ec_primary = True, ec_reason = [97] \<rparr>], ck_inference = [] \<rparr>], rv_queries = [], rv_gaps = [] \<rparr>"

definition ex_language_model :: "unit language_model" where
  "ex_language_model = \<lparr> lm_plan = (\<lambda>_ _ b. Some (Inr ex_plan, b)), lm_select = (\<lambda>_ _ b. Some (Inr [], b)),
     lm_extract = (\<lambda>_ _ b. Some (Inr ex_extraction, b)), lm_review = (\<lambda>_ _ b. Some (Inr ex_model_review, b)),
     lm_context = None, lm_max_output = None, lm_schema = (\<lambda>_. []) \<rparr>"

definition ex_office :: "(budget, unit, unit) office" where
  "ex_office = \<lparr> of_env = ex_surroundings, of_unicode = ex_unicode,
     of_provider = \<lparr> pv_search = (\<lambda>_ _ b. (Inr [], b)), pv_budget = id, pv_set_budget = (\<lambda>b _. b), pv_diagnostic = (\<lambda>_. blank_diagnostic) \<rparr>,
     of_fetcher = (\<lambda>_ _ b. Some (Inr ex_source, b)), of_model = ex_language_model, of_collector = None, of_dumps = (\<lambda>_. []),
     of_public_text = Inr, of_expired = (\<lambda>_. False), of_close_errors = [], of_job_id = ''job'', of_profile_id = ''p'' \<rparr>"

definition ex_desk :: "(budget, unit, unit) desk" where
  "ex_desk = new_desk ex_office default_limits (new_budget (\<lambda>_. 0) default_limits) () ()"

lemma ex_office_thrifty: "office_within_budget ex_office"
  by (auto simp: ex_office_def office_within_budget_def model_within_budget_def asks_within_budget_def ex_language_model_def)

lemmas run_simps = seq_def give_def throw_def change_def look_def attempt_def demand_def budgeted_def 
   enter_stage_def event_def store_def failure_def add_note_def

lemma ex_office_parts: "of_env ex_office = ex_surroundings" "of_unicode ex_office = ex_unicode" "of_collector ex_office = None"
  "of_model ex_office = ex_language_model" "of_public_text ex_office = Inr" "of_close_errors ex_office = []"
  "of_fetcher ex_office = (\<lambda>_ _ b. Some (Inr ex_source, b))"
  "en_clock ex_surroundings = (\<lambda>_. 0)" "en_urls ex_surroundings = ex_address" "en_validate_query ex_surroundings = (\<lambda>_. Inl [])"
  "en_casefold ex_surroundings = id" "en_now ex_surroundings = ''now''"
  by (simp_all add: ex_office_def ex_surroundings_def)

lemma ex_model_parts: "lm_plan ex_language_model = (\<lambda>_ _ b. Some (Inr ex_plan, b))" "lm_extract ex_language_model = (\<lambda>_ _ b. Some (Inr ex_extraction, b))"
 "lm_review ex_language_model = (\<lambda>_ _ b. Some (Inr ex_model_review, b))" "lm_context ex_language_model = None"
 by (simp_all add: ex_language_model_def)

lemma still_clock: "b_limits b = default_limits \<Longrightarrow> b_started b = 0 \<Longrightarrow> check_time (\<lambda>_. 0) b = (Inr (), b_readings_update Suc b)"
  by (simp add: check_time_def remaining_seconds_def default_limits_def)

lemma ex_address_key: "research_url ex_address u = Some u"
  by (simp add: research_url_def ex_address_def)

lemma ranked_single: "length xs = 1 \<Longrightarrow> ranked_indexes xs = [0]"
  by (simp add: ranked_indexes_def)

lemma ex_text_not_blank: "strip (ascii ''Has  30B.'') \<noteq> []"
proof -
  have "ascii ''Has  30B.'' = [72, 97, 115, 32, 32, 51, 48, 66, 46]" by code_simp
  then show ?thesis by (simp add: strip_def py_space_def)
qed

lemma ex_selection: "select_passages ex_unicode [ex_source] q 24 = [ex_passage]"
proof -
  have u: "usable_passages [ex_source] = [ex_passage]"
    using ex_text_not_blank by (simp add: usable_passages_def ex_source_def ex_passage_def usable_source_def new_source_def)
  have "ranked_indexes (passage_scores ex_unicode q [ex_passage]) = [0]"
    by (rule ranked_single) (simp add: passage_scores_def Let_def)
  with u show ?thesis by (simp add: select_passages_def select_indexes_def Let_def)
qed

lemma ex_groups: "\<exists>g. group_origins ex_address [ex_source] = Some [g]"
  by (simp add: group_origins_def below_def Let_def find_root.simps)

definition ex_run_evidence :: evidence where
  "ex_run_evidence = new_evidence ''R0-e001'' (ex_proposal ''Has 30B'') ex_passage 0 8 WhitespaceNormalized"

definition ex_proposed :: claim_proposal where
  "ex_proposed = \<lparr> cp_text = ascii ''It has 30B'', cp_importance = Major,
     cp_evidence = [ex_proposal ''Has 30B''], cp_conditions = [], cp_uncertainty = [] \<rparr>"

definition ex_run_claim :: claim where
  "ex_run_claim = (new_claim ''R0-c001'' ex_proposed)\<lparr> cl_evidence_ids := [''R0-e001''] \<rparr>"

lemma ex_extraction_parts: "xt_claims ex_extraction = [ex_proposed]" "xt_gaps ex_extraction = []"
  by (simp_all add: ex_extraction_def ex_proposed_def)

lemma ex_validated: "validate_extraction (xt_claims ex_extraction) [ex_source] (round_prefix 0) = ([ex_run_claim], [ex_run_evidence], [])"
proof -
  have d: "dec 0 = ''0''" by code_simp
  have "numbered (round_prefix 0) ''e'' 1 = ''R0-e001''" "numbered (round_prefix 0) ''c'' 1 = ''R0-c001''"
    by (simp_all add: numbered_def round_prefix_def d) code_simp+
  then show ?thesis
    by (simp add: validate_extraction_def add_claim_def ex_proposed_def ex_extraction_parts ex_spans Let_def ex_run_evidence_def ex_run_claim_def new_claim_def)
qed

lemma ex_judged: "\<exists>c e. apply_review ex_unicode [ex_run_claim] [ex_run_evidence] (rv_checks ex_model_review) [g] = ([c], [e]) \<and> cl_checked c \<and> cl_status c = Refuted"
  by (simp add: review_simps ex_run_claim_def ex_run_evidence_def new_claim_def new_evidence_def ex_model_review_def ex_proposed_def ex_proposal_def)

lemma ex_source_kept: "found_by [] ex_source = ex_source" "read_in_round [ex_passage] ex_source = ex_source" "read_so_far [ex_passage] ex_source = ex_source"
  by (simp_all add: found_by_def ex_source_def new_source_def read_in_round_def ex_passage_def read_so_far_def py_unique_def)

definition ready :: "source list \<Rightarrow> (budget, unit, unit) desk \<Rightarrow> bool" where
  "ready srcs s \<longleftrightarrow> b_limits (dk_budget s) = default_limits \<and> b_started (dk_budget s) = 0 \<and> (\<forall>c. c \<noteq> MaxSources \<longrightarrow> b_counts (dk_budget s) c = 0)
     \<and> b_counts (dk_budget s) MaxSources = int (length srcs) \<and> length (b_source_keys (dk_budget s)) = length srcs
     \<and> rp_sources (dk_report s) = srcs \<and> rp_claims (dk_report s) = [] \<and> rp_evidence (dk_report s) = []
     \<and> rp_candidates (dk_report s) = []"

lemma ready_simps:
  "ready srcs (s\<lparr> dk_stage := st \<rparr>) = ready srcs s" "ready srcs (s\<lparr> dk_store := x \<rparr>) = ready srcs s"
  "ready srcs (s\<lparr> dk_candidates := cs \<rparr>) = ready srcs s" "ready srcs (s\<lparr> dk_extraction_ids := ids \<rparr>) = ready srcs s"
  by (simp_all add: ready_def)

lemma ready_time: "ready srcs s \<Longrightarrow> check_time (\<lambda>_. 0) (dk_budget s) = (Inr (), b_readings_update Suc (dk_budget s))"
  by (simp add: ready_def still_clock)

definition steady where "steady srcs m v \<longleftrightarrow> (\<forall>s. ready srcs s \<longrightarrow> (\<exists>s'. m s = Some (Inr v, s') \<and> ready srcs s' \<and> dk_candidates s' = dk_candidates s))"

lemma plan_step: "steady [] (plan_queries ex_office) (p_queries ex_plan)"
  unfolding steady_def plan_queries_def call_model_def checked_time_def
  by (auto simp: run_simps ex_office_parts ex_model_parts reduce_data_def ask_model_def ready_time ready_simps Let_def ex_plan_def query_key_def strip_def py_space_def) (auto simp: ready_def)

lemma steady_seq: "steady a m v \<Longrightarrow> steady a (f v) w \<Longrightarrow> steady a (seq m f) w"
  unfolding steady_def seq_def by fastforce

lemma gather_step: "steady a (gather ex_office qs) []"
proof -
  have one: "steady a (gather_one ex_office q xs) xs" for q xs
    unfolding steady_def gather_one_def checked_time_def
    by (auto simp: run_simps ex_office_parts ready_time) (auto simp: ready_def)
  have "steady a (each (gather_one ex_office) qs xs) xs" for xs
  proof (induction qs)
    case (Cons q qs)
    show ?case unfolding each.simps by (rule steady_seq [where v = xs]) (rule one, rule Cons.IH)
  qed (simp add: steady_def give_def)
  then show ?thesis by (simp add: gather_def)
qed

definition ex_supplied :: candidate where "ex_supplied = supplied_candidate ''now'' ''u''"

lemma ex_source_parts: "so_status ex_source = SOk" "so_passages ex_source = [ex_passage]" "so_source_id ex_source = ''s001''"
  by (simp_all add: ex_source_def new_source_def)

lemma supply_step: "ready a s \<Longrightarrow> dk_candidates s = [] \<Longrightarrow> \<exists>s'. add_supplied ex_office [''u''] [] s = Some (Inr [ex_supplied], s') \<and> ready a s'"
  by (simp add: add_supplied_def supply_one_def Let_def run_simps ex_office_parts ex_address_key ex_supplied_def ready_simps)

lemma acquire_step: "ready [] s \<Longrightarrow> \<exists>s'. acquire ex_office True [ex_supplied] s = Some (Inr 1, s') \<and> ready [ex_source] s'"
proof -
  assume r: "ready [] s"
  have "select_candidates ex_office True [ex_supplied] s = Some (Inr [ex_supplied], s)"
    using r by (auto simp: select_candidates_def run_simps ex_office_parts ex_address_key choose_candidates_def ready_def py_take_def default_limits_def ex_supplied_def supplied_candidate_def)
  moreover have "\<exists>s'. acquire_one ex_office ex_supplied 0 s = Some (Inr 1, s') \<and> ready [ex_source] s'"
    using r by (auto simp: acquire_one_def run_simps ex_office_parts ex_address_key ready_def py_take_def default_limits_def ex_supplied_def supplied_candidate_def checked_time_def
      take_source_def take_budget_def still_clock ask_fetcher_def Let_def ex_source_kept exhausting_error_def add_to_sources_def ex_source_parts)
  ultimately show ?thesis by (auto simp: acquire_def seq_def give_def)
qed

lemma ex_logged: "reviewed_log [Event (StageStarted x), Event (StageStarted y), Event (ClaimChecked i st b)] = [(i, st, b)]"
  by (simp add: reviewed_log_def List.map_filter_simps)

lemma examine_step: "ready [ex_source] s \<Longrightarrow> \<exists>s' c. examine ex_office 0 s = Some (Inr (Some ex_model_review), s') \<and> rp_claims (dk_report s') = [c]
   \<and> cl_checked c \<and> cl_status c = Refuted \<and> rp_sources (dk_report s') = [ex_source] \<and> reviewed_log (dk_store s') \<noteq> []"
proof -
  assume r: "ready [ex_source] s"
  obtain g where g: "group_origins ex_address [ex_source] = Some [g]" using ex_groups by blast
  obtain c e where rv: "apply_review ex_unicode [ex_run_claim] [ex_run_evidence] (rv_checks ex_model_review) [g] = ([c], [e])" "cl_checked c" "cl_status c = Refuted"
    using ex_judged by blast
  have b: "rp_sources (dk_report s) = [ex_source]" "rp_claims (dk_report s) = []" "selected_passages (limits_of s) = 24" 
     using r by (simp_all add: ready_def default_limits_def)
  have t: "check_time (\<lambda>_. 0) (b_readings_update Suc (dk_budget s)) = (Inr (), b_readings_update Suc (b_readings_update Suc (dk_budget s)))"
    using r by (simp add: ready_def still_clock)
  show ?thesis
    unfolding examine_def look_def Let_def b ex_office_parts ex_selection g
    by (simp add: Let_def extract_data_def review_data_def call_model_def checked_time_def run_simps ex_office_parts ex_model_parts reduce_data_def ask_model_def ready_time [OF r] t
      ex_source_kept ex_validated ex_logged repair_def examine_claims_def review_round_def failures_def b propose_def add_gaps_def take_over_def rv)
qed

lemma seq_run: "m s = Some (Inr x, s1) \<Longrightarrow> seq m f s = f x s1"
  by (simp add: seq_def)

lemma begin_step: "\<exists>s. begin_run ex_office [97] ex_desk = Some (Inr (), s) \<and> ready [] s \<and> dk_candidates s = []"
  by (simp add: begin_run_def run_simps ready_def ex_desk_def new_desk_def new_budget_def new_report_def ex_office_parts)

lemma execute_step: assumes "ready [] s" "dk_candidates s = []"
  shows "\<exists>s' c. execute ex_office [''u''] s = Some (Inr (), s') \<and> rp_claims (dk_report s') = [c]
   \<and> cl_checked c \<and> cl_status c = Refuted \<and> rp_sources (dk_report s') = [ex_source] \<and> reviewed_log (dk_store s') \<noteq> []"
proof -
  obtain s1 where s1: "plan_queries ex_office s = Some (Inr (p_queries ex_plan), s1)" "ready [] s1" "dk_candidates s1 = []"
    using plan_step assms unfolding steady_def by metis
  obtain s2 where s2: "gather ex_office (p_queries ex_plan) s1 = Some (Inr [], s2)" "ready [] s2" "dk_candidates s2 = []"
    using gather_step [of "[]" "p_queries ex_plan"] s1 unfolding steady_def by metis
  obtain s3 where s3: "add_supplied ex_office [''u''] [] s2 = Some (Inr [ex_supplied], s3)" "ready [] s3"
    using supply_step [OF s2(2,3)] by blast
  obtain s4 where s4: "acquire ex_office True [ex_supplied] s3 = Some (Inr 1, s4)" "ready [ex_source] s4"
    using acquire_step [OF s3(2)] by blast
  obtain s5 c where s5: "examine ex_office 0 s4 = Some (Inr (Some ex_model_review), s5)" "rp_claims (dk_report s5) = [c]" "cl_checked c"
    "cl_status c = Refuted" "rp_sources (dk_report s5) = [ex_source]" "reviewed_log (dk_store s5) \<noteq> []"
    using examine_step [OF s4(2)] by blast
  have q: "rv_queries ex_model_review = []" by (simp add: ex_model_review_def)
  show ?thesis unfolding execute_def ex_office_parts option.case execute_here_def
      seq_run [of "plan_queries ex_office", OF s1(1)] seq_run [of "gather ex_office (p_queries ex_plan)", OF s2(1)] seq_run [of "add_supplied ex_office [''u''] []", OF s3(1)]
      seq_run [of "acquire ex_office True [ex_supplied]", OF s4(1)] first_round_end_def seq_run [of "examine ex_office 0", OF s5(1)]
    by (simp add: finish_round_def Let_def stop_because_def run_simps q no_readable_sources_def s5 ex_source_parts)
qed

lemma ex_run: "\<exists>r s' c. research_run ex_office [97] [''u''] False None ex_desk = Some (Inr r, s') \<and> rp_claims r = [c]
   \<and> cl_checked c \<and> cl_status c = Refuted \<and> rp_sources r = [ex_source] \<and> reviewed_log (dk_store s') \<noteq> []"
proof -
  obtain s where s: "begin_run ex_office [97] ex_desk = Some (Inr (), s)" "ready [] s" "dk_candidates s = []" using begin_step by blast
  obtain s' c where s': "execute ex_office [''u''] s = Some (Inr (), s')" "rp_claims (dk_report s') = [c]" "cl_checked c" "cl_status c = Refuted"
    "rp_sources (dk_report s') = [ex_source]" "reviewed_log (dk_store s') \<noteq> []" using execute_step [OF s(2,3)] by blast
  have carry: "carry_out ex_office [''u''] s = Some (Inr (), on_report classify s')"
    using s'(1) by (simp add: carry_out_def attempt_def seq_def change_def)
  have split: "\<exists>p. ur_split ex_address x = Some p" for x by (simp add: ex_address_def)
  have "research_run ex_office [97] [''u''] False None ex_desk
      = seq (conclude ex_office) (\<lambda>_. look (\<lambda>s. give (dk_report s))) (on_report classify s')"
    by (simp add: research_run_def ex_office_parts seq_run [of "begin_run ex_office [97]", OF s(1)]
        seq_run [of "carry_out ex_office [''u'']", OF carry])
  then show ?thesis
    using s' split [of "source_url ex_source"]
    by (auto simp: ex_office_parts conclude_def close_clients_def classify_def Let_def run_simps)
qed

section \<open>Properties\<close>

text \<open>The research side reads exactly as many pages as it may. Choosing among fresh candidates returns
  different candidates that were found, whose addresses are well formed and not read before; there are as many
  of them as the round's target, the source budget that is left and the supply of unread candidates allow, and
  candidates that the user supplied come first. The answer of the model decides only which others fill the rest.\<close>

theorem selection_fills_the_target:
  assumes "select_candidates off is_first fresh s = Some (Inr chosen, s')" "distinct fresh"
    and "budget_ok (dk_budget s)" "valid_limits (limits_of s)"
  shows "\<exists>available. unread (en_urls (of_env off)) (b_source_keys (dk_budget s)) fresh = Some available
    \<and> distinct chosen \<and> set chosen \<subseteq> set available \<and> set available \<subseteq> set fresh
    \<and> int (length chosen) = min (if is_first then initial_sources (limits_of s) else 3)
        (min (max_sources (limits_of s) - int (length (b_source_keys (dk_budget s)))) (int (length available)))
    \<and> (\<exists>rest. chosen = take (length chosen) (filter c_supplied available) @ rest)"
proof -
  obtain available s1 where u: "unread (en_urls (of_env off)) (b_source_keys (dk_budget s)) fresh = Some available" "s1 = s"
    using assms(1) unfolding select_candidates_def look_def
    by (auto dest!: seq_value simp: demand_def throw_def give_def split: option.splits)
  let ?target = "min (if is_first then initial_sources (limits_of s) else 3)
        (min (max_sources (limits_of s) - int (length (b_source_keys (dk_budget s)))) (int (length available)))"
  have t: "0 \<le> ?target" using assms(3,4) unfolding budget_ok_def valid_limits_def
    by (smt (verit) limit_of.simps(3) of_nat_0_le_iff)
  have a: "set available \<subseteq> set fresh" "distinct available" using unread_facts [OF u(1)] assms(2) by auto
  have "distinct chosen \<and> set chosen \<subseteq> set available \<and> int (length chosen) = ?target
      \<and> (\<exists>rest. chosen = take (nat ?target) (filter c_supplied available) @ rest)"
  proof (cases "available = [] \<or> ?target = 0")
    case True
    then have "chosen = []" using assms(1) u(1) unfolding select_candidates_def look_def demand_def
      by (auto simp: seq_def give_def Let_def split: if_splits)
    with True t show ?thesis by auto
  next
    case False
    then have "choose_candidates off ?target available s = Some (Inr chosen, s')"
      using assms(1) u(1) unfolding select_candidates_def look_def demand_def
      by (simp add: seq_def give_def Let_def)
    from choose_facts [OF this a(2) t] show ?thesis by simp
  qed
  moreover from this have "nat ?target = length chosen" by linarith
  ultimately show ?thesis using u(1) a(1) by auto
qed

lemma earned_not_corroborated: "earned u [] evs c \<Longrightarrow> cl_status c \<noteq> Corroborated"
  using unknown_unconfirmed [of "[]"] by (auto simp: earned_def Let_def unknown_groups_def)

text \<open>Everything that a run asks of its surroundings is paid from the one budget of the job. Whatever way the run
  ends, no count of the budget is above its limit, none is below what it was, the limits are unchanged, and the
  keys of queries and sources that were taken are still taken. The hypothesis is what the two ways to search, fetch
  and ask a model promise: that they only spend; the interpretations of this development discharge it.\<close>

theorem research_stays_within_budget:
  assumes "office_within_budget off" and "research_run off q urls opened existing s = Some (res, s')" and "budget_ok (dk_budget s)"
  shows "budget_ok (dk_budget s') \<and> b_limits (dk_budget s') = b_limits (dk_budget s)
    \<and> (\<forall>c. b_counts (dk_budget s) c \<le> b_counts (dk_budget s') c \<and> b_counts (dk_budget s') c \<le> limit_of (b_limits (dk_budget s)) c)
    \<and> int (length (b_source_keys (dk_budget s'))) \<le> max_sources (b_limits (dk_budget s))"
proof -
  have s: "spends (dk_budget s) (dk_budget s')"
    by (rule thrifty_office.whole_run_spends [OF thrifty_office.intro [OF assms(1)] assms(2)])
  then have o: "budget_ok (dk_budget s')" "b_limits (dk_budget s') = b_limits (dk_budget s)" using assms(3) by (auto simp: spends_def)
  moreover have "int (length (b_source_keys (dk_budget s'))) \<le> limit_of (b_limits (dk_budget s)) MaxSources"
    using o unfolding budget_ok_def by (metis order_trans)
  ultimately show ?thesis using s by (auto simp: spends_def budget_ok_def)
qed

text \<open>C29. What a run reports is earned. Every evidence item of the final report quotes, character for character, the
  stretch from its recorded start to its recorded end of a passage of a usable source of the report, and every claim that the report calls supported, conflicting or
  refuted is backed by checked evidence of the report. Nothing that the answers of the model say can bring in
  a quotation that was not fetched. No claim is corroborated: the grouping of sources never establishes that two of
  them are independent.\<close>

theorem report_claims_are_earned:
  assumes "office_within_budget off" and "reviewed_log (dk_store s) = []"
    and "research_run off q urls opened existing s = Some (Inr r, s')"
  shows "(\<forall>ev \<in> set (rp_evidence r). cited (rp_sources r) ev)
    \<and> (\<forall>c \<in> set (rp_claims r). earned (of_unicode off) [] (rp_evidence r) c \<and> cl_status c \<noteq> Corroborated)"
proof -
  have "sound_report (of_unicode off) r"
    using thrifty_office.run_claims [OF thrifty_office.intro [OF assms(1)] assms(2,3)] by simp
  then show ?thesis by (auto simp: sound_report_def dest: earned_not_corroborated)
qed

text \<open>C30. A review that was logged is never lost or changed: when any claim was reviewed, the claims of the final report
  are exactly the reviewed ones of the log, in its order, with the status and the check the log names; in
  particular a second round that fails or is cut off keeps what the first one established.\<close>

theorem reviewed_claims_survive:
  assumes "office_within_budget off" and "reviewed_log (dk_store s) = []"
    and "research_run off q urls opened existing s = Some (Inr r, s')" and "reviewed_log (dk_store s') \<noteq> []"
  shows "map (\<lambda>c. (cl_id c, cl_status c, cl_checked c)) (rp_claims r) = reviewed_log (dk_store s')"
  using thrifty_office.run_claims [OF thrifty_office.intro [OF assms(1)] assms(2,3)] assms(4)
  by (simp add: claim_view_def [abs_def])

text \<open>C31. How a run ends. When the run returns, its report has a final state: completed only with a usable claim and
  no recorded failure, partial only with a checked claim, failed only without a usable one; answerability is
  computed from this state; and exactly this report was saved, once, as the last one. The run raises only
  when the address of a source of the report cannot be split, and then no report is saved.\<close>

theorem run_ends_settled:
  assumes "office_within_budget off" and "research_run off q urls False None s = Some (res, s')" and "of_public_text off q = Inr t"
  shows "case res of
      Inl e \<Rightarrow> saved_reports (dk_store s') = saved_reports (dk_store s)
        \<and> (\<exists>src \<in> set (rp_sources (dk_report s')). ur_split (en_urls (of_env off)) (source_url src) = None)
    | Inr r \<Rightarrow> rp_state r \<noteq> RunRunning
        \<and> (rp_state r = RunCompleted \<longrightarrow> list_ex usable_claim (rp_claims r) \<and> rp_failures r = [])
        \<and> (rp_state r = RunPartial \<longrightarrow> list_ex cl_checked (rp_claims r))
        \<and> (rp_state r = RunFailed \<longrightarrow> \<not> list_ex usable_claim (rp_claims r))
        \<and> rp_answerability r = answer_of r \<and> saved_reports (dk_store s') = saved_reports (dk_store s) @ [r]"
  using thrifty_office.run_outcome [OF thrifty_office.intro [OF assms(1)] assms(2) assms(3)]
  by (auto simp: settled_report_def split: sum.splits)

section \<open>Witnesses\<close>

lemma ex_desk_limits: "limits_of ex_desk = default_limits"
  by (simp add: ex_desk_def new_desk_def new_budget_def)

lemma ex_desk_valid: "valid_limits (limits_of ex_desk)"
  unfolding ex_desk_limits by (simp add: default_limits_def valid_limits_def)

lemma ex_desk_parts: "reviewed_log (dk_store ex_desk) = []" "saved_reports (dk_store ex_desk) = []" "b_source_keys (dk_budget ex_desk) = []"
  by (simp_all add: ex_desk_def new_desk_def new_budget_def reviewed_log_def saved_reports_def List.map_filter_simps)

lemma ex_desk_budget: "budget_ok (dk_budget ex_desk)"
proof -
  have "0 \<le> limit_of default_limits c" for c by (cases c) (simp_all add: default_limits_def)
  then show ?thesis by (simp add: budget_ok_def ex_desk_def new_desk_def new_budget_def)
qed

theorem selection_fills_the_target_witness:
  "\<exists>s' chosen. select_candidates ex_office True [ex_supplied] ex_desk = Some (Inr chosen, s') \<and> length chosen = 1"
proof -
  have u: "unread ex_address [] [ex_supplied] = Some [ex_supplied]" by (simp add: ex_address_key)
  have run: "select_candidates ex_office True [ex_supplied] ex_desk = Some (Inr [ex_supplied], ex_desk)"
    by (auto simp: select_candidates_def run_simps ex_office_parts ex_desk_parts ex_desk_limits ex_address_key choose_candidates_def py_take_def
        default_limits_def ex_supplied_def supplied_candidate_def)
  have "int (length [ex_supplied]) = min (initial_sources (limits_of ex_desk))
      (min (max_sources (limits_of ex_desk) - int (length (b_source_keys (dk_budget ex_desk)))) 1)"
    using selection_fills_the_target [OF run _ ex_desk_budget ex_desk_valid] u by (auto simp: ex_office_parts ex_desk_parts)
  with run show ?thesis by simp
qed

theorem research_stays_within_budget_witness:
  "\<exists>r s'. research_run ex_office [97] [''u''] False None ex_desk = Some (Inr r, s')
     \<and> b_counts (dk_budget s') ModelRequests \<le> 40"
proof -
  obtain r s' where run: "research_run ex_office [97] [''u''] False None ex_desk = Some (Inr r, s')" using ex_run by blast
  have "b_counts (dk_budget s') ModelRequests \<le> limit_of (limits_of ex_desk) ModelRequests"
    using research_stays_within_budget [OF ex_office_thrifty run ex_desk_budget] by blast
  with run show ?thesis by (auto simp: ex_desk_limits default_limits_def)
qed

theorem report_claims_are_earned_witness:
  "\<exists>r s' c ev. research_run ex_office [97] [''u''] False None ex_desk = Some (Inr r, s') \<and> rp_claims r = [c]
     \<and> cl_status c = Refuted \<and> ev \<in> set (rp_evidence r) \<and> opposes c ev \<and> cited [ex_source] ev"
proof -
  obtain r s' c where run: "research_run ex_office [97] [''u''] False None ex_desk = Some (Inr r, s')" "rp_claims r = [c]" "cl_status c = Refuted"
    "rp_sources r = [ex_source]" using ex_run by blast
  have "(\<forall>ev \<in> set (rp_evidence r). cited [ex_source] ev) \<and> earned ex_unicode [] (rp_evidence r) c"
    using report_claims_are_earned [OF ex_office_thrifty ex_desk_parts(1) run(1)] run by (simp add: ex_office_parts)
  moreover from this run(3) obtain ev where "ev \<in> set (rp_evidence r)" "opposes c ev"
    by (auto simp: earned_def Let_def filter_empty_conv)
  ultimately show ?thesis using run by blast
qed

theorem reviewed_claims_survive_witness:
  "\<exists>r s' c. research_run ex_office [97] [''u''] False None ex_desk = Some (Inr r, s') \<and> rp_claims r = [c]
     \<and> reviewed_log (dk_store s') = [(cl_id c, Refuted, True)]"
proof -
  obtain r s' c where run: "research_run ex_office [97] [''u''] False None ex_desk = Some (Inr r, s')" "rp_claims r = [c]" "cl_status c = Refuted"
    "cl_checked c" "reviewed_log (dk_store s') \<noteq> []"
    using ex_run by blast
  from reviewed_claims_survive [OF ex_office_thrifty ex_desk_parts(1) run(1,5)] run show ?thesis by auto
qed

theorem run_ends_settled_witness:
  "\<exists>r s'. research_run ex_office [97] [''u''] False None ex_desk = Some (Inr r, s')
     \<and> saved_reports (dk_store s') = [r] \<and> rp_state r \<in> {RunCompleted, RunPartial, RunCancelled}"
proof -
  obtain r s' c where run: "research_run ex_office [97] [''u''] False None ex_desk = Some (Inr r, s')" "rp_claims r = [c]" "cl_status c = Refuted"
    "cl_checked c" using ex_run by blast
  have "usable_claim c" using run by (simp add: usable_claim_def)
  with run_ends_settled [OF ex_office_thrifty run(1), of "[97]"] run show ?thesis
    by (cases "rp_state r") (auto simp: ex_office_parts ex_desk_parts)
qed

end
