(* ===== verification/Config.thy ===== *)
theory Config
  imports Fetch Contracts
begin

text \<open>
  \<open>config.py\<close>: the services a process may talk to, and with which credentials. The process environment
  is a parameter, as are the splitting of URLs and the registry of addresses; YAML is read outside the model, so
  a configuration is given as the fields that were written, \<open>None\<close> where a field was left out.
\<close>

section \<open>Errors and small parts\<close>

text \<open>\<open>ConfigurationError\<close> by its cause, with the name of what is not configured; \<open>InvalidField\<close> is a failed
  validation of a model, \<open>Malformed\<close> a bare \<open>ValueError\<close>.\<close>

datatype config_error =
    BadServiceUrl
  | PublicEndpoint
  | InsecureEndpoint
  | NotConfigured string
  | KeyDestination
  | KeyCharacters
  | BadToken
  | InvalidField string
  | Malformed

text \<open>\<open>os.environ.get\<close>, and what \<open>ipaddress\<close> says of an address.\<close>

record surroundings =
  su_environ :: "string \<Rightarrow> string option"
  su_urls :: url_library
  su_addresses :: address_library
  su_loopback :: "ip \<Rightarrow> bool"
  su_private :: "ip \<Rightarrow> bool"

text \<open>\<open>s.rstrip("/")\<close>.\<close>

definition rstrip_slashes :: "string \<Rightarrow> string" where
  "rstrip_slashes s = rev (dropWhile ((=) CHR ''/'') (rev s))"

definition upper_letter :: "char \<Rightarrow> bool" where
  "upper_letter c \<longleftrightarrow> 65 \<le> (of_char c :: nat) \<and> (of_char c :: nat) \<le> 90"

definition lower_letter :: "char \<Rightarrow> bool" where
  "lower_letter c \<longleftrightarrow> 97 \<le> (of_char c :: nat) \<and> (of_char c :: nat) \<le> 122"

text \<open>\<open>[A-Za-z_][A-Za-z0-9_]*\<close>.\<close>

definition env_name :: "string \<Rightarrow> bool" where
  "env_name s \<longleftrightarrow> s \<noteq> [] \<and> (upper_letter (hd s) \<or> lower_letter (hd s) \<or> hd s = CHR ''_'')
     \<and> list_all (\<lambda>c. upper_letter c \<or> lower_letter c \<or> decimal_char c \<or> c = CHR ''_'') s"

text \<open>\<open>[a-z0-9][a-z0-9._-]{2,79}\<close>.\<close>

definition worker_name :: "string \<Rightarrow> bool" where
  "worker_name s \<longleftrightarrow> 3 \<le> length s \<and> length s \<le> 80 \<and> (lower_letter (hd s) \<or> decimal_char (hd s))
     \<and> list_all (\<lambda>c. lower_letter c \<or> decimal_char c \<or> c \<in> {CHR ''.'', CHR ''_'', CHR ''-''}) s"

section \<open>Service addresses\<close>

definition service_url :: "url_library \<Rightarrow> string \<Rightarrow> config_error + string" where
  "service_url u value =
     (case ur_split u value of
        None \<Rightarrow> Inl BadServiceUrl
      | Some p \<Rightarrow>
          if \<not> web_scheme (up_scheme p) \<or> \<not> present (up_hostname p) \<or> present (up_username p) \<or> present (up_password p)
             \<or> up_query p \<noteq> [] \<or> up_fragment p \<noteq> []
          then Inl BadServiceUrl
          else (case up_port p of
                  None \<Rightarrow> Inl BadServiceUrl
                | Some port \<Rightarrow>
                    if (port = None \<or> port = Some 0) \<and> suffix_of '':'' value then Inl BadServiceUrl
                    else Inr (rstrip_slashes value)))"

definition local_suffix :: "string \<Rightarrow> bool" where
  "local_suffix h \<longleftrightarrow> suffix_of ''.local'' h \<or> suffix_of ''.lan'' h \<or> suffix_of ''.internal'' h"

text \<open>Whether a host counts as this machine, and whether it counts as private.\<close>

definition host_loopback :: "surroundings \<Rightarrow> string \<Rightarrow> bool" where
  "host_loopback su h = (case al_parse (su_addresses su) h of Some a \<Rightarrow> su_loopback su a | None \<Rightarrow> h = ''localhost'')"

definition host_private :: "surroundings \<Rightarrow> string \<Rightarrow> bool" where
  "host_private su h =
     (case al_parse (su_addresses su) h of
        Some a \<Rightarrow> su_private su a
      | None \<Rightarrow> h = ''localhost'' \<or> CHR ''.'' \<notin> set h \<or> local_suffix h)"

definition manager_service_url :: "surroundings \<Rightarrow> string \<Rightarrow> bool \<Rightarrow> bool \<Rightarrow> config_error + string" where
  "manager_service_url su value allow_remote_api allow_insecure_http =
     (case service_url (su_urls su) value of
        Inl e \<Rightarrow> Inl e
      | Inr url \<Rightarrow>
          (case ur_split (su_urls su) url of
             None \<Rightarrow> Inl Malformed
           | Some p \<Rightarrow>
               let h = or_else (up_hostname p) [] in
               if \<not> host_private su h \<and> \<not> allow_remote_api then Inl PublicEndpoint
               else if up_scheme p = ''http'' \<and> \<not> host_loopback su h \<and> \<not> allow_insecure_http then Inl InsecureEndpoint
               else Inr url))"

text \<open>\<open>_resolve\<close>.\<close>

definition resolve_value :: "surroundings \<Rightarrow> string option \<Rightarrow> string option \<Rightarrow> string \<Rightarrow> config_error + string" where
  "resolve_value su value env label =
     (let resolved = (if present env then or_else (su_environ su (the env)) [] else or_else value []) in
      if strip_chars resolved = [] then Inl (NotConfigured label) else Inr (strip_chars resolved))"

section \<open>The search service\<close>

datatype search_kind = SearxngSearch | TavilySearch

record search_service = search_config +
  sv_provider :: search_kind
  sv_base_url :: "string option"
  sv_base_url_env :: "string option"
  sv_api_key_env :: "string option"
  sv_timeout :: real

text \<open>The fields as they were given, \<open>None\<close> for a field left out.\<close>

record search_fields =
  sd_provider :: search_kind
  sd_base_url :: "string option"
  sd_base_url_env :: "string option"
  sd_api_key_env :: "string option"
  sd_engine :: "string option"
  sd_language :: string
  sd_max_results :: nat
  sd_timeout :: real
  sd_retries :: "nat option"
  sd_response_bytes :: int
  sd_max_credits :: nat

definition engine_name :: "string \<Rightarrow> bool" where
  "engine_name s \<longleftrightarrow> 1 \<le> length s \<and> length s \<le> 80
     \<and> list_all (\<lambda>c. upper_letter c \<or> lower_letter c \<or> decimal_char c \<or> c \<in> {CHR '' '', CHR ''_'', CHR ''-''}) s"

definition both_given :: "string option \<Rightarrow> string option \<Rightarrow> bool" where
  "both_given value env \<longleftrightarrow> present value \<and> present env"

definition bad_reference :: "string option list \<Rightarrow> bool" where
  "bad_reference names = list_ex (\<lambda>n. case n of Some s \<Rightarrow> \<not> env_name s | None \<Rightarrow> False) names"

text \<open>The service with the default of each field that was left out.\<close>

definition service_of :: "search_fields \<Rightarrow> search_service" where
  "service_of f =
     \<lparr> sc_engine = or_else (sd_engine f) ''duckduckgo'', sc_language = sd_language f, sc_max_results = sd_max_results f,
       sc_retries = or_else (sd_retries f) 1, sc_response_bytes = sd_response_bytes f, sc_max_credits = sd_max_credits f,
       sv_provider = sd_provider f, sv_base_url = sd_base_url f, sv_base_url_env = sd_base_url_env f,
       sv_api_key_env = sd_api_key_env f, sv_timeout = sd_timeout f \<rparr>"

definition search_fields_ok :: "search_service \<Rightarrow> bool" where
  "search_fields_ok s \<longleftrightarrow> valid_search_config (search_config.truncate s) \<and> engine_name (sc_engine s)
     \<and> 0 < sv_timeout s \<and> sv_timeout s \<le> 120"

text \<open>\<open>SearchConfig.consistent\<close>.\<close>

definition search_consistent :: "search_fields \<Rightarrow> search_service \<Rightarrow> config_error + search_service" where
  "search_consistent f s =
     (if both_given (sv_base_url s) (sv_base_url_env s) then Inl (InvalidField ''base_url'')
      else if bad_reference [sv_base_url_env s, sv_api_key_env s] then Inl (InvalidField ''env'')
      else if sv_provider s = TavilySearch then
        (if sd_engine f \<noteq> None \<and> sc_engine s \<noteq> ''tavily'' then Inl (InvalidField ''engine'')
         else
           let s' = s\<lparr> sc_engine := ''tavily'', sc_retries := (if sd_retries f = None then 0 else sc_retries s) \<rparr> in
           if sc_retries s' \<noteq> 0 then Inl (InvalidField ''retries'')
           else Inr (s'\<lparr> sv_api_key_env := (if present (sv_api_key_env s') then sv_api_key_env s' else Some ''TAVILY_API_KEY'') \<rparr>))
      else if present (sv_api_key_env s) then Inl (InvalidField ''api_key_env'')
      else Inr s)"

definition search_service_of :: "search_fields \<Rightarrow> config_error + search_service" where
  "search_service_of f =
     (if search_fields_ok (service_of f) then search_consistent f (service_of f) else Inl (InvalidField ''search''))"

definition tavily_home :: string where
  "tavily_home = ''https://api.tavily.com''"

definition search_endpoint :: "surroundings \<Rightarrow> search_service \<Rightarrow> config_error + string" where
  "search_endpoint su s =
     (if sv_provider s = TavilySearch then
        (case (if present (sv_base_url s) \<or> present (sv_base_url_env s)
               then resolve_value su (sv_base_url s) (sv_base_url_env s) ''Tavily base URL'' else Inr tavily_home) of
           Inl e \<Rightarrow> Inl e
         | Inr value \<Rightarrow> if rstrip_slashes value \<noteq> tavily_home then Inl KeyDestination else Inr tavily_home)
      else
        (case resolve_value su (sv_base_url s) (sv_base_url_env s) ''SearXNG base URL'' of
           Inl e \<Rightarrow> Inl e
         | Inr value \<Rightarrow> service_url (su_urls su) value))"

text \<open>A key is sent in a header: printable ASCII without white space.\<close>

definition key_char :: "char \<Rightarrow> bool" where
  "key_char c \<longleftrightarrow> (of_char c :: nat) < 128 \<and> \<not> py_space (of_char c) \<and> 33 \<le> (of_char c :: nat) \<and> (of_char c :: nat) \<le> 126"

definition resolve_api_key :: "surroundings \<Rightarrow> search_service \<Rightarrow> config_error + string option" where
  "resolve_api_key su s =
     (if sv_provider s \<noteq> TavilySearch then Inr None
      else (case resolve_value su None (sv_api_key_env s) ''Tavily API key'' of
              Inl e \<Rightarrow> Inl e
            | Inr key \<Rightarrow> if list_all key_char key then Inr (Some key) else Inl KeyCharacters))"

section \<open>Language models\<close>

datatype family = Qwen | Deepseek
datatype output_mode = ToolOutput | NativeJson | PromptedJson
datatype max_tokens_parameter = MaxCompletionTokens | MaxTokens
datatype effort = NoEffort | MinimalEffort | LowEffort | MediumEffort | HighEffort

record model_profile =
  mp_family :: family
  mp_base_url :: "string option"
  mp_base_url_env :: "string option"
  mp_model_id :: "string option"
  mp_model_id_env :: "string option"
  mp_api_key_env :: "string option"
  mp_output_mode :: output_mode
  mp_allow_remote_api :: bool
  mp_context_tokens :: nat
  mp_max_output_tokens :: nat
  mp_timeout :: real
  mp_schema_retries :: nat
  mp_temperature :: "real option"
  mp_top_p :: "real option"
  mp_enable_thinking :: "bool option"
  mp_reasoning_effort :: "effort option"
  mp_strict_tools :: bool
  mp_supports_json_object :: bool
  mp_multiple_system_messages :: bool
  mp_max_tokens_parameter :: max_tokens_parameter

text \<open>The bounds of the fields and \<open>ModelProfile.consistent\<close>.\<close>

definition in_range :: "real option \<Rightarrow> (real \<Rightarrow> bool) \<Rightarrow> bool" where
  "in_range x ok = (case x of Some r \<Rightarrow> ok r | None \<Rightarrow> True)"

definition profile_fields_ok :: "model_profile \<Rightarrow> bool" where
  "profile_fields_ok p \<longleftrightarrow> 2048 \<le> mp_context_tokens p \<and> mp_context_tokens p \<le> 1000000
     \<and> 128 \<le> mp_max_output_tokens p \<and> mp_max_output_tokens p \<le> 32768 \<and> 0 < mp_timeout p \<and> mp_timeout p \<le> 600
     \<and> mp_schema_retries p \<le> 1 \<and> in_range (mp_temperature p) (\<lambda>x. 0 \<le> x \<and> x \<le> 2) \<and> in_range (mp_top_p p) (\<lambda>x. 0 < x \<and> x \<le> 1)"

definition profile_consistent :: "model_profile \<Rightarrow> config_error + model_profile" where
  "profile_consistent p =
     (if \<not> profile_fields_ok p then Inl (InvalidField ''profile'')
      else if mp_context_tokens p \<le> mp_max_output_tokens p then Inl (InvalidField ''max_output_tokens'')
      else if both_given (mp_base_url p) (mp_base_url_env p) \<or> both_given (mp_model_id p) (mp_model_id_env p)
      then Inl (InvalidField ''base_url'')
      else if bad_reference [mp_base_url_env p, mp_model_id_env p, mp_api_key_env p] then Inl (InvalidField ''env'')
      else Inr p)"

record resolved_profile =
  rs_profile :: model_profile
  rs_base_url :: string
  rs_model_id :: string
  rs_api_key :: string

text \<open>\<open>ModelProfile.resolve\<close>.\<close>

definition model_host_local :: "surroundings \<Rightarrow> string \<Rightarrow> bool" where
  "model_host_local su h =
     (case al_parse (su_addresses su) h of
        Some a \<Rightarrow> su_private su a \<or> su_loopback su a
      | None \<Rightarrow> CHR ''.'' \<notin> set h \<or> local_suffix h)"

definition resolve_profile :: "surroundings \<Rightarrow> model_profile \<Rightarrow> config_error + resolved_profile" where
  "resolve_profile su p =
     (case resolve_value su (mp_base_url p) (mp_base_url_env p) ''model base URL'' of
        Inl e \<Rightarrow> Inl e
      | Inr value \<Rightarrow>
     (case service_url (su_urls su) value of
        Inl e \<Rightarrow> Inl e
      | Inr base_url \<Rightarrow>
     (case ur_split (su_urls su) base_url of
        None \<Rightarrow> Inl Malformed
      | Some parts \<Rightarrow>
          if \<not> model_host_local su (or_else (up_hostname parts) []) \<and> \<not> mp_allow_remote_api p then Inl PublicEndpoint
          else
     (case (if present (mp_api_key_env p) then resolve_value su None (mp_api_key_env p) ''model API key'' else Inr ''local-no-key'') of
        Inl e \<Rightarrow> Inl e
      | Inr key \<Rightarrow>
     (case resolve_value su (mp_model_id p) (mp_model_id_env p) ''model ID'' of
        Inl e \<Rightarrow> Inl e
      | Inr i \<Rightarrow> Inr \<lparr> rs_profile = p, rs_base_url = base_url, rs_model_id = i, rs_api_key = key \<rparr>)))))"

section \<open>The manager and its clients\<close>

text \<open>What \<open>RemoteConfig\<close> and \<open>WorkerServiceConfig\<close> share: the manager to talk to and the credential for it.\<close>

record manager_link =
  ml_manager_url :: string
  ml_credential_env :: string
  ml_allow_remote_api :: bool
  ml_allow_insecure_http :: bool

definition manager_endpoint :: "surroundings \<Rightarrow> manager_link \<Rightarrow> config_error + string" where
  "manager_endpoint su l = manager_service_url su (ml_manager_url l) (ml_allow_remote_api l) (ml_allow_insecure_http l)"

definition link_credential :: "surroundings \<Rightarrow> manager_link \<Rightarrow> config_error + string" where
  "link_credential su l = resolve_value su None (Some (ml_credential_env l)) ''credential''"

record remote_config = manager_link +
  rc_target_worker_id :: string
  rc_poll_interval :: real
  rc_max_wait :: real
  rc_deadline :: real

definition remote_config_ok :: "remote_config \<Rightarrow> bool" where
  "remote_config_ok c \<longleftrightarrow> env_name (ml_credential_env c) \<and> worker_name (rc_target_worker_id c)
     \<and> 0 < rc_poll_interval c \<and> rc_poll_interval c \<le> 60 \<and> 0 < rc_max_wait c \<and> rc_max_wait c \<le> 7200
     \<and> 0 < rc_deadline c \<and> rc_deadline c \<le> 3600"

record observer_config =
  ob_token_env :: string
  ob_guild_channels :: "(string \<times> string list) list"
  ob_read_content :: bool
  ob_operators :: "string list"

definition channel_count :: "observer_config \<Rightarrow> nat" where
  "channel_count c = sum_list (map (length \<circ> snd) (ob_guild_channels c))"

text \<open>The field bounds and \<open>DiscordObserverConfig.explicit_scope\<close>; a mapping has each key once.\<close>

definition observer_config_ok :: "observer_config \<Rightarrow> bool" where
  "observer_config_ok c \<longleftrightarrow> env_name (ob_token_env c) \<and> list_all (\<lambda>(g, cs). snowflake g \<and> list_all snowflake cs) (ob_guild_channels c)
     \<and> list_all snowflake (ob_operators c) \<and> length (ob_operators c) \<le> 100 \<and> distinct (map fst (ob_guild_channels c))
     \<and> ob_guild_channels c \<noteq> [] \<and> 1 \<le> channel_count c \<and> channel_count c \<le> 30
     \<and> list_all (\<lambda>(g, cs). cs \<noteq> [] \<and> distinct cs) (ob_guild_channels c)"

definition observer_capabilities :: "observer_config \<Rightarrow> string list" where
  "observer_capabilities c = ''discord.observe'' #
     concat (map (\<lambda>(g, cs). map (observation_capability g) cs) (ob_guild_channels c))"

definition token_char :: "char \<Rightarrow> bool" where
  "token_char c \<longleftrightarrow> upper_letter c \<or> lower_letter c \<or> decimal_char c \<or> c \<in> {CHR ''_'', CHR ''.'', CHR ''-''}"

definition observer_token :: "surroundings \<Rightarrow> observer_config \<Rightarrow> config_error + string" where
  "observer_token su c =
     (case resolve_value su None (Some (ob_token_env c)) ''Discord observer token'' of
        Inl e \<Rightarrow> Inl e
      | Inr v \<Rightarrow> if \<not> (20 \<le> length v \<and> length v \<le> 256) \<or> \<not> list_all token_char v then Inl BadToken else Inr v)"

record worker_service_config = manager_link +
  wc_worker_id :: string
  wc_search :: search_service
  wc_observer :: "observer_config option"
  wc_heartbeat_interval :: real
  wc_poll_interval :: real

definition worker_service_config_ok :: "worker_service_config \<Rightarrow> bool" where
  "worker_service_config_ok c \<longleftrightarrow> env_name (ml_credential_env c) \<and> worker_name (wc_worker_id c)
     \<and> (\<forall>ob. wc_observer c = Some ob \<longrightarrow> observer_config_ok ob)
     \<and> 0 < wc_heartbeat_interval c \<and> wc_heartbeat_interval c \<le> 300 \<and> 0 < wc_poll_interval c \<and> wc_poll_interval c \<le> 60"

text \<open>\<open>ManagerSettings\<close>; the manager listens on this machine only.\<close>

record manager_settings =
  mg_host :: string
  mg_port :: nat
  mg_requester_env :: string
  mg_worker_envs :: "(string \<times> string) list"
  mg_lease_ttl :: real
  mg_worker_offline :: real
  mg_max_artifact_bytes :: int
  mg_max_artifacts :: nat

definition manager_fields_ok :: "manager_settings \<Rightarrow> bool" where
  "manager_fields_ok m \<longleftrightarrow> mg_host m \<in> {''127.0.0.1'', ''::1'', ''localhost''} \<and> 1 \<le> mg_port m \<and> mg_port m \<le> 65535
     \<and> env_name (mg_requester_env m) \<and> 0 < mg_lease_ttl m \<and> mg_lease_ttl m \<le> 600
     \<and> 0 < mg_worker_offline m \<and> mg_worker_offline m \<le> 3600
     \<and> 4096 \<le> mg_max_artifact_bytes m \<and> mg_max_artifact_bytes m \<le> 64 * 1024 ^ 2
     \<and> 1 \<le> mg_max_artifacts m \<and> mg_max_artifacts m \<le> 128"

definition manager_consistent :: "manager_settings \<Rightarrow> bool" where
  "manager_consistent m \<longleftrightarrow> list_all (\<lambda>(i, env). i \<noteq> ''auto'' \<and> worker_name i \<and> env_name env) (mg_worker_envs m)"

text \<open>\<open>resolved_worker_credentials\<close>: the first missing one is the error.\<close>

fun worker_credentials :: "surroundings \<Rightarrow> (string \<times> string) list \<Rightarrow> config_error + (string \<times> string) list" where
  "worker_credentials su [] = Inr []"
| "worker_credentials su ((i, env) # rest) =
     (case resolve_value su None (Some env) i of
        Inl e \<Rightarrow> Inl e
      | Inr v \<Rightarrow> (case worker_credentials su rest of Inl e \<Rightarrow> Inl e | Inr vs \<Rightarrow> Inr ((i, v) # vs)))"

section \<open>Properties\<close>

lemma resolve_not_blank: "resolve_value su value env label = Inr v \<Longrightarrow> v \<noteq> []"
  by (auto simp: resolve_value_def Let_def split: if_splits)

text \<open>A search key reaches nobody but Tavily. For every search service that a configuration yields, whatever the
  process environment holds: when a key is resolved, the provider is Tavily, the endpoint, if there is one, is exactly
  the provider's address, the key is printable ASCII, and no paid request is repeated. Any other provider gets
  no key.\<close>

theorem search_key_only_for_tavily:
  assumes "search_service_of f = Inr s"
  shows "case resolve_api_key su s of
      Inl e \<Rightarrow> sv_provider s = TavilySearch
    | Inr None \<Rightarrow> sv_provider s = SearxngSearch \<and> \<not> present (sv_api_key_env s)
    | Inr (Some key) \<Rightarrow> sv_provider s = TavilySearch \<and> key \<noteq> [] \<and> list_all key_char key \<and> sc_retries s = 0
        \<and> sc_engine s = ''tavily''
        \<and> (case search_endpoint su s of Inl e \<Rightarrow> True | Inr url \<Rightarrow> url = ''https://api.tavily.com'')"
proof -
  have c: "search_consistent f (service_of f) = Inr s" using assms by (auto simp: search_service_of_def split: if_splits)
  show ?thesis
  proof (cases "sv_provider (service_of f)")
    case SearxngSearch
    then have "sv_provider s = SearxngSearch" "\<not> present (sv_api_key_env s)"
      using c by (auto simp: search_consistent_def split: if_splits)
    then show ?thesis by (simp add: resolve_api_key_def)
  next
    case TavilySearch
    then have t: "sv_provider s = TavilySearch" "sc_retries s = 0" "sc_engine s = ''tavily''"
      using c by (auto simp: search_consistent_def Let_def split: if_splits)
    have "case search_endpoint su s of Inl e \<Rightarrow> True | Inr url \<Rightarrow> url = ''https://api.tavily.com''"
      using t by (auto simp: search_endpoint_def tavily_home_def split: sum.splits if_splits)
    then show ?thesis using t
      by (auto simp: resolve_api_key_def dest: resolve_not_blank split: sum.splits if_splits)
  qed
qed

text \<open>Where the model may be.\<close>

lemma model_endpoint_is_allowed:
  assumes "resolve_profile su p = Inr r"
  shows "rs_profile r = p \<and> rs_model_id r \<noteq> [] \<and> rs_api_key r \<noteq> []
    \<and> (\<exists>q. ur_split (su_urls su) (rs_base_url r) = Some q
         \<and> (model_host_local su (or_else (up_hostname q) []) \<or> mp_allow_remote_api p))"
  using assms by (auto simp: resolve_profile_def dest: resolve_not_blank split: sum.splits option.splits if_splits)

text \<open>A number such as \<open>134744072\<close> is an address to a resolver, and \<open>fetch.py\<close> refuses it for that reason; here every such
  host counts as private.\<close>

lemma numeric_hosts_count_as_private:
  assumes "al_parse (su_addresses su) h = None" "numeric_label h" "CHR ''.'' \<notin> set h"
  shows "host_private su h \<and> model_host_local su h \<and> host_ok (su_addresses su) h = Inl (UnsafeURL ''ambiguous_numeric_address'')"
proof -
  have "labels acc h = [rev acc @ h]" for acc using assms(3) by (induction h arbitrary: acc) auto
  then show ?thesis using assms by (simp add: host_private_def model_host_local_def host_ok_def ambiguous_numeric_def)
qed

section \<open>An example\<close>

definition ex_process :: surroundings where
  "ex_process = \<lparr> su_environ = (\<lambda>v. if v = ''TAVILY_API_KEY'' then Some ''k'' else None), su_urls = fv_urls ex_fetch_env,
     su_addresses = fv_addresses ex_fetch_env, su_loopback = (\<lambda>_. False), su_private = (\<lambda>_. False) \<rparr>"

definition ex_search_fields :: search_fields where
  "ex_search_fields = \<lparr> sd_provider = TavilySearch, sd_base_url = None, sd_base_url_env = None, sd_api_key_env = None,
     sd_engine = None, sd_language = ''auto'', sd_max_results = 8, sd_timeout = 30, sd_retries = None,
     sd_response_bytes = 2 * 1024 ^ 2, sd_max_credits = 10 \<rparr>"

theorem search_key_only_for_tavily_witness:
  "\<exists>s. search_service_of ex_search_fields = Inr s \<and> resolve_api_key ex_process s = Inr (Some ''k'') \<and> sc_retries s = 0"
proof -
  obtain s where s: "search_service_of ex_search_fields = Inr s" "sv_provider s = TavilySearch" "sv_api_key_env s = Some ''TAVILY_API_KEY''"
    by (simp add: search_service_of_def search_fields_ok_def service_of_def ex_search_fields_def search_consistent_def valid_search_config_def
        search_config.truncate_def engine_name_def or_else_def both_given_def bad_reference_def present_def Let_def
        upper_letter_def lower_letter_def)
  then have k: "resolve_api_key ex_process s = Inr (Some ''k'')"
    by (simp add: resolve_api_key_def resolve_value_def ex_process_def present_def or_else_def strip_chars_def py_space_def key_char_def)
  from search_key_only_for_tavily [OF s(1), of ex_process] k s(1) show ?thesis by auto
qed

end
