(* ===== verification/Research_Office.thy ===== *)
theory Research_Office
  imports Research_Example Models
begin

text \<open>
  The surroundings of a local research run put together as \<open>ResearchExecutor.__init__\<close> does: the SearXNG provider, the
  public fetcher with the parser process behind it, and the model runner, all on the one budget. The contracts
  that the run relies on are discharged for it, so the properties of a run hold for this office without them.
\<close>

section \<open>The parser names its passages\<close>

definition named :: "string \<Rightarrow> passage list \<Rightarrow> bool" where
  "named sid ps \<longleftrightarrow> distinct (map pa_passage_id ps)
     \<and> (\<forall>p \<in> set ps. pa_source_id p = sid \<and> (\<exists>t. pa_passage_id p = sid @ ''-'' @ t))"

lemma named_Nil [simp]: "named sid []"
  by (simp add: named_def)

lemma owns_named: "owns_passages src \<longleftrightarrow> named (so_source_id src) (so_passages src)"
  by (simp add: owns_passages_def named_def)

text \<open>The names that the splitting of one text gives, from an offset on.\<close>

definition split_name :: "string \<Rightarrow> nat option \<Rightarrow> nat \<Rightarrow> string" where
  "split_name sid page k = sid @ ''-'' @ (case page of Some n \<Rightarrow> ''p'' @ dec n | None \<Rightarrow> ''html'') @ ''-'' @ dec k"

lemma split_name_inj: "split_name sid page k = split_name sid page k' \<Longrightarrow> k = k'"
  by (simp add: split_name_def)

definition split_named :: "string \<Rightarrow> nat option \<Rightarrow> nat \<Rightarrow> passage list \<Rightarrow> bool" where
  "split_named sid page start ps \<longleftrightarrow> distinct (map pa_passage_id ps)
     \<and> (\<forall>p \<in> set ps. pa_source_id p = sid \<and> (\<exists>k \<ge> start. pa_passage_id p = split_name sid page k))"

lemma split_from_named:
  "split_from sid page width t start = Some ps \<Longrightarrow> (start < length t \<longrightarrow> 0 < width) \<and> split_named sid page start ps"
proof (induction rule: split_from.raw_induct [rotated, consumes 1, case_names step])
  case (step rec sid page width t start ps)
  show ?case
  proof (cases "start < length t")
    case False
    with step(2) show ?thesis by (simp add: split_named_def)
  next
    case True
    define e where "e = passage_end width t start"
    obtain rest where r: "rec sid page width t e = Some rest"
      "ps = (if blank (take (e - start) (drop start t)) then rest else new_passage sid page (take (e - start) (drop start t)) start e # rest)"
      using step(2) True by (auto simp: e_def Let_def bind_eq_Some_conv)
    from step(1) [OF r(1)] have IH: "e < length t \<longrightarrow> 0 < width" "split_named sid page e rest" by auto
    have w: "0 < width"
    proof (rule ccontr)
      assume "\<not> 0 < width"
      then have "e = start" using True rfind_bounds by (fastforce simp: e_def passage_end_def Let_def split: option.splits)
      with IH(1) True show False using \<open>\<not> 0 < width\<close> by simp
    qed
    have e: "start < e" using passage_end_bounds [OF True w] by (simp add: e_def)
    have id: "pa_passage_id (new_passage sid page c start e) = split_name sid page start" "pa_source_id (new_passage sid page c start e) = sid" for c
      by (simp_all add: new_passage_def split_name_def)
    have rest: "split_named sid page start rest" using IH(2) less_imp_le [OF e] by (auto simp: split_named_def) (meson order_trans)
    have fresh: "split_name sid page start \<notin> pa_passage_id ` set rest" using IH(2) e by (fastforce simp: split_named_def dest: split_name_inj)
    show ?thesis using w rest fresh unfolding r(2) by (auto simp: split_named_def id)
  qed
qed

lemma split_passages_named: "split_passages t sid page width = Some ps \<Longrightarrow> split_named sid page 0 ps"
  unfolding split_passages_def by (blast dest: split_from_named)

lemma split_named_named: "split_named sid page 0 ps \<Longrightarrow> named sid ps"
  by (fastforce simp: split_named_def named_def split_name_def)

text \<open>The pages of a document: the passages of earlier pages have other names.\<close>

definition pages_named :: "string \<Rightarrow> nat \<Rightarrow> passage list \<Rightarrow> bool" where
  "pages_named sid n ps \<longleftrightarrow> distinct (map pa_passage_id ps)
     \<and> (\<forall>p \<in> set ps. pa_source_id p = sid \<and> (\<exists>m < n. \<exists>k. pa_passage_id p = split_name sid (Some m) k))"

lemma split_name_page: "split_name sid (Some m) k = split_name sid (Some n) k' \<Longrightarrow> m = n"
  using split_at_first [of "CHR ''-''" "dec m" "dec n" "dec k" "dec k'"] no_dash_digits [of m] no_dash_digits [of n]
  by (simp add: split_name_def)

lemma pages_named_Suc: "pages_named sid n ps \<Longrightarrow> pages_named sid (Suc n) ps"
  unfolding pages_named_def by (meson less_SucI)

lemma pages_named_append:
  assumes "pages_named sid n ps" "split_named sid (Some n) 0 qs"
  shows "pages_named sid (Suc n) (ps @ qs)"
proof -
  have "pa_passage_id p \<noteq> pa_passage_id q" if "p \<in> set ps" "q \<in> set qs" for p q
    using assms that unfolding pages_named_def split_named_def by (metis split_name_page less_irrefl)
  then have "distinct (map pa_passage_id (ps @ qs))" using assms by (auto simp: pages_named_def split_named_def)
  moreover have "\<exists>m < Suc n. \<exists>k. pa_passage_id q = split_name sid (Some m) k" if "q \<in> set qs" for q
    using assms(2) that by (auto simp: split_named_def)
  ultimately show ?thesis using assms pages_named_Suc [OF assms(1)] by (auto simp: pages_named_def split_named_def)
qed

lemma read_pages_named:
  "read_pages l sid pages n s = Some (Inr s') \<Longrightarrow> pages_named sid n (ps_passages s) \<Longrightarrow> \<exists>m. pages_named sid m (ps_passages s')"
proof (induction pages arbitrary: n s)
  case Nil
  then show ?case by auto
next
  case (Cons pg pages)
  have on: "\<exists>m. pages_named sid m (ps_passages s')"
    if "read_pages l sid pages (Suc n) (set_page n st s1) = Some (Inr s')" "pages_named sid (Suc n) (ps_passages s1)" for st s1
    using Cons.IH [OF that(1)] that(2) by (simp add: set_page_def)
  note later = pages_named_Suc [OF Cons.prems(2)]
  show ?case
  proof (cases "nat (text_chars l) \<le> ps_retained s")
    case True
    then show ?thesis using Cons.prems(1) on later by simp
  next
    case False
    show ?thesis
    proof (cases pg)
      case (PageText images raw)
      show ?thesis
      proof (cases "trim raw = []")
        case True
        then show ?thesis using Cons.prems(1) False PageText on later by simp
      next
        case more: False
        then obtain qs s1 st where "split_passages (take (nat (text_chars l) - ps_retained s) (trim raw)) sid (Some n) (nat (passage_chars l)) = Some qs"
          "read_pages l sid pages (Suc n) (set_page n st s1) = Some (Inr s')" "ps_passages s1 = ps_passages s @ qs"
          using Cons.prems(1) False PageText by (auto simp: Let_def bind_eq_Some_conv)
        then show ?thesis using on pages_named_append [OF Cons.prems(2) split_passages_named] by metis
      qed
    qed (use Cons.prems(1) False on later in auto)
  qed
qed

lemma pdf_result_passages [simp]: "pd_passages (pdf_result pl l count m s) = Some (ps_passages s)"
  by (simp add: pdf_result_def Let_def)

lemma parse_child_named:
  assumes "parse_child pl l kind url sid data = Some p"
  shows "named sid (or_else (pd_passages p) [])"
proof (cases "kind = KPdf")
  case True
  have named: "named sid (ps_passages s)" if "read_pages l sid pages 1 \<lparr> ps_passages = [], ps_statuses = [], ps_retained = 0, ps_pieces = [] \<rparr> = Some (Inr s)" for s pages
    using read_pages_named [OF that] by (fastforce simp: pages_named_def named_def split_name_def)
  obtain r where r: "parse_pdf pl l sid data = Some r"
    "p = (case r of Parsed p \<Rightarrow> p | ParserOutOfMemory \<Rightarrow> failed_parse SLimit ''parser_memory_mb''
        | ParserError name \<Rightarrow> failed_parse SExtractionFailed (''parser:'' @ name))"
    using assms True by (auto simp: parse_child_def)
  have "named sid (or_else (pd_passages q) [])" if q: "r = Parsed q" for q
  proof (cases "pl_pdf pl data")
    case (PdfPages pages m)
    then obtain z where z: "read_pages l sid (take (nat (pdf_pages l)) pages) 1
        \<lparr> ps_passages = [], ps_statuses = [], ps_retained = 0, ps_pieces = [] \<rparr> = Some z"
      "r = (case z of Inl _ \<Rightarrow> ParserOutOfMemory | Inr s \<Rightarrow> Parsed (pdf_result pl l (length pages) m s))"
      using r(1) by (auto simp: parse_pdf_def Let_def)
    then obtain s where "z = Inr s" "q = pdf_result pl l (length pages) m s" using q by (cases z) auto
    with named [OF z(1) [unfolded \<open>z = Inr s\<close>]] show ?thesis by (simp add: or_else_def)
  qed (use r(1) q in \<open>auto simp: parse_pdf_def Let_def or_else_def failed_parse_def\<close>)
  then show ?thesis unfolding r(2) by (cases r) (simp_all add: or_else_def failed_parse_def)
next
  case False
  then show ?thesis using assms
    by (auto simp: parse_child_def parse_html_def Let_def or_else_def failed_parse_def
        split: option.splits if_splits dest: split_named_named [OF split_passages_named])
qed

section \<open>Fetched sources\<close>

text \<open>The environment of the fetcher whose parser process is \<open>_parse_child\<close>: when and whether the result arrives is
  up to the system, what arrives is what the child computed.\<close>

definition child_pipe :: "parsed option \<Rightarrow> pipe \<Rightarrow> pipe" where
  "child_pipe r p = (case p of Received _ \<Rightarrow> (case r of None \<Rightarrow> NothingYet | Some q \<Rightarrow> Received q) | _ \<Rightarrow> p)"

definition child_env :: "parser_library \<Rightarrow> limits \<Rightarrow> fetch_env \<Rightarrow> fetch_env" where
  "child_env pl l fv = fv\<lparr> fv_parser := (\<lambda>body url kind sid i.
     let t = fv_parser fv body url kind sid i in t\<lparr> tu_pipe := child_pipe (parse_child pl l kind url sid body) (tu_pipe t) \<rparr>) \<rparr>"

definition names_passages :: "fetch_env \<Rightarrow> bool" where
  "names_passages env \<longleftrightarrow> (\<forall>body url kind sid i p. tu_pipe (fv_parser env body url kind sid i) = Received p
     \<longrightarrow> named sid (or_else (pd_passages p) []))"

lemma child_names: "names_passages (child_env pl l fv)"
  by (auto simp: names_passages_def child_env_def child_pipe_def Let_def split: pipe.splits option.splits intro: parse_child_named)

lemma watch_result:
  "watch_parser l d turns i = Some p \<Longrightarrow> pd_passages p = None \<or> (\<exists>j. tu_pipe (turns j) = Received p)"
proof (induction rule: watch_parser.raw_induct [rotated, consumes 1, case_names step])
  case (step rec l turns i d p)
  then show ?case by (auto simp: Let_def failed_parse_def split: if_splits pipe.splits)
qed

definition good :: "string \<Rightarrow> source \<Rightarrow> bool" where
  "good sid so \<longleftrightarrow> so_source_id so = sid \<and> named sid (so_passages so)"

lemma good_updates [simp]:
  "good sid (fails st err so) = good sid so" "good sid (so\<lparr> so_media_type := x1 \<rparr>) = good sid so"
  "good sid (so\<lparr> so_kind := x2, so_limitations := x3 \<rparr>) = good sid so" "good sid (so\<lparr> so_bytes_received := x4 \<rparr>) = good sid so"
  "good sid (so\<lparr> so_final_url := x5, so_http_status := x6 \<rparr>) = good sid so" "good sid (so\<lparr> so_limitations := x3 \<rparr>) = good sid so"
  "good sid (so\<lparr> so_kind := x2 \<rparr>) = good sid so"
  by (simp_all add: good_def fails_def)

lemma take_body_good: "good sid (fg_source s) \<Longrightarrow> good sid (fg_source (snd (take_body env media cs ending body s)))"
  by (induction env media cs ending body s rule: take_body.induct) (auto simp: Let_def split: option.splits prod.splits sum.splits)

lemma extract_body_good:
  assumes "names_passages env" "extract_body env url kind body s = Some (r, t)" "good sid (fg_source s)"
  shows "good sid (fg_source t)"
proof -
  have id: "so_source_id (fg_source s) = sid" using assms(3) by (simp add: good_def)
  obtain left b where lb: "remaining_seconds (fv_clock env) (fg_budget s) = (left, b)" by fastforce
  obtain p where p: "extract_document (b_limits b) (Some left) (fv_parser env body url kind sid) = Some p"
    using assms(2) by (auto simp: extract_body_def lb id Let_def)
  have "pd_passages p = None \<or> (\<exists>j. tu_pipe (fv_parser env body url kind sid j) = Received p)"
    using p watch_result unfolding extract_document_def by blast
  then have "pd_passages p = None \<or> named sid (or_else (pd_passages p) [])" using assms(1) unfolding names_passages_def by blast
  then have m: "good sid (merge_parsed p so)" if "good sid so" for so
    using that by (cases "pd_passages p") (auto simp: good_def merge_parsed_def or_else_def)
  show ?thesis using assms(2,3) m
    by (auto simp: extract_body_def lb id p Let_def split: option.splits prod.splits sum.splits)
qed

lemma read_document_good:
  assumes "names_passages env" "read_document env url hs pieces ending s = Some (r, t)" "good sid (fg_source s)"
  shows "good sid (fg_source t)"
proof -
  define media where "media = media_type env hs"
  define s0 where "s0 = set_source (\<lambda>so. so\<lparr> so_media_type := Some media \<rparr>) s"
  have s0: "good sid (fg_source s0)" using assms(3) by (simp add: s0_def)
  obtain out e where d: "decoded_chunks env hs pieces ending
      (max (html_bytes (b_limits (fg_budget s))) (pdf_bytes (b_limits (fg_budget s)))) = Some (out, e)"
    using assms(2) by (auto simp: read_document_def Let_def split: option.splits)
  obtain q s1 where b: "take_body env media out e [] s0 = (q, s1)" by fastforce
  have s1: "good sid (fg_source s1)" using take_body_good [OF s0, of env media out e "[]"] b by simp
  show ?thesis
  proof (cases q)
    case (Inl x)
    then show ?thesis using assms(2) s1 by (auto simp: read_document_def Let_def media_def [symmetric] s0_def [symmetric] d b)
  next
    case (Inr body)
    obtain k n where k: "identify_document media (take 1024 body) = (k, n)" by fastforce
    show ?thesis using assms(2) s1 Inr
      by (cases k) (auto simp: read_document_def Let_def media_def [symmetric] s0_def [symmetric] d b k
          dest!: extract_body_good [OF assms(1), where sid = sid])
  qed
qed

lemma fetch_hops_good:
  "names_passages env \<Longrightarrow> fetch_hops env left url s = Some (r, t) \<Longrightarrow> good sid (fg_source s) \<Longrightarrow> good sid (fg_source t)"
proof (induction env left url s rule: fetch_hops.induct)
  case (2 env left url0 s)
  then show ?case
    by (auto simp: Let_def split: sum.splits prod.splits exchange.splits option.splits if_splits
        dest: read_document_good [where sid = sid])
qed auto

lemma fetch_good:
  assumes "names_passages env" "fetch env c sid now b = Some (Inr so, s)"
  shows "good sid so"
proof -
  let ?s0 = "fetch_start env c sid now b"
  define left where "left = nat (max_redirects (b_limits b)) + 1"
  obtain r0 t where t: "fetch_hops env left (c_url c) ?s0 = Some (r0, t)"
    using assms(2) unfolding fetch_def fetch_start_def [symmetric] left_def [symmetric] by auto
  have "good sid (fg_source ?s0)" by (simp add: good_def fetch_start_def requested_source_def new_source_def)
  with fetch_hops_good [OF assms(1) t] have "good sid (fg_source t)" by blast
  moreover have "so = fg_source t \<or> (\<exists>st err. so = fails st err (fg_source t))"
    using assms(2) t unfolding fetch_def fetch_start_def [symmetric] left_def [symmetric]
    by (auto simp: Let_def split: sum.splits option.splits)
  ultimately show ?thesis by auto
qed

section \<open>The search provider\<close>

text \<open>What \<open>create_search_provider\<close> returns is an object of one of two classes; each method is that of its class.\<close>

type_synonym search_object = "searxng + tavily"

definition new_searxng :: "budget \<Rightarrow> searxng" where
  "new_searxng b = \<lparr> sx_budget = b, sx_sent = 0, sx_diagnostic = blank_diagnostic \<rparr>"

definition create_search_provider :: "search_kind \<Rightarrow> budget \<Rightarrow> search_object" where
  "create_search_provider kind b = (if kind = TavilySearch then Inr (new_tavily b) else Inl (new_searxng b))"

definition object_provider :: "environment \<Rightarrow> search_config \<Rightarrow> search_object provider" where
  "object_provider env cfg =
     (let sx = searxng_provider env cfg; tv = tavily_provider env cfg in
      \<lparr> pv_search = (\<lambda>q i p. case p of
          Inl x \<Rightarrow> (case pv_search sx q i x of (r, x') \<Rightarrow> (r, Inl x'))
        | Inr t \<Rightarrow> (case pv_search tv q i t of (r, t') \<Rightarrow> (r, Inr t'))),
        pv_budget = case_sum (pv_budget sx) (pv_budget tv),
        pv_set_budget = (\<lambda>b. map_sum (pv_set_budget sx b) (pv_set_budget tv b)),
        pv_diagnostic = case_sum (pv_diagnostic sx) (pv_diagnostic tv) \<rparr>)"

lemma object_budget:
  "pv_budget (object_provider env cfg) (Inl x) = pv_budget (searxng_provider env cfg) x"
  "pv_budget (object_provider env cfg) (Inr t) = pv_budget (tavily_provider env cfg) t"
  by (simp_all add: object_provider_def Let_def)

lemma object_search:
  "pv_search (object_provider env cfg) q i (Inl x) = apsnd Inl (pv_search (searxng_provider env cfg) q i x)"
  "pv_search (object_provider env cfg) q i (Inr t) = apsnd Inr (pv_search (tavily_provider env cfg) q i t)"
  by (simp_all add: object_provider_def Let_def apsnd_def map_prod_def)

interpretation object: search_provider "object_provider env cfg" "sc_max_results cfg" for env cfg
proof
  show "spends (pv_budget (object_provider env cfg) p) (pv_budget (object_provider env cfg) (snd (pv_search (object_provider env cfg) q i p)))"
    for p q i
    by (cases p) (simp_all add: object_budget object_search searxng.search_spends tavily.search_spends)
  show "length rs \<le> sc_max_results cfg"
    if "fst (pv_search (object_provider env cfg) q i p) = Inr rs" "0 < sc_max_results cfg" for p q i rs
    using that searxng.search_bound tavily.search_bound by (cases p) (simp_all add: object_search)
  show "pv_budget (object_provider env cfg) (pv_set_budget (object_provider env cfg) b p) = b" for b p
    using searxng.get_set [of env cfg b] tavily.get_set [of env cfg b] by (cases p) (simp_all add: object_provider_def Let_def)
qed

section \<open>The office of a local run\<close>

text \<open>What a local run is built from.\<close>

record 'w local_parts =
  lo_env :: environment
  lo_kind :: search_kind
  lo_search :: search_config
  lo_fetch :: fetch_env
  lo_parsers :: parser_library
  lo_limits :: limits
  lo_unicode :: unicode
  lo_wires :: "'w wire_library"
  lo_profile :: resolved_profile
  lo_due :: "'w \<Rightarrow> bool"
  lo_agents :: agents
  lo_schema :: "output_type \<Rightarrow> utext"
  lo_dumps :: "request_data \<Rightarrow> utext"
  lo_public_text :: "utext \<Rightarrow> exn + utext"
  lo_job_id :: string
  lo_profile_id :: string

text \<open>\<open>ResearchExecutor(...)\<close> without a collector; \<open>expired\<close> and \<open>errors\<close> are what the event loop decides. The search
  provider of its desk is the one that \<open>create_search_provider\<close> makes, on the budget of the run.\<close>

definition local_office ::
  "'w local_parts \<Rightarrow> ((search_object, 'w wire, unit) desk \<Rightarrow> bool) \<Rightarrow> string list \<Rightarrow> (search_object, 'w wire, unit) office" where
  "local_office lo expired errors =
     \<lparr> of_env = lo_env lo, of_unicode = lo_unicode lo, of_provider = object_provider (lo_env lo) (lo_search lo),
       of_fetcher = public_fetcher (child_env (lo_parsers lo) (lo_limits lo) (lo_fetch lo)) (en_now (lo_env lo)),
       of_model = model_runner (lo_wires lo) (en_clock (lo_env lo)) (lo_profile lo) (lo_due lo) (lo_agents lo) (lo_schema lo),
       of_collector = None, of_dumps = lo_dumps lo, of_public_text = lo_public_text lo, of_expired = expired,
       of_close_errors = errors, of_job_id = lo_job_id lo, of_profile_id = lo_profile_id lo \<rparr>"

definition local_desk ::
  "'w local_parts \<Rightarrow> ((search_object, 'w wire, unit) desk \<Rightarrow> bool) \<Rightarrow> string list \<Rightarrow> 'w \<Rightarrow> (search_object, 'w wire, unit) desk" where
  "local_desk lo expired errors w = new_desk (local_office lo expired errors) (lo_limits lo)
     (create_search_provider (lo_kind lo) (new_budget (en_clock (lo_env lo)) (lo_limits lo))) (new_wire w) ()"

lemma local_within_budget: "office_within_budget (local_office lo expired errors)"
proof -
  have "spends b (pv_budget (object_provider env cfg) (snd (pv_search (object_provider env cfg) q i
      (pv_set_budget (object_provider env cfg) b p))))" for env cfg q i b p
    using object.search_spends [of env cfg "pv_set_budget (object_provider env cfg) b p" q i] by (simp add: object.get_set)
  then show ?thesis
    by (auto simp: office_within_budget_def local_office_def runner_within_budget dest: public.fetch_only_spends)
qed

interpretation local_run: thrifty_office "local_office lo expired errors" for lo expired errors
  by (rule thrifty_office.intro [OF local_within_budget])

interpretation local_names: naming_office "local_office lo expired errors" for lo expired errors
proof unfold_locales
  fix c i b src b'
  assume "of_fetcher (local_office lo expired errors) c i b = Some (Inr src, b')"
  then have "good i src" by (auto simp: local_office_def public_fetcher_def dest: fetch_good [OF child_names])
  then show "so_source_id src = i \<and> owns_passages src" by (simp add: good_def owns_named)
qed (simp add: local_office_def)

interpretation local_spending: step_relation desk_spends "local_office lo expired errors" for lo expired errors
  by (rule local_run.spending_steps.step_relation_axioms)

interpretation local_execution: execution_relation desk_spends "local_office lo expired errors" "\<lambda>_. True" for lo expired errors
  by (rule local_run.spending.execution_relation_axioms)

section \<open>Properties\<close>

text \<open>C32. A local run, that is one without a collector, never exceeds its budget, with either of the two search
  providers and whatever the search service, the web servers, the parser process and the model answer and however
  the run ends: no count is above its limit or below what it was.\<close>

theorem local_run_within_budget:
  assumes "research_run (local_office lo expired errors) q urls opened existing s = Some (res, s')" "budget_ok (dk_budget s)"
  shows "budget_ok (dk_budget s') \<and> b_limits (dk_budget s') = b_limits (dk_budget s)
    \<and> (\<forall>c. b_counts (dk_budget s) c \<le> b_counts (dk_budget s') c \<and> b_counts (dk_budget s') c \<le> limit_of (b_limits (dk_budget s)) c)"
  using local_run.whole_run_spends [OF assms(1)] assms(2) by (auto simp: spends_def budget_ok_def)

text \<open>C33. In a local run the sources of the report are called S1, S2 and so on in the order in which they were fetched, and
  every passage carries the name of its source and a name of its own, so that a citation names one stretch of text.\<close>

theorem local_run_names_are_unique:
  assumes "execute (local_office lo expired errors) urls s = Some (res, s')" "rp_sources (dk_report s) = []"
  shows "map so_source_id (rp_sources (dk_report s')) = map (\<lambda>n. ''S'' @ dec (n + 1)) [0..<length (rp_sources (dk_report s'))]
    \<and> distinct (map so_source_id (rp_sources (dk_report s')))
    \<and> distinct (map pa_passage_id (concat (map so_passages (rp_sources (dk_report s')))))
    \<and> (\<forall>src \<in> set (rp_sources (dk_report s')). \<forall>p \<in> set (so_passages src). pa_source_id p = so_source_id src)"
proof -
  have "follows keeps_names (execute (local_office lo expired errors) urls)"
    by (rule execution_relation.execute_follows [OF local_names.names_execution])
  then have n: "numbered_sources (rp_sources (dk_report s'))"
    using assms by (auto simp: follows_def keeps_names_def names_ok_def numbered_sources_def)
  then show ?thesis using numbered_passages_distinct [OF n]
    by (auto simp: numbered_sources_def owns_passages_def source_name_def [abs_def])
qed

section \<open>An example\<close>

text \<open>The model answers at once: with a plan, and later with no claim. Every query is refused as private; the page that
  the user supplied is fetched, parsed and read.\<close>

definition ex_no_claims :: extraction where
  "ex_no_claims = \<lparr> xt_claims = [], xt_gaps = [] \<rparr>"

definition ex_agents :: agents where
  "ex_agents = \<lparr> ag_plan = (\<lambda>_ _. Done (Inr ex_plan)), ag_select = (\<lambda>_ _. Done (Inr [])), ag_extract = (\<lambda>_ _. Done (Inr ex_no_claims)),
     ag_review = (\<lambda>_ _. Done (Inr ex_model_review)) \<rparr>"

definition ex_wide :: resolved_profile where
  "ex_wide = ex_resolved\<lparr> rs_profile := ex_profile\<lparr> mp_context_tokens := 1000000, mp_max_output_tokens := 128 \<rparr> \<rparr>"

definition ex_reader :: parser_library where
  "ex_reader = ex_parsers\<lparr> pl_html := (\<lambda>_ _. Some \<lparr> hd_text = Some [97, 98], hd_title = None \<rparr>) \<rparr>"

definition ex_web :: fetch_env where
  "ex_web = (ex_answer [] (\<lambda>_. None))\<lparr> fv_parser := (\<lambda>_ _ _ _ _. \<lparr> tu_elapsed = 0, tu_memory = Resident 0,
     tu_pipe = Received (failed_parse SInvalid []), tu_alive = True \<rparr>) \<rparr>"

definition ex_parts :: "unit local_parts" where
  "ex_parts = \<lparr> lo_env = ex_surroundings, lo_kind = TavilySearch, lo_search = ex_search_config, lo_fetch = ex_web, lo_parsers = ex_reader,
     lo_limits = default_limits, lo_unicode = ex_unicode, lo_wires = ex_wires, lo_profile = ex_wide, lo_due = (\<lambda>_. False),
     lo_agents = ex_agents, lo_schema = (\<lambda>_. []), lo_dumps = (\<lambda>_. []), lo_public_text = Inr, lo_job_id = ''j'', lo_profile_id = ''p'' \<rparr>"

definition ex_local :: "(search_object, unit wire, unit) office" where
  "ex_local = local_office ex_parts (\<lambda>_. False) []"

definition ex_local_desk :: "(search_object, unit wire, unit) desk" where
  "ex_local_desk = local_desk ex_parts (\<lambda>_. False) [] ()"

definition ex_url_given :: string where
  "ex_url_given = ''http://a.example/''"

definition ex_given :: candidate where
  "ex_given = supplied_candidate ''now'' ex_url_given"

definition ex_page_text :: passage where
  "ex_page_text = new_passage ''S1'' None [97, 98] 0 2"

lemma ex_local_parts: "of_env ex_local = ex_surroundings" "of_unicode ex_local = ex_unicode" "of_collector ex_local = None"
  "of_public_text ex_local = Inr" "of_close_errors ex_local = []" "of_dumps ex_local = (\<lambda>_. [])"
  "lm_plan (of_model ex_local) = (\<lambda>text st. model_stage ex_wires (\<lambda>_. 0) ex_wide (\<lambda>_. False) (\<lambda>_ _. Done (Inr ex_plan)) [] text)"
  "lm_extract (of_model ex_local) = (\<lambda>text st. model_stage ex_wires (\<lambda>_. 0) ex_wide (\<lambda>_. False) (\<lambda>_ _. Done (Inr ex_no_claims)) [] text)"
  "lm_context (of_model ex_local) = Some 1000000"
  by (simp_all add: ex_local_def local_office_def ex_parts_def ex_surroundings_def model_runner_def ex_agents_def ex_wide_def)

lemma ex_fetcher: "of_fetcher ex_local = public_fetcher (child_env ex_reader default_limits ex_web) ''now''"
  by (simp add: ex_local_def local_office_def ex_parts_def ex_surroundings_def)

text \<open>The page as it is read.\<close>

lemma ex_split: "split_passages [97, 98] ''S1'' None 1600 = Some [ex_page_text]"
proof -
  have "passage_end 1600 [97, 98] 0 = 2" by (simp add: passage_end_def)
  then show ?thesis
    by (simp add: split_passages_def split_from.simps ex_page_text_def blank_def py_space_def)
qed

lemma ex_parsed: "\<exists>p. parse_child ex_reader default_limits KHtml url ''S1'' body = Some p \<and> pd_status p = SOk
    \<and> pd_passages p = Some [ex_page_text] \<and> pd_limitations p = Some []"
proof -
  have "trim [97, 98] = [97, 98]" "\<not> blank [97, 98]" by (simp_all add: trim_def blank_def py_space_def)
  then show ?thesis
    by (simp add: parse_child_def parse_html_def ex_reader_def Let_def default_limits_def ex_split)
qed

lemma ex_web_fields:
  "fv_clock (child_env pl l ex_web) = (\<lambda>_. 0)" "fv_urls (child_env pl l ex_web) = fv_urls ex_fetch_env"
  "fv_addresses (child_env pl l ex_web) = fv_addresses ex_fetch_env" "fv_resolve (child_env pl l ex_web) = (\<lambda>_ _ _. Inr [''8.8.8.8''])"
  "fv_hook (child_env pl l ex_web) = (\<lambda>_ _ _. None)"
  "fv_net (child_env pl l ex_web) = (\<lambda>_ _ _. Answer 200 [(''content-type'', ''text/html'')] [[60, 112, 62]] None)"
  by (simp_all add: child_env_def ex_web_def ex_answer_def ex_fetch_env_def)

lemma ex_local_fetch:
  assumes "b_limits b = default_limits" "b_started b = 0" "\<forall>c. c \<noteq> MaxSources \<longrightarrow> b_counts b c = 0"
  shows "\<exists>so b'. of_fetcher ex_local ex_given ''S1'' b = Some (Inr so, b') \<and> so_source_id so = ''S1'' \<and> so_status so = SOk
    \<and> so_passages so = [ex_page_text] \<and> b_limits b' = default_limits \<and> b_started b' = 0"
proof -
  let ?env = "child_env ex_reader default_limits ex_web"
  have "public_addresses (fv_addresses ex_fetch_env) [''8.8.8.8''] = Inr [''8.8.8.8'']" by (simp add: ex_public)
  then have t: "transport_request ?env 0 ''http://a.example/'' [''8.8.8.8'']
      = Answer 200 [(''content-type'', ''text/html'')] [[60, 112, 62]] None"
    by (simp add: transport_request_def ex_web_fields ex_url new_pinned_def)
  obtain p where p: "parse_child ex_reader default_limits KHtml ''http://a.example/'' ''S1'' [60, 112, 62] = Some p" "pd_status p = SOk"
    "pd_passages p = Some [ex_page_text]" "pd_limitations p = Some []" using ex_parsed by blast
  have "tu_pipe (fv_parser ?env [60, 112, 62] ''http://a.example/'' KHtml ''S1'' 0) = Received p"
    "tu_elapsed (fv_parser ?env [60, 112, 62] ''http://a.example/'' KHtml ''S1'' 0) = 0"
    "tu_memory (fv_parser ?env [60, 112, 62] ''http://a.example/'' KHtml ''S1'' 0) = Resident 0"
    using p(1) by (simp_all add: child_env_def ex_web_def child_pipe_def Let_def)
  moreover have lim0: "parser_seconds default_limits = 20" "parser_memory_mb default_limits = 512" by (simp_all add: default_limits_def)
  ultimately have doc: "extract_document default_limits (Some 900) (fv_parser ?env [60, 112, 62] ''http://a.example/'' KHtml ''S1'') = Some p"
    unfolding extract_document_def by (subst watch_parser.simps) (simp add: Let_def or_else_def lim0)
  have media: "media_type ?env [(''content-type'', ''text/html'')] = ''text/html''"
    by (simp add: media_type_def ex_web_fields header_def or_else_def) (simp add: ex_fetch_env_def strip_chars_def py_space_def)
  have dec: "decoded_chunks ?env [(''content-type'', ''text/html'')] [[60, 112, 62]] None bound = Some ([[60, 112, 62]], None)" if "3 \<le> bound" for bound
    using that by (simp add: decoded_chunks_def ex_web_fields header_def or_else_def) (simp add: ex_fetch_env_def strip_chars_def py_space_def)
  have six: "Suc 5 = 6" by simp
  note hops = fetch_hops.simps(2) [of ?env 5, unfolded six]
  have lim: "job_seconds default_limits = 900" "max_redirects default_limits = 5" "fetch_requests default_limits = 36"
      "html_bytes default_limits = 5242880" "pdf_bytes default_limits = 20971520" "cache_bytes default_limits = 134217728"
    by (simp_all add: default_limits_def)
  have words: "pa_text ex_page_text = [97, 98]" by (simp add: ex_page_text_def new_passage_def)
  show ?thesis
    using assms
    by (simp add: lim public_fetcher_def ex_fetcher fetch_def ex_given_def supplied_candidate_def ex_url_given_def ex_url ex_public t
        ex_web_fields dec hops remaining_seconds_def check_time_def take_budget_def
        requested_source_def new_source_def read_document_def media ex_identify body_bound_def call_hook_def extract_body_def
        set_source_def doc p merge_parsed_def words or_else_def Let_def)
qed

section \<open>The run of the example\<close>

definition calm :: "(string \<times> candidate) list \<Rightarrow> (search_object, unit wire, unit) desk \<Rightarrow> bool" where
  "calm known s \<longleftrightarrow> b_limits (dk_budget s) = default_limits \<and> b_started (dk_budget s) = 0 \<and> (\<forall>c. b_counts (dk_budget s) c = 0)
     \<and> b_source_keys (dk_budget s) = [] \<and> rp_sources (dk_report s) = [] \<and> rp_claims (dk_report s) = []
     \<and> rp_candidates (dk_report s) = [] \<and> dk_candidates s = known"

lemma calm_time: "calm known s \<Longrightarrow> check_time (\<lambda>_. 0) (dk_budget s) = (Inr (), b_readings_update Suc (dk_budget s))"
  by (simp add: calm_def still_clock)

text \<open>After the page was fetched.\<close>

definition fetched_page :: "source \<Rightarrow> bool" where
  "fetched_page so \<longleftrightarrow> so_source_id so = ''S1'' \<and> so_status so = SOk \<and> so_passages so = [ex_page_text]"

definition has_read :: "(search_object, unit wire, unit) desk \<Rightarrow> bool" where
  "has_read s \<longleftrightarrow> b_limits (dk_budget s) = default_limits \<and> b_started (dk_budget s) = 0 \<and> rp_claims (dk_report s) = []
     \<and> (\<exists>so. rp_sources (dk_report s) = [so] \<and> fetched_page so)"

lemma short_prompts: "length task \<le> 5000 \<Longrightarrow> estimate_tokens (prompt (\<lambda>_. []) task d) \<le> 100000"
proof -
  have b: "estimate_tokens t \<le> 3 * length t" for t
  proof -
    have "count_rows (\<lambda>c. c < 128) t \<le> length t" by (simp add: count_rows_def)
    then show ?thesis by (simp add: estimate_tokens_def Let_def)
  qed
  have "length (prompt (\<lambda>_. []) task d) \<le> length task + 1000"
    by (simp add: prompt_def safety_text_def ascii_def)
  with b [of "prompt (\<lambda>_. []) task d"] show "length task \<le> 5000 \<Longrightarrow> ?thesis" by linarith
qed

lemma ex_local_stage:
  assumes "length task \<le> 5000"
  shows "model_stage ex_wires (\<lambda>_. 0) ex_wide (\<lambda>_. False) (\<lambda>_ _. Done (Inr x)) [] (prompt (\<lambda>_. []) task d) st = Some (Inr x, st)"
proof -
  have "estimate_tokens (prompt (\<lambda>_. []) task d) + estimate_tokens [] + 1024 + 128 \<le> 1000000"
    using short_prompts [OF assms, of d] by (simp add: estimate_tokens_def)
  then show ?thesis by (simp add: model_stage_def Let_def ex_wide_def ex_resolved_def ex_profile_def)
qed

lemma ex_tasks: "length plan_task \<le> 5000" "length extract_task \<le> 5000"
  by (simp_all add: plan_task_def extract_task_def)

lemma ex_plan_queries: "p_queries ex_plan = [\<lparr> q_text = [97], q_role = Overview, q_reason = [97] \<rparr>,
     \<lparr> q_text = [98], q_role = PrimaryRole, q_reason = [97] \<rparr>, \<lparr> q_text = [99], q_role = Limitations, q_reason = [97] \<rparr>]"
  by (simp add: ex_plan_def)

lemma ex_local_plan: "calm ks s \<Longrightarrow> \<exists>s'. plan_queries ex_local s = Some (Inr (p_queries ex_plan), s') \<and> calm ks s'"
  unfolding plan_queries_def call_model_def checked_time_def look_def
  by (auto simp: run_simps ex_local_parts reduce_data_def ask_model_def calm_time Let_def ex_local_stage ex_tasks ex_plan_queries query_key_def
      strip_def py_space_def ex_surroundings_def) (auto simp: calm_def)

lemma ex_local_gather: "calm ks s \<Longrightarrow> \<exists>s'. gather ex_local qs s = Some (Inr [], s') \<and> calm ks s'"
proof -
  have one: "calm ks s \<Longrightarrow> \<exists>s'. gather_one ex_local q xs s = Some (Inr xs, s') \<and> calm ks s'" for q xs s
    unfolding gather_one_def checked_time_def
    by (auto simp: run_simps ex_local_parts calm_time ex_surroundings_def) (auto simp: calm_def)
  have "calm ks s \<Longrightarrow> \<exists>s'. each (gather_one ex_local) qs xs s = Some (Inr xs, s') \<and> calm ks s'" for xs s
  proof (induction qs arbitrary: s)
    case (Cons q qs)
    from one [OF Cons.prems] obtain s1 where s1: "gather_one ex_local q xs s = Some (Inr xs, s1)" "calm ks s1" by blast
    with Cons.IH [OF s1(2)] show ?case by (simp add: seq_def)
  qed (simp add: give_def)
  then show "calm ks s \<Longrightarrow> \<exists>s'. gather ex_local qs s = Some (Inr [], s') \<and> calm ks s'" by (simp add: gather_def)
qed

lemma ex_local_supply: "calm [] s \<Longrightarrow> \<exists>s' ks. add_supplied ex_local [ex_url_given] [] s = Some (Inr [ex_given], s') \<and> calm ks s'"
  by (simp add: add_supplied_def supply_one_def Let_def run_simps ex_local_parts ex_address_key ex_surroundings_def ex_given_def)
    (auto simp: calm_def)

lemma ex_local_acquire: "calm ks s \<Longrightarrow> \<exists>s'. acquire ex_local True [ex_given] s = Some (Inr 1, s') \<and> has_read s'"
proof -
  assume c: "calm ks s"
  have given: "c_url ex_given = ex_url_given" "c_supplied ex_given" by (simp_all add: ex_given_def supplied_candidate_def)
  have env: "en_urls ex_surroundings = ex_address" "en_clock ex_surroundings = (\<lambda>_. 0)" by (simp_all add: ex_surroundings_def)
  have "select_candidates ex_local True [ex_given] s = Some (Inr [ex_given], s)"
    using c by (auto simp: select_candidates_def run_simps ex_local_parts env ex_address_key choose_candidates_def calm_def py_take_def
        default_limits_def given)
  moreover have "\<exists>s'. acquire_one ex_local ex_given 0 s = Some (Inr 1, s') \<and> has_read s'"
  proof -
    define b where "b = (snd (take_source (\<lambda>_. 0) ex_url_given (snd (check_time (\<lambda>_. 0) (dk_budget s)))))"
    have b: "take_source (\<lambda>_. 0) ex_url_given (b_readings_update Suc (dk_budget s)) = (Inr True, b)"
      "b_limits b = default_limits" "b_started b = 0" "\<forall>c. c \<noteq> MaxSources \<longrightarrow> b_counts b c = 0"
      using c by (simp_all add: b_def calm_time take_source_def take_budget_def still_clock calm_def default_limits_def)
    obtain so b' where f: "of_fetcher ex_local ex_given ''S1'' b = Some (Inr so, b')" "fetched_page so" "b_limits b' = default_limits"
      "b_started b' = 0" using ex_local_fetch [OF b(2-4)] by (auto simp: fetched_page_def)
    have d: "dec (Suc 0) = ''1''" by code_simp
    have r: "rp_candidates (dk_report s) = []" "rp_sources (dk_report s) = []" "rp_claims (dk_report s) = []"
      using c by (simp_all add: calm_def)
    have page: "so_status so = SOk" "so_passages so = [ex_page_text]" "so_source_id so = ''S1''"
      using f(2) by (simp_all add: fetched_page_def)
    show ?thesis using f(3,4)
      by (simp add: acquire_one_def run_simps ex_local_parts env checked_time_def calm_time [OF c] b given ex_address_key ask_fetcher_def Let_def
          d r f(1) add_to_sources_def found_by_def exhausting_error_def page has_read_def fetched_page_def)
  qed
  ultimately show ?thesis by (auto simp: acquire_def seq_def give_def)
qed

lemma page_facts: "fetched_page so \<Longrightarrow> usable_passages [so] = [ex_page_text]" "fetched_page so \<Longrightarrow> fetched_page (read_so_far ps so)"
proof -
  have "strip [97, 98] \<noteq> []" by (simp add: strip_def py_space_def)
  then show "fetched_page so \<Longrightarrow> usable_passages [so] = [ex_page_text]"
    by (simp add: usable_passages_def fetched_page_def usable_source_def ex_page_text_def new_passage_def)
qed (simp add: fetched_page_def read_so_far_def)

lemma page_selection: "fetched_page so \<Longrightarrow> select_passages ex_unicode [so] q 24 = [ex_page_text]"
proof -
  have "ranked_indexes (passage_scores ex_unicode q [ex_page_text]) = [0]"
    by (rule ranked_single) (simp add: passage_scores_def Let_def)
  then show "fetched_page so \<Longrightarrow> ?thesis" by (simp add: select_passages_def select_indexes_def Let_def page_facts(1))
qed

lemma page_groups: "\<exists>g. group_origins ex_address [so] = Some [g]"
  by (simp add: group_origins_def below_def Let_def find_root.simps)

lemma one_passage: "reduce_data ex_local ot task (ExtractData q subs pc pg vs [p]) = ExtractData q subs pc pg vs [p]"
  by (simp add: reduce_data_def ex_local_parts fit.simps)

lemma ex_local_examine: "has_read s \<Longrightarrow> \<exists>s'. examine ex_local 0 s = Some (Inr None, s') \<and> has_read s'"
proof -
  assume h: "has_read s"
  then obtain so where so: "rp_sources (dk_report s) = [so]" "fetched_page so" by (auto simp: has_read_def)
  obtain g where g: "group_origins ex_address [so] = Some [g]" using page_groups by blast
  have b: "selected_passages (limits_of s) = 24" "rp_claims (dk_report s) = []"
    "check_time (\<lambda>_. 0) (dk_budget s) = (Inr (), b_readings_update Suc (dk_budget s))"
    using h by (simp_all add: has_read_def default_limits_def still_clock)
  have env: "en_urls ex_surroundings = ex_address" "en_clock ex_surroundings = (\<lambda>_. 0)" by (simp_all add: ex_surroundings_def)
  have none: "validate_extraction [] ss pre = ([], [], [])" for ss pre by (simp add: validate_extraction_def)
  show ?thesis
    unfolding examine_def look_def Let_def b so(1) ex_local_parts page_selection [OF so(2)] env g
    using h
    by (simp add: Let_def extract_data_def call_model_def checked_time_def run_simps ex_local_parts env one_passage ask_model_def b so(1)
        ex_local_stage ex_tasks ex_no_claims_def none repair_def examine_claims_def failures_def propose_def add_gaps_def has_read_def
        page_facts(2) [OF so(2)])
qed

lemma ex_local_execute:
  assumes "calm [] s"
  shows "\<exists>s'. execute ex_local [ex_url_given] s = Some (Inr (), s') \<and> has_read s'"
proof -
  obtain s1 where s1: "plan_queries ex_local s = Some (Inr (p_queries ex_plan), s1)" "calm [] s1" using ex_local_plan [OF assms] by blast
  obtain s2 where s2: "gather ex_local (p_queries ex_plan) s1 = Some (Inr [], s2)" "calm [] s2" using ex_local_gather [OF s1(2)] by blast
  obtain s3 ks where s3: "add_supplied ex_local [ex_url_given] [] s2 = Some (Inr [ex_given], s3)" "calm ks s3"
    using ex_local_supply [OF s2(2)] by blast
  obtain s4 where s4: "acquire ex_local True [ex_given] s3 = Some (Inr 1, s4)" "has_read s4" using ex_local_acquire [OF s3(2)] by blast
  obtain s5 where s5: "examine ex_local 0 s4 = Some (Inr None, s5)" "has_read s5" using ex_local_examine [OF s4(2)] by blast
  show ?thesis unfolding execute_def ex_local_parts option.case execute_here_def
      seq_run [of "plan_queries ex_local", OF s1(1)] seq_run [of "gather ex_local (p_queries ex_plan)", OF s2(1)]
      seq_run [of "add_supplied ex_local [ex_url_given] []", OF s3(1)]
      seq_run [of "acquire ex_local True [ex_given]", OF s4(1)] first_round_end_def seq_run [of "examine ex_local 0", OF s5(1)]
    using s5(2) by (auto simp: finish_round_def Let_def stop_because_def run_simps no_readable_sources_def has_read_def fetched_page_def)
qed

lemma ex_local_start: "calm [] ex_local_desk" "budget_ok (dk_budget ex_local_desk)"
proof -
  have "0 \<le> limit_of default_limits c" for c by (cases c) (simp_all add: default_limits_def)
  moreover have "dk_budget ex_local_desk = new_budget (\<lambda>_. 0) default_limits" "rp_sources (dk_report ex_local_desk) = []"
    "rp_claims (dk_report ex_local_desk) = []" "rp_candidates (dk_report ex_local_desk) = []" "dk_candidates ex_local_desk = []"
    by (simp_all add: ex_local_desk_def local_desk_def new_desk_def new_report_def Let_def ex_local_parts [unfolded ex_local_def])
      (simp_all add: ex_parts_def ex_surroundings_def)
  ultimately show "calm [] ex_local_desk" "budget_ok (dk_budget ex_local_desk)"
    by (simp_all add: calm_def new_budget_def budget_ok_def)
qed

theorem local_run_names_are_unique_witness:
  "\<exists>s' so. execute (local_office ex_parts (\<lambda>_. False) []) [ex_url_given] ex_local_desk = Some (Inr (), s')
     \<and> rp_sources (dk_report s') = [so] \<and> so_source_id so = ''S1'' \<and> pa_text (hd (so_passages so)) = [97, 98]
     \<and> (\<forall>p \<in> set (so_passages so). pa_source_id p = ''S1'')"
proof -
  obtain s' where run: "execute (local_office ex_parts (\<lambda>_. False) []) [ex_url_given] ex_local_desk = Some (Inr (), s')" and h: "has_read s'"
    using ex_local_execute [OF ex_local_start(1)] by (auto simp: ex_local_def)
  obtain so where so: "rp_sources (dk_report s') = [so]" "fetched_page so" using h by (auto simp: has_read_def)
  have start: "rp_sources (dk_report ex_local_desk) = []" using ex_local_start(1) by (simp add: calm_def)
  have names: "so_source_id so = ''S1'' \<and> (\<forall>p \<in> set (so_passages so). pa_source_id p = ''S1'')"
    using local_run_names_are_unique [OF run start] so by (simp add: fetched_page_def)
  have "pa_text (hd (so_passages so)) = [97, 98]" using so(2) by (simp add: fetched_page_def ex_page_text_def new_passage_def)
  with run so(1) names show ?thesis by blast
qed

theorem local_run_within_budget_witness:
  "\<exists>r s'. research_run (local_office ex_parts (\<lambda>_. False) []) [97] [ex_url_given] False None ex_local_desk = Some (Inr r, s')
     \<and> b_counts (dk_budget s') ModelRequests \<le> 40 \<and> map so_source_id (rp_sources r) = [''S1'']"
proof -
  obtain s where s: "begin_run ex_local [97] ex_local_desk = Some (Inr (), s)" "calm [] s"
    using ex_local_start(1) by (simp add: begin_run_def run_simps calm_def new_report_def)
  obtain s' where s': "execute ex_local [ex_url_given] s = Some (Inr (), s')" "has_read s'" using ex_local_execute [OF s(2)] by blast
  have carry: "carry_out ex_local [ex_url_given] s = Some (Inr (), on_report classify s')"
    using s'(1) by (simp add: carry_out_def attempt_def seq_def change_def)
  have whole: "research_run ex_local [97] [ex_url_given] False None ex_local_desk
      = seq (conclude ex_local) (\<lambda>_. look (\<lambda>s. give (dk_report s))) (on_report classify s')"
    by (simp add: research_run_def ex_local_parts seq_run [of "begin_run ex_local [97]", OF s(1)]
        seq_run [of "carry_out ex_local [ex_url_given]", OF carry])
  have split: "\<exists>p. ur_split ex_address x = Some p" for x by (simp add: ex_address_def)
  obtain so where so: "rp_sources (dk_report s') = [so]" "so_source_id so = ''S1''" using s'(2) by (auto simp: has_read_def fetched_page_def)
  have "\<exists>r s2. seq (conclude ex_local) (\<lambda>_. look (\<lambda>s. give (dk_report s))) (on_report classify s') = Some (Inr r, s2)
      \<and> map so_source_id (rp_sources r) = [''S1'']"
    using so split [of "source_url so"]
    by (auto simp: ex_local_parts conclude_def close_clients_def classify_def Let_def run_simps ex_surroundings_def)
  then obtain r s2 where run: "research_run (local_office ex_parts (\<lambda>_. False) []) [97] [ex_url_given] False None ex_local_desk = Some (Inr r, s2)"
    and r: "map so_source_id (rp_sources r) = [''S1'']"
    using whole unfolding ex_local_def by metis
  have "b_counts (dk_budget s2) ModelRequests \<le> limit_of (limits_of ex_local_desk) ModelRequests"
    using local_run_within_budget [OF run ex_local_start(2)] by blast
  moreover have "limit_of (limits_of ex_local_desk) ModelRequests = 40" using ex_local_start(1) by (simp add: calm_def default_limits_def)
  ultimately show ?thesis using run r by auto
qed

end
