(* ===== verification/Remote_Collector.thy ===== *)
theory Remote_Collector
  imports Research_Office Client Lineage
begin

text \<open>
  \<open>remote_collector.py\<close>: the collector that hands the two stages of a run to workers, as a search job and an
  extract job of the manager, and waits for their results. It calls the manager through the modelled client;
  the clocks, the random tokens and the exceptions of the HTTP library are parameters. Elapsed times, the
  worker's name and the description in \<open>metadata\<close> are not kept.
\<close>

section \<open>The collector\<close>

record remote_settings =
  rt_link :: link
  rt_credential :: string
  rt_limits :: limits
  rt_target :: string
  rt_max_wait :: "real option"
  rt_deadline :: real
  rt_prefix :: string
  rt_monotonic :: "nat \<Rightarrow> real"
  rt_time :: "nat \<Rightarrow> real"
  rt_token :: "nat \<Rightarrow> string"
  rt_wire_error :: "nat \<Rightarrow> exn"
  rt_stamp :: string

text \<open>\<open>rk_reads\<close> counts the readings of the clocks and the tokens drawn; the world is that of the client.\<close>

record remote =
  rk_closed :: bool
  rk_parent :: "string option"
  rk_parent_deadline :: "real option"
  rk_used_search :: int
  rk_used_fetch :: int
  rk_used_model :: int
  rk_reads :: nat
  rk_world :: world

definition new_remote :: "manager \<Rightarrow> remote" where
  "new_remote m = \<lparr> rk_closed = False, rk_parent = None, rk_parent_deadline = None, rk_used_search = 0,
     rk_used_fetch = 0, rk_used_model = 0, rk_reads = 0, rk_world = (0, m) \<rparr>"

text \<open>A reading of a clock, or a token.\<close>

definition reading :: "(nat \<Rightarrow> 'a) \<Rightarrow> ('a, remote) task" where
  "reading f s = Some (Inr (f (rk_reads s)), s\<lparr> rk_reads := Suc (rk_reads s) \<rparr>)"

text \<open>A call of the client; its exceptions carry the manager's code, or are those of the HTTP library.\<close>

definition client_exn :: "remote_settings \<Rightarrow> nat \<Rightarrow> api_error \<Rightarrow> exn" where
  "client_exn rs n e = (case e of ManagerAPIError _ code \<Rightarrow> OtherError code | TransportError \<Rightarrow> rt_wire_error rs n
     | UnexpectedAnswer \<Rightarrow> OtherError ''KeyError'')"

definition calling :: "remote_settings \<Rightarrow> (world \<Rightarrow> 'a called) \<Rightarrow> ('a, remote) task" where
  "calling rs f s = (case f (rk_world s) of (r, w) \<Rightarrow>
     Some (map_sum (client_exn rs (fst (rk_world s))) id r, s\<lparr> rk_world := w \<rparr>))"

abbreviation remote_error :: "string \<Rightarrow> ('a, remote) task" where
  "remote_error code \<equiv> throw (OtherError code)"

section \<open>Allowances\<close>

definition remaining_limits :: "limits \<Rightarrow> remote \<Rightarrow> limits" where
  "remaining_limits l s = l\<lparr>
     max_queries := max 1 (max_queries l - rk_used_search s),
     search_requests := max 1 (search_requests l - rk_used_search s),
     max_sources := max 1 (max_sources l - rk_used_fetch s),
     fetch_requests := max 1 (fetch_requests l - rk_used_fetch s),
     model_requests := max 1 (model_requests l - rk_used_model s) \<rparr>"

definition record_usage :: "usage \<Rightarrow> remote \<Rightarrow> remote" where
  "record_usage u s = s\<lparr>
     rk_used_search := rk_used_search s + max 0 (u_search_requests u),
     rk_used_fetch := rk_used_fetch s + max 0 (u_fetch_requests u),
     rk_used_model := rk_used_model s + max 0 (u_model_requests u) \<rparr>"

section \<open>Jobs\<close>

definition job_key :: "remote_settings \<Rightarrow> string \<Rightarrow> nat \<Rightarrow> string \<Rightarrow> string" where
  "job_key rs kind n token = take 200
     ((if rt_prefix rs = [] then ''ephv'' @ [CONTRACT_VERSION ! 1, CHR ''.''] else rt_prefix rs)
        @ kind @ ''-'' @ dec n @ ''-'' @ token)"

definition child_seconds :: "remote_settings \<Rightarrow> real option \<Rightarrow> real \<Rightarrow> real" where
  "child_seconds rs parent_deadline now = (case parent_deadline of
     None \<Rightarrow> rt_deadline rs | Some d \<Rightarrow> min (rt_deadline rs) (max (1 / 1000) (d - now - 1 / 10)))"

definition used_up :: "remote_settings \<Rightarrow> job_mode \<Rightarrow> remote \<Rightarrow> string option" where
  "used_up rs mode s =
     (let l = rt_limits rs in
      if mode = SearchMode \<and> min (max_queries l) (search_requests l) \<le> rk_used_search s
      then Some ''parent_search_budget_exhausted''
      else if mode = ExtractMode \<and> min (max_sources l) (fetch_requests l) \<le> rk_used_fetch s
      then Some ''parent_fetch_budget_exhausted'' else None)"

definition kind_of_mode :: "job_mode \<Rightarrow> string" where
  "kind_of_mode mode = (case mode of SearchMode \<Rightarrow> ''search'' | ExtractMode \<Rightarrow> ''extract'' | ObserveMode \<Rightarrow> ''observe'')"

text \<open>\<open>_payload_base\<close> with the input that the caller adds to it. A job without a parent does not read the clock.\<close>

definition job_request ::
  "remote_settings \<Rightarrow> nat \<Rightarrow> job_input \<Rightarrow> string \<Rightarrow> real \<Rightarrow> remote \<Rightarrow> submit_job" where
  "job_request rs n input token now s =
     \<lparr> s_contract = CONTRACT_VERSION, s_submit_key = job_key rs (kind_of_mode (input_mode input)) n token,
       s_parent_job_id = rk_parent s, s_kind = WebCollect, s_input = input, s_target_worker_id = rt_target rs,
       s_budget = remaining_limits (rt_limits rs) s,
       s_deadline_seconds = child_seconds rs (rk_parent_deadline s) now \<rparr>"

definition payload_base :: "remote_settings \<Rightarrow> job_mode \<Rightarrow> nat \<Rightarrow> (job_input \<Rightarrow> submit_job, remote) task" where
  "payload_base rs mode n = look (\<lambda>s.
     case used_up rs mode s of
       Some code \<Rightarrow> remote_error code
     | None \<Rightarrow>
         seq (if rk_parent_deadline s = None then give 0 else reading (rt_time rs)) (\<lambda>now.
         seq (reading (rt_token rs)) (\<lambda>token.
         if valid_limits (remaining_limits (rt_limits rs) s)
         then give (\<lambda>input. job_request rs n input token now s)
         else remote_error ''ValidationError'')))"

text \<open>The queries of a job; a query that \<open>JobQuery\<close> does not accept is a \<open>ValidationError\<close>.\<close>

fun job_queries :: "(utext \<Rightarrow> utext) \<Rightarrow> (string \<times> query) list \<Rightarrow> job_query list option" where
  "job_queries nf [] = Some []"
| "job_queries nf ((i, q) # items) =
     (case job_query_from_query nf q i of
        None \<Rightarrow> None | Some jq \<Rightarrow> map_option (Cons jq) (job_queries nf items))"

abbreviation rt_nfkc :: "remote_settings \<Rightarrow> utext \<Rightarrow> utext" where
  "rt_nfkc rs \<equiv> nfkc (ap_library (lk_app (rt_link rs)))"

definition search_request ::
  "remote_settings \<Rightarrow> (string \<times> query) list \<Rightarrow> nat \<Rightarrow> utext \<Rightarrow> (submit_job, remote) task" where
  "search_request rs items n topic =
     seq (payload_base rs SearchMode n) (\<lambda>base.
       case job_queries (rt_nfkc rs) items of
         None \<Rightarrow> remote_error ''ValidationError''
       | Some qs \<Rightarrow> give (base (SearchIn \<lparr> si_topic = topic, si_round_index = int n, si_queries = qs \<rparr>)))"

text \<open>Fields that are not sent take their defaults when the manager reads the job; \<open>rt_stamp\<close> is its
  \<open>utc_now()\<close>.\<close>

definition candidate_input :: "remote_settings \<Rightarrow> candidate \<Rightarrow> candidate" where
  "candidate_input rs c =
     \<lparr> c_url = c_url c, c_title = c_title c, c_snippet = c_snippet c, c_query_id = c_query_id c,
       c_engine = c_engine c, c_rank = 0, c_discovered_at = rt_stamp rs, c_supplied = False \<rparr>"

definition extract_request ::
  "remote_settings \<Rightarrow> (string \<times> candidate) list \<Rightarrow> nat \<Rightarrow> utext \<Rightarrow> (submit_job, remote) task" where
  "extract_request rs items n topic =
     seq (payload_base rs ExtractMode n) (\<lambda>base.
       give (base (ExtractIn \<lparr> ei_topic = topic, ei_round_index = int n,
         ei_candidates = map (candidate_input rs \<circ> snd) items \<rparr>)))"

section \<open>Waiting for a result\<close>

text \<open>What becomes of the pack of a finished job.\<close>

definition adopt_parent :: "job_row \<Rightarrow> remote \<Rightarrow> remote" where
  "adopt_parent row s = (if rk_parent s = None
     then s\<lparr> rk_parent := Some (j_job_id row), rk_parent_deadline := Some (j_deadline_at row) \<rparr> else s)"

definition take_result :: "remote_settings \<Rightarrow> job_row \<Rightarrow> (envelope, remote) task" where
  "take_result rs row =
     seq (calling rs (client_job_result (rt_link rs) (rt_credential rs) (j_job_id row))) (\<lambda>(_, r).
       case r of
         None \<Rightarrow> remote_error ''invalid_result_envelope''
       | Some e \<Rightarrow>
           if \<not> valid_envelope (ap_json_size (lk_app (rt_link rs))) e then remote_error ''ValidationError''
           else seq (change (record_usage (e_usage e))) (\<lambda>_.
                seq (change (adopt_parent row)) (\<lambda>_. give e)))"

definition ended_code :: "job_state \<Rightarrow> string" where
  "ended_code st = (case st of Failed \<Rightarrow> ''job_failed'' | job_state.Cancelled \<Rightarrow> ''job_cancelled'' | _ \<Rightarrow> ''job_lost'')"

partial_function (option) poll ::
  "remote_settings \<Rightarrow> string \<Rightarrow> real \<Rightarrow> job_row \<Rightarrow> remote \<Rightarrow> ((exn + envelope) \<times> remote) option" where
  "poll rs kind deadline row s =
     (if j_state row = Completed \<or> j_state row = Partial then take_result rs row s
      else if j_state row = Failed \<or> j_state row = job_state.Cancelled \<or> j_state row = Lost
      then Some (Inl (OtherError (ended_code (j_state row))), s)
      else let s1 = s\<lparr> rk_reads := Suc (rk_reads s) \<rparr> in
        if deadline \<le> rt_monotonic rs (rk_reads s) then Some (Inl (OtherError (kind @ ''_timeout'')), s1)
        else (case client_get_job (rt_link rs) (rt_credential rs) (j_job_id row) (rk_world s1) of
            (Inl e, w) \<Rightarrow> Some (Inl (client_exn rs (fst (rk_world s1)) e), s1\<lparr> rk_world := w \<rparr>)
          | (Inr v, w) \<Rightarrow> poll rs kind deadline (v_row v) (s1\<lparr> rk_world := w \<rparr>)))"

definition wait_until :: "remote_settings \<Rightarrow> real \<Rightarrow> real" where
  "wait_until rs started = (case rt_max_wait rs of None \<Rightarrow> started + rt_deadline rs
     | Some m \<Rightarrow> min (started + rt_deadline rs) (started + m))"

definition run_remote_job :: "remote_settings \<Rightarrow> submit_job \<Rightarrow> (envelope, remote) task" where
  "run_remote_job rs job =
     seq (reading (rt_monotonic rs)) (\<lambda>started.
     seq (calling rs (client_submit (rt_link rs) (rt_credential rs) job)) (\<lambda>(v, _).
       poll rs (kind_of_mode (input_mode (s_input job))) (wait_until rs started) (v_row v)))"

section \<open>The stages\<close>

definition pack_exhausted :: "envelope \<Rightarrow> string option" where
  "pack_exhausted e = (if e_status e = RPartial then e_stop_reason e else None)"

definition pack_failure :: "failure \<Rightarrow> stage_failure" where
  "pack_failure f = \<lparr> sf_stage = fl_stage f, sf_query_id = fl_query_id f, sf_source_id = fl_source_id f, sf_url = None,
     sf_code = fl_code f, sf_detail = fl_detail f \<rparr>"

text \<open>\<open>payload.get("failures", [])\<close>. The manager stores an observation only for an observation job, which the
  collector never submits.\<close>

fun pack_failures :: "payload \<Rightarrow> stage_failure list" where
  "pack_failures (SearchPay p) = map pack_failure (sp_failures p)"
| "pack_failures (ExtractPay p) = map pack_failure (ep_failures p)"
| "pack_failures (ObservePay p) = []"

definition search_result :: "envelope \<Rightarrow> search_stage" where
  "search_result e =
     \<lparr> ss_queries = (case e_payload e of SearchPay p \<Rightarrow> sp_queries p | _ \<Rightarrow> []),
       ss_candidates = (case e_payload e of SearchPay p \<Rightarrow> sp_candidates p | _ \<Rightarrow> []),
       ss_failures = pack_failures (e_payload e), ss_exhausted = pack_exhausted e, ss_usage = e_usage e \<rparr>"

definition extract_result :: "envelope \<Rightarrow> extract_stage" where
  "extract_result e =
     \<lparr> es_sources = (case e_payload e of ExtractPay p \<Rightarrow> ep_sources p | _ \<Rightarrow> []),
       es_failures = pack_failures (e_payload e), es_exhausted = pack_exhausted e, es_usage = e_usage e \<rparr>"

definition remote_search ::
  "remote_settings \<Rightarrow> (string \<times> query) list \<Rightarrow> nat \<Rightarrow> utext \<Rightarrow> (search_stage, remote) task" where
  "remote_search rs items n topic = look (\<lambda>s.
     if rk_closed s then remote_error ''collector_closed''
     else if items = [] then give new_search_stage
     else seq (search_request rs items n topic) (\<lambda>job.
          seq (run_remote_job rs job) (\<lambda>e. give (search_result e))))"

definition remote_extract ::
  "remote_settings \<Rightarrow> (string \<times> candidate) list \<Rightarrow> nat \<Rightarrow> utext \<Rightarrow> (extract_stage, remote) task" where
  "remote_extract rs items n topic = look (\<lambda>s.
     if rk_closed s then remote_error ''collector_closed''
     else if items = [] then give new_extract_stage
     else seq (extract_request rs items n topic) (\<lambda>job.
          seq (run_remote_job rs job) (\<lambda>e. give (extract_result e))))"

definition close_remote :: "remote \<Rightarrow> remote" where
  "close_remote s = s\<lparr> rk_closed := True \<rparr>"

definition remote_collector :: "remote_settings \<Rightarrow> remote collector" where
  "remote_collector rs = \<lparr> co_search = remote_search rs, co_extract = remote_extract rs \<rparr>"

end
