(* ===== verification/Remote_Jobs.thy ===== *)
theory Remote_Jobs
  imports Remote_Collector Delivery
begin

text \<open>
  What the remote collector gets and asks for: a stage it reports is the result a job of the manager holds, its
  counters are the sum of what those jobs used, its requests stay within the limits, waiting ends when time
  passes, and which follow-up jobs the manager refuses.
\<close>

section \<open>What each step does to the collector\<close>

text \<open>The world apart, only a result that was taken changes the collector.\<close>

definition same_books :: "remote \<Rightarrow> remote \<Rightarrow> bool" where
  "same_books s t \<longleftrightarrow> rk_closed t = rk_closed s \<and> rk_parent t = rk_parent s \<and> rk_parent_deadline t = rk_parent_deadline s
     \<and> rk_used_search t = rk_used_search s \<and> rk_used_fetch t = rk_used_fetch s \<and> rk_used_model t = rk_used_model s"

interpretation books: progress same_books
  by unfold_locales (auto simp: same_books_def)

lemma reading_follows [following]: "follows same_books (reading f)"
  by (auto simp: follows_def reading_def same_books_def)

lemma calling_books [following]: "follows same_books (calling rs f)"
  by (auto simp: follows_def calling_def same_books_def split: prod.splits)

section \<open>A result that was taken\<close>

lemma seq_Inr: "seq m f s = Some (Inr y, s') \<longleftrightarrow> (\<exists>x t. m s = Some (Inr x, t) \<and> f x t = Some (Inr y, s'))"
  by (auto simp: seq_def split: option.splits sum.splits)

lemma calling_Inr: "calling rs f s = Some (Inr x, t) \<longleftrightarrow> (\<exists>w. f (rk_world s) = (Inr x, w) \<and> t = s\<lparr> rk_world := w \<rparr>)"
  by (auto simp: calling_def split: prod.splits sum.splits) (metis Inr_inject map_sum.simps(2) id_apply sum.exhaust map_sum.simps(1) sum.distinct(1))+

text \<open>The manager's table holds the result it answers with.\<close>

definition holds_result :: "manager \<Rightarrow> string \<Rightarrow> envelope \<Rightarrow> bool" where
  "holds_result m k e \<longleftrightarrow> (\<exists>row. job_row_of m k = Some row \<and> terminal (j_state row) \<and> j_result row = Some e)"

lemma job_result_held: "job_result cfg ck k m = (Inr e, m') \<Longrightarrow> holds_result m' k e"
  by (auto simp: job_result_def job_view_def holds_result_def view_of_def Let_def split: prod.splits sum.splits option.splits if_splits)

lemma client_result_held:
  assumes "client_job_result lk c k w = (Inr (v, Some e), w')"
  shows "holds_result (snd w') k e"
proof -
  let ?rq = "bare_request c (GetResult k)"
  have r: "fst (client_job_result lk c k w) = Inr (v, Some e)" "w' = snd (call lk ?rq w)"
    using assms by (simp_all add: client_job_result_def prod_eq_iff)
  then obtain x where x: "fst (call lk ?rq w) = Inr x" "(case x of ResultView v r \<Rightarrow> Some (v, r) | _ \<Rightarrow> None) = Some (v, Some e)"
    by (auto simp: client_job_result_def fst_expecting_Inr)
  have a: "fst (call lk ?rq w) = Inr (ResultView v (Some e))" "w' = snd (call lk ?rq w)"
    using x r(2) by (cases x; simp)+
  let ?m = "lk_others lk (fst w) (snd w)" and ?clk = "lk_clock lk (fst w)"
  obtain h m' where h: "require_requester (lk_app lk) ?rq (result_handler (lk_app lk) ?clk k) ?m = (h, m')" by (metis surj_pair)
  have s: "snd w' = m'" "rp_answer (case h of Inl e \<Rightarrow> error_reply e | Inr r \<Rightarrow> r) = ResultView v (Some e)"
    using call_answered(1,2) [OF a(1)] a(2) h by (auto simp: serve_def bare_request_def split: sum.splits)
  have "\<And>x. rp_answer (error_reply x) \<noteq> ResultView v (Some e)" by (case_tac x) (simp_all add: reply_def)
  with s h show ?thesis
    by (auto simp: require_requester_def result_handler_def reply_def split: sum.splits option.splits prod.splits if_splits
        dest!: job_result_held)
qed

lemma take_result_facts:
  assumes "take_result rs row s = Some (Inr e, s')"
  obtains w where "s' = adopt_parent row (record_usage (e_usage e) (s\<lparr> rk_world := w \<rparr>))"
    "holds_result (snd w) (j_job_id row) e" "valid_usage (e_usage e)"
proof -
  from assms obtain x t where t: "calling rs (client_job_result (rt_link rs) (rt_credential rs) (j_job_id row)) s = Some (Inr x, t)"
    "(case x of (_, r) \<Rightarrow> (case r of None \<Rightarrow> remote_error ''invalid_result_envelope''
       | Some e \<Rightarrow> if \<not> valid_envelope (ap_json_size (lk_app (rt_link rs))) e then remote_error ''ValidationError''
           else seq (change (record_usage (e_usage e))) (\<lambda>_. seq (change (adopt_parent row)) (\<lambda>_. give e)))) t = Some (Inr e, s')"
    unfolding take_result_def seq_Inr by blast
  obtain v e' where x: "x = (v, Some e')" "valid_envelope (ap_json_size (lk_app (rt_link rs))) e'" "e' = e"
    "s' = adopt_parent row (record_usage (e_usage e) t)"
    using t(2) by (auto simp: throw_def seq_def change_def give_def split: prod.splits option.splits if_splits)
  obtain w where "client_job_result (rt_link rs) (rt_credential rs) (j_job_id row) (rk_world s) = (Inr (v, Some e), w)"
    "t = s\<lparr> rk_world := w \<rparr>"
    using t(1) x by (auto simp: calling_Inr)
  with x show ?thesis by (auto intro: that dest: client_result_held simp: valid_envelope_def)
qed

text \<open>Waiting ends in taking the result of a finished job, with the books as they were.\<close>

lemma poll_takes:
  "poll rs kind d row s = Some y \<Longrightarrow> fst y = Inr e \<Longrightarrow>
     \<exists>row1 s1. take_result rs row1 s1 = Some y \<and> same_books s s1"
proof (induction rule: poll.raw_induct [rotated, consumes 1, case_names step])
  case (step pl rs kind d row s y)
  let ?s1 = "s\<lparr> rk_reads := Suc (rk_reads s) \<rparr>"
  obtain g w where g: "client_get_job (rt_link rs) (rt_credential rs) (j_job_id row) (rk_world s) = (g, w)"
    by (cases "client_get_job (rt_link rs) (rt_credential rs) (j_job_id row) (rk_world s)")
  consider "take_result rs row s = Some y" | row1 where "pl rs kind d row1 (?s1\<lparr> rk_world := w \<rparr>) = Some y"
    using step.prems step.hyps g by (cases g) (auto simp: Let_def split: if_splits)
  then show ?case
  proof cases
    case 1
    then show ?thesis by (auto simp: same_books_def)
  next
    case 2
    from step.IH [OF this step.prems] show ?thesis by (auto simp: same_books_def)
  qed
qed

text \<open>Waiting ends when the clock passes the deadline: at the first reading that shows it the wait is given up without
  another request, and before it each reading allows one.\<close>

lemma client_counts [simp]:
  "fst (snd (client_get_job lk c k w)) = Suc (fst w)" "fst (snd (client_job_result lk c k w)) = Suc (fst w)"
  "fst (snd (client_submit lk c j w)) = Suc (fst w)"
  by (simp_all add: client_get_job_def client_job_result_def client_submit_def expecting_def call_def Let_def split: wire.split)

lemma calling_counts:
  assumes "\<And>w. fst (snd (f w)) = Suc (fst w)"
  obtains r t where "calling rs f s = Some (r, t)" "rk_reads t = rk_reads s" "fst (rk_world t) = Suc (fst (rk_world s))"
    "rk_parent_deadline t = rk_parent_deadline s"
  using that assms [of "rk_world s"] by (simp add: calling_def case_prod_beta)

lemma take_result_counts:
  "\<exists>r t. take_result rs row s = Some (r, t) \<and> rk_reads t = rk_reads s \<and> fst (rk_world t) = Suc (fst (rk_world s))"
proof -
  obtain r t where t: "calling rs (client_job_result (rt_link rs) (rt_credential rs) (j_job_id row)) s = Some (r, t)"
    "rk_reads t = rk_reads s" "fst (rk_world t) = Suc (fst (rk_world s))"
    by (rule calling_counts [of "client_job_result (rt_link rs) (rt_credential rs) (j_job_id row)" rs s]) simp
  have "rk_reads (adopt_parent row (record_usage u t)) = rk_reads t" "rk_world (adopt_parent row (record_usage u t)) = rk_world t" for u
    by (simp_all add: adopt_parent_def record_usage_def)
  with t show ?thesis
    by (cases r) (auto simp: take_result_def seq_def throw_def change_def give_def split: option.split prod.split)
qed

text \<open>The readings and the requests of a wait that starts with reading \<open>i\<close> and is over with reading \<open>k\<close>.\<close>

definition in_time :: "string \<Rightarrow> nat \<Rightarrow> nat \<Rightarrow> remote \<Rightarrow> exn + 'a \<Rightarrow> remote \<Rightarrow> bool" where
  "in_time kind i k s r t \<longleftrightarrow> rk_reads t \<le> Suc k \<and> fst (rk_world t) \<le> fst (rk_world s) + (k - i) + 1
     \<and> (rk_reads t = Suc k \<longrightarrow> r = Inl (OtherError (kind @ ''_timeout'')) \<and> fst (rk_world t) \<le> fst (rk_world s) + (k - i))"

lemma poll_in_time:
  assumes "d \<le> rt_monotonic rs k"
  shows "rk_reads s \<le> k \<Longrightarrow> \<exists>r t. poll rs kind d row s = Some (r, t) \<and> in_time kind (rk_reads s) k s r t"
proof (induction "k - rk_reads s" arbitrary: row s rule: less_induct)
  case less
  let ?s1 = "s\<lparr> rk_reads := Suc (rk_reads s) \<rparr>"
  obtain r t where take: "take_result rs row s = Some (r, t)" "rk_reads t = rk_reads s" "fst (rk_world t) = Suc (fst (rk_world s))"
    using take_result_counts by blast
  show ?case
  proof (cases "active_state (j_state row) \<or> j_state row = Queued")
    case False
    then show ?thesis using less.prems take
      by (subst poll.simps) (cases "j_state row"; simp add: in_time_def)
  next
    case wait: True
    obtain g w where g: "client_get_job (rt_link rs) (rt_credential rs) (j_job_id row) (rk_world s) = (g, w)" "fst w = Suc (fst (rk_world s))"
      using client_counts(1) [of "rt_link rs" "rt_credential rs" "j_job_id row" "rk_world s"] by (metis prod.collapse snd_conv)
    have step: "poll rs kind d row s = (if d \<le> rt_monotonic rs (rk_reads s) then Some (Inl (OtherError (kind @ ''_timeout'')), ?s1)
        else case g of Inl e \<Rightarrow> Some (Inl (client_exn rs (fst (rk_world s)) e), ?s1\<lparr> rk_world := w \<rparr>)
          | Inr v \<Rightarrow> poll rs kind d (v_row v) (?s1\<lparr> rk_world := w \<rparr>))"
      using wait g by (subst poll.simps) (auto simp: Let_def active_state_def split: sum.split)
    show ?thesis
    proof (cases "d \<le> rt_monotonic rs (rk_reads s)")
      case True
      then show ?thesis using less.prems unfolding step by (simp add: in_time_def)
    next
      case False
      then have lt: "rk_reads s < k" using assms less.prems by (cases "rk_reads s = k") auto
      show ?thesis
      proof (cases g)
        case (Inl e)
        then show ?thesis using lt False g(2) unfolding step by (simp add: in_time_def)
      next
        case (Inr v)
        obtain r' t' where r: "poll rs kind d (v_row v) (?s1\<lparr> rk_world := w \<rparr>) = Some (r', t')"
          "in_time kind (Suc (rk_reads s)) k (?s1\<lparr> rk_world := w \<rparr>) r' t'"
          using less.hyps [of "?s1\<lparr> rk_world := w \<rparr>" "v_row v"] lt diff_less_mono2 [of "rk_reads s" "Suc (rk_reads s)" k] by auto
        then show ?thesis using Inr lt False g(2) unfolding step by (auto simp: in_time_def)
      qed
    qed
  qed
qed

lemma remote_job_in_time:
  assumes "rk_reads s < k" and "rt_monotonic rs (rk_reads s) + rt_deadline rs \<le> rt_monotonic rs k
      \<or> (\<exists>m. rt_max_wait rs = Some m \<and> rt_monotonic rs (rk_reads s) + m \<le> rt_monotonic rs k)"
  shows "\<exists>r t. run_remote_job rs job s = Some (r, t) \<and> in_time (kind_of_mode (input_mode (s_input job))) (rk_reads s) k s r t"
proof -
  let ?s1 = "s\<lparr> rk_reads := Suc (rk_reads s) \<rparr>" and ?d = "wait_until rs (rt_monotonic rs (rk_reads s))"
  have d: "?d \<le> rt_monotonic rs k" using assms(2) by (auto simp: wait_until_def split: option.split)
  obtain r t where t: "calling rs (client_submit (rt_link rs) (rt_credential rs) job) ?s1 = Some (r, t)"
    "rk_reads t = Suc (rk_reads s)" "fst (rk_world t) = Suc (fst (rk_world s))"
    by (rule calling_counts [of "client_submit (rt_link rs) (rt_credential rs) job" rs ?s1]) simp_all
  show ?thesis
  proof (cases r)
    case (Inl e)
    then show ?thesis using t assms(1) by (simp add: run_remote_job_def seq_def reading_def in_time_def)
  next
    case (Inr x)
    obtain r' t' where "poll rs (kind_of_mode (input_mode (s_input job))) ?d (v_row (fst x)) t = Some (r', t')"
      "in_time (kind_of_mode (input_mode (s_input job))) (rk_reads t) k t r' t'"
      using poll_in_time [OF d, of t] t(2) assms(1) by (metis Suc_leI)
    then show ?thesis using Inr t assms(1)
      by (auto simp: run_remote_job_def seq_def reading_def in_time_def case_prod_beta)
  qed
qed

text \<open>The reading at which a stage starts to wait: after the token and, with a parent job, the time.\<close>

definition wait_reading :: "remote \<Rightarrow> nat" where
  "wait_reading s = rk_reads s + (if rk_parent_deadline s = None then 1 else 2)"

lemma payload_base_reads:
  "\<exists>r t. payload_base rs mode n s = Some (r, t) \<and> rk_world t = rk_world s \<and> rk_reads t \<le> wait_reading s
    \<and> (\<forall>base. r = Inr base \<longrightarrow> rk_reads t = wait_reading s \<and> (\<exists>token now. base = (\<lambda>input. job_request rs n input token now s)))"
  by (auto simp: payload_base_def look_def seq_def reading_def throw_def give_def wait_reading_def split: option.split)

lemma stage_in_time:
  assumes "wait_reading s < k" and "rt_monotonic rs (wait_reading s) + rt_deadline rs \<le> rt_monotonic rs k
      \<or> (\<exists>m. rt_max_wait rs = Some m \<and> rt_monotonic rs (wait_reading s) + m \<le> rt_monotonic rs k)"
    and "req s = Some (r, t)" "rk_world t = rk_world s" "rk_reads t \<le> wait_reading s"
    and "\<And>job. r = Inr job \<Longrightarrow> rk_reads t = wait_reading s \<and> kind_of_mode (input_mode (s_input job)) = kind"
  shows "\<exists>r t. seq req (\<lambda>job. seq (run_remote_job rs job) (\<lambda>e. give (f e))) s = Some (r, t) \<and> in_time kind (wait_reading s) k s r t"
proof (cases r)
  case (Inl e)
  then show ?thesis using assms(1,3-5) by (simp add: seq_def in_time_def)
next
  case (Inr job)
  have t: "rk_reads t = wait_reading s" "kind_of_mode (input_mode (s_input job)) = kind" using assms(6) [OF Inr] by simp_all
  obtain r' t' where j: "run_remote_job rs job t = Some (r', t')" "in_time kind (wait_reading s) k t r' t'"
    using remote_job_in_time [of t k rs job] assms(1,2) t by auto
  then show ?thesis using assms(3,4) Inr
    by (cases r') (simp_all add: seq_def give_def in_time_def)
qed

section \<open>A job from its request to its result\<close>

text \<open>What taking the result of job \<open>k\<close> does to the books.\<close>

definition booked :: "string \<Rightarrow> envelope \<Rightarrow> remote \<Rightarrow> remote \<Rightarrow> bool" where
  "booked k e s t \<longleftrightarrow> rk_used_search t = rk_used_search s + u_search_requests (e_usage e)
     \<and> rk_used_fetch t = rk_used_fetch s + u_fetch_requests (e_usage e)
     \<and> rk_used_model t = rk_used_model s + u_model_requests (e_usage e)
     \<and> rk_parent t = (case rk_parent s of None \<Rightarrow> Some k | Some p \<Rightarrow> Some p)"

lemma remote_job_facts:
  assumes "run_remote_job rs job s = Some (Inr e, s')"
  obtains k where "holds_result (snd (rk_world s')) k e" "booked k e s s'" "valid_usage (e_usage e)"
proof -
  obtain started t0 x t1 where t: "reading (rt_monotonic rs) s = Some (Inr started, t0)"
    "calling rs (client_submit (rt_link rs) (rt_credential rs) job) t0 = Some (Inr x, t1)"
    "poll rs (kind_of_mode (input_mode (s_input job))) (wait_until rs started) (v_row (fst x)) t1 = Some (Inr e, s')"
    using assms unfolding run_remote_job_def seq_Inr by (auto split: prod.splits)
  obtain row1 s1 where s1: "take_result rs row1 s1 = Some (Inr e, s')" "same_books t1 s1"
    using poll_takes [OF t(3)] by auto
  have "same_books s s1"
    using followsD [OF reading_follows t(1)] followsD [OF calling_books t(2)] s1(2) by (meson books.later)
  then show ?thesis
    by (rule_tac take_result_facts [OF s1(1)])
      (auto intro!: that [of "j_job_id row1"] simp: booked_def adopt_parent_def record_usage_def same_books_def valid_usage_def
        split: option.splits)
qed

lemma payload_base_Inr:
  "payload_base rs mode n s = Some (Inr base, t) \<Longrightarrow> same_books s t \<and> used_up rs mode s = None
     \<and> (\<exists>token now. base = (\<lambda>input. job_request rs n input token now s))"
  by (auto simp: payload_base_def look_def seq_Inr reading_def same_books_def throw_def give_def split: option.splits if_splits)

lemma request_books: "same_books s t \<Longrightarrow> booked k e t u \<Longrightarrow> booked k e s u"
  by (simp add: same_books_def booked_def)

lemma remote_search_facts:
  assumes "remote_search rs items n topic s = Some (Inr r, s')" "items \<noteq> []"
  obtains k e where "holds_result (snd (rk_world s')) k e" "booked k e s s'" "r = search_result e" "valid_usage (e_usage e)"
proof -
  obtain job t e where t: "search_request rs items n topic s = Some (Inr job, t)" "run_remote_job rs job t = Some (Inr e, s')"
    "r = search_result e"
    using assms by (auto simp: remote_search_def look_def seq_Inr throw_def give_def split: if_splits)
  have "same_books s t"
    using t(1) unfolding search_request_def seq_Inr
    by (auto simp: throw_def give_def dest!: payload_base_Inr split: option.splits)
  then show ?thesis by (rule_tac remote_job_facts [OF t(2)]) (auto intro: that [OF _ _ t(3)] request_books)
qed

lemma remote_extract_facts:
  assumes "remote_extract rs items n topic s = Some (Inr r, s')" "items \<noteq> []"
  obtains k e where "holds_result (snd (rk_world s')) k e" "booked k e s s'" "r = extract_result e" "valid_usage (e_usage e)"
proof -
  obtain job t e where t: "extract_request rs items n topic s = Some (Inr job, t)" "run_remote_job rs job t = Some (Inr e, s')"
    "r = extract_result e"
    using assms by (auto simp: remote_extract_def look_def seq_Inr throw_def give_def split: if_splits)
  have "same_books s t"
    using t(1) unfolding extract_request_def seq_Inr by (auto simp: give_def dest!: payload_base_Inr)
  then show ?thesis by (rule_tac remote_job_facts [OF t(2)]) (auto intro: that [OF _ _ t(3)] request_books)
qed

section \<open>Allowances\<close>

lemma remaining_limits_fit:
  assumes "valid_limits l" "0 \<le> rk_used_search s" "0 \<le> rk_used_fetch s" "0 \<le> rk_used_model s"
  shows "valid_limits (remaining_limits l s)"
    "max_queries (remaining_limits l s) \<le> max_queries l" "search_requests (remaining_limits l s) \<le> search_requests l"
    "max_sources (remaining_limits l s) \<le> max_sources l" "fetch_requests (remaining_limits l s) \<le> fetch_requests l"
    "model_requests (remaining_limits l s) \<le> model_requests l"
  using assms by (auto simp: valid_limits_def remaining_limits_def max_def)

section \<open>The office of a remote run\<close>

text \<open>\<open>ResearchExecutor(..., collector=RemoteCollector(...))\<close>. The run makes no search provider and no fetcher of its
  own, and \<open>execute_remotely\<close> uses none.\<close>

definition remote_office ::
  "'w local_parts \<Rightarrow> remote_settings \<Rightarrow> ((search_object, 'w Models.wire, remote) desk \<Rightarrow> bool) \<Rightarrow> string list
   \<Rightarrow> (search_object, 'w Models.wire, remote) office" where
  "remote_office lo rs expired errors =
     \<lparr> of_env = lo_env lo, of_unicode = lo_unicode lo, of_provider = object_provider (lo_env lo) (lo_search lo),
       of_fetcher = public_fetcher (child_env (lo_parsers lo) (lo_limits lo) (lo_fetch lo)) (en_now (lo_env lo)),
       of_model = model_runner (lo_wires lo) (en_clock (lo_env lo)) (lo_profile lo) (lo_due lo) (lo_agents lo) (lo_schema lo),
       of_collector = Some (remote_collector rs), of_dumps = lo_dumps lo, of_public_text = lo_public_text lo,
       of_expired = expired, of_close_errors = errors, of_job_id = lo_job_id lo, of_profile_id = lo_profile_id lo \<rparr>"

lemma remote_within_budget: "office_within_budget (remote_office lo rs expired errors)"
proof -
  have "0 \<le> u_search_requests (ss_usage r)" if "remote_search rs items n topic s = Some (Inr r, s')" for items n topic r s s'
  proof (cases "items = []")
    case True
    with that show ?thesis
      by (auto simp: remote_search_def look_def throw_def give_def new_search_stage_def no_usage_def split: if_splits)
  qed (rule remote_search_facts [OF that], simp_all add: search_result_def valid_usage_def)
  moreover have "0 \<le> u_fetch_requests (es_usage r)" if "remote_extract rs items n topic s = Some (Inr r, s')" for items n topic r s s'
  proof (cases "items = []")
    case True
    with that show ?thesis
      by (auto simp: remote_extract_def look_def throw_def give_def new_extract_stage_def no_usage_def split: if_splits)
  qed (rule remote_extract_facts [OF that], simp_all add: extract_result_def valid_usage_def)
  ultimately show ?thesis using local_within_budget [of lo "\<lambda>_. False" errors]
    by (auto simp: office_within_budget_def local_office_def remote_office_def remote_collector_def)
qed

interpretation remote_run: thrifty_office "remote_office lo rs expired errors" for lo rs expired errors
  by (rule thrifty_office.intro [OF remote_within_budget])

section \<open>Properties\<close>

text \<open>C37. What the remote collector hands to a run as the outcome of a search with at least one query is the result
  pack that a finished job of the manager holds, field by field, and the collector's three counters, of searches,
  fetches and model calls, grow by exactly what that pack says was used. The job becomes the parent of later jobs
  unless there is one. (A search without queries asks for no job and yields an empty outcome.)\<close>

theorem remote_searches_are_stored_results:
  assumes "remote_search rs items n topic s = Some (Inr r, s')" "items \<noteq> []"
  shows "\<exists>k e row. job_row_of (snd (rk_world s')) k = Some row \<and> terminal (j_state row) \<and> j_result row = Some e
    \<and> r = search_result e
    \<and> rk_used_search s' = rk_used_search s + u_search_requests (ss_usage r)
    \<and> rk_used_fetch s' = rk_used_fetch s + u_fetch_requests (ss_usage r)
    \<and> rk_used_model s' = rk_used_model s + u_model_requests (ss_usage r)
    \<and> rk_parent s' = (case rk_parent s of None \<Rightarrow> Some k | Some p \<Rightarrow> Some p)"
  by (rule remote_search_facts [OF assms]) (auto simp: holds_result_def booked_def search_result_def)

text \<open>C38. A stage of the remote collector keeps to its time. Let \<open>i\<close> be the reading of the clocks at which the stage starts to
  wait, and \<open>k\<close> a later one at which the allowance for a job or the longest wait has passed since \<open>i\<close>. Then the stage
  returns, whatever the manager and the network answer, it reads no clock after \<open>k\<close>, and it sends at most two
  requests more than there are readings between \<open>i\<close> and \<open>k\<close>. If it was still waiting at \<open>k\<close>, it raises the timeout
  of its kind and sends nothing more.\<close>

theorem remote_stages_return:
  assumes "wait_reading s < k" and "rt_monotonic rs (wait_reading s) + rt_deadline rs \<le> rt_monotonic rs k
      \<or> (\<exists>m. rt_max_wait rs = Some m \<and> rt_monotonic rs (wait_reading s) + m \<le> rt_monotonic rs k)"
  shows "(\<exists>r t. remote_search rs items n topic s = Some (r, t) \<and> in_time ''search'' (wait_reading s) k s r t)
    \<and> (\<exists>r t. remote_extract rs chosen n topic s = Some (r, t) \<and> in_time ''extract'' (wait_reading s) k s r t)"
proof
  obtain r t where p: "payload_base rs SearchMode n s = Some (r, t)" "rk_world t = rk_world s" "rk_reads t \<le> wait_reading s"
    "\<And>base. r = Inr base \<Longrightarrow> rk_reads t = wait_reading s \<and> (\<exists>token now. base = (\<lambda>input. job_request rs n input token now s))"
    using payload_base_reads by meson
  have idle: "in_time kind (wait_reading s) k s r s" for kind r using assms(1) by (simp add: in_time_def wait_reading_def)
  define r' where "r' = fst (the (search_request rs items n topic s))"
  have req: "search_request rs items n topic s = Some (r', t)"
    "\<And>job. r' = Inr job \<Longrightarrow> rk_reads t = wait_reading s \<and> kind_of_mode (input_mode (s_input job)) = ''search''"
    using p by (cases r; cases "job_queries (rt_nfkc rs) items";
        force simp: r'_def search_request_def seq_def throw_def give_def job_request_def kind_of_mode_def)+
  have "\<exists>r t. seq (search_request rs items n topic) (\<lambda>job. seq (run_remote_job rs job) (\<lambda>e. give (search_result e))) s = Some (r, t)
      \<and> in_time ''search'' (wait_reading s) k s r t"
    by (rule stage_in_time [OF assms]) (use req p(2,3) in auto)
  with idle show "\<exists>r t. remote_search rs items n topic s = Some (r, t) \<and> in_time ''search'' (wait_reading s) k s r t"
    by (auto simp: remote_search_def look_def throw_def give_def)
next
  obtain r t where p: "payload_base rs ExtractMode n s = Some (r, t)" "rk_world t = rk_world s" "rk_reads t \<le> wait_reading s"
    "\<And>base. r = Inr base \<Longrightarrow> rk_reads t = wait_reading s \<and> (\<exists>token now. base = (\<lambda>input. job_request rs n input token now s))"
    using payload_base_reads by meson
  have idle: "in_time kind (wait_reading s) k s r s" for kind r using assms(1) by (simp add: in_time_def wait_reading_def)
  define r' where "r' = fst (the (extract_request rs chosen n topic s))"
  have req: "extract_request rs chosen n topic s = Some (r', t)"
    "\<And>job. r' = Inr job \<Longrightarrow> rk_reads t = wait_reading s \<and> kind_of_mode (input_mode (s_input job)) = ''extract''"
    using p by (cases r; force simp: r'_def extract_request_def seq_def give_def job_request_def kind_of_mode_def)+
  have "\<exists>r t. seq (extract_request rs chosen n topic) (\<lambda>job. seq (run_remote_job rs job) (\<lambda>e. give (extract_result e))) s = Some (r, t)
      \<and> in_time ''extract'' (wait_reading s) k s r t"
    by (rule stage_in_time [OF assms]) (use req p(2,3) in auto)
  with idle show "\<exists>r t. remote_extract rs chosen n topic s = Some (r, t) \<and> in_time ''extract'' (wait_reading s) k s r t"
    by (auto simp: remote_extract_def look_def throw_def give_def)
qed

text \<open>C39. When the collector's counters are those of the job's lineage, the manager refuses a follow-up job exactly if
  any of the five allowances is used up, not only those of the stage: a search that needed all its requests
  leaves no room for the extract job either, because the collector asks for at least one of everything.\<close>

theorem follow_up_jobs_need_every_allowance:
  assumes "rk_parent s = Some p" "job_row_of m p = Some parent" "terminal (j_state parent)" "j_kind parent = WebCollect"
    and "root_job (jobs m) (Suc (length (jobs m))) parent = Inr rt" "j_budget rt = rt_limits rs"
    and "lineage_used (j_job_id rt) (lineage (jobs m) (Suc (length (jobs m))) [rt])
      = \<lparr> us_search = rk_used_search s, us_fetch = rk_used_fetch s, us_model = rk_used_model s \<rparr>"
    and "t + child_seconds rs (rk_parent_deadline s) now \<le> j_deadline_at rt"
  shows "admit_child m (job_request rs n input token now s) t =
    (if max_queries (rt_limits rs) \<le> rk_used_search s \<or> search_requests (rt_limits rs) \<le> rk_used_search s
        \<or> max_sources (rt_limits rs) \<le> rk_used_fetch s \<or> fetch_requests (rt_limits rs) \<le> rk_used_fetch s
        \<or> model_requests (rt_limits rs) \<le> rk_used_model s
     then Some (ManagerError ''child_budget_exceeds_parent'' 409) else None)"
  using assms by (auto simp: admit_child_def validate_child_allocation_def job_request_def remaining_limits_def Let_def)

section \<open>An example\<close>

text \<open>A search job that a worker finishes between the first two calls of the collector.\<close>

definition ex_search_job :: submit_job where
  "ex_search_job = ex_submit ''k-search-0-x'' ''t''"

definition ex_found_row :: job_row where
  "ex_found_row = (new_job_row ex_lib 101 ''job-0001'' ex_search_job)\<lparr> j_state := Completed, j_worker_id := Some ''w1'',
     j_attempt_id := Some ''att-0001'', j_attempt_number := 1, j_result := Some ex_done \<rparr>"

definition ex_remote_link :: link where
  "ex_remote_link = ex_link\<lparr> lk_app := ex_app\<lparr> ap_submit := (\<lambda>_. Some ex_search_job) \<rparr>, lk_clock := (\<lambda>_ _. 101),
     lk_others := (\<lambda>n m. if n = 1 then m\<lparr> jobs := [ex_found_row] \<rparr> else m) \<rparr>"

definition ex_remote :: remote_settings where
  "ex_remote = \<lparr> rt_link = ex_remote_link, rt_credential = ''client'', rt_limits = default_limits, rt_target = ''auto'',
     rt_max_wait = None, rt_deadline = 900, rt_prefix = ''k-'', rt_monotonic = real, rt_time = real, rt_token = (\<lambda>_. ''x''),
     rt_wire_error = (\<lambda>_. FetchTimeout), rt_stamp = [] \<rparr>"

definition ex_items :: "(string \<times> query) list" where
  "ex_items = [(''q01'', \<lparr> q_text = ascii ''rust'', q_role = Overview, q_reason = ascii ''why'' \<rparr>)]"

lemma dec_zero: "dec 0 = ''0''"
  by code_simp

lemma ex_search_request:
  "search_request ex_remote ex_items 0 (ascii ''t'') (new_remote ex_idle)
     = Some (Inr ex_search_job, (new_remote ex_idle)\<lparr> rk_reads := 1 \<rparr>)"
proof -
  have l: "remaining_limits default_limits (new_remote ex_idle) = default_limits"
    by (simp add: remaining_limits_def new_remote_def default_limits_def)
  show ?thesis
    by (simp add: search_request_def payload_base_def look_def seq_def give_def used_up_def Let_def reading_def ex_remote_def l
        job_request_def ex_search_job_def ex_submit_def ex_input_def job_key_def ex_items_def job_query_from_query_def
        kind_of_mode_def child_seconds_def)
      (simp add: new_remote_def default_limits_def dec_zero ex_remote_link_def ex_link_def ex_app_def ex_lib_def
        valid_job_query_def readable_def blank_def ascii_def py_space_def id_string_def id_char_def alnum_char_def digit_char_def)
qed

definition ex_asked :: manager where
  "ex_asked = ex_idle\<lparr> jobs := [new_job_row ex_lib 101 ''job-0001'' ex_search_job] \<rparr>"

definition ex_answered :: manager where
  "ex_answered = ex_idle\<lparr> jobs := [ex_found_row] \<rparr>"

lemma ex_found_row_simps [simp]:
  "j_state ex_found_row = Completed" "j_job_id ex_found_row = ''job-0001''" "j_result ex_found_row = Some ex_done"
  "j_stop_reason ex_found_row = None" "j_kind ex_found_row = WebCollect" "j_deadline_at ex_found_row = 1001" "j_parent_job_id ex_found_row = None"
  "j_budget ex_found_row = default_limits"
  by (simp_all add: ex_found_row_def new_job_row_def ex_search_job_def ex_submit_def)

lemma ex_remote_link_simps:
  "lk_wire ex_remote_link n = Delivered" "lk_clock ex_remote_link n = (\<lambda>_. 101)"
  "lk_others ex_remote_link n m = (if n = 1 then m\<lparr> jobs := [ex_found_row] \<rparr> else m)"
  "authenticate_requester ex_cfg ''client'' = None"
  "ap_settings (lk_app ex_remote_link) = ex_cfg" "ap_library (lk_app ex_remote_link) = ex_lib"
  "ap_submit (lk_app ex_remote_link) v = Some ex_search_job" "ap_loads (lk_app ex_remote_link) d = Some (JObj [])"
  "lk_dump_submit ex_remote_link j = [1]" "lk_draws ex_remote_link n = ex_draws"
  by (simp_all add: ex_remote_link_def ex_link_def ex_app_def authenticate_requester_def compare_credential_def ascii_only_def ex_cfg_def)

lemma ex_no_expiry: "expire_observations t (ex_idle\<lparr> jobs := [ex_found_row] \<rparr>) = (0, ex_idle\<lparr> jobs := [ex_found_row] \<rparr>)"
  by (simp add: expire_observations_def retention_expired_def)

lemma ex_view_found: "job_view ex_cfg ck ''job-0001'' (ex_idle\<lparr> jobs := [ex_found_row] \<rparr>)
    = (Inr \<lparr> v_row = ex_found_row, v_wait_reason = None, v_usage = e_usage ex_done \<rparr>, ex_idle\<lparr> jobs := [ex_found_row] \<rparr>)"
  by (simp add: job_view_def ex_no_expiry job_row_of_def view_of_def row_usage_def)

lemmas ex_remote_handlers = require_requester_def bare_request_def ex_remote_link_simps answering_def ex_view_found

lemma ex_call_get:
  "client_get_job ex_remote_link ''client'' ''job-0001'' (1, ex_asked)
     = (Inr \<lparr> v_row = ex_found_row, v_wait_reason = None, v_usage = e_usage ex_done \<rparr>, (2, ex_answered))"
proof -
  have "route_handler (GetJob ''job-0001'') (lk_app ex_remote_link) (lk_clock ex_remote_link 1) (lk_draws ex_remote_link 1)
      (bare_request ''client'' (GetJob ''job-0001'')) (lk_others ex_remote_link 1 ex_asked)
      = (Inr (reply 200 (JobView \<lparr> v_row = ex_found_row, v_wait_reason = None, v_usage = e_usage ex_done \<rparr>)), ex_answered)"
    by (simp add: get_handler_def ex_remote_handlers ex_asked_def ex_answered_def)
  then show ?thesis
    using call_delivered [OF ex_remote_link_simps(1), of "bare_request ''client'' (GetJob ''job-0001'')" 1 ex_asked]
    by (simp add: client_get_job_def bare_request_def client_answer_def expecting_def reply_def)
qed

lemma ex_call_result:
  "client_job_result ex_remote_link ''client'' ''job-0001'' (2, ex_answered)
     = (Inr (\<lparr> v_row = ex_found_row, v_wait_reason = None, v_usage = e_usage ex_done \<rparr>, Some ex_done), (3, ex_answered))"
proof -
  have "route_handler (GetResult ''job-0001'') (lk_app ex_remote_link) (lk_clock ex_remote_link 2) (lk_draws ex_remote_link 2)
      (bare_request ''client'' (GetResult ''job-0001'')) (lk_others ex_remote_link 2 ex_answered)
      = (Inr (reply 200 (ResultView \<lparr> v_row = ex_found_row, v_wait_reason = None, v_usage = e_usage ex_done \<rparr> (Some ex_done))), ex_answered)"
    by (simp add: result_handler_def ex_remote_handlers ex_answered_def job_result_def ex_no_expiry)
  then show ?thesis
    using call_delivered [OF ex_remote_link_simps(1), of "bare_request ''client'' (GetResult ''job-0001'')" 2 ex_answered]
    by (simp add: client_job_result_def bare_request_def client_answer_def expecting_def reply_def)
qed

lemma ex_call_submit:
  "client_submit ex_remote_link ''client'' ex_search_job (0, ex_idle)
     = (Inr (\<lparr> v_row = new_job_row ex_lib 101 ''job-0001'' ex_search_job, v_wait_reason = None, v_usage = no_usage \<rparr>, True), (1, ex_asked))"
proof -
  have ok: "valid_submit (nfkc ex_lib) ex_search_job"
    using ex_valid_submit by (simp add: valid_submit_def ex_search_job_def ex_submit_def)
  have wait: "wait_reason ex_cfg ex_asked (new_job_row ex_lib 101 ''job-0001'' ex_search_job) 101 = Inr None"
    by (simp add: wait_reason_def new_job_row_def ex_search_job_def ex_submit_def ex_input_def eligible_workers_def
        required_capabilities_def ex_asked_def ex_idle_def fresh_worker_def ex_worker_def active_count_def empty_manager_def)
      (simp add: ex_cfg_def insort_key_left_comm)
  have "submit ex_cfg ex_lib (\<lambda>_. 101) ''job-0001'' ex_search_job ex_idle
      = (Inr (\<lparr> v_row = new_job_row ex_lib 101 ''job-0001'' ex_search_job, v_wait_reason = None, v_usage = no_usage \<rparr>, True), ex_asked)"
    using wait by (simp add: submit_def Let_def ex_asked_def ex_idle_def empty_manager_def admit_child_def)
       (simp add: ex_search_job_def ex_submit_def view_by_id_def job_row_of_def new_job_row_def view_of_def row_usage_def)
  then have "route_handler SubmitJob (lk_app ex_remote_link) (lk_clock ex_remote_link 0) (lk_draws ex_remote_link 0)
      ((bare_request ''client'' SubmitJob)\<lparr> rq_body := [[1]] \<rparr>) (lk_others ex_remote_link 0 ex_idle)
      = (Inr (created_reply (\<lparr> v_row = new_job_row ex_lib 101 ''job-0001'' ex_search_job, v_wait_reason = None, v_usage = no_usage \<rparr>, True)), ex_asked)"
    using ok by (simp add: submit_handler_def ex_remote_handlers with_body_def checked_json_def read_json_def read_body_def
        validated_def ex_draws_def)
  then show ?thesis
    using call_delivered [OF ex_remote_link_simps(1), of "(bare_request ''client'' SubmitJob)\<lparr> rq_body := [[1]] \<rparr>" 0 ex_idle]
    by (simp add: client_submit_def bare_request_def client_answer_def expecting_def reply_def ex_remote_link_simps created_reply_def)
qed

lemma ex_search_run:
  "\<exists>s'. remote_search ex_remote ex_items 0 (ascii ''t'') (new_remote ex_idle) = Some (Inr (search_result ex_done), s')"
proof -
  let ?row = "new_job_row ex_lib 101 ''job-0001'' ex_search_job"
  have row: "j_state ?row = Queued" "j_job_id ?row = ''job-0001''" by (simp_all add: new_job_row_def)
  have rs: "rt_link ex_remote = ex_remote_link" "rt_credential ex_remote = ''client''" "rt_monotonic ex_remote = real"
    "wait_until ex_remote x = x + 900" for x
    by (simp_all add: ex_remote_def wait_until_def)
  have done_valid: "valid_envelope js ex_done" for js
    using ex_done_valid(1) [of js] by (simp add: valid_envelope_def ex_done_fields)
  have take: "\<exists>s'. take_result ex_remote ex_found_row s = Some (Inr ex_done, s')" if "rk_world s = (2, ex_answered)" for s
    using that by (simp add: take_result_def seq_def calling_def rs ex_call_result done_valid change_def give_def)
  have poll: "\<exists>s'. poll ex_remote kind 901 ?row s = Some (Inr ex_done, s')" if "rk_world s = (1, ex_asked)" "rk_reads s = 2" for s kind
  proof -
    have "poll ex_remote kind 901 ex_found_row t = take_result ex_remote ex_found_row t" for t
      by (subst poll.simps) simp
    with that take [of "s\<lparr> rk_reads := 3, rk_world := (2, ex_answered) \<rparr>"] show ?thesis
      by (subst poll.simps) (simp add: row rs ex_call_get [simplified] Let_def)
  qed
  have new: "rk_reads (new_remote m) = 0" "rk_world (new_remote m) = (0, m)" "\<not> rk_closed (new_remote m)" for m
    by (simp_all add: new_remote_def)
  have "\<exists>s'. run_remote_job ex_remote ex_search_job ((new_remote ex_idle)\<lparr> rk_reads := 1 \<rparr>) = Some (Inr ex_done, s')"
    using poll [of "(new_remote ex_idle)\<lparr> rk_reads := 2, rk_world := (1, ex_asked) \<rparr>"]
    by (simp add: run_remote_job_def seq_def reading_def calling_def rs new ex_call_submit [simplified] numeral_2_eq_2)
  then show ?thesis
    using ex_search_request by (auto simp: remote_search_def look_def seq_def give_def new ex_items_def)
qed

definition ex_page :: candidate where
  "ex_page = \<lparr> c_url = ''https://a/'', c_title = [], c_snippet = [], c_query_id = ''q01'', c_engine = [], c_rank = 1,
     c_discovered_at = [], c_supplied = False \<rparr>"

text \<open>The same search, had it needed ten requests.\<close>

definition ex_costly :: manager where
  "ex_costly = ex_idle\<lparr> jobs := [ex_found_row\<lparr> j_result := Some (ex_done\<lparr> e_usage := no_usage\<lparr> u_search_requests := 10 \<rparr> \<rparr>) \<rparr>] \<rparr>"

definition ex_spent :: remote where
  "ex_spent = (new_remote ex_costly)\<lparr> rk_parent := Some ''job-0001'', rk_parent_deadline := Some 1001, rk_used_search := 10 \<rparr>"

lemma remote_searches_are_stored_results_witness:
  "\<exists>s' k row. remote_search ex_remote ex_items 0 (ascii ''t'') (new_remote ex_idle) = Some (Inr (search_result ex_done), s')
     \<and> job_row_of (snd (rk_world s')) k = Some row \<and> terminal (j_state row) \<and> rk_used_search s' = 1 \<and> rk_parent s' = Some k"
proof -
  obtain s' where run: "remote_search ex_remote ex_items 0 (ascii ''t'') (new_remote ex_idle) = Some (Inr (search_result ex_done), s')"
    using ex_search_run by blast
  have "ex_items \<noteq> []" by (simp add: ex_items_def)
  from remote_searches_are_stored_results [OF run this] obtain k row where
    "job_row_of (snd (rk_world s')) k = Some row" "terminal (j_state row)"
    "rk_used_search s' = rk_used_search (new_remote ex_idle) + u_search_requests (ss_usage (search_result ex_done))"
    "rk_parent s' = (case rk_parent (new_remote ex_idle) of None \<Rightarrow> Some k | Some p \<Rightarrow> Some p)" by blast
  moreover have "u_search_requests (ss_usage (search_result ex_done)) = 1"
    by (simp add: search_result_def ex_done_def ex_result_def)
  moreover have "rk_used_search (new_remote ex_idle) = 0" "rk_parent (new_remote ex_idle) = None" by (simp_all add: new_remote_def)
  ultimately show ?thesis using run by (intro exI [of _ s'] exI [of _ k] exI [of _ row]) simp
qed

lemma remote_stages_return_witness:
  "\<exists>r t. remote_search ex_remote ex_items 0 [] (new_remote ex_idle) = Some (r, t) \<and> rk_reads t \<le> 902 \<and> fst (rk_world t) \<le> 901"
proof -
  have i: "wait_reading (new_remote ex_idle) = 1" "fst (rk_world (new_remote ex_idle)) = 0"
    by (simp_all add: wait_reading_def new_remote_def)
  from remote_stages_return [of "new_remote ex_idle" 901 ex_remote ex_items 0 "[]" "[]"] show ?thesis
    by (auto simp: i ex_remote_def in_time_def)
qed

lemma follow_up_jobs_need_every_allowance_witness:
  "used_up ex_remote ExtractMode ex_spent = None \<and>
   admit_child ex_costly (job_request ex_remote 0 (ExtractIn \<lparr> ei_topic = [], ei_round_index = 0, ei_candidates = [] \<rparr>) [] 200 ex_spent) 200
     = Some (ManagerError ''child_budget_exceeds_parent'' 409)"
proof -
  let ?row = "ex_found_row\<lparr> j_result := Some (ex_done\<lparr> e_usage := no_usage\<lparr> u_search_requests := 10 \<rparr> \<rparr>) \<rparr>"
  have "job_row_of ex_costly ''job-0001'' = Some ?row" "jobs ex_costly = [?row]"
    by (simp_all add: ex_costly_def job_row_of_def)
  moreover have "root_job [?row] 2 ?row = Inr ?row" by (simp add: numeral_2_eq_2)
  moreover have "lineage [?row] 2 [?row] = [?row]" by (simp add: numeral_2_eq_2 children_of_def)
  ultimately show ?thesis
    using follow_up_jobs_need_every_allowance [of ex_spent "''job-0001''" ex_costly ?row ?row ex_remote 200 200 0
        "ExtractIn \<lparr> ei_topic = [], ei_round_index = 0, ei_candidates = [] \<rparr>" "[]"]
    by (simp add: ex_spent_def new_remote_def ex_remote_def default_limits_def lineage_used_def row_charge_def no_usage_def
        child_seconds_def used_up_def numeral_2_eq_2)
qed

end
