(* ===== verification/Chunks.thy ===== *)
theory Chunks
  imports Quotes
begin

text \<open>
  The text helpers of \<open>discord_runtime.py\<close>: lengths in UTF-16 units, \<open>bounded_text\<close>, and \<open>split_discord_text\<close>,
  which cuts an answer into messages of a bounded length at paragraph, line, sentence or word ends and closes
  and reopens Markdown code fences at the cuts.
\<close>

section \<open>UTF-16\<close>

definition surrogate :: "codepoint \<Rightarrow> bool" where
  "surrogate c \<longleftrightarrow> 55296 \<le> c \<and> c \<le> 57343"

definition width :: "codepoint \<Rightarrow> nat" where
  "width c = (if 65535 < c then 2 else 1)"

definition units :: "utext \<Rightarrow> nat" where
  "units t = sum_list (map width t)"

text \<open>Encoding, cutting after \<open>n\<close> units and decoding with \<open>errors="ignore"\<close>: half a pair at the end is dropped.\<close>

fun take_units :: "nat \<Rightarrow> utext \<Rightarrow> utext" where
  "take_units n [] = []"
| "take_units n (c # t) = (if width c \<le> n then c # take_units (n - width c) t else [])"

definition omitted_suffix :: utext where
  "omitted_suffix = [10, 65288, 32154, 12365, 12399, 30465, 30053, 12375, 12414, 12375, 12383, 65294, 65289]"

definition bounded_text :: "utext \<Rightarrow> nat \<Rightarrow> utext" where
  "bounded_text t n = (if units t \<le> n then t else take_units (n - length omitted_suffix) t @ omitted_suffix)"

section \<open>Fences\<close>

text \<open>The lines of a text with their bounds; a line includes its newline.\<close>

fun line_spans :: "utext \<Rightarrow> nat \<Rightarrow> utext \<Rightarrow> (nat \<times> nat \<times> utext) list" where
  "line_spans [] pos line = (if line = [] then [] else [(pos - length line, pos, line)])"
| "line_spans (c # t) pos line =
     (if c = 10 then (pos - length line, pos + 1, line @ [c]) # line_spans t (pos + 1) []
      else line_spans t (pos + 1) (line @ [c]))"

text \<open>\<open>^ {0,3}(`{3,}|~{3,})([^\n]*)(?:\n|$)\<close> on one line: the marker and what follows it.\<close>

definition chomp :: "utext \<Rightarrow> utext" where
  "chomp line = (if line \<noteq> [] \<and> last line = 10 then butlast line else line)"

definition delimiter :: "utext \<Rightarrow> (utext \<times> utext) option" where
  "delimiter line =
     (let spaces = length (takeWhile (\<lambda>c. c = 32) line); rest = drop spaces (chomp line)
      in if spaces \<le> 3 \<and> rest \<noteq> [] \<and> (hd rest = 96 \<or> hd rest = 126)
            \<and> 3 \<le> length (takeWhile (\<lambda>c. c = hd rest) rest)
         then Some (takeWhile (\<lambda>c. c = hd rest) rest, dropWhile (\<lambda>c. c = hd rest) rest) else None)"

text \<open>A fence: its opening line without the newline, and its marker. \<open>wraps\<close> says that the pair is short
  enough to be repeated around a continuation.\<close>

type_synonym fence = "utext \<times> utext"

definition wraps :: "nat \<Rightarrow> fence \<Rightarrow> bool" where
  "wraps limit f \<longleftrightarrow> units (fst f @ [10, 10] @ snd f) + max 2 (limit div 2) \<le> limit"

definition closes :: "fence \<Rightarrow> utext \<Rightarrow> utext \<Rightarrow> bool" where
  "closes f marker info \<longleftrightarrow> hd marker = hd (snd f) \<and> length (snd f) \<le> length marker \<and> blank info"

text \<open>A recorded delimiter line: its bounds and the fence that is open after it. \<open>marks\<close> is the loop over the
  delimiter lines; the records are collected in reverse, so that \<open>pop\<close> is \<open>tl\<close>.\<close>

type_synonym mark = "nat \<times> nat \<times> fence option"

fun marks :: "nat \<Rightarrow> (nat \<times> nat \<times> utext) list \<Rightarrow> fence option \<Rightarrow> bool \<Rightarrow> mark list \<Rightarrow> mark list" where
  "marks limit [] fence wrap acc = rev acc"
| "marks limit ((a, b, line) # ls) fence wrap acc =
     (case delimiter line of
        None \<Rightarrow> marks limit ls fence wrap acc
      | Some (marker, info) \<Rightarrow>
          (case fence of
             None \<Rightarrow>
               if hd marker = 96 \<and> 96 \<in> set info then marks limit ls None wrap acc
               else let f = (chomp line, marker) in
                 if wraps limit f then marks limit ls (Some f) True ((a, b, Some f) # acc)
                 else marks limit ls (Some f) False acc
           | Some f \<Rightarrow>
               if closes f marker info then
                 (if wrap \<and> limit < units (fst f @ [10] @ line) then marks limit ls None False (tl acc)
                  else if wrap then marks limit ls None wrap ((a, b, None) # acc)
                  else marks limit ls None wrap acc)
               else marks limit ls fence wrap acc))"

definition text_marks :: "nat \<Rightarrow> utext \<Rightarrow> mark list" where
  "text_marks limit t = marks limit (line_spans t 0 []) None False []"

text \<open>\<open>fence_at\<close>: the fence that is open at a position.\<close>

fun fence_at :: "mark list \<Rightarrow> nat \<Rightarrow> fence option \<Rightarrow> fence option" where
  "fence_at [] p f = f"
| "fence_at ((a, b, g) # ms) p f = (if b \<le> p then fence_at ms p g else f)"

definition prefix_at :: "mark list \<Rightarrow> nat \<Rightarrow> utext" where
  "prefix_at ms p = (case fence_at ms p None of None \<Rightarrow> [] | Some f \<Rightarrow> fst f @ [10])"

definition suffix_at :: "utext \<Rightarrow> mark list \<Rightarrow> nat \<Rightarrow> utext" where
  "suffix_at t ms p = (case fence_at ms p None of None \<Rightarrow> []
     | Some f \<Rightarrow> (if 0 < p \<and> t ! (p - 1) = 10 then [] else [10]) @ snd f)"

section \<open>Boundaries\<close>

text \<open>Matches of the four patterns at the head of a text, as lengths: a blank line, a newline, the end of a
  sentence, blanks.\<close>

definition blank_run :: "utext \<Rightarrow> nat" where
  "blank_run t = length (takeWhile (\<lambda>c. c = 32 \<or> c = 9) t)"

definition paragraph_end :: "utext \<Rightarrow> nat" where
  "paragraph_end t =
     (if t \<noteq> [] \<and> hd t = 10 \<and> (let r = drop (Suc (blank_run (tl t))) t in r \<noteq> [] \<and> hd r = 10)
      then blank_run (tl t) + 2 else 0)"

definition line_end :: "utext \<Rightarrow> nat" where
  "line_end t = (if t \<noteq> [] \<and> hd t = 10 then 1 else 0)"

definition sentence_end :: "utext \<Rightarrow> nat" where
  "sentence_end t =
     (if t \<noteq> [] \<and> hd t \<in> {12290, 65294, 65281, 65311, 33, 63} then 1 + blank_run (tl t)
      else if t \<noteq> [] \<and> hd t = 46 \<and> 0 < blank_run (tl t) then 1 + blank_run (tl t) else 0)"

definition word_end :: "utext \<Rightarrow> nat" where
  "word_end t = blank_run t"

text \<open>The ends of the matches that \<open>finditer\<close> yields.\<close>

function match_ends :: "(utext \<Rightarrow> nat) \<Rightarrow> utext \<Rightarrow> nat \<Rightarrow> nat list" where
  "match_ends m t pos =
     (if t = [] then []
      else if 0 < m t then (pos + m t) # match_ends m (drop (m t) t) (pos + m t)
      else match_ends m (tl t) (pos + 1))"
  by pat_completeness auto
termination by (relation "measure (\<lambda>(m, t, pos). length t)") auto

declare match_ends.simps [simp del]

section \<open>Splitting\<close>

definition part_fits :: "utext \<Rightarrow> nat \<Rightarrow> mark list \<Rightarrow> nat \<Rightarrow> nat \<Rightarrow> bool" where
  "part_fits t limit ms start p \<longleftrightarrow>
     units (prefix_at ms start) + units (drop start (take p t)) + units (suffix_at t ms p) \<le> limit"

definition inside :: "mark list \<Rightarrow> nat \<Rightarrow> mark option" where
  "inside ms p = find (\<lambda>(a, b, _). a < p \<and> p < b) ms"

text \<open>\<open>bisect_right(offsets, offsets[start] + room) - 1\<close>: the last position within the room.\<close>

fun reach :: "nat \<Rightarrow> utext \<Rightarrow> nat" where
  "reach room [] = 0"
| "reach room (c # t) = (if width c \<le> room then Suc (reach (room - width c) t) else 0)"

function settle :: "utext \<Rightarrow> nat \<Rightarrow> mark list \<Rightarrow> nat \<Rightarrow> nat \<Rightarrow> nat" where
  "settle t limit ms start e =
     (if e \<le> start then e
      else case inside ms e of
        Some (a, _, _) \<Rightarrow> settle t limit ms start a
      | None \<Rightarrow> if part_fits t limit ms start e then e else settle t limit ms start (e - 1))"
  by pat_completeness auto
termination
  by (relation "measure (\<lambda>(t, limit, ms, start, e). e)") (auto simp: inside_def find_Some_iff)

declare settle.simps [simp del]

definition boundary :: "utext \<Rightarrow> nat \<Rightarrow> mark list \<Rightarrow> nat \<Rightarrow> nat \<Rightarrow> (utext \<Rightarrow> nat) \<Rightarrow> nat option" where
  "boundary t limit ms start e m =
     find (\<lambda>p. part_fits t limit ms start p \<and> inside ms p = None) (rev (match_ends m (drop start (take e t)) start))"

definition choose_end :: "utext \<Rightarrow> nat \<Rightarrow> mark list \<Rightarrow> nat \<Rightarrow> nat \<Rightarrow> nat" where
  "choose_end t limit ms start e =
     (if e < length t then
        (case List.map_filter (boundary t limit ms start e) [paragraph_end, line_end, sentence_end, word_end] of
           [] \<Rightarrow> e | p # _ \<Rightarrow> p)
      else e)"

definition next_end :: "utext \<Rightarrow> nat \<Rightarrow> mark list \<Rightarrow> nat \<Rightarrow> nat" where
  "next_end t limit ms start =
     settle t limit ms start (start + reach (limit - units (prefix_at ms start)) (drop start t))"

definition part :: "utext \<Rightarrow> mark list \<Rightarrow> nat \<Rightarrow> nat \<Rightarrow> utext" where
  "part t ms start e = prefix_at ms start @ drop start (take e t) @ suffix_at t ms e"

text \<open>The loop; \<open>None\<close> is \<open>ValueError("discord_chunk_limit_too_small")\<close>. Every round moves on.\<close>

function cut_from :: "utext \<Rightarrow> nat \<Rightarrow> mark list \<Rightarrow> nat \<Rightarrow> utext list option" where
  "cut_from t limit ms start =
     (if length t \<le> start then Some []
      else let e = next_end t limit ms start in
        if e \<le> start then None
        else let e' = choose_end t limit ms start e in
          if e' \<le> start then None
          else map_option (Cons (part t ms start e')) (cut_from t limit ms e'))"
  by pat_completeness auto
termination by (relation "measure (\<lambda>(t, limit, ms, start). length t - start)") auto

declare cut_from.simps [simp del]

datatype split_error = LimitInvalid | ContainsSurrogate | LimitTooSmall

definition split_discord_text :: "utext \<Rightarrow> nat \<Rightarrow> split_error + utext list" where
  "split_discord_text t limit =
     (if limit < 1 then Inl LimitInvalid
      else if list_ex surrogate t then Inl ContainsSurrogate
      else if units t \<le> limit then Inr (if t = [] then [] else [t])
      else case cut_from t limit (text_marks limit t) 0 of None \<Rightarrow> Inl LimitTooSmall | Some ps \<Rightarrow> Inr ps)"

end
