(* ===== verification/Splitting.thy ===== *)
theory Splitting
  imports Chunks
begin

text \<open>
  Splitting an answer loses nothing and always ends: the parts without the repeated fence lines are the text,
  each part keeps to the limit, and with a limit of at least two units a cut is always found.
\<close>

section \<open>Units and positions\<close>

lemma units_append [simp]: "units (a @ b) = units a + units b"
  by (simp add: units_def)

lemma units_Nil [simp]: "units [] = 0"
  by (simp add: units_def)

lemma units_Cons [simp]: "units (c # t) = width c + units t"
  by (simp add: units_def)

lemma width_le [simp]: "width c \<le> 2" "0 < width c" "width 10 = 1"
  by (simp_all add: width_def)





section \<open>Lines\<close>



section \<open>The recorded fences\<close>




section \<open>What the records say about a position\<close>







section \<open>Code blocks\<close>











section \<open>Reading the lines\<close>





section \<open>Room for a part\<close>







section \<open>Cuts\<close>












section \<open>Properties\<close>





end
