(* ===== verification/Ledger.thy ===== *)
theory Ledger
  imports Chunks
begin

text \<open>
  \<open>BridgeLedger\<close> of \<open>discord_runtime.py\<close>: the durable tables of the Discord bridge. Requests are the messages
  whose execution was begun, the inbox holds admitted messages until they are done, answers allow replies. One
  definition for each method, on lists of rows; a Discord identifier, stored as decimal text, is a natural
  number. The checks of the file system in \<open>_db\<close> and failures of SQLite are not modelled.
\<close>

section \<open>Settings and events\<close>

datatype community_operation = OpReport | OpSnapshot | OpActivity | OpDiscussion | OpUnresolved

text \<open>\<open>{"operation": ..., "period_days": ...}\<close>; \<open>_community_context\<close> accepts a period of 7 or 30 days.\<close>

type_synonym community = "community_operation \<times> nat"

definition community_ok :: "community \<Rightarrow> bool" where
  "community_ok c \<longleftrightarrow> snd c = 7 \<or> snd c = 30"

record bridge_settings =
  bs_application :: nat
  bs_guild :: nat
  bs_channels :: "nat list"
  bs_users :: "nat list"
  bs_additional :: "(nat \<times> nat) list"
  bs_community_guilds :: "nat list"

definition snowflake_id :: "nat \<Rightarrow> bool" where
  "snowflake_id n \<longleftrightarrow> 0 < n \<and> n \<le> 2 ^ 64 - 1"

definition valid_bridge_settings :: "bridge_settings \<Rightarrow> bool" where
  "valid_bridge_settings s \<longleftrightarrow> snowflake_id (bs_application s) \<and> snowflake_id (bs_guild s)
     \<and> 1 \<le> length (bs_channels s) \<and> length (bs_channels s) \<le> 100 \<and> list_all snowflake_id (bs_channels s)
     \<and> 1 \<le> length (bs_users s) \<and> length (bs_users s) \<le> 100 \<and> list_all snowflake_id (bs_users s)
     \<and> length (bs_additional s) \<le> 100 \<and> list_all (\<lambda>(g, c). snowflake_id g \<and> snowflake_id c) (bs_additional s)
     \<and> length (bs_community_guilds s) \<le> 30 \<and> list_all snowflake_id (bs_community_guilds s)
     \<and> distinct (bs_channels s) \<and> distinct (bs_users s) \<and> distinct (bs_community_guilds s)"

definition allows_channel :: "bridge_settings \<Rightarrow> nat option \<Rightarrow> nat \<Rightarrow> bool" where
  "allows_channel s guild channel \<longleftrightarrow> guild = Some (bs_guild s) \<and> channel \<in> set (bs_channels s)
     \<or> list_ex (\<lambda>(g, c). guild = Some g \<and> c = channel) (bs_additional s)"

record discord_event =
  ev_message :: nat
  ev_guild :: "nat option"
  ev_channel :: nat
  ev_user :: nat
  ev_content :: utext
  ev_mentioned :: bool
  ev_reply_to :: "nat option"
  ev_author_bot :: bool
  ev_webhook :: bool
  ev_system :: bool
  ev_everyone :: bool

section \<open>Tables\<close>

text \<open>A consumer is a process (its pid with its creation time) and, in the inbox, one bridge object in it; a
  process has one bridge, so the process stands for both.\<close>

type_synonym process_id = nat

record inbox_row =
  ib_sequence :: nat
  ib_message :: nat
  ib_guild :: "nat option"
  ib_channel :: nat
  ib_user :: nat
  ib_question :: utext
  ib_previous :: "utext option"
  ib_intake :: "string option"
  ib_receipt :: bool
  ib_done :: bool
  ib_consumer :: "process_id option"
  ib_context :: "community option"

record stored_answer =
  sa_id :: nat
  sa_guild :: "nat option"
  sa_channel :: nat
  sa_user :: nat
  sa_content :: utext
  sa_created :: real
  sa_context :: "community option"

record ledger =
  lg_requests :: "nat list"
  lg_answers :: "stored_answer list"
  lg_inbox :: "inbox_row list"
  lg_next :: nat

definition new_ledger :: ledger where
  "new_ledger = \<lparr> lg_requests = [], lg_answers = [], lg_inbox = [], lg_next = 1 \<rparr>"

section \<open>The inbox\<close>

text \<open>\<open>_prune_inbox\<close>: of the finished rows the newest ten thousand stay.\<close>

definition prune_inbox :: "inbox_row list \<Rightarrow> inbox_row list" where
  "prune_inbox t =
     (let kept = take 10000 (rev (sort_key (\<lambda>n. n) (map ib_sequence (filter ib_done t))))
      in delete_rows (\<lambda>r. ib_done r \<and> ib_sequence r \<notin> set kept) t)"

definition scrub :: "inbox_row \<Rightarrow> inbox_row" where
  "scrub r = r\<lparr> ib_question := [], ib_previous := None, ib_context := None \<rparr>"

text \<open>\<open>__init__\<close> on existing tables.\<close>

definition open_ledger :: "ledger \<Rightarrow> ledger" where
  "open_ledger l = l\<lparr> lg_inbox := prune_inbox (update_rows ib_done scrub (lg_inbox l)) \<rparr>"

definition reserved :: "ledger \<Rightarrow> nat" where
  "reserved l = count_rows (\<lambda>r. \<not> ib_done r \<and> ib_message r \<notin> set (lg_requests l)) (lg_inbox l)"

definition check_capacity :: "ledger \<Rightarrow> string option" where
  "check_capacity l =
     (if 128 \<le> count_rows (\<lambda>r. \<not> ib_done r) (lg_inbox l) then Some ''discord_queue_full''
      else if 10000 \<le> length (lg_requests l) + reserved l then Some ''discord_ledger_full'' else None)"

definition inbox_has :: "nat \<Rightarrow> ledger \<Rightarrow> bool" where
  "inbox_has m l \<longleftrightarrow> row_exists (\<lambda>r. ib_message r = m) (lg_inbox l)"

definition seen :: "nat \<Rightarrow> ledger \<Rightarrow> bool" where
  "seen m l \<longleftrightarrow> m \<in> set (lg_requests l)"

definition check_admission :: "nat \<Rightarrow> ledger \<Rightarrow> string option" where
  "check_admission m l = (if inbox_has m l \<or> seen m l then None else check_capacity l)"

definition new_inbox_row ::
  "discord_event \<Rightarrow> utext \<Rightarrow> utext option \<Rightarrow> string option \<Rightarrow> process_id option \<Rightarrow> community option \<Rightarrow> nat \<Rightarrow> inbox_row" where
  "new_inbox_row ev question previous intake consumer context n =
     \<lparr> ib_sequence = n, ib_message = ev_message ev, ib_guild = ev_guild ev, ib_channel = ev_channel ev,
       ib_user = ev_user ev, ib_question = question, ib_previous = previous, ib_intake = intake, ib_receipt = False,
       ib_done = False, ib_consumer = consumer, ib_context = context \<rparr>"

definition enqueue_message ::
  "discord_event \<Rightarrow> utext \<Rightarrow> utext option \<Rightarrow> string option \<Rightarrow> process_id option \<Rightarrow> community option \<Rightarrow> ledger
   \<Rightarrow> (string + bool) \<times> ledger" where
  "enqueue_message ev question previous intake consumer context l =
     (if \<not> (case context of None \<Rightarrow> True | Some c \<Rightarrow> community_ok c) then (Inl ''community_context_invalid'', l)
      else if inbox_has (ev_message ev) l \<or> seen (ev_message ev) l then (Inr False, l)
      else case check_capacity l of
        Some e \<Rightarrow> (Inl e, l)
      | None \<Rightarrow> (Inr True, l\<lparr> lg_inbox := lg_inbox l @ [new_inbox_row ev question previous intake consumer context (lg_next l)],
                  lg_next := lg_next l + 1 \<rparr>))"

definition inbox_pending :: "nat option \<Rightarrow> ledger \<Rightarrow> bool" where
  "inbox_pending m l \<longleftrightarrow> row_exists (\<lambda>r. \<not> ib_done r \<and> (case m of None \<Rightarrow> True | Some k \<Rightarrow> ib_message r = k)) (lg_inbox l)"

text \<open>\<open>claim_next\<close>: the oldest unfinished row, unless a live process holds it.\<close>

definition next_row :: "ledger \<Rightarrow> inbox_row option" where
  "next_row l = find (\<lambda>r. \<not> ib_done r) (sort_key ib_sequence (lg_inbox l))"

definition claim_next :: "(process_id \<Rightarrow> bool) \<Rightarrow> process_id \<Rightarrow> ledger \<Rightarrow> inbox_row option \<times> ledger" where
  "claim_next alive consumer l =
     (case next_row l of
        None \<Rightarrow> (None, l)
      | Some r \<Rightarrow>
          if (case ib_consumer r of None \<Rightarrow> False | Some p \<Rightarrow> alive p) then (None, l)
          else (Some r, l\<lparr> lg_inbox := update_rows (\<lambda>x. ib_sequence x = ib_sequence r)
                 (\<lambda>x. x\<lparr> ib_consumer := Some consumer \<rparr>) (lg_inbox l) \<rparr>))"

definition inbox_update :: "nat \<Rightarrow> bool \<Rightarrow> bool \<Rightarrow> bool \<Rightarrow> ledger \<Rightarrow> ledger" where
  "inbox_update m receipt finished release l =
     (let own = (\<lambda>r. ib_message r = m);
          t1 = (if receipt then update_rows own (\<lambda>r. r\<lparr> ib_receipt := True \<rparr>) (lg_inbox l) else lg_inbox l);
          t2 = (if finished then prune_inbox (update_rows own (\<lambda>r. scrub (r\<lparr> ib_done := True \<rparr>)) t1) else t1);
          t3 = (if release then update_rows own (\<lambda>r. r\<lparr> ib_consumer := None \<rparr>) t2 else t2)
      in l\<lparr> lg_inbox := t3 \<rparr>)"

section \<open>Requests and answers\<close>

text \<open>\<open>claim\<close>: true when the execution of the message begins here, for the first time.\<close>

definition claim_message :: "nat \<Rightarrow> ledger \<Rightarrow> (string + bool) \<times> ledger" where
  "claim_message m l =
     (if seen m l then (Inr False, l)
      else if 10000 \<le> length (lg_requests l) then (Inl ''discord_ledger_full'', l)
      else (Inr True, l\<lparr> lg_requests := lg_requests l @ [m] \<rparr>))"

definition answer_for :: "discord_event \<Rightarrow> real \<Rightarrow> ledger \<Rightarrow> stored_answer option" where
  "answer_for ev now l =
     (case ev_reply_to ev of
        None \<Rightarrow> None
      | Some k \<Rightarrow> find (\<lambda>a. sa_id a = k \<and> sa_guild a = ev_guild ev \<and> sa_channel a = ev_channel ev
                     \<and> sa_user a = ev_user ev \<and> now - 86400 < sa_created a) (lg_answers l))"

definition previous_answer :: "discord_event \<Rightarrow> real \<Rightarrow> ledger \<Rightarrow> utext option" where
  "previous_answer ev now l = map_option sa_content (answer_for ev now l)"

text \<open>\<open>previous_context\<close> reads the answer twice; \<open>later\<close> is the second reading of the clock.\<close>

definition previous_context :: "discord_event \<Rightarrow> real \<Rightarrow> real \<Rightarrow> ledger \<Rightarrow> utext option \<times> community option" where
  "previous_context ev now later l =
     (case previous_answer ev now l of
        None \<Rightarrow> (None, None)
      | Some content \<Rightarrow>
          (case answer_for ev later l of
             None \<Rightarrow> (None, None)
           | Some a \<Rightarrow> if sa_content a = content then (Some (sa_content a), sa_context a) else (None, None)))"

text \<open>\<open>remember\<close>: \<open>INSERT OR REPLACE\<close>, then only the newest 128 answers stay.\<close>

definition remember :: "nat \<Rightarrow> discord_event \<Rightarrow> utext \<Rightarrow> community option \<Rightarrow> real \<Rightarrow> ledger \<Rightarrow> ledger" where
  "remember k ev content context now l =
     (let a = \<lparr> sa_id = k, sa_guild = ev_guild ev, sa_channel = ev_channel ev, sa_user = ev_user ev,
                sa_content = bounded_text content 1200, sa_created = now, sa_context = context \<rparr>;
          t = delete_rows (\<lambda>x. sa_id x = k) (lg_answers l) @ [a];
          kept = take 128 (rev (map sa_id (sort_key sa_created t)))
      in l\<lparr> lg_answers := delete_rows (\<lambda>x. sa_id x \<notin> set kept) t \<rparr>)"

end
