(* ===== verification/Repairs.thy ===== *)
theory Repairs
  imports Ledger
begin

text \<open>
  \<open>RepairStore\<close> of \<open>owner_repair.py\<close>: the durable queue of repair requests of the owner. An intake is a message
  that may be such a request, a job is an accepted request with its stage, the outbox holds the messages that
  tell of its end, each with its own state. One definition for each method; SHA-256 and the cleaning of text
  in \<open>safe_final\<close> are parameters, the file system checks in \<open>db\<close> are not modelled.
\<close>

section \<open>Rows\<close>

definition OWNER_USER_ID :: nat where "OWNER_USER_ID = 425581535748423680"

datatype intake_route = RepairRoute | ConversationRoute

record intake_row =
  in_id :: string
  in_guild :: nat
  in_channel :: nat
  in_message :: nat
  in_author :: nat
  in_text :: utext
  in_previous :: "utext option"
  in_route :: "intake_route option"
  in_receipt :: bool
  in_done :: bool
  in_consumer :: "process_id option"
  in_created :: real
  in_context :: "community option"

datatype stage =
    StQueued | StDiscovering | StSubmitted | StRunning | StReleasePending | StReviewPending | StMergePending
  | StDeploymentPending | StCompleted | StFailed

text \<open>Values of the JSON object \<open>data\<close>.\<close>

datatype datum = TextDatum string | NumberDatum real

record repair_job =
  rj_id :: string
  rj_guild :: nat
  rj_channel :: nat
  rj_message :: nat
  rj_author :: nat
  rj_text :: utext
  rj_previous :: "utext option"
  rj_stage :: stage
  rj_data :: "(string \<times> datum) list"
  rj_created :: real
  rj_updated :: real

datatype delivery = Pending | Sending | Sent nat

record outbox_row =
  ob_job :: string
  ob_ordinal :: nat
  ob_text :: utext
  ob_state :: delivery

record repair_store =
  rs_intakes :: "intake_row list"
  rs_jobs :: "repair_job list"
  rs_outbox :: "outbox_row list"

definition new_store :: repair_store where
  "new_store = \<lparr> rs_intakes = [], rs_jobs = [], rs_outbox = [] \<rparr>"

section \<open>Intakes\<close>

definition repair_identifier :: "(string \<Rightarrow> string) \<Rightarrow> nat \<Rightarrow> nat \<Rightarrow> nat \<Rightarrow> nat \<Rightarrow> string" where
  "repair_identifier sha g c m a = ''repair-'' @ take 32 (sha (dec g @ '':'' @ dec c @ '':'' @ dec m @ '':'' @ dec a))"

text \<open>The checks of a request, and the code of the \<open>ValueError\<close> they end in.\<close>

definition id_ok :: "nat \<Rightarrow> bool" where
  "id_ok n \<longleftrightarrow> 0 < n \<and> n < 2 ^ 64"

definition text_ok :: "utext \<Rightarrow> bool" where
  "text_ok t \<longleftrightarrow> \<not> blank t \<and> length t \<le> 4000"

definition previous_ok :: "utext option \<Rightarrow> bool" where
  "previous_ok p \<longleftrightarrow> (case p of None \<Rightarrow> True | Some t \<Rightarrow> length t \<le> 8000)"

definition capture_intake ::
  "(string \<Rightarrow> string) \<Rightarrow> real \<Rightarrow> nat \<Rightarrow> nat \<Rightarrow> nat \<Rightarrow> nat \<Rightarrow> utext \<Rightarrow> utext option \<Rightarrow> community option \<Rightarrow> repair_store
   \<Rightarrow> (string + string) \<times> repair_store" where
  "capture_intake sha now g c m a t previous context s =
     (let k = repair_identifier sha g c m a in
      if a \<noteq> OWNER_USER_ID then (Inl ''repair_owner_required'', s)
      else if \<not> (id_ok g \<and> id_ok c \<and> id_ok m) \<or> \<not> text_ok t \<or> \<not> previous_ok previous then (Inl ''repair_intake_invalid'', s)
      else if \<not> (case context of None \<Rightarrow> True | Some x \<Rightarrow> community_ok x) then (Inl ''repair_context_invalid'', s)
      else case find_row in_id k (rs_intakes s) of
        Some old \<Rightarrow>
          if in_text old \<noteq> t \<or> in_previous old \<noteq> previous \<or> in_context old \<noteq> context
          then (Inl ''duplicate_repair_payload_changed'', s) else (Inr k, s)
      | None \<Rightarrow>
          if 10000 \<le> length (rs_intakes s) then (Inl ''repair_queue_full'', s)
          else (Inr k, s\<lparr> rs_intakes := rs_intakes s @ [\<lparr> in_id = k, in_guild = g, in_channel = c, in_message = m,
                 in_author = a, in_text = t, in_previous = previous, in_route = None, in_receipt = False,
                 in_done = False, in_consumer = None, in_created = now, in_context = context \<rparr>] \<rparr>))"

definition pending_intakes :: "nat \<Rightarrow> nat list \<Rightarrow> repair_store \<Rightarrow> intake_row list" where
  "pending_intakes guild channels s =
     filter (\<lambda>r. in_guild r = guild \<and> in_channel r \<in> set channels \<and> in_author r = OWNER_USER_ID)
       (sort_key in_created (filter (\<lambda>r. \<not> in_done r) (rs_intakes s)))"

text \<open>\<open>claim_intake\<close>: refused while another live process holds the row.\<close>

definition claim_intake ::
  "(process_id \<Rightarrow> bool) \<Rightarrow> process_id \<Rightarrow> string \<Rightarrow> repair_store \<Rightarrow> intake_row option \<times> repair_store" where
  "claim_intake alive consumer k s =
     (case find (\<lambda>r. in_id r = k \<and> \<not> in_done r) (rs_intakes s) of
        None \<Rightarrow> (None, s)
      | Some r \<Rightarrow>
          if (case in_consumer r of None \<Rightarrow> False | Some p \<Rightarrow> p \<noteq> consumer \<and> alive p) then (None, s)
          else (Some r, s\<lparr> rs_intakes := update_rows (\<lambda>x. in_id x = k) (\<lambda>x. x\<lparr> in_consumer := Some consumer \<rparr>) (rs_intakes s) \<rparr>))"

definition update_intake ::
  "string \<Rightarrow> process_id \<Rightarrow> intake_route option \<Rightarrow> bool \<Rightarrow> bool \<Rightarrow> bool \<Rightarrow> repair_store \<Rightarrow> repair_store" where
  "update_intake k consumer route receipt finished release s =
     s\<lparr> rs_intakes := update_rows (\<lambda>r. in_id r = k \<and> in_consumer r = Some consumer)
       (\<lambda>r. r\<lparr> in_route := (case route of None \<Rightarrow> in_route r | Some x \<Rightarrow> Some x), in_receipt := in_receipt r \<or> receipt,
               in_done := in_done r \<or> finished, in_consumer := (if release then None else in_consumer r) \<rparr>) (rs_intakes s) \<rparr>"

text \<open>The bridge's own statement \<open>UPDATE intakes SET receipt=1 WHERE id=?\<close>, and its question whether an intake is
  done.\<close>

definition mark_receipt :: "string \<Rightarrow> repair_store \<Rightarrow> repair_store" where
  "mark_receipt k s = s\<lparr> rs_intakes := update_rows (\<lambda>r. in_id r = k) (\<lambda>r. r\<lparr> in_receipt := True \<rparr>) (rs_intakes s) \<rparr>"

definition intake_done :: "string \<Rightarrow> repair_store \<Rightarrow> bool" where
  "intake_done k s \<longleftrightarrow> (case find_row in_id k (rs_intakes s) of None \<Rightarrow> False | Some r \<Rightarrow> in_done r)"

section \<open>Jobs\<close>

definition job_recorded :: "string \<Rightarrow> repair_store \<Rightarrow> bool" where
  "job_recorded k s \<longleftrightarrow> row_exists (\<lambda>j. rj_id j = k) (rs_jobs s)"

definition enqueue_job ::
  "(string \<Rightarrow> string) \<Rightarrow> real \<Rightarrow> nat \<Rightarrow> nat \<Rightarrow> nat \<Rightarrow> nat \<Rightarrow> utext \<Rightarrow> utext option \<Rightarrow> repair_store
   \<Rightarrow> (string + string) \<times> repair_store" where
  "enqueue_job sha now g c m a t previous s =
     (let k = repair_identifier sha g c m a in
      if a \<noteq> OWNER_USER_ID then (Inl ''repair_owner_required'', s)
      else if \<not> (id_ok g \<and> id_ok c \<and> id_ok m) then (Inl ''repair_identity_invalid'', s)
      else if \<not> text_ok t then (Inl ''repair_directive_invalid'', s)
      else if \<not> previous_ok previous then (Inl ''repair_context_invalid'', s)
      else case find_row rj_id k (rs_jobs s) of
        Some old \<Rightarrow>
          if rj_text old \<noteq> t \<or> rj_previous old \<noteq> previous then (Inl ''duplicate_repair_payload_changed'', s) else (Inr k, s)
      | None \<Rightarrow>
          if 10000 \<le> length (rs_jobs s) then (Inl ''repair_queue_full'', s)
          else (Inr k, s\<lparr> rs_jobs := rs_jobs s @ [\<lparr> rj_id = k, rj_guild = g, rj_channel = c, rj_message = m, rj_author = a,
                 rj_text = t, rj_previous = previous, rj_stage = StQueued, rj_data = [], rj_created = now, rj_updated = now \<rparr>] \<rparr>))"

definition get_job :: "string \<Rightarrow> repair_store \<Rightarrow> string + repair_job" where
  "get_job k s = (case find_row rj_id k (rs_jobs s) of None \<Rightarrow> Inl ''repair_not_found'' | Some j \<Rightarrow> Inr j)"

definition ended :: "stage \<Rightarrow> bool" where
  "ended st \<longleftrightarrow> st = StCompleted \<or> st = StFailed"

text \<open>\<open>next\<close>: the oldest job that has not ended.\<close>

definition next_job :: "repair_store \<Rightarrow> repair_job option" where
  "next_job s = find (\<lambda>j. \<not> ended (rj_stage j)) (sort_key rj_created (rs_jobs s))"

text \<open>\<open>{**old, **new}\<close>: a key keeps its place and takes the new value, new keys follow.\<close>

definition merge_data :: "(string \<times> datum) list \<Rightarrow> (string \<times> datum) list \<Rightarrow> (string \<times> datum) list" where
  "merge_data old new =
     map (\<lambda>(k, v). (k, case map_of new k of None \<Rightarrow> v | Some w \<Rightarrow> w)) old @ filter (\<lambda>(k, _). map_of old k = None) new"

definition set_stage :: "string \<Rightarrow> stage \<Rightarrow> (string \<times> datum) list \<Rightarrow> real \<Rightarrow> repair_store \<Rightarrow> repair_store" where
  "set_stage k st new now s = s\<lparr> rs_jobs := update_rows (\<lambda>j. rj_id j = k)
     (\<lambda>j. j\<lparr> rj_stage := st, rj_data := merge_data (rj_data j) new, rj_updated := now \<rparr>) (rs_jobs s) \<rparr>"

definition transition :: "string \<Rightarrow> stage \<Rightarrow> (string \<times> datum) list \<Rightarrow> real \<Rightarrow> repair_store \<Rightarrow> (string + unit) \<times> repair_store" where
  "transition k st new now s =
     (if job_recorded k s then (Inr (), set_stage k st new now s) else (Inl ''repair_not_found'', s))"

section \<open>The outbox\<close>

text \<open>The parts of a message; \<open>clean\<close> is \<open>safe_final\<close>.\<close>

definition message_parts :: "(utext \<Rightarrow> string + utext) \<Rightarrow> utext \<Rightarrow> string + utext list" where
  "message_parts clean t = (case clean t of Inl e \<Rightarrow> Inl e
     | Inr x \<Rightarrow> (case split_discord_text x 1800 of Inl _ \<Rightarrow> Inl ''ValueError'' | Inr ps \<Rightarrow> Inr ps))"

definition post :: "string \<Rightarrow> utext list \<Rightarrow> repair_store \<Rightarrow> repair_store" where
  "post k parts s =
     (if row_exists (\<lambda>o'. ob_job o' = k) (rs_outbox s) then s
      else s\<lparr> rs_outbox := rs_outbox s @ map (\<lambda>(i, t). \<lparr> ob_job = k, ob_ordinal = i, ob_text = t, ob_state = Pending \<rparr>)
               (zip [0..<length parts] parts) \<rparr>)"

definition notify :: "(utext \<Rightarrow> string + utext) \<Rightarrow> string \<Rightarrow> utext \<Rightarrow> repair_store \<Rightarrow> (string + unit) \<times> repair_store" where
  "notify clean k t s = (case message_parts clean t of Inl e \<Rightarrow> (Inl e, s) | Inr ps \<Rightarrow> (Inr (), post k ps s))"

text \<open>\<open>finish\<close>: the end of a job and its message in one transaction.\<close>

definition finish_job ::
  "(utext \<Rightarrow> string + utext) \<Rightarrow> string \<Rightarrow> stage \<Rightarrow> utext \<Rightarrow> (string \<times> datum) list \<Rightarrow> real \<Rightarrow> repair_store
   \<Rightarrow> (string + unit) \<times> repair_store" where
  "finish_job clean k st t new now s =
     (case message_parts clean t of
        Inl e \<Rightarrow> (Inl e, s)
      | Inr ps \<Rightarrow>
          if \<not> ended st then (Inl ''terminal_stage_required'', s)
          else if \<not> job_recorded k s then (Inl ''repair_not_found'', s)
          else (Inr (), post k ps (set_stage k st new now s)))"

text \<open>\<open>pending\<close>: the rows to deliver, with the job they belong to.\<close>

definition pending_deliveries :: "nat \<Rightarrow> nat list \<Rightarrow> repair_store \<Rightarrow> (outbox_row \<times> repair_job) list" where
  "pending_deliveries guild channels s =
     filter (\<lambda>(_, j). rj_guild j = guild \<and> rj_channel j \<in> set channels \<and> rj_author j = OWNER_USER_ID)
       (sort_key (\<lambda>(o', j). (rj_created j, ob_ordinal o'))
         [(o', j) \<leftarrow> List.product (rs_outbox s) (rs_jobs s). rj_id j = ob_job o' \<and> ob_state o' = Pending])"

definition is_delivery :: "string \<Rightarrow> nat \<Rightarrow> outbox_row \<Rightarrow> bool" where
  "is_delivery k i o' \<longleftrightarrow> ob_job o' = k \<and> ob_ordinal o' = i"

definition claim_delivery :: "string \<Rightarrow> nat \<Rightarrow> repair_store \<Rightarrow> bool \<times> repair_store" where
  "claim_delivery k i s =
     (count_rows (\<lambda>o'. is_delivery k i o' \<and> ob_state o' = Pending) (rs_outbox s) = 1,
      s\<lparr> rs_outbox := update_rows (\<lambda>o'. is_delivery k i o' \<and> ob_state o' = Pending) (\<lambda>o'. o'\<lparr> ob_state := Sending \<rparr>) (rs_outbox s) \<rparr>)"

definition mark_delivered :: "string \<Rightarrow> nat \<Rightarrow> nat \<Rightarrow> repair_store \<Rightarrow> (string + unit) \<times> repair_store" where
  "mark_delivered k i message s =
     (if message = 0 then (Inl ''delivery_message_invalid'', s)
      else (Inr (), s\<lparr> rs_outbox := update_rows (\<lambda>o'. is_delivery k i o' \<and> ob_state o' = Sending)
             (\<lambda>o'. o'\<lparr> ob_state := Sent message \<rparr>) (rs_outbox s) \<rparr>))"

end
