(* ===== verification/Community.thy ===== *)
theory Community
  imports Ledger
begin

text \<open>
  \<open>community_intent\<close> of \<open>discord_community.py\<close>: which questions are about the community of the server itself. Its
  regular expressions are alternatives of fixed words, spelled out here as lists of code points; NFKC and case
  folding are parameters.
\<close>

section \<open>Words\<close>

definition community_words :: "utext list" where
  "community_words =
    [[104, 97, 99, 107, 115, 105, 99, 107], [12371, 12398, 12469, 12540, 12496],
     [12371, 12398, 12467, 12511, 12517, 12491, 12486, 12451],
     [12371, 12398, 12481, 12515, 12531, 12493, 12523], [12358, 12385, 12398], [12371, 12371, 26368, 36817],
     [12371, 12371, 12398], [12371, 12371, 12391]]"

definition public_words :: "utext list" where
  "public_words =
    [[104, 116, 116, 112, 58, 47, 47], [104, 116, 116, 112, 115, 58, 47, 47], [20844, 38283, 24773, 22577],
     [20844, 38283, 36039, 26009], [20844, 38283, 20181, 27096], [20844, 38283, 35342, 35542],
     [20844, 38283, 35696, 35542], [20844, 24335, 36039, 26009], [20844, 24335, 25991, 26360],
     [20844, 24335, 12469, 12452, 12488], [20844, 24335, 12489, 12461, 12517, 12513, 12531, 12488],
     [119, 101, 98, 12391], [119, 101, 98, 12434], [12454, 12455, 12502, 12391], [12454, 12455, 12502, 12434],
     [12452, 12531, 12479, 12540, 12493, 12483, 12488, 12391],
     [12452, 12531, 12479, 12540, 12493, 12483, 12488, 12434], [12491, 12517, 12540, 12473], [35542, 25991],
     [22269, 20250], [22577, 36947]]"

definition management_words :: "utext list" where
  "management_words =
    [[36939, 21942]]"

definition week_words :: "utext list" where
  "week_words =
    [[55, 26085], [49, 36913, 38291], [19968, 36913, 38291], [20170, 36913], [20808, 36913],
     [19968, 26152, 26085], [26152, 26085], [20170, 26085], [119, 101, 101, 107, 108, 121]]"

definition unresolved_words :: "utext list" where
  "unresolved_words =
    [[26410, 35299, 27770], [35506, 38988], [23487, 38988], [12420, 12426, 27531], [116, 111, 100, 111],
     [12479, 12473, 12463]]"

definition discussion_words :: "utext list" where
  "discussion_words =
    [[35696, 35542], [35441, 38988], [32080, 35542], [27770, 23450], [21512, 24847], [35441, 12375, 12390],
     [20250, 35441], [35441, 12375, 21512]]"

definition activity_words :: "utext list" where
  "activity_words =
    [[27963, 21205], [27963, 30330], [25237, 31295], [21442, 21152], [30330, 35328],
     [30427, 12426, 19978, 12364], [21218, 12356], [38745, 12363]]"

definition snapshot_words :: "utext list" where
  "snapshot_words =
    [[27083, 25104], [12525, 12540, 12523], [12481, 12515, 12531, 12493, 12523, 19968, 35239],
     [20840, 20307, 20687], [12393, 12435, 12394, 12469, 12540, 12496], [20154, 25968],
     [12469, 12540, 12496, 24773, 22577], [12469, 12540, 12496, 12540, 24773, 22577]]"

definition report_words :: "utext list" where
  "report_words =
    [[29366, 24907], [29366, 27841], [12393, 12358], [27096, 23376], [12414, 12392, 12417],
     [12524, 12509, 12540, 12488], [20998, 26512], [25913, 21892], [25552, 26696], [36939, 21942],
     [25945, 12360, 12390], [25226, 25569], [30906, 35469]]"

section \<open>The intent\<close>

text \<open>\<open>re.search\<close> for an alternative of fixed words.\<close>

definition mentions :: "utext list \<Rightarrow> utext \<Rightarrow> bool" where
  "mentions ws t \<longleftrightarrow> list_ex (\<lambda>w. find_sub w t \<noteq> None) ws"

definition community_intent :: "(utext \<Rightarrow> utext) \<Rightarrow> (utext \<Rightarrow> utext) \<Rightarrow> utext \<Rightarrow> community option" where
  "community_intent nfkc casefold query =
     (let t = casefold (nfkc query); about = mentions community_words t;
          period = (if mentions week_words t then 7 else 30) in
      if blank t \<or> 4000 < length t then None
      else if mentions public_words t \<and> \<not> about then None
      else if mentions unresolved_words t then Some (OpUnresolved, period)
      else if mentions discussion_words t then Some (OpDiscussion, period)
      else if mentions activity_words t then Some (OpActivity, period)
      else if mentions snapshot_words t then Some (OpSnapshot, period)
      else if (about \<or> mentions management_words t) \<and> mentions report_words t then Some (OpReport, period)
      else None)"

lemma community_intent_ok: "community_intent nfkc casefold q = Some c \<Longrightarrow> community_ok c"
  by (auto simp: community_intent_def community_ok_def Let_def split: if_splits)

end
