(* ===== verification/Bridge.thy ===== *)
theory Bridge
  imports Community Repairs
begin

text \<open>
  \<open>RuntimeDiscordBridge\<close> of \<open>discord_runtime.py\<close>: the state of the bridge processes and the work on one intake
  (\<open>process_intake\<close>). Several processes, each with one bridge, share the ledger, the repair store and the drain
  marker; each can end at any point. A task of a process is a phase, that is, the point it has reached with its
  local variables. One step of a task runs to its next database transaction or past its next \<open>await\<close>, so that
  every order of the transactions of all processes, and every end between two of them, is a run of the model.
  The runtime behind the gateway, Discord behind \<open>send\<close>, the public-text check and the wording rules of release
  limits are parameters; a step gets what the awaited call answers as its outcome.
\<close>

section \<open>What is asked and said\<close>

text \<open>A \<open>BridgeError\<close> with its code, another exception, a cancellation.\<close>

datatype fault = Coded string | Failing | Stopped

datatype outcome = Said nat | Answered utext | Judged bool | Slow | Raised fault

text \<open>\<open>Notice\<close> stands for the text that \<open>_FAILURES\<close> holds for a code.\<close>

datatype speech = Receipt bool | Progress | Interrupted | Notice string | Unexpected | Part utext
  | Accepted string | Limited

text \<open>What the surroundings see: a call of \<open>gateway.answer\<close> or \<open>gateway.observe\<close> (with the sequence number of the
  inbox row it was made for), a message to the channel of a request, a message of the outbox.\<close>

datatype act =
    Asked process_id "nat option" nat utext "community option"
  | Spoke process_id nat speech
  | Posted process_id string nat

section \<open>States\<close>

text \<open>\<open>process_intake\<close>. The name of a phase says what its next step does; the flag of an awaited answer tells
  whether the progress message was sent.\<close>

datatype intake_phase =
    InClaim
  | InSeen intake_row
  | InDurable intake_row
  | InReceipt intake_row
  | InReceiptMark intake_row
  | InJudge intake_row bool
  | InRouteMark intake_row
  | InRefuse intake_row
  | InEnqueue intake_row
  | InClaimJob intake_row string
  | InJobDone intake_row string bool
  | InAccept intake_row string
  | InTalk intake_row
  | InTwice intake_row
  | InTwiceSay intake_row
  | InAsk intake_row "community option"
  | InAnswer intake_row "community option" bool
  | InPart intake_row "community option" "utext list"
  | InRemember intake_row "community option" nat utext "utext list"
  | InDone intake_row
  | InFault fault
  | InRelease "fault option"
  | InOver "fault option"

text \<open>\<open>recover_inbox\<close>, the holder of \<open>inbox_lock\<close>. The flags of a fault, a notice and an end say whether the
  execution was recorded and whether the row is finished.\<close>

datatype work_phase =
    WkHead
  | WkLetGo inbox_row
  | WkDrop inbox_row
  | WkReceipt inbox_row
  | WkReceiptMark inbox_row
  | WkOwner inbox_row string
  | WkIntake inbox_row string intake_phase
  | WkSettled inbox_row string
  | WkClaim inbox_row
  | WkTwice inbox_row
  | WkTwiceSay inbox_row
  | WkRoute inbox_row
  | WkAsk inbox_row "community option"
  | WkAnswer inbox_row "community option" bool
  | WkDone inbox_row "community option" utext
  | WkPart inbox_row "community option" "utext list"
  | WkRemember inbox_row "community option" nat utext "utext list"
  | WkFault inbox_row bool fault
  | WkNotice inbox_row speech bool
  | WkEnd inbox_row bool "fault option"
  | WkOver "fault option"

text \<open>\<open>handle\<close>, one task for each event.\<close>

datatype handler_phase =
    HdStart discord_event
  | HdAdmit discord_event utext "utext option" "community option"
  | HdCapture discord_event utext "utext option" "community option"
  | HdEnqueue discord_event utext "utext option" "community option" "string option"
  | HdAgain discord_event
  | HdLetGo discord_event
  | HdReceipt discord_event bool
  | HdReceiptMark discord_event
  | HdFree discord_event "fault option"
  | HdWork discord_event
  | HdInWork discord_event
  | HdNotice discord_event speech
  | HdGone

text \<open>\<open>recover_pending\<close> with \<open>recover_intakes\<close>, and \<open>drain_outbox\<close> with \<open>deliver_outbox\<close>.\<close>

datatype recovery_phase =
    RcIdle
  | RcInWork
  | RcPending
  | RcList
  | RcRows "intake_row list"
  | RcIntake intake_row intake_phase "intake_row list"
  | RcNotice intake_row speech "intake_row list"

datatype delivery_phase =
    DvIdle
  | DvRows "(outbox_row \<times> repair_job) list"
  | DvClaim outbox_row repair_job "(outbox_row \<times> repair_job) list"
  | DvSend outbox_row repair_job "(outbox_row \<times> repair_job) list"
  | DvMark outbox_row repair_job nat "(outbox_row \<times> repair_job) list"
  | DvRemember outbox_row repair_job nat "(outbox_row \<times> repair_job) list"

text \<open>A process: its settings, whether an owner repair configuration is among them, the tasks, \<open>intake_active\<close> and
  the messages in \<open>inbox_senders\<close>. The flag of the work says whether its caller has a sender of its own.\<close>

record bridge =
  br_settings :: bridge_settings
  br_repairs :: bool
  br_handlers :: "handler_phase list"
  br_work :: "(bool \<times> work_phase) option"
  br_recovery :: recovery_phase
  br_delivery :: delivery_phase
  br_active :: "string list"
  br_senders :: "nat list"

definition new_bridge :: "bridge_settings \<Rightarrow> bool \<Rightarrow> bridge" where
  "new_bridge st repairs = \<lparr> br_settings = st, br_repairs = repairs, br_handlers = [], br_work = None,
     br_recovery = RcIdle, br_delivery = DvIdle, br_active = [], br_senders = [] \<rparr>"

record shared =
  sh_ledger :: ledger
  sh_store :: repair_store
  sh_drain :: bool
  sh_bridges :: "process_id \<Rightarrow> bridge option"
  sh_born :: "process_id list"
  sh_acts :: "act list"

record bridge_env =
  be_sha :: "string \<Rightarrow> string"
  be_public :: "utext \<Rightarrow> bool"
  be_nfkc :: "utext \<Rightarrow> utext"
  be_casefold :: "utext \<Rightarrow> utext"
  be_limited :: "utext \<Rightarrow> bool"
  be_clean :: "utext \<Rightarrow> string + utext"

definition running :: "shared \<Rightarrow> process_id \<Rightarrow> bool" where
  "running w p \<longleftrightarrow> sh_bridges w p \<noteq> None"

definition set_bridge :: "process_id \<Rightarrow> bridge \<Rightarrow> shared \<Rightarrow> shared" where
  "set_bridge p b w = w\<lparr> sh_bridges := (sh_bridges w)(p := Some b) \<rparr>"

definition put_ledger :: "ledger \<Rightarrow> shared \<Rightarrow> shared" where
  "put_ledger l w = w\<lparr> sh_ledger := l \<rparr>"

definition put_store :: "repair_store \<Rightarrow> shared \<Rightarrow> shared" where
  "put_store s w = w\<lparr> sh_store := s \<rparr>"

definition note_act :: "act \<Rightarrow> shared \<Rightarrow> shared" where
  "note_act a w = w\<lparr> sh_acts := sh_acts w @ [a] \<rparr>"

section \<open>Shared decisions\<close>

text \<open>\<open>_community_route\<close>.\<close>

definition community_route ::
  "bridge_env \<Rightarrow> bridge_settings \<Rightarrow> utext \<Rightarrow> nat option \<Rightarrow> community option \<Rightarrow> string + community option" where
  "community_route env st question guild stored =
     (if \<not> (case stored of None \<Rightarrow> True | Some c \<Rightarrow> community_ok c) then Inl ''community_context_invalid''
      else if \<not> (case guild of None \<Rightarrow> False | Some g \<Rightarrow> g \<in> set (bs_community_guilds st)) then
        (if stored \<noteq> None then Inl ''community_context_unavailable'' else Inr None)
      else Inr (if stored \<noteq> None then stored else community_intent (be_nfkc env) (be_casefold env) question))"

text \<open>The route of a question that is about to be asked: a community question, or one that passes the public-text
  check.\<close>

definition ask_route ::
  "bridge_env \<Rightarrow> bridge_settings \<Rightarrow> utext \<Rightarrow> nat option \<Rightarrow> community option \<Rightarrow> string + community option" where
  "ask_route env st question guild stored =
     (case community_route env st question guild stored of
        Inl e \<Rightarrow> Inl e
      | Inr None \<Rightarrow> if be_public env question then Inr None else Inl ''question_not_public''
      | Inr (Some c) \<Rightarrow> Inr (Some c))"

definition answer_event :: "nat \<Rightarrow> nat option \<Rightarrow> nat \<Rightarrow> nat \<Rightarrow> utext \<Rightarrow> discord_event" where
  "answer_event m g c u t = \<lparr> ev_message = m, ev_guild = g, ev_channel = c, ev_user = u, ev_content = t,
     ev_mentioned = False, ev_reply_to = None, ev_author_bot = False, ev_webhook = False, ev_system = False,
     ev_everyone = False \<rparr>"

section \<open>One intake\<close>

definition update_own ::
  "process_id \<Rightarrow> string \<Rightarrow> intake_route option \<Rightarrow> bool \<Rightarrow> bool \<Rightarrow> bool \<Rightarrow> shared \<Rightarrow> shared" where
  "update_own p k route receipt finished release w =
     put_store (update_intake k p route receipt finished release (sh_store w)) w"

definition repair_or_refuse :: "bridge_env \<Rightarrow> intake_row \<Rightarrow> intake_phase" where
  "repair_or_refuse env r = (if be_limited env (in_text r) then InRefuse r else InEnqueue r)"

definition begin_route :: "bridge_env \<Rightarrow> intake_row \<Rightarrow> intake_phase" where
  "begin_route env r = (case in_route r of None \<Rightarrow> InJudge r False
     | Some RepairRoute \<Rightarrow> repair_or_refuse env r | Some ConversationRoute \<Rightarrow> InTalk r)"

definition begin_intake :: "bridge_env \<Rightarrow> intake_row \<Rightarrow> intake_phase" where
  "begin_intake env r = (if in_receipt r then begin_route env r else InReceipt r)"

fun intake_next ::
  "bridge_env \<Rightarrow> process_id \<Rightarrow> nat option \<Rightarrow> string \<Rightarrow> real \<Rightarrow> outcome \<Rightarrow> intake_phase \<Rightarrow> bridge \<Rightarrow> shared
   \<Rightarrow> intake_phase \<times> bridge \<times> shared" where
  "intake_next env p n k now oc InClaim b w =
     (if k \<in> set (br_active b) then (InOver None, b, w)
      else case claim_intake (running w) p k (sh_store w) of
        (None, s) \<Rightarrow> (InOver None, b, w)
      | (Some r, s) \<Rightarrow> (InSeen r, b\<lparr> br_active := br_active b @ [k] \<rparr>, put_store s w))"
| "intake_next env p n k now oc (InSeen r) b w =
     ((if seen (in_message r) (sh_ledger w) then InDurable r else begin_intake env r), b, w)"
| "intake_next env p n k now oc (InDurable r) b w =
     ((if job_recorded k (sh_store w) then InDone r else begin_intake env r), b, w)"
| "intake_next env p n k now oc (InReceipt r) b w =
     (case oc of Said _ \<Rightarrow> (InReceiptMark r, b, note_act (Spoke p (in_message r) (Receipt False)) w)
      | Raised f \<Rightarrow> (InFault f, b, w) | _ \<Rightarrow> (InReceipt r, b, w))"
| "intake_next env p n k now oc (InReceiptMark r) b w = (begin_route env r, b, update_own p k None True False False w)"
| "intake_next env p n k now oc (InJudge r told) b w =
     (case oc of
        Slow \<Rightarrow> (InJudge r True, b, if told then w else note_act (Spoke p (in_message r) Progress) w)
      | Judged repair \<Rightarrow> ((if repair then repair_or_refuse env r else InRouteMark r), b, w)
      | Raised f \<Rightarrow> (InFault f, b, w) | _ \<Rightarrow> (InJudge r told, b, w))"
| "intake_next env p n k now oc (InRouteMark r) b w =
     (InTalk r, b, update_own p k (Some ConversationRoute) False False False w)"
| "intake_next env p n k now oc (InRefuse r) b w =
     (case oc of Said _ \<Rightarrow> (InDone r, b, note_act (Spoke p (in_message r) Limited) w)
      | Raised f \<Rightarrow> (InFault f, b, w) | _ \<Rightarrow> (InRefuse r, b, w))"
| "intake_next env p n k now oc (InEnqueue r) b w =
     (case enqueue_job (be_sha env) now (in_guild r) (in_channel r) (in_message r) (in_author r) (in_text r)
             (in_previous r) (sh_store w) of
        (Inl _, s) \<Rightarrow> (InFault Failing, b, w)
      | (Inr job, s) \<Rightarrow> (InClaimJob r job, b, put_store s w))"
| "intake_next env p n k now oc (InClaimJob r job) b w =
     (case claim_message (in_message r) (sh_ledger w) of
        (Inl e, l) \<Rightarrow> (InFault (Coded e), b, w)
      | (Inr first, l) \<Rightarrow> (InJobDone r job first, b, put_ledger l w))"
| "intake_next env p n k now oc (InJobDone r job first) b w =
     ((if first then InAccept r job else InRelease None), b, update_own p k None False True False w)"
| "intake_next env p n k now oc (InAccept r job) b w =
     (case oc of Said _ \<Rightarrow> (InRelease None, b, note_act (Spoke p (in_message r) (Accepted job)) w)
      | Raised f \<Rightarrow> (InFault f, b, w) | _ \<Rightarrow> (InAccept r job, b, w))"
| "intake_next env p n k now oc (InTalk r) b w =
     (case ask_route env (br_settings b) (in_text r) (Some (in_guild r)) (in_context r) of
        Inl e \<Rightarrow> (InFault (Coded e), b, w)
      | Inr intent \<Rightarrow>
          (case claim_message (in_message r) (sh_ledger w) of
             (Inl e, l) \<Rightarrow> (InFault (Coded e), b, w)
           | (Inr False, l) \<Rightarrow> (InTwice r, b, w)
           | (Inr True, l) \<Rightarrow> (InAsk r intent, b, put_ledger l w)))"
| "intake_next env p n k now oc (InTwice r) b w = (InTwiceSay r, b, update_own p k None False True False w)"
| "intake_next env p n k now oc (InTwiceSay r) b w =
     (case oc of Said _ \<Rightarrow> (InRelease None, b, note_act (Spoke p (in_message r) Interrupted) w)
      | Raised f \<Rightarrow> (InFault f, b, w) | _ \<Rightarrow> (InTwiceSay r, b, w))"
| "intake_next env p n k now oc (InAsk r intent) b w =
     (InAnswer r intent False, b, note_act (Asked p n (in_message r) (in_text r) intent) w)"
| "intake_next env p n k now oc (InAnswer r intent told) b w =
     (case oc of
        Slow \<Rightarrow> (InAnswer r intent True, b, if told then w else note_act (Spoke p (in_message r) Progress) w)
      | Answered t \<Rightarrow> ((case split_discord_text t 1800 of Inl _ \<Rightarrow> InFault Failing | Inr ps \<Rightarrow> InPart r intent ps), b, w)
      | Raised f \<Rightarrow> (InFault f, b, w) | _ \<Rightarrow> (InAnswer r intent told, b, w))"
| "intake_next env p n k now oc (InPart r intent []) b w = (InRelease None, b, update_own p k None False True False w)"
| "intake_next env p n k now oc (InPart r intent (t # ts)) b w =
     (case oc of
        Said m \<Rightarrow> ((if 0 < m then InRemember r intent m t ts else InPart r intent ts), b,
                   note_act (Spoke p (in_message r) (Part t)) w)
      | Raised f \<Rightarrow> (InFault f, b, w) | _ \<Rightarrow> (InPart r intent (t # ts), b, w))"
| "intake_next env p n k now oc (InRemember r intent m t ts) b w =
     (InPart r intent ts, b, put_ledger (remember m (answer_event (in_message r) (Some (in_guild r)) (in_channel r)
        (in_author r) (in_text r)) t intent now (sh_ledger w)) w)"
| "intake_next env p n k now oc (InDone r) b w = (InRelease None, b, update_own p k None False True False w)"
| "intake_next env p n k now oc (InFault f) b w =
     (InRelease (Some f), b,
      (case f of Coded c \<Rightarrow> if c \<noteq> ''repair_classification_failed'' then update_own p k None False True False w else w
       | _ \<Rightarrow> w))"
| "intake_next env p n k now oc (InRelease f) b w =
     (InOver f, b\<lparr> br_active := filter (\<lambda>x. x \<noteq> k) (br_active b) \<rparr>, update_own p k None False False True w)"
| "intake_next env p n k now oc (InOver f) b w = (InOver f, b, w)"

end
