(* ===== verification/Bridge_Tasks.thy ===== *)
theory Bridge_Tasks
  imports Bridge
begin

text \<open>
  The tasks of a bridge process: \<open>recover_inbox\<close>, \<open>handle\<close>, \<open>recover_intakes\<close>, \<open>deliver_outbox\<close>, and the bridge
  processes with the repair controller as one transition function \<open>bridge_next\<close>.
\<close>

section \<open>The inbox\<close>

definition row_allowed :: "bridge_settings \<Rightarrow> inbox_row \<Rightarrow> bool" where
  "row_allowed st r \<longleftrightarrow> allows_channel st (ib_guild r) (ib_channel r) \<and> ib_user r \<in> set (bs_users st)"

definition owner_row :: "bridge \<Rightarrow> inbox_row \<Rightarrow> bool" where
  "owner_row b r \<longleftrightarrow> br_repairs b \<and> ib_user r = OWNER_USER_ID \<and> ib_guild r = Some (bs_guild (br_settings b))
     \<and> ib_channel r \<in> set (bs_channels (br_settings b))"

definition update_row :: "nat \<Rightarrow> bool \<Rightarrow> bool \<Rightarrow> bool \<Rightarrow> shared \<Rightarrow> shared" where
  "update_row m receipt finished release w = put_ledger (inbox_update m receipt finished release (sh_ledger w)) w"

definition begin_execution :: "inbox_row \<Rightarrow> work_phase" where
  "begin_execution r = (case ib_intake r of Some k \<Rightarrow> WkOwner r k | None \<Rightarrow> WkClaim r)"

definition begin_work :: "bool \<Rightarrow> bridge \<Rightarrow> inbox_row \<Rightarrow> work_phase" where
  "begin_work sender b r =
     (if \<not> sender \<and> ib_message r \<notin> set (br_senders b) then WkLetGo r
      else if \<not> row_allowed (br_settings b) r then WkDrop r
      else if ib_receipt r then begin_execution r else WkReceipt r)"

definition work_event :: "inbox_row \<Rightarrow> discord_event" where
  "work_event r = answer_event (ib_message r) (ib_guild r) (ib_channel r) (ib_user r) (ib_question r)"

text \<open>What the three handlers of \<open>recover_inbox\<close> make of an exception: the phase that follows.\<close>

definition on_fault :: "bridge \<Rightarrow> repair_store \<Rightarrow> inbox_row \<Rightarrow> bool \<Rightarrow> fault \<Rightarrow> work_phase" where
  "on_fault b s r recorded f =
     (case f of
        Stopped \<Rightarrow> WkEnd r (ib_intake r = None \<and> recorded) (Some Stopped)
      | Coded c \<Rightarrow> WkNotice r (Notice c) (if ib_intake r = None then recorded else c \<noteq> ''repair_classification_failed'')
      | Failing \<Rightarrow> WkNotice r Unexpected
          (case ib_intake r of Some k \<Rightarrow> if br_repairs b then intake_done k s else recorded | None \<Rightarrow> recorded))"

fun work_next ::
  "bridge_env \<Rightarrow> process_id \<Rightarrow> bool \<Rightarrow> real \<Rightarrow> outcome \<Rightarrow> work_phase \<Rightarrow> bridge \<Rightarrow> shared \<Rightarrow> work_phase \<times> bridge \<times> shared" where
  "work_next env p sender now oc WkHead b w =
     (if sh_drain w then (WkOver None, b, w)
      else case claim_next (running w) p (sh_ledger w) of
        (None, l) \<Rightarrow> (WkOver None, b, w)
      | (Some r, l) \<Rightarrow> (begin_work sender b r, b, put_ledger l w))"
| "work_next env p sender now oc (WkLetGo r) b w = (WkOver None, b, update_row (ib_message r) False False True w)"
| "work_next env p sender now oc (WkDrop r) b w = (WkHead, b, update_row (ib_message r) False True True w)"
| "work_next env p sender now oc (WkReceipt r) b w =
     (case oc of Said _ \<Rightarrow> (WkReceiptMark r, b, note_act (Spoke p (ib_message r) (Receipt False)) w)
      | Raised f \<Rightarrow> (WkFault r False f, b, w) | _ \<Rightarrow> (WkReceipt r, b, w))"
| "work_next env p sender now oc (WkReceiptMark r) b w =
     (begin_execution r, b, update_row (ib_message r) True False False w)"
| "work_next env p sender now oc (WkOwner r k) b w =
     (if owner_row b r then (WkIntake r k InClaim, b, put_store (mark_receipt k (sh_store w)) w)
      else (WkFault r False (Coded ''owner_repair_scope_mismatch''), b, w))"
| "work_next env p sender now oc (WkIntake r k ph) b w =
     (case intake_next env p (Some (ib_sequence r)) k now oc ph b w of
        (InOver None, b', w') \<Rightarrow> (WkSettled r k, b', w')
      | (InOver (Some f), b', w') \<Rightarrow> (WkFault r False f, b', w')
      | (ph', b', w') \<Rightarrow> (WkIntake r k ph', b', w'))"
| "work_next env p sender now oc (WkSettled r k) b w = (WkEnd r (intake_done k (sh_store w)) None, b, w)"
| "work_next env p sender now oc (WkClaim r) b w =
     (case claim_message (ib_message r) (sh_ledger w) of
        (Inl e, l) \<Rightarrow> (WkFault r False (Coded e), b, w)
      | (Inr first, l) \<Rightarrow> ((if first then WkRoute r else WkTwice r), b, put_ledger l w))"
| "work_next env p sender now oc (WkTwice r) b w = (WkTwiceSay r, b, update_row (ib_message r) False True False w)"
| "work_next env p sender now oc (WkTwiceSay r) b w =
     (case oc of Said _ \<Rightarrow> (WkEnd r True None, b, note_act (Spoke p (ib_message r) Interrupted) w)
      | Raised f \<Rightarrow> (WkFault r True f, b, w) | _ \<Rightarrow> (WkTwiceSay r, b, w))"
| "work_next env p sender now oc (WkRoute r) b w =
     ((case ask_route env (br_settings b) (ib_question r) (ib_guild r) (ib_context r) of
         Inl e \<Rightarrow> WkFault r True (Coded e) | Inr intent \<Rightarrow> WkAsk r intent), b, w)"
| "work_next env p sender now oc (WkAsk r intent) b w =
     (WkAnswer r intent False, b, note_act (Asked p (Some (ib_sequence r)) (ib_message r) (ib_question r) intent) w)"
| "work_next env p sender now oc (WkAnswer r intent told) b w =
     (case oc of
        Slow \<Rightarrow> (WkAnswer r intent True, b, if told then w else note_act (Spoke p (ib_message r) Progress) w)
      | Answered t \<Rightarrow> (WkDone r intent t, b, w)
      | Raised f \<Rightarrow> (WkFault r True f, b, w) | _ \<Rightarrow> (WkAnswer r intent told, b, w))"
| "work_next env p sender now oc (WkDone r intent t) b w =
     ((case split_discord_text t 1800 of Inl _ \<Rightarrow> WkFault r True Failing | Inr ps \<Rightarrow> WkPart r intent ps), b,
      update_row (ib_message r) False True False w)"
| "work_next env p sender now oc (WkPart r intent []) b w = (WkEnd r True None, b, w)"
| "work_next env p sender now oc (WkPart r intent (t # ts)) b w =
     (case oc of
        Said m \<Rightarrow> ((if 0 < m then WkRemember r intent m t ts else WkPart r intent ts), b,
                   note_act (Spoke p (ib_message r) (Part t)) w)
      | Raised f \<Rightarrow> (WkFault r True f, b, w) | _ \<Rightarrow> (WkPart r intent (t # ts), b, w))"
| "work_next env p sender now oc (WkRemember r intent m t ts) b w =
     (WkPart r intent ts, b, put_ledger (remember m (work_event r) t intent now (sh_ledger w)) w)"
| "work_next env p sender now oc (WkFault r recorded f) b w = (on_fault b (sh_store w) r recorded f, b, w)"
| "work_next env p sender now oc (WkNotice r s finished) b w =
     (case oc of Said _ \<Rightarrow> (WkEnd r finished None, b, note_act (Spoke p (ib_message r) s) w)
      | Raised f \<Rightarrow> (WkEnd r finished (Some f), b, w) | _ \<Rightarrow> (WkNotice r s finished, b, w))"
| "work_next env p sender now oc (WkEnd r finished f) b w =
     ((case f of Some x \<Rightarrow> WkOver (Some x) | None \<Rightarrow> if finished then WkHead else WkOver None),
      (if finished then b\<lparr> br_senders := filter (\<lambda>m. m \<noteq> ib_message r) (br_senders b) \<rparr> else b),
      update_row (ib_message r) False finished True w)"
| "work_next env p sender now oc (WkOver f) b w = (WkOver f, b, w)"

text \<open>The lock is free again: the task that waited for the pass goes on.\<close>

definition fault_notice :: "discord_event \<Rightarrow> fault option \<Rightarrow> handler_phase" where
  "fault_notice ev f = (case f of Some (Coded c) \<Rightarrow> HdNotice ev (Notice c) | Some Failing \<Rightarrow> HdNotice ev Unexpected
     | _ \<Rightarrow> HdGone)"

definition after_pass :: "bool \<Rightarrow> fault option \<Rightarrow> recovery_phase" where
  "after_pass repairs f = (if f = None \<and> repairs then RcPending else RcIdle)"

definition end_pass :: "fault option \<Rightarrow> bridge \<Rightarrow> bridge" where
  "end_pass f b = b\<lparr> br_work := None,
     br_handlers := map (\<lambda>h. case h of HdInWork ev \<Rightarrow> fault_notice ev f | _ \<Rightarrow> h) (br_handlers b),
     br_recovery := (if br_recovery b = RcInWork then after_pass (br_repairs b) f else br_recovery b) \<rparr>"

definition work_step :: "bridge_env \<Rightarrow> process_id \<Rightarrow> real \<Rightarrow> outcome \<Rightarrow> bridge \<Rightarrow> shared \<Rightarrow> bridge \<times> shared" where
  "work_step env p now oc b w =
     (case br_work b of
        None \<Rightarrow> (b, w)
      | Some (sender, ph) \<Rightarrow>
          (case work_next env p sender now oc ph b w of
             (WkOver f, b', w') \<Rightarrow> (end_pass f b', w')
           | (ph', b', w') \<Rightarrow> (b'\<lparr> br_work := Some (sender, ph') \<rparr>, w')))"

section \<open>Events\<close>

text \<open>\<open>re.sub(rf"<@!?{application_id}>", "", content)\<close>.\<close>

definition mention_at :: "nat \<Rightarrow> utext \<Rightarrow> nat" where
  "mention_at k t =
     (let plain = ascii (''<@'' @ dec k @ ''>''); nick = ascii (''<@!'' @ dec k @ ''>'') in
      if take (length plain) t = plain then length plain
      else if take (length nick) t = nick then length nick else 0)"

function remove_mentions :: "nat \<Rightarrow> utext \<Rightarrow> utext" where
  "remove_mentions k [] = []"
| "remove_mentions k (c # t) =
     (if mention_at k (c # t) = 0 then c # remove_mentions k t
      else remove_mentions k (drop (mention_at k (c # t) - 1) t))"
  by pat_completeness auto
termination by (relation "measure (\<lambda>(k, t). length t)") auto

definition question_of :: "bridge \<Rightarrow> discord_event \<Rightarrow> utext" where
  "question_of b ev = strip (remove_mentions (bs_application (br_settings b)) (ev_content ev))"

definition ignored :: "bridge_settings \<Rightarrow> discord_event \<Rightarrow> bool" where
  "ignored st ev \<longleftrightarrow> ev_author_bot ev \<or> ev_webhook ev \<or> ev_system ev \<or> ev_everyone ev
     \<or> \<not> allows_channel st (ev_guild ev) (ev_channel ev) \<or> ev_user ev \<notin> set (bs_users st)"

definition owner_event :: "bridge \<Rightarrow> discord_event \<Rightarrow> bool" where
  "owner_event b ev \<longleftrightarrow> br_repairs b \<and> ev_user ev = OWNER_USER_ID \<and> ev_guild ev = Some (bs_guild (br_settings b))
     \<and> ev_channel ev \<in> set (bs_channels (br_settings b))"

definition event_community :: "bridge_env \<Rightarrow> bridge \<Rightarrow> discord_event \<Rightarrow> community option \<Rightarrow> community option" where
  "event_community env b ev stored =
     (case (if (case ev_guild ev of None \<Rightarrow> False | Some g \<Rightarrow> g \<in> set (bs_community_guilds (br_settings b)))
            then community_intent (be_nfkc env) (be_casefold env) (question_of b ev) else None) of
        Some c \<Rightarrow> Some c | None \<Rightarrow> stored)"

definition after_capture ::
  "bridge_env \<Rightarrow> bridge \<Rightarrow> discord_event \<Rightarrow> utext \<Rightarrow> utext option \<Rightarrow> community option \<Rightarrow> string option \<Rightarrow> handler_phase" where
  "after_capture env b ev question previous context intake =
     (if \<not> owner_event b ev \<and> context = None \<and> \<not> be_public env question
      then HdNotice ev (Notice ''question_not_public'') else HdEnqueue ev question previous context intake)"

definition add_sender :: "nat \<Rightarrow> bridge \<Rightarrow> bridge" where
  "add_sender m b = b\<lparr> br_senders := m # br_senders b \<rparr>"

fun handler_next ::
  "bridge_env \<Rightarrow> process_id \<Rightarrow> real \<Rightarrow> outcome \<Rightarrow> handler_phase \<Rightarrow> bridge \<Rightarrow> shared \<Rightarrow> handler_phase \<times> bridge \<times> shared" where
  "handler_next env p now oc (HdStart ev) b w =
     (if ignored (br_settings b) ev then (HdGone, b, w)
      else case previous_context ev now now (sh_ledger w) of (previous, stored) \<Rightarrow>
        if \<not> ev_mentioned ev \<and> previous = None then (HdGone, b, w)
        else (HdAdmit ev (question_of b ev) previous (event_community env b ev stored), b, w))"
| "handler_next env p now oc (HdAdmit ev question previous context) b w =
     ((case check_admission (ev_message ev) (sh_ledger w) of
         Some e \<Rightarrow> HdNotice ev (Notice e)
       | None \<Rightarrow> if owner_event b ev then HdCapture ev question previous context
                 else after_capture env b ev question previous context None), b, w)"
| "handler_next env p now oc (HdCapture ev question previous context) b w =
     (case capture_intake (be_sha env) now (bs_guild (br_settings b)) (ev_channel ev) (ev_message ev) (ev_user ev)
             question previous context (sh_store w) of
        (Inl _, s) \<Rightarrow> (HdNotice ev Unexpected, b, w)
      | (Inr k, s) \<Rightarrow> (after_capture env b ev question previous context (Some k), b, put_store s w))"
| "handler_next env p now oc (HdEnqueue ev question previous context intake) b w =
     (case enqueue_message ev question previous intake (Some p) context (sh_ledger w) of
        (Inl e, l) \<Rightarrow> (HdNotice ev (Notice e), b, w)
      | (Inr False, l) \<Rightarrow> (HdAgain ev, b, w)
      | (Inr True, l) \<Rightarrow>
          ((if sh_drain w then HdLetGo ev else HdReceipt ev (br_work b \<noteq> None)), add_sender (ev_message ev) b, put_ledger l w))"
| "handler_next env p now oc (HdAgain ev) b w =
     (if inbox_pending (Some (ev_message ev)) (sh_ledger w) then (HdWork ev, add_sender (ev_message ev) b, w)
      else (HdGone, b, w))"
| "handler_next env p now oc (HdLetGo ev) b w = (HdGone, b, update_row (ev_message ev) False False True w)"
| "handler_next env p now oc (HdReceipt ev queued) b w =
     (case oc of Said _ \<Rightarrow> (HdReceiptMark ev, b, note_act (Spoke p (ev_message ev) (Receipt queued)) w)
      | Raised f \<Rightarrow> (HdFree ev (Some f), b, w) | _ \<Rightarrow> (HdReceipt ev queued, b, w))"
| "handler_next env p now oc (HdReceiptMark ev) b w = (HdFree ev None, b, update_row (ev_message ev) True False False w)"
| "handler_next env p now oc (HdFree ev f) b w =
     ((if f = None then HdWork ev else fault_notice ev f), b, update_row (ev_message ev) False False True w)"
| "handler_next env p now oc (HdWork ev) b w =
     (if br_work b \<noteq> None then (HdGone, b, w) else (HdInWork ev, b\<lparr> br_work := Some (False, WkHead) \<rparr>, w))"
| "handler_next env p now oc (HdInWork ev) b w = (HdInWork ev, b, w)"
| "handler_next env p now oc (HdNotice ev s) b w =
     (case oc of Said _ \<Rightarrow> (HdGone, b, note_act (Spoke p (ev_message ev) s) w) | Raised f \<Rightarrow> (HdGone, b, w)
      | _ \<Rightarrow> (HdNotice ev s, b, w))"
| "handler_next env p now oc HdGone b w = (HdGone, b, w)"

definition handler_step ::
  "bridge_env \<Rightarrow> process_id \<Rightarrow> nat \<Rightarrow> real \<Rightarrow> outcome \<Rightarrow> bridge \<Rightarrow> shared \<Rightarrow> bridge \<times> shared" where
  "handler_step env p i now oc b w =
     (if length (br_handlers b) \<le> i then (b, w)
      else case handler_next env p now oc (br_handlers b ! i) b w of
        (h, b', w') \<Rightarrow> (b'\<lparr> br_handlers := (br_handlers b')[i := h] \<rparr>, w'))"

section \<open>Recovery\<close>

definition begun :: "work_phase \<Rightarrow> bool" where
  "begun ph \<longleftrightarrow> (case ph of WkHead \<Rightarrow> False | WkLetGo _ \<Rightarrow> False | WkDrop _ \<Rightarrow> False | WkOver _ \<Rightarrow> False | _ \<Rightarrow> True)"

definition inflight :: "bridge \<Rightarrow> nat" where
  "inflight b = (case br_work b of Some (_, ph) \<Rightarrow> if begun ph then 1 else 0 | None \<Rightarrow> 0)
     + (case br_recovery b of RcIntake _ _ _ \<Rightarrow> 1 | RcNotice _ _ _ \<Rightarrow> 1 | _ \<Rightarrow> 0)"

fun recovery_next ::
  "bridge_env \<Rightarrow> process_id \<Rightarrow> real \<Rightarrow> outcome \<Rightarrow> recovery_phase \<Rightarrow> bridge \<Rightarrow> shared \<Rightarrow> recovery_phase \<times> bridge \<times> shared" where
  "recovery_next env p now oc RcIdle b w =
     (if br_work b = None then (RcInWork, b\<lparr> br_work := Some (True, WkHead) \<rparr>, w)
      else (after_pass (br_repairs b) None, b, w))"
| "recovery_next env p now oc RcInWork b w = (RcInWork, b, w)"
| "recovery_next env p now oc RcPending b w = ((if inbox_pending None (sh_ledger w) then RcIdle else RcList), b, w)"
| "recovery_next env p now oc RcList b w =
     (RcRows (pending_intakes (bs_guild (br_settings b)) (bs_channels (br_settings b)) (sh_store w)), b, w)"
| "recovery_next env p now oc (RcRows []) b w = (RcIdle, b, w)"
| "recovery_next env p now oc (RcRows (r # rs)) b w =
     ((if inbox_has (in_message r) (sh_ledger w) then RcRows rs
       else if sh_drain w \<or> 2 \<le> inflight b then RcIdle else RcIntake r InClaim rs), b, w)"
| "recovery_next env p now oc (RcIntake r ph rs) b w =
     (case intake_next env p None (in_id r) now oc ph b w of
        (InOver None, b', w') \<Rightarrow> (RcRows rs, b', w')
      | (InOver (Some (Coded c)), b', w') \<Rightarrow> (RcNotice r (Notice c) rs, b', w')
      | (InOver (Some Failing), b', w') \<Rightarrow> (RcRows rs, b', w')
      | (InOver (Some Stopped), b', w') \<Rightarrow> (RcIdle, b', w')
      | (ph', b', w') \<Rightarrow> (RcIntake r ph' rs, b', w'))"
| "recovery_next env p now oc (RcNotice r s rs) b w =
     (case oc of Said _ \<Rightarrow> (RcRows rs, b, note_act (Spoke p (in_message r) s) w) | Raised f \<Rightarrow> (RcIdle, b, w)
      | _ \<Rightarrow> (RcNotice r s rs, b, w))"

definition recovery_step :: "bridge_env \<Rightarrow> process_id \<Rightarrow> real \<Rightarrow> outcome \<Rightarrow> bridge \<Rightarrow> shared \<Rightarrow> bridge \<times> shared" where
  "recovery_step env p now oc b w =
     (case recovery_next env p now oc (br_recovery b) b w of (ph, b', w') \<Rightarrow> (b'\<lparr> br_recovery := ph \<rparr>, w'))"

section \<open>The outbox\<close>

fun delivery_next ::
  "process_id \<Rightarrow> real \<Rightarrow> outcome \<Rightarrow> delivery_phase \<Rightarrow> bridge \<Rightarrow> shared \<Rightarrow> delivery_phase \<times> shared" where
  "delivery_next p now oc DvIdle b w =
     ((if br_repairs b
       then DvRows (pending_deliveries (bs_guild (br_settings b)) (bs_channels (br_settings b)) (sh_store w))
       else DvIdle), w)"
| "delivery_next p now oc (DvRows []) b w = (DvIdle, w)"
| "delivery_next p now oc (DvRows ((x, j) # rest)) b w = ((if sh_drain w then DvIdle else DvClaim x j rest), w)"
| "delivery_next p now oc (DvClaim x j rest) b w =
     (case claim_delivery (ob_job x) (ob_ordinal x) (sh_store w) of
        (won, s) \<Rightarrow> ((if won then DvSend x j rest else DvRows rest), put_store s w))"
| "delivery_next p now oc (DvSend x j rest) b w =
     (case oc of Said m \<Rightarrow> (DvMark x j m rest, note_act (Posted p (ob_job x) (ob_ordinal x)) w)
      | Raised f \<Rightarrow> ((if f = Stopped then DvIdle else DvRows rest), w) | _ \<Rightarrow> (DvSend x j rest, w))"
| "delivery_next p now oc (DvMark x j m rest) b w =
     (case mark_delivered (ob_job x) (ob_ordinal x) m (sh_store w) of
        (Inl _, s) \<Rightarrow> (DvRows rest, w) | (Inr _, s) \<Rightarrow> (DvRemember x j m rest, put_store s w))"
| "delivery_next p now oc (DvRemember x j m rest) b w =
     (DvRows rest, put_ledger (remember m (answer_event (rj_message j) (Some (rj_guild j)) (rj_channel j) (rj_author j) [])
        (ob_text x) None now (sh_ledger w)) w)"

definition delivery_step :: "process_id \<Rightarrow> real \<Rightarrow> outcome \<Rightarrow> bridge \<Rightarrow> shared \<Rightarrow> bridge \<times> shared" where
  "delivery_step p now oc b w =
     (case delivery_next p now oc (br_delivery b) b w of (ph, w') \<Rightarrow> (b\<lparr> br_delivery := ph \<rparr>, w'))"

section \<open>The system\<close>

text \<open>What the repair controller, a process of its own, does to the store.\<close>

datatype store_op =
    Transition string stage "(string \<times> datum) list"
  | Finish string stage utext "(string \<times> datum) list"
  | Notify string utext

definition run_store_op :: "bridge_env \<Rightarrow> real \<Rightarrow> store_op \<Rightarrow> repair_store \<Rightarrow> repair_store" where
  "run_store_op env now op s = snd (case op of
     Transition k st d \<Rightarrow> transition k st d now s
   | Finish k st t d \<Rightarrow> finish_job (be_clean env) k st t d now s
   | Notify k t \<Rightarrow> notify (be_clean env) k t s)"

datatype label =
    Start process_id bridge_settings bool
  | Crash process_id
  | Arrive process_id discord_event
  | Handle process_id nat real outcome
  | Work process_id real outcome
  | Recover process_id real outcome
  | Deliver process_id real outcome
  | Drain bool
  | Operate store_op real

text \<open>A step of a process that runs.\<close>

definition by_process :: "process_id \<Rightarrow> (bridge \<Rightarrow> shared \<Rightarrow> bridge \<times> shared) \<Rightarrow> shared \<Rightarrow> shared" where
  "by_process p f w = (case sh_bridges w p of None \<Rightarrow> w | Some b \<Rightarrow> (case f b w of (b', w') \<Rightarrow> set_bridge p b' w'))"

text \<open>A process is named by its number and the time of its creation, so no name is used twice.\<close>

fun bridge_next :: "bridge_env \<Rightarrow> label \<Rightarrow> shared \<Rightarrow> shared" where
  "bridge_next env (Start p st repairs) w =
     (if p \<in> set (sh_born w) \<or> \<not> valid_bridge_settings st then w
      else set_bridge p (new_bridge st repairs) (put_ledger (open_ledger (sh_ledger w)) (w\<lparr> sh_born := sh_born w @ [p] \<rparr>)))"
| "bridge_next env (Crash p) w = w\<lparr> sh_bridges := (sh_bridges w)(p := None) \<rparr>"
| "bridge_next env (Arrive p ev) w = by_process p (\<lambda>b w. (b\<lparr> br_handlers := br_handlers b @ [HdStart ev] \<rparr>, w)) w"
| "bridge_next env (Handle p i now oc) w = by_process p (handler_step env p i now oc) w"
| "bridge_next env (Work p now oc) w = by_process p (work_step env p now oc) w"
| "bridge_next env (Recover p now oc) w = by_process p (recovery_step env p now oc) w"
| "bridge_next env (Deliver p now oc) w = by_process p (delivery_step p now oc) w"
| "bridge_next env (Drain marked) w = w\<lparr> sh_drain := marked \<rparr>"
| "bridge_next env (Operate op now) w = put_store (run_store_op env now op (sh_store w)) w"

definition first_shared :: shared where
  "first_shared = \<lparr> sh_ledger = new_ledger, sh_store = new_store, sh_drain = False, sh_bridges = (\<lambda>_. None),
     sh_born = [], sh_acts = [] \<rparr>"

definition bridge_init :: "shared \<Rightarrow> bool" where
  "bridge_init w \<longleftrightarrow> w = first_shared"

definition bridge_step :: "bridge_env \<Rightarrow> shared \<Rightarrow> label \<Rightarrow> shared \<Rightarrow> bool" where
  "bridge_step env w lab w' \<longleftrightarrow> w' = bridge_next env lab w"

end
