(* ===== verification/Bridge_Once.thy ===== *)
theory Bridge_Once
  imports Bridge_Tasks
begin

text \<open>
  Every request is executed at most once: over all processes, their ends and restarts, the runtime is asked at
  most once for a message. The record of executions in the ledger hands out the right to ask; a task that holds
  it loses it when it asks.
\<close>

section \<open>The right to ask\<close>

definition asked_message :: "act \<Rightarrow> nat option" where
  "asked_message a = (case a of Asked _ _ m _ _ \<Rightarrow> Some m | _ \<Rightarrow> None)"

definition asked :: "shared \<Rightarrow> nat list" where
  "asked w = List.map_filter asked_message (sh_acts w)"

definition intake_right :: "intake_phase \<Rightarrow> nat option" where
  "intake_right ph = (case ph of InAsk r _ \<Rightarrow> Some (in_message r) | _ \<Rightarrow> None)"

definition work_right :: "work_phase \<Rightarrow> nat option" where
  "work_right ph = (case ph of WkRoute r \<Rightarrow> Some (ib_message r) | WkAsk r _ \<Rightarrow> Some (ib_message r)
     | WkIntake r k ph \<Rightarrow> intake_right ph | _ \<Rightarrow> None)"

text \<open>A process can hold two rights: in its work on the inbox and in its recovery of intakes.\<close>

definition right_of :: "bridge \<Rightarrow> bool \<Rightarrow> nat option" where
  "right_of b inbox =
     (if inbox then (case br_work b of None \<Rightarrow> None | Some (_, ph) \<Rightarrow> work_right ph)
      else (case br_recovery b of RcIntake _ ph _ \<Rightarrow> intake_right ph | _ \<Rightarrow> None))"

definition right :: "shared \<Rightarrow> process_id \<Rightarrow> bool \<Rightarrow> nat option" where
  "right w p inbox = (case sh_bridges w p of None \<Rightarrow> None | Some b \<Rightarrow> right_of b inbox)"


text \<open>What one step may do with a right: keep or drop it, take one that the ledger grants now, or use it.\<close>

definition right_step :: "shared \<Rightarrow> nat option \<Rightarrow> shared \<Rightarrow> nat option \<Rightarrow> bool" where
  "right_step w x w' x' \<longleftrightarrow> sh_bridges w' = sh_bridges w \<and>
     (let r = lg_requests (sh_ledger w); r' = lg_requests (sh_ledger w') in
        r' = r \<and> asked w' = asked w \<and> (x' = None \<or> x' = x)
      \<or> (\<exists>m. m \<notin> set r \<and> r' = r @ [m] \<and> asked w' = asked w \<and> (x' = None \<or> x' = Some m))
      \<or> (\<exists>m. x = Some m \<and> r' = r \<and> asked w' = asked w @ [m] \<and> x' = None))"

lemma asked_note [simp]: "asked (note_act a w) = asked w @ (case asked_message a of None \<Rightarrow> [] | Some m \<Rightarrow> [m])"
  by (auto simp: asked_def note_act_def map_filter_def split: option.splits)

lemma asked_put [simp]: "asked (put_ledger l w) = asked w" "asked (put_store s w) = asked w" "asked (set_bridge p b w) = asked w"
  by (simp_all add: asked_def put_ledger_def put_store_def set_bridge_def)

lemma asked_message_simps [simp]: "asked_message (Asked p n m t i) = Some m" "asked_message (Spoke p m s) = None"
  "asked_message (Posted p k j) = None"
  by (simp_all add: asked_message_def)

lemma shared_simps [simp]:
  "sh_ledger (put_ledger l w) = l" "sh_store (put_ledger l w) = sh_store w" "sh_bridges (put_ledger l w) = sh_bridges w"
  "sh_ledger (put_store s w) = sh_ledger w" "sh_store (put_store s w) = s" "sh_bridges (put_store s w) = sh_bridges w"
  "sh_ledger (note_act a w) = sh_ledger w" "sh_store (note_act a w) = sh_store w" "sh_bridges (note_act a w) = sh_bridges w"
  "sh_drain (put_ledger l w) = sh_drain w" "sh_drain (put_store s w) = sh_drain w" "sh_drain (note_act a w) = sh_drain w"
  "sh_born (put_ledger l w) = sh_born w" "sh_born (put_store s w) = sh_born w" "sh_born (note_act a w) = sh_born w"
  "sh_acts (put_ledger l w) = sh_acts w" "sh_acts (put_store s w) = sh_acts w" "sh_acts (note_act a w) = sh_acts w @ [a]"
  by (simp_all add: put_ledger_def put_store_def note_act_def)

lemma set_bridge_simps [simp]:
  "sh_ledger (set_bridge p b w) = sh_ledger w" "sh_store (set_bridge p b w) = sh_store w"
  "sh_bridges (set_bridge p b w) = (sh_bridges w)(p := Some b)" "sh_drain (set_bridge p b w) = sh_drain w"
  "sh_born (set_bridge p b w) = sh_born w" "sh_acts (set_bridge p b w) = sh_acts w"
  by (simp_all add: set_bridge_def)

lemma update_own_simps [simp]:
  "sh_ledger (update_own p k r a b c w) = sh_ledger w" "sh_bridges (update_own p k r a b c w) = sh_bridges w"
  "asked (update_own p k r a b c w) = asked w" "sh_acts (update_own p k r a b c w) = sh_acts w"
  "sh_drain (update_own p k r a b c w) = sh_drain w" "sh_born (update_own p k r a b c w) = sh_born w"
  by (simp_all add: update_own_def)

lemma update_row_simps [simp]:
  "sh_store (update_row m a b c w) = sh_store w" "sh_bridges (update_row m a b c w) = sh_bridges w"
  "asked (update_row m a b c w) = asked w" "sh_acts (update_row m a b c w) = sh_acts w"
  "sh_drain (update_row m a b c w) = sh_drain w" "sh_born (update_row m a b c w) = sh_born w"
  "lg_requests (sh_ledger (update_row m a b c w)) = lg_requests (sh_ledger w)"
  "sh_ledger (update_row m a b c w) = inbox_update m a b c (sh_ledger w)"
  by (simp_all add: update_row_def inbox_update_def Let_def)

lemma ledger_requests [simp]:
  "lg_requests (remember m ev t i now l) = lg_requests l"
  "lg_requests (inbox_update m a b c l) = lg_requests l"
  by (simp_all add: remember_def inbox_update_def Let_def)




section \<open>Steps of the tasks\<close>

lemma begin_intake_right [simp]: "intake_right (begin_intake env r) = None" "intake_right (begin_route env r) = None"
  "intake_right (repair_or_refuse env r) = None"
  by (auto simp: begin_intake_def begin_route_def repair_or_refuse_def intake_right_def split: option.splits intake_route.splits)

lemma begin_work_right [simp]: "work_right (begin_work s b r) = None" "work_right (begin_execution r) = None"
  "work_right (on_fault b st r rec f) = None"
  by (auto simp: begin_work_def begin_execution_def on_fault_def work_right_def split: option.splits fault.splits)

lemma intake_right_simps [simp]:
  "intake_right (InAsk r i) = Some (in_message r)" "intake_right InClaim = None" "intake_right (InSeen r) = None"
  "intake_right (InDurable r) = None" "intake_right (InReceipt r) = None" "intake_right (InReceiptMark r) = None"
  "intake_right (InJudge r a) = None" "intake_right (InRouteMark r) = None" "intake_right (InRefuse r) = None"
  "intake_right (InEnqueue r) = None" "intake_right (InClaimJob r j) = None" "intake_right (InJobDone r j a) = None"
  "intake_right (InAccept r j) = None" "intake_right (InTalk r) = None" "intake_right (InTwice r) = None"
  "intake_right (InTwiceSay r) = None" "intake_right (InAnswer r i a) = None" "intake_right (InPart r i ts) = None"
  "intake_right (InRemember r i m t ts) = None" "intake_right (InDone r) = None" "intake_right (InFault f) = None"
  "intake_right (InRelease g) = None" "intake_right (InOver g) = None"
  by (simp_all add: intake_right_def)

definition same_tasks :: "bridge \<Rightarrow> bridge \<Rightarrow> bool" where
  "same_tasks b b' \<longleftrightarrow> br_work b' = br_work b \<and> br_recovery b' = br_recovery b \<and> br_handlers b' = br_handlers b
     \<and> br_delivery b' = br_delivery b \<and> br_settings b' = br_settings b \<and> br_repairs b' = br_repairs b"

lemma same_tasks_simps [simp]: "same_tasks b b" "same_tasks b (b\<lparr> br_active := a \<rparr>)" "same_tasks b (b\<lparr> br_senders := m \<rparr>)"
  by (simp_all add: same_tasks_def)




lemma right_step_ask [simp]: "right_step w (Some m) (note_act (Asked p n m t i) w) None"
  by (simp add: right_step_def)



lemma work_right_simps [simp]:
  "work_right WkHead = None" "work_right (WkLetGo r) = None" "work_right (WkDrop r) = None" "work_right (WkReceipt r) = None"
  "work_right (WkReceiptMark r) = None" "work_right (WkOwner r k) = None" "work_right (WkIntake r k ph) = intake_right ph"
  "work_right (WkSettled r k) = None" "work_right (WkClaim r) = None" "work_right (WkTwice r) = None"
  "work_right (WkTwiceSay r) = None" "work_right (WkRoute r) = Some (ib_message r)" "work_right (WkAsk r i) = Some (ib_message r)"
  "work_right (WkAnswer r i a) = None" "work_right (WkDone r i t) = None" "work_right (WkPart r i ts) = None"
  "work_right (WkRemember r i m t ts) = None" "work_right (WkFault r a f) = None" "work_right (WkNotice r s a) = None"
  "work_right (WkEnd r a g) = None" "work_right (WkOver g) = None"
  by (simp_all add: work_right_def)




section \<open>The invariant\<close>

lemma right_set: "right (set_bridge p b' w') q s = (if q = p then right_of b' s else right w' q s)"
  by (simp add: right_def)




lemma right_step_refl: "right_step w x w x" "right_step w x w None"
  by (simp_all add: right_step_def)








lemma open_ledger_requests [simp]: "lg_requests (open_ledger l) = lg_requests l"
  by (simp add: open_ledger_def)


lemma right_of_new [simp]: "right_of (new_bridge st repairs) s = None"
  by (simp add: right_of_def new_bridge_def)




section \<open>Property\<close>


section \<open>An example\<close>



text \<open>A server with one channel and one user besides the owner; everything is public, nothing is limited.\<close>

definition ex_bridge :: bridge_settings where
  "ex_bridge = \<lparr> bs_application = 9, bs_guild = 1, bs_channels = [2], bs_users = [3, OWNER_USER_ID], bs_additional = [],
     bs_community_guilds = [] \<rparr>"

definition ex_bridge_env :: bridge_env where
  "ex_bridge_env = \<lparr> be_sha = (\<lambda>s. s), be_public = (\<lambda>_. True), be_nfkc = (\<lambda>t. t), be_casefold = (\<lambda>t. t),
     be_limited = (\<lambda>_. False), be_clean = Inr \<rparr>"

definition ex_event :: "nat \<Rightarrow> nat \<Rightarrow> discord_event" where
  "ex_event m u = \<lparr> ev_message = m, ev_guild = Some 1, ev_channel = 2, ev_user = u, ev_content = ascii ''<@9> why?'',
     ev_mentioned = True, ev_reply_to = None, ev_author_bot = False, ev_webhook = False, ev_system = False,
     ev_everyone = False \<rparr>"



section \<open>The run of the example\<close>

lemma ex_valid [simp]: "valid_bridge_settings ex_bridge"
  by (simp add: valid_bridge_settings_def ex_bridge_def snowflake_id_def OWNER_USER_ID_def)

lemma ex_bridge_simps [simp]: "bs_application ex_bridge = 9" "bs_guild ex_bridge = 1" "bs_channels ex_bridge = [2]"
  "bs_users ex_bridge = [3, OWNER_USER_ID]" "bs_additional ex_bridge = []" "bs_community_guilds ex_bridge = []"
  by (simp_all add: ex_bridge_def)

lemma ex_env_simps [simp]: "be_sha ex_bridge_env = (\<lambda>s. s)" "be_public ex_bridge_env = (\<lambda>_. True)" "be_limited ex_bridge_env = (\<lambda>_. False)"
  by (simp_all add: ex_bridge_env_def)

lemma ex_event_simps [simp]: "ev_message (ex_event m u) = m" "ev_guild (ex_event m u) = Some 1" "ev_channel (ex_event m u) = 2"
  "ev_user (ex_event m u) = u" "ev_mentioned (ex_event m u)" "ev_reply_to (ex_event m u) = None" "\<not> ev_author_bot (ex_event m u)"
  "\<not> ev_webhook (ex_event m u)" "\<not> ev_system (ex_event m u)" "\<not> ev_everyone (ex_event m u)"
  "ev_content (ex_event m u) = ascii ''<@9> why?''"
  by (simp_all add: ex_event_def)

lemma ex_stripped: "strip (remove_mentions 9 (ascii ''<@9> why?'')) = ascii ''why?''"
  by code_simp

lemma ex_question [simp]: "bs_application (br_settings b) = 9 \<Longrightarrow> question_of b (ex_event m u) = ascii ''why?''"
  by (simp add: question_of_def ex_stripped)

lemma owner_not [simp]: "OWNER_USER_ID \<noteq> 3" "3 \<noteq> OWNER_USER_ID"
  by (simp_all add: OWNER_USER_ID_def)




end
