(* ===== verification/Spec2Isabelle.thy ===== *)
theory Spec2Isabelle
  imports Lifecycle Scheduling Lineage Submission Finalization Storage Housekeeping
    Messages Quotes Evidence_Extraction Comparison Review Origins Passages
    Budget Network Searxng Tavily Parsing Fetch Collector Manager_Example Manager_Http
    Client Worker Worker_Stages Delivery Tasks Prompts Research Research_Run Research_Steps Research_Inv
    Research_Claims Research_Report Research_Example Config Models Research_Office
    Remote_Collector Remote_Jobs Chunks Splitting Ledger Repairs
    Community Bridge Bridge_Tasks Bridge_Once
begin

text \<open>
  A verification library of ephy-worker (Python, \<open>src/src/ephy_worker/\<close>): research jobs over the public
  web, carried out by workers under the control of a job manager.

  The program. A requester submits jobs to the manager (\<open>manager.py\<close>) over HTTP; workers claim them, keep
  a lease alive while they run a stage (\<open>collector.py\<close>: search by \<open>search.py\<close> or \<open>tavily.py\<close>, or the
  fetching of chosen pages by \<open>fetch.py\<close> and \<open>extraction.py\<close>) inside a budget (\<open>budget.py\<close>), upload artifacts
  and finalize. The requester turns the collected sources into evidence (\<open>evidence.py\<close>): it groups sources by
  origin, selects passages, checks the quotes a model proposes against the passages that were sent to it, and
  decides with a second model call what each claim is worth. A bridge to Discord (\<open>discord_runtime.py\<close>) takes
  questions from a durable inbox, puts them to a runtime and posts the answers.

  The model. Python classes are records, enums and unions are datatypes, exceptions are the left values of
  sums, text is a list of code points (\<open>utext\<close>), bytes are lists of naturals, dictionaries that are only
  looked up are maps, SQL tables are lists of rows, and an operation on the manager maps a state to an answer
  and a new state. Code outside the repository is a parameter: the hash functions, NFKC and case folding, JSON,
  DNS, the HTTP exchanges, zlib, the HTML and PDF libraries, the clock and \<open>uuid4\<close>. Where a property needs
  documented behaviour of such a parameter (fresh identifiers, \<open>zlib\<close> keeping back input only when it has filled
  its output and expanding by a bounded factor, time that passes) this is a named hypothesis, and the witness of the property instantiates it.

  Theories:
  \<^item> \<open>Prelude\<close>: named collections, options, sums, tables of rows with unique keys (locale \<open>keyed_table\<close>),
    reachable states (locale \<open>invariant_system\<close>).
  \<^item> \<open>Schema\<close>, \<open>Contracts\<close>, \<open>Results\<close>, \<open>Activity\<close>: the data of \<open>schema.py\<close> and \<open>contracts.py\<close> with the validators
    pydantic runs, and the activity statistics of \<open>discord_observer.py\<close>.
  \<^item> \<open>Manager_Store\<close>, \<open>Manager_Ops\<close>, \<open>Manager_Results\<close>: the tables of \<open>Manager\<close> and one definition for each
    method, errors included.
  \<^item> \<open>Manager_Inv\<close>, \<open>Manager_Machine\<close>: what the tables agree on, preserved by every operation, and the manager as
    a step relation. \<open>Lifecycle\<close>: its refinement of the documented life cycle of a job. \<open>Scheduling\<close>, \<open>Lineage\<close>,
    \<open>Submission\<close>, \<open>Finalization\<close>, \<open>Storage\<close>, \<open>Housekeeping\<close>: claims, budgets of retries, submit keys, leases and
    results, artifacts, retention and the sweeper. \<open>Manager_Example\<close>: one concrete run for the witnesses.
  \<^item> \<open>Manager_Http\<close>: the application \<open>ManagerApp\<close>: requests, credentials, body limits, handlers, error answers.
  \<^item> \<open>Budget\<close>, \<open>Network\<close>, \<open>Searxng\<close>, \<open>Tavily\<close>, \<open>Urls\<close>, \<open>Parsing\<close>, \<open>Fetch\<close>, \<open>Collector\<close>: budgets, the two search
    providers, page fetching with its address checks, document extraction and the two stages. The stages see a
    provider and a fetcher through the locales \<open>search_provider\<close> and \<open>source_fetcher\<close>, interpreted on the models
    of the real ones. \<open>zlib_behaves\<close> states what is assumed of \<open>zlib\<close>; that the loop over it ends is proved from it.
  \<^item> \<open>Messages\<close>, \<open>Quotes\<close>, \<open>Evidence_Extraction\<close>, \<open>Comparison\<close>, \<open>Review\<close>, \<open>Origins\<close>, \<open>Passages\<close>: \<open>evidence.py\<close>.
  \<^item> \<open>Client\<close>, \<open>Worker\<close>, \<open>Worker_Stages\<close>, \<open>Delivery\<close>: \<open>manager_client.py\<close> and \<open>worker_service.py\<close>. The client calls
    the modelled HTTP application through a link that carries each request and answer; how the answers are
    understood is a named hypothesis (\<open>understood\<close>). A worker is a state and the record of what the surroundings
    decide between its steps (\<open>conduct\<close>).
  \<^item> \<open>Config\<close>: \<open>config.py\<close>, the services a process may talk to and with which credentials.
  \<^item> \<open>Tasks\<close>: the state and exception monad of the asynchronous methods, a logic of what a task establishes
    (\<open>valid\<close>) and of relations each step follows (locale \<open>progress\<close>).
  \<^item> \<open>Prompts\<close>, \<open>Research\<close>, \<open>Research_Run\<close>: \<open>research.py\<close>, one definition for each method and for the parts of the
    long ones, on the object of the run (\<open>desk\<close>) and what it is built from (\<open>office\<close>). \<open>Research_Steps\<close> states
    what a relation must allow to be followed by a whole run (locales \<open>step_relation\<close>, \<open>run_relation\<close>,
    \<open>execution_relation\<close>); \<open>Research_Inv\<close>, \<open>Research_Claims\<close>, \<open>Research_Report\<close> follow the budget, the names, the
    claims and the saved reports through it, for every office whose parts only spend (locale \<open>thrifty_office\<close>).
    \<open>Research_Example\<close>: the properties of a run and one concrete run.
  \<^item> \<open>Models\<close>: \<open>models.py\<close>. \<open>Research_Office\<close>: the office of a local run, with the provider that
    \<open>create_search_provider\<close> makes (SearXNG or Tavily), the real fetcher, parser and model runner; the locales are
    interpreted on it, and one run that fetches and reads a page serves the witnesses.
  \<^item> \<open>Remote_Collector\<close>, \<open>Remote_Jobs\<close>: \<open>remote_collector.py\<close>, the collector that works through the manager, run
    over the client and the manager of this library. \<open>in_time\<close> states how long a stage may wait.
  \<^item> \<open>Chunks\<close>, \<open>Splitting\<close>: how the Discord bridge cuts an answer into messages, with the code blocks of the text
    (\<open>true_blocks\<close>) defined apart from the algorithm. \<open>Ledger\<close>, \<open>Repairs\<close>: the durable
    tables of the bridge (\<open>BridgeLedger\<close>) and of the repair requests (\<open>RepairStore\<close>).
  \<^item> \<open>Community\<close>, \<open>Bridge\<close>, \<open>Bridge_Tasks\<close>: \<open>community_intent\<close> of \<open>discord_community.py\<close> and \<open>RuntimeDiscordBridge\<close>.
    Several processes share the tables; their tasks (\<open>handle\<close>, \<open>recover_inbox\<close>, \<open>process_intake\<close>, \<open>recover_intakes\<close>,
    \<open>deliver_outbox\<close>) are phases, and one step (\<open>bridge_next\<close>) runs one task to its next transaction or past its
    next awaited call, or starts or ends a process. \<open>Bridge_Once\<close>: the right to ask the runtime, the invariant that
    no two tasks hold it for one message, and that every message is asked at most once.

  Loops. Loops over data are structural. Retries, redirects and the watch over the parser process carry a
  measure or fuel: redirects are bounded by the constant in \<open>fetch.py\<close>, decompression by the length of its input
  and the body limit, the walk to the root of a lineage by the number of jobs; the theorems that the fuel is
  enough are among the properties.

  Not modelled. Elapsed times and rates in reports, semaphores, the lock of the manager (an operation is one
  step, as it runs under it), the outer timeout that races the parser, the metadata heuristics of HTML
  pages, the check whether a PDF consists of images, and the text normaliser of public text (parameters). Of the
  bridge, the HTTP calls to the runtime, the activity file and the Discord client are outside; failures of
  SQLite and of the file system are not modelled. The other subsystems of the repository, which run coding agents,
  provers and sandboxes through subprocesses and external services, are outside this library.
\<close>

end
